(* ===== verification/Xqc_Prelude.thy ===== *)
theory Xqc_Prelude
  imports Main "HOL-Library.Word"
begin

text \<open>
  Types, error values, byte-order helpers and generic lemmas shared by the component
  theories.

  \<^item> C's fixed width integers are words: \<open>uint8_t\<close> is \<open>u8\<close>, \<open>uint32_t\<close> is \<open>u32\<close>,
    \<open>uint64_t\<close> is \<open>u64\<close>; their arithmetic wraps.
  \<^item> A negative return code \<open>-XQC_E...\<close> is the left injection of \<open>xqc_err\<close>
    (include/xquic/xqc_errno.h), a success is the right injection.
  \<^item> A pair of pointers \<open>pos\<close>, \<open>end\<close> into a read buffer is the list of the bytes between
    them; a write buffer is a list that is overwritten in place by \<open>buf_write\<close>.
\<close>

unbundle bit_operations_syntax

section \<open>Machine types and results\<close>

type_synonym u8 = "8 word"
type_synonym u16 = "16 word"
type_synonym u32 = "32 word"
type_synonym u64 = "64 word"
type_synonym bytes = "u8 list"

datatype xqc_err =
    XQC_ERROR
  | XQC_ENOBUF
  | XQC_EVINTREAD
  | XQC_ENULLPTR
  | XQC_EMALLOC
  | XQC_EILLPKT
  | XQC_EPARAM
  | XQC_ESTATE
  | XQC_ELIMIT
  | XQC_EPROTO
  | XQC_EIGNORE_PKT
  | XQC_ECONN_NO_AVAIL_CID
  | XQC_ECONN_CID_NOT_FOUND
  | XQC_EILLEGAL_FRAME
  | XQC_ECID_STATE
  | XQC_EACTIVE_CID_LIMIT
  | XQC_EFEC_SYMBOL_ERROR
  | XQC_EMP_INVALID_MP_VERTION
  | XQC_ESYS
  | XQC_EDUP_FRAME
  | XQC_EAGAIN
  | XQC_CLOSING
  | XQC_ESTREAM_ST
  | XQC_ESTREAM_NFOUND
  | XQC_ESTREAM_RESET
  | XQC_EFINAL_SIZE
  | XQC_ECONN_BLOCKED
  | XQC_ESTREAM_BLOCKED
  | XQC_EWRITE_PKT
  | XQC_ECREATE_STREAM
  | XQC_EVERSION
  | XQC_EWAITING
  | XQC_EVERSION_NEGOTIATION
  | XQC_EAEAD_LIMIT
  | XQC_EMP_PATH_NOT_FOUND
  | XQC_EMP_PATH_STATE_ERROR
  | XQC_EDGRAM_NOT_SUPPORTED
  | XQC_EDGRAM_TOO_LARGE
  | XQC_EACK_EXT_ABN_VAL
  | XQC_EENCRYPT
  | XQC_EDECRYPT
  | TRA_TRANSPORT_PARAMETER_ERROR
  | XQC_TLS_INVALID_ARGUMENT
  | XQC_TLS_INVALID_STATE
  | XQC_TLS_DATA_REJECT
  | XQC_TLS_ENCRYPT_DATA_ERROR
  | XQC_TLS_DECRYPT_DATA_ERROR
  | XQC_TLS_DERIVE_KEY_ERROR
  | XQC_TLS_UPDATE_KEY_ERROR
  | XQC_TLS_DECRYPT_WHEN_KU_ERROR
  | QPACK_DECOMPRESSION_FAILED
  | QPACK_ENCODER_STREAM_ERROR
  | XQC_QPACK_DECODER_VARINT_ERROR
  | XQC_QPACK_DECODER_ERROR
  | XQC_QPACK_INSTRUCTION_ERROR
  | XQC_QPACK_STATE_ERROR
  | XQC_QPACK_HUFFMAN_DEC_ERROR
  | XQC_QPACK_HUFFMAN_DEC_STATE_ERROR
  | XQC_OVERREAD

text \<open>
  The last constructor is not an error code of the source: it marks an execution that reads or skips
  a byte behind the end of its input, which C leaves undefined.
\<close>

type_synonym 'a res = "xqc_err + 'a"

named_theorems wire_simps \<open>equations that carry the encoder and decoder proofs\<close>

section \<open>Byte order\<close>

text \<open>
  \<open>be_bytes k w\<close> are the low \<open>k\<close> bytes of \<open>w\<close>, most significant first: what the code
  obtains with \<open>bswap_64\<close>, \<open>htonl\<close> or \<open>htons\<close> followed by \<open>memcpy\<close>. \<open>be_val\<close> is the
  converse: \<open>memcpy\<close> followed by \<open>bswap_64\<close>, or the usual shift and or of single bytes.
\<close>

fun be_bytes :: "nat \<Rightarrow> u64 \<Rightarrow> bytes" where
  "be_bytes 0 w = []"
| "be_bytes (Suc k) w = be_bytes k (drop_bit 8 w) @ [ucast w]"

definition be_val :: "bytes \<Rightarrow> u64" where
  "be_val bs = foldl (\<lambda>a b. push_bit 8 a OR ucast b) 0 bs"

lemma be_val_Nil [simp]: "be_val [] = 0"
  by (simp add: be_val_def)

lemma be_val_snoc [simp]: "be_val (bs @ [b]) = push_bit 8 (be_val bs) OR ucast b"
  by (simp add: be_val_def)

lemma length_be_bytes [simp]: "length (be_bytes k w) = k"
  by (induction k arbitrary: w) auto

lemma be_val_be_bytes: "be_val (be_bytes k w) = take_bit (8 * k) w"
proof (induction k arbitrary: w)
  case 0
  show ?case by simp
next
  case (Suc k)
  show ?case
    by (rule bit_eqI) (auto simp: Suc bit_simps)
qed

lemma be_bytes_Cons: "be_bytes (Suc k) w = ucast (drop_bit (8 * k) w) # be_bytes k w"
proof (induction k arbitrary: w)
  case 0
  show ?case by simp
next
  case (Suc k)
  have "be_bytes (Suc (Suc k)) w = be_bytes (Suc k) (drop_bit 8 w) @ [ucast w]"
    by simp
  also have "\<dots> = (ucast (drop_bit (8 * k) (drop_bit 8 w)) # be_bytes k (drop_bit 8 w)) @ [ucast w]"
    by (simp only: Suc)
  finally show ?case
    by (simp add: add.commute)
qed

lemma be_bytes_nonempty [simp]: "be_bytes (Suc k) w \<noteq> []"
  by (simp add: be_bytes_Cons)

lemma be_bytes_drop: "j \<le> k \<Longrightarrow> drop (k - j) (be_bytes k w) = be_bytes j w"
proof (induction k arbitrary: w)
  case 0
  then show ?case by simp
next
  case (Suc k)
  show ?case
  proof (cases "j = Suc k")
    case True
    then show ?thesis by simp
  next
    case False
    with Suc.prems have le: "j \<le> k" by simp
    then have "Suc k - j = Suc (k - j)" by simp
    then have "drop (Suc k - j) (be_bytes (Suc k) w) = drop (k - j) (be_bytes k w)"
      by (simp only: be_bytes_Cons drop_Suc_Cons)
    with Suc.IH [OF le] show ?thesis by simp
  qed
qed

lemma be_val_Cons: "be_val (b # bs) = push_bit (8 * length bs) (ucast b) OR be_val bs"
proof (induction bs rule: rev_induct)
  case Nil
  show ?case by (simp add: be_val_def)
next
  case (snoc x xs)
  have "be_val (b # xs @ [x]) = push_bit 8 (be_val (b # xs)) OR ucast x"
    using be_val_snoc [of "b # xs" x] by simp
  also have "\<dots> = push_bit (8 * length (xs @ [x])) (ucast b) OR be_val (xs @ [x])"
    by (simp add: snoc push_bit_or or.assoc)
  finally show ?case .
qed

lemma be_val_less: "be_val bs = take_bit (8 * length bs) (be_val bs)"
proof (induction bs rule: rev_induct)
  case Nil
  then show ?case by simp
next
  case (snoc x xs)
  have *: "\<And>n. bit (be_val xs) n \<Longrightarrow> n < 8 * length xs"
    by (subst (asm) snoc) (simp add: bit_simps)
  show ?case
    by (rule bit_eqI) (auto simp: bit_simps dest: * bit_imp_le_length)
qed

lemma be_bytes_cong: "take_bit (8 * k) w = take_bit (8 * k) w' \<Longrightarrow> be_bytes k w = be_bytes k w'"
proof (induction k arbitrary: w w')
  case 0
  show ?case by simp
next
  case (Suc k)
  have bits: "bit w n = bit w' n" if "n < 8 * Suc k" for n
  proof -
    have "bit (take_bit (8 * Suc k) w) n = bit (take_bit (8 * Suc k) w') n"
      by (simp only: Suc.prems)
    with that show ?thesis by (simp only: bit_take_bit_iff simp_thms)
  qed
  have "take_bit (8 * k) w = take_bit (8 * k) w'"
    by (rule bit_eqI) (auto simp: bit_take_bit_iff bits)
  moreover have "(ucast (drop_bit (8 * k) w) :: u8) = ucast (drop_bit (8 * k) w')"
    by (rule bit_eqI) (auto simp: bit_simps bits)
  ultimately show ?case
    unfolding be_bytes_Cons by (simp only: Suc.IH [of w w'])
qed

section \<open>Write buffers\<close>

text \<open>
  \<open>buf_write buf off bs\<close> stores \<open>bs\<close> at offset \<open>off\<close> of \<open>buf\<close>, as \<open>memcpy(buf + off, ..)\<close>
  does. The write is inside the buffer exactly when the length of the buffer does not
  change.
\<close>

definition buf_write :: "bytes \<Rightarrow> nat \<Rightarrow> bytes \<Rightarrow> bytes" where
  "buf_write buf off bs = take off buf @ bs @ drop (off + length bs) buf"

lemma length_buf_write [simp]:
  "off + length bs \<le> length buf \<Longrightarrow> length (buf_write buf off bs) = length buf"
  by (simp add: buf_write_def)

lemma take_buf_write [simp]:
  "off \<le> length buf \<Longrightarrow> take off (buf_write buf off bs) = take off buf"
  by (simp add: buf_write_def)

lemma drop_buf_write [simp]:
  "off \<le> length buf \<Longrightarrow> drop off (buf_write buf off bs) = bs @ drop (off + length bs) buf"
  by (simp add: buf_write_def)

lemma buf_write_append:
  "off + length bs \<le> length buf \<Longrightarrow>
   buf_write (buf_write buf off bs) (off + length bs) cs = buf_write buf off (bs @ cs)"
  by (cases bs) (auto simp: buf_write_def min_def ac_simps)

section \<open>Words as numbers\<close>

lemma unat_u8_less: "unat (w :: u8) < 256"
proof -
  have "unat w < 2 ^ LENGTH(8)" by (rule unsigned_less)
  then show ?thesis by simp
qed

lemma unat_u32_less: "unat (w :: u32) < 2 ^ 32"
proof -
  have "unat w < 2 ^ LENGTH(32)" by (rule unsigned_less)
  then show ?thesis by simp
qed

lemma unat_u64_less: "unat (w :: u64) < 2 ^ 64"
proof -
  have "unat w < 2 ^ LENGTH(64)" by (rule unsigned_less)
  then show ?thesis by simp
qed

lemma unat_ucast_up:
  "LENGTH('a) \<le> LENGTH('b) \<Longrightarrow> unat (ucast (w :: 'a::len word) :: 'b::len word) = unat w"
proof -
  assume le: "LENGTH('a) \<le> LENGTH('b)"
  have "unat w < 2 ^ LENGTH('a)" by (rule unsigned_less)
  also have "\<dots> \<le> 2 ^ LENGTH('b)" using le by (rule power_increasing) simp
  finally show ?thesis by (simp add: unsigned_ucast_eq take_bit_nat_eq_self)
qed

lemma ucast_u8_u64_u8 [simp]: "ucast (ucast (b :: u8) :: u64) = b"
  by (rule bit_eqI) (auto simp: bit_simps dest: bit_imp_le_length)

lemma word_minus_one_unat: "(w :: 'a::len word) \<noteq> 0 \<Longrightarrow> unat (w - 1) = unat w - 1"
  by (simp add: unat_minus_one)

lemma word_plus_one_unat:
  "Suc (unat (w :: 'a::len word)) < 2 ^ LENGTH('a) \<Longrightarrow> unat (w + 1) = Suc (unat w)"
  by (simp add: unat_word_ariths)

lemma unat_diff_le: "(b :: 'a::len word) \<le> a \<Longrightarrow> unat (a - b) = unat a - unat b"
  by (simp add: unat_sub)

lemma take_bit_self: "unat v < 2 ^ n \<Longrightarrow> take_bit n v = v"
  for v :: "'a::len word"
  by (simp add: word_unat_eq_iff unsigned_take_bit_eq take_bit_nat_eq_self)

lemma unat_pow2: "k < 64 \<Longrightarrow> unat (2 ^ k :: u64) = 2 ^ k"
proof -
  assume "k < 64"
  then have "(2::nat) ^ k < 2 ^ LENGTH(64)" by (intro power_strict_increasing) auto
  then have "unat (of_nat (2 ^ k) :: u64) = 2 ^ k" by (simp only: unat_of_nat mod_less)
  then show ?thesis by simp
qed

section \<open>Prefix codes\<close>

text \<open>
  The contract of a self-delimiting encoding: the decoder finds a value at the head of its
  input, whatever follows, and returns what follows. What the layers above rely on is proved here
  once: a sequence of encodings determines the sequence of values.
\<close>

locale prefix_code =
  fixes enc :: "'f \<Rightarrow> 'b list"
    and dec :: "'b list \<Rightarrow> ('f \<times> 'b list) option"
    and ok :: "'f \<Rightarrow> bool"
  assumes enc_nonempty: "ok f \<Longrightarrow> enc f \<noteq> []"
    and dec_enc: "ok f \<Longrightarrow> dec (enc f @ r) = Some (f, r)"
begin

lemma head_unique:
  assumes "ok f" and "ok g" and "enc f @ r = enc g @ s"
  shows "f = g \<and> r = s"
proof -
  have "Some (f, r) = dec (enc f @ r)" by (rule dec_enc [OF assms(1), symmetric])
  also have "\<dots> = dec (enc g @ s)" by (simp only: assms(3))
  also have "\<dots> = Some (g, s)" by (rule dec_enc [OF assms(2)])
  finally show ?thesis by simp
qed

lemma sequence_unique:
  assumes "\<forall>f \<in> set fs. ok f" and "\<forall>g \<in> set gs. ok g"
    and "concat (map enc fs) = concat (map enc gs)"
  shows "fs = gs"
  using assms
proof (induction fs arbitrary: gs)
  case Nil
  show ?case
  proof (cases gs)
    case (Cons g gs')
    then have "ok g" "enc g = []" using Nil.prems by simp_all
    then show ?thesis using enc_nonempty by blast
  qed simp
next
  case (Cons f fs)
  have ok: "ok f" using Cons.prems(1) by simp
  obtain g gs' where gs: "gs = g # gs'"
    using Cons.prems(3) enc_nonempty [OF ok] by (cases gs) simp_all
  have "f = g \<and> concat (map enc fs) = concat (map enc gs')"
    using Cons.prems gs by (intro head_unique) simp_all
  with Cons.IH [of gs'] Cons.prems gs show ?case by simp
qed

end

end
