(* ===== verification/Vint.thy ===== *)
theory Vint
  imports Xqc_Prelude
begin

text \<open>
  QUIC variable-length integers: src/common/utils/vint/xqc_variable_len_int.h and .c (the
  macros \<open>xqc_vint_get_2bit\<close>, \<open>xqc_vint_len\<close>, \<open>xqc_vint_write\<close>, the reader \<open>xqc_vint_read\<close>
  and the \<open>xqc_put_varint\<close> family) and the incremental readers of
  xqc_discrete_int_parser.c. The theorems relate every reader to every writer.
\<close>

section \<open>Encoder macros\<close>

definition xqc_vint_get_2bit :: "u64 \<Rightarrow> nat" where
  "xqc_vint_get_2bit v =
     (if v \<ge> push_bit 6 1 then 1 else 0) + (if v \<ge> push_bit 14 1 then 1 else 0)
     + (if v \<ge> push_bit 30 1 then 1 else 0)"

definition xqc_vint_usable_bits :: "nat \<Rightarrow> nat" where
  "xqc_vint_usable_bits two_bit = 2 ^ (3 + two_bit) - 2"

definition xqc_vint_len :: "nat \<Rightarrow> nat" where
  "xqc_vint_len two_bit = 2 ^ two_bit"

definition xqc_vint_len_by_val :: "u64 \<Rightarrow> nat" where
  "xqc_vint_len_by_val v = 2 ^ xqc_vint_get_2bit v"

definition xqc_vint_write :: "u64 \<Rightarrow> nat \<Rightarrow> nat \<Rightarrow> bytes" where
  "xqc_vint_write v two_bit len =
     (let buf = v OR push_bit (xqc_vint_usable_bits two_bit) (of_nat two_bit)
      in drop (8 - len) (be_bytes 8 buf))"

text \<open>The usual call: the shortest form of \<open>v\<close>.\<close>

definition vint_bytes :: "u64 \<Rightarrow> bytes" where
  "vint_bytes v =
     xqc_vint_write v (xqc_vint_get_2bit v) (xqc_vint_len (xqc_vint_get_2bit v))"

definition XQC_VINT_MAX :: u64 where
  "XQC_VINT_MAX = push_bit 62 1 - 1"

section \<open>Decoder\<close>

definition xqc_vint_read :: "bytes \<Rightarrow> (nat \<times> u64) option" where
  "xqc_vint_read p =
     (case p of
        [] \<Rightarrow> None
      | b # _ \<Rightarrow>
          (let tb = unat (drop_bit 6 b) in
           if tb = 0 then Some (1, ucast b)
           else if tb = 1 then
             (if length p \<le> 1 then None
              else Some (2, push_bit 8 (ucast (p ! 0 AND 63)) OR ucast (p ! 1)))
           else if tb = 2 then
             (if length p \<le> 3 then None
              else Some (4, push_bit 24 (ucast (p ! 0 AND 63)) OR push_bit 16 (ucast (p ! 1))
                            OR push_bit 8 (ucast (p ! 2)) OR push_bit 0 (ucast (p ! 3))))
           else
             (if length p \<le> 7 then None
              else Some (8, be_val (take 8 p) AND (push_bit 62 1 - 1)))))"

text \<open>
  The reading idiom of the parsers: \<open>vlen = xqc_vint_read(p, end, &v); if (vlen < 0) return e;
  p += vlen;\<close> followed by the rest of the function. \<open>rd_vint\<close> takes the result of the early
  return; \<open>vint_field\<close> is the case in which it is \<open>-XQC_EVINTREAD\<close>.
\<close>

definition rd_vint :: "'r \<Rightarrow> bytes \<Rightarrow> (u64 \<Rightarrow> bytes \<Rightarrow> 'r) \<Rightarrow> 'r" where
  "rd_vint fail p k =
     (case xqc_vint_read p of
        None \<Rightarrow> fail
      | Some (vlen, v) \<Rightarrow> k v (drop vlen p))"

abbreviation vint_field :: "bytes \<Rightarrow> (u64 \<Rightarrow> bytes \<Rightarrow> 'a res) \<Rightarrow> 'a res" where
  "vint_field \<equiv> rd_vint (Inl XQC_EVINTREAD)"

section \<open>The varint writer\<close>

definition xqc_put_varint_len :: "u64 \<Rightarrow> nat" where
  "xqc_put_varint_len n =
     (if n < 64 then 1 else if n < 16384 then 2 else if n < 1073741824 then 4 else 8)"

definition xqc_put_uint16be :: "u16 \<Rightarrow> bytes" where
  "xqc_put_uint16be n = be_bytes 2 (ucast n)"

definition xqc_put_uint32be :: "u32 \<Rightarrow> bytes" where
  "xqc_put_uint32be n = be_bytes 4 (ucast n)"

definition xqc_put_uint64be :: "u64 \<Rightarrow> bytes" where
  "xqc_put_uint64be n = be_bytes 8 n"

definition or_first :: "u8 \<Rightarrow> bytes \<Rightarrow> bytes" where
  "or_first m bs = (case bs of [] \<Rightarrow> [] | b # r \<Rightarrow> (b OR m) # r)"

definition xqc_put_varint :: "u64 \<Rightarrow> bytes option" where
  "xqc_put_varint n =
     (if n < 64 then Some [ucast n]
      else if n < 16384 then Some (or_first 64 (xqc_put_uint16be (ucast n)))
      else if n < 1073741824 then Some (or_first 128 (xqc_put_uint32be (ucast n)))
      else if n \<ge> 4611686018427387904 then None
      else Some (or_first 192 (xqc_put_uint64be n)))"

section \<open>Incremental readers\<close>

record xqc_discrete_int_pctx =
  vi :: u64
  left :: nat

definition xqc_discrete_int_pctx_clear :: "xqc_discrete_int_pctx \<Rightarrow> xqc_discrete_int_pctx" where
  "xqc_discrete_int_pctx_clear pctx = pctx\<lparr>vi := 0, left := 0\<rparr>"

definition xqc_get_varint_len :: "u8 \<Rightarrow> nat" where
  "xqc_get_varint_len b = 2 ^ unat (drop_bit 6 b)"

definition xqc_get_varint_fb :: "u8 \<Rightarrow> u64" where
  "xqc_get_varint_fb b = ucast (b AND 63)"

text \<open>The loop \<open>while (pos < end) vi = (vi << 8) + *pos++\<close>.\<close>

fun shift_in :: "u64 \<Rightarrow> bytes \<Rightarrow> u64" where
  "shift_in v [] = v"
| "shift_in v (b # bs) = shift_in (push_bit 8 v + ucast b) bs"

text \<open>Result: bytes consumed, the context, and \<open>*fin\<close>.\<close>

definition xqc_discrete_vint_parse ::
    "bytes \<Rightarrow> xqc_discrete_int_pctx \<Rightarrow> nat \<times> xqc_discrete_int_pctx \<times> bool" where
  "xqc_discrete_vint_parse p pctx =
     (if p = [] then (0, pctx, False)
      else
        let (pctx1, pos, used) =
              (if left pctx = 0
               then (pctx\<lparr>left := xqc_get_varint_len (hd p) - 1, vi := xqc_get_varint_fb (hd p)\<rparr>,
                     tl p, 1)
               else (pctx, p, 0));
            cnt = min (left pctx1) (length pos);
            pctx2 = pctx1\<lparr>vi := shift_in (vi pctx1) (take cnt pos), left := left pctx1 - cnt\<rparr>
        in (used + cnt, pctx2, left pctx2 = 0))"

definition xqc_fixed_len_int_parse ::
    "bytes \<Rightarrow> u8 \<Rightarrow> xqc_discrete_int_pctx \<Rightarrow> nat \<times> xqc_discrete_int_pctx \<times> bool" where
  "xqc_fixed_len_int_parse p len pctx =
     (if p = [] then (0, pctx, False)
      else
        let pctx1 = (if left pctx = 0 then pctx\<lparr>left := unat len\<rparr> else pctx);
            cnt = min (left pctx1) (length p);
            pctx2 = pctx1\<lparr>vi := shift_in (vi pctx1) (take cnt p), left := left pctx1 - cnt\<rparr>
        in (cnt, pctx2, left pctx2 = 0))"

section \<open>Reading back what was written\<close>

lemma and_63: "(b :: u8) AND 63 = take_bit 6 b"
  by (simp add: take_bit_eq_mask mask_eq_exp_minus_1)

lemma two_bits_less: "unat (drop_bit 6 (b :: u8)) < 4"
proof -
  have "unat b < 256" using unsigned_less [of b] by simp
  moreover have "unat (drop_bit 6 b) = unat b div 64"
    unfolding unat_drop_bit_eq by (simp add: drop_bit_eq_div)
  ultimately show ?thesis by simp
qed

lemma two_bits_cases:
  obtains "unat (drop_bit 6 (b :: u8)) = 0" | "unat (drop_bit 6 b) = 1"
  | "unat (drop_bit 6 b) = 2" | "unat (drop_bit 6 b) = 3"
  using two_bits_less [of b] by linarith

lemma take_bit_first:
  "take_bit (8 * k + 6) (push_bit (8 * k) (ucast (b :: u8)) OR w) =
   push_bit (8 * k) (ucast (b AND 63)) OR take_bit (8 * k + 6) (w :: u64)"
  unfolding and_63 by (rule bit_eqI) (auto simp: bit_simps)

lemma be_val_cut:
  "take_bit (8 * length bs + 6) (be_val (b # bs)) =
   push_bit (8 * length bs) (ucast (b AND 63)) OR be_val bs"
proof -
  have "take_bit (8 * length bs + 6) (be_val bs) = be_val bs"
    by (subst (1 2) be_val_less) simp
  then show ?thesis
    unfolding be_val_Cons take_bit_first by simp
qed

text \<open>Every reader is the big-endian value of the bytes with the two length bits cut off.\<close>

lemma xqc_vint_read_eq:
  "xqc_vint_read p =
     (if p = [] then None
      else let len = 2 ^ unat (drop_bit 6 (hd p)) in
        if length p < len then None
        else Some (len, take_bit (8 * len - 2) (be_val (take len p))))"
proof (cases p)
  case Nil
  then show ?thesis by (simp add: xqc_vint_read_def)
next
  case (Cons b r)
  show ?thesis
  proof (cases rule: two_bits_cases [of b])
    case 1
    then have "take_bit 6 b = b"
      by (simp add: take_bit_eq_self_iff_drop_bit_eq_0 unat_eq_zero)
    then have "take_bit 6 (ucast b) = (ucast b :: u64)"
      using take_bit_first [of 0 b 0] by (simp add: and_63)
    with 1 Cons show ?thesis
      by (simp add: xqc_vint_read_def be_val_Cons)
  next
    case 2
    show ?thesis
    proof (cases "length p \<le> 1")
      case True
      with 2 Cons show ?thesis by (simp add: xqc_vint_read_def)
    next
      case False
      with Cons obtain c r' where "r = c # r'" by (cases r) auto
      with 2 Cons be_val_cut [of "[c]" b] show ?thesis
        by (simp add: xqc_vint_read_def be_val_Cons)
    qed
  next
    case 3
    show ?thesis
    proof (cases "length p \<le> 3")
      case True
      with 3 Cons show ?thesis by (simp add: xqc_vint_read_def)
    next
      case False
      with Cons obtain c d e r' where "r = c # d # e # r'"
        by (auto simp: not_le Suc_le_length_iff less_eq_Suc_le numeral_eq_Suc)
      with 3 Cons be_val_cut [of "[c, d, e]" b] show ?thesis
        by (simp add: xqc_vint_read_def be_val_Cons or.assoc)
    qed
  next
    case 4
    with Cons show ?thesis
      by (simp add: xqc_vint_read_def take_bit_eq_mask mask_eq_exp_minus_1)
  qed
qed

lemma vint_write_2: "length (xqc_vint_write v t 2) = 2"
  by (simp add: xqc_vint_write_def)

lemma xqc_vint_write_eq:
  "tb < 4 \<Longrightarrow> xqc_vint_write v tb (xqc_vint_len tb) =
     be_bytes (2 ^ tb) (v OR push_bit (8 * 2 ^ tb - 2) (of_nat tb))"
proof -
  assume "tb < 4"
  then have "2 ^ tb \<le> (8::nat)" using power_increasing [of tb 3 "2::nat"] by simp
  then show ?thesis
    by (simp add: xqc_vint_write_def xqc_vint_len_def xqc_vint_usable_bits_def be_bytes_drop
        power_add del: be_bytes.simps)
qed

lemma bit_small: "tb < 4 \<Longrightarrow> bit (tb :: nat) n \<Longrightarrow> n < 2"
proof -
  assume "tb < 4" and b: "bit tb n"
  then have "take_bit 2 tb = tb" by (simp add: take_bit_nat_eq_self)
  with b show ?thesis by (metis bit_take_bit_iff)
qed

lemma vint_word_bits:
  assumes tb: "tb < 4" and k: "(2::nat) ^ tb = Suc k" and v: "take_bit (8 * k + 6) v = (v :: u64)"
  defines "w \<equiv> v OR push_bit (8 * k + 6) (of_nat tb)"
  shows "drop_bit 6 (ucast (drop_bit (8 * k) w) :: u8) = of_nat tb"
    and "take_bit (8 * k + 6) w = v"
proof -
  have "(2::nat) ^ tb \<le> 2 ^ 3" using tb by (intro power_increasing) auto
  with k have k7: "k \<le> 7" by simp
  have bv: "\<And>n. bit v n \<Longrightarrow> n < 8 * k + 6" by (subst (asm) v [symmetric]) (simp add: bit_simps)
  note small = bit_small [OF tb]
  show "drop_bit 6 (ucast (drop_bit (8 * k) w) :: u8) = of_nat tb"
    unfolding w_def using k7 by (intro bit_eqI) (auto simp: bit_simps dest: bv small)
  show "take_bit (8 * k + 6) w = v"
    unfolding w_def by (intro bit_eqI) (auto simp: bit_simps dest: bv)
qed

lemma vint_read_write:
  assumes tb: "tb < 4" and v: "take_bit (8 * 2 ^ tb - 2) v = v"
  shows "xqc_vint_read (xqc_vint_write v tb (xqc_vint_len tb) @ r) = Some (2 ^ tb, v)"
proof -
  obtain k where k: "(2::nat) ^ tb = Suc k" by (cases "(2::nat) ^ tb") auto
  then have e: "8 * 2 ^ tb - 2 = 8 * k + 6" by simp
  define w where "w = v OR push_bit (8 * k + 6) (of_nat tb)"
  note bits = vint_word_bits [OF tb k v [unfolded e], folded w_def]
  have wr: "xqc_vint_write v tb (xqc_vint_len tb) = be_bytes (Suc k) w"
    using xqc_vint_write_eq [OF tb, of v, unfolded e, unfolded k] by (simp only: w_def)
  have hd: "unat (drop_bit 6 (hd (be_bytes (Suc k) w @ r))) = tb"
    using bits(1) tb by (simp add: be_bytes_Cons unat_of_nat del: be_bytes.simps)
  have val: "take_bit (8 * Suc k - 2) (be_val (be_bytes (Suc k) w)) = v"
    using bits(2) by (simp add: be_val_be_bytes min_def add.commute del: be_bytes.simps)
  show ?thesis
    unfolding xqc_vint_read_eq wr hd Let_def k using val by (simp del: be_bytes.simps)
qed

lemma get_2bit_less [simp]: "xqc_vint_get_2bit v < 4"
  by (simp add: xqc_vint_get_2bit_def)

lemma unat_VINT_MAX: "v \<le> XQC_VINT_MAX \<longleftrightarrow> unat v < 2 ^ 62"
  by (auto simp: XQC_VINT_MAX_def word_le_nat_alt)

lemma get_2bit_enough:
  assumes "v \<le> XQC_VINT_MAX"
  shows "take_bit (8 * 2 ^ xqc_vint_get_2bit v - 2) v = v"
  using assms unfolding unat_VINT_MAX xqc_vint_get_2bit_def
  by (auto simp: word_le_nat_alt not_le intro!: take_bit_self)

lemma length_vint_bytes: "length (vint_bytes v) = xqc_vint_len (xqc_vint_get_2bit v)"
  unfolding vint_bytes_def xqc_vint_write_eq [OF get_2bit_less]
  by (simp only: length_be_bytes xqc_vint_len_def)

lemma vint_read_bytes:
  assumes "v \<le> XQC_VINT_MAX"
  shows "xqc_vint_read (vint_bytes v @ r) = Some (xqc_vint_len (xqc_vint_get_2bit v), v)"
  unfolding vint_bytes_def vint_read_write [OF get_2bit_less get_2bit_enough [OF assms]]
  by (simp only: xqc_vint_len_def)

lemma rd_vint_bytes [wire_simps]:
  "v \<le> XQC_VINT_MAX \<Longrightarrow> rd_vint e (vint_bytes v @ r) k = k v r"
  by (simp add: rd_vint_def vint_read_bytes length_vint_bytes [symmetric])

definition vint_dec :: "bytes \<Rightarrow> (u64 \<times> bytes) option" where
  "vint_dec p = map_option (\<lambda>(vlen, v). (v, drop vlen p)) (xqc_vint_read p)"

interpretation vint: prefix_code vint_bytes vint_dec "\<lambda>v. v \<le> XQC_VINT_MAX"
proof
  fix v :: u64 and r
  assume v: "v \<le> XQC_VINT_MAX"
  show "vint_bytes v \<noteq> []" using length_vint_bytes [of v] by (auto simp: xqc_vint_len_def)
  show "vint_dec (vint_bytes v @ r) = Some (v, r)"
    using v by (simp add: vint_dec_def vint_read_bytes length_vint_bytes [symmetric])
qed

lemma vint_read_length: "xqc_vint_read p = Some (n, v) \<Longrightarrow> n \<le> length p \<and> 0 < n"
  by (auto simp: xqc_vint_read_eq Let_def split: if_splits)

lemma vint_read_le_MAX: "xqc_vint_read p = Some (n, v) \<Longrightarrow> v \<le> XQC_VINT_MAX"
proof -
  assume r: "xqc_vint_read p = Some (n, v)"
  define tb where "tb = unat (drop_bit 6 (hd p))"
  have "tb < 4" unfolding tb_def by (rule two_bits_less)
  then have "(2::nat) ^ tb \<le> 2 ^ 3" by (intro power_increasing) auto
  then have le: "8 * 2 ^ tb - 2 \<le> (62::nat)" by simp
  from r have "v = take_bit (8 * 2 ^ tb - 2) (be_val (take (2 ^ tb) p))"
    by (auto simp: xqc_vint_read_eq Let_def tb_def split: if_splits)
  then have "unat v < 2 ^ (8 * 2 ^ tb - 2)"
    by (simp add: unsigned_take_bit_eq)
  also have "\<dots> \<le> 2 ^ 62" using le by (intro power_increasing) auto
  finally show ?thesis by (simp only: unat_VINT_MAX)
qed

lemma or_first_be_bytes:
  assumes "k \<le> 7"
  shows "or_first m (be_bytes (Suc k) w) = be_bytes (Suc k) (w OR push_bit (8 * k) (ucast m))"
proof -
  have "(ucast (drop_bit (8 * k) w) :: u8) OR m =
        ucast (drop_bit (8 * k) (w OR push_bit (8 * k) (ucast m)))"
    using assms by (intro bit_eqI) (auto simp: bit_simps)
  moreover have "be_bytes k w = be_bytes k (w OR push_bit (8 * k) (ucast m))"
    by (intro be_bytes_cong bit_eqI) (auto simp: bit_simps)
  ultimately show ?thesis
    unfolding be_bytes_Cons or_first_def by simp
qed

lemma or_first_vint:
  assumes "tb < 4" and "k = 2 ^ tb - 1" and "take_bit (8 * Suc k) w = take_bit (8 * Suc k) n"
    and "m = push_bit 6 (of_nat tb)"
  shows "or_first m (be_bytes (Suc k) w) = xqc_vint_write n tb (xqc_vint_len tb)"
proof -
  have "(2::nat) ^ tb \<le> 2 ^ 3" using assms(1) by (intro power_increasing) auto
  then have k: "k \<le> 7" "(2::nat) ^ tb = Suc k" using assms(2) by simp_all
  have "push_bit (8 * k) (ucast m) = (push_bit (8 * k + 6) (of_nat tb) :: u64)"
    unfolding assms(4)
    by (intro bit_eqI) (auto simp: bit_simps dest: bit_small [OF assms(1)])
  moreover have "be_bytes (Suc k) (w OR x) = be_bytes (Suc k) (n OR x)" for x
    using assms(3) by (intro be_bytes_cong) (simp only: take_bit_or)
  moreover have "8 * Suc k - 2 = 8 * k + 6" by simp
  ultimately show ?thesis
    unfolding or_first_be_bytes [OF k(1)] xqc_vint_write_eq [OF assms(1)] k(2) by (simp only:)
qed

lemma xqc_put_varint_eq:
  "xqc_put_varint n = (if n \<le> XQC_VINT_MAX then Some (vint_bytes n) else None)"
proof -
  have low: "take_bit 16 (ucast (ucast n :: u16)) = take_bit 16 n"
    "take_bit 32 (ucast (ucast n :: u32)) = take_bit 32 n"
    by (intro bit_eqI; auto simp: bit_simps)+
  have be: "be_bytes 2 = be_bytes (Suc 1)" "be_bytes 4 = be_bytes (Suc 3)"
    "be_bytes 8 = be_bytes (Suc 7)"
    by (rule arg_cong [where f = be_bytes]; simp)+
  note defs = xqc_put_varint_def vint_bytes_def word_less_nat_alt
  consider "unat n < 64" | "64 \<le> unat n" "unat n < 16384"
    | "16384 \<le> unat n" "unat n < 1073741824"
    | "1073741824 \<le> unat n" "unat n < 4611686018427387904"
    | "4611686018427387904 \<le> unat n"
    by linarith
  then show ?thesis
  proof cases
    case 1
    then have "xqc_vint_get_2bit n = 0"
      by (simp add: xqc_vint_get_2bit_def word_le_nat_alt)
    moreover from 1 have "n \<le> XQC_VINT_MAX" by (simp add: unat_VINT_MAX)
    ultimately show ?thesis
      using 1 by (simp add: defs xqc_vint_write_eq)
  next
    case 2
    then have "xqc_vint_get_2bit n = 1"
      by (simp add: xqc_vint_get_2bit_def word_le_nat_alt)
    moreover from 2 have "n \<le> XQC_VINT_MAX" by (simp add: unat_VINT_MAX)
    moreover have "or_first 64 (xqc_put_uint16be (ucast n)) = xqc_vint_write n 1 (xqc_vint_len 1)"
      unfolding xqc_put_uint16be_def be by (rule or_first_vint) (simp_all add: low)
    ultimately show ?thesis
      using 2 by (simp add: defs)
  next
    case 3
    then have "xqc_vint_get_2bit n = 2"
      by (simp add: xqc_vint_get_2bit_def word_le_nat_alt)
    moreover from 3 have "n \<le> XQC_VINT_MAX" by (simp add: unat_VINT_MAX)
    moreover have "or_first 128 (xqc_put_uint32be (ucast n)) = xqc_vint_write n 2 (xqc_vint_len 2)"
      unfolding xqc_put_uint32be_def be by (rule or_first_vint) (simp_all add: low)
    ultimately show ?thesis
      using 3 by (simp add: defs)
  next
    case 4
    then have "xqc_vint_get_2bit n = 3"
      by (simp add: xqc_vint_get_2bit_def word_le_nat_alt)
    moreover from 4 have "n \<le> XQC_VINT_MAX" by (simp add: unat_VINT_MAX)
    moreover have "or_first 192 (xqc_put_uint64be n) = xqc_vint_write n 3 (xqc_vint_len 3)"
      unfolding xqc_put_uint64be_def be by (rule or_first_vint) simp_all
    ultimately show ?thesis
      using 4 by (simp add: defs word_le_nat_alt)
  next
    case 5
    then have "\<not> n \<le> XQC_VINT_MAX" by (simp add: unat_VINT_MAX)
    with 5 show ?thesis
      by (simp add: defs word_le_nat_alt)
  qed
qed

lemma shift_in_append: "shift_in v (xs @ ys) = shift_in (shift_in v xs) ys"
  by (induction xs arbitrary: v) auto

lemma push_plus_or: "push_bit 8 v + ucast (b :: u8) = push_bit 8 v OR (ucast b :: u64)"
  by (rule disjunctive_add) (auto simp: bit_simps dest: bit_imp_le_length)

lemma shift_in_eq: "shift_in v bs = push_bit (8 * length bs) v OR be_val bs"
proof (induction bs arbitrary: v)
  case Nil
  show ?case by simp
next
  case (Cons b bs)
  show ?case
    by (simp add: Cons be_val_Cons push_plus_or push_bit_or or.assoc)
      (simp only: add.commute)
qed

lemma discrete_vint_parse_append:
  assumes "xqc_discrete_vint_parse p c = (n, c', False)" and "p \<noteq> []" and "q \<noteq> []"
  shows "n = length p"
    and "xqc_discrete_vint_parse (p @ q) c =
      (let (n', c'', fin) = xqc_discrete_vint_parse q c' in (length p + n', c'', fin))"
proof -
  define c1 where "c1 = (if left c = 0
    then c\<lparr>left := xqc_get_varint_len (hd p) - 1, vi := xqc_get_varint_fb (hd p)\<rparr> else c)"
  define pos where "pos = (if left c = 0 then tl p else p)"
  define used :: nat where "used = (if left c = 0 then 1 else 0)"
  have step: "xqc_discrete_vint_parse (p @ r) c =
      (used + min (left c1) (length (pos @ r)),
       c1\<lparr>vi := shift_in (vi c1) (take (min (left c1) (length (pos @ r))) (pos @ r)),
          left := left c1 - min (left c1) (length (pos @ r))\<rparr>,
       left c1 - min (left c1) (length (pos @ r)) = 0)" for r
    using assms(2) by (simp add: xqc_discrete_vint_parse_def c1_def pos_def used_def Let_def)
  have lt: "length pos < left c1" and n: "n = used + length pos"
    and c': "c' = c1\<lparr>vi := shift_in (vi c1) pos, left := left c1 - length pos\<rparr>"
    using assms(1) step [of "[]"] by (auto simp: min_def split: if_splits)
  have up: "used + length pos = length p"
    using assms(2) by (auto simp: used_def pos_def)
  show "n = length p" by (simp add: n up)
  have "xqc_discrete_vint_parse q c' =
      (min (left c1 - length pos) (length q),
       c'\<lparr>vi := shift_in (vi c') (take (min (left c1 - length pos) (length q)) q),
          left := left c1 - length pos - min (left c1 - length pos) (length q)\<rparr>,
       left c1 - length pos - min (left c1 - length pos) (length q) = 0)"
    using lt assms(3) by (auto simp: xqc_discrete_vint_parse_def c' Let_def min_def)
  moreover have "min (left c1) (length (pos @ q)) = length pos + min (left c1 - length pos) (length q)"
    using lt by simp
  ultimately show "xqc_discrete_vint_parse (p @ q) c =
      (let (n', c'', fin) = xqc_discrete_vint_parse q c' in (length p + n', c'', fin))"
    unfolding step using lt up by (simp add: c' shift_in_append)
qed

lemma discrete_vint_parse_first:
  assumes "p \<noteq> []" and "left c = 0"
  shows "xqc_discrete_vint_parse p c =
    (case xqc_vint_read p of
       Some (len, v) \<Rightarrow> (len, c\<lparr>vi := v, left := 0\<rparr>, True)
     | None \<Rightarrow> (length p,
         c\<lparr>vi := shift_in (xqc_get_varint_fb (hd p)) (tl p),
            left := xqc_get_varint_len (hd p) - length p\<rparr>, False))"
proof -
  obtain b r where p: "p = b # r" using assms(1) by (cases p) auto
  let ?len = "(2::nat) ^ unat (drop_bit 6 b)"
  obtain k where k: "?len = Suc k" by (cases ?len) auto
  show ?thesis
  proof (cases "length p < ?len")
    case True
    with k show ?thesis
      by (simp add: xqc_discrete_vint_parse_def xqc_vint_read_eq p assms Let_def xqc_get_varint_len_def)
  next
    case False
    then have kr: "k \<le> length r" using k p by simp
    have "take_bit (8 * Suc k - 2) (be_val (take (Suc k) p)) = shift_in (xqc_get_varint_fb b) (take k r)"
      using be_val_cut [of "take k r" b] kr
      by (simp add: p shift_in_eq xqc_get_varint_fb_def add.commute)
    with False k kr show ?thesis
      by (simp add: xqc_discrete_vint_parse_def xqc_vint_read_eq p assms Let_def
          xqc_get_varint_len_def)
  qed
qed

section \<open>Properties\<close>

text \<open>C27: The decoder \<open>xqc_vint_read\<close> returns the length and the value that the macro
  \<open>xqc_vint_write\<close> encoded, for each of the four length classes and every value that fits the
  class, whatever bytes follow in the packet.\<close>

theorem vint_roundtrip:
  assumes "tb < 4" and "unat v < 2 ^ xqc_vint_usable_bits tb"
  shows "xqc_vint_read (xqc_vint_write v tb (xqc_vint_len tb) @ rest) = Some (xqc_vint_len tb, v)"
proof -
  have "xqc_vint_usable_bits tb = 8 * 2 ^ tb - 2"
    by (simp add: xqc_vint_usable_bits_def power_add)
  with assms have "take_bit (8 * 2 ^ tb - 2) v = v" by (simp add: take_bit_self)
  from vint_read_write [OF assms(1) this] show ?thesis by (simp only: xqc_vint_len_def)
qed

theorem vint_roundtrip_witness:
  "xqc_vint_read (xqc_vint_write 15293 1 (xqc_vint_len 1) @ [7]) = Some (xqc_vint_len 1, 15293)"
  by (rule vint_roundtrip) (simp_all add: xqc_vint_usable_bits_def)

text \<open>The two writers agree: \<open>xqc_put_varint\<close> produces the bytes of \<open>xqc_vint_write\<close> at
  the class chosen by \<open>xqc_vint_get_2bit\<close>, of the length \<open>xqc_put_varint_len\<close> announces, and
  fails exactly on the values above \<open>XQC_VINT_MAX\<close>.\<close>

theorem put_varint_agrees:
  "xqc_put_varint n =
     (if n \<le> XQC_VINT_MAX
      then Some (xqc_vint_write n (xqc_vint_get_2bit n) (xqc_vint_len (xqc_vint_get_2bit n)))
      else None)
   \<and> xqc_put_varint_len n = xqc_vint_len (xqc_vint_get_2bit n)"
  using xqc_put_varint_eq [of n]
  by (auto simp: vint_bytes_def xqc_put_varint_len_def xqc_vint_get_2bit_def xqc_vint_len_def
      word_le_nat_alt word_less_nat_alt)

text \<open>The incremental reader does not depend on where the input is cut: a varint that
  \<open>xqc_vint_read\<close> reads from \<open>p @ q\<close> and that is not complete in \<open>p\<close> is returned, with
  the rest of its length, when \<open>p\<close> and then \<open>q\<close> are fed to \<open>xqc_discrete_vint_parse\<close>.\<close>

theorem discrete_vint_split:
  assumes "xqc_vint_read (p @ q) = Some (len, v)" and "p \<noteq> []" and "length p < len"
  shows "\<exists>c'. xqc_discrete_vint_parse p (xqc_discrete_int_pctx_clear c) = (length p, c', False)
    \<and> xqc_discrete_vint_parse q c' = (len - length p, c\<lparr>vi := v, left := 0\<rparr>, True)"
proof -
  let ?c = "xqc_discrete_int_pctx_clear c"
  have z: "left ?c = 0" by (simp add: xqc_discrete_int_pctx_clear_def)
  have q: "q \<noteq> []" using assms(1,3) vint_read_length by fastforce
  have "xqc_vint_read p = None"
    using assms by (auto simp: xqc_vint_read_eq Let_def split: if_splits)
  then obtain c' where c': "xqc_discrete_vint_parse p ?c = (length p, c', False)"
    using discrete_vint_parse_first [OF assms(2) z] by simp
  have "xqc_discrete_vint_parse (p @ q) ?c = (len, ?c\<lparr>vi := v, left := 0\<rparr>, True)"
    using discrete_vint_parse_first [of "p @ q" ?c] assms(1,2) z by simp
  with discrete_vint_parse_append(2) [OF c' assms(2) q] assms(3) c' show ?thesis
    by (auto simp: xqc_discrete_int_pctx_clear_def split: prod.splits)
qed

theorem discrete_vint_split_witness:
  "xqc_vint_read ([123] @ [189, 9]) = Some (2, 15293) \<and>
   (\<exists>c'. xqc_discrete_vint_parse [123] (xqc_discrete_int_pctx_clear \<lparr>vi = 0, left = 0\<rparr>) = (1, c', False)
     \<and> xqc_discrete_vint_parse [189, 9] c' = (1, \<lparr>vi = 15293, left = 0\<rparr>, True))"
proof -
  have r: "xqc_vint_read ([123] @ [189, 9]) = Some (2, 15293)"
    by (simp add: xqc_vint_read_def)
  from discrete_vint_split [OF r, where c = "\<lparr>vi = 0, left = 0\<rparr>"] have
    "\<exists>c'. xqc_discrete_vint_parse [123] (xqc_discrete_int_pctx_clear \<lparr>vi = 0, left = 0\<rparr>) = (length [123::u8], c', False)
     \<and> xqc_discrete_vint_parse [189, 9] c' =
        (2 - length [123::u8], \<lparr>vi = 0, left = 0\<rparr>\<lparr>vi := 15293, left := 0\<rparr>, True)"
    by simp
  with r show ?thesis by simp
qed

end
