(* ===== verification/Packet_Buf.thy ===== *)
theory Packet_Buf
  imports Vint "HOL-Library.Sublist"
begin

text \<open>
  The data shared by the frame encoders and decoders: packet types and number spaces
  (xqc_packet.h), frame types and their bits (xqc_frame.h), the packet under construction
  (xqc_packet_out.h), the packet being parsed (xqc_packet_in.h), the part of the connection
  the frame parsers read or change (xqc_conn.h), and the stream identifier tests of
  xqc_stream.h.

  Sizes and offsets inside one packet are natural numbers: they are bounded by the packet
  buffer, so their machine width plays no role. The bytes between \<open>pos\<close> and \<open>last\<close> of
  \<open>xqc_packet_in_t\<close> are the list \<open>pi_rest\<close>.
\<close>

section \<open>Packet types and number spaces\<close>

datatype xqc_pkt_num_space = XQC_PNS_INIT | XQC_PNS_HSK | XQC_PNS_APP_DATA | XQC_PNS_N

datatype xqc_pkt_type =
    XQC_PTYPE_INIT | XQC_PTYPE_0RTT | XQC_PTYPE_HSK | XQC_PTYPE_RETRY
  | XQC_PTYPE_SHORT_HEADER | XQC_PTYPE_VERSION_NEGOTIATION | XQC_PTYPE_NUM

datatype xqc_encrypt_level = XQC_ENC_LEV_INIT | XQC_ENC_LEV_0RTT | XQC_ENC_LEV_HSK | XQC_ENC_LEV_1RTT

fun pns_num :: "xqc_pkt_num_space \<Rightarrow> nat" where
  "pns_num XQC_PNS_INIT = 0"
| "pns_num XQC_PNS_HSK = 1"
| "pns_num XQC_PNS_APP_DATA = 2"
| "pns_num XQC_PNS_N = 3"

fun xqc_packet_type_to_enc_level :: "xqc_pkt_type \<Rightarrow> xqc_encrypt_level" where
  "xqc_packet_type_to_enc_level XQC_PTYPE_INIT = XQC_ENC_LEV_INIT"
| "xqc_packet_type_to_enc_level XQC_PTYPE_0RTT = XQC_ENC_LEV_0RTT"
| "xqc_packet_type_to_enc_level XQC_PTYPE_HSK = XQC_ENC_LEV_HSK"
| "xqc_packet_type_to_enc_level XQC_PTYPE_SHORT_HEADER = XQC_ENC_LEV_1RTT"
| "xqc_packet_type_to_enc_level _ = XQC_ENC_LEV_INIT"

fun xqc_packet_type_to_pns :: "xqc_pkt_type \<Rightarrow> xqc_pkt_num_space" where
  "xqc_packet_type_to_pns XQC_PTYPE_INIT = XQC_PNS_INIT"
| "xqc_packet_type_to_pns XQC_PTYPE_0RTT = XQC_PNS_APP_DATA"
| "xqc_packet_type_to_pns XQC_PTYPE_HSK = XQC_PNS_HSK"
| "xqc_packet_type_to_pns XQC_PTYPE_SHORT_HEADER = XQC_PNS_APP_DATA"
| "xqc_packet_type_to_pns _ = XQC_PNS_N"

definition xqc_has_packet_number :: "xqc_pkt_type \<Rightarrow> bool" where
  "xqc_has_packet_number t \<longleftrightarrow> \<not> (t = XQC_PTYPE_VERSION_NEGOTIATION \<or> t = XQC_PTYPE_RETRY)"

definition XQC_ACK_SPACE :: nat where "XQC_ACK_SPACE = 16"

definition XQC_QUIC_MIN_MSS :: nat where "XQC_QUIC_MIN_MSS = 1200"

definition XQC_MSS :: nat where "XQC_MSS = 1420 + XQC_ACK_SPACE"

definition XQC_TLS_AEAD_OVERHEAD_MAX_LEN :: nat where "XQC_TLS_AEAD_OVERHEAD_MAX_LEN = 16"

section \<open>Frame types\<close>

datatype xqc_frame_type =
    XQC_FRAME_PADDING | XQC_FRAME_PING | XQC_FRAME_ACK | XQC_FRAME_RESET_STREAM
  | XQC_FRAME_STOP_SENDING | XQC_FRAME_CRYPTO | XQC_FRAME_NEW_TOKEN | XQC_FRAME_STREAM
  | XQC_FRAME_MAX_DATA | XQC_FRAME_MAX_STREAM_DATA | XQC_FRAME_MAX_STREAMS
  | XQC_FRAME_DATA_BLOCKED | XQC_FRAME_STREAM_DATA_BLOCKED | XQC_FRAME_STREAMS_BLOCKED
  | XQC_FRAME_NEW_CONNECTION_ID | XQC_FRAME_RETIRE_CONNECTION_ID | XQC_FRAME_PATH_CHALLENGE
  | XQC_FRAME_PATH_RESPONSE | XQC_FRAME_CONNECTION_CLOSE | XQC_FRAME_HANDSHAKE_DONE
  | XQC_FRAME_ACK_MP | XQC_FRAME_PATH_ABANDON | XQC_FRAME_PATH_STATUS | XQC_FRAME_PATH_STANDBY
  | XQC_FRAME_PATH_AVAILABLE | XQC_FRAME_MP_NEW_CONNECTION_ID | XQC_FRAME_MP_RETIRE_CONNECTION_ID
  | XQC_FRAME_MAX_PATH_ID | XQC_FRAME_PATH_FROZEN | XQC_FRAME_DATAGRAM | XQC_FRAME_Extension
  | XQC_FRAME_SID | XQC_FRAME_REPAIR_SYMBOL | XQC_FRAME_RESET_STREAM_AT
  | XQC_FRAME_PATHS_BLOCKED | XQC_FRAME_PATH_CIDS_BLOCKED

fun frame_num :: "xqc_frame_type \<Rightarrow> nat" where
  "frame_num XQC_FRAME_PADDING = 0"
| "frame_num XQC_FRAME_PING = 1"
| "frame_num XQC_FRAME_ACK = 2"
| "frame_num XQC_FRAME_RESET_STREAM = 3"
| "frame_num XQC_FRAME_STOP_SENDING = 4"
| "frame_num XQC_FRAME_CRYPTO = 5"
| "frame_num XQC_FRAME_NEW_TOKEN = 6"
| "frame_num XQC_FRAME_STREAM = 7"
| "frame_num XQC_FRAME_MAX_DATA = 8"
| "frame_num XQC_FRAME_MAX_STREAM_DATA = 9"
| "frame_num XQC_FRAME_MAX_STREAMS = 10"
| "frame_num XQC_FRAME_DATA_BLOCKED = 11"
| "frame_num XQC_FRAME_STREAM_DATA_BLOCKED = 12"
| "frame_num XQC_FRAME_STREAMS_BLOCKED = 13"
| "frame_num XQC_FRAME_NEW_CONNECTION_ID = 14"
| "frame_num XQC_FRAME_RETIRE_CONNECTION_ID = 15"
| "frame_num XQC_FRAME_PATH_CHALLENGE = 16"
| "frame_num XQC_FRAME_PATH_RESPONSE = 17"
| "frame_num XQC_FRAME_CONNECTION_CLOSE = 18"
| "frame_num XQC_FRAME_HANDSHAKE_DONE = 19"
| "frame_num XQC_FRAME_ACK_MP = 20"
| "frame_num XQC_FRAME_PATH_ABANDON = 21"
| "frame_num XQC_FRAME_PATH_STATUS = 22"
| "frame_num XQC_FRAME_PATH_STANDBY = 23"
| "frame_num XQC_FRAME_PATH_AVAILABLE = 24"
| "frame_num XQC_FRAME_MP_NEW_CONNECTION_ID = 25"
| "frame_num XQC_FRAME_MP_RETIRE_CONNECTION_ID = 26"
| "frame_num XQC_FRAME_MAX_PATH_ID = 27"
| "frame_num XQC_FRAME_PATH_FROZEN = 28"
| "frame_num XQC_FRAME_DATAGRAM = 29"
| "frame_num XQC_FRAME_Extension = 30"
| "frame_num XQC_FRAME_SID = 31"
| "frame_num XQC_FRAME_REPAIR_SYMBOL = 32"
| "frame_num XQC_FRAME_RESET_STREAM_AT = 33"
| "frame_num XQC_FRAME_PATHS_BLOCKED = 34"
| "frame_num XQC_FRAME_PATH_CIDS_BLOCKED = 35"

definition XQC_FRAME_BIT :: "xqc_frame_type \<Rightarrow> u64" where
  "XQC_FRAME_BIT t = push_bit (frame_num t) 1"

definition XQC_IS_ACK_ELICITING :: "u64 \<Rightarrow> bool" where
  "XQC_IS_ACK_ELICITING types \<longleftrightarrow>
     types AND NOT (XQC_FRAME_BIT XQC_FRAME_ACK OR XQC_FRAME_BIT XQC_FRAME_ACK_MP
       OR XQC_FRAME_BIT XQC_FRAME_PADDING OR XQC_FRAME_BIT XQC_FRAME_CONNECTION_CLOSE) \<noteq> 0"

definition XQC_CAN_IN_FLIGHT :: "u64 \<Rightarrow> bool" where
  "XQC_CAN_IN_FLIGHT types \<longleftrightarrow>
     types AND NOT (XQC_FRAME_BIT XQC_FRAME_ACK OR XQC_FRAME_BIT XQC_FRAME_ACK_MP
       OR XQC_FRAME_BIT XQC_FRAME_CONNECTION_CLOSE) \<noteq> 0"

definition XQC_NEED_REPAIR :: "u64 \<Rightarrow> bool" where
  "XQC_NEED_REPAIR types \<longleftrightarrow>
     types AND NOT (XQC_FRAME_BIT XQC_FRAME_ACK OR XQC_FRAME_BIT XQC_FRAME_ACK_MP
       OR XQC_FRAME_BIT XQC_FRAME_PADDING OR XQC_FRAME_BIT XQC_FRAME_PING
       OR XQC_FRAME_BIT XQC_FRAME_CONNECTION_CLOSE OR XQC_FRAME_BIT XQC_FRAME_DATAGRAM
       OR XQC_FRAME_BIT XQC_FRAME_SID OR XQC_FRAME_BIT XQC_FRAME_REPAIR_SYMBOL
       OR XQC_FRAME_BIT XQC_FRAME_PATH_RESPONSE) \<noteq> 0"

section \<open>The packet under construction\<close>

record xqc_po_stream_frame =
  ps_stream_id :: u64
  ps_offset :: u64
  ps_length :: u32
  ps_type_offset :: nat
  ps_length_offset :: nat
  ps_is_used :: bool
  ps_has_fin :: bool

definition po_stream_frame0 :: xqc_po_stream_frame where
  "po_stream_frame0 = \<lparr>ps_stream_id = 0, ps_offset = 0, ps_length = 0, ps_type_offset = 0,
     ps_length_offset = 0, ps_is_used = False, ps_has_fin = False\<rparr>"

text \<open>
  \<open>xqc_packet_out_t\<close>, the fields that the frame generators and the ACK bookkeeping use. \<open>po_buf\<close> is the
  whole buffer, so its length is \<open>po_buf_cap\<close>; \<open>po_padding\<close> is an offset into it.
\<close>

record xqc_packet_out =
  po_pkt_num :: u64
  po_pkt_pns :: xqc_pkt_num_space
  po_buf :: bytes
  po_buf_size :: nat
  po_used_size :: nat
  po_reserved_size :: nat
  po_padding :: "nat option"
  po_flag :: u32
  po_largest_ack :: u64
  po_frame_types :: u64
  po_stream_frames :: "xqc_po_stream_frame list"
  po_stream_frames_idx :: nat
  po_dgram_payload_size :: nat

definition XQC_MAX_STREAM_FRAME_IN_PO :: nat where "XQC_MAX_STREAM_FRAME_IN_PO = 3"

definition XQC_POF_PMTUD_PROBING :: u32 where "XQC_POF_PMTUD_PROBING = push_bit 17 1"

definition XQC_POF_STREAM_NO_LEN :: u32 where "XQC_POF_STREAM_NO_LEN = push_bit 22 1"

definition xqc_get_po_remained_size :: "'a xqc_packet_out_scheme \<Rightarrow> nat" where
  "xqc_get_po_remained_size po =
     (if po_used_size po > po_buf_size po \<or> po_reserved_size po > po_buf_size po - po_used_size po
      then 0 else po_buf_size po - po_used_size po - po_reserved_size po)"

definition xqc_get_po_remained_size_with_ack_spc :: "'a xqc_packet_out_scheme \<Rightarrow> nat" where
  "xqc_get_po_remained_size_with_ack_spc po =
     (let limit = min (po_buf_size po + XQC_ACK_SPACE) XQC_MSS;
          used = po_used_size po + po_reserved_size po
      in if limit > used then limit - used else 0)"

text \<open>
  The generators write their frame at \<open>po_buf + po_used_size\<close>; \<open>po_used_size\<close> is advanced by
  the caller. \<open>po_written po n\<close> are the \<open>n\<close> bytes found there.
\<close>

definition po_put :: "bytes \<Rightarrow> 'a xqc_packet_out_scheme \<Rightarrow> 'a xqc_packet_out_scheme" where
  "po_put bs po = po\<lparr>po_buf := buf_write (po_buf po) (po_used_size po) bs\<rparr>"

definition po_mark :: "xqc_frame_type \<Rightarrow> 'a xqc_packet_out_scheme \<Rightarrow> 'a xqc_packet_out_scheme" where
  "po_mark t po = po\<lparr>po_frame_types := po_frame_types po OR XQC_FRAME_BIT t\<rparr>"

definition po_written :: "'a xqc_packet_out_scheme \<Rightarrow> nat \<Rightarrow> bytes" where
  "po_written po n = take n (drop (po_used_size po) (po_buf po))"

text \<open>The room a generator may fill lies inside the buffer.\<close>

definition po_wf :: "'a xqc_packet_out_scheme \<Rightarrow> bool" where
  "po_wf po \<longleftrightarrow> po_buf_size po \<le> length (po_buf po) \<and> po_used_size po \<le> length (po_buf po)
     \<and> min (po_buf_size po + XQC_ACK_SPACE) XQC_MSS \<le> length (po_buf po)
     \<and> length (po_stream_frames po) = XQC_MAX_STREAM_FRAME_IN_PO"

lemma po_put_mark_simps [simp]:
  "po_used_size (po_put bs po) = po_used_size po" "po_used_size (po_mark t po) = po_used_size po"
  "po_buf (po_mark t po) = po_buf po"
  "po_buf (po_put bs po) = buf_write (po_buf po) (po_used_size po) bs"
  "po_written (po_mark t po) n = po_written po n"
  "po_frame_types (po_mark t po) = po_frame_types po OR XQC_FRAME_BIT t"
  by (simp_all add: po_put_def po_mark_def po_written_def)

lemma po_written_put [simp]:
  "po_used_size po \<le> length (po_buf po) \<Longrightarrow> n = length bs \<Longrightarrow> po_written (po_put bs po) n = bs"
  by (simp add: po_written_def)

lemma po_remained_le:
  "po_wf po \<Longrightarrow> n \<le> xqc_get_po_remained_size po \<Longrightarrow> 0 < n \<Longrightarrow>
   po_used_size po + n + po_reserved_size po \<le> po_buf_size po \<and> po_buf_size po \<le> length (po_buf po)"
  by (auto simp: po_wf_def xqc_get_po_remained_size_def split: if_splits)

lemma po_remained_ack_le:
  "po_wf po \<Longrightarrow> n \<le> xqc_get_po_remained_size_with_ack_spc po \<Longrightarrow> 0 < n \<Longrightarrow>
   po_used_size po + n + po_reserved_size po \<le> length (po_buf po)"
  by (auto simp: po_wf_def xqc_get_po_remained_size_with_ack_spc_def Let_def split: if_splits)

section \<open>The packet being parsed\<close>

record xqc_packet_in =
  pi_pkt_pns :: xqc_pkt_num_space
  pi_rest :: bytes
  pi_frame_types :: u64

text \<open>\<open>packet_in->pos = p; packet_in->pi_frame_types |= bit\<close>.\<close>

definition pi_done :: "xqc_frame_type \<Rightarrow> bytes \<Rightarrow> xqc_packet_in \<Rightarrow> xqc_packet_in" where
  "pi_done t p pi = pi\<lparr>pi_rest := p, pi_frame_types := pi_frame_types pi OR XQC_FRAME_BIT t\<rparr>"

text \<open>\<open>const unsigned char first_byte = *p++\<close>: the parsers do not test \<open>p < end\<close> here.\<close>

definition rd_u8 :: "'r \<Rightarrow> bytes \<Rightarrow> (u8 \<Rightarrow> bytes \<Rightarrow> 'r) \<Rightarrow> 'r" where
  "rd_u8 overread p k = (case p of [] \<Rightarrow> overread | b # p' \<Rightarrow> k b p')"

abbreviation u8_field :: "bytes \<Rightarrow> (u8 \<Rightarrow> bytes \<Rightarrow> 'a res) \<Rightarrow> 'a res" where
  "u8_field \<equiv> rd_u8 (Inl XQC_OVERREAD)"

lemma rd_u8_Cons [wire_simps]: "rd_u8 e (b # p) k = k b p"
  by (simp add: rd_u8_def)

lemma pi_done_simps [simp]:
  "pi_rest (pi_done t p pi) = p"
  "pi_frame_types (pi_done t p pi) = pi_frame_types pi OR XQC_FRAME_BIT t"
  "pi_pkt_pns (pi_done t p pi) = pi_pkt_pns pi"
  by (simp_all add: pi_done_def)

subsection \<open>A parser never leaves its input\<close>

lemma rd_vintE:
  assumes "rd_vint e p k = r" and "e \<noteq> r"
  obtains v p' where "strict_suffix p' p" and "v \<le> XQC_VINT_MAX" and "k v p' = r"
proof -
  obtain n v where nv: "xqc_vint_read p = Some (n, v)" and k: "k v (drop n p) = r"
    using assms by (auto simp: rd_vint_def split: option.splits)
  from nv have "0 < n" "n \<le> length p" "v \<le> XQC_VINT_MAX"
    using vint_read_length vint_read_le_MAX by auto
  moreover from this have "drop n p \<noteq> p" by (metis diff_less length_drop less_irrefl less_le_trans)
  ultimately show ?thesis using k that [of "drop n p" v] by (simp add: strict_suffix_def suffix_drop)
qed

lemma rd_u8E:
  assumes "rd_u8 e p k = r" and "e \<noteq> r"
  obtains b p' where "strict_suffix p' p" and "k b p' = r"
  using assms that [of "tl p" "hd p"] by (cases p) (auto simp: rd_u8_def strict_suffix_def suffix_def)

lemma strict_suffix_drop: "strict_suffix p q \<Longrightarrow> strict_suffix (drop n p) q"
  by (meson suffix_drop suffix_order.le_less_trans)

lemmas suffix_trans = suffix_order.less_trans

section \<open>The connection, as far as the frame parsers are concerned\<close>

datatype xqc_conn_type = XQC_CONN_TYPE_CLIENT | XQC_CONN_TYPE_SERVER

datatype xqc_conn_err_type =
  XQC_CONN_ERR_TYPE_UNKNOWN | XQC_CONN_ERR_TYPE_TRANSPORT | XQC_CONN_ERR_TYPE_APPLICATION

record xqc_connection =
  conn_type :: xqc_conn_type
  conn_flag :: u64
  conn_err :: u64
  conn_close_msg :: "string option"
  conn_err_type :: xqc_conn_err_type
  enable_pmtud :: bool
  simulate_ecn :: bool
  multipath_version :: u8
  local_max_datagram_frame_size :: u64
  remote_ack_delay_exponent :: u64
  ack_flag :: u64
  ack_frequency :: u32
  adaptive_ack_frequency :: bool
  local_max_ack_delay :: u64

definition XQC_CONN_FLAG_CAN_SEND_1RTT :: u64 where "XQC_CONN_FLAG_CAN_SEND_1RTT = push_bit 2 1"

definition XQC_CONN_FLAG_HANDSHAKE_CONFIRMED :: u64 where
  "XQC_CONN_FLAG_HANDSHAKE_CONFIRMED = push_bit 22 1"

definition XQC_CONN_FLAG_ERROR :: u64 where "XQC_CONN_FLAG_ERROR = push_bit 6 1"

definition XQC_CONN_FLAG_CLOSING_NOTIFY :: u64 where "XQC_CONN_FLAG_CLOSING_NOTIFY = push_bit 31 1"

definition TRA_STREAM_STATE_ERROR :: u64 where "TRA_STREAM_STATE_ERROR = 0x5"
definition TRA_FRAME_ENCODING_ERROR :: u64 where "TRA_FRAME_ENCODING_ERROR = 0x7"

definition xqc_conn_closing :: "'a xqc_connection_scheme \<Rightarrow> 'a xqc_connection_scheme" where
  "xqc_conn_closing conn = conn\<lparr>conn_flag := conn_flag conn OR XQC_CONN_FLAG_CLOSING_NOTIFY\<rparr>"

definition XQC_CONN_CLOSE_MSG :: "'a xqc_connection_scheme \<Rightarrow> string \<Rightarrow> 'a xqc_connection_scheme" where
  "XQC_CONN_CLOSE_MSG conn msg =
     (if conn_close_msg conn = None then conn\<lparr>conn_close_msg := Some msg\<rparr> else conn)"

definition XQC_CONN_ERR :: "'a xqc_connection_scheme \<Rightarrow> u64 \<Rightarrow> 'a xqc_connection_scheme" where
  "XQC_CONN_ERR conn err =
     (if conn_err conn = 0 then
        let conn = XQC_CONN_CLOSE_MSG (conn\<lparr>conn_err := err\<rparr>) ''local error'';
            conn = conn\<lparr>conn_flag := conn_flag conn OR XQC_CONN_FLAG_ERROR\<rparr>
        in xqc_conn_closing conn
      else conn)"

section \<open>Stream identifiers\<close>

definition xqc_get_stream_type :: "u64 \<Rightarrow> u64" where
  "xqc_get_stream_type stream_id = stream_id AND 0x03"

definition xqc_stream_is_bidi :: "u64 \<Rightarrow> bool" where
  "xqc_stream_is_bidi stream_id \<longleftrightarrow> stream_id = 0 \<or> stream_id AND 0x02 = 0"

definition xqc_stream_is_uni :: "u64 \<Rightarrow> bool" where
  "xqc_stream_is_uni stream_id \<longleftrightarrow> stream_id AND 0x02 \<noteq> 0"

definition XQC_CLI_UNI :: u64 where "XQC_CLI_UNI = 2"

definition XQC_SVR_UNI :: u64 where "XQC_SVR_UNI = 3"

definition xqc_stream_is_send_only :: "xqc_conn_type \<Rightarrow> u64 \<Rightarrow> bool" where
  "xqc_stream_is_send_only ct stream_id \<longleftrightarrow>
     (let stype = xqc_get_stream_type stream_id
      in ct = XQC_CONN_TYPE_CLIENT \<and> stype = XQC_CLI_UNI
         \<or> ct = XQC_CONN_TYPE_SERVER \<and> stype = XQC_SVR_UNI)"

definition xqc_stream_is_recv_only :: "xqc_conn_type \<Rightarrow> u64 \<Rightarrow> bool" where
  "xqc_stream_is_recv_only ct stream_id \<longleftrightarrow>
     (let stype = xqc_get_stream_type stream_id
      in ct = XQC_CONN_TYPE_CLIENT \<and> stype = XQC_SVR_UNI
         \<or> ct = XQC_CONN_TYPE_SERVER \<and> stype = XQC_CLI_UNI)"

section \<open>Connection identifiers\<close>

record xqc_cid =
  cid_len :: u8
  cid_buf :: bytes
  cid_seq_num :: u64
  sr_token :: bytes
  cid_path_id :: u64

definition XQC_MAX_CID_LEN :: nat where "XQC_MAX_CID_LEN = 20"

definition XQC_STATELESS_RESET_TOKENLEN :: nat where "XQC_STATELESS_RESET_TOKENLEN = 16"

section \<open>Sample states\<close>

definition po_example :: xqc_packet_out where
  "po_example = \<lparr>po_pkt_num = 7, po_pkt_pns = XQC_PNS_APP_DATA, po_buf = replicate 1452 0,
     po_buf_size = 1200, po_used_size = 30, po_reserved_size = 0, po_padding = None, po_flag = 0,
     po_largest_ack = 0, po_frame_types = 0, po_stream_frames = replicate 3 po_stream_frame0,
     po_stream_frames_idx = 0, po_dgram_payload_size = 0\<rparr>"

definition conn_example :: xqc_connection where
  "conn_example = \<lparr>conn_type = XQC_CONN_TYPE_CLIENT, conn_flag = 0, conn_err = 0, conn_close_msg = None,
     conn_err_type = XQC_CONN_ERR_TYPE_UNKNOWN, enable_pmtud = False, simulate_ecn = False,
     multipath_version = 0x3e, local_max_datagram_frame_size = 65535, remote_ack_delay_exponent = 3,
     ack_flag = 0, ack_frequency = 2, adaptive_ack_frequency = False, local_max_ack_delay = 25\<rparr>"

definition pi_example :: xqc_packet_in where
  "pi_example = \<lparr>pi_pkt_pns = XQC_PNS_APP_DATA, pi_rest = [], pi_frame_types = 0\<rparr>"

lemma po_example_wf: "po_wf po_example"
  by (simp add: po_example_def po_wf_def XQC_MSS_def XQC_ACK_SPACE_def XQC_MAX_STREAM_FRAME_IN_PO_def)

lemma po_example_room: "xqc_get_po_remained_size po_example = 1170"
  by (simp add: po_example_def xqc_get_po_remained_size_def)

end
