(* ===== verification/Frame_Codec.thy ===== *)
theory Frame_Codec
  imports Packet_Buf
begin

text \<open>
  The encoders and decoders of the control frames, PADDING, PING, CRYPTO and DATAGRAM of
  src/transport/xqc_frame_parser.c.

  A generator \<open>xqc_gen_*\<close> returns the packet after the call, with every byte it has
  written, also when it fails, and the size of the frame or the error code. A parser
  \<open>xqc_parse_*\<close> returns the packet behind the frame and the values of its output
  parameters, or the error code; the parsers that may close the connection return it as
  well. Output parameters are given on success only. Logging is left out.
\<close>

section \<open>PADDING and PING\<close>

definition xqc_gen_padding_frame :: "'c xqc_connection_scheme \<Rightarrow> 'a xqc_packet_out_scheme \<Rightarrow> 'a xqc_packet_out_scheme" where
  "xqc_gen_padding_frame conn po =
     (let total_len =
            (if enable_pmtud conn \<and> po_flag po AND XQC_POF_PMTUD_PROBING \<noteq> 0
             then min (po_buf_size po + XQC_ACK_SPACE) XQC_MSS
             else XQC_QUIC_MIN_MSS - XQC_TLS_AEAD_OVERHEAD_MAX_LEN)
      in if po_used_size po < total_len then
           (po_mark XQC_FRAME_PADDING (po_put (replicate (total_len - po_used_size po) 0) po))
             \<lparr>po_padding := Some (po_used_size po), po_used_size := total_len\<rparr>
         else po)"

definition xqc_gen_padding_frame_with_len ::
    "xqc_packet_out \<Rightarrow> nat \<Rightarrow> nat \<Rightarrow> xqc_packet_out \<times> unit res" where
  "xqc_gen_padding_frame_with_len po padding_len limit =
     (if po_used_size po + padding_len > limit then (po, Inl XQC_EFEC_SYMBOL_ERROR)
      else if po_used_size po < limit then
        ((po_mark XQC_FRAME_PADDING (po_put (replicate padding_len 0) po))
           \<lparr>po_padding := Some (po_used_size po), po_used_size := po_used_size po + padding_len\<rparr>,
         Inr ())
      else (po, Inr ()))"

fun skip_padding :: "bytes \<Rightarrow> bytes" where
  "skip_padding [] = []"
| "skip_padding (b # p) = (if b = 0 then skip_padding p else b # p)"

definition xqc_parse_padding_frame :: "xqc_packet_in \<Rightarrow> xqc_packet_in res" where
  "xqc_parse_padding_frame pi =
     u8_field (pi_rest pi) (\<lambda>_ p. Inr (pi_done XQC_FRAME_PADDING (skip_padding p) pi))"

definition xqc_gen_ping_frame :: "xqc_packet_out \<Rightarrow> xqc_packet_out \<times> nat res" where
  "xqc_gen_ping_frame po =
     (if 1 > xqc_get_po_remained_size po then (po, Inl XQC_ENOBUF)
      else (po_mark XQC_FRAME_PING (po_put [0x01] po), Inr 1))"

definition xqc_parse_ping_frame :: "xqc_packet_in \<Rightarrow> xqc_packet_in res" where
  "xqc_parse_ping_frame pi =
     u8_field (pi_rest pi) (\<lambda>_ p. Inr (pi_done XQC_FRAME_PING p pi))"

section \<open>DATAGRAM\<close>

definition XQC_DATAGRAM_LENGTH_FIELD_BYTES :: nat where "XQC_DATAGRAM_LENGTH_FIELD_BYTES = 2"

text \<open>The payload is \<open>size\<close> bytes; the generator advances \<open>po_used_size\<close> itself.\<close>

definition xqc_gen_datagram_frame :: "xqc_packet_out \<Rightarrow> bytes \<Rightarrow> xqc_packet_out \<times> unit res" where
  "xqc_gen_datagram_frame po payload =
     (let size = length payload;
          frame = [0x31] @ xqc_vint_write (of_nat size) (XQC_DATAGRAM_LENGTH_FIELD_BYTES - 1)
                    XQC_DATAGRAM_LENGTH_FIELD_BYTES @ payload
      in if size + 1 + XQC_DATAGRAM_LENGTH_FIELD_BYTES > xqc_get_po_remained_size po
         then (po, Inl XQC_ENOBUF)
         else ((po_mark XQC_FRAME_DATAGRAM (po_put frame po))
                 \<lparr>po_used_size := po_used_size po + length frame,
                  po_dgram_payload_size := po_dgram_payload_size po + size\<rparr>, Inr ()))"

definition xqc_parse_datagram_frame ::
    "xqc_packet_in \<Rightarrow> xqc_connection \<Rightarrow> (xqc_packet_in \<times> bytes) res" where
  "xqc_parse_datagram_frame pi conn =
     u8_field (pi_rest pi) (\<lambda>first_byte p.
       let finish = (\<lambda>length vlen p.
             if length + 1 + vlen > local_max_datagram_frame_size conn then Inl XQC_EPROTO
             else Inr (pi_done XQC_FRAME_DATAGRAM (drop (unat length) p) pi, take (unat length) p))
       in if first_byte AND 0x1 \<noteq> 0 then
            vint_field p (\<lambda>length p'.
              if unat length > List.length p' then Inl XQC_EILLEGAL_FRAME
              else finish length (of_nat (List.length p - List.length p')) p')
          else finish (of_nat (List.length p)) 0 p)"

section \<open>CRYPTO\<close>

text \<open>The last component of the result is \<open>*written_size\<close>.\<close>

definition xqc_gen_crypto_frame ::
    "xqc_packet_out \<Rightarrow> u64 \<Rightarrow> bytes \<Rightarrow> xqc_packet_out \<times> (nat \<times> nat) res" where
  "xqc_gen_crypto_frame po offset payload =
     (let dst_buf_len = xqc_get_po_remained_size po;
          offset_bits = xqc_vint_get_2bit offset;
          offset_vlen = xqc_vint_len offset_bits;
          length_bits = xqc_vint_get_2bit (of_nat (length payload));
          length_vlen = xqc_vint_len length_bits
      in if 1 + offset_vlen + length_vlen + 1 > dst_buf_len then (po_put [0x06] po, Inl XQC_ENOBUF)
         else
           let written_size =
                 (if 1 + offset_vlen + length_vlen + length payload > dst_buf_len
                  then dst_buf_len - (1 + offset_vlen + length_vlen) else length payload);
               frame = [0x06] @ xqc_vint_write offset offset_bits offset_vlen
                 @ xqc_vint_write (of_nat written_size) length_bits length_vlen
                 @ take written_size payload
           in (po_mark XQC_FRAME_CRYPTO (po_put frame po), Inr (length frame, written_size)))"

text \<open>\<open>xqc_stream_frame_t\<close> as the parsers fill it in; the frame itself is calloc'ed by the caller.\<close>

record xqc_stream_frame =
  sf_data :: bytes
  data_length :: u32
  data_offset :: u64
  next_read_offset :: u64
  sf_fin :: bool

definition xqc_parse_crypto_frame ::
    "bool \<Rightarrow> xqc_packet_in \<Rightarrow> (xqc_packet_in \<times> xqc_stream_frame) res" where
  "xqc_parse_crypto_frame malloc_ok pi =
     u8_field (pi_rest pi) (\<lambda>_ p.
       vint_field p (\<lambda>offset p.
       vint_field p (\<lambda>length p.
         if unat length > List.length p then Inl XQC_EILLEGAL_FRAME
         else if ucast length > (0 :: u32) \<and> \<not> malloc_ok then Inl XQC_EMALLOC
         else Inr (pi_done XQC_FRAME_CRYPTO (drop (unat length) p) pi,
               \<lparr>sf_data = take (unat (ucast length :: u32)) p, data_length = ucast length,
                data_offset = offset, next_read_offset = 0, sf_fin = False\<rparr>))))"

section \<open>RESET\_STREAM, RESET\_STREAM\_AT and STOP\_SENDING\<close>

definition xqc_gen_reset_stream_frame ::
    "xqc_packet_out \<Rightarrow> u64 \<Rightarrow> u64 \<Rightarrow> u64 \<Rightarrow> xqc_packet_out \<times> nat res" where
  "xqc_gen_reset_stream_frame po stream_id err_code final_size =
     (let final_size_bits = xqc_vint_get_2bit final_size;
          stream_id_bits = xqc_vint_get_2bit stream_id;
          err_code_bits = xqc_vint_get_2bit err_code;
          need = 1 + xqc_vint_len stream_id_bits + xqc_vint_len err_code_bits
                 + xqc_vint_len final_size_bits;
          frame = [0x04] @ xqc_vint_write stream_id stream_id_bits (xqc_vint_len stream_id_bits)
            @ xqc_vint_write err_code err_code_bits (xqc_vint_len err_code_bits)
            @ xqc_vint_write final_size final_size_bits (xqc_vint_len final_size_bits)
      in if need > xqc_get_po_remained_size po then (po, Inl XQC_ENOBUF)
         else (po_mark XQC_FRAME_RESET_STREAM (po_put frame po), Inr (length frame)))"

definition xqc_parse_reset_stream_frame ::
    "xqc_packet_in \<Rightarrow> xqc_connection \<Rightarrow> xqc_connection \<times> (xqc_packet_in \<times> u64 \<times> u64 \<times> u64) res" where
  "xqc_parse_reset_stream_frame pi conn =
     rd_u8 (conn, Inl XQC_OVERREAD) (pi_rest pi) (\<lambda>_ p.
     rd_vint (conn, Inl XQC_EVINTREAD) p (\<lambda>stream_id p.
       if xqc_stream_is_send_only (conn_type conn) stream_id
       then (XQC_CONN_ERR conn TRA_STREAM_STATE_ERROR, Inl XQC_EPROTO)
       else
         rd_vint (conn, Inl XQC_EVINTREAD) p (\<lambda>err_code p.
         rd_vint (conn, Inl XQC_EVINTREAD) p (\<lambda>final_size p.
           (conn, Inr (pi_done XQC_FRAME_RESET_STREAM p pi, stream_id, err_code, final_size))))))"

text \<open>The chain of \<open>xqc_put_varint\<close> calls; each argument has passed the test against the maximum.\<close>

definition put_varints :: "u64 list \<Rightarrow> bytes" where
  "put_varints vs = concat (map (\<lambda>v. case xqc_put_varint v of None \<Rightarrow> [] | Some bs \<Rightarrow> bs) vs)"

definition XQC_FRAME_TYPE_RESET_STREAM_AT :: u64 where "XQC_FRAME_TYPE_RESET_STREAM_AT = 0x24"

definition xqc_gen_reset_stream_at_frame ::
    "xqc_packet_out \<Rightarrow> u64 \<Rightarrow> u64 \<Rightarrow> u64 \<Rightarrow> u64 \<Rightarrow> xqc_packet_out \<times> nat res" where
  "xqc_gen_reset_stream_at_frame po stream_id error final_size reliable_size =
     (if stream_id > XQC_VINT_MAX \<or> error > XQC_VINT_MAX \<or> final_size > XQC_VINT_MAX
         \<or> reliable_size > final_size
      then (po, Inl XQC_EPARAM)
      else
        let need = 1 + xqc_put_varint_len stream_id + xqc_put_varint_len error
                   + xqc_put_varint_len final_size + xqc_put_varint_len reliable_size
        in if need > xqc_get_po_remained_size po then (po, Inl XQC_ENOBUF)
           else (po_mark XQC_FRAME_RESET_STREAM_AT
                   (po_put (put_varints [XQC_FRAME_TYPE_RESET_STREAM_AT, stream_id, error,
                              final_size, reliable_size]) po), Inr need))"

definition xqc_parse_reset_stream_at_frame ::
    "xqc_packet_in \<Rightarrow> (xqc_packet_in \<times> u64 \<times> u64 \<times> u64 \<times> u64) res" where
  "xqc_parse_reset_stream_at_frame pi =
     vint_field (pi_rest pi) (\<lambda>type p.
     vint_field p (\<lambda>stream_id p.
     vint_field p (\<lambda>error p.
     vint_field p (\<lambda>final_size p.
     vint_field p (\<lambda>reliable_size p.
       if type \<noteq> XQC_FRAME_TYPE_RESET_STREAM_AT \<or> reliable_size > final_size then Inl XQC_EPROTO
       else Inr (pi_done XQC_FRAME_RESET_STREAM_AT p pi,
                 stream_id, error, final_size, reliable_size))))))"

definition xqc_gen_stop_sending_frame ::
    "xqc_packet_out \<Rightarrow> u64 \<Rightarrow> u64 \<Rightarrow> xqc_packet_out \<times> nat res" where
  "xqc_gen_stop_sending_frame po stream_id err_code =
     (let stream_id_bits = xqc_vint_get_2bit stream_id;
          err_code_bits = xqc_vint_get_2bit err_code;
          need = 1 + xqc_vint_len stream_id_bits + xqc_vint_len err_code_bits;
          frame = [0x05] @ xqc_vint_write stream_id stream_id_bits (xqc_vint_len stream_id_bits)
            @ xqc_vint_write err_code err_code_bits (xqc_vint_len err_code_bits)
      in if need > xqc_get_po_remained_size po then (po, Inl XQC_ENOBUF)
         else (po_mark XQC_FRAME_STOP_SENDING (po_put frame po), Inr (length frame)))"

definition xqc_parse_stop_sending_frame ::
    "xqc_packet_in \<Rightarrow> xqc_connection \<Rightarrow> xqc_connection \<times> (xqc_packet_in \<times> u64 \<times> u64) res" where
  "xqc_parse_stop_sending_frame pi conn =
     rd_u8 (conn, Inl XQC_OVERREAD) (pi_rest pi) (\<lambda>_ p.
     rd_vint (conn, Inl XQC_EVINTREAD) p (\<lambda>stream_id p.
       if xqc_stream_is_recv_only (conn_type conn) stream_id
       then (XQC_CONN_ERR conn TRA_STREAM_STATE_ERROR, Inl XQC_EPROTO)
       else
         rd_vint (conn, Inl XQC_EVINTREAD) p (\<lambda>err_code p.
           (conn, Inr (pi_done XQC_FRAME_STOP_SENDING p pi, stream_id, err_code)))))"

section \<open>Flow control frames\<close>

text \<open>
  None of these generators compares the size of its frame with the room left in the packet;
  their callers ask for a packet with enough room.
\<close>

definition xqc_gen_data_blocked_frame :: "xqc_packet_out \<Rightarrow> u64 \<Rightarrow> xqc_packet_out \<times> nat res" where
  "xqc_gen_data_blocked_frame po data_limit =
     (let bits = xqc_vint_get_2bit data_limit;
          frame = [0x14] @ xqc_vint_write data_limit bits (xqc_vint_len bits)
      in (po_mark XQC_FRAME_DATA_BLOCKED (po_put frame po), Inr (length frame)))"

definition xqc_parse_data_blocked_frame :: "xqc_packet_in \<Rightarrow> (xqc_packet_in \<times> u64) res" where
  "xqc_parse_data_blocked_frame pi =
     u8_field (pi_rest pi) (\<lambda>_ p.
     vint_field p (\<lambda>data_limit p. Inr (pi_done XQC_FRAME_DATA_BLOCKED p pi, data_limit)))"

definition xqc_gen_stream_data_blocked_frame ::
    "xqc_packet_out \<Rightarrow> u64 \<Rightarrow> u64 \<Rightarrow> xqc_packet_out \<times> nat res" where
  "xqc_gen_stream_data_blocked_frame po stream_id stream_data_limit =
     (let stream_id_bits = xqc_vint_get_2bit stream_id;
          data_limit_bits = xqc_vint_get_2bit stream_data_limit;
          frame = [0x15] @ xqc_vint_write stream_id stream_id_bits (xqc_vint_len stream_id_bits)
            @ xqc_vint_write stream_data_limit data_limit_bits (xqc_vint_len data_limit_bits)
      in (po_mark XQC_FRAME_STREAM_DATA_BLOCKED (po_put frame po), Inr (length frame)))"

definition xqc_parse_stream_data_blocked_frame ::
    "xqc_packet_in \<Rightarrow> (xqc_packet_in \<times> u64 \<times> u64) res" where
  "xqc_parse_stream_data_blocked_frame pi =
     u8_field (pi_rest pi) (\<lambda>_ p.
     vint_field p (\<lambda>stream_id p.
     vint_field p (\<lambda>stream_data_limit p.
       Inr (pi_done XQC_FRAME_STREAM_DATA_BLOCKED p pi, stream_id, stream_data_limit))))"

definition xqc_gen_streams_blocked_frame ::
    "xqc_packet_out \<Rightarrow> u64 \<Rightarrow> bool \<Rightarrow> xqc_packet_out \<times> nat res" where
  "xqc_gen_streams_blocked_frame po stream_limit bidirectional =
     (let bits = xqc_vint_get_2bit stream_limit;
          frame = [if bidirectional then 0x16 else 0x17]
            @ xqc_vint_write stream_limit bits (xqc_vint_len bits)
      in (po_mark XQC_FRAME_STREAMS_BLOCKED (po_put frame po), Inr (length frame)))"

definition xqc_parse_streams_blocked_frame :: "xqc_packet_in \<Rightarrow> (xqc_packet_in \<times> u64 \<times> bool) res" where
  "xqc_parse_streams_blocked_frame pi =
     u8_field (pi_rest pi) (\<lambda>first_byte p.
     vint_field p (\<lambda>stream_limit p.
       Inr (pi_done XQC_FRAME_STREAMS_BLOCKED p pi, stream_limit, first_byte = 0x16)))"

definition xqc_gen_max_data_frame :: "xqc_packet_out \<Rightarrow> u64 \<Rightarrow> xqc_packet_out \<times> nat res" where
  "xqc_gen_max_data_frame po max_data =
     (let bits = xqc_vint_get_2bit max_data;
          frame = [0x10] @ xqc_vint_write max_data bits (xqc_vint_len bits)
      in (po_mark XQC_FRAME_MAX_DATA (po_put frame po), Inr (length frame)))"

definition xqc_parse_max_data_frame :: "xqc_packet_in \<Rightarrow> (xqc_packet_in \<times> u64) res" where
  "xqc_parse_max_data_frame pi =
     u8_field (pi_rest pi) (\<lambda>_ p.
     vint_field p (\<lambda>max_data p. Inr (pi_done XQC_FRAME_MAX_DATA p pi, max_data)))"

definition xqc_gen_max_stream_data_frame ::
    "xqc_packet_out \<Rightarrow> u64 \<Rightarrow> u64 \<Rightarrow> xqc_packet_out \<times> nat res" where
  "xqc_gen_max_stream_data_frame po stream_id max_stream_data =
     (let stream_id_bits = xqc_vint_get_2bit stream_id;
          max_bits = xqc_vint_get_2bit max_stream_data;
          frame = [0x11] @ xqc_vint_write stream_id stream_id_bits (xqc_vint_len stream_id_bits)
            @ xqc_vint_write max_stream_data max_bits (xqc_vint_len max_bits)
      in (po_mark XQC_FRAME_MAX_STREAM_DATA (po_put frame po), Inr (length frame)))"

definition xqc_parse_max_stream_data_frame ::
    "xqc_packet_in \<Rightarrow> xqc_connection \<Rightarrow> xqc_connection \<times> (xqc_packet_in \<times> u64 \<times> u64) res" where
  "xqc_parse_max_stream_data_frame pi conn =
     rd_u8 (conn, Inl XQC_OVERREAD) (pi_rest pi) (\<lambda>_ p.
     rd_vint (conn, Inl XQC_EVINTREAD) p (\<lambda>stream_id p.
       if xqc_stream_is_recv_only (conn_type conn) stream_id
       then (XQC_CONN_ERR conn TRA_STREAM_STATE_ERROR, Inl XQC_EPROTO)
       else
         rd_vint (conn, Inl XQC_EVINTREAD) p (\<lambda>max_stream_data p.
           (conn, Inr (pi_done XQC_FRAME_MAX_STREAM_DATA p pi, stream_id, max_stream_data)))))"

definition xqc_gen_max_streams_frame ::
    "xqc_packet_out \<Rightarrow> u64 \<Rightarrow> bool \<Rightarrow> xqc_packet_out \<times> nat res" where
  "xqc_gen_max_streams_frame po max_streams bidirectional =
     (let bits = xqc_vint_get_2bit max_streams;
          frame = [if bidirectional then 0x12 else 0x13]
            @ xqc_vint_write max_streams bits (xqc_vint_len bits)
      in (po_mark XQC_FRAME_MAX_STREAMS (po_put frame po), Inr (length frame)))"

definition xqc_parse_max_streams_frame :: "xqc_packet_in \<Rightarrow> (xqc_packet_in \<times> u64 \<times> bool) res" where
  "xqc_parse_max_streams_frame pi =
     u8_field (pi_rest pi) (\<lambda>first_byte p.
     vint_field p (\<lambda>max_streams p.
       Inr (pi_done XQC_FRAME_MAX_STREAMS p pi, max_streams, first_byte = 0x12)))"

section \<open>NEW\_TOKEN and HANDSHAKE\_DONE\<close>

definition xqc_gen_new_token_frame :: "xqc_packet_out \<Rightarrow> bytes \<Rightarrow> xqc_packet_out \<times> nat res" where
  "xqc_gen_new_token_frame po token =
     (let token_len_bits = xqc_vint_get_2bit (of_nat (length token));
          head = [0x07] @ xqc_vint_write (of_nat (length token)) token_len_bits (xqc_vint_len token_len_bits)
      in if 1 + xqc_vint_len token_len_bits + length token > xqc_get_po_remained_size po
         then (po_put head po, Inl XQC_ENOBUF)
         else (po_mark XQC_FRAME_NEW_TOKEN (po_put (head @ token) po), Inr (length (head @ token))))"

text \<open>\<open>token_len\<close> is the room in the caller's token buffer.\<close>

definition xqc_parse_new_token_frame :: "xqc_packet_in \<Rightarrow> u32 \<Rightarrow> (xqc_packet_in \<times> bytes) res" where
  "xqc_parse_new_token_frame pi token_len =
     u8_field (pi_rest pi) (\<lambda>_ p.
     vint_field p (\<lambda>recv_token_len p.
       if recv_token_len = 0 then Inl XQC_EPROTO
       else if recv_token_len > ucast token_len then Inl XQC_ENOBUF
       else if unat recv_token_len > length p then Inl XQC_EILLEGAL_FRAME
       else Inr (pi_done XQC_FRAME_NEW_TOKEN (drop (unat recv_token_len) p) pi,
                 take (unat recv_token_len) p)))"

definition xqc_gen_handshake_done_frame :: "xqc_packet_out \<Rightarrow> xqc_packet_out \<times> nat res" where
  "xqc_gen_handshake_done_frame po =
     (if 1 > xqc_get_po_remained_size po then (po, Inl XQC_ENOBUF)
      else (po_mark XQC_FRAME_HANDSHAKE_DONE (po_put [0x1e] po), Inr 1))"

definition xqc_parse_handshake_done_frame :: "xqc_packet_in \<Rightarrow> xqc_packet_in res" where
  "xqc_parse_handshake_done_frame pi =
     u8_field (pi_rest pi) (\<lambda>_ p. Inr (pi_done XQC_FRAME_HANDSHAKE_DONE p pi))"

section \<open>Connection identifier frames\<close>

definition xqc_gen_new_conn_id_frame ::
    "xqc_packet_out \<Rightarrow> xqc_cid \<Rightarrow> u64 \<Rightarrow> bytes option \<Rightarrow> xqc_packet_out \<times> nat res" where
  "xqc_gen_new_conn_id_frame po new_cid retire_prior_to token =
     (let len = ucast (cid_len new_cid) :: u64
      in if len = 0 \<or> unat len > XQC_MAX_CID_LEN then (po, Inl XQC_EPARAM)
         else
           let seq_bits = xqc_vint_get_2bit (cid_seq_num new_cid);
               retire_bits = xqc_vint_get_2bit retire_prior_to;
               len_bits = xqc_vint_get_2bit len;
               frame = [0x18] @ xqc_vint_write (cid_seq_num new_cid) seq_bits (xqc_vint_len seq_bits)
                 @ xqc_vint_write retire_prior_to retire_bits (xqc_vint_len retire_bits)
                 @ xqc_vint_write len len_bits (xqc_vint_len len_bits)
                 @ take (unat len) (cid_buf new_cid)
                 @ (case token of None \<Rightarrow> [] | Some t \<Rightarrow> take XQC_STATELESS_RESET_TOKENLEN t)
           in (po_mark XQC_FRAME_NEW_CONNECTION_ID (po_put frame po), Inr (length frame)))"

text \<open>\<open>new_cid\<close> is the caller's structure; the parser overwrites the parts it reads.\<close>

definition xqc_parse_new_conn_id_frame ::
    "xqc_packet_in \<Rightarrow> xqc_cid \<Rightarrow> xqc_connection \<Rightarrow> xqc_connection \<times> (xqc_packet_in \<times> xqc_cid \<times> u64) res" where
  "xqc_parse_new_conn_id_frame pi new_cid conn =
     rd_u8 (conn, Inl XQC_OVERREAD) (pi_rest pi) (\<lambda>_ p.
     rd_vint (conn, Inl XQC_EVINTREAD) p (\<lambda>seq p.
     rd_vint (conn, Inl XQC_EVINTREAD) p (\<lambda>retire_prior_to p.
     rd_u8 (conn, Inl XQC_EPROTO) p (\<lambda>len p.
       if unat len < 1 \<or> unat len > XQC_MAX_CID_LEN
       then (XQC_CONN_ERR conn TRA_FRAME_ENCODING_ERROR, Inl XQC_EPROTO)
       else if unat len > length p then (conn, Inl XQC_EPROTO)
       else
         let cid = take (unat len) p; p = drop (unat len) p
         in if XQC_STATELESS_RESET_TOKENLEN > length p then (conn, Inl XQC_EPROTO)
            else (conn, Inr (pi_done XQC_FRAME_NEW_CONNECTION_ID (drop XQC_STATELESS_RESET_TOKENLEN p) pi,
                   new_cid\<lparr>cid_seq_num := seq, cid_len := len, cid_buf := buf_write (cid_buf new_cid) 0 cid,
                     sr_token := take XQC_STATELESS_RESET_TOKENLEN p\<rparr>,
                   retire_prior_to))))))"

definition xqc_gen_retire_conn_id_frame :: "xqc_packet_out \<Rightarrow> u64 \<Rightarrow> xqc_packet_out \<times> nat res" where
  "xqc_gen_retire_conn_id_frame po seq_num =
     (let bits = xqc_vint_get_2bit seq_num;
          frame = [0x19] @ xqc_vint_write seq_num bits (xqc_vint_len bits)
      in (po_mark XQC_FRAME_RETIRE_CONNECTION_ID (po_put frame po), Inr (length frame)))"

definition xqc_parse_retire_conn_id_frame :: "xqc_packet_in \<Rightarrow> (xqc_packet_in \<times> u64) res" where
  "xqc_parse_retire_conn_id_frame pi =
     u8_field (pi_rest pi) (\<lambda>_ p.
     vint_field p (\<lambda>seq_num p. Inr (pi_done XQC_FRAME_RETIRE_CONNECTION_ID p pi, seq_num)))"

section \<open>Path validation frames\<close>

definition XQC_PATH_CHALLENGE_DATA_LEN :: nat where "XQC_PATH_CHALLENGE_DATA_LEN = 8"

definition xqc_gen_path_challenge_frame :: "xqc_packet_out \<Rightarrow> bytes \<Rightarrow> xqc_packet_out \<times> nat res" where
  "xqc_gen_path_challenge_frame po data =
     (let frame_type = 0x1a;
          bits = xqc_vint_get_2bit frame_type;
          need = xqc_vint_len bits + XQC_PATH_CHALLENGE_DATA_LEN;
          frame = xqc_vint_write frame_type bits (xqc_vint_len bits) @ take XQC_PATH_CHALLENGE_DATA_LEN data
      in if need > xqc_get_po_remained_size po then (po, Inl XQC_ENOBUF)
         else (po_mark XQC_FRAME_PATH_CHALLENGE (po_put frame po), Inr need))"

definition xqc_parse_path_challenge_frame :: "xqc_packet_in \<Rightarrow> (xqc_packet_in \<times> bytes) res" where
  "xqc_parse_path_challenge_frame pi =
     u8_field (pi_rest pi) (\<lambda>_ p.
       if XQC_PATH_CHALLENGE_DATA_LEN > length p then Inl XQC_EVINTREAD
       else Inr (pi_done XQC_FRAME_PATH_CHALLENGE (drop XQC_PATH_CHALLENGE_DATA_LEN p) pi,
                 take XQC_PATH_CHALLENGE_DATA_LEN p))"

definition xqc_gen_path_response_frame :: "xqc_packet_out \<Rightarrow> bytes \<Rightarrow> xqc_packet_out \<times> nat res" where
  "xqc_gen_path_response_frame po data =
     (let frame_type = 0x1b;
          bits = xqc_vint_get_2bit frame_type;
          need = xqc_vint_len bits + XQC_PATH_CHALLENGE_DATA_LEN;
          frame = xqc_vint_write frame_type bits (xqc_vint_len bits) @ take XQC_PATH_CHALLENGE_DATA_LEN data
      in if need > xqc_get_po_remained_size po then (po, Inl XQC_ENOBUF)
         else (po_mark XQC_FRAME_PATH_RESPONSE (po_put frame po), Inr need))"

definition xqc_parse_path_response_frame :: "xqc_packet_in \<Rightarrow> (xqc_packet_in \<times> bytes) res" where
  "xqc_parse_path_response_frame pi =
     u8_field (pi_rest pi) (\<lambda>_ p.
       if XQC_PATH_CHALLENGE_DATA_LEN > length p then Inl XQC_EVINTREAD
       else Inr (pi_done XQC_FRAME_PATH_RESPONSE (drop XQC_PATH_CHALLENGE_DATA_LEN p) pi,
                 take XQC_PATH_CHALLENGE_DATA_LEN p))"

section \<open>CONNECTION\_CLOSE\<close>

definition XQC_MAX_CONN_CLOSE_REASON_LEN :: nat where "XQC_MAX_CONN_CLOSE_REASON_LEN = 128"

text \<open>\<open>frame_type\<close> is an \<open>int\<close> the code converts to \<open>uint64_t\<close>; \<open>reason = NULL\<close> is \<open>None\<close>.\<close>

definition xqc_gen_conn_close_frame ::
    "xqc_packet_out \<Rightarrow> u64 \<Rightarrow> bool \<Rightarrow> u64 \<Rightarrow> bytes option \<Rightarrow> xqc_packet_out \<times> nat res" where
  "xqc_gen_conn_close_frame po err_code is_app frame_type reason =
     (let remained = xqc_get_po_remained_size po;
          frame_type_bits = xqc_vint_get_2bit frame_type;
          err_code_len_bits = xqc_vint_get_2bit err_code;
          need = 1 + xqc_vint_len err_code_len_bits
                 + (if is_app then 0 else xqc_vint_len frame_type_bits) + xqc_vint_len 0
      in if need > remained then (po, Inl XQC_ENOBUF)
         else
           let (reason_data, reason_len_bits) =
                 (case reason of
                    None \<Rightarrow> ([], 0)
                  | Some r \<Rightarrow>
                      if length r > XQC_MAX_CONN_CLOSE_REASON_LEN \<or> length r > remained - need then ([], 0)
                      else
                        let bits = xqc_vint_get_2bit (of_nat (length r))
                        in if need + xqc_vint_len bits - 1 + length r > remained then ([], 0)
                           else (r, bits));
               frame = [if is_app then 0x1d else 0x1c]
                 @ xqc_vint_write err_code err_code_len_bits (xqc_vint_len err_code_len_bits)
                 @ (if is_app then [] else xqc_vint_write frame_type frame_type_bits (xqc_vint_len frame_type_bits))
                 @ xqc_vint_write (of_nat (length reason_data)) reason_len_bits (xqc_vint_len reason_len_bits)
                 @ reason_data
           in (po_mark XQC_FRAME_CONNECTION_CLOSE (po_put frame po), Inr (length frame)))"

definition xqc_parse_conn_close_frame ::
    "xqc_packet_in \<Rightarrow> xqc_connection \<Rightarrow> xqc_connection \<times> (xqc_packet_in \<times> u64) res" where
  "xqc_parse_conn_close_frame pi conn =
     rd_u8 (conn, Inl XQC_OVERREAD) (pi_rest pi) (\<lambda>first_byte p.
     rd_vint (conn, Inl XQC_EVINTREAD) p (\<lambda>err_code p.
       let rest = (\<lambda>p.
         rd_vint (conn, Inl XQC_EVINTREAD) p (\<lambda>reason_len p.
           if unat reason_len > length p then (conn, Inl XQC_EILLEGAL_FRAME)
           else
             (if conn_err_type conn = XQC_CONN_ERR_TYPE_UNKNOWN
              then conn\<lparr>conn_err_type := if first_byte = 0x1c then XQC_CONN_ERR_TYPE_TRANSPORT
                                           else XQC_CONN_ERR_TYPE_APPLICATION\<rparr>
              else conn,
              Inr (pi_done XQC_FRAME_CONNECTION_CLOSE (drop (unat reason_len) p) pi, err_code))))
       in if first_byte = 0x1c
          then rd_vint (conn, Inl XQC_EVINTREAD) p (\<lambda>_ p. rest p)
          else rest p))"

end
