(* ===== verification/Frame_Roundtrip.thy ===== *)
theory Frame_Roundtrip
  imports Frame_Codec
begin

text \<open>
  What the generators put on the wire and what the parsers make of it. \<open>frame_bytes\<close> is the
  layout RFC 9000 Section 19 gives each frame; it is the contract between the two sides: a
  generator that succeeds writes exactly these bytes into the room of the packet, and the
  parser chosen by the frame type, as the switch of \<open>xqc_process_frames\<close> chooses it, reads
  them back. The locale \<open>prefix_code\<close> lifts this to the payload of a whole packet.
\<close>

section \<open>Frames and their layout\<close>

datatype ctl_frame =
    PING
  | RESET_STREAM u64 u64 u64
  | RESET_STREAM_AT u64 u64 u64 u64
  | STOP_SENDING u64 u64
  | DATA_BLOCKED u64
  | STREAM_DATA_BLOCKED u64 u64
  | STREAMS_BLOCKED u64 bool
  | MAX_DATA u64
  | MAX_STREAM_DATA u64 u64
  | MAX_STREAMS u64 bool
  | NEW_TOKEN bytes
  | HANDSHAKE_DONE
  | NEW_CONNECTION_ID u64 u64 bytes bytes
  | RETIRE_CONNECTION_ID u64
  | PATH_CHALLENGE bytes
  | PATH_RESPONSE bytes

fun frame_bytes :: "ctl_frame \<Rightarrow> bytes" where
  "frame_bytes PING = [0x01]"
| "frame_bytes (RESET_STREAM sid ec fs) = 0x04 # vint_bytes sid @ vint_bytes ec @ vint_bytes fs"
| "frame_bytes (RESET_STREAM_AT sid ec fs rs) =
     0x24 # vint_bytes sid @ vint_bytes ec @ vint_bytes fs @ vint_bytes rs"
| "frame_bytes (STOP_SENDING sid ec) = 0x05 # vint_bytes sid @ vint_bytes ec"
| "frame_bytes (DATA_BLOCKED l) = 0x14 # vint_bytes l"
| "frame_bytes (STREAM_DATA_BLOCKED sid l) = 0x15 # vint_bytes sid @ vint_bytes l"
| "frame_bytes (STREAMS_BLOCKED l bidi) = (if bidi then 0x16 else 0x17) # vint_bytes l"
| "frame_bytes (MAX_DATA m) = 0x10 # vint_bytes m"
| "frame_bytes (MAX_STREAM_DATA sid m) = 0x11 # vint_bytes sid @ vint_bytes m"
| "frame_bytes (MAX_STREAMS m bidi) = (if bidi then 0x12 else 0x13) # vint_bytes m"
| "frame_bytes (NEW_TOKEN t) = 0x07 # vint_bytes (of_nat (length t)) @ t"
| "frame_bytes HANDSHAKE_DONE = [0x1e]"
| "frame_bytes (NEW_CONNECTION_ID seq rpt cid tok) =
     0x18 # vint_bytes seq @ vint_bytes rpt @ of_nat (length cid) # cid @ tok"
| "frame_bytes (RETIRE_CONNECTION_ID seq) = 0x19 # vint_bytes seq"
| "frame_bytes (PATH_CHALLENGE d) = 0x1a # d"
| "frame_bytes (PATH_RESPONSE d) = 0x1b # d"

text \<open>
  The frames an endpoint may send: integers of at most 62 bits, identifiers and challenge
  data of their prescribed lengths, a token the peer's buffer of \<open>toklen\<close> bytes can take.
\<close>

fun frame_ok :: "u32 \<Rightarrow> ctl_frame \<Rightarrow> bool" where
  "frame_ok toklen PING \<longleftrightarrow> True"
| "frame_ok toklen (RESET_STREAM sid ec fs) \<longleftrightarrow>
     sid \<le> XQC_VINT_MAX \<and> ec \<le> XQC_VINT_MAX \<and> fs \<le> XQC_VINT_MAX"
| "frame_ok toklen (RESET_STREAM_AT sid ec fs rs) \<longleftrightarrow>
     sid \<le> XQC_VINT_MAX \<and> ec \<le> XQC_VINT_MAX \<and> fs \<le> XQC_VINT_MAX \<and> rs \<le> fs"
| "frame_ok toklen (STOP_SENDING sid ec) \<longleftrightarrow> sid \<le> XQC_VINT_MAX \<and> ec \<le> XQC_VINT_MAX"
| "frame_ok toklen (DATA_BLOCKED l) \<longleftrightarrow> l \<le> XQC_VINT_MAX"
| "frame_ok toklen (STREAM_DATA_BLOCKED sid l) \<longleftrightarrow> sid \<le> XQC_VINT_MAX \<and> l \<le> XQC_VINT_MAX"
| "frame_ok toklen (STREAMS_BLOCKED l bidi) \<longleftrightarrow> l \<le> XQC_VINT_MAX"
| "frame_ok toklen (MAX_DATA m) \<longleftrightarrow> m \<le> XQC_VINT_MAX"
| "frame_ok toklen (MAX_STREAM_DATA sid m) \<longleftrightarrow> sid \<le> XQC_VINT_MAX \<and> m \<le> XQC_VINT_MAX"
| "frame_ok toklen (MAX_STREAMS m bidi) \<longleftrightarrow> m \<le> XQC_VINT_MAX"
| "frame_ok toklen (NEW_TOKEN t) \<longleftrightarrow> t \<noteq> [] \<and> length t \<le> unat toklen"
| "frame_ok toklen HANDSHAKE_DONE \<longleftrightarrow> True"
| "frame_ok toklen (NEW_CONNECTION_ID seq rpt cid tok) \<longleftrightarrow>
     seq \<le> XQC_VINT_MAX \<and> rpt \<le> XQC_VINT_MAX \<and> cid \<noteq> [] \<and> length cid \<le> XQC_MAX_CID_LEN
     \<and> length tok = XQC_STATELESS_RESET_TOKENLEN"
| "frame_ok toklen (RETIRE_CONNECTION_ID seq) \<longleftrightarrow> seq \<le> XQC_VINT_MAX"
| "frame_ok toklen (PATH_CHALLENGE d) \<longleftrightarrow> length d = XQC_PATH_CHALLENGE_DATA_LEN"
| "frame_ok toklen (PATH_RESPONSE d) \<longleftrightarrow> length d = XQC_PATH_CHALLENGE_DATA_LEN"

text \<open>Frames on a stream whose direction forbids them close the connection instead.\<close>

fun frame_dir_ok :: "xqc_conn_type \<Rightarrow> ctl_frame \<Rightarrow> bool" where
  "frame_dir_ok ct (RESET_STREAM sid ec fs) \<longleftrightarrow> \<not> xqc_stream_is_send_only ct sid"
| "frame_dir_ok ct (STOP_SENDING sid ec) \<longleftrightarrow> \<not> xqc_stream_is_recv_only ct sid"
| "frame_dir_ok ct (MAX_STREAM_DATA sid m) \<longleftrightarrow> \<not> xqc_stream_is_recv_only ct sid"
| "frame_dir_ok ct _ \<longleftrightarrow> True"

section \<open>Generator and parser by frame\<close>

definition cid_of :: "u64 \<Rightarrow> bytes \<Rightarrow> xqc_cid" where
  "cid_of seq cid = \<lparr>cid_len = of_nat (length cid),
     cid_buf = cid @ replicate (XQC_MAX_CID_LEN - length cid) 0, cid_seq_num = seq,
     sr_token = replicate XQC_STATELESS_RESET_TOKENLEN 0, cid_path_id = 0\<rparr>"

fun gen_frame :: "xqc_packet_out \<Rightarrow> ctl_frame \<Rightarrow> xqc_packet_out \<times> nat res" where
  "gen_frame po PING = xqc_gen_ping_frame po"
| "gen_frame po (RESET_STREAM sid ec fs) = xqc_gen_reset_stream_frame po sid ec fs"
| "gen_frame po (RESET_STREAM_AT sid ec fs rs) = xqc_gen_reset_stream_at_frame po sid ec fs rs"
| "gen_frame po (STOP_SENDING sid ec) = xqc_gen_stop_sending_frame po sid ec"
| "gen_frame po (DATA_BLOCKED l) = xqc_gen_data_blocked_frame po l"
| "gen_frame po (STREAM_DATA_BLOCKED sid l) = xqc_gen_stream_data_blocked_frame po sid l"
| "gen_frame po (STREAMS_BLOCKED l bidi) = xqc_gen_streams_blocked_frame po l bidi"
| "gen_frame po (MAX_DATA m) = xqc_gen_max_data_frame po m"
| "gen_frame po (MAX_STREAM_DATA sid m) = xqc_gen_max_stream_data_frame po sid m"
| "gen_frame po (MAX_STREAMS m bidi) = xqc_gen_max_streams_frame po m bidi"
| "gen_frame po (NEW_TOKEN t) = xqc_gen_new_token_frame po t"
| "gen_frame po HANDSHAKE_DONE = xqc_gen_handshake_done_frame po"
| "gen_frame po (NEW_CONNECTION_ID seq rpt cid tok) =
     xqc_gen_new_conn_id_frame po (cid_of seq cid) rpt (Some tok)"
| "gen_frame po (RETIRE_CONNECTION_ID seq) = xqc_gen_retire_conn_id_frame po seq"
| "gen_frame po (PATH_CHALLENGE d) = xqc_gen_path_challenge_frame po d"
| "gen_frame po (PATH_RESPONSE d) = xqc_gen_path_response_frame po d"

text \<open>Both sides of a result mapped: the connection kept, the values turned into a frame.\<close>

definition as_frame :: "('v \<Rightarrow> ctl_frame) \<Rightarrow> xqc_connection \<times> (xqc_packet_in \<times> 'v) res
    \<Rightarrow> xqc_connection \<times> (xqc_packet_in \<times> ctl_frame) res" where
  "as_frame f = (\<lambda>(conn, r). (conn, map_sum id (map_prod id f) r))"

definition parse_frame ::
    "u32 \<Rightarrow> xqc_connection \<Rightarrow> xqc_packet_in \<Rightarrow> xqc_connection \<times> (xqc_packet_in \<times> ctl_frame) res" where
  "parse_frame toklen conn pi =
     rd_vint (conn, Inl XQC_EVINTREAD) (pi_rest pi) (\<lambda>frame_type _.
       if frame_type = 0x01 then (conn, map_sum id (\<lambda>pi. (pi, PING)) (xqc_parse_ping_frame pi))
       else if frame_type = 0x04 then
         as_frame (\<lambda>(sid, ec, fs). RESET_STREAM sid ec fs) (xqc_parse_reset_stream_frame pi conn)
       else if frame_type = 0x24 then
         as_frame (\<lambda>(sid, ec, fs, rs). RESET_STREAM_AT sid ec fs rs)
           (conn, xqc_parse_reset_stream_at_frame pi)
       else if frame_type = 0x05 then
         as_frame (\<lambda>(sid, ec). STOP_SENDING sid ec) (xqc_parse_stop_sending_frame pi conn)
       else if frame_type = 0x07 then as_frame NEW_TOKEN (conn, xqc_parse_new_token_frame pi toklen)
       else if frame_type = 0x10 then as_frame MAX_DATA (conn, xqc_parse_max_data_frame pi)
       else if frame_type = 0x11 then
         as_frame (\<lambda>(sid, m). MAX_STREAM_DATA sid m) (xqc_parse_max_stream_data_frame pi conn)
       else if frame_type = 0x12 \<or> frame_type = 0x13 then
         as_frame (\<lambda>(m, bidi). MAX_STREAMS m bidi) (conn, xqc_parse_max_streams_frame pi)
       else if frame_type = 0x14 then as_frame DATA_BLOCKED (conn, xqc_parse_data_blocked_frame pi)
       else if frame_type = 0x15 then
         as_frame (\<lambda>(sid, l). STREAM_DATA_BLOCKED sid l) (conn, xqc_parse_stream_data_blocked_frame pi)
       else if frame_type = 0x16 \<or> frame_type = 0x17 then
         as_frame (\<lambda>(l, bidi). STREAMS_BLOCKED l bidi) (conn, xqc_parse_streams_blocked_frame pi)
       else if frame_type = 0x18 then
         as_frame (\<lambda>(cid, rpt). NEW_CONNECTION_ID (cid_seq_num cid) rpt
             (take (unat (cid_len cid)) (cid_buf cid)) (sr_token cid))
           (xqc_parse_new_conn_id_frame pi (cid_of 0 []) conn)
       else if frame_type = 0x19 then
         as_frame RETIRE_CONNECTION_ID (conn, xqc_parse_retire_conn_id_frame pi)
       else if frame_type = 0x1a then as_frame PATH_CHALLENGE (conn, xqc_parse_path_challenge_frame pi)
       else if frame_type = 0x1b then as_frame PATH_RESPONSE (conn, xqc_parse_path_response_frame pi)
       else if frame_type = 0x1e then
         (conn, map_sum id (\<lambda>pi. (pi, HANDSHAKE_DONE)) (xqc_parse_handshake_done_frame pi))
       else (conn, Inl XQC_EIGNORE_PKT))"

section \<open>Each generator writes the layout\<close>

fun frame_kind :: "ctl_frame \<Rightarrow> xqc_frame_type" where
  "frame_kind PING = XQC_FRAME_PING"
| "frame_kind (RESET_STREAM _ _ _) = XQC_FRAME_RESET_STREAM"
| "frame_kind (RESET_STREAM_AT _ _ _ _) = XQC_FRAME_RESET_STREAM_AT"
| "frame_kind (STOP_SENDING _ _) = XQC_FRAME_STOP_SENDING"
| "frame_kind (DATA_BLOCKED _) = XQC_FRAME_DATA_BLOCKED"
| "frame_kind (STREAM_DATA_BLOCKED _ _) = XQC_FRAME_STREAM_DATA_BLOCKED"
| "frame_kind (STREAMS_BLOCKED _ _) = XQC_FRAME_STREAMS_BLOCKED"
| "frame_kind (MAX_DATA _) = XQC_FRAME_MAX_DATA"
| "frame_kind (MAX_STREAM_DATA _ _) = XQC_FRAME_MAX_STREAM_DATA"
| "frame_kind (MAX_STREAMS _ _) = XQC_FRAME_MAX_STREAMS"
| "frame_kind (NEW_TOKEN _) = XQC_FRAME_NEW_TOKEN"
| "frame_kind HANDSHAKE_DONE = XQC_FRAME_HANDSHAKE_DONE"
| "frame_kind (NEW_CONNECTION_ID _ _ _ _) = XQC_FRAME_NEW_CONNECTION_ID"
| "frame_kind (RETIRE_CONNECTION_ID _) = XQC_FRAME_RETIRE_CONNECTION_ID"
| "frame_kind (PATH_CHALLENGE _) = XQC_FRAME_PATH_CHALLENGE"
| "frame_kind (PATH_RESPONSE _) = XQC_FRAME_PATH_RESPONSE"

lemma get_2bit_small: "unat v < 64 \<Longrightarrow> xqc_vint_get_2bit v = 0"
  by (simp add: xqc_vint_get_2bit_def word_le_nat_alt unat_pow2)

lemma vint_bytes_small: "unat v < 64 \<Longrightarrow> vint_bytes v = [ucast v]"
  by (simp add: vint_bytes_def get_2bit_small xqc_vint_write_eq)

lemma vint_write_small: "unat v < 64 \<Longrightarrow> xqc_vint_write v 0 (Suc 0) = [ucast v]"
  using vint_bytes_small [of v] by (simp add: vint_bytes_def get_2bit_small xqc_vint_len_def)

lemma vint_len_pos [simp]: "0 < xqc_vint_len k"
  by (simp add: xqc_vint_len_def)

lemmas vint_fold [wire_simps] = vint_bytes_def [symmetric] length_vint_bytes

lemma put_varints_eq: "\<forall>v \<in> set vs. v \<le> XQC_VINT_MAX \<Longrightarrow> put_varints vs = concat (map vint_bytes vs)"
  by (induction vs) (auto simp: put_varints_def xqc_put_varint_eq)

lemma put_varint_len_eq: "xqc_put_varint_len v = length (vint_bytes v)"
  by (auto simp: length_vint_bytes xqc_put_varint_len_def xqc_vint_get_2bit_def xqc_vint_len_def
      word_le_nat_alt word_less_nat_alt)

lemma unat_of_len: "n < 256 \<Longrightarrow> unat (of_nat n :: u8) = n" "n < 2 ^ 32 \<Longrightarrow> unat (of_nat n :: u64) = n"
  by (simp_all add: unat_of_nat)

lemmas gen_simps = Let_def vint_fold xqc_gen_ping_frame_def xqc_gen_reset_stream_frame_def
  xqc_gen_reset_stream_at_frame_def xqc_gen_stop_sending_frame_def xqc_gen_data_blocked_frame_def
  xqc_gen_stream_data_blocked_frame_def xqc_gen_streams_blocked_frame_def xqc_gen_max_data_frame_def
  xqc_gen_max_stream_data_frame_def xqc_gen_max_streams_frame_def xqc_gen_new_token_frame_def
  xqc_gen_handshake_done_frame_def xqc_gen_retire_conn_id_frame_def
  xqc_gen_path_challenge_frame_def xqc_gen_path_response_frame_def

lemma gen_new_conn_id_eq:
  assumes "cid \<noteq> []" and "length cid \<le> XQC_MAX_CID_LEN" and "length tok = XQC_STATELESS_RESET_TOKENLEN"
  shows "xqc_gen_new_conn_id_frame po (cid_of seq cid) rpt (Some tok) =
    (po_mark XQC_FRAME_NEW_CONNECTION_ID (po_put (frame_bytes (NEW_CONNECTION_ID seq rpt cid tok)) po),
     Inr (length (frame_bytes (NEW_CONNECTION_ID seq rpt cid tok))))"
proof -
  have len: "length cid < 256" "length cid < 64" using assms(2) by (simp_all add: XQC_MAX_CID_LEN_def)
  then have u: "ucast (of_nat (length cid) :: u8) = (of_nat (length cid) :: u64)"
    and n: "unat (of_nat (length cid) :: u64) = length cid" and nz: "(of_nat (length cid) :: u64) \<noteq> 0"
    using assms(1) by (simp_all add: word_unat_eq_iff unsigned_ucast_eq take_bit_nat_eq_self unat_of_nat)
  then have v: "vint_bytes (of_nat (length cid)) = [of_nat (length cid)]"
    using len by (simp add: vint_bytes_small word_unat_eq_iff unsigned_ucast_eq take_bit_nat_eq_self unat_of_nat)
  show ?thesis
    using assms n nz by (simp add: xqc_gen_new_conn_id_frame_def cid_of_def u v Let_def vint_fold)
qed

lemma gen_frame_eq:
  assumes "frame_ok l f" and "length (frame_bytes f) \<le> xqc_get_po_remained_size po"
  shows "gen_frame po f =
    (po_mark (frame_kind f) (po_put (frame_bytes f) po), Inr (length (frame_bytes f)))"
proof (cases f)
  case (RESET_STREAM_AT sid ec fs rs)
  have "vint_bytes 0x24 = [0x24]" by (simp add: vint_bytes_small)
  moreover have "rs \<le> XQC_VINT_MAX" "0x24 \<le> XQC_VINT_MAX"
    using assms(1) RESET_STREAM_AT by (auto simp: XQC_VINT_MAX_def)
  ultimately have "put_varints [0x24, sid, ec, fs, rs] = frame_bytes f"
    using assms(1) RESET_STREAM_AT by (simp add: put_varints_eq)
  with assms RESET_STREAM_AT show ?thesis
    by (simp add: gen_simps put_varint_len_eq XQC_FRAME_TYPE_RESET_STREAM_AT_def not_less)
next
  case (NEW_CONNECTION_ID seq rpt cid tok)
  with assms gen_new_conn_id_eq show ?thesis by simp
next
  case (PATH_CHALLENGE d)
  with assms show ?thesis by (simp add: gen_simps vint_write_small get_2bit_small xqc_vint_len_def)
next
  case (PATH_RESPONSE d)
  with assms show ?thesis by (simp add: gen_simps vint_write_small get_2bit_small xqc_vint_len_def)
qed (use assms in \<open>simp_all add: gen_simps not_less\<close>)

section \<open>Each parser reads the layout\<close>

lemma rd_vint_small [wire_simps]:
  "unat b < 64 \<Longrightarrow> rd_vint e (b # p) k = k (ucast b) p"
proof -
  assume b: "unat b < 64"
  have u: "unat (ucast b :: u64) = unat b"
    by (simp add: unat_ucast_up)
  then have "vint_bytes (ucast b) = [b]"
    using b by (simp add: vint_bytes_small)
  moreover have "ucast b \<le> XQC_VINT_MAX" unfolding unat_VINT_MAX using u b by simp
  ultimately show ?thesis using rd_vint_bytes [of "ucast b" e p k] by simp
qed

lemmas parse_defs = xqc_parse_ping_frame_def xqc_parse_reset_stream_frame_def
  xqc_parse_reset_stream_at_frame_def xqc_parse_stop_sending_frame_def xqc_parse_data_blocked_frame_def
  xqc_parse_stream_data_blocked_frame_def xqc_parse_streams_blocked_frame_def xqc_parse_max_data_frame_def
  xqc_parse_max_stream_data_frame_def xqc_parse_max_streams_frame_def
  xqc_parse_handshake_done_frame_def xqc_parse_retire_conn_id_frame_def
  xqc_parse_path_challenge_frame_def xqc_parse_path_response_frame_def

lemmas parse_simps = parse_defs wire_simps as_frame_def

lemma parse_new_token_bytes:
  assumes "t \<noteq> []" and "length t \<le> unat l" and "pi_rest pi = frame_bytes (NEW_TOKEN t) @ r"
  shows "xqc_parse_new_token_frame pi l = Inr (pi_done XQC_FRAME_NEW_TOKEN r pi, t)"
proof -
  have len: "length t < 2 ^ 32" using assms(2) unat_u32_less [of l] by simp
  then have n: "unat (of_nat (length t) :: u64) = length t" by (rule unat_of_len)
  moreover have "unat (ucast l :: u64) = unat l"
    by (simp add: unat_ucast_up)
  moreover have "(of_nat (length t) :: u64) \<le> XQC_VINT_MAX" unfolding unat_VINT_MAX using n len by simp
  ultimately show ?thesis
    using assms by (simp add: xqc_parse_new_token_frame_def wire_simps word_less_nat_alt word_unat_eq_iff)
qed

lemma parse_new_conn_id_bytes:
  assumes "frame_ok l (NEW_CONNECTION_ID seq rpt cid tok)"
    and "pi_rest pi = frame_bytes (NEW_CONNECTION_ID seq rpt cid tok) @ r"
  shows "xqc_parse_new_conn_id_frame pi c conn =
    (conn, Inr (pi_done XQC_FRAME_NEW_CONNECTION_ID r pi,
       c\<lparr>cid_seq_num := seq, cid_len := of_nat (length cid), cid_buf := buf_write (cid_buf c) 0 cid,
         sr_token := tok\<rparr>, rpt))"
proof -
  have "length cid < 256" "0 < length cid" using assms(1) by (simp_all add: XQC_MAX_CID_LEN_def)
  then have "unat (of_nat (length cid) :: u8) = length cid" by (simp add: unat_of_len)
  with assms \<open>0 < length cid\<close> show ?thesis
    by (simp add: xqc_parse_new_conn_id_frame_def wire_simps Let_def not_less)
qed

lemma parse_frame_bytes:
  assumes "frame_ok l f" and "frame_dir_ok (conn_type conn) f" and "pi_rest pi = frame_bytes f @ r"
  shows "parse_frame l conn pi = (conn, Inr (pi_done (frame_kind f) r pi, f))"
proof (cases f)
  case (RESET_STREAM_AT sid ec fs rs)
  have "rs \<le> XQC_VINT_MAX" using assms(1) RESET_STREAM_AT by auto
  with assms RESET_STREAM_AT show ?thesis
    by (simp add: parse_frame_def parse_simps XQC_FRAME_TYPE_RESET_STREAM_AT_def not_less)
next
  case (NEW_TOKEN t)
  with assms parse_new_token_bytes [of t l pi r] show ?thesis
    by (simp add: parse_frame_def parse_simps)
next
  case (NEW_CONNECTION_ID seq rpt cid tok)
  have "length cid < 256" using assms(1) NEW_CONNECTION_ID by (simp add: XQC_MAX_CID_LEN_def)
  then have "unat (of_nat (length cid) :: u8) = length cid" by (simp add: unat_of_len)
  with assms NEW_CONNECTION_ID parse_new_conn_id_bytes [of l seq rpt cid tok pi r "cid_of 0 []" conn]
  show ?thesis
    by (simp add: parse_frame_def parse_simps cid_of_def buf_write_def)
qed (use assms in \<open>auto simp: parse_frame_def parse_simps\<close>)

section \<open>A parser never leaves its input\<close>

lemma as_frame_Inr:
  "as_frame g cr = (c', Inr (pi, f)) \<longleftrightarrow> (\<exists>v. cr = (c', Inr (pi, v)) \<and> f = g v)"
  by (cases cr; cases "snd cr") (auto simp: as_frame_def)

lemma map_Inr: "map_sum id g r = Inr y \<longleftrightarrow> (\<exists>x. r = Inr x \<and> y = g x)"
  by (cases r) auto

lemma parse_frame_suffix:
  assumes "parse_frame l conn pi = (conn', Inr (pi', f))"
  shows "strict_suffix (pi_rest pi') (pi_rest pi)"
  using assms unfolding parse_frame_def
  by (elim rd_vintE)
    (auto simp: as_frame_Inr map_Inr parse_defs xqc_parse_new_token_frame_def
      xqc_parse_new_conn_id_frame_def Let_def
      elim!: rd_vintE rd_u8E split: if_splits intro: suffix_trans,
     (meson strict_suffix_drop suffix_trans)+)

section \<open>The payload of a packet\<close>

text \<open>
  The loop of \<open>xqc_process_frames\<close> with its check that the position has moved, each handler
  reduced to its parser; and a caller that appends frames, advancing \<open>po_used_size\<close>
  by what each generator returns, as the \<open>xqc_write_*_to_packet\<close> functions do.
\<close>

function parse_frames ::
    "u32 \<Rightarrow> xqc_connection \<Rightarrow> xqc_packet_in \<Rightarrow> xqc_connection \<times> (xqc_packet_in \<times> ctl_frame list) res" where
  "parse_frames l conn pi =
     (if pi_rest pi = [] then (conn, Inr (pi, []))
      else
        case parse_frame l conn pi of
          (conn', Inl e) \<Rightarrow> (conn', Inl e)
        | (conn', Inr (pi', f)) \<Rightarrow>
            if pi_rest pi' = pi_rest pi then (conn', Inl XQC_ESYS)
            else case parse_frames l conn' pi' of
                   (conn'', Inl e) \<Rightarrow> (conn'', Inl e)
                 | (conn'', Inr (pi'', fs)) \<Rightarrow> (conn'', Inr (pi'', f # fs)))"
  by pat_completeness auto
termination
  by (relation "measure (\<lambda>(l, conn, pi). length (pi_rest pi))")
    (auto dest: suffix_length_less [OF parse_frame_suffix, OF sym])

declare parse_frames.simps [simp del]

fun write_frames :: "xqc_packet_out \<Rightarrow> ctl_frame list \<Rightarrow> xqc_packet_out res" where
  "write_frames po [] = Inr po"
| "write_frames po (f # fs) =
     (case gen_frame po f of
        (_, Inl e) \<Rightarrow> Inl e
      | (po', Inr n) \<Rightarrow> write_frames (po'\<lparr>po_used_size := po_used_size po' + n\<rparr>) fs)"

definition ok_frame :: "u32 \<Rightarrow> xqc_connection \<Rightarrow> ctl_frame \<Rightarrow> bool" where
  "ok_frame l conn f \<longleftrightarrow> frame_ok l f \<and> frame_dir_ok (conn_type conn) f"

definition dec_frame :: "u32 \<Rightarrow> xqc_connection \<Rightarrow> bytes \<Rightarrow> (ctl_frame \<times> bytes) option" where
  "dec_frame l conn bs =
     (case parse_frame l conn \<lparr>pi_pkt_pns = XQC_PNS_APP_DATA, pi_rest = bs, pi_frame_types = 0\<rparr> of
        (_, Inr (pi, f)) \<Rightarrow> Some (f, pi_rest pi) | _ \<Rightarrow> None)"

lemma frame_bytes_nonempty [simp]: "frame_bytes f \<noteq> []"
  by (cases f) simp_all

interpretation ctl: prefix_code frame_bytes "dec_frame l conn" "ok_frame l conn" for l conn
proof
  fix f r
  assume "ok_frame l conn f"
  then show "dec_frame l conn (frame_bytes f @ r) = Some (f, r)"
    using parse_frame_bytes [of l f conn
        "\<lparr>pi_pkt_pns = XQC_PNS_APP_DATA, pi_rest = frame_bytes f @ r, pi_frame_types = 0\<rparr>" r]
    by (simp add: dec_frame_def ok_frame_def)
qed simp

lemma parse_frames_concat:
  "\<forall>f \<in> set fs. ok_frame l conn f \<Longrightarrow> pi_rest pi = concat (map frame_bytes fs) \<Longrightarrow>
   \<exists>pi'. parse_frames l conn pi = (conn, Inr (pi', fs)) \<and> pi_rest pi' = []"
proof (induction fs arbitrary: pi)
  case Nil
  then show ?case by (subst parse_frames.simps) simp
next
  case (Cons f fs)
  let ?pi = "pi_done (frame_kind f) (concat (map frame_bytes fs)) pi"
  have one: "parse_frame l conn pi = (conn, Inr (?pi, f))"
    using Cons.prems by (intro parse_frame_bytes) (auto simp: ok_frame_def)
  from Cons.IH [of ?pi] Cons.prems obtain pi' where
    "parse_frames l conn ?pi = (conn, Inr (pi', fs))" "pi_rest pi' = []" by auto
  with one Cons.prems show ?case by (subst parse_frames.simps) simp
qed

text \<open>A successful generator: the bytes it leaves alone and the bytes it writes.\<close>

lemma gen_frame_effect:
  assumes "po_wf po" and "frame_ok l f" and "length (frame_bytes f) \<le> xqc_get_po_remained_size po"
  obtains po' where "gen_frame po f = (po', Inr (length (frame_bytes f)))"
    and "po_buf po' = take (po_used_size po) (po_buf po) @ frame_bytes f
           @ drop (po_used_size po + length (frame_bytes f)) (po_buf po)"
    and "po_used_size po' = po_used_size po" and "po_buf_size po' = po_buf_size po"
    and "po_reserved_size po' = po_reserved_size po" and "po_stream_frames po' = po_stream_frames po"
  using gen_frame_eq [OF assms(2,3)]
  by (auto simp: po_put_def po_mark_def buf_write_def)

lemma remained_advance:
  assumes "0 < n" and "n \<le> xqc_get_po_remained_size po"
    and "po_buf_size po' = po_buf_size po" and "po_reserved_size po' = po_reserved_size po"
    and "po_used_size po' = po_used_size po + n"
  shows "xqc_get_po_remained_size po' = xqc_get_po_remained_size po - n"
  using assms by (auto simp: xqc_get_po_remained_size_def split: if_splits)

lemma write_frames_ok:
  assumes "po_wf po" and "\<forall>f \<in> set fs. frame_ok l f"
    and "length (concat (map frame_bytes fs)) \<le> xqc_get_po_remained_size po"
  shows "\<exists>po'. write_frames po fs = Inr po'
    \<and> po_used_size po' = po_used_size po + length (concat (map frame_bytes fs))
    \<and> po_buf po' = buf_write (po_buf po) (po_used_size po) (concat (map frame_bytes fs))"
  using assms
proof (induction fs arbitrary: po)
  case Nil
  then show ?case by (simp add: buf_write_def)
next
  case (Cons f fs)
  let ?n = "length (frame_bytes f)"
  have n: "0 < ?n" "?n \<le> xqc_get_po_remained_size po" using Cons.prems by simp_all
  obtain po1 where gen: "gen_frame po f = (po1, Inr ?n)"
    and buf: "po_buf po1 = take (po_used_size po) (po_buf po) @ frame_bytes f
           @ drop (po_used_size po + ?n) (po_buf po)"
    and rest: "po_used_size po1 = po_used_size po" "po_buf_size po1 = po_buf_size po"
      "po_reserved_size po1 = po_reserved_size po" "po_stream_frames po1 = po_stream_frames po"
    using gen_frame_effect [of po l f] Cons.prems(1,2) n(2) by auto
  define po2 where "po2 = po1\<lparr>po_used_size := po_used_size po1 + ?n\<rparr>"
  have in_buf: "po_used_size po + ?n \<le> length (po_buf po)"
    using po_remained_le [OF Cons.prems(1) n(2,1)] by linarith
  have buf2: "po_buf po2 = buf_write (po_buf po) (po_used_size po) (frame_bytes f)"
    using buf by (simp add: po2_def buf_write_def)
  have wf2: "po_wf po2"
    using Cons.prems(1) in_buf rest buf2 by (simp add: po_wf_def po2_def)
  have rem2: "xqc_get_po_remained_size po2 = xqc_get_po_remained_size po - ?n"
    using rest by (intro remained_advance [OF n]) (simp_all add: po2_def)
  have u2: "po_used_size po2 = po_used_size po + ?n" using rest(1) by (simp add: po2_def)
  have "\<forall>f \<in> set fs. frame_ok l f" and "length (concat (map frame_bytes fs)) \<le> xqc_get_po_remained_size po2"
    using Cons.prems(2,3) rem2 by simp_all
  from Cons.IH [OF wf2 this] obtain po' where
    "write_frames po2 fs = Inr po'"
    "po_used_size po' = po_used_size po2 + length (concat (map frame_bytes fs))"
    "po_buf po' = buf_write (po_buf po2) (po_used_size po2) (concat (map frame_bytes fs))"
    by auto
  moreover have "buf_write (po_buf po2) (po_used_size po2) (concat (map frame_bytes fs)) =
      buf_write (po_buf po) (po_used_size po) (concat (map frame_bytes (f # fs)))"
    by (simp add: buf2 u2 buf_write_append [OF in_buf])
  ultimately show ?case using gen u2 by (simp add: po2_def [symmetric])
qed

section \<open>Properties of the codecs\<close>

text \<open>C6: Whatever control frames an endpoint appends to a packet with enough room, the
  generators succeed, stay inside the buffer, leave the earlier bytes alone, and the parsers recover exactly
  these frames, in order, from the bytes written, without closing the connection.\<close>

theorem packet_roundtrip:
  assumes "po_wf po" and "\<forall>f \<in> set fs. ok_frame l conn f"
    and "length (concat (map frame_bytes fs)) \<le> xqc_get_po_remained_size po"
  shows "\<exists>po' pi'. write_frames po fs = Inr po' \<and> length (po_buf po') = length (po_buf po)
    \<and> take (po_used_size po) (po_buf po') = take (po_used_size po) (po_buf po)
    \<and> parse_frames l conn (pi\<lparr>pi_rest :=
         take (po_used_size po' - po_used_size po) (drop (po_used_size po) (po_buf po'))\<rparr>)
       = (conn, Inr (pi', fs))
    \<and> pi_rest pi' = []"
proof -
  let ?bs = "concat (map frame_bytes fs)"
  obtain po' where w: "write_frames po fs = Inr po'" and u: "po_used_size po' = po_used_size po + length ?bs"
    and b: "po_buf po' = buf_write (po_buf po) (po_used_size po) ?bs"
    using write_frames_ok [of po fs l] assms by (auto simp: ok_frame_def)
  have used: "po_used_size po \<le> length (po_buf po)" using assms(1) by (simp add: po_wf_def)
  have room: "po_used_size po + length ?bs \<le> length (po_buf po)"
  proof (cases "length ?bs = 0")
    case False
    then show ?thesis using po_remained_le [OF assms(1,3)] by linarith
  qed (use used in simp)
  obtain pi' where "parse_frames l conn (pi\<lparr>pi_rest := ?bs\<rparr>) = (conn, Inr (pi', fs))" "pi_rest pi' = []"
    using parse_frames_concat [OF assms(2), of "pi\<lparr>pi_rest := ?bs\<rparr>"] by auto
  then show ?thesis using w u b used room by (intro exI [of _ po'] exI [of _ pi']) simp
qed

theorem packet_roundtrip_witness:
  "\<exists>po' pi'. write_frames po_example [MAX_DATA 5, PING, RESET_STREAM 4 300 70000] = Inr po'
    \<and> parse_frames 256 conn_example (pi_example\<lparr>pi_rest :=
         take (po_used_size po' - 30) (drop 30 (po_buf po'))\<rparr>)
       = (conn_example, Inr (pi', [MAX_DATA 5, PING, RESET_STREAM 4 300 70000]))"
proof -
  let ?fs = "[MAX_DATA 5, PING, RESET_STREAM 4 300 70000]"
  have "\<forall>f \<in> set ?fs. ok_frame 256 conn_example f"
    by (simp add: ok_frame_def XQC_VINT_MAX_def conn_example_def xqc_stream_is_send_only_def
        xqc_get_stream_type_def XQC_CLI_UNI_def)
  moreover have "length (concat (map frame_bytes ?fs)) \<le> xqc_get_po_remained_size po_example"
    by (simp add: po_example_room length_vint_bytes xqc_vint_len_def xqc_vint_get_2bit_def)
  ultimately show ?thesis
    using packet_roundtrip [OF po_example_wf, of ?fs 256 conn_example pi_example]
    by (auto simp: po_example_def)
qed

text \<open>The layout is unambiguous: two sequences of frames that give the same payload are
  the same sequence.\<close>

theorem payload_unique:
  assumes "\<forall>f \<in> set fs. ok_frame l conn f" and "\<forall>g \<in> set gs. ok_frame l conn g"
    and "concat (map frame_bytes fs) = concat (map frame_bytes gs)"
  shows "fs = gs"
  using assms by (rule ctl.sequence_unique)

theorem payload_unique_witness:
  "concat (map frame_bytes ([PING] @ [MAX_DATA 5])) = concat (map frame_bytes [PING, MAX_DATA 5])
   \<and> [PING] @ [MAX_DATA 5] = [PING, MAX_DATA 5]"
  using payload_unique [of "[PING] @ [MAX_DATA 5]" 256 conn_example "[PING, MAX_DATA 5]"]
  by (simp add: ok_frame_def XQC_VINT_MAX_def)



text \<open>A frame on a stream whose direction forbids it is refused: the parsers of
  RESET\_STREAM, STOP\_SENDING and MAX\_STREAM\_DATA record a STREAM\_STATE\_ERROR as the error
  of the connection, unless an earlier one is recorded, and schedule its closing.\<close>

theorem wrong_direction_closes:
  assumes "frame_ok l f" and "\<not> frame_dir_ok (conn_type conn) f" and "pi_rest pi = frame_bytes f @ r"
  shows "parse_frame l conn pi = (XQC_CONN_ERR conn TRA_STREAM_STATE_ERROR, Inl XQC_EPROTO)"
  using assms by (cases f) (simp_all add: parse_frame_def parse_simps)

theorem wrong_direction_closes_witness:
  "\<exists>c. parse_frame 256 conn_example (pi_example\<lparr>pi_rest := frame_bytes (RESET_STREAM 2 0 0)\<rparr>) = (c, Inl XQC_EPROTO)
    \<and> conn_err c = 5"
  using wrong_direction_closes [of 256 "RESET_STREAM 2 0 0" conn_example
      "pi_example\<lparr>pi_rest := frame_bytes (RESET_STREAM 2 0 0)\<rparr>" "[]"]
  by (simp add: XQC_VINT_MAX_def conn_example_def xqc_stream_is_send_only_def xqc_get_stream_type_def
      XQC_CLI_UNI_def XQC_CONN_ERR_def XQC_CONN_CLOSE_MSG_def xqc_conn_closing_def TRA_STREAM_STATE_ERROR_def)

end
