(* ===== verification/Ring_Array.thy ===== *)
theory Ring_Array
  imports Xqc_Prelude
begin

text \<open>
  The ring array of src/common/utils/ringarray/xqc_ring_array.c: a fixed power-of-two number
  of slots used as a bounded double-ended queue. Indices are \<open>uint64_t\<close> and are reduced with
  \<open>& mask\<close>, as in the code. A slot is \<open>None\<close> while no element was stored in it since the last clearing. The
  allocator is the argument \<open>malloc_ok\<close>: whether the allocations of the call succeed.

  The locale \<open>bounded_deque\<close> is the interface the clients rely on (the QPACK dynamic table
  and the record of sent ACKs); the interpretation at the end discharges its laws for the
  ring array.
\<close>

section \<open>Rounding up to a power of two (src/common/xqc_common.h)\<close>

definition XQC_POW2_UPPER_ERROR :: u64 where
  "XQC_POW2_UPPER_ERROR = 0"

partial_function (option) pow2_loop :: "u64 \<Rightarrow> u64 \<Rightarrow> u64 option" where
  "pow2_loop n m = (if m < n then pow2_loop n (push_bit 1 m) else Some m)"

definition xqc_pow2_upper :: "u64 \<Rightarrow> u64 option" where
  "xqc_pow2_upper n =
     (if n > 0x8000000000000000 then Some XQC_POW2_UPPER_ERROR else pow2_loop n 1)"

section \<open>The array and its operations\<close>

record 'a xqc_rarray =
  ra_buf :: "'a option list"
  ra_cap :: u64
  ra_count :: u64
  ra_offset :: u64
  ra_mask :: u64

definition xqc_rarray_create :: "bool \<Rightarrow> u64 \<Rightarrow> u64 \<Rightarrow> 'a xqc_rarray option" where
  "xqc_rarray_create malloc_ok cap esize =
     (if \<not> malloc_ok then None
      else if esize \<noteq> 0 then
        (case xqc_pow2_upper cap of
           None \<Rightarrow> None
         | Some array_cap \<Rightarrow>
             if array_cap = XQC_POW2_UPPER_ERROR then None
             else Some \<lparr>ra_buf = replicate (unat array_cap) None, ra_cap = array_cap, ra_count = 0,
                        ra_offset = 0, ra_mask = array_cap - 1\<rparr>)
      else Some \<lparr>ra_buf = [], ra_cap = 0, ra_count = 0, ra_offset = 0, ra_mask = 0 - 1\<rparr>)"

definition xqc_rarray_check_range :: "'a xqc_rarray \<Rightarrow> u64 \<Rightarrow> bool" where
  "xqc_rarray_check_range ra off =
     (let eoffset = (ra_offset ra + ra_count ra) AND ra_mask ra in
      if ra_offset ra \<ge> eoffset then
        (if ra_count ra = 0 then False
         else off \<ge> ra_offset ra \<or> off < eoffset)
      else off \<ge> ra_offset ra \<and> off < eoffset)"

text \<open>A pointer to a slot is the slot's index.\<close>

definition xqc_rarray_get :: "'a xqc_rarray \<Rightarrow> u64 \<Rightarrow> nat option" where
  "xqc_rarray_get ra idx =
     (if idx \<ge> ra_cap ra then None
      else
        let off = (idx + ra_offset ra) AND ra_mask ra in
        if \<not> xqc_rarray_check_range ra off then None else Some (unat off))"

definition xqc_rarray_size :: "'a xqc_rarray \<Rightarrow> u64" where
  "xqc_rarray_size ra = ra_count ra"

definition xqc_rarray_full :: "'a xqc_rarray \<Rightarrow> bool" where
  "xqc_rarray_full ra \<longleftrightarrow> ra_count ra \<ge> ra_cap ra"

definition xqc_rarray_front :: "'a xqc_rarray \<Rightarrow> nat option" where
  "xqc_rarray_front ra = (if ra_count ra = 0 then None else Some (unat (ra_offset ra)))"

definition xqc_rarray_push :: "'a xqc_rarray \<Rightarrow> ('a xqc_rarray \<times> nat) option" where
  "xqc_rarray_push ra =
     (if ra_count ra \<ge> ra_cap ra then None
      else Some (ra\<lparr>ra_count := ra_count ra + 1\<rparr>,
                 unat ((ra_offset ra + ra_count ra) AND ra_mask ra)))"

definition xqc_rarray_push_front :: "'a xqc_rarray \<Rightarrow> ('a xqc_rarray \<times> nat) option" where
  "xqc_rarray_push_front ra =
     (if ra_count ra \<ge> ra_cap ra then None
      else
        let off = (ra_offset ra - 1) AND ra_mask ra in
        Some (ra\<lparr>ra_count := ra_count ra + 1, ra_offset := off\<rparr>, unat off))"

definition xqc_rarray_pop_front :: "'a xqc_rarray \<Rightarrow> 'a xqc_rarray res" where
  "xqc_rarray_pop_front ra =
     (if ra_count ra = 0 then Inl XQC_ERROR
      else Inr (ra\<lparr>ra_offset := (ra_offset ra + 1) AND ra_mask ra, ra_count := ra_count ra - 1\<rparr>))"

definition xqc_rarray_pop_back :: "'a xqc_rarray \<Rightarrow> 'a xqc_rarray res" where
  "xqc_rarray_pop_back ra =
     (if ra_count ra = 0 then Inl XQC_ERROR else Inr (ra\<lparr>ra_count := ra_count ra - 1\<rparr>))"

definition xqc_rarray_pop_from :: "'a xqc_rarray \<Rightarrow> u64 \<Rightarrow> 'a xqc_rarray res" where
  "xqc_rarray_pop_from ra idx =
     (if ra_count ra \<le> idx then Inl XQC_ERROR else Inr (ra\<lparr>ra_count := idx\<rparr>))"

text \<open>The elements \<open>xqc_rarray_resize\<close> copies to the begin of the new buffer.\<close>

definition rarray_moved :: "'a xqc_rarray \<Rightarrow> 'a option list" where
  "rarray_moved ra =
     (let end_idx = (ra_offset ra + ra_count ra) AND ra_mask ra in
      if ra_cap ra = 0 then []
      else if end_idx > ra_offset ra \<or> ra_count ra = 0
      then take (unat (ra_count ra)) (drop (unat (ra_offset ra)) (ra_buf ra))
      else take (unat (ra_cap ra - ra_offset ra)) (drop (unat (ra_offset ra)) (ra_buf ra))
           @ take (unat end_idx) (ra_buf ra))"

definition xqc_rarray_resize :: "bool \<Rightarrow> 'a xqc_rarray \<Rightarrow> u64 \<Rightarrow> 'a xqc_rarray res" where
  "xqc_rarray_resize malloc_ok ra cap =
     (if cap < ra_count ra then Inl XQC_EPARAM
      else if cap \<le> ra_cap ra then Inr ra
      else
        (case xqc_pow2_upper cap of
           None \<Rightarrow> Inl XQC_EMALLOC
         | Some array_cap \<Rightarrow>
             if array_cap = XQC_POW2_UPPER_ERROR then Inl XQC_EMALLOC
             else if \<not> malloc_ok then Inl XQC_EMALLOC
             else
               let buf = replicate (unat array_cap) None; moved = rarray_moved ra
               in Inr (ra\<lparr>ra_buf := moved @ drop (length moved) buf, ra_cap := array_cap,
                          ra_mask := array_cap - 1, ra_offset := 0\<rparr>)))"

definition xqc_rarray_reinit :: "'a xqc_rarray \<Rightarrow> 'a xqc_rarray" where
  "xqc_rarray_reinit ra =
     ra\<lparr>ra_buf := replicate (unat (ra_cap ra)) None, ra_count := 0, ra_offset := 0\<rparr>"

text \<open>Reading and writing through a slot pointer, as the callers do.\<close>

definition rarray_load :: "'a xqc_rarray \<Rightarrow> nat \<Rightarrow> 'a option" where
  "rarray_load ra slot = (if slot < length (ra_buf ra) then ra_buf ra ! slot else None)"

definition rarray_store :: "'a xqc_rarray \<Rightarrow> nat \<Rightarrow> 'a \<Rightarrow> 'a xqc_rarray" where
  "rarray_store ra slot x = ra\<lparr>ra_buf := (ra_buf ra)[slot := Some x]\<rparr>"

text \<open>The push operations of the interface: reserve a slot, then fill it.\<close>

definition rarray_push_back :: "'a xqc_rarray \<Rightarrow> 'a \<Rightarrow> 'a xqc_rarray option" where
  "rarray_push_back ra x =
     (case xqc_rarray_push ra of None \<Rightarrow> None | Some (ra', slot) \<Rightarrow> Some (rarray_store ra' slot x))"

definition rarray_push_front :: "'a xqc_rarray \<Rightarrow> 'a \<Rightarrow> 'a xqc_rarray option" where
  "rarray_push_front ra x =
     (case xqc_rarray_push_front ra of None \<Rightarrow> None | Some (ra', slot) \<Rightarrow> Some (rarray_store ra' slot x))"

definition rarray_at :: "'a xqc_rarray \<Rightarrow> u64 \<Rightarrow> 'a option" where
  "rarray_at ra idx = (case xqc_rarray_get ra idx of None \<Rightarrow> None | Some slot \<Rightarrow> rarray_load ra slot)"

section \<open>Rounding terminates at the least power of two\<close>

lemma pow2_loop_steps:
  assumes "j \<le> k" and "k < 64" and "\<And>i. j \<le> i \<Longrightarrow> i < k \<Longrightarrow> 2 ^ i < unat n"
    and "unat n \<le> 2 ^ k"
  shows "pow2_loop n (2 ^ j) = Some (2 ^ k)"
  using assms
proof (induction "k - j" arbitrary: j)
  case 0
  have "unat (2 ^ k :: u64) = 2 ^ k"
    using \<open>k < 64\<close> by (simp add: unat_pow2)
  then have "\<not> 2 ^ k < n"
    using 0 by (simp add: word_less_nat_alt)
  with 0 show ?case
    by (simp add: pow2_loop.simps)
next
  case (Suc d)
  then have j: "j < k" "j < 64" by simp_all
  have "unat (2 ^ j :: u64) = 2 ^ j"
    using j by (simp add: unat_pow2)
  then have lt: "2 ^ j < n"
    using Suc.prems(3) [of j] j by (simp add: word_less_nat_alt)
  have "pow2_loop n (2 ^ Suc j) = Some (2 ^ k)"
    using Suc.hyps(2) Suc.prems j by (intro Suc.hyps(1)) auto
  then show ?case
    using lt by (subst pow2_loop.simps) (simp add: mult.commute)
qed

lemma pow2_upper_ok:
  assumes "unat n \<le> 2 ^ 63"
  obtains k where "k < 64" and "xqc_pow2_upper n = Some (2 ^ k)" and "unat n \<le> 2 ^ k"
    and "\<And>i. i < k \<Longrightarrow> 2 ^ i < unat n"
proof -
  define k where "k = (LEAST k. unat n \<le> 2 ^ k)"
  have ge: "unat n \<le> 2 ^ k" unfolding k_def by (rule LeastI [where k = 63]) (rule assms)
  have le: "k \<le> 63" unfolding k_def by (rule Least_le) (rule assms)
  have lt: "2 ^ i < unat n" if "i < k" for i
    using not_less_Least [of i "\<lambda>k. unat n \<le> 2 ^ k"] that by (simp add: k_def)
  have "\<not> n > 0x8000000000000000"
    using assms by (simp add: word_less_nat_alt)
  moreover have "pow2_loop n (2 ^ 0) = Some (2 ^ k)"
    by (rule pow2_loop_steps) (use le ge lt in auto)
  ultimately have "xqc_pow2_upper n = Some (2 ^ k)"
    by (simp add: xqc_pow2_upper_def)
  with that [of k] le ge lt show ?thesis by simp
qed

lemma pow2_upper_big: "2 ^ 63 < unat n \<Longrightarrow> xqc_pow2_upper n = Some 0"
  by (simp add: xqc_pow2_upper_def XQC_POW2_UPPER_ERROR_def word_less_nat_alt)

section \<open>Invariant and abstraction\<close>

definition rarray_slot :: "'a xqc_rarray \<Rightarrow> nat \<Rightarrow> nat" where
  "rarray_slot ra i = (unat (ra_offset ra) + i) mod unat (ra_cap ra)"

definition rarray_wf :: "'a xqc_rarray \<Rightarrow> bool" where
  "rarray_wf ra \<longleftrightarrow>
     (\<exists>k < 64. ra_cap ra = 2 ^ k) \<and> ra_mask ra = ra_cap ra - 1
     \<and> length (ra_buf ra) = unat (ra_cap ra) \<and> ra_count ra \<le> ra_cap ra \<and> ra_offset ra < ra_cap ra"

definition rarray_inv :: "'a xqc_rarray \<Rightarrow> bool" where
  "rarray_inv ra \<longleftrightarrow> rarray_wf ra
     \<and> (\<forall>i < unat (ra_count ra). ra_buf ra ! rarray_slot ra i \<noteq> None)"

definition rarray_list :: "'a xqc_rarray \<Rightarrow> 'a list" where
  "rarray_list ra = map (\<lambda>i. the (ra_buf ra ! rarray_slot ra i)) [0..<unat (ra_count ra)]"

lemma and_mask_mod:
  assumes "c = 2 ^ k" and "k < 64"
  shows "unat ((w :: u64) AND (c - 1)) = unat w mod unat c"
proof -
  have "c - 1 = mask k" by (simp add: assms(1) mask_eq_exp_minus_1)
  then have "w AND (c - 1) = take_bit k w" by (simp add: take_bit_eq_mask)
  moreover have "unat c = 2 ^ k" using assms by (simp add: unat_pow2)
  moreover have "unat (take_bit k w) = unat w mod 2 ^ k"
    unfolding unsigned_take_bit_eq by (simp add: take_bit_eq_mod)
  ultimately show ?thesis by simp
qed

lemma rarray_wfD:
  assumes "rarray_wf ra"
  shows "0 < unat (ra_cap ra)" and "unat (ra_cap ra) \<le> 2 ^ 63"
    and "length (ra_buf ra) = unat (ra_cap ra)"
    and "unat (ra_count ra) \<le> unat (ra_cap ra)" and "unat (ra_offset ra) < unat (ra_cap ra)"
    and "unat (w AND ra_mask ra) = unat w mod unat (ra_cap ra)"
    and "unat (ra_offset ra + ra_count ra) = unat (ra_offset ra) + unat (ra_count ra)"
proof -
  obtain k where k: "k < 64" "ra_cap ra = 2 ^ k" and m: "ra_mask ra = ra_cap ra - 1"
    using assms by (auto simp: rarray_wf_def)
  have c: "unat (ra_cap ra) = 2 ^ k" using k by (simp add: unat_pow2)
  show pos: "0 < unat (ra_cap ra)" by (simp add: c)
  have "k \<le> 63" using k by simp
  then show le: "unat (ra_cap ra) \<le> 2 ^ 63" unfolding c by (intro power_increasing) auto
  show "length (ra_buf ra) = unat (ra_cap ra)"
    and cnt: "unat (ra_count ra) \<le> unat (ra_cap ra)" and off: "unat (ra_offset ra) < unat (ra_cap ra)"
    using assms by (auto simp: rarray_wf_def word_le_nat_alt word_less_nat_alt)
  show "unat (w AND ra_mask ra) = unat w mod unat (ra_cap ra)"
    unfolding m by (rule and_mask_mod) (use k in auto)
  show "unat (ra_offset ra + ra_count ra) = unat (ra_offset ra) + unat (ra_count ra)"
    using le cnt off by (simp add: unat_word_ariths)
qed

lemma length_rarray_list [simp]: "length (rarray_list ra) = unat (ra_count ra)"
  by (simp add: rarray_list_def)

lemma rarray_slot_less: "rarray_wf ra \<Longrightarrow> rarray_slot ra i < length (ra_buf ra)"
  by (simp add: rarray_slot_def rarray_wfD(1,3))

lemma rarray_slot_inj:
  assumes "i < n" and "j < n" and "(a + i) mod n = (a + j) mod (n :: nat)"
  shows "i = j"
proof -
  have aux: "j = i" if le: "i \<le> j" and j: "j < n" and e: "(a + j) mod n = (a + i) mod n" for i j :: nat
  proof -
    have "a + i \<le> a + j" using le by simp
    then have "n dvd (a + j) - (a + i)"
      using e by (rule mod_eq_dvd_iff_nat [THEN iffD1])
    then have "n dvd j - i" by simp
    moreover have "j - i < n" using j by simp
    ultimately have "j - i = 0"
      using nat_dvd_not_less by blast
    with le show ?thesis by simp
  qed
  show ?thesis
  proof (cases "i \<le> j")
    case True
    from aux [OF True assms(2) assms(3) [symmetric]] show ?thesis by (rule sym)
  next
    case False
    then have "j \<le> i" by simp
    from aux [OF this assms(1) assms(3)] show ?thesis .
  qed
qed

lemma mod_once: "a < 2 * n \<Longrightarrow> a mod n = (if a < n then a else a - n)" for a n :: nat
  by (simp add: le_mod_geq)

lemma rarray_check_range:
  assumes "rarray_wf ra" and "i < unat (ra_cap ra)" and "unat off = rarray_slot ra i"
  shows "xqc_rarray_check_range ra off \<longleftrightarrow> i < unat (ra_count ra)"
proof -
  define N o' c where "N = unat (ra_cap ra)" and "o' = unat (ra_offset ra)" and "c = unat (ra_count ra)"
  note d = rarray_wfD [OF assms(1), folded N_def o'_def c_def]
  have e: "unat ((ra_offset ra + ra_count ra) AND ra_mask ra) = (o' + c) mod N"
    by (simp add: d(6,7))
  have s: "unat off = (o' + i) mod N"
    by (simp add: assms(3) rarray_slot_def o'_def N_def)
  have z: "ra_count ra = 0 \<longleftrightarrow> c = 0" by (simp add: c_def unat_eq_zero)
  have "i < N" using assms(2) by (simp add: N_def)
  with d(4,5) show ?thesis
    unfolding xqc_rarray_check_range_def Let_def word_le_nat_alt word_less_nat_alt e s z
      o'_def [symmetric] c_def [symmetric]
    by (auto simp: mod_once split: if_splits)
qed

lemma rarray_get:
  assumes "rarray_wf ra"
  shows "xqc_rarray_get ra idx =
    (if unat idx < unat (ra_count ra) then Some (rarray_slot ra (unat idx)) else None)"
proof (cases "unat idx < unat (ra_cap ra)")
  case True
  have "unat (idx + ra_offset ra) = unat idx + unat (ra_offset ra)"
    using rarray_wfD(2,5) [OF assms] True by (simp add: unat_word_ariths)
  then have s: "unat ((idx + ra_offset ra) AND ra_mask ra) = rarray_slot ra (unat idx)"
    by (simp add: rarray_wfD(6) [OF assms] rarray_slot_def add.commute)
  show ?thesis
    using True rarray_check_range [OF assms True s] s
    by (simp add: xqc_rarray_get_def Let_def word_le_nat_alt)
next
  case False
  with rarray_wfD(4) [OF assms] show ?thesis
    by (simp add: xqc_rarray_get_def word_le_nat_alt)
qed

lemma rarray_at:
  assumes "rarray_inv ra"
  shows "rarray_at ra idx =
    (if unat idx < length (rarray_list ra) then Some (rarray_list ra ! unat idx) else None)"
proof -
  have wf: "rarray_wf ra" using assms by (simp add: rarray_inv_def)
  have "ra_buf ra ! rarray_slot ra (unat idx) \<noteq> None" if "unat idx < unat (ra_count ra)"
    using assms that by (simp add: rarray_inv_def)
  then show ?thesis
    by (auto simp: rarray_at_def rarray_get [OF wf] rarray_load_def rarray_slot_less [OF wf] rarray_list_def)
qed

lemma rarray_listI:
  assumes "unat (ra_count ra) = length xs" and "rarray_wf ra"
    and "\<And>i. i < length xs \<Longrightarrow> ra_buf ra ! rarray_slot ra i = Some (xs ! i)"
  shows "rarray_inv ra \<and> rarray_list ra = xs"
  using assms by (auto simp: rarray_inv_def rarray_list_def intro!: nth_equalityI)

lemma rarray_slot_elem:
  "rarray_inv ra \<Longrightarrow> i < unat (ra_count ra) \<Longrightarrow> ra_buf ra ! rarray_slot ra i = Some (rarray_list ra ! i)"
  by (auto simp: rarray_inv_def rarray_list_def)

lemma rarray_push_back_ok:
  assumes inv: "rarray_inv ra" and room: "length (rarray_list ra) < unat (ra_cap ra)"
  shows "\<exists>ra'. rarray_push_back ra x = Some ra' \<and> ra_cap ra' = ra_cap ra
    \<and> rarray_inv ra' \<and> rarray_list ra' = rarray_list ra @ [x]"
proof -
  have wf: "rarray_wf ra" using inv by (simp add: rarray_inv_def)
  let ?c = "unat (ra_count ra)"
  define ra' where "ra' = rarray_store (ra\<lparr>ra_count := ra_count ra + 1\<rparr>) (rarray_slot ra ?c) x"
  have p: "rarray_push_back ra x = Some ra'"
    using room by (simp add: rarray_push_back_def xqc_rarray_push_def word_le_nat_alt not_le
        rarray_wfD(6,7) [OF wf] ra'_def rarray_slot_def)
  have cnt: "unat (ra_count ra + 1) = Suc ?c"
    using room rarray_wfD(2) [OF wf] by (simp add: unat_word_ariths)
  have s: "rarray_slot ra' i = rarray_slot ra i" for i
    by (simp add: ra'_def rarray_store_def rarray_slot_def)
  have wf': "rarray_wf ra'"
    using wf room cnt by (simp add: rarray_wf_def ra'_def rarray_store_def word_le_nat_alt)
  have "rarray_inv ra' \<and> rarray_list ra' = rarray_list ra @ [x]"
  proof (rule rarray_listI [OF _ wf'])
    show "unat (ra_count ra') = length (rarray_list ra @ [x])"
      by (simp add: ra'_def rarray_store_def cnt)
    fix i
    assume i: "i < length (rarray_list ra @ [x])"
    show "ra_buf ra' ! rarray_slot ra' i = Some ((rarray_list ra @ [x]) ! i)"
    proof (cases "i = ?c")
      case True
      then show ?thesis
        by (simp add: s) (simp add: ra'_def rarray_store_def rarray_slot_less [OF wf] nth_append)
    next
      case False
      with i have lt: "i < ?c" by simp
      have "rarray_slot ra i \<noteq> rarray_slot ra ?c"
        using rarray_slot_inj [of i "unat (ra_cap ra)" ?c "unat (ra_offset ra)"] lt room
        by (auto simp: rarray_slot_def)
      with lt rarray_slot_elem [OF inv lt] show ?thesis
        by (simp add: s) (simp add: ra'_def rarray_store_def nth_append)
    qed
  qed
  with p show ?thesis by (auto simp: ra'_def rarray_store_def)
qed

lemma rarray_full_push:
  "rarray_inv ra \<Longrightarrow> unat (ra_cap ra) \<le> length (rarray_list ra) \<Longrightarrow>
   rarray_push_back ra x = None \<and> rarray_push_front ra x = None"
  by (simp add: rarray_push_back_def rarray_push_front_def xqc_rarray_push_def
      xqc_rarray_push_front_def word_le_nat_alt)

lemma slot_before:
  assumes "rarray_wf ra"
  shows "unat ((ra_offset ra - 1) AND ra_mask ra) = (unat (ra_offset ra) + unat (ra_cap ra) - 1) mod unat (ra_cap ra)"
proof (cases "ra_offset ra = 0")
  case True
  have "ra_cap ra \<noteq> 0" using rarray_wfD(1) [OF assms] by auto
  then have "unat (ra_mask ra) = unat (ra_cap ra) - 1"
    using assms by (simp add: rarray_wf_def word_minus_one_unat)
  then show ?thesis
    using rarray_wfD(1) [OF assms] by (simp add: True)
next
  case False
  then have "unat (ra_offset ra - 1) = unat (ra_offset ra) - 1" by (rule word_minus_one_unat)
  moreover have "0 < unat (ra_offset ra)" using False by (simp add: unat_gt_0)
  ultimately show ?thesis
    using rarray_wfD(1,5) [OF assms] by (simp add: rarray_wfD(6) [OF assms] mod_once)
qed

lemma rarray_push_front_ok:
  assumes inv: "rarray_inv ra" and room: "length (rarray_list ra) < unat (ra_cap ra)"
  shows "\<exists>ra'. rarray_push_front ra x = Some ra' \<and> ra_cap ra' = ra_cap ra
    \<and> rarray_inv ra' \<and> rarray_list ra' = x # rarray_list ra"
proof -
  have wf: "rarray_wf ra" using inv by (simp add: rarray_inv_def)
  let ?c = "unat (ra_count ra)" and ?N = "unat (ra_cap ra)"
  define off where "off = (ra_offset ra - 1) AND ra_mask ra"
  define ra' where "ra' = rarray_store (ra\<lparr>ra_count := ra_count ra + 1, ra_offset := off\<rparr>) (unat off) x"
  have off: "unat off = (unat (ra_offset ra) + ?N - 1) mod ?N"
    unfolding off_def by (rule slot_before [OF wf])
  then have off_lt: "unat off < ?N" using rarray_wfD(1) [OF wf] by simp
  have p: "rarray_push_front ra x = Some ra'"
    using room by (simp add: rarray_push_front_def xqc_rarray_push_front_def word_le_nat_alt not_le
        Let_def ra'_def off_def)
  have cnt: "unat (ra_count ra + 1) = Suc ?c"
    using room rarray_wfD(2) [OF wf] by (simp add: unat_word_ariths)
  have s: "rarray_slot ra' i = (unat off + i) mod ?N" for i
    by (simp add: ra'_def rarray_store_def rarray_slot_def)
  have s_Suc: "rarray_slot ra' (Suc i) = rarray_slot ra i" for i
  proof -
    have "unat (ra_offset ra) + ?N - 1 + Suc i = unat (ra_offset ra) + i + ?N"
      using rarray_wfD(1) [OF wf] by simp
    then show ?thesis
      by (simp only: s off) (simp only: rarray_slot_def mod_add_left_eq mod_add_self2)
  qed
  have wf': "rarray_wf ra'"
    using wf room cnt off_lt
    by (simp add: rarray_wf_def ra'_def rarray_store_def word_le_nat_alt word_less_nat_alt)
  have "rarray_inv ra' \<and> rarray_list ra' = x # rarray_list ra"
  proof (rule rarray_listI [OF _ wf'])
    show "unat (ra_count ra') = length (x # rarray_list ra)"
      by (simp add: ra'_def rarray_store_def cnt)
    fix i
    assume i: "i < length (x # rarray_list ra)"
    show "ra_buf ra' ! rarray_slot ra' i = Some ((x # rarray_list ra) ! i)"
    proof (cases i)
      case 0
      then show ?thesis
        using off_lt rarray_wfD(3) [OF wf]
        by (simp add: s) (simp add: ra'_def rarray_store_def)
    next
      case (Suc j)
      with i have lt: "j < ?c" by simp
      have "rarray_slot ra' (Suc j) \<noteq> rarray_slot ra' 0"
        unfolding s using rarray_slot_inj [of "Suc j" ?N 0 "unat off"] lt room by auto
      then have "rarray_slot ra j \<noteq> unat off"
        using off_lt s [of 0] by (simp only: s_Suc) simp
      with lt rarray_slot_elem [OF inv lt] Suc show ?thesis
        by (simp add: s_Suc) (simp add: ra'_def rarray_store_def)
    qed
  qed
  with p show ?thesis by (auto simp: ra'_def rarray_store_def)
qed

lemma rarray_pop_empty:
  "rarray_inv ra \<Longrightarrow> rarray_list ra = [] \<Longrightarrow>
   xqc_rarray_pop_front ra = Inl XQC_ERROR \<and> xqc_rarray_pop_back ra = Inl XQC_ERROR"
  by (simp add: xqc_rarray_pop_front_def xqc_rarray_pop_back_def rarray_list_def unat_eq_zero)

lemma rarray_pop_front_ok:
  assumes inv: "rarray_inv ra" and ne: "rarray_list ra \<noteq> []"
  shows "\<exists>ra'. xqc_rarray_pop_front ra = Inr ra' \<and> ra_cap ra' = ra_cap ra
    \<and> rarray_inv ra' \<and> rarray_list ra' = tl (rarray_list ra)"
proof -
  have wf: "rarray_wf ra" using inv by (simp add: rarray_inv_def)
  let ?N = "unat (ra_cap ra)"
  have nz: "ra_count ra \<noteq> 0" using ne by (auto simp: rarray_list_def)
  define off where "off = (ra_offset ra + 1) AND ra_mask ra"
  define ra' where "ra' = ra\<lparr>ra_offset := off, ra_count := ra_count ra - 1\<rparr>"
  have cnt: "unat (ra_count ra - 1) = unat (ra_count ra) - 1"
    using nz by (rule word_minus_one_unat)
  have off: "unat off = Suc (unat (ra_offset ra)) mod ?N"
    using rarray_wfD(2,5) [OF wf] unfolding off_def rarray_wfD(6) [OF wf]
    by (simp add: unat_word_ariths)
  have s: "rarray_slot ra' i = rarray_slot ra (Suc i)" for i
    by (simp add: ra'_def rarray_slot_def off mod_add_left_eq)
  have wf': "rarray_wf ra'"
    using wf rarray_wfD(1,4) [OF wf] off
    by (simp add: rarray_wf_def ra'_def word_le_nat_alt word_less_nat_alt cnt)
  have "rarray_inv ra' \<and> rarray_list ra' = tl (rarray_list ra)"
  proof (rule rarray_listI [OF _ wf'])
    show "unat (ra_count ra') = length (tl (rarray_list ra))"
      by (simp add: ra'_def cnt)
    fix i
    assume i: "i < length (tl (rarray_list ra))"
    then have "Suc i < unat (ra_count ra)" by simp
    from rarray_slot_elem [OF inv this] i show "ra_buf ra' ! rarray_slot ra' i = Some (tl (rarray_list ra) ! i)"
      by (simp add: s nth_tl) (simp add: ra'_def)
  qed
  with nz show ?thesis by (simp add: xqc_rarray_pop_front_def ra'_def off_def)
qed

lemma rarray_truncate:
  assumes inv: "rarray_inv ra" and idx: "unat idx \<le> unat (ra_count ra)"
  shows "rarray_inv (ra\<lparr>ra_count := idx\<rparr>) \<and> rarray_list (ra\<lparr>ra_count := idx\<rparr>) = take (unat idx) (rarray_list ra)"
proof (rule rarray_listI)
  have wf: "rarray_wf ra" using inv by (simp add: rarray_inv_def)
  show "unat (ra_count (ra\<lparr>ra_count := idx\<rparr>)) = length (take (unat idx) (rarray_list ra))"
    using idx by simp
  show "rarray_wf (ra\<lparr>ra_count := idx\<rparr>)"
    using wf idx by (auto simp: rarray_wf_def word_le_nat_alt)
  fix i
  assume "i < length (take (unat idx) (rarray_list ra))"
  then show "ra_buf (ra\<lparr>ra_count := idx\<rparr>) ! rarray_slot (ra\<lparr>ra_count := idx\<rparr>) i
      = Some (take (unat idx) (rarray_list ra) ! i)"
    using rarray_slot_elem [OF inv, of i] by (simp add: rarray_slot_def)
qed

lemma rarray_pop_back_ok:
  assumes inv: "rarray_inv ra" and ne: "rarray_list ra \<noteq> []"
  shows "\<exists>ra'. xqc_rarray_pop_back ra = Inr ra' \<and> ra_cap ra' = ra_cap ra
    \<and> rarray_inv ra' \<and> rarray_list ra' = butlast (rarray_list ra)"
proof -
  have nz: "ra_count ra \<noteq> 0" using ne by (auto simp: rarray_list_def)
  then have "unat (ra_count ra - 1) = unat (ra_count ra) - 1" by (rule word_minus_one_unat)
  with rarray_truncate [OF inv, of "ra_count ra - 1"] nz show ?thesis
    by (simp add: xqc_rarray_pop_back_def butlast_conv_take)
qed

lemma rarray_pop_from_ok:
  assumes "rarray_inv ra"
  shows "if unat idx < length (rarray_list ra)
    then \<exists>ra'. xqc_rarray_pop_from ra idx = Inr ra' \<and> ra_cap ra' = ra_cap ra
      \<and> rarray_inv ra' \<and> rarray_list ra' = take (unat idx) (rarray_list ra)
    else xqc_rarray_pop_from ra idx = Inl XQC_ERROR"
  using rarray_truncate [OF assms, of idx]
  by (auto simp: xqc_rarray_pop_from_def word_le_nat_alt)

lemma rarray_create_ok:
  assumes "esize \<noteq> 0" and "unat cap \<le> 2 ^ 63"
  shows "\<exists>ra. xqc_rarray_create True cap esize = Some ra \<and> rarray_inv ra \<and> rarray_list ra = []
    \<and> unat cap \<le> unat (ra_cap ra)"
proof -
  obtain k where k: "k < 64" "xqc_pow2_upper cap = Some (2 ^ k)" "unat cap \<le> 2 ^ k"
    using pow2_upper_ok [OF assms(2)] by metis
  then have "(2 ^ k :: u64) \<noteq> 0" by (metis unat_0 unat_pow2 power_eq_0_iff zero_neq_numeral)
  then show ?thesis
    using assms(1) k
    by (auto simp: xqc_rarray_create_def XQC_POW2_UPPER_ERROR_def rarray_inv_def rarray_wf_def
        rarray_list_def unat_pow2 word_less_nat_alt)
qed

lemma rarray_reinit_ok:
  assumes "rarray_wf ra"
  shows "rarray_inv (xqc_rarray_reinit ra) \<and> rarray_list (xqc_rarray_reinit ra) = []"
  using assms rarray_wfD(1) [OF assms]
  by (simp add: xqc_rarray_reinit_def rarray_inv_def rarray_wf_def rarray_list_def word_less_nat_alt)

lemma rarray_moved:
  assumes inv: "rarray_inv ra"
  shows "rarray_moved ra = map Some (rarray_list ra)"
proof -
  have wf: "rarray_wf ra" using inv by (simp add: rarray_inv_def)
  define N o' c where "N = unat (ra_cap ra)" and "o' = unat (ra_offset ra)" and "c = unat (ra_count ra)"
  note d = rarray_wfD [OF wf, folded N_def o'_def c_def]
  define e where "e = (o' + c) mod N"
  have e: "unat ((ra_offset ra + ra_count ra) AND ra_mask ra) = e"
    by (simp add: d(6,7) e_def)
  have diff: "unat (ra_cap ra - ra_offset ra) = N - o'"
    using wf by (auto simp: rarray_wf_def N_def o'_def intro!: unat_diff_le)
  have z: "ra_count ra = 0 \<longleftrightarrow> c = 0" "ra_cap ra = 0 \<longleftrightarrow> N = 0"
    by (simp_all add: c_def N_def unat_eq_zero)
  have m: "rarray_moved ra =
      (if e > o' \<or> c = 0 then take c (drop o' (ra_buf ra))
       else take (N - o') (drop o' (ra_buf ra)) @ take e (ra_buf ra))"
    using d(1) by (simp add: rarray_moved_def Let_def e diff z word_less_nat_alt o'_def c_def)
  have bound: "e = (if o' + c < N then o' + c else o' + c - N)"
    using d(4,5) by (simp add: e_def mod_once)
  have slot: "rarray_slot ra i = (if o' + i < N then o' + i else o' + i - N)" if "i < c" for i
    using d(4,5) that by (simp add: rarray_slot_def mod_once o'_def [symmetric] N_def [symmetric])
  show ?thesis
  proof (rule nth_equalityI)
    show len: "length (rarray_moved ra) = length (map Some (rarray_list ra))"
      using d(1,3-5) bound by (auto simp: m c_def [symmetric])
    fix i
    assume "i < length (rarray_moved ra)"
    then have i: "i < c" using len by (simp add: c_def)
    have "rarray_moved ra ! i = ra_buf ra ! rarray_slot ra i"
      using i d(1,3-5) bound by (auto simp: m slot nth_append add.commute)
    then show "rarray_moved ra ! i = map Some (rarray_list ra) ! i"
      using rarray_slot_elem [OF inv, of i] i by (simp add: c_def)
  qed
qed

lemma rarray_resize_ok:
  assumes inv: "rarray_inv ra" and "unat (ra_count ra) \<le> unat cap" and big: "unat cap \<le> 2 ^ 63"
  shows "\<exists>ra'. xqc_rarray_resize True ra cap = Inr ra' \<and> rarray_inv ra'
    \<and> rarray_list ra' = rarray_list ra \<and> unat cap \<le> unat (ra_cap ra')"
proof (cases "cap \<le> ra_cap ra")
  case True
  with assms show ?thesis
    by (auto simp: xqc_rarray_resize_def word_le_nat_alt word_less_nat_alt)
next
  case False
  have wf: "rarray_wf ra" using inv by (simp add: rarray_inv_def)
  obtain k where k: "k < 64" "xqc_pow2_upper cap = Some (2 ^ k)" "unat cap \<le> 2 ^ k"
    using pow2_upper_ok [OF big] by metis
  have nz: "(2 ^ k :: u64) \<noteq> 0" using k(1) by (metis unat_0 unat_pow2 power_eq_0_iff zero_neq_numeral)
  define ra' where "ra' = ra\<lparr>ra_buf := rarray_moved ra @ drop (length (rarray_moved ra)) (replicate (2 ^ k) None),
     ra_cap := 2 ^ k, ra_mask := 2 ^ k - 1, ra_offset := 0\<rparr>"
  have r: "xqc_rarray_resize True ra cap = Inr ra'"
    using False assms(2) k nz
    by (simp add: xqc_rarray_resize_def XQC_POW2_UPPER_ERROR_def ra'_def Let_def
        word_less_nat_alt unat_pow2)
  have cnt: "unat (ra_count ra) \<le> 2 ^ k" using assms(2) k(3) by simp
  have "rarray_inv ra' \<and> rarray_list ra' = rarray_list ra"
  proof (rule rarray_listI)
    show "unat (ra_count ra') = length (rarray_list ra)" by (simp add: ra'_def)
    show "rarray_wf ra'"
      using k(1) cnt by (auto simp: rarray_wf_def ra'_def rarray_moved [OF inv] unat_pow2
          word_le_nat_alt word_less_nat_alt)
    fix i
    assume "i < length (rarray_list ra)"
    moreover from this cnt have "rarray_slot ra' i = i"
      using k(1) by (simp add: rarray_slot_def ra'_def unat_pow2)
    ultimately show "ra_buf ra' ! rarray_slot ra' i = Some (rarray_list ra ! i)"
      by (simp add: ra'_def rarray_moved [OF inv] nth_append)
  qed
  with r k show ?thesis by (simp add: ra'_def unat_pow2)
qed

section \<open>The interface of the array's clients\<close>

text \<open>
  What a client may assume of a bounded double-ended queue with list abstraction \<open>elems\<close>:
  every operation keeps the invariant and the capacity, has the stated effect on the list,
  and fails exactly when the queue is full (pushes) or empty (pops).
\<close>

locale bounded_deque =
  fixes invar :: "'q \<Rightarrow> bool"
    and elems :: "'q \<Rightarrow> 'a list"
    and capacity :: "'q \<Rightarrow> nat"
    and full :: "'q \<Rightarrow> bool"
    and at :: "'q \<Rightarrow> u64 \<Rightarrow> 'a option"
    and push_back :: "'q \<Rightarrow> 'a \<Rightarrow> 'q option"
    and push_front :: "'q \<Rightarrow> 'a \<Rightarrow> 'q option"
    and pop_front :: "'q \<Rightarrow> 'q res"
    and pop_back :: "'q \<Rightarrow> 'q res"
    and pop_from :: "'q \<Rightarrow> u64 \<Rightarrow> 'q res"
  assumes bounded: "invar q \<Longrightarrow> length (elems q) \<le> capacity q \<and> 0 < capacity q"
    and full_iff: "invar q \<Longrightarrow> full q \<longleftrightarrow> length (elems q) = capacity q"
    and at_elems: "invar q \<Longrightarrow>
      at q i = (if unat i < length (elems q) then Some (elems q ! unat i) else None)"
    and push_back_elems: "invar q \<Longrightarrow> length (elems q) < capacity q \<Longrightarrow>
      \<exists>q'. push_back q x = Some q' \<and> capacity q' = capacity q \<and> invar q' \<and> elems q' = elems q @ [x]"
    and push_front_elems: "invar q \<Longrightarrow> length (elems q) < capacity q \<Longrightarrow>
      \<exists>q'. push_front q x = Some q' \<and> capacity q' = capacity q \<and> invar q' \<and> elems q' = x # elems q"
    and push_full: "invar q \<Longrightarrow> capacity q \<le> length (elems q) \<Longrightarrow>
      push_back q x = None \<and> push_front q x = None"
    and pop_front_elems: "invar q \<Longrightarrow> elems q \<noteq> [] \<Longrightarrow>
      \<exists>q'. pop_front q = Inr q' \<and> capacity q' = capacity q \<and> invar q' \<and> elems q' = tl (elems q)"
    and pop_back_elems: "invar q \<Longrightarrow> elems q \<noteq> [] \<Longrightarrow>
      \<exists>q'. pop_back q = Inr q' \<and> capacity q' = capacity q \<and> invar q' \<and> elems q' = butlast (elems q)"
    and pop_empty: "invar q \<Longrightarrow> elems q = [] \<Longrightarrow>
      pop_front q = Inl XQC_ERROR \<and> pop_back q = Inl XQC_ERROR"
    and pop_from_elems: "invar q \<Longrightarrow>
      if unat i < length (elems q)
      then \<exists>q'. pop_from q i = Inr q' \<and> capacity q' = capacity q \<and> invar q' \<and> elems q' = take (unat i) (elems q)
      else pop_from q i = Inl XQC_ERROR"
begin

text \<open>A client that records only the newest elements: drop the oldest when full, then push.\<close>

lemma push_front_evict:
  assumes "invar q"
  shows "\<exists>q1 q2. (if full q then pop_back q = Inr q1 else q1 = q) \<and> push_front q1 x = Some q2
    \<and> invar q2 \<and> capacity q2 = capacity q \<and> elems q2 = take (capacity q) (x # elems q)"
proof (cases "full q")
  case True
  then have len: "length (elems q) = capacity q" and pos: "0 < capacity q"
    using assms full_iff bounded by blast+
  then have "elems q \<noteq> []" by auto
  then obtain q1 where q1: "pop_back q = Inr q1" "capacity q1 = capacity q" "invar q1"
      "elems q1 = butlast (elems q)"
    using pop_back_elems [OF assms] by blast
  have "length (elems q1) < capacity q1" using q1 len pos by simp
  then obtain q2 where "push_front q1 x = Some q2" "capacity q2 = capacity q1" "invar q2"
      "elems q2 = x # elems q1"
    using push_front_elems [OF q1(3)] by blast
  moreover have "take (capacity q) (x # elems q) = x # butlast (elems q)"
    using len pos by (cases "capacity q") (auto simp: butlast_conv_take)
  ultimately show ?thesis using True q1 by auto
next
  case False
  then have len: "length (elems q) < capacity q"
    using assms full_iff [OF assms] bounded [OF assms] by auto
  then obtain q2 where "push_front q x = Some q2" "capacity q2 = capacity q" "invar q2"
      "elems q2 = x # elems q"
    using push_front_elems [OF assms] by blast
  with len False show ?thesis by auto
qed

text \<open>First in, first out: after a push at the back, the old front is still the next element.\<close>

lemma fifo:
  assumes "invar q" and "length (elems q) < capacity q" and "elems q = y # ys"
  shows "\<exists>q1 q2. push_back q x = Some q1 \<and> at q1 0 = Some y \<and> pop_front q1 = Inr q2
    \<and> invar q2 \<and> elems q2 = ys @ [x]"
proof -
  obtain q1 where q1: "push_back q x = Some q1" "invar q1" "elems q1 = y # ys @ [x]"
    using push_back_elems [OF assms(1,2)] assms(3) by auto
  then obtain q2 where "pop_front q1 = Inr q2" "invar q2" "elems q2 = ys @ [x]"
    using pop_front_elems [OF q1(2)] by auto
  with q1 at_elems [OF q1(2), of 0] show ?thesis by auto
qed

end

interpretation rarray: bounded_deque rarray_inv rarray_list "\<lambda>ra. unat (ra_cap ra)" xqc_rarray_full
  rarray_at rarray_push_back rarray_push_front xqc_rarray_pop_front xqc_rarray_pop_back
  xqc_rarray_pop_from
proof (unfold_locales, goal_cases)
  case (1 ra)
  then show ?case by (simp add: rarray_inv_def rarray_wfD(1,4))
next
  case (2 ra)
  then show ?case
    using rarray_wfD(4) [of ra] by (auto simp: rarray_inv_def xqc_rarray_full_def word_le_nat_alt)
next
  case (3 ra i)
  then show ?case by (rule rarray_at)
next
  case (4 ra x)
  then show ?case using rarray_push_back_ok [of ra x] by auto
next
  case (5 ra x)
  then show ?case using rarray_push_front_ok [of ra x] by auto
next
  case (6 ra x)
  then show ?case by (rule rarray_full_push)
next
  case (7 ra)
  then show ?case using rarray_pop_front_ok [of ra] by auto
next
  case (8 ra)
  then show ?case using rarray_pop_back_ok [of ra] by auto
next
  case (9 ra)
  then show ?case by (rule rarray_pop_empty)
next
  case (10 ra i)
  then show ?case using rarray_pop_from_ok [of ra i] by (auto split: if_splits)
qed

end
