(* ===== verification/Recv_Record.thy ===== *)
theory Recv_Record
  imports Ring_Array
begin

text \<open>
  The record of received packet numbers and the record of sent ACKs of
  src/transport/xqc_recv_record.c. The doubly linked list of ranges, highest first, is a
  list; a node's neighbour is its neighbour in the list. The abstract contract is a set of
  packet numbers (\<open>rr_set\<close>): what the peer is told was received.
\<close>

section \<open>Ranges of packet numbers\<close>

datatype xqc_pkt_range_status = XQC_PKTRANGE_OK | XQC_PKTRANGE_DUP | XQC_PKTRANGE_ERR

record xqc_pktno_range =
  rng_low :: u64
  rng_high :: u64

record xqc_recv_record =
  rr_ranges :: "xqc_pktno_range list"
  rr_del_from :: u64
  rr_node_count :: int

definition XQC_MAX_ACK_RANGE_CNT :: nat where
  "XQC_MAX_ACK_RANGE_CNT = 64"

text \<open>\<open>xqc_pktno_range_can_merge\<close>: the node after the merge, or \<open>None\<close> for return value 0.\<close>

definition xqc_pktno_range_can_merge :: "xqc_pktno_range \<Rightarrow> u64 \<Rightarrow> xqc_pktno_range option" where
  "xqc_pktno_range_can_merge node pn =
     (if rng_low node - 1 = pn then Some (node\<lparr>rng_low := rng_low node - 1\<rparr>)
      else if rng_high node + 1 = pn then Some (node\<lparr>rng_high := rng_high node + 1\<rparr>)
      else None)"

section \<open>Adding a packet number\<close>

text \<open>
  The search loop of \<open>xqc_recv_record_add\<close>: \<open>None\<close> for a duplicate, otherwise the nodes
  passed (their last one is \<open>prev\<close>) and the rest (its head is \<open>pos\<close>; the rest is empty when
  \<open>pos_find\<close> stays 0).
\<close>

fun rr_scan :: "u64 \<Rightarrow> xqc_pktno_range list \<Rightarrow> (xqc_pktno_range list \<times> xqc_pktno_range list) option" where
  "rr_scan pn [] = Some ([], [])"
| "rr_scan pn (node # nodes) =
     (if pn \<le> rng_high node then
        (if pn \<ge> rng_low node then None
         else case rr_scan pn nodes of None \<Rightarrow> None | Some (b, a) \<Rightarrow> Some (node # b, a))
      else Some ([], node # nodes))"

text \<open>The loop that deletes nodes from the tail while there are more than the maximum.\<close>

function rr_trim :: "xqc_pktno_range list \<Rightarrow> int \<Rightarrow> xqc_pktno_range list \<times> int" where
  "rr_trim nodes cnt =
     (if nodes = [] then (nodes, cnt)
      else if cnt - 1 \<le> int XQC_MAX_ACK_RANGE_CNT then (butlast nodes, cnt - 1)
      else rr_trim (butlast nodes) (cnt - 1))"
  by pat_completeness auto
termination
  by (relation "measure (\<lambda>(nodes, cnt). length nodes)") auto

declare rr_trim.simps [simp del]

text \<open>The branch taken when \<open>prev\<close> or \<open>pos\<close> could be extended by the packet number.\<close>

definition rr_join :: "xqc_recv_record \<Rightarrow> xqc_pktno_range list \<Rightarrow> xqc_pktno_range list \<Rightarrow> xqc_recv_record" where
  "rr_join rr b a =
     (case a of
        pnode # a' \<Rightarrow>
          (if b \<noteq> [] \<and> rng_low (last b) - 1 = rng_high pnode
           then rr\<lparr>rr_ranges := butlast b @ [(last b)\<lparr>rng_low := rng_low pnode\<rparr>] @ a',
                   rr_node_count := rr_node_count rr - 1\<rparr>
           else rr\<lparr>rr_ranges := b @ a\<rparr>)
      | [] \<Rightarrow>
          (if b \<noteq> [] \<and> rng_low (last b) - 1 = rng_high (last b)
           then rr\<lparr>rr_ranges := [], rr_node_count := rr_node_count rr - 1\<rparr>
           else rr\<lparr>rr_ranges := b\<rparr>))"

definition rr_merge :: "u64 \<Rightarrow> xqc_recv_record \<Rightarrow> xqc_pktno_range list \<Rightarrow> xqc_pktno_range list \<Rightarrow> xqc_recv_record option" where
  "rr_merge pn rr b a =
     (case (if b = [] then None else xqc_pktno_range_can_merge (last b) pn) of
        Some prev_node \<Rightarrow> Some (rr_join rr (butlast b @ [prev_node]) a)
      | None \<Rightarrow>
          (case a of
             [] \<Rightarrow> None
           | pnode # a' \<Rightarrow>
               (case xqc_pktno_range_can_merge pnode pn of
                  Some pnode' \<Rightarrow> Some (rr_join rr b (pnode' # a'))
                | None \<Rightarrow> None)))"

definition xqc_recv_record_add ::
    "bool \<Rightarrow> xqc_recv_record \<Rightarrow> u64 \<Rightarrow> xqc_recv_record \<times> xqc_pkt_range_status" where
  "xqc_recv_record_add malloc_ok rr pn =
     (case rr_scan pn (rr_ranges rr) of
        None \<Rightarrow> (rr, XQC_PKTRANGE_DUP)
      | Some (b, a) \<Rightarrow>
          (case rr_merge pn rr b a of
             Some rr' \<Rightarrow> (rr', XQC_PKTRANGE_OK)
           | None \<Rightarrow>
               if \<not> malloc_ok then (rr, XQC_PKTRANGE_ERR)
               else
                 let new_node = \<lparr>rng_low = pn, rng_high = pn\<rparr> in
                 if a \<noteq> [] then
                   let nodes = b @ [new_node] @ a; cnt = rr_node_count rr + 1;
                       (nodes', cnt') =
                         (if cnt > int XQC_MAX_ACK_RANGE_CNT then rr_trim nodes cnt else (nodes, cnt))
                   in (rr\<lparr>rr_ranges := nodes', rr_node_count := cnt'\<rparr>, XQC_PKTRANGE_OK)
                 else if rr_node_count rr < int XQC_MAX_ACK_RANGE_CNT then
                   (rr\<lparr>rr_ranges := b @ [new_node], rr_node_count := rr_node_count rr + 1\<rparr>,
                    XQC_PKTRANGE_OK)
                 else (rr, XQC_PKTRANGE_OK)))"

section \<open>The other operations of the record\<close>

fun rr_del_nodes :: "u64 \<Rightarrow> xqc_pktno_range list \<Rightarrow> int \<Rightarrow> xqc_pktno_range list \<times> int" where
  "rr_del_nodes del_from [] cnt = ([], cnt)"
| "rr_del_nodes del_from (node # nodes) cnt =
     (if rng_low node < del_from then
        (if rng_high node < del_from then rr_del_nodes del_from nodes (cnt - 1)
         else let (nodes', cnt') = rr_del_nodes del_from nodes cnt
              in (node\<lparr>rng_low := del_from\<rparr> # nodes', cnt'))
      else let (nodes', cnt') = rr_del_nodes del_from nodes cnt in (node # nodes', cnt'))"

definition xqc_recv_record_del :: "xqc_recv_record \<Rightarrow> u64 \<Rightarrow> xqc_recv_record" where
  "xqc_recv_record_del rr del_from =
     (if del_from < rr_del_from rr then rr
      else
        let (nodes, cnt) = rr_del_nodes del_from (rr_ranges rr) (rr_node_count rr)
        in rr\<lparr>rr_del_from := del_from, rr_ranges := nodes, rr_node_count := cnt\<rparr>)"

definition xqc_recv_record_destroy :: "xqc_recv_record \<Rightarrow> xqc_recv_record" where
  "xqc_recv_record_destroy rr = rr\<lparr>rr_ranges := [], rr_node_count := 0, rr_del_from := 0\<rparr>"

text \<open>\<open>xqc_recv_record_move dst src\<close>, both records after the call.\<close>

definition xqc_recv_record_move ::
    "xqc_recv_record \<Rightarrow> xqc_recv_record \<Rightarrow> xqc_recv_record \<times> xqc_recv_record" where
  "xqc_recv_record_move dst src =
     (let dst = xqc_recv_record_destroy dst;
          (dst, src) =
            (if rr_ranges src \<noteq> [] then (dst\<lparr>rr_ranges := rr_ranges src\<rparr>, src\<lparr>rr_ranges := []\<rparr>)
             else (dst, src))
      in (dst\<lparr>rr_del_from := rr_del_from src, rr_node_count := rr_node_count src\<rparr>,
          src\<lparr>rr_del_from := 0, rr_node_count := 0\<rparr>))"

definition xqc_recv_record_largest :: "xqc_recv_record \<Rightarrow> u64" where
  "xqc_recv_record_largest rr =
     (case rr_ranges rr of [] \<Rightarrow> 0 | node # _ \<Rightarrow> rng_high node)"

section \<open>Invariant and abstraction\<close>

definition pn_ok :: "u64 \<Rightarrow> bool" where
  "pn_ok pn \<longleftrightarrow> unat pn < 2 ^ 62"

definition rng_ok :: "xqc_pktno_range \<Rightarrow> bool" where
  "rng_ok r \<longleftrightarrow> rng_low r \<le> rng_high r \<and> pn_ok (rng_high r)"

text \<open>\<open>rng_above a b\<close>: at least one packet number is missing between \<open>b\<close> and \<open>a\<close>.\<close>

definition rng_above :: "xqc_pktno_range \<Rightarrow> xqc_pktno_range \<Rightarrow> bool" where
  "rng_above a b \<longleftrightarrow> Suc (unat (rng_high b)) < unat (rng_low a)"

definition rng_set :: "xqc_pktno_range \<Rightarrow> u64 set" where
  "rng_set r = {rng_low r..rng_high r}"

definition ranges_set :: "xqc_pktno_range list \<Rightarrow> u64 set" where
  "ranges_set nodes = (\<Union>r \<in> set nodes. rng_set r)"

definition ranges_ok :: "xqc_pktno_range list \<Rightarrow> bool" where
  "ranges_ok nodes \<longleftrightarrow> (\<forall>r \<in> set nodes. rng_ok r) \<and> sorted_wrt rng_above nodes"

definition rr_set :: "xqc_recv_record \<Rightarrow> u64 set" where
  "rr_set rr = ranges_set (rr_ranges rr)"

definition rr_inv :: "xqc_recv_record \<Rightarrow> bool" where
  "rr_inv rr \<longleftrightarrow> ranges_ok (rr_ranges rr) \<and> rr_node_count rr = int (length (rr_ranges rr))
     \<and> length (rr_ranges rr) \<le> XQC_MAX_ACK_RANGE_CNT"

lemma ranges_set_simps [simp]:
  "ranges_set [] = {}"
  "ranges_set (r # rs) = rng_set r \<union> ranges_set rs"
  "ranges_set (rs @ ss) = ranges_set rs \<union> ranges_set ss"
  by (auto simp: ranges_set_def)

lemma ranges_ok_Nil [simp]: "ranges_ok []"
  by (simp add: ranges_ok_def)

lemma ranges_ok_Cons [simp]:
  "ranges_ok (r # rs) \<longleftrightarrow> rng_ok r \<and> (\<forall>s \<in> set rs. rng_above r s) \<and> ranges_ok rs"
  by (auto simp: ranges_ok_def)

lemma ranges_ok_append [simp]:
  "ranges_ok (rs @ ss) \<longleftrightarrow>
     ranges_ok rs \<and> ranges_ok ss \<and> (\<forall>r \<in> set rs. \<forall>s \<in> set ss. rng_above r s)"
  by (auto simp: ranges_ok_def sorted_wrt_append)

lemma word_pred_eq: "pn < l \<Longrightarrow> l - 1 = pn \<longleftrightarrow> unat l = Suc (unat pn)" for l :: u64
proof -
  assume "pn < l"
  then have "0 < unat l" by (simp add: word_less_nat_alt)
  then have "l \<noteq> 0" by auto
  then have "unat (l - 1) = unat l - 1" by (rule word_minus_one_unat)
  with \<open>0 < unat l\<close> show ?thesis by (auto simp: word_unat_eq_iff)
qed

lemma word_succ_eq: "pn_ok h \<Longrightarrow> h + 1 = pn \<longleftrightarrow> unat pn = Suc (unat h)"
proof -
  assume "pn_ok h"
  then have "unat (h + 1) = Suc (unat h)"
    by (intro word_plus_one_unat) (simp add: pn_ok_def)
  then show ?thesis by (auto simp: word_unat_eq_iff)
qed

lemmas rng_nat = word_le_nat_alt word_less_nat_alt rng_ok_def rng_above_def pn_ok_def

lemma rr_scan_None_iff:
  "ranges_ok nodes \<Longrightarrow> rr_scan pn nodes = None \<longleftrightarrow> pn \<in> ranges_set nodes"
proof (induction nodes)
  case Nil
  then show ?case by simp
next
  case (Cons r rs)
  have "pn \<notin> ranges_set rs" if "\<not> pn \<le> rng_high r"
    using Cons.prems that by (fastforce simp: ranges_set_def rng_set_def rng_nat)
  with Cons show ?case
    by (auto simp: rng_set_def split: option.splits prod.splits)
qed

lemma rr_scan_Some:
  "ranges_ok nodes \<Longrightarrow> rr_scan pn nodes = Some (b, a) \<Longrightarrow>
   nodes = b @ a \<and> (\<forall>r \<in> set b. pn < rng_low r) \<and> (\<forall>r \<in> set a. rng_high r < pn)"
proof (induction nodes arbitrary: b)
  case Nil
  then show ?case by simp
next
  case (Cons r rs)
  show ?case
  proof (cases "pn \<le> rng_high r")
    case True
    with Cons.prems obtain b' where "rr_scan pn rs = Some (b', a)" "b = r # b'" "\<not> rng_low r \<le> pn"
      by (auto split: if_splits option.splits prod.splits)
    with Cons show ?thesis by auto
  next
    case False
    with Cons.prems have "b = []" "a = r # rs" by auto
    with Cons.prems False show ?thesis
      by (fastforce simp: rng_nat)
  qed
qed

lemma can_merge_above:
  assumes "rng_ok r" and "pn < rng_low r"
  shows "xqc_pktno_range_can_merge r pn =
    (if unat (rng_low r) = Suc (unat pn) then Some (r\<lparr>rng_low := pn\<rparr>) else None)"
proof -
  have "rng_high r + 1 \<noteq> pn"
    using assms by (auto simp: word_succ_eq rng_nat)
  moreover have "rng_low r - 1 = pn" if "unat (rng_low r) = Suc (unat pn)"
    using that word_pred_eq [OF assms(2)] by simp
  ultimately show ?thesis
    using word_pred_eq [OF assms(2)] by (auto simp: xqc_pktno_range_can_merge_def)
qed

lemma can_merge_below:
  assumes "rng_ok r" and "rng_high r < pn" and "pn_ok pn"
  shows "xqc_pktno_range_can_merge r pn =
    (if unat pn = Suc (unat (rng_high r)) then Some (r\<lparr>rng_high := pn\<rparr>) else None)"
proof -
  have "rng_low r - 1 \<noteq> pn"
  proof (cases "rng_low r = 0")
    case True
    have "unat (- 1 :: u64) = 2 ^ 64 - 1" by (simp add: unsigned_minus_1_eq_mask mask_eq_exp_minus_1)
    then show ?thesis using assms(3) by (auto simp: True pn_ok_def)
  next
    case False
    then have "unat (rng_low r - 1) = unat (rng_low r) - 1" by (rule word_minus_one_unat)
    with assms show ?thesis by (auto simp: rng_nat)
  qed
  moreover have "rng_high r + 1 = pn" if "unat pn = Suc (unat (rng_high r))"
    using that assms by (simp add: word_succ_eq rng_ok_def)
  ultimately show ?thesis
    using assms word_succ_eq by (auto simp: xqc_pktno_range_can_merge_def rng_ok_def)
qed

lemma insert_low:
  "rng_ok r \<Longrightarrow> unat (rng_low r) = Suc (unat pn) \<Longrightarrow>
   rng_set (r\<lparr>rng_low := pn\<rparr>) = insert pn (rng_set r)"
  by (auto simp: rng_set_def rng_nat word_unat_eq_iff)

lemma insert_high:
  "rng_ok r \<Longrightarrow> unat pn = Suc (unat (rng_high r)) \<Longrightarrow>
   rng_set (r\<lparr>rng_high := pn\<rparr>) = insert pn (rng_set r)"
  by (auto simp: rng_set_def rng_nat word_unat_eq_iff)

lemma join_set:
  "rng_ok p \<Longrightarrow> rng_ok q \<Longrightarrow> unat (rng_low p) = Suc (Suc (unat (rng_high q))) \<Longrightarrow> unat pn = Suc (unat (rng_high q)) \<Longrightarrow>
   rng_set (p\<lparr>rng_low := rng_low q\<rparr>) = insert pn (rng_set p \<union> rng_set q)"
  by (auto simp: rng_set_def rng_nat word_unat_eq_iff)

text \<open>The reference insertion: what the record holds after a packet number, without the limit.\<close>

definition rr_up :: "u64 \<Rightarrow> xqc_pktno_range list \<Rightarrow> bool" where
  "rr_up pn b \<longleftrightarrow> b \<noteq> [] \<and> unat (rng_low (last b)) = Suc (unat pn)"

definition rr_dn :: "u64 \<Rightarrow> xqc_pktno_range list \<Rightarrow> bool" where
  "rr_dn pn a \<longleftrightarrow> a \<noteq> [] \<and> unat pn = Suc (unat (rng_high (hd a)))"

definition rr_insert :: "u64 \<Rightarrow> xqc_pktno_range list \<Rightarrow> xqc_pktno_range list \<Rightarrow> xqc_pktno_range list" where
  "rr_insert pn b a =
     (if rr_up pn b \<and> rr_dn pn a then butlast b @ (last b)\<lparr>rng_low := rng_low (hd a)\<rparr> # tl a
      else if rr_up pn b then butlast b @ (last b)\<lparr>rng_low := pn\<rparr> # a
      else if rr_dn pn a then b @ (hd a)\<lparr>rng_high := pn\<rparr> # tl a
      else b @ \<lparr>rng_low = pn, rng_high = pn\<rparr> # a)"

lemma rr_up_dn_simps [simp]:
  "\<not> rr_up pn []" "rr_up pn (b @ [p]) \<longleftrightarrow> unat (rng_low p) = Suc (unat pn)"
  "\<not> rr_dn pn []" "rr_dn pn (q # a) \<longleftrightarrow> unat pn = Suc (unat (rng_high q))"
  by (auto simp: rr_up_def rr_dn_def)

lemma ends_cases:
  obtains "b = []" "a = []" | q a' where "b = []" "a = q # a'"
    | b' p where "b = b' @ [p]" "a = []" | b' p q a' where "b = b' @ [p]" "a = q # a'"
  by (cases a; cases b rule: rev_cases) auto

lemma rr_insert_set:
  assumes ok: "ranges_ok (b @ a)"
  shows "ranges_set (rr_insert pn b a) = insert pn (ranges_set (b @ a))"
proof -
  have "rng_set \<lparr>rng_low = pn, rng_high = pn\<rparr> = {pn}" by (auto simp: rng_set_def)
  with ok show ?thesis
    by (cases b a rule: ends_cases) (auto simp: rr_insert_def insert_high insert_low join_set)
qed

lemma rr_insert_ok:
  assumes ok: "ranges_ok (b @ a)" and pn: "pn_ok pn"
    and b: "\<forall>r \<in> set b. pn < rng_low r" and a: "\<forall>r \<in> set a. rng_high r < pn"
  shows "ranges_ok (rr_insert pn b a)"
proof (cases b a rule: ends_cases)
  case 1
  with pn show ?thesis by (simp add: rr_insert_def rng_ok_def)
next
  case (2 q a')
  with assms show ?thesis
    by (cases "unat pn = Suc (unat (rng_high q))") (auto simp: rr_insert_def rng_nat)
next
  case (3 b' p)
  with assms show ?thesis
    by (cases "unat (rng_low p) = Suc (unat pn)") (auto simp: rr_insert_def rng_nat)
next
  case (4 b' p q a')
  with assms show ?thesis
    by (cases "unat (rng_low p) = Suc (unat pn)"; cases "unat pn = Suc (unat (rng_high q))")
      (simp_all add: rr_insert_def rng_nat, force+)
qed
lemma word_pred_neq:
  assumes "pn_ok h" and "pn \<le> h" shows "pn - 1 \<noteq> h"
proof (cases "pn = 0")
  case True
  have "unat (- 1 :: u64) = 2 ^ 64 - 1" by (simp add: unsigned_minus_1_eq_mask mask_eq_exp_minus_1)
  then show ?thesis using assms by (auto simp: True pn_ok_def)
next
  case False
  then have "0 < unat pn" and "unat (pn - 1) = unat pn - 1"
    by (auto simp: word_minus_one_unat unat_gt_0)
  with assms show ?thesis by (auto simp: rng_nat)
qed

lemma rr_merge_eq:
  assumes ok: "ranges_ok (b @ a)" and pn: "pn_ok pn"
    and b: "\<forall>r \<in> set b. pn < rng_low r" and a: "\<forall>r \<in> set a. rng_high r < pn"
  shows "rr_merge pn rr b a =
    (if rr_up pn b \<and> rr_dn pn a
     then Some (rr\<lparr>rr_ranges := rr_insert pn b a, rr_node_count := rr_node_count rr - 1\<rparr>)
     else if rr_up pn b \<or> rr_dn pn a then Some (rr\<lparr>rr_ranges := rr_insert pn b a\<rparr>)
     else None)"
proof (cases b a rule: ends_cases)
  case 1
  then show ?thesis by (simp add: rr_merge_def)
next
  case (2 q a')
  with assms show ?thesis
    by (simp add: rr_merge_def rr_join_def rr_insert_def can_merge_below)
next
  case (3 b' p)
  with assms have p: "rng_ok p" "pn < rng_low p" by auto
  then have "pn - 1 \<noteq> rng_high p"
    by (intro word_pred_neq) (auto simp: rng_ok_def)
  with 3 p show ?thesis
    by (simp add: rr_merge_def rr_join_def rr_insert_def can_merge_above)
next
  case (4 b' p q a')
  with assms have p: "rng_ok p" "pn < rng_low p" and q: "rng_ok q" "rng_high q < pn" by auto
  have "rng_low p - 1 = pn \<longleftrightarrow> unat (rng_low p) = Suc (unat pn)"
    and "pn - 1 = rng_high q \<longleftrightarrow> unat pn = Suc (unat (rng_high q))"
    using p q by (simp_all only: word_pred_eq)
  with 4 p q pn show ?thesis
    by (simp add: rr_merge_def rr_join_def rr_insert_def can_merge_above can_merge_below)
qed

lemma rr_trim_one:
  "nodes \<noteq> [] \<Longrightarrow> rr_trim nodes (int XQC_MAX_ACK_RANGE_CNT + 1) = (butlast nodes, int XQC_MAX_ACK_RANGE_CNT)"
  by (subst rr_trim.simps) simp

lemma length_rr_insert:
  "length (rr_insert pn b a) =
     (if rr_up pn b \<and> rr_dn pn a then length (b @ a) - 1
      else if rr_up pn b \<or> rr_dn pn a then length (b @ a) else Suc (length (b @ a)))"
  by (cases b a rule: ends_cases) (auto simp: rr_insert_def)

lemma add_dup:
  "rr_inv rr \<Longrightarrow> pn \<in> rr_set rr \<Longrightarrow> xqc_recv_record_add m rr pn = (rr, XQC_PKTRANGE_DUP)"
  by (simp add: xqc_recv_record_add_def rr_inv_def rr_set_def rr_scan_None_iff [symmetric])

lemma rr_trim_take:
  assumes "length (b @ a) = XQC_MAX_ACK_RANGE_CNT"
  shows "rr_trim (b @ x # a) (int XQC_MAX_ACK_RANGE_CNT + 1)
    = (take XQC_MAX_ACK_RANGE_CNT (b @ x # a), int XQC_MAX_ACK_RANGE_CNT)"
proof -
  from assms have "length (b @ x # a) = Suc XQC_MAX_ACK_RANGE_CNT" by simp
  then have "butlast (b @ x # a) = take XQC_MAX_ACK_RANGE_CNT (b @ x # a)"
    by (simp only: butlast_conv_take diff_Suc_1)
  then show ?thesis using rr_trim_one [of "b @ x # a"] by simp
qed

lemma add_eq_take:
  assumes sc: "rr_scan pn (rr_ranges rr) = Some (b, a)" and ba: "rr_ranges rr = b @ a"
    and ok: "ranges_ok (b @ a)" and pn: "pn_ok pn"
    and b: "\<forall>r \<in> set b. pn < rng_low r" and a: "\<forall>r \<in> set a. rng_high r < pn"
    and cnt: "rr_node_count rr = int (length (b @ a))"
    and len: "length (b @ a) \<le> XQC_MAX_ACK_RANGE_CNT"
  shows "xqc_recv_record_add True rr pn =
    (let nodes = take XQC_MAX_ACK_RANGE_CNT (rr_insert pn b a)
     in (rr\<lparr>rr_ranges := nodes, rr_node_count := int (length nodes)\<rparr>, XQC_PKTRANGE_OK))"
proof -
  note add = xqc_recv_record_add_def sc option.case prod.case rr_merge_eq [OF ok pn b a]
  show ?thesis
  proof (cases "rr_up pn b \<or> rr_dn pn a")
    case True
    then have "b @ a \<noteq> []" by auto
    then have "int (length b + length a - Suc 0) = int (length b) + int (length a) - 1"
      by (cases b; cases a) auto
    with True len show ?thesis
      unfolding add by (auto simp: length_rr_insert Let_def cnt)
  next
    case False
    then have ins: "rr_insert pn b a = b @ \<lparr>rng_low = pn, rng_high = pn\<rparr> # a"
      by (simp add: rr_insert_def)
    show ?thesis
    proof (cases "length (b @ a) = XQC_MAX_ACK_RANGE_CNT")
      case True
      have "rr\<lparr>rr_ranges := b @ a, rr_node_count := int (length (b @ a))\<rparr> = rr"
        using ba cnt by (cases rr) simp
      with False True rr_trim_take [OF True] show ?thesis
        unfolding add ins by (auto simp: Let_def cnt min_def)
    next
      case False
      with \<open>\<not> (rr_up pn b \<or> rr_dn pn a)\<close> len show ?thesis
        unfolding add ins by (simp add: Let_def cnt min_def)
    qed
  qed
qed

lemma add_new:
  assumes inv: "rr_inv rr" and pn: "pn_ok pn" and fresh: "pn \<notin> rr_set rr"
  obtains nodes where "ranges_ok nodes" and "ranges_set nodes = insert pn (rr_set rr)"
    and "length nodes \<le> Suc (length (rr_ranges rr))"
    and "xqc_recv_record_add True rr pn =
      (let nodes = take XQC_MAX_ACK_RANGE_CNT nodes
       in (rr\<lparr>rr_ranges := nodes, rr_node_count := int (length nodes)\<rparr>, XQC_PKTRANGE_OK))"
proof -
  have ok: "ranges_ok (rr_ranges rr)" and cnt: "rr_node_count rr = int (length (rr_ranges rr))"
    and len: "length (rr_ranges rr) \<le> XQC_MAX_ACK_RANGE_CNT"
    using inv by (auto simp: rr_inv_def)
  obtain b a where sc: "rr_scan pn (rr_ranges rr) = Some (b, a)"
    using fresh rr_scan_None_iff [OF ok, of pn] by (cases "rr_scan pn (rr_ranges rr)") (auto simp: rr_set_def)
  from rr_scan_Some [OF ok sc] have ba: "rr_ranges rr = b @ a"
    and b: "\<forall>r \<in> set b. pn < rng_low r" and a: "\<forall>r \<in> set a. rng_high r < pn" by auto
  have ok': "ranges_ok (b @ a)" using ok ba by simp
  show ?thesis
  proof (rule that [of "rr_insert pn b a"])
    show "ranges_ok (rr_insert pn b a)" by (rule rr_insert_ok [OF ok' pn b a])
    show "ranges_set (rr_insert pn b a) = insert pn (rr_set rr)"
      using rr_insert_set [OF ok'] ba by (simp add: rr_set_def)
    show "length (rr_insert pn b a) \<le> Suc (length (rr_ranges rr))"
      using ba by (auto simp: length_rr_insert)
  qed (use add_eq_take [OF sc ba ok' pn b a] cnt len ba in simp)
qed

lemma ranges_ok_take: "ranges_ok nodes \<Longrightarrow> ranges_ok (take k nodes)"
  using ranges_ok_append [of "take k nodes" "drop k nodes"] by simp

lemma ranges_drop_below:
  assumes "ranges_ok nodes" and "x \<in> ranges_set (drop k nodes)" and "y \<in> ranges_set (take k nodes)"
  shows "x < y"
proof -
  obtain r s where rs: "r \<in> set (drop k nodes)" "x \<in> rng_set r" "s \<in> set (take k nodes)" "y \<in> rng_set s"
    using assms(2,3) by (auto simp: ranges_set_def)
  with assms(1) have "rng_above s r"
    using ranges_ok_append [of "take k nodes" "drop k nodes"] by simp
  with rs show ?thesis by (auto simp: rng_set_def rng_nat)
qed

section \<open>What the operations of the record guarantee\<close>

text \<open>C8: Adding a packet number to a well-formed record keeps it well formed and reports
  a duplicate exactly when the number is in the set of received numbers, which it then
  leaves as it is. A new number enters the set; only when the record already has its 64 ranges may
  numbers be forgotten, and then only ones below every number kept.\<close>

theorem recv_record_add_set:
  assumes "rr_inv rr" and "pn_ok pn" and "xqc_recv_record_add True rr pn = (rr', st)"
  shows "rr_inv rr'
    \<and> (st = XQC_PKTRANGE_DUP \<longleftrightarrow> pn \<in> rr_set rr) \<and> (st = XQC_PKTRANGE_DUP \<longrightarrow> rr' = rr)
    \<and> rr_set rr' \<subseteq> insert pn (rr_set rr)
    \<and> (\<forall>x \<in> insert pn (rr_set rr) - rr_set rr'. \<forall>y \<in> rr_set rr'. x < y)
    \<and> (length (rr_ranges rr) < XQC_MAX_ACK_RANGE_CNT \<longrightarrow> rr_set rr' = insert pn (rr_set rr))"
proof (cases "pn \<in> rr_set rr")
  case True
  with assms add_dup show ?thesis by auto
next
  case False
  from add_new [OF assms(1,2) False] obtain nodes where n: "ranges_ok nodes"
    and set: "ranges_set nodes = insert pn (rr_set rr)"
    and len: "length nodes \<le> Suc (length (rr_ranges rr))"
    and eq: "xqc_recv_record_add True rr pn =
      (let nodes = take XQC_MAX_ACK_RANGE_CNT nodes
       in (rr\<lparr>rr_ranges := nodes, rr_node_count := int (length nodes)\<rparr>, XQC_PKTRANGE_OK))" .
  let ?keep = "take XQC_MAX_ACK_RANGE_CNT nodes" and ?lost = "drop XQC_MAX_ACK_RANGE_CNT nodes"
  have rr': "rr' = rr\<lparr>rr_ranges := ?keep, rr_node_count := int (length ?keep)\<rparr>"
    and st: "st = XQC_PKTRANGE_OK"
    using eq assms(3) by (simp_all add: Let_def)
  have split: "insert pn (rr_set rr) = ranges_set ?keep \<union> ranges_set ?lost"
    using set ranges_set_simps(3) [of ?keep ?lost] by simp
  have keep: "rr_set rr' = ranges_set ?keep" by (simp add: rr' rr_set_def)
  have "rr_inv rr'" using ranges_ok_take [OF n] by (simp add: rr' rr_inv_def)
  moreover have "?lost = []" if "length (rr_ranges rr) < XQC_MAX_ACK_RANGE_CNT"
    using len that by simp
  ultimately show ?thesis
    using False st split keep ranges_drop_below [OF n] by auto
qed

theorem recv_record_add_set_witness:
  "rr_inv (fst (xqc_recv_record_add True
     \<lparr>rr_ranges = [\<lparr>rng_low = 7, rng_high = 9\<rparr>, \<lparr>rng_low = 2, rng_high = 5\<rparr>],
      rr_del_from = 0, rr_node_count = 2\<rparr> 6))"
proof -
  let ?rr = "\<lparr>rr_ranges = [\<lparr>rng_low = 7, rng_high = 9\<rparr>, \<lparr>rng_low = 2, rng_high = 5\<rparr>],
      rr_del_from = 0, rr_node_count = 2\<rparr>"
  have "rr_inv ?rr" by (simp add: rr_inv_def rng_nat XQC_MAX_ACK_RANGE_CNT_def)
  moreover have "pn_ok 6" by (simp add: pn_ok_def)
  ultimately show ?thesis
    using recv_record_add_set [of ?rr 6 "fst (xqc_recv_record_add True ?rr 6)"
        "snd (xqc_recv_record_add True ?rr 6)"] by simp
qed

definition rng_from :: "u64 \<Rightarrow> xqc_pktno_range \<Rightarrow> xqc_pktno_range" where
  "rng_from d r = r\<lparr>rng_low := max d (rng_low r)\<rparr>"

definition rr_kept :: "u64 \<Rightarrow> xqc_pktno_range list \<Rightarrow> xqc_pktno_range list" where
  "rr_kept d nodes = map (rng_from d) (filter (\<lambda>r. d \<le> rng_high r) nodes)"

lemma rr_del_nodes_eq:
  "ranges_ok nodes \<Longrightarrow>
   rr_del_nodes d nodes cnt = (rr_kept d nodes, cnt - int (length nodes) + int (length (rr_kept d nodes)))"
proof (induction nodes arbitrary: cnt)
  case Nil
  then show ?case by (simp add: rr_kept_def)
next
  case (Cons r rs)
  have ok: "rng_low r \<le> rng_high r" and IH: "\<And>cnt. rr_del_nodes d rs cnt =
      (rr_kept d rs, cnt - int (length rs) + int (length (rr_kept d rs)))"
    using Cons.prems Cons.IH by (simp_all add: rng_ok_def)
  consider "rng_high r < d" | "rng_low r < d" "d \<le> rng_high r" | "d \<le> rng_low r"
    by (meson linorder_not_less)
  then show ?case
  proof cases
    case 1
    with ok have "rng_low r < d" by simp
    with 1 show ?thesis by (simp add: IH rr_kept_def linorder_not_less)
  next
    case 2
    then show ?thesis by (simp add: IH rr_kept_def rng_from_def max_absorb1 linorder_not_less)
  next
    case 3
    with ok have "d \<le> rng_high r" by simp
    with 3 show ?thesis by (simp add: IH rr_kept_def rng_from_def max_absorb2 linorder_not_less)
  qed
qed

lemma rr_kept_ok: "ranges_ok nodes \<Longrightarrow> ranges_ok (rr_kept d nodes)"
proof (induction nodes)
  case (Cons r rs)
  have "rng_above (rng_from d r) (rng_from d s)" if "rng_above r s" for s
    using that by (auto simp: rng_from_def rng_nat max_def)
  with Cons show ?case by (auto simp: rr_kept_def rng_ok_def rng_from_def)
qed (simp add: rr_kept_def)

lemma rr_kept_set: "ranges_set (rr_kept d nodes) = {x \<in> ranges_set nodes. d \<le> x}"
proof (induction nodes)
  case (Cons r rs)
  have "rng_set (rng_from d r) = {x \<in> rng_set r. d \<le> x}" by (auto simp: rng_set_def rng_from_def)
  moreover have "{x \<in> rng_set r. d \<le> x} = {}" if "\<not> d \<le> rng_high r"
    using that by (auto simp: rng_set_def)
  ultimately show ?case using Cons by (auto simp: rr_kept_def)
qed (simp add: rr_kept_def)

lemma length_rr_kept: "length (rr_kept d nodes) \<le> length nodes"
  by (simp add: rr_kept_def)

text \<open>C19: Deleting below a packet number keeps the record well formed; unless the request is older
  than an earlier one, exactly the received numbers from \<open>del_from\<close> on remain.\<close>

theorem recv_record_del_set:
  assumes "rr_inv rr"
  shows "rr_inv (xqc_recv_record_del rr del_from)
    \<and> rr_set (xqc_recv_record_del rr del_from) =
        (if del_from < rr_del_from rr then rr_set rr else {x \<in> rr_set rr. del_from \<le> x})
    \<and> rr_del_from (xqc_recv_record_del rr del_from) = max (rr_del_from rr) del_from"
  using assms le_trans [OF length_rr_kept]
  by (auto simp: xqc_recv_record_del_def rr_del_nodes_eq rr_inv_def rr_set_def rr_kept_ok rr_kept_set)

theorem recv_record_del_set_witness:
  "rr_set (xqc_recv_record_del
     \<lparr>rr_ranges = [\<lparr>rng_low = 7, rng_high = 9\<rparr>, \<lparr>rng_low = 2, rng_high = 5\<rparr>],
      rr_del_from = 1, rr_node_count = 2\<rparr> 8)
   = {x \<in> {7..9} \<union> {2..5}. 8 \<le> x}"
proof -
  let ?rr = "\<lparr>rr_ranges = [\<lparr>rng_low = 7, rng_high = 9\<rparr>, \<lparr>rng_low = 2, rng_high = 5\<rparr>],
      rr_del_from = 1, rr_node_count = 2\<rparr>"
  have "rr_inv ?rr" by (simp add: rr_inv_def rng_nat XQC_MAX_ACK_RANGE_CNT_def)
  from recv_record_del_set [OF this, of 8] show ?thesis
    by (simp add: rr_set_def rng_set_def)
qed

lemma rr_largest:
  assumes "rr_inv rr"
  shows "rr_set rr = {} \<and> xqc_recv_record_largest rr = 0
    \<or> xqc_recv_record_largest rr \<in> rr_set rr \<and> (\<forall>x \<in> rr_set rr. x \<le> xqc_recv_record_largest rr)"
proof (cases "rr_ranges rr")
  case Nil
  then show ?thesis by (simp add: xqc_recv_record_largest_def rr_set_def)
next
  case (Cons r rs)
  have "x \<le> rng_high r" if "x \<in> ranges_set rs" for x
    using that assms Cons by (fastforce simp: rr_inv_def ranges_set_def rng_set_def rng_nat)
  with Cons assms show ?thesis
    by (auto simp: xqc_recv_record_largest_def rr_set_def rng_set_def rr_inv_def rng_ok_def)
qed

end
