(* ===== verification/Timer.thy ===== *)
theory Timer
  imports Xqc_Prelude
begin

text \<open>
  The timer manager of src/transport/xqc_timer.h and xqc_timer.c: the array of the timers every
  path and connection has, and the list of general purpose timers an application registers.

  A timeout callback is an argument of \<open>xqc_timer_expire\<close>: a function of the type of the
  timer, the time and the state, which is the manager together with everything else the
  callback may change. The locale \<open>timeout_callbacks\<close> states what the expiry loop needs of
  the callbacks to leave no timer due.
\<close>

section \<open>The timers of a manager\<close>

datatype xqc_timer_type =
    XQC_TIMER_ACK_INIT | XQC_TIMER_ACK_HSK | XQC_TIMER_ACK_01RTT | XQC_TIMER_LOSS_DETECTION
  | XQC_TIMER_PACING | XQC_TIMER_NAT_REBINDING | XQC_TIMER_PATH_IDLE | XQC_TIMER_PATH_DRAINING
  | XQC_TIMER_CONN_IDLE | XQC_TIMER_CONN_DRAINING | XQC_TIMER_STREAM_CLOSE | XQC_TIMER_PING
  | XQC_TIMER_RETIRE_CID | XQC_TIMER_LINGER_CLOSE | XQC_TIMER_KEY_UPDATE | XQC_TIMER_PMTUD_PROBING
  | XQC_TIMER_QUEUE_FIN

definition XQC_TIMERS :: "xqc_timer_type list" where
  "XQC_TIMERS =
     [XQC_TIMER_ACK_INIT, XQC_TIMER_ACK_HSK, XQC_TIMER_ACK_01RTT, XQC_TIMER_LOSS_DETECTION,
      XQC_TIMER_PACING, XQC_TIMER_NAT_REBINDING, XQC_TIMER_PATH_IDLE, XQC_TIMER_PATH_DRAINING,
      XQC_TIMER_CONN_IDLE, XQC_TIMER_CONN_DRAINING, XQC_TIMER_STREAM_CLOSE, XQC_TIMER_PING,
      XQC_TIMER_RETIRE_CID, XQC_TIMER_LINGER_CLOSE, XQC_TIMER_KEY_UPDATE, XQC_TIMER_PMTUD_PROBING,
      XQC_TIMER_QUEUE_FIN]"

record xqc_timer =
  timer_is_set :: bool
  expire_time :: u64

record xqc_gp_timer =
  gp_id :: int
  gp_timer_is_set :: bool
  gp_expire_time :: u64
  gp_name :: string

record xqc_timer_manager =
  timer :: "xqc_timer_type \<Rightarrow> xqc_timer"
  gp_timer_list :: "xqc_gp_timer list"
  next_gp_timer_id :: int

definition xqc_timer_init :: xqc_timer_manager where
  "xqc_timer_init =
     \<lparr>timer = (\<lambda>_. \<lparr>timer_is_set = False, expire_time = 0\<rparr>), gp_timer_list = [], next_gp_timer_id = 0\<rparr>"

definition xqc_timer_is_set :: "xqc_timer_manager \<Rightarrow> xqc_timer_type \<Rightarrow> bool" where
  "xqc_timer_is_set m type = timer_is_set (timer m type)"

definition xqc_timer_set :: "xqc_timer_manager \<Rightarrow> xqc_timer_type \<Rightarrow> u64 \<Rightarrow> u64 \<Rightarrow> xqc_timer_manager" where
  "xqc_timer_set m type now inter_time =
     m\<lparr>timer := (timer m)(type := \<lparr>timer_is_set = True, expire_time = now + inter_time\<rparr>)\<rparr>"

definition xqc_timer_unset :: "xqc_timer_manager \<Rightarrow> xqc_timer_type \<Rightarrow> xqc_timer_manager" where
  "xqc_timer_unset m type =
     m\<lparr>timer := (timer m)(type := \<lparr>timer_is_set = False, expire_time = 0\<rparr>)\<rparr>"

definition xqc_timer_update :: "xqc_timer_manager \<Rightarrow> xqc_timer_type \<Rightarrow> u64 \<Rightarrow> u64 \<Rightarrow> xqc_timer_manager" where
  "xqc_timer_update m type now inter_time =
     (let new_expire = now + inter_time
      in if new_expire - expire_time (timer m type) < 1000 then m
         else if timer_is_set (timer m type)
         then m\<lparr>timer := (timer m)(type := (timer m type)\<lparr>expire_time := new_expire\<rparr>)\<rparr>
         else xqc_timer_set m type now inter_time)"

section \<open>General purpose timers\<close>

definition XQC_GP_TIMER_ID_MAX :: int where "XQC_GP_TIMER_ID_MAX = 0x7fffffff"

text \<open>The first node of the list with the given identifier is changed.\<close>

fun gp_change :: "int \<Rightarrow> (xqc_gp_timer \<Rightarrow> xqc_gp_timer) \<Rightarrow> xqc_gp_timer list \<Rightarrow> xqc_gp_timer list res" where
  "gp_change i f [] = Inl XQC_ERROR"
| "gp_change i f (t # ts) =
     (if gp_id t = i then Inr (f t # ts)
      else case gp_change i f ts of Inl e \<Rightarrow> Inl e | Inr ts' \<Rightarrow> Inr (t # ts'))"

definition xqc_timer_gp_timer_set :: "xqc_timer_manager \<Rightarrow> int \<Rightarrow> u64 \<Rightarrow> xqc_timer_manager res" where
  "xqc_timer_gp_timer_set m i at =
     (if i \<ge> next_gp_timer_id m then Inl XQC_EPARAM
      else map_sum id (\<lambda>ts. m\<lparr>gp_timer_list := ts\<rparr>)
        (gp_change i (\<lambda>t. t\<lparr>gp_expire_time := at, gp_timer_is_set := True\<rparr>) (gp_timer_list m)))"

definition xqc_timer_gp_timer_unset :: "xqc_timer_manager \<Rightarrow> int \<Rightarrow> xqc_timer_manager res" where
  "xqc_timer_gp_timer_unset m i =
     (if i \<ge> next_gp_timer_id m then Inl XQC_EPARAM
      else map_sum id (\<lambda>ts. m\<lparr>gp_timer_list := ts\<rparr>)
        (gp_change i (\<lambda>t. t\<lparr>gp_expire_time := 0, gp_timer_is_set := False\<rparr>) (gp_timer_list m)))"

definition gp_find :: "int \<Rightarrow> xqc_gp_timer list \<Rightarrow> xqc_gp_timer option" where
  "gp_find i ts = List.find (\<lambda>t. gp_id t = i) ts"

definition xqc_timer_gp_timer_get_info :: "xqc_timer_manager \<Rightarrow> int \<Rightarrow> (bool \<times> u64) res" where
  "xqc_timer_gp_timer_get_info m i =
     (if i \<ge> next_gp_timer_id m then Inl XQC_EPARAM
      else case gp_find i (gp_timer_list m) of
             None \<Rightarrow> Inl XQC_ERROR
           | Some t \<Rightarrow> Inr (gp_timer_is_set t, gp_expire_time t))"

text \<open>\<open>xqc_timer_register_gp_timer\<close>; the name is cut at 1024 characters, as \<open>strnlen\<close> does.\<close>

definition xqc_timer_register_gp_timer ::
    "bool \<Rightarrow> xqc_timer_manager \<Rightarrow> string \<Rightarrow> (xqc_timer_manager \<times> int) res" where
  "xqc_timer_register_gp_timer malloc_ok m name =
     (if next_gp_timer_id m = XQC_GP_TIMER_ID_MAX then Inl XQC_ERROR
      else if \<not> malloc_ok then Inl XQC_EMALLOC
      else
        let i = next_gp_timer_id m;
            t = \<lparr>gp_id = i, gp_timer_is_set = False, gp_expire_time = 0, gp_name = take 1024 name\<rparr>
        in Inr (m\<lparr>next_gp_timer_id := i + 1, gp_timer_list := gp_timer_list m @ [t]\<rparr>, i))"

fun gp_remove :: "int \<Rightarrow> xqc_gp_timer list \<Rightarrow> xqc_gp_timer list res" where
  "gp_remove i [] = Inl XQC_ERROR"
| "gp_remove i (t # ts) =
     (if gp_id t = i then Inr ts
      else case gp_remove i ts of Inl e \<Rightarrow> Inl e | Inr ts' \<Rightarrow> Inr (t # ts'))"

definition xqc_timer_unregister_gp_timer :: "xqc_timer_manager \<Rightarrow> int \<Rightarrow> xqc_timer_manager res" where
  "xqc_timer_unregister_gp_timer m i =
     (if i \<ge> next_gp_timer_id m then Inl XQC_EPARAM
      else map_sum id (\<lambda>ts. m\<lparr>gp_timer_list := ts\<rparr>) (gp_remove i (gp_timer_list m)))"

definition xqc_timer_destroy_gp_timer_list :: "xqc_timer_manager \<Rightarrow> xqc_timer_manager" where
  "xqc_timer_destroy_gp_timer_list m = m\<lparr>gp_timer_list := []\<rparr>"

section \<open>Expiry\<close>

definition expire_one ::
    "(xqc_timer_type \<Rightarrow> u64 \<Rightarrow> xqc_timer_manager \<times> 's \<Rightarrow> xqc_timer_manager \<times> 's) \<Rightarrow> u64
     \<Rightarrow> xqc_timer_type \<Rightarrow> xqc_timer_manager \<times> 's \<Rightarrow> xqc_timer_manager \<times> 's" where
  "expire_one cb now type st =
     (let (m, s) = st
      in if timer_is_set (timer m type) \<and> expire_time (timer m type) \<le> now then
           let (m', s') = cb type now (m, s)
           in (if expire_time (timer m' type) \<le> now then xqc_timer_unset m' type else m', s')
         else (m, s))"

fun expire_timers ::
    "(xqc_timer_type \<Rightarrow> u64 \<Rightarrow> xqc_timer_manager \<times> 's \<Rightarrow> xqc_timer_manager \<times> 's) \<Rightarrow> u64
     \<Rightarrow> xqc_timer_type list \<Rightarrow> xqc_timer_manager \<times> 's \<Rightarrow> xqc_timer_manager \<times> 's" where
  "expire_timers cb now [] st = st"
| "expire_timers cb now (type # types) st = expire_timers cb now types (expire_one cb now type st)"

text \<open>
  The loop over the general purpose timers. \<open>gp_cb\<close> may set and unset timers; a callback
  that unregisters the timer it is called for would leave the code with a dangling node.
\<close>

fun expire_gp_timers ::
    "(int \<Rightarrow> u64 \<Rightarrow> xqc_timer_manager \<times> 's \<Rightarrow> xqc_timer_manager \<times> 's) \<Rightarrow> u64
     \<Rightarrow> int list \<Rightarrow> xqc_timer_manager \<times> 's \<Rightarrow> xqc_timer_manager \<times> 's" where
  "expire_gp_timers gp_cb now [] st = st"
| "expire_gp_timers gp_cb now (i # is) (m, s) =
     (case gp_find i (gp_timer_list m) of
        Some t \<Rightarrow>
          if gp_timer_is_set t \<and> gp_expire_time t \<le> now then
            let (m', s') = gp_cb i now (m, s);
                m'' = (case gp_find i (gp_timer_list m') of
                         Some t' \<Rightarrow>
                           if gp_expire_time t' \<le> now
                           then (case xqc_timer_gp_timer_unset m' i of Inl _ \<Rightarrow> m' | Inr m2 \<Rightarrow> m2)
                           else m'
                       | None \<Rightarrow> m')
            in expire_gp_timers gp_cb now is (m'', s')
          else expire_gp_timers gp_cb now is (m, s)
      | None \<Rightarrow> expire_gp_timers gp_cb now is (m, s))"

definition xqc_timer_expire where
  "xqc_timer_expire cb gp_cb now st =
     (let (m, s) = expire_timers cb now XQC_TIMERS st
      in expire_gp_timers gp_cb now (map gp_id (gp_timer_list m)) (m, s))"

section \<open>No timer is left due\<close>

definition due :: "u64 \<Rightarrow> xqc_timer \<Rightarrow> bool" where
  "due now t \<longleftrightarrow> timer_is_set t \<and> expire_time t \<le> now"

text \<open>
  The contract between the manager and the callbacks: a callback may arm, move and stop timers, but it
  does not make another timer due that was not.
\<close>

locale timeout_callbacks =
  fixes cb :: "xqc_timer_type \<Rightarrow> u64 \<Rightarrow> xqc_timer_manager \<times> 's \<Rightarrow> xqc_timer_manager \<times> 's"
  assumes keeps_undue:
    "other \<noteq> type \<Longrightarrow> \<not> due now (timer (fst st) other) \<Longrightarrow> \<not> due now (timer (fst (cb type now st)) other)"
begin

lemma expire_one_undue:
  "\<not> due now (timer (fst (expire_one cb now type st)) type)"
  by (auto simp: expire_one_def due_def xqc_timer_unset_def split: prod.splits)

lemma expire_one_keeps:
  assumes "\<not> due now (timer (fst st) other)"
  shows "\<not> due now (timer (fst (expire_one cb now type st)) other)"
proof (cases "other = type")
  case True
  then show ?thesis using expire_one_undue by simp
next
  case False
  with keeps_undue [OF False assms] assms show ?thesis
    by (auto simp: expire_one_def due_def xqc_timer_unset_def split: prod.splits)
qed

lemma expire_timers_keep:
  "\<not> due now (timer (fst st) type) \<Longrightarrow> \<not> due now (timer (fst (expire_timers cb now types st)) type)"
  by (induction types arbitrary: st) (simp_all add: expire_one_keeps)

lemma expire_timers_undue:
  "type \<in> set types \<Longrightarrow> \<not> due now (timer (fst (expire_timers cb now types st)) type)"
proof (induction types arbitrary: st)
  case (Cons t types)
  then show ?case using expire_timers_keep [OF expire_one_undue] by (cases "type = t") auto
qed simp

end

section \<open>General purpose timers are found again\<close>

definition gp_wf :: "xqc_timer_manager \<Rightarrow> bool" where
  "gp_wf m \<longleftrightarrow> distinct (map gp_id (gp_timer_list m))
     \<and> (\<forall>i \<in> set (map gp_id (gp_timer_list m)). 0 \<le> i \<and> i < next_gp_timer_id m)
     \<and> 0 \<le> next_gp_timer_id m \<and> next_gp_timer_id m \<le> XQC_GP_TIMER_ID_MAX"

lemma gp_change_find:
  "gp_find i ts = Some t \<Longrightarrow> (\<And>t. gp_id (f t) = gp_id t) \<Longrightarrow>
   \<exists>ts'. gp_change i f ts = Inr ts' \<and> map gp_id ts' = map gp_id ts
     \<and> (\<forall>j. gp_find j ts' = (if j = i then Some (f t) else gp_find j ts))"
  by (induction ts) (auto simp: gp_find_def split: if_splits)

lemma gp_change_none: "gp_find i ts = None \<Longrightarrow> gp_change i f ts = Inl XQC_ERROR"
  by (induction ts) (auto simp: gp_find_def split: if_splits)

lemma gp_remove_find:
  "gp_find i ts = Some t \<Longrightarrow> distinct (map gp_id ts) \<Longrightarrow>
   \<exists>ts'. gp_remove i ts = Inr ts' \<and> set ts' \<subseteq> set ts \<and> distinct (map gp_id ts')
     \<and> (\<forall>j. gp_find j ts' = (if j = i then None else gp_find j ts))"
proof (induction ts)
  case (Cons x xs)
  show ?case
  proof (cases "gp_id x = i")
    case True
    then have "gp_find i xs = None"
      using Cons.prems(2) by (auto simp: gp_find_def find_None_iff image_iff)
    with True Cons.prems show ?thesis by (auto simp: gp_find_def)
  next
    case False
    with Cons obtain ts' where "gp_remove i xs = Inr ts'" "set ts' \<subseteq> set xs" "distinct (map gp_id ts')"
      "\<forall>j. gp_find j ts' = (if j = i then None else gp_find j xs)"
      by (auto simp: gp_find_def)
    with False Cons.prems show ?thesis by (auto simp: gp_find_def)
  qed
qed (simp add: gp_find_def)

lemma gp_find_append: "gp_find i (ts @ [t]) =
    (case gp_find i ts of Some u \<Rightarrow> Some u | None \<Rightarrow> if gp_id t = i then Some t else None)"
  by (induction ts) (auto simp: gp_find_def)

lemma gp_find_bound: "gp_wf m \<Longrightarrow> next_gp_timer_id m \<le> i \<Longrightarrow> gp_find i (gp_timer_list m) = None"
  by (auto simp: gp_wf_def gp_find_def find_None_iff)

lemma gp_register_ok:
  assumes "gp_wf m" and "next_gp_timer_id m < XQC_GP_TIMER_ID_MAX"
  shows "\<exists>m'. xqc_timer_register_gp_timer True m name = Inr (m', next_gp_timer_id m) \<and> gp_wf m'
    \<and> next_gp_timer_id m' = next_gp_timer_id m + 1
    \<and> gp_find (next_gp_timer_id m) (gp_timer_list m') =
        Some \<lparr>gp_id = next_gp_timer_id m, gp_timer_is_set = False, gp_expire_time = 0, gp_name = take 1024 name\<rparr>"
  using assms gp_find_bound [OF assms(1)]
  by (auto simp: xqc_timer_register_gp_timer_def gp_wf_def gp_find_append Let_def)

lemma gp_wf_ids:
  "gp_wf m \<Longrightarrow> map gp_id ts = map gp_id (gp_timer_list m) \<Longrightarrow> gp_wf (m\<lparr>gp_timer_list := ts\<rparr>)"
  by (auto simp: gp_wf_def simp del: set_map)

lemma gp_set_ok:
  assumes "gp_wf m" and "gp_find i (gp_timer_list m) = Some t"
  shows "\<exists>m'. xqc_timer_gp_timer_set m i at = Inr m' \<and> gp_wf m' \<and> next_gp_timer_id m' = next_gp_timer_id m
    \<and> (\<forall>j. gp_find j (gp_timer_list m') =
          (if j = i then Some (t\<lparr>gp_expire_time := at, gp_timer_is_set := True\<rparr>) else gp_find j (gp_timer_list m)))"
proof -
  have i: "\<not> i \<ge> next_gp_timer_id m" using gp_find_bound [OF assms(1), of i] assms(2) by auto
  obtain ts where ts: "gp_change i (\<lambda>t. t\<lparr>gp_expire_time := at, gp_timer_is_set := True\<rparr>) (gp_timer_list m) = Inr ts"
    and ids: "map gp_id ts = map gp_id (gp_timer_list m)"
    and f: "\<forall>j. gp_find j ts = (if j = i then Some (t\<lparr>gp_expire_time := at, gp_timer_is_set := True\<rparr>)
        else gp_find j (gp_timer_list m))"
    using gp_change_find [OF assms(2), of "\<lambda>t. t\<lparr>gp_expire_time := at, gp_timer_is_set := True\<rparr>"] by auto
  have "gp_wf (m\<lparr>gp_timer_list := ts\<rparr>)"
    using assms(1) ids by (rule gp_wf_ids)
  then show ?thesis using i ts f by (simp add: xqc_timer_gp_timer_set_def)
qed

lemma gp_unregister_ok:
  assumes "gp_wf m" and "gp_find i (gp_timer_list m) = Some t"
  shows "\<exists>m'. xqc_timer_unregister_gp_timer m i = Inr m' \<and> gp_wf m' \<and> next_gp_timer_id m' = next_gp_timer_id m
    \<and> (\<forall>j. gp_find j (gp_timer_list m') = (if j = i then None else gp_find j (gp_timer_list m)))"
proof -
  have i: "\<not> i \<ge> next_gp_timer_id m" using gp_find_bound [OF assms(1), of i] assms(2) by auto
  obtain ts where "gp_remove i (gp_timer_list m) = Inr ts" "set ts \<subseteq> set (gp_timer_list m)"
    "distinct (map gp_id ts)" "\<forall>j. gp_find j ts = (if j = i then None else gp_find j (gp_timer_list m))"
    using gp_remove_find [OF assms(2)] assms(1) by (auto simp: gp_wf_def)
  then show ?thesis using i assms(1) by (auto simp: xqc_timer_unregister_gp_timer_def gp_wf_def)
qed

text \<open>A general purpose timer that is registered gets an identifier no timer has had
  before; a time stored for it is reported back and no other timer changes; once it is
  unregistered it is unknown. Every operation keeps the identifiers distinct.\<close>

theorem gp_timer_lifecycle:
  assumes "gp_wf m" and "next_gp_timer_id m < XQC_GP_TIMER_ID_MAX"
  shows "\<exists>m1 m2 m3 i. xqc_timer_register_gp_timer True m name = Inr (m1, i) \<and> gp_wf m1
    \<and> gp_find i (gp_timer_list m) = None
    \<and> xqc_timer_gp_timer_get_info m1 i = Inr (False, 0)
    \<and> xqc_timer_gp_timer_set m1 i at = Inr m2 \<and> gp_wf m2
    \<and> xqc_timer_gp_timer_get_info m2 i = Inr (True, at)
    \<and> (\<forall>j. j \<noteq> i \<longrightarrow> xqc_timer_gp_timer_get_info m2 j = xqc_timer_gp_timer_get_info m1 j)
    \<and> xqc_timer_unregister_gp_timer m2 i = Inr m3 \<and> gp_wf m3
    \<and> xqc_timer_gp_timer_get_info m3 i = Inl XQC_ERROR"
proof -
  let ?i = "next_gp_timer_id m"
  obtain m1 where m1: "xqc_timer_register_gp_timer True m name = Inr (m1, ?i)" "gp_wf m1"
    "next_gp_timer_id m1 = ?i + 1" and f1: "gp_find ?i (gp_timer_list m1) =
      Some \<lparr>gp_id = ?i, gp_timer_is_set = False, gp_expire_time = 0, gp_name = take 1024 name\<rparr>"
    using gp_register_ok [OF assms, of name] by blast
  obtain m2 where m2: "xqc_timer_gp_timer_set m1 ?i at = Inr m2" "gp_wf m2" "next_gp_timer_id m2 = ?i + 1"
    and f2: "\<forall>j. gp_find j (gp_timer_list m2) = (if j = ?i then Some \<lparr>gp_id = ?i, gp_timer_is_set = True,
        gp_expire_time = at, gp_name = take 1024 name\<rparr> else gp_find j (gp_timer_list m1))"
    using gp_set_ok [OF m1(2) f1, of at] m1(3) by auto
  then have "gp_find ?i (gp_timer_list m2) = Some \<lparr>gp_id = ?i, gp_timer_is_set = True,
        gp_expire_time = at, gp_name = take 1024 name\<rparr>" by simp
  from gp_unregister_ok [OF m2(2) this] m2(3) obtain m3 where
    "xqc_timer_unregister_gp_timer m2 ?i = Inr m3" "gp_wf m3" "next_gp_timer_id m3 = ?i + 1"
    "\<forall>j. gp_find j (gp_timer_list m3) = (if j = ?i then None else gp_find j (gp_timer_list m2))" by auto
  with m1 m2 f1 f2 gp_find_bound [OF assms(1), of ?i] show ?thesis
    by (intro exI [of _ m1] exI [of _ m2] exI [of _ m3] exI [of _ ?i])
      (simp add: xqc_timer_gp_timer_get_info_def)
qed

theorem gp_timer_lifecycle_witness:
  "\<exists>m1 m2. xqc_timer_register_gp_timer True xqc_timer_init ''app'' = Inr (m1, 0)
    \<and> xqc_timer_gp_timer_set m1 0 77 = Inr m2 \<and> xqc_timer_gp_timer_get_info m2 0 = Inr (True, 77)"
proof -
  have "gp_wf xqc_timer_init" "next_gp_timer_id xqc_timer_init < XQC_GP_TIMER_ID_MAX"
    by (simp_all add: gp_wf_def xqc_timer_init_def XQC_GP_TIMER_ID_MAX_def)
  from gp_timer_lifecycle [OF this, of "''app''" 77] show ?thesis
    by (auto simp: xqc_timer_register_gp_timer_def Let_def xqc_timer_init_def XQC_GP_TIMER_ID_MAX_def)
qed

end
