(* ===== verification/Ack_Policy.thy ===== *)
theory Ack_Policy
  imports Recv_Record Timer Packet_Buf
begin

text \<open>
  When an ACK is due and which ACKs were sent: the second half of
  src/transport/xqc_recv_record.c and the ACK timeout of xqc_timer.c.

  \<^item> \<open>xqc_maybe_should_ack\<close> decides whether to acknowledge now or to arm the ACK timer.
  \<^item> The record of sent ACKs is a client of the ring array: it keeps the packet numbers of
    the last packets that carried an ACK, newest first, through the interface
    \<open>bounded_deque\<close>.
\<close>

section \<open>The decision to acknowledge\<close>





text \<open>\<open>XQC_TIMER_ACK_INIT + pns\<close>.\<close>

fun ack_timer :: "xqc_pkt_num_space \<Rightarrow> xqc_timer_type" where
  "ack_timer XQC_PNS_INIT = XQC_TIMER_ACK_INIT"
| "ack_timer XQC_PNS_HSK = XQC_TIMER_ACK_HSK"
| "ack_timer XQC_PNS_APP_DATA = XQC_TIMER_ACK_01RTT"
| "ack_timer XQC_PNS_N = XQC_TIMER_LOSS_DETECTION"


text \<open>
  \<open>1 << (pns + path_id * XQC_PNS_N)\<close>: the shift is done on an \<open>int\<close>, so its result is only
  defined for shift amounts below 31.
\<close>

definition conn_ack_bit :: "xqc_pkt_num_space \<Rightarrow> u64 \<Rightarrow> u64 option" where
  "conn_ack_bit pns pid =
     (let k = of_nat (pns_num pns) + pid * 3
      in if k < 31 then Some (push_bit (unat k) 1) else None)"


text \<open>\<open>xqc_timer_ack_timeout\<close> on the state of the path that owns the timer and its connection.\<close>

fun timer_pns :: "xqc_timer_type \<Rightarrow> xqc_pkt_num_space option" where
  "timer_pns XQC_TIMER_ACK_INIT = Some XQC_PNS_INIT"
| "timer_pns XQC_TIMER_ACK_HSK = Some XQC_PNS_HSK"
| "timer_pns XQC_TIMER_ACK_01RTT = Some XQC_PNS_APP_DATA"
| "timer_pns _ = None"


section \<open>The record of sent ACKs\<close>

record xqc_ack_sent_entry =
  ase_pkt_num :: u64
  ase_largest_ack :: u64

record xqc_ack_sent_record =
  ack_sent :: "xqc_ack_sent_entry xqc_rarray option"
  last_add_time :: u64

definition xqc_ack_sent_record_init :: "bool \<Rightarrow> xqc_ack_sent_record \<times> unit res" where
  "xqc_ack_sent_record_init malloc_ok =
     (case xqc_rarray_create malloc_ok 8 16 of
        None \<Rightarrow> (\<lparr>ack_sent = None, last_add_time = 0\<rparr>, Inl XQC_ERROR)
      | Some ra \<Rightarrow> (\<lparr>ack_sent = Some ra, last_add_time = 0\<rparr>, Inr ()))"

definition xqc_ack_sent_record_reset :: "xqc_ack_sent_record \<Rightarrow> xqc_ack_sent_record" where
  "xqc_ack_sent_record_reset r =
     r\<lparr>last_add_time := 0, ack_sent := map_option xqc_rarray_reinit (ack_sent r)\<rparr>"

definition xqc_ack_sent_record_destroy :: "xqc_ack_sent_record \<Rightarrow> xqc_ack_sent_record" where
  "xqc_ack_sent_record_destroy r = r\<lparr>ack_sent := None\<rparr>"

text \<open>The array of a record in use; the code does not test the pointer.\<close>

definition xqc_ack_sent_record_add ::
    "xqc_ack_sent_record \<Rightarrow> xqc_packet_out \<Rightarrow> u64 \<Rightarrow> u64 \<Rightarrow> (xqc_ack_sent_record \<times> unit res) option" where
  "xqc_ack_sent_record_add r po srtt now =
     (if last_add_time r + srtt > now then Some (r, Inr ())
      else
        case ack_sent r of
          None \<Rightarrow> None
        | Some ra \<Rightarrow>
            let ra = (if xqc_rarray_full ra
                      then (case xqc_rarray_pop_back ra of Inl _ \<Rightarrow> ra | Inr ra' \<Rightarrow> ra')
                      else ra);
                entry = \<lparr>ase_pkt_num = po_pkt_num po, ase_largest_ack = po_largest_ack po\<rparr>
            in case rarray_push_front ra entry of
                 None \<Rightarrow> Some (r\<lparr>ack_sent := Some ra\<rparr>, Inl XQC_ERROR)
               | Some ra' \<Rightarrow> Some (r\<lparr>ack_sent := Some ra', last_add_time := now\<rparr>, Inr ()))"

text \<open>
  The inner loop of \<open>xqc_ack_sent_record_on_ack\<close> moves \<open>range\<close> on while it lies above the
  packet number; \<open>None\<close> when it would leave the array.
\<close>

fun skip_ranges :: "u64 \<Rightarrow> xqc_pktno_range list \<Rightarrow> xqc_pktno_range list option" where
  "skip_ranges pn [] = None"
| "skip_ranges pn (r # rs) =
     (if pn < rng_low r then (if rs = [] then None else skip_ranges pn rs) else Some (r # rs))"

function on_ack_loop ::
    "xqc_ack_sent_entry xqc_rarray \<Rightarrow> xqc_pktno_range list \<Rightarrow> u64 \<Rightarrow> u64
     \<Rightarrow> xqc_ack_sent_entry xqc_rarray \<times> u64" where
  "on_ack_loop ra ranges i sz =
     (if i < sz then
        (case rarray_at ra i of
           None \<Rightarrow> (ra, 0)
         | Some entry \<Rightarrow>
             (case skip_ranges (ase_pkt_num entry) ranges of
                None \<Rightarrow> (ra, 0)
              | Some (rng # rs) \<Rightarrow>
                  if ase_pkt_num entry \<le> rng_high rng \<and> ase_pkt_num entry \<ge> rng_low rng
                  then (case xqc_rarray_pop_from ra i of Inl _ \<Rightarrow> ra | Inr ra' \<Rightarrow> ra', ase_largest_ack entry)
                  else on_ack_loop ra (rng # rs) (i + 1) sz
              | Some [] \<Rightarrow> (ra, 0)))
      else (ra, 0))"
  by pat_completeness auto
termination
proof (relation "measure (\<lambda>(ra, ranges, i, sz). unat (sz - i))", goal_cases)
  case (2 ra ranges i sz)
  then have "sz - i \<noteq> 0" by auto
  then have "unat (sz - i - 1) < unat (sz - i)"
    by (simp add: word_minus_one_unat unat_gt_0)
  then show ?case by (simp add: algebra_simps)
qed simp

declare on_ack_loop.simps [simp del]

definition xqc_ack_sent_record_on_ack ::
    "xqc_ack_sent_record \<Rightarrow> xqc_pktno_range list \<Rightarrow> (xqc_ack_sent_record \<times> u64) option" where
  "xqc_ack_sent_record_on_ack r ranges =
     (case ack_sent r of
        None \<Rightarrow> None
      | Some ra \<Rightarrow>
          let (ra', pn) = on_ack_loop ra ranges 0 (xqc_rarray_size ra)
          in Some (r\<lparr>ack_sent := Some ra'\<rparr>, pn))"

section \<open>The record keeps the newest ACKs and finds the acknowledged one\<close>

definition acked :: "xqc_pktno_range list \<Rightarrow> xqc_ack_sent_entry \<Rightarrow> bool" where
  "acked ranges e \<longleftrightarrow> ase_pkt_num e \<in> ranges_set ranges"

definition ranges_desc :: "xqc_pktno_range list \<Rightarrow> bool" where
  "ranges_desc ranges \<longleftrightarrow> sorted_wrt (\<lambda>a b. rng_high b < rng_low a) ranges
     \<and> (\<forall>r \<in> set ranges. rng_low r \<le> rng_high r)"

definition entries_desc :: "xqc_ack_sent_entry list \<Rightarrow> bool" where
  "entries_desc es \<longleftrightarrow> sorted_wrt (\<lambda>a b. ase_pkt_num b < ase_pkt_num a) es"

lemma skip_ranges_None:
  "skip_ranges pn ranges = None \<Longrightarrow> \<forall>r \<in> set ranges. pn < rng_low r"
  by (induction ranges) (auto split: if_splits)

lemma skip_ranges_Some:
  "skip_ranges pn ranges = Some rs \<Longrightarrow> \<exists>above r rs'. ranges = above @ rs \<and> rs = r # rs'
    \<and> (\<forall>x \<in> set above. pn < rng_low x) \<and> rng_low r \<le> pn"
proof (induction ranges)
  case (Cons r ranges)
  show ?case
  proof (cases "pn < rng_low r")
    case True
    with Cons.prems have "skip_ranges pn ranges = Some rs" by (auto split: if_splits)
    from Cons.IH [OF this] True show ?thesis
      by (metis append_Cons set_ConsD)
  next
    case False
    with Cons.prems have "rs = r # ranges" by simp
    with False show ?thesis by auto
  qed
qed simp

lemma skip_ranges_acked:
  assumes "ranges_desc ranges" and "skip_ranges pn ranges = Some (r # rs)"
  shows "pn \<in> ranges_set ranges \<longleftrightarrow> pn \<le> rng_high r \<and> pn \<ge> rng_low r" and "ranges_desc (r # rs)"
    and "\<And>q. q < pn \<Longrightarrow> q \<in> ranges_set ranges \<longleftrightarrow> q \<in> ranges_set (r # rs)"
proof -
  obtain above where ab: "ranges = above @ r # rs" "\<forall>x \<in> set above. pn < rng_low x" "rng_low r \<le> pn"
    using skip_ranges_Some [OF assms(2)] by auto
  then show "ranges_desc (r # rs)" using assms(1) by (simp add: ranges_desc_def sorted_wrt_append)
  have none: "q \<notin> ranges_set above" if "q \<le> pn" for q
    using ab(2) that by (fastforce simp: ranges_set_def rng_set_def)
  then show "\<And>q. q < pn \<Longrightarrow> q \<in> ranges_set ranges \<longleftrightarrow> q \<in> ranges_set (r # rs)"
    by (simp add: ab(1))
  have "pn \<notin> ranges_set rs"
    using assms(1) ab by (fastforce simp: ranges_desc_def sorted_wrt_append ranges_set_def rng_set_def)
  with none [of pn] show "pn \<in> ranges_set ranges \<longleftrightarrow> pn \<le> rng_high r \<and> pn \<ge> rng_low r"
    by (auto simp: ab(1) rng_set_def)
qed

lemma on_ack_step:
  assumes "rarray_inv ra" and "rarray_list ra = pre @ e # suf" and "ranges_desc ranges"
  shows "on_ack_loop ra ranges (of_nat (length pre)) (ra_count ra) =
    (case skip_ranges (ase_pkt_num e) ranges of
       None \<Rightarrow> (ra, 0)
     | Some rs \<Rightarrow>
         if acked ranges e
         then (case xqc_rarray_pop_from ra (of_nat (length pre)) of Inl _ \<Rightarrow> ra | Inr ra' \<Rightarrow> ra', ase_largest_ack e)
         else on_ack_loop ra rs (of_nat (length (pre @ [e]))) (ra_count ra))"
    and "\<exists>ra'. xqc_rarray_pop_from ra (of_nat (length pre)) = Inr ra' \<and> ra_cap ra' = ra_cap ra
      \<and> rarray_inv ra' \<and> rarray_list ra' = pre"
proof -
  let ?i = "of_nat (length pre) :: u64"
  have len: "length pre + Suc (length suf) = unat (ra_count ra)"
    using assms(2) length_rarray_list [of ra] by simp
  then have i: "unat ?i = length pre" using unat_u64_less [of "ra_count ra"] by (simp add: unat_of_nat)
  with len have lt: "?i < ra_count ra" by (simp add: word_less_nat_alt)
  have at: "rarray_at ra ?i = Some e"
    using rarray_at [OF assms(1), of ?i] i len by (simp add: assms(2))
  show "\<exists>ra'. xqc_rarray_pop_from ra ?i = Inr ra' \<and> ra_cap ra' = ra_cap ra
      \<and> rarray_inv ra' \<and> rarray_list ra' = pre"
    using rarray_pop_from_ok [OF assms(1), of ?i] i len by (auto simp: assms(2))
  have suc: "?i + 1 = of_nat (length (pre @ [e]))" by simp
  show "on_ack_loop ra ranges ?i (ra_count ra) =
    (case skip_ranges (ase_pkt_num e) ranges of
       None \<Rightarrow> (ra, 0)
     | Some rs \<Rightarrow>
         if acked ranges e
         then (case xqc_rarray_pop_from ra ?i of Inl _ \<Rightarrow> ra | Inr ra' \<Rightarrow> ra', ase_largest_ack e)
         else on_ack_loop ra rs (of_nat (length (pre @ [e]))) (ra_count ra))"
  proof (cases "skip_ranges (ase_pkt_num e) ranges")
    case (Some rs0)
    then obtain r rs where rs: "rs0 = r # rs" using skip_ranges_Some by blast
    have "acked ranges e \<longleftrightarrow> ase_pkt_num e \<le> rng_high r \<and> ase_pkt_num e \<ge> rng_low r"
      using skip_ranges_acked(1) [OF assms(3) Some [unfolded rs]] by (simp add: acked_def)
    with Some rs lt at show ?thesis unfolding suc [symmetric] by (subst on_ack_loop.simps) auto
  qed (use lt at in \<open>subst on_ack_loop.simps, simp\<close>)
qed

lemma skip_None_unacked:
  assumes "skip_ranges (ase_pkt_num e) ranges = None" and "entries_desc (e # suf)" and "x \<in> set (e # suf)"
  shows "\<not> acked ranges x"
proof -
  have "ase_pkt_num x \<le> ase_pkt_num e" using assms(2,3) by (auto simp: entries_desc_def)
  then show ?thesis using skip_ranges_None [OF assms(1)]
    by (fastforce simp: acked_def ranges_set_def rng_set_def)
qed

text \<open>What the acknowledgement of a packet does to the list of entries.\<close>

definition drop_acked :: "xqc_pktno_range list \<Rightarrow> xqc_ack_sent_entry list \<Rightarrow> xqc_ack_sent_entry list \<times> u64" where
  "drop_acked ranges es =
     (case dropWhile (\<lambda>e. \<not> acked ranges e) es of
        [] \<Rightarrow> (es, 0)
      | e # _ \<Rightarrow> (takeWhile (\<lambda>e. \<not> acked ranges e) es, ase_largest_ack e))"

lemma drop_acked_Cons:
  "drop_acked ranges (e # es) =
     (if acked ranges e then ([], ase_largest_ack e) else apfst ((#) e) (drop_acked ranges es))"
  by (cases "dropWhile (\<lambda>e. \<not> acked ranges e) es") (simp_all add: drop_acked_def del: dropWhile_eq_Nil_conv)

lemma drop_acked_cong:
  "(\<And>e. e \<in> set es \<Longrightarrow> acked r e = acked s e) \<Longrightarrow> drop_acked r es = drop_acked s es"
  by (induction es) (simp_all add: drop_acked_Cons, simp add: drop_acked_def)

lemma drop_acked_none: "\<forall>e \<in> set es. \<not> acked r e \<Longrightarrow> drop_acked r es = (es, 0)"
  by (induction es) (simp_all add: drop_acked_Cons, simp add: drop_acked_def)

lemma on_ack_loop_spec:
  assumes "rarray_inv ra" and "rarray_list ra = pre @ suf" and "entries_desc suf" and "ranges_desc ranges"
  shows "\<exists>ra'. on_ack_loop ra ranges (of_nat (length pre)) (ra_count ra) = (ra', snd (drop_acked ranges suf))
    \<and> rarray_inv ra' \<and> ra_cap ra' = ra_cap ra \<and> rarray_list ra' = pre @ fst (drop_acked ranges suf)"
  using assms
proof (induction suf arbitrary: pre ranges)
  case Nil
  then have "ra_count ra = of_nat (length pre)"
    using length_rarray_list [of ra] by (simp add: word_unat_eq_iff unat_of_nat)
  with Nil show ?case by (subst on_ack_loop.simps) (simp add: drop_acked_def)
next
  case (Cons e suf)
  note step = on_ack_step [OF Cons.prems(1,2,4)]
  show ?case
  proof (cases "skip_ranges (ase_pkt_num e) ranges")
    case None
    then have "drop_acked ranges (e # suf) = (e # suf, 0)"
      using skip_None_unacked [OF None Cons.prems(3)] by (intro drop_acked_none) simp
    with None step(1) Cons.prems(1,2) show ?thesis by simp
  next
    case (Some rs0)
    then obtain r rs where rs: "rs0 = r # rs" using skip_ranges_Some by blast
    note sk = skip_ranges_acked [OF Cons.prems(4) Some [unfolded rs]]
    show ?thesis
    proof (cases "acked ranges e")
      case True
      with Some step show ?thesis by (auto simp: drop_acked_Cons)
    next
      case False
      have same: "drop_acked (r # rs) suf = drop_acked ranges suf"
        using Cons.prems(3) sk(3) by (intro drop_acked_cong) (simp add: acked_def entries_desc_def)
      have "\<exists>ra'. on_ack_loop ra (r # rs) (of_nat (length (pre @ [e]))) (ra_count ra) = (ra', snd (drop_acked (r # rs) suf))
        \<and> rarray_inv ra' \<and> ra_cap ra' = ra_cap ra \<and> rarray_list ra' = (pre @ [e]) @ fst (drop_acked (r # rs) suf)"
        using Cons.prems sk(2) by (intro Cons.IH) (simp_all add: entries_desc_def)
      with False Some rs step(1) show ?thesis by (simp add: drop_acked_Cons same)
    qed
  qed
qed

text \<open>The record of sent ACKs, at most once per round trip, puts the packet that carries an
  ACK in front and, when its slots are used up, forgets the oldest entry only.\<close>

theorem ack_sent_keeps_newest:
  assumes "ack_sent r = Some ra" and "rarray_inv ra" and "last_add_time r + srtt \<le> now"
  shows "\<exists>ra'. xqc_ack_sent_record_add r po srtt now =
      Some (r\<lparr>ack_sent := Some ra', last_add_time := now\<rparr>, Inr ())
    \<and> rarray_inv ra' \<and> ra_cap ra' = ra_cap ra
    \<and> rarray_list ra' = take (unat (ra_cap ra))
        (\<lparr>ase_pkt_num = po_pkt_num po, ase_largest_ack = po_largest_ack po\<rparr> # rarray_list ra)"
proof -
  let ?e = "\<lparr>ase_pkt_num = po_pkt_num po, ase_largest_ack = po_largest_ack po\<rparr>"
  obtain q1 q2 where q: "if xqc_rarray_full ra then xqc_rarray_pop_back ra = Inr q1 else q1 = ra"
    "rarray_push_front q1 ?e = Some q2" "rarray_inv q2" "unat (ra_cap q2) = unat (ra_cap ra)"
    "rarray_list q2 = take (unat (ra_cap ra)) (?e # rarray_list ra)"
    using rarray.push_front_evict [OF assms(2), of ?e] by blast
  moreover have "ra_cap q2 = ra_cap ra" using q(4) by (simp add: word_unat_eq_iff)
  ultimately show ?thesis
    using assms(1,3) by (auto simp: xqc_ack_sent_record_add_def Let_def not_less split: if_splits)
qed

text \<open>C24: When an ACK frame arrives, the newest recorded packet that it acknowledges is found,
  the largest packet number that packet acknowledged is returned, and it and all older entries
  are forgotten; if it acknowledges none of them, the record is unchanged and the
  result is 0.\<close>

theorem ack_sent_on_ack:
  assumes "ack_sent r = Some ra" and "rarray_inv ra" and "entries_desc (rarray_list ra)" and "ranges_desc ranges"
  shows "\<exists>ra'. xqc_ack_sent_record_on_ack r ranges =
      Some (r\<lparr>ack_sent := Some ra'\<rparr>, snd (drop_acked ranges (rarray_list ra)))
    \<and> rarray_inv ra' \<and> rarray_list ra' = fst (drop_acked ranges (rarray_list ra))"
  using on_ack_loop_spec [of ra "[]" "rarray_list ra" ranges] assms
  by (auto simp: xqc_ack_sent_record_on_ack_def xqc_rarray_size_def)

definition ack_record_example :: xqc_ack_sent_record where
  "ack_record_example =
     \<lparr>ack_sent = Some \<lparr>ra_buf = [Some \<lparr>ase_pkt_num = 9, ase_largest_ack = 40\<rparr>,
          Some \<lparr>ase_pkt_num = 5, ase_largest_ack = 20\<rparr>], ra_cap = 2, ra_count = 2, ra_offset = 0, ra_mask = 1\<rparr>,
      last_add_time = 100\<rparr>"

lemma ack_record_example_inv:
  assumes "ack_sent ack_record_example = Some ra"
  shows "rarray_inv ra" and "rarray_list ra =
    [\<lparr>ase_pkt_num = 9, ase_largest_ack = 40\<rparr>, \<lparr>ase_pkt_num = 5, ase_largest_ack = 20\<rparr>]"
proof -
  have "(2 :: u64) = 2 ^ 1" by simp
  then have "rarray_wf ra"
    using assms by (auto simp: ack_record_example_def rarray_wf_def intro!: exI [of _ 1])
  then have "rarray_inv ra \<and> rarray_list ra =
    [\<lparr>ase_pkt_num = 9, ase_largest_ack = 40\<rparr>, \<lparr>ase_pkt_num = 5, ase_largest_ack = 20\<rparr>]"
    using assms by (intro rarray_listI) (auto simp: ack_record_example_def rarray_slot_def less_Suc_eq nth_Cons')
  then show "rarray_inv ra" and "rarray_list ra =
    [\<lparr>ase_pkt_num = 9, ase_largest_ack = 40\<rparr>, \<lparr>ase_pkt_num = 5, ase_largest_ack = 20\<rparr>]" by simp_all
qed

lemma ack_record_example_sent: "\<exists>ra. ack_sent ack_record_example = Some ra"
  by (simp add: ack_record_example_def)

abbreviation po_ack_example :: xqc_packet_out where
  "po_ack_example \<equiv> po_example\<lparr>po_pkt_num := 12, po_largest_ack := 55\<rparr>"

theorem ack_sent_keeps_newest_witness:
  "\<exists>ra'. xqc_ack_sent_record_add ack_record_example po_ack_example 30 150 =
      Some (ack_record_example\<lparr>ack_sent := Some ra', last_add_time := 150\<rparr>, Inr ())
    \<and> rarray_list ra' = [\<lparr>ase_pkt_num = 12, ase_largest_ack = 55\<rparr>, \<lparr>ase_pkt_num = 9, ase_largest_ack = 40\<rparr>]"
proof -
  obtain ra where ra: "ack_sent ack_record_example = Some ra" using ack_record_example_sent by blast
  have cap: "unat (ra_cap ra) = 2" using ra by (auto simp: ack_record_example_def)
  have po: "po_pkt_num po_ack_example = 12" "po_largest_ack po_ack_example = 55"
    by simp_all
  have "last_add_time ack_record_example + 30 \<le> 150" by (simp add: ack_record_example_def)
  from ack_sent_keeps_newest [OF ra ack_record_example_inv(1) [OF ra] this, of po_ack_example]
  show ?thesis by (auto simp: ack_record_example_inv(2) [OF ra] cap po)
qed

theorem ack_sent_on_ack_witness:
  "\<exists>ra'. xqc_ack_sent_record_on_ack ack_record_example [\<lparr>rng_low = 4, rng_high = 6\<rparr>] =
      Some (ack_record_example\<lparr>ack_sent := Some ra'\<rparr>, 20)
    \<and> rarray_list ra' = [\<lparr>ase_pkt_num = 9, ase_largest_ack = 40\<rparr>]"
proof -
  obtain ra where ra: "ack_sent ack_record_example = Some ra" using ack_record_example_sent by blast
  note list = ack_record_example_inv(2) [OF ra]
  have "entries_desc (rarray_list ra)" by (simp add: list entries_desc_def)
  moreover have "ranges_desc [\<lparr>rng_low = 4, rng_high = 6\<rparr>]" by (simp add: ranges_desc_def)
  moreover have "drop_acked [\<lparr>rng_low = 4, rng_high = 6\<rparr>] (rarray_list ra) =
      ([\<lparr>ase_pkt_num = 9, ase_largest_ack = 40\<rparr>], 20)"
    by (simp add: list drop_acked_def acked_def rng_set_def)
  ultimately show ?thesis
    using ack_sent_on_ack [OF ra ack_record_example_inv(1) [OF ra], of "[\<lparr>rng_low = 4, rng_high = 6\<rparr>]"] by auto
qed

section \<open>No ACK is forgotten\<close>







text \<open>
  From path identifier 11 on, the shift amount is at least 33, more than the width of the
  \<open>int\<close> that is shifted.
\<close>

lemma conn_ack_bit_undefined:
  assumes "11 \<le> unat pid" and "unat pid < 2 ^ 60" and "pns \<noteq> XQC_PNS_N"
  shows "conn_ack_bit pns pid = None"
proof -
  have "pns_num pns \<le> 2" using assms(3) by (cases pns) simp_all
  then have "unat (of_nat (pns_num pns) + pid * 3 :: u64) = pns_num pns + 3 * unat pid"
    using assms(2) by (simp add: unat_word_ariths unat_of_nat)
  then have "\<not> of_nat (pns_num pns) + pid * 3 < (31 :: u64)"
    using assms(1) by (simp add: word_less_nat_alt)
  then show ?thesis by (simp add: conn_ack_bit_def Let_def)
qed

section \<open>The ACK timeout as a callback\<close>




lemma timer_pns_ack [simp]: "p \<noteq> XQC_PNS_N \<Longrightarrow> timer_pns (ack_timer p) = Some p"
  by (cases p) simp_all




end
