(* ===== verification/Ack_Frame.thy ===== *)
theory Ack_Frame
  imports Frame_Roundtrip Ack_Policy
begin

text \<open>
  ACK, PATH\_ACK (ACK\_MP) and PATH\_ACK\_ECN frames of src/transport/xqc_frame_parser.c: the
  generators, which turn a receive record into a frame, and the parsers, which turn a frame into
  an \<open>xqc_ack_info_t\<close>.

  The generators hold the first range, the gaps and the range lengths in variables of type
  \<open>unsigned\<close>, so these are truncated to 32 bits here as well. The array \<open>ranges\<close> and the counter
  \<open>n_ranges\<close> of \<open>xqc_ack_info_t\<close> are the list of the ranges stored. A generator leaves behind
  every byte it has written before it fails.
\<close>

section \<open>Generators\<close>

record xqc_ack_info =
  ai_pns :: xqc_pkt_num_space
  ai_path_id :: u64
  ai_ranges :: "xqc_pktno_range list"
  ai_ack_delay :: u64
  ai_largest_acked :: u64

text \<open>
  The loop from the second node of the record on. \<open>lim\<close> is the offset of \<open>end\<close>, \<open>dst\<close> the offset of
  \<open>dst_buf\<close>; the result is the buffer, the new \<open>dst\<close> and \<open>range_count\<close>.
\<close>

fun ack_ranges_loop ::
    "nat \<Rightarrow> bytes \<Rightarrow> nat \<Rightarrow> u64 \<Rightarrow> u32 \<Rightarrow> xqc_pktno_range list \<Rightarrow> bytes \<times> (nat \<times> u32) res" where
  "ack_ranges_loop lim buf dst prev_low range_count [] = (buf, Inr (dst, range_count))"
| "ack_ranges_loop lim buf dst prev_low range_count (node # nodes) =
     (let gap = ucast (prev_low - rng_high node - 2) :: u32;
          acks = ucast (rng_high node - rng_low node) :: u32;
          gap_bits = xqc_vint_get_2bit (ucast gap);
          acks_bits = xqc_vint_get_2bit (ucast acks);
          need = xqc_vint_len gap_bits + xqc_vint_len acks_bits
      in if dst + need > lim then (buf, Inl XQC_ENOBUF)
         else
           let buf = buf_write buf dst (vint_bytes (ucast gap));
               dst = dst + xqc_vint_len gap_bits;
               buf = buf_write buf dst (vint_bytes (ucast acks));
               dst = dst + xqc_vint_len acks_bits;
               range_count = range_count + 1
           in if unat range_count \<ge> XQC_MAX_ACK_RANGE_CNT - 1 then (buf, Inr (dst, range_count))
              else ack_ranges_loop lim buf dst (rng_low node) range_count nodes)"

text \<open>
  From the first byte of the frame to the number of ranges: \<open>hdr\<close> are the bytes in front of the
  range count. The result is the buffer, \<open>dst\<close> and \<open>range_count\<close>.
\<close>

definition ack_body ::
    "nat \<Rightarrow> bytes \<Rightarrow> nat \<Rightarrow> bytes \<Rightarrow> xqc_pktno_range \<Rightarrow> xqc_pktno_range list \<Rightarrow> bytes \<times> (nat \<times> u32) res" where
  "ack_body lim buf dst hdr first rest =
     (let first_ack_range = ucast (rng_high first - rng_low first) :: u32;
          first_bits = xqc_vint_get_2bit (ucast first_ack_range);
          buf = buf_write buf dst hdr;
          p_range_count = dst + length hdr;
          dst = p_range_count + 1;
          buf = buf_write buf dst (vint_bytes (ucast first_ack_range));
          dst = dst + xqc_vint_len first_bits
      in case ack_ranges_loop lim buf dst (rng_low first) 0 rest of
           (buf, Inl e) \<Rightarrow> (buf, Inl e)
         | (buf, Inr (dst, range_count)) \<Rightarrow>
             (buf_write buf p_range_count (xqc_vint_write (ucast range_count) 0 1), Inr (dst, range_count)))"

text \<open>
  The values of a successful call are the size of the frame, \<open>*has_gap\<close> and \<open>*largest_ack\<close>. A shift by
  \<open>ack_delay_exponent\<close> is defined in C for exponents below 64; the peers exchange at most 20.
\<close>

definition xqc_gen_ack_frame ::
    "xqc_connection \<Rightarrow> xqc_packet_out \<Rightarrow> u64 \<Rightarrow> nat \<Rightarrow> xqc_recv_record \<Rightarrow> u64 \<Rightarrow>
     xqc_packet_out \<times> (nat \<times> bool \<times> u64) res" where
  "xqc_gen_ack_frame conn po now ack_delay_exponent recv_record largest_pkt_recv_time =
     (case rr_ranges recv_record of
        [] \<Rightarrow> (po, Inl XQC_ENULLPTR)
      | first # rest \<Rightarrow>
          let dst = po_used_size po;
              lim = dst + xqc_get_po_remained_size_with_ack_spc po;
              largest_recv = rng_high first;
              first_ack_range = ucast (largest_recv - rng_low first) :: u32;
              ack_delay = drop_bit ack_delay_exponent (now - largest_pkt_recv_time);
              need = 1 + xqc_vint_len (xqc_vint_get_2bit largest_recv)
                     + xqc_vint_len (xqc_vint_get_2bit ack_delay) + 1
                     + xqc_vint_len (xqc_vint_get_2bit (ucast first_ack_range))
          in if dst + need > lim then (po, Inl XQC_ENOBUF)
             else
               let hdr = (if simulate_ecn conn then 0x03 else 0x02) # vint_bytes largest_recv @ vint_bytes ack_delay
               in case ack_body lim (po_buf po) dst hdr first rest of
                    (buf, Inl e) \<Rightarrow> (po\<lparr>po_buf := buf\<rparr>, Inl e)
                  | (buf, Inr (dst', range_count)) \<Rightarrow>
                      if simulate_ecn conn then
                        if dst' + 3 > lim then (po\<lparr>po_buf := buf\<rparr>, Inl XQC_ENOBUF)
                        else (po_mark XQC_FRAME_ACK (po\<lparr>po_buf := buf_write buf dst' [0, 0, 0]\<rparr>),
                              Inr (dst' + 3 - dst, range_count > 0, largest_recv))
                      else (po_mark XQC_FRAME_ACK (po\<lparr>po_buf := buf\<rparr>),
                            Inr (dst' - dst, range_count > 0, largest_recv)))"

definition XQC_MULTIPATH_10 :: u8 where "XQC_MULTIPATH_10 = 0x0a"
definition XQC_MULTIPATH_3E :: u8 where "XQC_MULTIPATH_3E = 0x3e"

definition xqc_mp_select_codepoint :: "u8 \<Rightarrow> u64 \<Rightarrow> u64 \<Rightarrow> u64 res" where
  "xqc_mp_select_codepoint mp_version cp_v10 cp_v21 =
     (if mp_version = XQC_MULTIPATH_3E then Inr cp_v21
      else if mp_version = XQC_MULTIPATH_10 then Inr cp_v10
      else Inl XQC_EMP_INVALID_MP_VERTION)"

definition XQC_TRANS_FRAME_TYPE_MP_ACK0 :: u64 where "XQC_TRANS_FRAME_TYPE_MP_ACK0 = 0x15228c00"
definition XQC_TRANS_FRAME_TYPE_PATH_ACK :: u64 where "XQC_TRANS_FRAME_TYPE_PATH_ACK = 0x3e"

definition xqc_gen_ack_mp_frame ::
    "xqc_connection \<Rightarrow> u64 \<Rightarrow> xqc_packet_out \<Rightarrow> u64 \<Rightarrow> nat \<Rightarrow> xqc_recv_record \<Rightarrow> u64 \<Rightarrow>
     xqc_packet_out \<times> (nat \<times> bool \<times> u64) res" where
  "xqc_gen_ack_mp_frame conn pid po now ack_delay_exponent recv_record largest_pkt_recv_time =
     (case xqc_mp_select_codepoint (multipath_version conn) XQC_TRANS_FRAME_TYPE_MP_ACK0
             XQC_TRANS_FRAME_TYPE_PATH_ACK of
        Inl e \<Rightarrow> (po, Inl e)
      | Inr frame_type \<Rightarrow>
      (case rr_ranges recv_record of
        [] \<Rightarrow> (po, Inl XQC_ENULLPTR)
      | first # rest \<Rightarrow>
          let dst = po_used_size po;
              lim = dst + xqc_get_po_remained_size_with_ack_spc po;
              ack_delay = (if po_pkt_pns po = XQC_PNS_INIT \<or> po_pkt_pns po = XQC_PNS_HSK then 0
                           else now - largest_pkt_recv_time);
              largest_recv = rng_high first;
              first_ack_range = ucast (largest_recv - rng_low first) :: u32;
              ack_delay = drop_bit ack_delay_exponent ack_delay;
              need = xqc_vint_len (xqc_vint_get_2bit frame_type) + xqc_vint_len (xqc_vint_get_2bit pid)
                     + xqc_vint_len (xqc_vint_get_2bit largest_recv)
                     + xqc_vint_len (xqc_vint_get_2bit ack_delay) + 1
                     + xqc_vint_len (xqc_vint_get_2bit (ucast first_ack_range))
          in if dst + need > lim then (po, Inl XQC_ENOBUF)
             else
               let hdr = vint_bytes frame_type @ vint_bytes pid @ vint_bytes largest_recv
                         @ vint_bytes ack_delay
               in case ack_body lim (po_buf po) dst hdr first rest of
                    (buf, Inl e) \<Rightarrow> (po\<lparr>po_buf := buf\<rparr>, Inl e)
                  | (buf, Inr (dst', range_count)) \<Rightarrow>
                      (po_mark XQC_FRAME_ACK_MP (po\<lparr>po_buf := buf\<rparr>),
                       Inr (dst' - dst, range_count > 0, largest_recv))))"

section \<open>Parsers\<close>

text \<open>
  The loops over the \<open>ack_range_count\<close> further ranges. Each turn reads at least two bytes, so within a
  packet the \<open>int\<close> counter of the source cannot overflow.
\<close>

fun parse_ack_ranges ::
    "xqc_connection \<Rightarrow> nat \<Rightarrow> bytes \<Rightarrow> u64 \<Rightarrow> xqc_pktno_range list \<Rightarrow>
     xqc_connection \<times> (bytes \<times> xqc_pktno_range list) res" where
  "parse_ack_ranges conn 0 p previous_low ranges = (conn, Inr (p, ranges))"
| "parse_ack_ranges conn (Suc n) p previous_low ranges =
     rd_vint (conn, Inl XQC_EVINTREAD) p (\<lambda>gap p.
     rd_vint (conn, Inl XQC_EVINTREAD) p (\<lambda>rng p.
       if previous_low < 2 \<or> gap > previous_low - 2
       then (XQC_CONN_ERR conn TRA_FRAME_ENCODING_ERROR, Inl XQC_EILLEGAL_FRAME)
       else let range_high = previous_low - gap - 2
            in if rng > range_high
               then (XQC_CONN_ERR conn TRA_FRAME_ENCODING_ERROR, Inl XQC_EILLEGAL_FRAME)
               else let range_low = range_high - rng;
                        ranges = (if length ranges < XQC_MAX_ACK_RANGE_CNT
                                  then ranges @ [\<lparr>rng_low = range_low, rng_high = range_high\<rparr>] else ranges)
                    in parse_ack_ranges conn n p range_low ranges))"

definition xqc_parse_ack_frame ::
    "xqc_packet_in \<Rightarrow> xqc_connection \<Rightarrow> xqc_connection \<times> (xqc_packet_in \<times> xqc_ack_info) res" where
  "xqc_parse_ack_frame pi conn =
     rd_vint (conn, Inl XQC_EVINTREAD) (pi_rest pi) (\<lambda>frame_type p.
     rd_vint (conn, Inl XQC_EVINTREAD) p (\<lambda>largest_acked p.
     rd_vint (conn, Inl XQC_EVINTREAD) p (\<lambda>ack_delay p.
     rd_vint (conn, Inl XQC_EVINTREAD) p (\<lambda>ack_range_count p.
     rd_vint (conn, Inl XQC_EVINTREAD) p (\<lambda>first_ack_range p.
       if first_ack_range > largest_acked
       then (XQC_CONN_ERR conn TRA_FRAME_ENCODING_ERROR, Inl XQC_EILLEGAL_FRAME)
       else let previous_low = largest_acked - first_ack_range
            in case parse_ack_ranges conn (unat ack_range_count) p previous_low
                      [\<lparr>rng_low = previous_low, rng_high = largest_acked\<rparr>] of
                 (conn, Inl e) \<Rightarrow> (conn, Inl e)
               | (conn, Inr (p, ranges)) \<Rightarrow>
                   let info = \<lparr>ai_pns = pi_pkt_pns pi, ai_path_id = 0, ai_ranges = ranges,
                               ai_ack_delay = push_bit (unat (remote_ack_delay_exponent conn)) ack_delay,
                               ai_largest_acked = largest_acked\<rparr>
                   in if frame_type = 0x03 then
                        rd_vint (conn, Inl XQC_EVINTREAD) p (\<lambda>_ p.
                        rd_vint (conn, Inl XQC_EVINTREAD) p (\<lambda>_ p.
                        rd_vint (conn, Inl XQC_EVINTREAD) p (\<lambda>_ p.
                          (conn, Inr (pi_done XQC_FRAME_ACK p pi, info)))))
                      else (conn, Inr (pi_done XQC_FRAME_ACK p pi, info)))))))"

fun parse_ack_mp_ranges ::
    "nat \<Rightarrow> bytes \<Rightarrow> xqc_pktno_range list \<Rightarrow> (bytes \<times> xqc_pktno_range list) res" where
  "parse_ack_mp_ranges 0 p ranges = Inr (p, ranges)"
| "parse_ack_mp_ranges (Suc n) p ranges =
     vint_field p (\<lambda>gap p.
     vint_field p (\<lambda>rng p.
       parse_ack_mp_ranges n p
         (if length ranges < XQC_MAX_ACK_RANGE_CNT
          then let high = rng_low (last ranges) - gap - 2
               in ranges @ [\<lparr>rng_low = high - rng, rng_high = high\<rparr>]
          else ranges)))"

text \<open>
  \<open>ack_info\<close> is a variable of the caller; \<open>largest_acked\<close> keeps the value it had there.
\<close>

definition xqc_parse_ack_mp_frame ::
    "xqc_packet_in \<Rightarrow> xqc_connection \<Rightarrow> xqc_ack_info \<Rightarrow> (xqc_packet_in \<times> u64 \<times> xqc_ack_info) res" where
  "xqc_parse_ack_mp_frame pi conn ack_info =
     vint_field (pi_rest pi) (\<lambda>frame_type p.
     vint_field p (\<lambda>pid p.
     vint_field p (\<lambda>largest_acked p.
     vint_field p (\<lambda>ack_delay p.
     vint_field p (\<lambda>ack_range_count p.
     vint_field p (\<lambda>first_ack_range p.
       case parse_ack_mp_ranges (unat ack_range_count) p
              [\<lparr>rng_low = largest_acked - first_ack_range, rng_high = largest_acked\<rparr>] of
         Inl e \<Rightarrow> Inl e
       | Inr (p, ranges) \<Rightarrow>
           Inr (pi_done XQC_FRAME_ACK_MP p pi, pid,
                ack_info\<lparr>ai_pns := pi_pkt_pns pi, ai_path_id := pid, ai_ranges := ranges,
                  ai_ack_delay := push_bit (unat (remote_ack_delay_exponent conn)) ack_delay\<rparr>)))))))"

definition xqc_parse_path_ack_ecn_frame ::
    "xqc_packet_in \<Rightarrow> xqc_connection \<Rightarrow> xqc_ack_info \<Rightarrow> (xqc_packet_in \<times> u64 \<times> xqc_ack_info) res" where
  "xqc_parse_path_ack_ecn_frame pi conn ack_info =
     (case xqc_parse_ack_mp_frame pi conn ack_info of
        Inl e \<Rightarrow> Inl e
      | Inr (pi, pid, ack_info) \<Rightarrow>
          vint_field (pi_rest pi) (\<lambda>_ p.
          vint_field p (\<lambda>_ p.
          vint_field p (\<lambda>_ p.
            Inr (pi\<lparr>pi_rest := p\<rparr>, pid, ack_info)))))"

section \<open>Round trip\<close>

text \<open>The layout of the ranges behind the first one, and of a whole frame with header \<open>hdr\<close>.\<close>

fun ack_range_bytes :: "u64 \<Rightarrow> xqc_pktno_range list \<Rightarrow> bytes" where
  "ack_range_bytes prev_low [] = []"
| "ack_range_bytes prev_low (r # rs) =
     vint_bytes (prev_low - rng_high r - 2) @ vint_bytes (rng_high r - rng_low r)
     @ ack_range_bytes (rng_low r) rs"

fun ack_ranges_bytes :: "xqc_pktno_range list \<Rightarrow> bytes" where
  "ack_ranges_bytes [] = []"
| "ack_ranges_bytes (r # rs) =
     of_nat (length rs) # vint_bytes (rng_high r - rng_low r) @ ack_range_bytes (rng_low r) rs"

text \<open>Distances that survive the 32-bit variables of the generators.\<close>

definition span_ok :: "xqc_pktno_range list \<Rightarrow> bool" where
  "span_ok rs \<longleftrightarrow> (\<forall>r \<in> set rs. unat (rng_high (hd rs)) - unat (rng_low r) < 2 ^ 32)"

lemma ucast_u32_id: "unat (w :: u64) < 2 ^ 32 \<Longrightarrow> ucast (ucast w :: u32) = w"
  by (simp add: word_unat_eq_iff unsigned_ucast_eq unsigned_take_bit_eq take_bit_nat_eq_self)

lemma buf_write_hole:
  assumes "dst + length hdr + 1 + length xs \<le> length buf"
  shows "buf_write (buf_write (buf_write buf dst hdr) (dst + length hdr + 1) xs) (dst + length hdr) [c]
    = buf_write buf dst (hdr @ c # xs)"
proof -
  let ?n = "length hdr"
  define a b d where "a = take dst buf" and "b = take ?n (drop dst buf)" and "d = drop (dst + ?n + 1) buf"
  have "drop ?n (drop dst buf) = buf ! (dst + ?n) # d"
    using assms by (simp add: d_def Cons_nth_drop_Suc add.commute)
  then have buf: "buf = a @ b @ buf ! (dst + ?n) # d"
    unfolding a_def b_def by (metis append_take_drop_id)
  obtain h where buf: "buf = a @ b @ h # d" using buf by blast
  have "length a = dst" "length b = ?n" "length xs \<le> length d" using assms by (simp_all add: a_def b_def d_def)
  then show ?thesis by (simp add: buf buf_write_def)
qed

lemma rng_diff:
  assumes "rng_ok r" and "Suc (unat (rng_high r)) < unat prev"
  shows "unat (prev - rng_high r - 2) = unat prev - unat (rng_high r) - 2"
    and "unat (rng_high r - rng_low r) = unat (rng_high r) - unat (rng_low r)"
    and "prev - (prev - rng_high r - 2) - 2 = rng_high r"
proof -
  have le: "rng_low r \<le> rng_high r" "rng_high r \<le> prev" "2 \<le> prev - rng_high r"
    using assms by (auto simp: rng_ok_def word_le_nat_alt unat_sub)
  then show "unat (prev - rng_high r - 2) = unat prev - unat (rng_high r) - 2"
    "unat (rng_high r - rng_low r) = unat (rng_high r) - unat (rng_low r)"
    by (simp_all add: unat_sub)
  show "prev - (prev - rng_high r - 2) - 2 = rng_high r" by simp
qed

lemma rng_bytes_small:
  assumes "ranges_ok (p # r # rs)" and "\<forall>x \<in> set (p # r # rs). unat h - unat (rng_low x) < 2 ^ 32"
    and "unat (rng_high p) \<le> unat h"
  shows "ucast (ucast (rng_low p - rng_high r - 2) :: u32) = rng_low p - rng_high r - 2"
    and "ucast (ucast (rng_high r - rng_low r) :: u32) = rng_high r - rng_low r"
proof -
  have "rng_ok r" "Suc (unat (rng_high r)) < unat (rng_low p)" "rng_ok p"
    using assms(1) by (auto simp: rng_above_def)
  from rng_diff [OF this(1,2)] this assms(2,3)
  have "unat (rng_low p - rng_high r - 2) < 2 ^ 32" "unat (rng_high r - rng_low r) < 2 ^ 32"
    by (auto simp: rng_nat)
  then show "ucast (ucast (rng_low p - rng_high r - 2) :: u32) = rng_low p - rng_high r - 2"
    "ucast (ucast (rng_high r - rng_low r) :: u32) = rng_high r - rng_low r"
    by (simp_all only: ucast_u32_id)
qed

lemma ack_ranges_loop_eq:
  assumes "ranges_ok (p # rs)" and "\<forall>x \<in> set (p # rs). unat h - unat (rng_low x) < 2 ^ 32"
    and "unat (rng_high p) \<le> unat h"
    and "dst + length (ack_range_bytes (rng_low p) rs) \<le> lim" and "lim \<le> length buf"
    and "n + length rs < XQC_MAX_ACK_RANGE_CNT"
  shows "ack_ranges_loop lim buf dst (rng_low p) (of_nat n) rs =
    (buf_write buf dst (ack_range_bytes (rng_low p) rs),
     Inr (dst + length (ack_range_bytes (rng_low p) rs), of_nat (n + length rs)))"
  using assms
proof (induction rs arbitrary: p buf dst n)
  case Nil
  then show ?case by (simp add: buf_write_def)
next
  case (Cons r rs)
  let ?a = "vint_bytes (rng_low p - rng_high r - 2)" and ?b = "vint_bytes (rng_high r - rng_low r)"
  have ok: "ranges_ok (r # rs)" "\<forall>x \<in> set (r # rs). unat h - unat (rng_low x) < 2 ^ 32" "unat (rng_high r) \<le> unat h"
    using Cons.prems(1-3) by (auto simp: rng_nat)
  have "n + 1 < 2 ^ 32" using Cons.prems(6) by (simp add: XQC_MAX_ACK_RANGE_CNT_def)
  then have c: "unat (of_nat (n + 1) :: u32) = n + 1" by (simp only: unat_of_nat) simp
  have w: "buf_write (buf_write buf dst ?a) (dst + length ?a) ?b = buf_write buf dst (?a @ ?b)"
    using Cons.prems(4,5) by (intro buf_write_append) simp
  have l: "length (buf_write buf dst (?a @ ?b)) = length buf"
    using Cons.prems(4,5) by (intro length_buf_write) simp
  have IH: "ack_ranges_loop lim (buf_write buf dst (?a @ ?b)) (dst + length ?a + length ?b) (rng_low r) (of_nat (n + 1)) rs
    = (buf_write (buf_write buf dst (?a @ ?b)) (dst + length (?a @ ?b)) (ack_range_bytes (rng_low r) rs),
       Inr (dst + length ?a + length ?b + length (ack_range_bytes (rng_low r) rs), of_nat (n + 1 + length rs)))"
    using Cons.IH [OF ok, of "dst + length ?a + length ?b" "buf_write buf dst (?a @ ?b)" "n + 1"] Cons.prems(4-6) l
    by (simp add: add.assoc)
  have ww: "buf_write (buf_write buf dst (?a @ ?b)) (dst + length (?a @ ?b)) (ack_range_bytes (rng_low r) rs)
    = buf_write buf dst (ack_range_bytes (rng_low p) (r # rs))"
    using Cons.prems(4,5) by (subst buf_write_append) simp_all
  show ?case
  proof (cases "n + 1 < XQC_MAX_ACK_RANGE_CNT - 1")
    case True
    then show ?thesis
      using Cons.prems(4) c IH ww
      by (simp add: rng_bytes_small [OF Cons.prems(1-3)] length_vint_bytes [symmetric] Let_def w ac_simps)
  next
    case False
    then have "rs = []" using Cons.prems(6) by (cases rs) (auto simp: XQC_MAX_ACK_RANGE_CNT_def)
    then show ?thesis
      using Cons.prems(4) c False
      by (simp add: rng_bytes_small [OF Cons.prems(1-3)] length_vint_bytes [symmetric] Let_def w ac_simps)
  qed
qed

lemma ack_body_eq:
  assumes "ranges_ok (r # rs)" and "span_ok (r # rs)" and "length (r # rs) \<le> XQC_MAX_ACK_RANGE_CNT"
    and "dst + length (hdr @ ack_ranges_bytes (r # rs)) \<le> lim" and "lim \<le> length buf"
  shows "ack_body lim buf dst hdr r rs =
    (buf_write buf dst (hdr @ ack_ranges_bytes (r # rs)),
     Inr (dst + length (hdr @ ack_ranges_bytes (r # rs)), of_nat (length rs)))"
proof -
  let ?f = "vint_bytes (rng_high r - rng_low r)" and ?q = "dst + length hdr + 1"
  let ?b1 = "buf_write buf dst hdr"
  have "rng_low r \<le> rng_high r" using assms(1) by (simp add: rng_ok_def)
  then have "unat (rng_high r - rng_low r) < 2 ^ 32"
    using assms(2) by (simp add: span_ok_def unat_sub)
  then have u: "ucast (ucast (rng_high r - rng_low r) :: u32) = rng_high r - rng_low r" by (rule ucast_u32_id)
  have l: "length ?b1 = length buf" "length (buf_write ?b1 ?q ?f) = length buf"
    using assms(4,5) by simp_all
  have n: "length rs < 64" using assms(3) by (simp add: XQC_MAX_ACK_RANGE_CNT_def)
  then have c: "xqc_vint_write (ucast (of_nat (length rs) :: u32)) 0 (Suc 0) = [of_nat (length rs)]"
    by (simp add: unsigned_of_nat take_bit_nat_eq_self vint_write_small unat_of_nat)
  have loop: "ack_ranges_loop lim (buf_write ?b1 ?q ?f) (?q + length ?f) (rng_low r) 0 rs =
    (buf_write (buf_write ?b1 ?q ?f) (?q + length ?f) (ack_range_bytes (rng_low r) rs),
     Inr (?q + length ?f + length (ack_range_bytes (rng_low r) rs), of_nat (length rs)))"
    using ack_ranges_loop_eq [OF assms(1), of "rng_high r" "?q + length ?f" lim "buf_write ?b1 ?q ?f" 0]
      assms(2-5) l by (simp add: span_ok_def XQC_MAX_ACK_RANGE_CNT_def ac_simps)
  have w: "buf_write (buf_write ?b1 ?q ?f) (?q + length ?f) (ack_range_bytes (rng_low r) rs)
    = buf_write ?b1 ?q (?f @ ack_range_bytes (rng_low r) rs)"
    using assms(4,5) l by (intro buf_write_append) simp
  have h: "buf_write (buf_write ?b1 ?q (?f @ ack_range_bytes (rng_low r) rs)) (dst + length hdr) [of_nat (length rs)]
    = buf_write buf dst (hdr @ of_nat (length rs) # ?f @ ack_range_bytes (rng_low r) rs)"
    using assms(4,5) by (intro buf_write_hole) simp
  show ?thesis
    using loop w h c by (simp add: ack_body_def u length_vint_bytes [symmetric] Let_def ac_simps)
qed

definition ack_bytes :: "bytes \<Rightarrow> u64 \<Rightarrow> xqc_pktno_range list \<Rightarrow> bytes" where
  "ack_bytes pre delay ranges =
     pre @ vint_bytes (rng_high (hd ranges)) @ vint_bytes delay @ ack_ranges_bytes ranges"

definition ecn_bytes :: "xqc_connection \<Rightarrow> bytes" where
  "ecn_bytes conn = (if simulate_ecn conn then [0, 0, 0] else [])"

lemma gen_ack_frame_eq:
  assumes "rr_inv rr" and "rr_ranges rr \<noteq> []" and "span_ok (rr_ranges rr)" and "po_wf po"
    and "delay = drop_bit e (now - t)"
    and "frame = ack_bytes [if simulate_ecn conn then 3 else 2] delay (rr_ranges rr) @ ecn_bytes conn"
    and "length frame \<le> xqc_get_po_remained_size_with_ack_spc po"
  shows "xqc_gen_ack_frame conn po now e rr t =
    (po_mark XQC_FRAME_ACK (po_put frame po),
     Inr (length frame, length (rr_ranges rr) > 1, rng_high (hd (rr_ranges rr))))"
proof -
  obtain r rs where r: "rr_ranges rr = r # rs" using assms(2) by (cases "rr_ranges rr") auto
  have ok: "ranges_ok (r # rs)" "span_ok (r # rs)" "length (r # rs) \<le> XQC_MAX_ACK_RANGE_CNT"
    using assms(1,3) by (auto simp: rr_inv_def r)
  let ?hdr = "(if simulate_ecn conn then 3 else 2) # vint_bytes (rng_high r) @ vint_bytes delay"
  let ?lim = "po_used_size po + xqc_get_po_remained_size_with_ack_spc po"
  let ?b = "?hdr @ ack_ranges_bytes (r # rs)"
  have fr: "frame = ?b @ ecn_bytes conn" by (simp add: assms(6) ack_bytes_def r)
  have lim: "?lim \<le> length (po_buf po)"
    using assms(4) by (auto simp: po_wf_def xqc_get_po_remained_size_with_ack_spc_def Let_def)
  have body: "ack_body ?lim (po_buf po) (po_used_size po) ?hdr r rs =
    (buf_write (po_buf po) (po_used_size po) ?b, Inr (po_used_size po + length ?b, of_nat (length rs)))"
    using ack_body_eq [OF ok, of "po_used_size po" ?hdr ?lim "po_buf po"] lim assms(7) fr by simp
  have "length rs < 2 ^ 32" using ok(3) by (simp add: XQC_MAX_ACK_RANGE_CNT_def)
  then have gap: "(0 :: u32) < of_nat (length rs) \<longleftrightarrow> rs \<noteq> []"
    by (simp add: word_less_nat_alt unat_of_nat)
  have u: "ucast (ucast (rng_high r - rng_low r) :: u32) = rng_high r - rng_low r"
    using ok(1,2) by (intro ucast_u32_id) (simp add: span_ok_def unat_sub rng_ok_def)
  have e: "buf_write (buf_write (po_buf po) (po_used_size po) ?b) (po_used_size po + length ?b) [0, 0, 0]
    = buf_write (po_buf po) (po_used_size po) (?b @ [0, 0, 0])" if "simulate_ecn conn"
    using assms(7) fr lim that by (intro buf_write_append) (simp add: ecn_bytes_def)
  show ?thesis
    using assms(7) body e gap fr
    by (cases "simulate_ecn conn") (simp_all add: xqc_gen_ack_frame_def r Let_def u length_vint_bytes [symmetric] assms(5) [symmetric]
        ecn_bytes_def po_put_def)
qed

definition mp_ack_delay :: "xqc_packet_out \<Rightarrow> nat \<Rightarrow> u64 \<Rightarrow> u64 \<Rightarrow> u64" where
  "mp_ack_delay po e now t =
     drop_bit e (if po_pkt_pns po = XQC_PNS_INIT \<or> po_pkt_pns po = XQC_PNS_HSK then 0 else now - t)"

lemma gen_ack_mp_frame_eq:
  assumes "rr_inv rr" and "rr_ranges rr \<noteq> []" and "span_ok (rr_ranges rr)" and "po_wf po"
    and "xqc_mp_select_codepoint (multipath_version conn) XQC_TRANS_FRAME_TYPE_MP_ACK0
           XQC_TRANS_FRAME_TYPE_PATH_ACK = Inr ft"
    and "frame = ack_bytes (vint_bytes ft @ vint_bytes pid) (mp_ack_delay po e now t) (rr_ranges rr)"
    and "length frame \<le> xqc_get_po_remained_size_with_ack_spc po"
  shows "xqc_gen_ack_mp_frame conn pid po now e rr t =
    (po_mark XQC_FRAME_ACK_MP (po_put frame po),
     Inr (length frame, length (rr_ranges rr) > 1, rng_high (hd (rr_ranges rr))))"
proof -
  obtain r rs where r: "rr_ranges rr = r # rs" using assms(2) by (cases "rr_ranges rr") auto
  have ok: "ranges_ok (r # rs)" "span_ok (r # rs)" "length (r # rs) \<le> XQC_MAX_ACK_RANGE_CNT"
    using assms(1,3) by (auto simp: rr_inv_def r)
  let ?hdr = "vint_bytes ft @ vint_bytes pid @ vint_bytes (rng_high r) @ vint_bytes (mp_ack_delay po e now t)"
  let ?lim = "po_used_size po + xqc_get_po_remained_size_with_ack_spc po"
  let ?b = "?hdr @ ack_ranges_bytes (r # rs)"
  have fr: "frame = ?b" by (simp add: assms(6) ack_bytes_def r)
  have lim: "?lim \<le> length (po_buf po)"
    using assms(4) by (auto simp: po_wf_def xqc_get_po_remained_size_with_ack_spc_def Let_def)
  have body: "ack_body ?lim (po_buf po) (po_used_size po) ?hdr r rs =
    (buf_write (po_buf po) (po_used_size po) ?b, Inr (po_used_size po + length ?b, of_nat (length rs)))"
    using ack_body_eq [OF ok, of "po_used_size po" ?hdr ?lim "po_buf po"] lim assms(7) fr by simp
  have "length rs < 2 ^ 32" using ok(3) by (simp add: XQC_MAX_ACK_RANGE_CNT_def)
  then have gap: "(0 :: u32) < of_nat (length rs) \<longleftrightarrow> rs \<noteq> []"
    by (simp add: word_less_nat_alt unat_of_nat)
  have u: "ucast (ucast (rng_high r - rng_low r) :: u32) = rng_high r - rng_low r"
    using ok(1,2) by (intro ucast_u32_id) (simp add: span_ok_def unat_sub rng_ok_def)
  show ?thesis
    using assms(7) body gap fr
    by (simp add: xqc_gen_ack_mp_frame_def assms(5) r Let_def u length_vint_bytes [symmetric]
        mp_ack_delay_def [symmetric] po_put_def)
qed

lemma rng_eta [simp]: "\<lparr>rng_low = rng_low r, rng_high = rng_high r\<rparr> = r"
  by simp

lemma rng_okD: "rng_ok r \<Longrightarrow> unat (rng_low r) \<le> unat (rng_high r)" "rng_ok r \<Longrightarrow> unat (rng_high r) < 2 ^ 62"
  by (simp_all add: rng_nat)

lemma rng_ok_MAX:
  assumes "rng_ok r"
  shows "rng_high r \<le> XQC_VINT_MAX" and "rng_high r - rng_low r \<le> XQC_VINT_MAX" and "rng_high r - rng_low r \<le> rng_high r"
proof -
  have "rng_low r \<le> rng_high r" using assms by (simp add: rng_ok_def)
  then have "unat (rng_high r - rng_low r) = unat (rng_high r) - unat (rng_low r)" by (rule unat_sub)
  with rng_okD [OF assms] show "rng_high r \<le> XQC_VINT_MAX" "rng_high r - rng_low r \<le> XQC_VINT_MAX"
    "rng_high r - rng_low r \<le> rng_high r"
    by (simp_all add: unat_VINT_MAX word_le_nat_alt [of "rng_high r - rng_low r" "rng_high r"])
qed

lemma rng_diff_MAX:
  assumes "rng_ok r" and "Suc (unat (rng_high r)) < unat (rng_low p)" and "rng_ok p"
  shows "rng_low p - rng_high r - 2 \<le> XQC_VINT_MAX" and "rng_high r - rng_low r \<le> XQC_VINT_MAX"
  using rng_diff [OF assms(1,2)] rng_okD [OF assms(1)] rng_okD [OF assms(3)] by (simp_all add: unat_VINT_MAX)

lemma parse_ack_ranges_bytes:
  assumes "ranges_ok (p # rs)" and "length acc + length rs \<le> XQC_MAX_ACK_RANGE_CNT"
  shows "parse_ack_ranges conn (length rs) (ack_range_bytes (rng_low p) rs @ b) (rng_low p) acc = (conn, Inr (b, acc @ rs))"
  using assms
proof (induction rs arbitrary: p acc)
  case Nil
  then show ?case by simp
next
  case (Cons r rs)
  have ok: "rng_ok r" "Suc (unat (rng_high r)) < unat (rng_low p)" "rng_ok p"
    using Cons.prems(1) by (auto simp: rng_above_def)
  have "2 \<le> rng_low p" "rng_low p - rng_high r - 2 \<le> rng_low p - 2" "rng_high r - rng_low r \<le> rng_high r"
    using ok rng_diff [OF ok(1,2)] by (auto simp: word_le_nat_alt unat_sub)
  moreover have "rng_high r - (rng_high r - rng_low r) = rng_low r" by simp
  ultimately show ?case
    using Cons.IH [of r "acc @ [r]"] Cons.prems
    by (simp add: rd_vint_bytes rng_diff_MAX [OF ok] rng_diff(3) [OF ok(1,2)] Let_def not_less)
qed

lemma parse_ack_mp_ranges_bytes:
  assumes "ranges_ok (p # rs)" and "Suc (length acc + length rs) \<le> XQC_MAX_ACK_RANGE_CNT"
  shows "parse_ack_mp_ranges (length rs) (ack_range_bytes (rng_low p) rs @ b) (acc @ [p]) = Inr (b, acc @ p # rs)"
  using assms
proof (induction rs arbitrary: p acc)
  case Nil
  then show ?case by simp
next
  case (Cons r rs)
  have ok: "rng_ok r" "Suc (unat (rng_high r)) < unat (rng_low p)" "rng_ok p"
    using Cons.prems(1) by (auto simp: rng_above_def)
  have "rng_high r - (rng_high r - rng_low r) = rng_low r" by simp
  then show ?case
    using Cons.IH [of r "acc @ [p]"] Cons.prems
    by (simp add: rd_vint_bytes rng_diff_MAX [OF ok] rng_diff(3) [OF ok(1,2)] Let_def not_less)
qed

lemma rd_count [wire_simps]: "n < 64 \<Longrightarrow> rd_vint e (of_nat n # p) k = k (of_nat n) p"
  by (simp add: rd_vint_small unat_of_nat unsigned_of_nat take_bit_nat_eq_self)

lemma parse_ack_bytes:
  assumes "ranges_ok (r # rs)" and "length (r # rs) \<le> XQC_MAX_ACK_RANGE_CNT" and "delay \<le> XQC_VINT_MAX"
    and "pi_rest pi = ack_bytes [if simulate_ecn c then 3 else 2] delay (r # rs) @ ecn_bytes c @ b"
  shows "xqc_parse_ack_frame pi conn = (conn, Inr (pi_done XQC_FRAME_ACK b pi,
     \<lparr>ai_pns = pi_pkt_pns pi, ai_path_id = 0, ai_ranges = r # rs,
      ai_ack_delay = push_bit (unat (remote_ack_delay_exponent conn)) delay,
      ai_largest_acked = rng_high r\<rparr>))"
proof -
  have n: "length rs < 64" using assms(2) by (simp add: XQC_MAX_ACK_RANGE_CNT_def)
  have ok: "rng_ok r" using assms(1) by simp
  note r = rng_ok_MAX [OF this]
  have "rng_high r - (rng_high r - rng_low r) = rng_low r" by simp
  moreover have "unat (of_nat (length rs) :: u64) = length rs" using n by (simp add: unat_of_nat)
  ultimately show ?thesis
    using parse_ack_ranges_bytes [OF assms(1), of "[r]" conn "ecn_bytes c @ b"] assms(2,3) n r
    by (cases "simulate_ecn c") (simp_all add: xqc_parse_ack_frame_def assms(4) ack_bytes_def rd_vint_small rd_vint_bytes rd_count not_less
        ecn_bytes_def Let_def)
qed

lemma parse_ack_mp_bytes:
  assumes "ranges_ok (r # rs)" and "length (r # rs) \<le> XQC_MAX_ACK_RANGE_CNT" and "delay \<le> XQC_VINT_MAX"
    and "ft \<le> XQC_VINT_MAX" and "pid \<le> XQC_VINT_MAX"
    and "pi_rest pi = ack_bytes (vint_bytes ft @ vint_bytes pid) delay (r # rs) @ b"
  shows "xqc_parse_ack_mp_frame pi conn info = Inr (pi_done XQC_FRAME_ACK_MP b pi, pid,
     info\<lparr>ai_pns := pi_pkt_pns pi, ai_path_id := pid, ai_ranges := r # rs,
      ai_ack_delay := push_bit (unat (remote_ack_delay_exponent conn)) delay\<rparr>)"
proof -
  have n: "length rs < 64" using assms(2) by (simp add: XQC_MAX_ACK_RANGE_CNT_def)
  have ok: "rng_ok r" using assms(1) by simp
  note r = rng_ok_MAX [OF this]
  have "rng_high r - (rng_high r - rng_low r) = rng_low r" by simp
  moreover have "unat (of_nat (length rs) :: u64) = length rs" using n by (simp add: unat_of_nat)
  ultimately show ?thesis
    using parse_ack_mp_ranges_bytes [OF assms(1), of "[]" b] assms(2-5) n r
    by (simp add: xqc_parse_ack_mp_frame_def assms(6) ack_bytes_def rd_vint_bytes rd_count not_less)
qed

section \<open>The ranges of a parsed frame\<close>

lemma parse_ack_ranges_ok:
  assumes "parse_ack_ranges conn n p prev acc = (conn', Inr (p', ranges))"
    and "ranges_ok acc" and "acc \<noteq> []" and "length acc \<le> XQC_MAX_ACK_RANGE_CNT"
    and "length acc < XQC_MAX_ACK_RANGE_CNT \<longrightarrow> prev = rng_low (last acc)"
  shows "ranges_ok ranges \<and> length ranges \<le> XQC_MAX_ACK_RANGE_CNT \<and> (\<exists>more. ranges = acc @ more) \<and> conn' = conn
    \<and> suffix p' p"
  using assms
proof (induction n arbitrary: p prev acc)
  case 0
  then show ?case by simp
next
  case (Suc n)
  from Suc.prems(1) obtain gap rng p1 p2 where s: "strict_suffix p1 p" "strict_suffix p2 p1"
    and chk: "\<not> (prev < 2 \<or> gap > prev - 2)" "\<not> rng > prev - gap - 2"
    and rec: "parse_ack_ranges conn n p2 (prev - gap - 2 - rng)
       (if length acc < XQC_MAX_ACK_RANGE_CNT
        then acc @ [\<lparr>rng_low = prev - gap - 2 - rng, rng_high = prev - gap - 2\<rparr>] else acc) = (conn', Inr (p', ranges))"
    by (auto simp: Let_def elim!: rd_vintE split: if_splits)
  let ?r = "\<lparr>rng_low = prev - gap - 2 - rng, rng_high = prev - gap - 2\<rparr>"
  have suf: "suffix p2 p" using s by (meson suffix_order.less_imp_le suffix_order.trans)
  have "unat (prev - gap - 2) = unat prev - unat gap - 2" "unat gap + 2 \<le> unat prev"
  proof -
    have le: "2 \<le> prev" "gap \<le> prev - 2" using chk by (simp_all add: not_less)
    then have "unat (prev - 2) = unat prev - 2" by (simp add: unat_sub)
    moreover have "unat gap \<le> unat (prev - 2)" "2 \<le> unat prev" using le by (simp_all add: word_le_nat_alt)
    ultimately show "unat gap + 2 \<le> unat prev" by simp
    have "prev - gap - 2 = prev - 2 - gap" by simp
    then show "unat (prev - gap - 2) = unat prev - unat gap - 2"
      using le \<open>unat (prev - 2) = unat prev - 2\<close> by (simp only: unat_sub)
  qed
  moreover have "unat (prev - gap - 2 - rng) = unat (prev - gap - 2) - unat rng" "unat rng \<le> unat (prev - gap - 2)"
    using chk(2) by (simp_all add: unat_sub not_less word_le_nat_alt)
  ultimately have r: "rng_ok ?r \<and> Suc (unat (rng_high ?r)) < unat prev" if "unat prev < 2 ^ 62"
    using that by (auto simp: rng_nat)
  have acc': "ranges_ok (acc @ [?r])" if l: "length acc < XQC_MAX_ACK_RANGE_CNT"
  proof -
    have prev: "prev = rng_low (last acc)" using l Suc.prems(5) by simp
    obtain ini z where acc: "acc = ini @ [z]" using Suc.prems(3) by (cases acc rule: rev_cases) auto
    then have z: "rng_ok z" "prev = rng_low z" using Suc.prems(2) prev by auto
    from rng_okD [OF z(1)] z(2) r have r': "rng_ok ?r" "rng_above z ?r" by (auto simp: rng_above_def)
    have "rng_above x ?r" if "x \<in> set ini" for x
      using that Suc.prems(2) acc r' z by (fastforce simp: rng_nat)
    with r' Suc.prems(2) show ?thesis by (auto simp: acc)
  qed
  show ?case
  proof (cases "length acc < XQC_MAX_ACK_RANGE_CNT")
    case True
    with rec have rec: "parse_ack_ranges conn n p2 (rng_low ?r) (acc @ [?r]) = (conn', Inr (p', ranges))" by simp
    from Suc.IH [OF rec acc'] True suf show ?thesis by (auto intro: suffix_order.trans)
  next
    case False
    with rec have rec: "parse_ack_ranges conn n p2 (prev - gap - 2 - rng) acc = (conn', Inr (p', ranges))" by simp
    from Suc.IH [OF rec Suc.prems(2,3,4)] False suf show ?thesis by (auto intro: suffix_order.trans)
  qed
qed

lemma parse_ack_ranges_fail:
  "parse_ack_ranges conn n p prev acc = (conn', Inl e) \<Longrightarrow>
   e = XQC_EVINTREAD \<and> conn' = conn
   \<or> e = XQC_EILLEGAL_FRAME \<and> conn' = XQC_CONN_ERR conn TRA_FRAME_ENCODING_ERROR"
proof (induction n arbitrary: p prev acc)
  case 0
  then show ?case by simp
next
  case (Suc n)
  from Suc.prems show ?case by (auto simp: rd_vint_def Let_def split: option.splits if_splits dest!: Suc.IH)
qed

section \<open>The generators stay inside the packet\<close>

lemma buf_write_frame:
  assumes "off \<le> dst" and "dst + length bs \<le> length buf"
  shows "take off (buf_write buf dst bs) = take off buf"
  using assms by (simp add: buf_write_def)

lemma ack_ranges_loop_bounds:
  assumes "ack_ranges_loop lim buf dst prev cnt rs = (buf', x)" and "off \<le> dst" and "dst \<le> lim" and "lim \<le> length buf"
  shows "length buf' = length buf \<and> take off buf' = take off buf
    \<and> (\<forall>dst' c. x = Inr (dst', c) \<longrightarrow> dst \<le> dst' \<and> dst' \<le> lim)"
  using assms
proof (induction rs arbitrary: buf dst prev cnt)
  case Nil
  then show ?case by auto
next
  case (Cons r rs)
  define a b where "a = vint_bytes (ucast (ucast (prev - rng_high r - 2) :: u32))"
    and "b = vint_bytes (ucast (ucast (rng_high r - rng_low r) :: u32))"
  let ?buf = "buf_write (buf_write buf dst a) (dst + length a) b"
  show ?case
  proof (cases "dst + (length a + length b) > lim")
    case True
    then show ?thesis using Cons.prems by (auto simp: Let_def a_def b_def length_vint_bytes)
  next
    case False
    then have w: "length (buf_write buf dst a) = length buf" "take off (buf_write buf dst a) = take off buf"
      "length ?buf = length buf" "take off ?buf = take off buf"
      using Cons.prems(2,4) by (simp_all add: buf_write_frame)
    have "(?buf, Inr (dst + length a + length b, cnt + 1)) = (buf', x)
      \<or> ack_ranges_loop lim ?buf (dst + length a + length b) (rng_low r) (cnt + 1) rs = (buf', x)"
      using Cons.prems(1) False by (auto simp: Let_def a_def b_def length_vint_bytes split: if_splits)
    then show ?thesis
    proof
      assume "ack_ranges_loop lim ?buf (dst + length a + length b) (rng_low r) (cnt + 1) rs = (buf', x)"
      from Cons.IH [OF this] show ?thesis using Cons.prems(2-4) False w by auto
    qed (use False w in auto)
  qed
qed

lemma ack_body_bounds:
  assumes "ack_body lim buf dst hdr r rs = (buf', x)" and "lim \<le> length buf"
    and "dst + length hdr + 1 + length (vint_bytes (ucast (ucast (rng_high r - rng_low r) :: u32))) \<le> lim"
  shows "length buf' = length buf \<and> take dst buf' = take dst buf
    \<and> (\<forall>dst' c. x = Inr (dst', c) \<longrightarrow> dst \<le> dst' \<and> dst' \<le> lim)"
proof -
  define f where "f = vint_bytes (ucast (ucast (rng_high r - rng_low r) :: u32))"
  let ?p = "dst + length hdr"
  have A: "?p + 1 + length f \<le> lim" using assms(3) unfolding f_def .
  define b2 where "b2 = buf_write (buf_write buf dst hdr) (?p + 1) f"
  obtain b3 y where l: "ack_ranges_loop lim b2 (?p + 1 + length f) (rng_low r) 0 rs = (b3, y)" by force
  have b2: "length b2 = length buf" "take dst b2 = take dst buf"
    using A assms(2) by (simp_all add: b2_def buf_write_frame)
  have b3: "length b3 = length buf \<and> take dst b3 = take dst buf
    \<and> (\<forall>dst' c. y = Inr (dst', c) \<longrightarrow> ?p + 1 + length f \<le> dst' \<and> dst' \<le> lim)"
    using ack_ranges_loop_bounds [OF l, of dst] A assms(2) b2 by simp
  have x: "(case y of Inl e \<Rightarrow> (b3, Inl e)
    | Inr (dst', c) \<Rightarrow> (buf_write b3 ?p (xqc_vint_write (ucast c) 0 (Suc 0)), Inr (dst', c))) = (buf', x)"
    using assms(1) l by (simp add: ack_body_def Let_def f_def length_vint_bytes b2_def)
  have one: "length (xqc_vint_write v 0 (Suc 0)) = 1" for v by (simp add: xqc_vint_write_def)
  show ?thesis
  proof (cases y)
    case (Inl e)
    with x b3 show ?thesis by auto
  next
    case (Inr yy)
    obtain d c where "yy = (d, c)" by (cases yy)
    with x b3 Inr A assms(2) show ?thesis by (auto simp: buf_write_frame one)
  qed
qed

lemma parse_ack_ranges_conn:
  "parse_ack_ranges conn n p prev acc = (conn', Inr x) \<Longrightarrow> conn' = conn"
proof (induction n arbitrary: p prev acc)
  case (Suc n)
  from Suc.prems show ?case by (auto simp: rd_vint_def Let_def split: option.splits if_splits dest!: Suc.IH)
qed simp

lemma parse_ack_fail:
  assumes "xqc_parse_ack_frame pi conn = (conn', Inl e)"
  shows "e = XQC_EVINTREAD \<and> conn' = conn
        \<or> e = XQC_EILLEGAL_FRAME \<and> conn' = XQC_CONN_ERR conn TRA_FRAME_ENCODING_ERROR"
  using assms
  by (auto simp: xqc_parse_ack_frame_def rd_vint_def Let_def split: option.splits if_splits prod.splits sum.splits
      dest!: parse_ack_ranges_fail parse_ack_ranges_conn)

lemma parse_ack_success:
  assumes "xqc_parse_ack_frame pi conn = (conn', Inr (pi', info))"
  obtains largest first n p0 p ranges where "strict_suffix p0 (pi_rest pi)" and "largest \<le> XQC_VINT_MAX"
    and "first \<le> largest" and "ai_ranges info = ranges" and "ai_largest_acked info = largest"
    and "parse_ack_ranges conn n p0 (largest - first) [\<lparr>rng_low = largest - first, rng_high = largest\<rparr>] = (conn', Inr (p, ranges))"
    and "suffix (pi_rest pi') p"
proof -
  from assms show thesis
    by (auto simp: xqc_parse_ack_frame_def Let_def elim!: rd_vintE split: if_splits prod.splits sum.splits)
      (rule that [rotated 5], assumption,
       (simp add: not_less | meson suffix_order.less_trans suffix_order.less_imp_le suffix_order.order_refl)+)+
qed

section \<open>Properties\<close>

text \<open>C11: What an endpoint has received is what its peer reads: the ACK frame made from a
  well-formed, non-empty receive record, written with enough room, is parsed into exactly the ranges of the record, with its
  largest number and the delay scaled by the exponent. The distances in the record must
  fit the 32-bit variables of the generator.\<close>

theorem ack_roundtrip:
  assumes "rr_inv rr" and "rr_ranges rr \<noteq> []" and "span_ok (rr_ranges rr)" and "po_wf po"
    and "drop_bit e (now - t) \<le> XQC_VINT_MAX"
    and "length (ack_bytes [2] (drop_bit e (now - t)) (rr_ranges rr) @ ecn_bytes conn)
         \<le> xqc_get_po_remained_size_with_ack_spc po"
  shows "\<exists>po' n info. xqc_gen_ack_frame conn po now e rr t =
      (po', Inr (n, length (rr_ranges rr) > 1, rng_high (hd (rr_ranges rr))))
    \<and> xqc_parse_ack_frame (pi\<lparr>pi_rest := po_written po' n @ b\<rparr>) peer =
        (peer, Inr (pi_done XQC_FRAME_ACK b pi, info))
    \<and> ai_ranges info = rr_ranges rr \<and> ranges_set (ai_ranges info) = rr_set rr
    \<and> ai_largest_acked info = rng_high (hd (rr_ranges rr))
    \<and> ai_ack_delay info = push_bit (unat (remote_ack_delay_exponent peer)) (drop_bit e (now - t))"
proof -
  let ?d = "drop_bit e (now - t)"
  let ?frame = "ack_bytes [if simulate_ecn conn then 3 else 2] ?d (rr_ranges rr) @ ecn_bytes conn"
  have len: "length ?frame \<le> xqc_get_po_remained_size_with_ack_spc po" using assms(6) by (simp add: ack_bytes_def)
  obtain r rs where r: "rr_ranges rr = r # rs" using assms(2) by (cases "rr_ranges rr") auto
  have ok: "ranges_ok (r # rs)" "length (r # rs) \<le> XQC_MAX_ACK_RANGE_CNT"
    using assms(1) by (auto simp: rr_inv_def r)
  have used: "po_used_size po \<le> length (po_buf po)" using assms(4) by (simp add: po_wf_def)
  have d: "pi_done XQC_FRAME_ACK b (pi\<lparr>pi_rest := x\<rparr>) = pi_done XQC_FRAME_ACK b pi" for x
    by (simp add: pi_done_def)
  show ?thesis
    using gen_ack_frame_eq [OF assms(1-4) refl refl len]
      parse_ack_bytes [OF ok assms(5), of "pi\<lparr>pi_rest := ?frame @ b\<rparr>" conn b peer] used
    by (simp add: r d rr_set_def)
qed

text \<open>C29: Whatever bytes a peer sends, \<open>xqc_parse_ack_frame\<close> either reports a truncated varint,
  or refuses a frame whose ranges would reach below packet number 0 and closes the connection with a FRAME\_ENCODING\_ERROR, or
  returns between one and 64 ranges that are non-empty, descending, separated by gaps and headed by the
  largest acknowledged number, with the rest of the packet behind the frame.\<close>

theorem ack_parse_wellformed:
  assumes "xqc_parse_ack_frame pi conn = (conn', res)"
  shows "case res of
      Inl e \<Rightarrow> e = XQC_EVINTREAD \<and> conn' = conn
        \<or> e = XQC_EILLEGAL_FRAME \<and> conn' = XQC_CONN_ERR conn TRA_FRAME_ENCODING_ERROR
    | Inr (pi', info) \<Rightarrow> conn' = conn \<and> strict_suffix (pi_rest pi') (pi_rest pi)
        \<and> ranges_ok (ai_ranges info) \<and> ai_ranges info \<noteq> []
        \<and> length (ai_ranges info) \<le> XQC_MAX_ACK_RANGE_CNT
        \<and> rng_high (hd (ai_ranges info)) = ai_largest_acked info"
proof (cases res)
  case (Inl e)
  with parse_ack_fail assms show ?thesis by simp
next
  case (Inr x)
  obtain pi' info where x: "x = (pi', info)" by (cases x)
  obtain largest first n p0 p where s: "strict_suffix p0 (pi_rest pi)" "suffix (pi_rest pi') p"
    and l: "largest \<le> XQC_VINT_MAX" "first \<le> largest" "ai_largest_acked info = largest"
    and r: "parse_ack_ranges conn n p0 (largest - first) [\<lparr>rng_low = largest - first, rng_high = largest\<rparr>]
      = (conn', Inr (p, ai_ranges info))"
    using parse_ack_success [of pi conn conn' pi' info] assms Inr x by metis
  have lt: "unat largest < 2 ^ 62" using l(1) by (simp add: unat_VINT_MAX)
  have "unat (largest - first) = unat largest - unat first" using l(2) by (rule unat_sub)
  then have "ranges_ok [\<lparr>rng_low = largest - first, rng_high = largest\<rparr>]"
    using lt by (simp add: rng_nat)
  from parse_ack_ranges_ok [OF r this] have "ranges_ok (ai_ranges info)" "suffix p p0" "conn' = conn"
    "length (ai_ranges info) \<le> XQC_MAX_ACK_RANGE_CNT"
    "\<exists>more. ai_ranges info = \<lparr>rng_low = largest - first, rng_high = largest\<rparr> # more"
    by (auto simp: XQC_MAX_ACK_RANGE_CNT_def)
  moreover from this s have "strict_suffix (pi_rest pi') (pi_rest pi)"
    by (meson suffix_order.le_less_trans suffix_order.trans)
  ultimately show ?thesis using Inr x l(3) by auto
qed

text \<open>Neither ACK generator writes outside the packet: whatever the record holds and
  whether the call succeeds or not, the buffer keeps its size and the bytes
  in front of \<open>po_used_size\<close>, and the size reported fits the room that the packet had for ACKs.\<close>

theorem ack_gen_in_bounds:
  assumes "po_wf po"
    and "xqc_gen_ack_frame conn po now e rr t = (po', res)
       \<or> xqc_gen_ack_mp_frame conn pid po now e rr t = (po', res)"
  shows "length (po_buf po') = length (po_buf po)
    \<and> take (po_used_size po) (po_buf po') = take (po_used_size po) (po_buf po)
    \<and> (case res of Inl _ \<Rightarrow> True | Inr (n, _) \<Rightarrow> n \<le> xqc_get_po_remained_size_with_ack_spc po)"
proof -
  let ?dst = "po_used_size po" and ?room = "xqc_get_po_remained_size_with_ack_spc po"
  have lim: "?dst + ?room \<le> length (po_buf po)"
    using assms(1) by (auto simp: po_wf_def xqc_get_po_remained_size_with_ack_spc_def Let_def)
  have body: "length buf = length (po_buf po) \<and> take ?dst buf = take ?dst (po_buf po)
      \<and> (\<forall>d c. x = Inr (d, c) \<longrightarrow> ?dst \<le> d \<and> d \<le> ?dst + ?room)"
    if "ack_body (?dst + ?room) (po_buf po) ?dst hdr r rs = (buf, x)"
      and "\<not> ?dst + (length hdr + 1 + xqc_vint_len (xqc_vint_get_2bit (ucast (ucast (rng_high r - rng_low r) :: u32)))) > ?dst + ?room"
    for buf x hdr r rs
    using ack_body_bounds [OF that(1) lim] that(2) by (simp add: length_vint_bytes)
  have ecn: "length (buf_write buf d [0, 0, 0]) = length (po_buf po) \<and> take ?dst (buf_write buf d [0, 0, 0]) = take ?dst (po_buf po)"
    if "length buf = length (po_buf po)" "take ?dst buf = take ?dst (po_buf po)" "?dst \<le> d" "d + 3 \<le> ?dst + ?room" for buf d
    using that lim by (simp add: buf_write_frame)
  from assms(2) show ?thesis
  proof
    assume "xqc_gen_ack_frame conn po now e rr t = (po', res)"
    then show ?thesis
      by (auto simp: xqc_gen_ack_frame_def Let_def length_vint_bytes ecn dest!: body split: list.splits if_splits prod.splits sum.splits)
  next
    assume "xqc_gen_ack_mp_frame conn pid po now e rr t = (po', res)"
    then show ?thesis
      by (auto simp: xqc_gen_ack_mp_frame_def Let_def length_vint_bytes dest!: body split: list.splits if_splits prod.splits sum.splits)
  qed
qed

text \<open>C30: The PATH\_ACK frame of a receive record carries the path identifier and exactly the ranges of
  the record to the peer, in both negotiable versions of the multipath extension.\<close>

theorem ack_mp_roundtrip:
  assumes "rr_inv rr" and "rr_ranges rr \<noteq> []" and "span_ok (rr_ranges rr)" and "po_wf po"
    and "multipath_version conn = XQC_MULTIPATH_3E \<or> multipath_version conn = XQC_MULTIPATH_10"
    and "mp_ack_delay po e now t \<le> XQC_VINT_MAX" and "pid \<le> XQC_VINT_MAX"
    and "4 + length (ack_bytes (vint_bytes pid) (mp_ack_delay po e now t) (rr_ranges rr))
         \<le> xqc_get_po_remained_size_with_ack_spc po"
  shows "\<exists>po' n info'. xqc_gen_ack_mp_frame conn pid po now e rr t =
      (po', Inr (n, length (rr_ranges rr) > 1, rng_high (hd (rr_ranges rr))))
    \<and> xqc_parse_ack_mp_frame (pi\<lparr>pi_rest := po_written po' n @ b\<rparr>) peer info =
        Inr (pi_done XQC_FRAME_ACK_MP b pi, pid, info')
    \<and> ai_path_id info' = pid \<and> ai_ranges info' = rr_ranges rr \<and> ranges_set (ai_ranges info') = rr_set rr
    \<and> ai_ack_delay info' = push_bit (unat (remote_ack_delay_exponent peer)) (mp_ack_delay po e now t)"
proof -
  obtain ft where ft: "xqc_mp_select_codepoint (multipath_version conn) XQC_TRANS_FRAME_TYPE_MP_ACK0
      XQC_TRANS_FRAME_TYPE_PATH_ACK = Inr ft" "ft \<le> XQC_VINT_MAX" "length (vint_bytes ft) \<le> 4"
    using assms(5) by (auto simp: xqc_mp_select_codepoint_def XQC_MULTIPATH_3E_def XQC_MULTIPATH_10_def
        XQC_TRANS_FRAME_TYPE_MP_ACK0_def XQC_TRANS_FRAME_TYPE_PATH_ACK_def unat_VINT_MAX length_vint_bytes
        xqc_vint_len_def xqc_vint_get_2bit_def)
  let ?frame = "ack_bytes (vint_bytes ft @ vint_bytes pid) (mp_ack_delay po e now t) (rr_ranges rr)"
  have len: "length ?frame \<le> xqc_get_po_remained_size_with_ack_spc po"
    using assms(8) ft(3) by (simp add: ack_bytes_def)
  obtain r rs where r: "rr_ranges rr = r # rs" using assms(2) by (cases "rr_ranges rr") auto
  have ok: "ranges_ok (r # rs)" "length (r # rs) \<le> XQC_MAX_ACK_RANGE_CNT"
    using assms(1) by (auto simp: rr_inv_def r)
  have used: "po_used_size po \<le> length (po_buf po)" using assms(4) by (simp add: po_wf_def)
  have d: "pi_done XQC_FRAME_ACK_MP b (pi\<lparr>pi_rest := x\<rparr>) = pi_done XQC_FRAME_ACK_MP b pi" for x
    by (simp add: pi_done_def)
  show ?thesis
    using gen_ack_mp_frame_eq [OF assms(1-4) ft(1) refl len]
      parse_ack_mp_bytes [OF ok assms(6) ft(2) assms(7), of "pi\<lparr>pi_rest := ?frame @ b\<rparr>" b peer info] used
    by (simp add: r d rr_set_def)
qed

text \<open>The two parsers treat a negative packet number differently. On a frame whose first range is longer than the largest
  acknowledged number, \<open>xqc_parse_ack_frame\<close> closes the connection, while
  \<open>xqc_parse_ack_mp_frame\<close> succeeds and hands on a range whose lower end has wrapped
  around above its upper end.\<close>

theorem ack_mp_negative_range:
  assumes "largest < first" and "first \<le> XQC_VINT_MAX" and "delay \<le> XQC_VINT_MAX" and "pid \<le> XQC_VINT_MAX"
    and "ft \<le> XQC_VINT_MAX"
  shows "xqc_parse_ack_frame (pi\<lparr>pi_rest := 2 # vint_bytes largest @ vint_bytes delay @ 0 # vint_bytes first @ b\<rparr>) conn
      = (XQC_CONN_ERR conn TRA_FRAME_ENCODING_ERROR, Inl XQC_EILLEGAL_FRAME)
    \<and> (\<exists>pi' info' r. xqc_parse_ack_mp_frame (pi\<lparr>pi_rest :=
          vint_bytes ft @ vint_bytes pid @ vint_bytes largest @ vint_bytes delay @ 0 # vint_bytes first @ b\<rparr>) conn info
        = Inr (pi', pid, info') \<and> ai_ranges info' = [r] \<and> rng_high r = largest \<and> rng_high r < rng_low r)"
proof -
  have l: "largest \<le> XQC_VINT_MAX" using assms(1,2) by simp
  have "unat largest < unat first" using assms(1) by (simp add: word_less_nat_alt)
  moreover have "unat first < 2 ^ 62" using assms(2) by (simp add: unat_VINT_MAX)
  ultimately have "largest < largest - first"
    by (simp add: word_less_nat_alt unat_sub_if')
  then show ?thesis
    using assms l rd_count [of 0]
    by (simp add: xqc_parse_ack_frame_def xqc_parse_ack_mp_frame_def rd_vint_small rd_vint_bytes)
qed

section \<open>Witnesses\<close>

definition rr_example :: xqc_recv_record where
  "rr_example = \<lparr>rr_ranges = [\<lparr>rng_low = 108, rng_high = 110\<rparr>, \<lparr>rng_low = 105, rng_high = 106\<rparr>,
     \<lparr>rng_low = 100, rng_high = 102\<rparr>], rr_del_from = 0, rr_node_count = 3\<rparr>"

definition ai_example :: xqc_ack_info where
  "ai_example = \<lparr>ai_pns = XQC_PNS_INIT, ai_path_id = 0, ai_ranges = [], ai_ack_delay = 0, ai_largest_acked = 0\<rparr>"

lemma rr_example_ok: "rr_inv rr_example" "rr_ranges rr_example \<noteq> []" "span_ok (rr_ranges rr_example)"
  by (simp_all add: rr_example_def rr_inv_def rng_nat span_ok_def XQC_MAX_ACK_RANGE_CNT_def)

lemma rr_example_ranges: "rr_ranges rr_example = [\<lparr>rng_low = 108, rng_high = 110\<rparr>, \<lparr>rng_low = 105, rng_high = 106\<rparr>,
     \<lparr>rng_low = 100, rng_high = 102\<rparr>]"
  by (simp add: rr_example_def)

lemma po_example_ack_room: "xqc_get_po_remained_size_with_ack_spc po_example = 1186"
  by (simp add: po_example_def xqc_get_po_remained_size_with_ack_spc_def XQC_ACK_SPACE_def XQC_MSS_def)

lemmas vint_len_simps = length_vint_bytes xqc_vint_len_def xqc_vint_get_2bit_def

theorem ack_roundtrip_witness:
  "\<exists>po' n info. xqc_gen_ack_frame conn_example po_example 2000 3 rr_example 1000 = (po', Inr (n, True, 110))
    \<and> xqc_parse_ack_frame (pi_example\<lparr>pi_rest := po_written po' n @ [1]\<rparr>) conn_example =
        (conn_example, Inr (pi_done XQC_FRAME_ACK [1] pi_example, info))
    \<and> ai_ranges info = [\<lparr>rng_low = 108, rng_high = 110\<rparr>, \<lparr>rng_low = 105, rng_high = 106\<rparr>,
        \<lparr>rng_low = 100, rng_high = 102\<rparr>]"
proof -
  have d: "drop_bit 3 (2000 - 1000 :: u64) = 125" by (simp add: drop_bit_eq_div)
  have "drop_bit 3 (2000 - 1000 :: u64) \<le> XQC_VINT_MAX" unfolding d by (simp add: unat_VINT_MAX)
  moreover have "length (ack_bytes [2] (drop_bit 3 (2000 - 1000)) (rr_ranges rr_example) @ ecn_bytes conn_example)
      \<le> xqc_get_po_remained_size_with_ack_spc po_example"
    unfolding d po_example_ack_room
    by (simp add: ack_bytes_def rr_example_def ecn_bytes_def conn_example_def vint_len_simps)
  ultimately show ?thesis
    using ack_roundtrip [OF rr_example_ok po_example_wf, where e = 3 and now = 2000 and t = 1000 and conn = conn_example
        and pi = pi_example and b = "[1]" and peer = conn_example]
    by (auto simp: rr_example_ranges)
qed

theorem ack_parse_wellformed_witness:
  "\<exists>pi' info. xqc_parse_ack_frame (pi_example\<lparr>pi_rest := [2, 10, 0, 1, 2, 3, 1, 1]\<rparr>) conn_example =
     (conn_example, Inr (pi', info)) \<and> ranges_ok (ai_ranges info) \<and> pi_rest pi' = [1]"
proof -
  obtain pi' info where e: "xqc_parse_ack_frame (pi_example\<lparr>pi_rest := [2, 10, 0, 1, 2, 3, 1, 1]\<rparr>) conn_example =
     (conn_example, Inr (pi', info))" "pi_rest pi' = [1]"
    by (simp add: xqc_parse_ack_frame_def rd_vint_small XQC_MAX_ACK_RANGE_CNT_def Let_def)
  from ack_parse_wellformed [OF e(1)] e show ?thesis by auto
qed

theorem ack_gen_in_bounds_witness:
  "length (po_buf (fst (xqc_gen_ack_frame conn_example po_example 2000 3 rr_example 1000))) = length (po_buf po_example)"
  using ack_gen_in_bounds [OF po_example_wf, of conn_example 2000 3 rr_example 1000
      "fst (xqc_gen_ack_frame conn_example po_example 2000 3 rr_example 1000)"
      "snd (xqc_gen_ack_frame conn_example po_example 2000 3 rr_example 1000)" 0] by simp

theorem ack_mp_roundtrip_witness:
  "\<exists>po' n info'. xqc_gen_ack_mp_frame conn_example 5 po_example 2000 3 rr_example 1000 = (po', Inr (n, True, 110))
    \<and> xqc_parse_ack_mp_frame (pi_example\<lparr>pi_rest := po_written po' n @ [1]\<rparr>) conn_example ai_example =
        Inr (pi_done XQC_FRAME_ACK_MP [1] pi_example, 5, info') \<and> ai_path_id info' = 5"
proof -
  have d: "mp_ack_delay po_example 3 2000 1000 = 125" by (simp add: mp_ack_delay_def po_example_def drop_bit_eq_div)
  have "mp_ack_delay po_example 3 2000 1000 \<le> XQC_VINT_MAX" "(5 :: u64) \<le> XQC_VINT_MAX"
    unfolding d by (simp_all add: unat_VINT_MAX)
  moreover have "4 + length (ack_bytes (vint_bytes 5) (mp_ack_delay po_example 3 2000 1000) (rr_ranges rr_example))
      \<le> xqc_get_po_remained_size_with_ack_spc po_example"
    unfolding d po_example_ack_room by (simp add: ack_bytes_def rr_example_def vint_len_simps)
  ultimately show ?thesis
    using ack_mp_roundtrip [OF rr_example_ok po_example_wf, where e = 3 and now = 2000 and t = 1000 and conn = conn_example
        and pid = 5 and pi = pi_example and b = "[1]" and peer = conn_example and info = ai_example]
    by (auto simp: rr_example_ranges conn_example_def [THEN arg_cong [of _ _ multipath_version]] XQC_MULTIPATH_3E_def)
qed

theorem ack_mp_negative_range_witness:
  "\<exists>pi' info' r. xqc_parse_ack_mp_frame (pi_example\<lparr>pi_rest :=
       vint_bytes 0x3e @ vint_bytes 0 @ vint_bytes 5 @ vint_bytes 0 @ 0 # vint_bytes 9 @ []\<rparr>) conn_example ai_example
     = Inr (pi', 0, info') \<and> ai_ranges info' = [r] \<and> rng_high r < rng_low r"
  using ack_mp_negative_range [where largest = 5 and first = 9 and delay = 0 and pid = 0 and ft = "0x3e" and pi = pi_example
      and b = "[]" and conn = conn_example and info = ai_example]
  by (auto simp: unat_VINT_MAX)

end
