(* ===== verification/Stream_Frame.thy ===== *)
theory Stream_Frame
  imports Frame_Roundtrip
begin

text \<open>
  STREAM frames of src/transport/xqc_frame_parser.c. \<open>xqc_gen_stream_frame\<close> either appends the data to
  the STREAM frame at the end of the packet, patching its Length field and its FIN bit in place,
  or starts a new frame; \<open>xqc_parse_stream_frame\<close> is the receiver.

  Sizes are natural numbers, except \<open>n_avail\<close>, which is a \<open>ssize_t\<close> and may be negative: the
  comparisons of the unsigned \<open>size\<close> with it convert it to an unsigned number.
\<close>

section \<open>Generator\<close>

text \<open>The test in front of the combining code, \<open>idx\<close> being \<open>po_stream_frames_idx\<close>.\<close>

definition stream_can_combine :: "xqc_packet_out \<Rightarrow> u64 \<Rightarrow> u64 \<Rightarrow> bool" where
  "stream_can_combine po stream_id offset \<longleftrightarrow>
     (let idx = po_stream_frames_idx po; prev = po_stream_frames po ! (idx - 1)
      in idx > 0 \<and> po_frame_types po = XQC_FRAME_BIT XQC_FRAME_STREAM
         \<and> ps_stream_id prev = stream_id
         \<and> ps_offset prev + ucast (ps_length prev) = offset
         \<and> ps_length_offset prev > 0
         \<and> po_buf po ! ps_length_offset prev AND 0xC0 = 0x40)"

text \<open>The combining code: \<open>memcpy\<close> of the data, the new Length, and the FIN bit in the type byte.\<close>

definition stream_append :: "xqc_packet_out \<Rightarrow> bytes \<Rightarrow> xqc_packet_out" where
  "stream_append po app =
     (let idx = po_stream_frames_idx po - 1;
          prev = po_stream_frames po ! idx;
          buf = buf_write (po_buf po) (po_used_size po) app;
          buf = buf_write buf (ps_length_offset prev)
                  (xqc_vint_write (ucast (ps_length prev) + of_nat (length app)) 1 2)
      in po\<lparr>po_buf := buf, po_stream_frames := (po_stream_frames po)
              [idx := prev\<lparr>ps_length := ps_length prev + of_nat (length app)\<rparr>]\<rparr>)"

definition stream_set_fin :: "xqc_packet_out \<Rightarrow> xqc_packet_out" where
  "stream_set_fin po =
     (let idx = po_stream_frames_idx po - 1;
          prev = po_stream_frames po ! idx
      in po\<lparr>po_buf := (po_buf po)[ps_type_offset prev := po_buf po ! ps_type_offset prev OR 0x01],
            po_stream_frames := (po_stream_frames po)[idx := prev\<lparr>ps_has_fin := True\<rparr>]\<rparr>)"

definition stream_combine :: "xqc_packet_out \<Rightarrow> bool \<Rightarrow> bytes \<Rightarrow> xqc_packet_out \<times> nat" where
  "stream_combine po fin payload =
     (let fin_only = fin \<and> payload = [];
          append_size = (if fin_only then 0 else min (length payload) (xqc_get_po_remained_size po));
          po = (if fin_only then po else stream_append po (take append_size payload));
          fin = (if fin_only then fin else fin \<and> append_size = length payload)
      in (if fin then stream_set_fin po else po, append_size))"

definition stream_type_byte :: "bool \<Rightarrow> bool \<Rightarrow> bool \<Rightarrow> u8" where
  "stream_type_byte off len fin =
     0x08 OR push_bit 2 (of_bool off) OR push_bit 1 (of_bool len) OR push_bit 0 (of_bool fin)"

text \<open>
  What follows the label \<open>new_frame\<close> when there is data: the size to write and the value of \<open>fin\<close>, or \<open>None\<close> for
  the return of \<open>-XQC_ENOBUF\<close>. \<open>sz\<close> is \<open>size\<close>, an unsigned 64-bit number.
\<close>

definition stream_fit :: "int \<Rightarrow> int \<Rightarrow> bool \<Rightarrow> (nat \<times> bool) option" where
  "stream_fit n_avail sz fin =
     (let length_len = 2;
          (n_avail, sz, fin) =
            (if sz \<le> n_avail mod 2 ^ 64 then
               let n_avail = n_avail - length_len
               in if sz > n_avail mod 2 ^ 64 then (n_avail, n_avail mod 2 ^ 64, False) else (n_avail, sz, fin)
             else (n_avail, (n_avail - length_len) mod 2 ^ 64, False))
      in if n_avail \<le> 0 \<or> sz > n_avail mod 2 ^ 64 then None else Some (nat sz, fin))"

definition stream_enter ::
    "xqc_packet_out \<Rightarrow> u64 \<Rightarrow> u64 \<Rightarrow> nat \<Rightarrow> bool \<Rightarrow> nat option \<Rightarrow> xqc_packet_out" where
  "stream_enter po stream_id offset sz fin length_offset =
     (let idx = po_stream_frames_idx po; old = po_stream_frames po ! idx
      in po_mark XQC_FRAME_STREAM (po\<lparr>po_stream_frames := (po_stream_frames po)[idx :=
           old\<lparr>ps_type_offset := po_used_size po, ps_offset := offset, ps_length := of_nat sz, ps_is_used := True,
               ps_stream_id := stream_id, ps_has_fin := fin,
               ps_length_offset := (case length_offset of None \<Rightarrow> ps_length_offset old | Some n \<Rightarrow> n)\<rparr>],
           po_stream_frames_idx := idx + 1\<rparr>))"

definition stream_new ::
    "xqc_packet_out \<Rightarrow> u64 \<Rightarrow> u64 \<Rightarrow> bool \<Rightarrow> bytes \<Rightarrow> xqc_packet_out \<times> nat \<times> nat res" where
  "stream_new po stream_id offset fin payload =
     (let dst_buf_len = xqc_get_po_remained_size po;
          sz = length payload;
          fin_only = fin \<and> sz = 0;
          stream_id_bits = xqc_vint_get_2bit stream_id;
          stream_id_len = xqc_vint_len stream_id_bits;
          offset_bits = xqc_vint_get_2bit offset;
          offset_len = (if offset \<noteq> 0 then xqc_vint_len offset_bits else 0);
          hdr = xqc_vint_write stream_id stream_id_bits stream_id_len
                @ (if offset_len \<noteq> 0 then xqc_vint_write offset offset_bits offset_len else [])
      in if \<not> fin_only then
           case stream_fit (int dst_buf_len - int (1 + stream_id_len + offset_len)) (int sz) fin of
             None \<Rightarrow> (po, 0, Inl XQC_ENOBUF)
           | Some (sz, fin) \<Rightarrow>
               let frame = stream_type_byte (offset_len \<noteq> 0) True fin # hdr
                     @ xqc_vint_write (of_nat sz) 1 2 @ take sz payload
               in (stream_enter (po_put frame po) stream_id offset sz fin
                     (Some (po_used_size po + 1 + stream_id_len + offset_len)),
                   sz, Inr (length frame))
         else
           let length_len = (if 1 + stream_id_len + offset_len < dst_buf_len then 1 else 0)
           in if 1 + stream_id_len + offset_len + length_len > dst_buf_len then (po, 0, Inl XQC_ENOBUF)
              else
                let frame = stream_type_byte (offset_len \<noteq> 0) (length_len \<noteq> 0) fin # hdr
                      @ (if length_len \<noteq> 0 then [0] else []);
                    po' = po_put frame po;
                    po' = (if length_len \<noteq> 0 then po' else po'\<lparr>po_flag := po_flag po OR XQC_POF_STREAM_NO_LEN\<rparr>)
                in (stream_enter po' stream_id offset sz fin None, 0, Inr (length frame)))"

text \<open>The packet, \<open>*written_size\<close>, and the size of what was added or the error.\<close>

definition xqc_gen_stream_frame ::
    "xqc_packet_out \<Rightarrow> u64 \<Rightarrow> u64 \<Rightarrow> bool \<Rightarrow> bytes \<Rightarrow> xqc_packet_out \<times> nat \<times> nat res" where
  "xqc_gen_stream_frame po stream_id offset fin payload =
     (if po_stream_frames_idx po \<ge> XQC_MAX_STREAM_FRAME_IN_PO then (po, 0, Inl XQC_ELIMIT)
      else if stream_can_combine po stream_id offset then
        let (po, append_size) = stream_combine po fin payload in (po, append_size, Inr append_size)
      else stream_new po stream_id offset fin payload)"

section \<open>Parser\<close>

definition xqc_parse_stream_frame ::
    "bool \<Rightarrow> xqc_packet_in \<Rightarrow> xqc_connection \<Rightarrow>
     xqc_connection \<times> (xqc_packet_in \<times> xqc_stream_frame \<times> u64) res" where
  "xqc_parse_stream_frame malloc_ok pi conn =
     rd_u8 (conn, Inl XQC_OVERREAD) (pi_rest pi) (\<lambda>first_byte p.
     rd_vint (conn, Inl XQC_EVINTREAD) p (\<lambda>stream_id p.
       if xqc_stream_is_send_only (conn_type conn) stream_id
       then (XQC_CONN_ERR conn TRA_STREAM_STATE_ERROR, Inl XQC_EPROTO)
       else
         let finish = (\<lambda>offset length data_length p.
               if length > XQC_VINT_MAX - offset
               then (XQC_CONN_ERR conn TRA_FRAME_ENCODING_ERROR, Inl XQC_EILLEGAL_FRAME)
               else if data_length > (0 :: u32) \<and> \<not> malloc_ok then (conn, Inl XQC_EMALLOC)
               else (conn, Inr (pi_done XQC_FRAME_STREAM (drop (unat data_length) p) pi,
                      \<lparr>sf_data = take (unat data_length) p, data_length = data_length, data_offset = offset,
                       next_read_offset = 0, sf_fin = (first_byte AND 0x01 \<noteq> 0)\<rparr>, stream_id)));
             read_length = (\<lambda>offset p.
               if first_byte AND 0x02 \<noteq> 0 then
                 rd_vint (conn, Inl XQC_EVINTREAD) p (\<lambda>length p.
                   if unat length > List.length p then (conn, Inl XQC_EILLEGAL_FRAME)
                   else finish offset length (ucast length) p)
               else let data_length = of_nat (List.length p) in finish offset (ucast data_length) data_length p)
         in if first_byte AND 0x04 \<noteq> 0
            then rd_vint (conn, Inl XQC_EVINTREAD) p read_length
            else read_length 0 p))"

section \<open>The layout\<close>

definition stream_hdr :: "u64 \<Rightarrow> u64 \<Rightarrow> bytes" where
  "stream_hdr sid off = vint_bytes sid @ (if off = 0 then [] else vint_bytes off)"

abbreviation len2 :: "nat \<Rightarrow> bytes" where
  "len2 n \<equiv> xqc_vint_write (of_nat n) (Suc 0) 2"

definition stream_bytes :: "u64 \<Rightarrow> u64 \<Rightarrow> bytes \<Rightarrow> bool \<Rightarrow> bytes" where
  "stream_bytes sid off data fin =
     stream_type_byte (off \<noteq> 0) True fin # stream_hdr sid off @ len2 (length data) @ data"

lemma stream_fit_eq:
  assumes "\<bar>n\<bar> < 2 ^ 62" and "0 \<le> s" and "s < 2 ^ 62"
  shows "stream_fit n s fin =
    (if n \<le> 1 \<or> n = 2 \<and> s \<le> 2 then None else Some (nat (min s (n - 2)), fin \<and> s \<le> n - 2))"
proof -
  have m: "k mod 2 ^ 64 = (if k < 0 then k + 2 ^ 64 else k)" if "\<bar>k\<bar> < 2 ^ 63" for k :: int
  proof (cases "k < 0")
    case True
    have "k mod 2 ^ 64 = (k + 2 ^ 64) mod 2 ^ 64" by simp
    also have "\<dots> = k + 2 ^ 64" using True that by (intro mod_pos_pos_trivial) simp_all
    finally show ?thesis using True by simp
  qed (use that in simp)
  note m [of n] m [of "n - 2"]
  then show ?thesis
    using assms by (auto simp: stream_fit_def Let_def min_def)
qed

lemma rd_len2: "n < 2 ^ 14 \<Longrightarrow> rd_vint e (len2 n @ r) k = k (of_nat n) r"
proof -
  assume n: "n < 2 ^ 14"
  then have "take_bit 14 (of_nat n :: u64) = of_nat n"
    by (simp add: word_unat_eq_iff unsigned_take_bit_eq take_bit_nat_eq_self unat_of_nat)
  with vint_read_write [of 1 "of_nat n" r] have "xqc_vint_read (len2 n @ r) = Some (2, of_nat n)"
    by (simp add: xqc_vint_len_def numeral_2_eq_2 [symmetric])
  then show ?thesis by (simp add: rd_vint_def vint_write_2)
qed

lemma len2_mark: "n < 2 ^ 14 \<Longrightarrow> hd (len2 n) AND 0xC0 = 0x40"
proof -
  assume n: "n < 2 ^ 14"
  then have "take_bit 14 (of_nat n :: u64) = of_nat n"
    by (simp add: word_unat_eq_iff unsigned_take_bit_eq take_bit_nat_eq_self unat_of_nat)
  then have z: "\<not> bit (of_nat n :: u64) j" if "14 \<le> j" for j
    using that by (metis bit_take_bit_iff not_le)
  have "hd (len2 n) = ucast (drop_bit 8 ((of_nat n :: u64) OR push_bit 14 1))"
    using xqc_vint_write_eq [of 1 "of_nat n"] by (simp add: xqc_vint_len_def be_bytes_Cons numeral_2_eq_2)
  moreover have "ucast (drop_bit 8 ((of_nat n :: u64) OR push_bit 14 1)) AND 0xC0 = (0x40 :: u8)"
    by (rule bit_word_eqI) (auto simp: bit_simps z less_Suc_eq numeral_eq_Suc simp del: bit_of_nat_iff)
  ultimately show ?thesis by simp
qed

lemma type_byte_bits:
  "stream_type_byte x l f AND 0x04 \<noteq> 0 \<longleftrightarrow> x" "stream_type_byte x l f AND 0x02 \<noteq> 0 \<longleftrightarrow> l"
  "stream_type_byte x l f AND 0x01 \<noteq> 0 \<longleftrightarrow> f" "stream_type_byte x l False OR 1 = stream_type_byte x l True"
  by (cases x; cases l; cases f; simp add: stream_type_byte_def)+

lemma length_stream_bytes: "length (stream_bytes sid off data fin) = 3 + length (stream_hdr sid off) + length data"
  by (simp add: stream_bytes_def vint_write_2)

definition stream_frame_of :: "u64 \<Rightarrow> bytes \<Rightarrow> bool \<Rightarrow> xqc_stream_frame" where
  "stream_frame_of off data fin =
     \<lparr>sf_data = data, data_length = of_nat (length data), data_offset = off, next_read_offset = 0, sf_fin = fin\<rparr>"

lemma len_words:
  assumes "n < 2 ^ 14"
  shows "unat (of_nat n :: u64) = n" "unat (of_nat n :: u32) = n" "ucast (of_nat n :: u64) = (of_nat n :: u32)"
    "ucast (of_nat n :: u32) = (of_nat n :: u64)"
  using assms by (simp_all add: unat_of_nat unsigned_of_nat take_bit_nat_eq_self)

lemma le_MAX_sub:
  assumes "unat off + n < 2 ^ 62"
  shows "\<not> XQC_VINT_MAX - off < of_nat n"
proof -
  have "off \<le> XQC_VINT_MAX" using assms by (simp add: unat_VINT_MAX)
  then have "unat (XQC_VINT_MAX - off) = unat XQC_VINT_MAX - unat off" by (rule unat_sub)
  moreover have "unat XQC_VINT_MAX = 2 ^ 62 - 1" by (simp add: XQC_VINT_MAX_def)
  ultimately show ?thesis using assms by (simp add: word_less_nat_alt unat_of_nat)
qed

lemma rd_stream_hdr:
  assumes "sid \<le> XQC_VINT_MAX" and "off \<le> XQC_VINT_MAX" and "\<not> xqc_stream_is_send_only (conn_type conn) sid"
  shows "rd_vint e (stream_hdr sid off @ r) (\<lambda>s p. if xqc_stream_is_send_only (conn_type conn) s then x s
       else if off \<noteq> 0 then rd_vint e p (k s) else k s 0 p) = k sid off r"
  using assms by (simp add: stream_hdr_def rd_vint_bytes)

lemma parse_stream_bytes:
  assumes "pi_rest pi = stream_bytes sid off data fin @ b" and "sid \<le> XQC_VINT_MAX"
    and "unat off + length data < 2 ^ 62" and "length data < 2 ^ 14"
    and "\<not> xqc_stream_is_send_only (conn_type conn) sid"
  shows "xqc_parse_stream_frame True pi conn =
    (conn, Inr (pi_done XQC_FRAME_STREAM b pi, stream_frame_of off data fin, sid))"
proof -
  have off: "off \<le> XQC_VINT_MAX" using assms(3) by (simp add: unat_VINT_MAX)
  show ?thesis
    using assms(2,5) off le_MAX_sub [OF assms(3)]
    by (cases "off = 0") (simp_all add: xqc_parse_stream_frame_def assms(1) stream_bytes_def stream_hdr_def rd_u8_Cons rd_vint_bytes
        type_byte_bits rd_len2 [OF assms(4)] len_words [OF assms(4)] Let_def stream_frame_of_def)
qed

text \<open>A frame that only carries FIN may have a one byte Length or, at the end of the packet, none.\<close>

lemma parse_stream_fin_only:
  assumes "pi_rest pi = stream_type_byte (off \<noteq> 0) l True # stream_hdr sid off @ (if l then 0 # b else [])"
    and "sid \<le> XQC_VINT_MAX" and "off \<le> XQC_VINT_MAX" and "\<not> xqc_stream_is_send_only (conn_type conn) sid"
  shows "xqc_parse_stream_frame True pi conn =
    (conn, Inr (pi_done XQC_FRAME_STREAM (if l then b else []) pi, stream_frame_of off [] True, sid))"
  using assms le_MAX_sub [of off 0]
  by (cases "off = 0"; cases l) (simp_all add: xqc_parse_stream_frame_def stream_hdr_def rd_u8_Cons rd_vint_bytes rd_vint_bytes [where r = "[]", simplified] rd_vint_small
        type_byte_bits Let_def stream_frame_of_def unat_VINT_MAX)

section \<open>Writing a new frame\<close>

lemma stream_hdr_eq:
  "(let offset_len = (if off \<noteq> 0 then xqc_vint_len (xqc_vint_get_2bit off) else 0)
    in xqc_vint_write sid (xqc_vint_get_2bit sid) (xqc_vint_len (xqc_vint_get_2bit sid))
       @ (if offset_len \<noteq> 0 then xqc_vint_write off (xqc_vint_get_2bit off) offset_len else [])) = stream_hdr sid off"
  by (simp add: Let_def stream_hdr_def vint_bytes_def xqc_vint_len_def)

lemma length_stream_hdr:
  "length (stream_hdr sid off) = xqc_vint_len (xqc_vint_get_2bit sid)
     + (if off \<noteq> 0 then xqc_vint_len (xqc_vint_get_2bit off) else 0)"
  by (simp add: stream_hdr_def length_vint_bytes)

text \<open>How much data a new frame takes: nothing is written unless a byte of data or an empty frame fits.\<close>

definition stream_room :: "xqc_packet_out \<Rightarrow> u64 \<Rightarrow> u64 \<Rightarrow> nat" where
  "stream_room po sid off = xqc_get_po_remained_size po - (3 + length (stream_hdr sid off))"

lemma stream_new_data:
  assumes "xqc_get_po_remained_size po < 2 ^ 14" and "length payload < 2 ^ 62" and "\<not> (fin \<and> payload = [])"
    and "stream_room po sid off > 0" and "w = min (length payload) (stream_room po sid off)"
    and "frame = stream_bytes sid off (take w payload) (fin \<and> w = length payload)"
  shows "stream_new po sid off fin payload =
    (stream_enter (po_put frame po) sid off w (fin \<and> w = length payload)
       (Some (po_used_size po + 1 + length (stream_hdr sid off))), w, Inr (length frame))"
proof -
  let ?n = "int (xqc_get_po_remained_size po) - int (1 + length (stream_hdr sid off))"
  have l: "length (stream_hdr sid off) \<le> 16"
    by (simp add: length_stream_hdr xqc_vint_len_def xqc_vint_get_2bit_def)
  have n: "?n = int (stream_room po sid off) + 2" using assms(4) by (simp add: stream_room_def)
  have "stream_fit ?n (int (length payload)) fin = Some (w, fin \<and> w = length payload)"
    using assms(1,2,4,5) unfolding n by (subst stream_fit_eq) (auto simp: stream_room_def min_def)
  then show ?thesis
    using assms(3,5,6) stream_hdr_eq [of off sid]
    by (auto simp: stream_new_def Let_def length_stream_hdr stream_bytes_def add.assoc)
qed

section \<open>Growing the last frame\<close>

text \<open>
  The last frame of the packet is a STREAM frame with the given contents, and the entry for it in
  \<open>po_stream_frames\<close> says so.
\<close>

definition last_stream :: "xqc_packet_out \<Rightarrow> u64 \<Rightarrow> u64 \<Rightarrow> bytes \<Rightarrow> bool \<Rightarrow> bool" where
  "last_stream po sid off data fin \<longleftrightarrow>
     (let idx = po_stream_frames_idx po - 1; f = po_stream_frames po ! idx
      in 0 < po_stream_frames_idx po \<and> idx < length (po_stream_frames po)
       \<and> ps_stream_id f = sid \<and> ps_offset f = off \<and> ps_length f = of_nat (length data) \<and> ps_has_fin f = fin
       \<and> ps_length_offset f = ps_type_offset f + 1 + length (stream_hdr sid off)
       \<and> (\<exists>pre post. po_buf po = pre @ stream_bytes sid off data fin @ post \<and> length pre = ps_type_offset f
            \<and> po_used_size po = length pre + length (stream_bytes sid off data fin)))"

text \<open>The caller advances \<open>po_used_size\<close> by the size that the generator returns.\<close>

definition po_advance :: "nat \<Rightarrow> xqc_packet_out \<Rightarrow> xqc_packet_out" where
  "po_advance n po = po\<lparr>po_used_size := po_used_size po + n\<rparr>"

lemma stream_new_last:
  assumes "po_used_size po + length (stream_bytes sid off data fin) \<le> length (po_buf po)"
    and "po_stream_frames_idx po < length (po_stream_frames po)"
  shows "last_stream (po_advance (length (stream_bytes sid off data fin))
      (stream_enter (po_put (stream_bytes sid off data fin) po) sid off (length data) fin
        (Some (po_used_size po + 1 + length (stream_hdr sid off))))) sid off data fin"
proof -
  let ?bs = "stream_bytes sid off data fin"
  have "buf_write (po_buf po) (po_used_size po) ?bs =
      take (po_used_size po) (po_buf po) @ ?bs @ drop (po_used_size po + length ?bs) (po_buf po)"
    by (simp add: buf_write_def)
  moreover have "length (take (po_used_size po) (po_buf po)) = po_used_size po" using assms(1) by simp
  ultimately show ?thesis
    using assms(2) by (auto simp: last_stream_def po_advance_def stream_enter_def po_put_def po_mark_def Let_def)
qed

lemma stream_can_combine_last:
  assumes "last_stream po sid off data False" and "po_frame_types po = XQC_FRAME_BIT XQC_FRAME_STREAM"
    and "length data < 2 ^ 14"
  shows "stream_can_combine po sid (off + of_nat (length data))"
proof -
  let ?f = "po_stream_frames po ! (po_stream_frames_idx po - Suc 0)"
  obtain pre post where buf: "po_buf po = pre @ stream_bytes sid off data False @ post" "length pre = ps_type_offset ?f"
    and lo: "ps_length_offset ?f = ps_type_offset ?f + 1 + length (stream_hdr sid off)"
    using assms(1) by (auto simp: last_stream_def Let_def)
  have "len2 (length data) \<noteq> []" using vint_write_2 [of "of_nat (length data)" "Suc 0"] by auto
  then have "po_buf po ! ps_length_offset ?f = hd (len2 (length data))"
    by (simp add: buf lo stream_bytes_def nth_append hd_conv_nth)
  then show ?thesis
    using assms lo by (simp add: stream_can_combine_def last_stream_def Let_def len2_mark [OF assms(3)] len_words [OF assms(3)])
qed

lemma patch_frame:
  assumes "length x = length y"
  shows "buf_write (buf_write (pre @ t # h @ x @ d @ post) (length pre + 1 + length h + length x + length d) app)
      (length pre + 1 + length h) y = pre @ t # h @ y @ d @ app @ drop (length app) post"
  using assms by (simp add: buf_write_def)

lemma last_streamI:
  assumes "po_stream_frames_idx po = Suc i" and "i < length (po_stream_frames po)" and "po_stream_frames po ! i = f"
    and "ps_stream_id f = sid" and "ps_offset f = off" and "ps_length f = of_nat (length data)" and "ps_has_fin f = fin"
    and "ps_type_offset f = length pre" and "ps_length_offset f = length pre + 1 + length (stream_hdr sid off)"
    and "po_buf po = pre @ stream_bytes sid off data fin @ post"
    and "po_used_size po = length pre + length (stream_bytes sid off data fin)"
  shows "last_stream po sid off data fin"
  using assms by (auto simp: last_stream_def)

lemma last_streamE:
  assumes "last_stream po sid off data fin"
  obtains i f pre post where "po_stream_frames_idx po = Suc i" and "i < length (po_stream_frames po)" and "po_stream_frames po ! i = f"
    and "ps_stream_id f = sid" and "ps_offset f = off" and "ps_length f = of_nat (length data)" and "ps_has_fin f = fin"
    and "ps_type_offset f = length pre" and "ps_length_offset f = length pre + 1 + length (stream_hdr sid off)"
    and "po_buf po = pre @ stream_bytes sid off data fin @ post"
    and "po_used_size po = length pre + length (stream_bytes sid off data fin)"
proof -
  obtain i where i: "po_stream_frames_idx po = Suc i"
    using assms by (cases "po_stream_frames_idx po") (auto simp: last_stream_def)
  let ?f = "po_stream_frames po ! i"
  obtain pre post where "po_buf po = pre @ stream_bytes sid off data fin @ post" "length pre = ps_type_offset ?f"
      "po_used_size po = length pre + length (stream_bytes sid off data fin)"
    using assms i by (auto simp: last_stream_def Let_def)
  with that [OF i _ refl, of pre post] assms i show thesis by (simp add: last_stream_def Let_def)
qed

lemma stream_append_last:
  assumes "last_stream po sid off data False" and "length data + length app < 2 ^ 14"
    and "po_used_size po + length app \<le> length (po_buf po)"
  shows "last_stream (po_advance (length app) (stream_append po app)) sid off (data @ app) False"
proof -
  from assms(1) obtain i f pre post where i: "po_stream_frames_idx po = Suc i" "i < length (po_stream_frames po)"
    "po_stream_frames po ! i = f" and f: "ps_stream_id f = sid" "ps_offset f = off" "ps_length f = of_nat (length data)"
    "ps_type_offset f = length pre" "ps_length_offset f = length pre + 1 + length (stream_hdr sid off)" "\<not> ps_has_fin f"
    and buf: "po_buf po = pre @ stream_bytes sid off data False @ post"
    and used: "po_used_size po = length pre + length (stream_bytes sid off data False)"
    by (rule last_streamE) auto
  let ?l = "len2 (length (data @ app))"
  have lw: "ucast (of_nat (length data) :: u32) + of_nat (length app) = (of_nat (length (data @ app)) :: u64)"
    using assms(2) by (simp add: len_words)
  have "buf_write (buf_write (po_buf po) (po_used_size po) app) (ps_length_offset f) ?l
      = pre @ stream_bytes sid off (data @ app) False @ drop (length app) post"
    using patch_frame [of "len2 (length data)" ?l pre "stream_type_byte (off \<noteq> 0) True False" "stream_hdr sid off" data post app]
    by (simp add: buf used f stream_bytes_def vint_write_2 add.assoc)
  then show ?thesis
    by (intro last_streamI [where i = i and pre = pre and post = "drop (length app) post"
          and f = "f\<lparr>ps_length := of_nat (length (data @ app))\<rparr>"])
      (use i f used lw in \<open>simp_all add: po_advance_def stream_append_def Let_def length_stream_bytes\<close>)
qed

lemma stream_set_fin_last:
  assumes "last_stream po sid off data False"
  shows "last_stream (stream_set_fin po) sid off data True"
proof -
  from assms obtain i f pre post where i: "po_stream_frames_idx po = Suc i" "i < length (po_stream_frames po)"
    "po_stream_frames po ! i = f" and f: "ps_stream_id f = sid" "ps_offset f = off" "ps_length f = of_nat (length data)"
    "ps_type_offset f = length pre" "ps_length_offset f = length pre + 1 + length (stream_hdr sid off)"
    and buf: "po_buf po = pre @ stream_bytes sid off data False @ post"
    and used: "po_used_size po = length pre + length (stream_bytes sid off data False)"
    by (rule last_streamE) auto
  show ?thesis
    by (rule last_streamI [where i = i and pre = pre and post = post and f = "f\<lparr>ps_has_fin := True\<rparr>"])
      (use i f used in \<open>simp_all add: stream_set_fin_def Let_def length_stream_bytes buf\<close>,
       simp add: stream_bytes_def type_byte_bits)
qed

lemma advance_set_fin: "po_advance n (stream_set_fin po) = stream_set_fin (po_advance n po)"
  by (simp add: po_advance_def stream_set_fin_def Let_def)

lemma stream_combine_last:
  assumes "last_stream po sid off data False" and "length data + length payload < 2 ^ 14"
    and "po_used_size po + xqc_get_po_remained_size po \<le> length (po_buf po)"
    and "stream_combine po fin payload = (po', w)"
  shows "w = min (length payload) (xqc_get_po_remained_size po)"
    and "last_stream (po_advance w po') sid off (data @ take w payload) (fin \<and> w = length payload)"
proof -
  show w: "w = min (length payload) (xqc_get_po_remained_size po)"
    using assms(4) by (auto simp: stream_combine_def Let_def)
  have a0: "po_advance 0 po = po" by (simp add: po_advance_def)
  have "last_stream (po_advance (length (take w payload)) (stream_append po (take w payload))) sid off (data @ take w payload) False"
    using assms(1-3) w by (intro stream_append_last) auto
  then have app: "last_stream (po_advance w (stream_append po (take w payload))) sid off (data @ take w payload) False"
    using w by simp
  have "po' = (if fin \<and> payload = [] then stream_set_fin po
      else if fin \<and> w = length payload then stream_set_fin (stream_append po (take w payload))
      else stream_append po (take w payload))"
    using assms(4) w by (auto simp: stream_combine_def Let_def)
  moreover have "payload = [] \<Longrightarrow> w = 0" using w by simp
  ultimately show "last_stream (po_advance w po') sid off (data @ take w payload) (fin \<and> w = length payload)"
    using app assms(1) by (auto simp: advance_set_fin a0 stream_set_fin_last)
qed

lemma stream_new_fin_only:
  assumes "1 + length (stream_hdr sid off) \<le> xqc_get_po_remained_size po"
  shows "\<exists>po'. stream_new po sid off True [] = (po', 0, Inr (length
      (stream_type_byte (off \<noteq> 0) (1 + length (stream_hdr sid off) < xqc_get_po_remained_size po) True # stream_hdr sid off
        @ (if 1 + length (stream_hdr sid off) < xqc_get_po_remained_size po then [0] else []))))
    \<and> po_buf po' = buf_write (po_buf po) (po_used_size po)
      (stream_type_byte (off \<noteq> 0) (1 + length (stream_hdr sid off) < xqc_get_po_remained_size po) True # stream_hdr sid off
        @ (if 1 + length (stream_hdr sid off) < xqc_get_po_remained_size po then [0] else []))
    \<and> po_used_size po' = po_used_size po"
  using assms
  by (cases "off = 0"; cases "1 + length (stream_hdr sid off) < xqc_get_po_remained_size po")
    (simp_all add: stream_new_def Let_def stream_enter_def po_put_def po_mark_def stream_hdr_def
      vint_bytes_def [symmetric] length_vint_bytes)

section \<open>Properties\<close>

text \<open>C31: Stream data written to a packet is received unchanged. If a new STREAM frame with at least one byte of
  room is written, it takes as much of the data as fits, sets FIN exactly when it took all and FIN was asked for, and the peer's parser returns
  the stream, the offset, these bytes and FIN and stops right behind the frame.\<close>

theorem stream_roundtrip:
  assumes "po_wf po" and "po_stream_frames_idx po < XQC_MAX_STREAM_FRAME_IN_PO" and "\<not> stream_can_combine po sid off"
    and "xqc_get_po_remained_size po < 2 ^ 14" and "length payload < 2 ^ 62" and "\<not> (fin \<and> payload = [])"
    and "w = min (length payload) (stream_room po sid off)" and "stream_room po sid off > 0"
    and "sid \<le> XQC_VINT_MAX" and "unat off + w < 2 ^ 62"
    and "\<not> xqc_stream_is_send_only (conn_type peer) sid"
  shows "\<exists>po' n. xqc_gen_stream_frame po sid off fin payload = (po', w, Inr n)
    \<and> n \<le> xqc_get_po_remained_size po \<and> length (po_buf po') = length (po_buf po)
    \<and> last_stream (po_advance n po') sid off (take w payload) (fin \<and> w = length payload)
    \<and> xqc_parse_stream_frame True (pi\<lparr>pi_rest := po_written po' n @ b\<rparr>) peer =
        (peer, Inr (pi_done XQC_FRAME_STREAM b pi,
                    stream_frame_of off (take w payload) (fin \<and> w = length payload), sid))"
proof -
  let ?fin = "fin \<and> w = length payload" and ?d = "take w payload"
  let ?frame = "stream_bytes sid off ?d ?fin"
  let ?po = "stream_enter (po_put ?frame po) sid off w ?fin (Some (po_used_size po + 1 + length (stream_hdr sid off)))"
  have lw: "length ?d = w" using assms(7) by simp
  have n: "length ?frame \<le> xqc_get_po_remained_size po" "w < 2 ^ 14"
    using assms(4,7,8) lw by (auto simp: length_stream_bytes stream_room_def)
  then have room: "po_used_size po + length ?frame \<le> length (po_buf po)"
    using po_remained_le [OF assms(1), of "length ?frame"] by (simp add: length_stream_bytes)
  have gen: "xqc_gen_stream_frame po sid off fin payload = (?po, w, Inr (length ?frame))"
    using assms(2,3) stream_new_data [OF assms(4-6,8,7) refl] by (simp add: xqc_gen_stream_frame_def)
  have buf: "po_buf ?po = buf_write (po_buf po) (po_used_size po) ?frame" "po_used_size ?po = po_used_size po"
    by (simp_all add: stream_enter_def po_put_def po_mark_def Let_def)
  then have w: "po_written ?po (length ?frame) = ?frame"
    using room by (simp add: po_written_def)
  have last: "last_stream (po_advance (length ?frame) ?po) sid off ?d ?fin"
    using stream_new_last [OF room] assms(1,2) lw by (simp add: po_wf_def)
  have p: "xqc_parse_stream_frame True (pi\<lparr>pi_rest := ?frame @ b\<rparr>) peer =
      (peer, Inr (pi_done XQC_FRAME_STREAM b (pi\<lparr>pi_rest := ?frame @ b\<rparr>), stream_frame_of off ?d ?fin, sid))"
    by (rule parse_stream_bytes) (use assms(9-11) n(2) lw in simp_all)
  have d: "pi_done XQC_FRAME_STREAM b (pi\<lparr>pi_rest := ?frame @ b\<rparr>) = pi_done XQC_FRAME_STREAM b pi"
    by (simp add: pi_done_def)
  have len: "length (po_buf ?po) = length (po_buf po)" using buf(1) room by simp
  show ?thesis
    by (intro exI conjI, rule gen, rule n(1), rule len, rule last) (simp only: w p d)
qed

text \<open>Appending to a STREAM frame in place is sound: when the packet ends in a STREAM frame and the next data of the same stream
  is written, the generator patches the Length and the FIN bit so that the packet ends in one
  STREAM frame with the concatenated data, which is what the peer parses.\<close>

theorem stream_combine_roundtrip:
  assumes "po_wf po" and "po_stream_frames_idx po < XQC_MAX_STREAM_FRAME_IN_PO"
    and "last_stream po sid off data False" and "po_frame_types po = XQC_FRAME_BIT XQC_FRAME_STREAM"
    and "length data + length payload < 2 ^ 14" and "sid \<le> XQC_VINT_MAX"
    and "unat off + length data + length payload < 2 ^ 62"
    and "\<not> xqc_stream_is_send_only (conn_type peer) sid"
    and "xqc_gen_stream_frame po sid (off + of_nat (length data)) fin payload = (po', w, res)"
  shows "w = min (length payload) (xqc_get_po_remained_size po) \<and> res = Inr w
    \<and> last_stream (po_advance w po') sid off (data @ take w payload) (fin \<and> w = length payload)
    \<and> (let f = po_stream_frames po' ! (po_stream_frames_idx po' - 1)
       in xqc_parse_stream_frame True
            (pi\<lparr>pi_rest := drop (ps_type_offset f) (take (po_used_size po' + w) (po_buf po')) @ b\<rparr>) peer =
          (peer, Inr (pi_done XQC_FRAME_STREAM b pi,
                      stream_frame_of off (data @ take w payload) (fin \<and> w = length payload), sid)))"
proof -
  have "length data < 2 ^ 14" using assms(5) by simp
  from stream_can_combine_last [OF assms(3,4) this]
  have c: "stream_combine po fin payload = (po', w)" and r: "res = Inr w"
    using assms(2,9) by (auto simp: xqc_gen_stream_frame_def split: prod.splits)
  have "po_used_size po + xqc_get_po_remained_size po \<le> length (po_buf po)"
    using assms(1) by (auto simp: po_wf_def xqc_get_po_remained_size_def)
  note comb = stream_combine_last [OF assms(3,5) this c]
  let ?d = "data @ take w payload" and ?fin = "fin \<and> w = length payload"
  from comb(2) obtain i f pre post where i: "po_stream_frames_idx (po_advance w po') = Suc i"
    "po_stream_frames (po_advance w po') ! i = f" "ps_type_offset f = length pre"
    "po_buf (po_advance w po') = pre @ stream_bytes sid off ?d ?fin @ post"
    "po_used_size (po_advance w po') = length pre + length (stream_bytes sid off ?d ?fin)"
    by (rule last_streamE)
  then have bytes: "drop (ps_type_offset (po_stream_frames po' ! (po_stream_frames_idx po' - 1)))
      (take (po_used_size po' + w) (po_buf po')) = stream_bytes sid off ?d ?fin"
    by (simp add: po_advance_def)
  have d: "pi_done XQC_FRAME_STREAM b (pi\<lparr>pi_rest := x\<rparr>) = pi_done XQC_FRAME_STREAM b pi" for x
    by (simp add: pi_done_def)
  have "xqc_parse_stream_frame True (pi\<lparr>pi_rest := stream_bytes sid off ?d ?fin @ b\<rparr>) peer =
      (peer, Inr (pi_done XQC_FRAME_STREAM b (pi\<lparr>pi_rest := stream_bytes sid off ?d ?fin @ b\<rparr>), stream_frame_of off ?d ?fin, sid))"
    by (rule parse_stream_bytes) (use assms(5-8) comb(1) in simp_all)
  then show ?thesis unfolding Let_def bytes d using comb r by blast
qed

text \<open>A STREAM frame that only carries FIN is received as an empty frame with FIN, with a one byte Length when
  there is room for it and, at the very end of the packet, without one.\<close>

theorem stream_fin_only_roundtrip:
  assumes "po_wf po" and "po_stream_frames_idx po < XQC_MAX_STREAM_FRAME_IN_PO" and "\<not> stream_can_combine po sid off"
    and "1 + length (stream_hdr sid off) \<le> xqc_get_po_remained_size po" and "sid \<le> XQC_VINT_MAX" and "off \<le> XQC_VINT_MAX"
    and "\<not> xqc_stream_is_send_only (conn_type peer) sid"
    and "1 + length (stream_hdr sid off) < xqc_get_po_remained_size po \<or> b = []"
  shows "\<exists>po' n. xqc_gen_stream_frame po sid off True [] = (po', 0, Inr n) \<and> n \<le> xqc_get_po_remained_size po
    \<and> xqc_parse_stream_frame True (pi\<lparr>pi_rest := po_written po' n @ b\<rparr>) peer =
        (peer, Inr (pi_done XQC_FRAME_STREAM b pi, stream_frame_of off [] True, sid))"
proof -
  let ?l = "1 + length (stream_hdr sid off) < xqc_get_po_remained_size po"
  let ?frame = "stream_type_byte (off \<noteq> 0) ?l True # stream_hdr sid off @ (if ?l then [0] else [])"
  have n: "length ?frame \<le> xqc_get_po_remained_size po" using assms(4) by simp
  then have room: "po_used_size po + length ?frame \<le> length (po_buf po)"
    using po_remained_le [OF assms(1), of "length ?frame"] by simp
  obtain po' where "stream_new po sid off True [] = (po', 0, Inr (length ?frame))"
    and buf: "po_buf po' = buf_write (po_buf po) (po_used_size po) ?frame" "po_used_size po' = po_used_size po"
    using stream_new_fin_only [OF assms(4)] by blast
  then have gen: "xqc_gen_stream_frame po sid off True [] = (po', 0, Inr (length ?frame))"
    using assms(2,3) by (simp add: xqc_gen_stream_frame_def)
  have w: "po_written po' (length ?frame) = ?frame" using buf room by (simp add: po_written_def)
  have d: "pi_done XQC_FRAME_STREAM x (pi\<lparr>pi_rest := y\<rparr>) = pi_done XQC_FRAME_STREAM x pi" for x y
    by (simp add: pi_done_def)
  have "xqc_parse_stream_frame True (pi\<lparr>pi_rest := ?frame @ b\<rparr>) peer =
      (peer, Inr (pi_done XQC_FRAME_STREAM b pi, stream_frame_of off [] True, sid))"
    using parse_stream_fin_only [of "pi\<lparr>pi_rest := ?frame @ b\<rparr>" off ?l sid b peer] assms(5-8) by (auto simp: d)
  with gen n w show ?thesis by metis
qed

section \<open>Witnesses\<close>

lemma stream_hdr_example: "length (stream_hdr 4 0) = 1" "length (stream_hdr 4 100) = 3"
  by (simp_all add: length_stream_hdr xqc_vint_len_def xqc_vint_get_2bit_def)

lemma not_send_only_4: "\<not> xqc_stream_is_send_only ct 4"
  by (simp add: xqc_stream_is_send_only_def xqc_get_stream_type_def XQC_CLI_UNI_def XQC_SVR_UNI_def)

theorem stream_roundtrip_witness:
  "\<exists>po' n. xqc_gen_stream_frame po_example 4 100 True [7, 8, 9] = (po', 3, Inr n)
    \<and> xqc_parse_stream_frame True (pi_example\<lparr>pi_rest := po_written po' n @ [1]\<rparr>) conn_example =
        (conn_example, Inr (pi_done XQC_FRAME_STREAM [1] pi_example, stream_frame_of 100 [7, 8, 9] True, 4))"
proof -
  have "stream_room po_example 4 100 = 1164" by (simp add: stream_room_def po_example_room stream_hdr_example)
  moreover have "po_stream_frames_idx po_example = 0" by (simp add: po_example_def)
  ultimately show ?thesis
    using stream_roundtrip [OF po_example_wf, where sid = 4 and off = 100 and payload = "[7, 8, 9]" and fin = True
        and w = 3 and peer = conn_example and pi = pi_example and b = "[1]"] not_send_only_4 [of "conn_type conn_example"]
    by (auto simp: po_example_room unat_VINT_MAX stream_can_combine_def XQC_MAX_STREAM_FRAME_IN_PO_def)
qed

definition po_stream_example :: xqc_packet_out where
  "po_stream_example =
     po_advance 6 (stream_enter (po_put (stream_bytes 4 0 [7, 8] False) po_example) 4 0 2 False (Some 32))"

lemma po_stream_example_fields:
  "po_used_size po_stream_example = 36" "po_buf_size po_stream_example = 1200" "po_reserved_size po_stream_example = 0"
  "length (po_buf po_stream_example) = 1452" "po_stream_frames_idx po_stream_example = 1"
  "length (po_stream_frames po_stream_example) = 3"
  "po_frame_types po_stream_example = XQC_FRAME_BIT XQC_FRAME_STREAM"
  by (simp_all add: po_stream_example_def po_advance_def stream_enter_def po_put_def po_mark_def po_example_def Let_def
      length_stream_bytes stream_hdr_example)

lemma po_stream_example_ok: "po_wf po_stream_example" "last_stream po_stream_example 4 0 [7, 8] False"
  using stream_new_last [of po_example 4 0 "[7, 8]" False]
  by (simp_all add: po_wf_def po_stream_example_fields XQC_MSS_def XQC_ACK_SPACE_def XQC_MAX_STREAM_FRAME_IN_PO_def)
    (simp add: po_stream_example_def po_example_def length_stream_bytes stream_hdr_example numeral_2_eq_2)

theorem stream_combine_roundtrip_witness:
  "\<exists>po' w. xqc_gen_stream_frame po_stream_example 4 2 True [9] = (po', w, Inr w)
    \<and> last_stream (po_advance w po') 4 0 [7, 8, 9] True"
proof -
  obtain po' w res where g: "xqc_gen_stream_frame po_stream_example 4 (0 + of_nat (length [7, 8 :: u8])) True [9] = (po', w, res)"
    by (metis prod_cases3)
  have r: "xqc_get_po_remained_size po_stream_example = 1164"
    by (simp add: xqc_get_po_remained_size_def po_stream_example_fields)
  from stream_combine_roundtrip [OF po_stream_example_ok(1) _ po_stream_example_ok(2) po_stream_example_fields(7) _ _ _ _ g,
      where peer = conn_example and pi = pi_example and b = "[]"] not_send_only_4 [of "conn_type conn_example"]
  show ?thesis
    using g by (auto simp: po_stream_example_fields XQC_MAX_STREAM_FRAME_IN_PO_def unat_VINT_MAX r)
qed

theorem stream_fin_only_roundtrip_witness:
  "\<exists>po' n. xqc_gen_stream_frame po_example 4 100 True [] = (po', 0, Inr n)
    \<and> xqc_parse_stream_frame True (pi_example\<lparr>pi_rest := po_written po' n @ [1]\<rparr>) conn_example =
        (conn_example, Inr (pi_done XQC_FRAME_STREAM [1] pi_example, stream_frame_of 100 [] True, 4))"
proof -
  have "po_stream_frames_idx po_example = 0" by (simp add: po_example_def)
  then show ?thesis
    using stream_fin_only_roundtrip [OF po_example_wf, where sid = 4 and off = 100 and peer = conn_example and pi = pi_example and b = "[1]"]
      not_send_only_4 [of "conn_type conn_example"]
    by (auto simp: po_example_room stream_hdr_example unat_VINT_MAX stream_can_combine_def XQC_MAX_STREAM_FRAME_IN_PO_def)
qed

end
