(* ===== verification/Stream_Recv.thy ===== *)
theory Stream_Recv
  imports Frame_Codec
begin

text \<open>
  Reassembly of received stream data: \<open>xqc_insert_stream_frame\<close> and \<open>xqc_insert_crypto_frame\<close>
  (src/transport/xqc_frame.c), the reading loop of \<open>xqc_stream_recv\<close> and
  \<open>xqc_read_crypto_stream\<close> (src/transport/xqc_stream.c).

  A stream keeps the frames it has received in a list ordered by offset; \<open>merged_offset_end\<close> is
  the end of the prefix without holes, \<open>di_next_read_offset\<close> what the application has read.
\<close>

section \<open>State\<close>

record xqc_stream_data_in =
  frames_tailq :: "xqc_stream_frame list"
  merged_offset_end :: u64
  di_next_read_offset :: u64
  stream_length :: u64
  stream_determined :: bool
  buffered_frame_count :: u64
  buffered_data_bytes :: u64
  cap_reject_logged :: bool

definition XQC_MAX_STREAM_FRAME_BUFFERED_COUNT :: u64 where "XQC_MAX_STREAM_FRAME_BUFFERED_COUNT = 8192"
definition XQC_MAX_STREAM_FRAME_BUFFERED_COUNT_HARD :: u64 where
  "XQC_MAX_STREAM_FRAME_BUFFERED_COUNT_HARD = 32768"
definition XQC_MIN_STREAM_BUFFERED_BYTES_PER_FRAME :: u64 where
  "XQC_MIN_STREAM_BUFFERED_BYTES_PER_FRAME = 256"
definition XQC_MAX_CRYPTO_FRAME_BUFFERED_COUNT :: u64 where "XQC_MAX_CRYPTO_FRAME_BUFFERED_COUNT = 1024"
definition XQC_MAX_CRYPTO_FRAME_BUFFERED_BYTES :: u64 where
  "XQC_MAX_CRYPTO_FRAME_BUFFERED_BYTES = 1 * 1024 * 1024"
definition XQC_CONN_MAX_CRYPTO_DATA_TOTAL_LEN :: u64 where
  "XQC_CONN_MAX_CRYPTO_DATA_TOTAL_LEN = 10 * 1024 * 1024"
definition TRA_CRYPTO_BUFFER_EXCEEDED :: u64 where "TRA_CRYPTO_BUFFER_EXCEEDED = 0xD"

text \<open>\<open>frame->data_offset + frame->data_length\<close>\<close>

definition sf_end :: "xqc_stream_frame \<Rightarrow> u64" where
  "sf_end f = data_offset f + ucast (data_length f)"

section \<open>Inserting a frame\<close>

text \<open>
  The search from the tail: \<open>None\<close> for a frame that is contained in one already there, otherwise
  the frames in front of the new one and those behind it. \<open>rb\<close> holds the frames not yet visited, the last one
  first.
\<close>

fun insert_scan ::
    "xqc_stream_frame \<Rightarrow> xqc_stream_frame list \<Rightarrow> xqc_stream_frame list \<Rightarrow>
     (xqc_stream_frame list \<times> xqc_stream_frame list) option" where
  "insert_scan new [] behind = Some ([], behind)"
| "insert_scan new (f # rb) behind =
     (if data_offset new \<ge> data_offset f \<and> data_length new > 0 \<and> sf_end new \<le> sf_end f then None
      else if data_offset new \<ge> data_offset f then Some (rev (f # rb), behind)
      else insert_scan new rb (f # behind))"

fun merge_right :: "u64 \<Rightarrow> xqc_stream_frame list \<Rightarrow> u64" where
  "merge_right m [] = m"
| "merge_right m (f # fs) = (if m \<ge> data_offset f then merge_right (max (sf_end f) m) fs else m)"

definition stream_caps :: "u64 \<Rightarrow> u64 \<times> u64" where
  "stream_caps cfg =
     (if cfg > 0 then cfg else XQC_MAX_STREAM_FRAME_BUFFERED_COUNT,
      if cfg > 0 then cfg else XQC_MAX_STREAM_FRAME_BUFFERED_COUNT_HARD)"

definition stream_cap_reject :: "u64 \<Rightarrow> xqc_stream_data_in \<Rightarrow> xqc_stream_frame \<Rightarrow> bool" where
  "stream_cap_reject cfg di new =
     (let (sparse_cap, hard_cap) = stream_caps cfg;
          extends_prefix = data_offset new \<le> merged_offset_end di \<and> sf_end new > merged_offset_end di;
          count_after = buffered_frame_count di + (if extends_prefix then 0 else 1);
          hard_limit = count_after \<ge> hard_cap;
          sparse_limit = count_after \<ge> sparse_cap
            \<and> buffered_data_bytes di + ucast (data_length new)
              < count_after * XQC_MIN_STREAM_BUFFERED_BYTES_PER_FRAME
      in hard_limit \<or> sparse_limit)"

text \<open>\<open>cfg\<close> is \<open>conn_settings.max_stream_frame_buffered_cnt\<close>.\<close>

definition xqc_insert_stream_frame ::
    "u64 \<Rightarrow> xqc_stream_data_in \<Rightarrow> xqc_stream_frame \<Rightarrow> xqc_stream_data_in \<times> unit res" where
  "xqc_insert_stream_frame cfg di new =
     (if stream_cap_reject cfg di new then (di\<lparr>cap_reject_logged := True\<rparr>, Inl XQC_ELIMIT)
      else case insert_scan new (rev (frames_tailq di)) [] of
        None \<Rightarrow> (di, Inl XQC_EDUP_FRAME)
      | Some (before, behind) \<Rightarrow>
          let m = merged_offset_end di;
              m = (if m \<ge> data_offset new \<and> m < sf_end new then merge_right (sf_end new) behind else m)
          in (di\<lparr>frames_tailq := before @ new # behind, merged_offset_end := m,
                 buffered_frame_count := buffered_frame_count di + 1, cap_reject_logged := False,
                 buffered_data_bytes := buffered_data_bytes di + ucast (data_length new)\<rparr>, Inr ()))"

section \<open>Reading\<close>

text \<open>The counters when a frame is taken out of the list.\<close>

definition di_uncount :: "xqc_stream_frame \<Rightarrow> xqc_stream_data_in \<Rightarrow> xqc_stream_data_in" where
  "di_uncount f di =
     di\<lparr>buffered_frame_count :=
          (if buffered_frame_count di > 0 then buffered_frame_count di - 1 else buffered_frame_count di),
        buffered_data_bytes :=
          (if buffered_data_bytes di \<ge> ucast (data_length f)
           then buffered_data_bytes di - ucast (data_length f) else 0)\<rparr>"

text \<open>
  The loop of \<open>xqc_stream_recv\<close> with a buffer of \<open>sz\<close> bytes, \<open>out\<close> of which are filled; the
  frames not taken out of the list are returned with the bytes.
\<close>

fun stream_recv_loop ::
    "nat \<Rightarrow> bytes \<Rightarrow> xqc_stream_data_in \<Rightarrow> xqc_stream_frame list \<Rightarrow>
     bytes \<times> xqc_stream_data_in \<times> xqc_stream_frame list" where
  "stream_recv_loop sz out di [] = (out, di, [])"
| "stream_recv_loop sz out di (f # fs) =
     (if data_offset f > merged_offset_end di then (out, di, f # fs)
      else if length out \<ge> sz then (out, di, f # fs)
      else if sf_end f < di_next_read_offset di then stream_recv_loop sz out (di_uncount f di) fs
      else
        let f = (if data_offset f < di_next_read_offset di
                 then f\<lparr>next_read_offset :=
                          max (next_read_offset f) (di_next_read_offset di - data_offset f)\<rparr>
                 else f);
            frame_left = ucast (data_length f) - next_read_offset f;
            left_data = drop (unat (next_read_offset f)) (sf_data f)
        in if length out + unat frame_left \<le> sz
           then stream_recv_loop sz (out @ take (unat frame_left) left_data)
                  (di_uncount f (di\<lparr>di_next_read_offset := di_next_read_offset di + frame_left\<rparr>)) fs
           else let n = sz - length out
                in (out @ take n left_data,
                    di\<lparr>di_next_read_offset := di_next_read_offset di + of_nat n\<rparr>,
                    f\<lparr>next_read_offset := next_read_offset f + of_nat n\<rparr> # fs))"

definition stream_read :: "nat \<Rightarrow> xqc_stream_data_in \<Rightarrow> bytes \<times> xqc_stream_data_in" where
  "stream_read sz di =
     (let (out, di', fs) = stream_recv_loop sz [] di (frames_tailq di) in (out, di'\<lparr>frames_tailq := fs\<rparr>))"

section \<open>CRYPTO streams\<close>

definition xqc_check_crypto_frame_data_buffer_exceed ::
    "xqc_stream_data_in \<Rightarrow> xqc_stream_frame \<Rightarrow> u64 \<Rightarrow> unit res" where
  "xqc_check_crypto_frame_data_buffer_exceed di f threshold =
     (if sf_end f > di_next_read_offset di + threshold then Inl XQC_ELIMIT else Inr ())"

fun crypto_scan ::
    "xqc_stream_frame \<Rightarrow> xqc_stream_frame list \<Rightarrow> xqc_stream_frame list \<Rightarrow> xqc_stream_frame list" where
  "crypto_scan new [] behind = new # behind"
| "crypto_scan new (f # rb) behind =
     (if data_offset new \<ge> data_offset f then rev (f # rb) @ new # behind
      else crypto_scan new rb (f # behind))"

definition xqc_insert_crypto_frame ::
    "xqc_connection \<Rightarrow> xqc_stream_data_in \<Rightarrow> xqc_stream_frame \<Rightarrow>
     xqc_connection \<times> xqc_stream_data_in \<times> unit res" where
  "xqc_insert_crypto_frame conn di new =
     (case xqc_check_crypto_frame_data_buffer_exceed di new XQC_CONN_MAX_CRYPTO_DATA_TOTAL_LEN of
        Inl e \<Rightarrow> (XQC_CONN_ERR conn TRA_CRYPTO_BUFFER_EXCEEDED, di, Inl e)
      | Inr _ \<Rightarrow>
          if buffered_frame_count di \<ge> XQC_MAX_CRYPTO_FRAME_BUFFERED_COUNT
             \<or> buffered_data_bytes di + ucast (data_length new) > XQC_MAX_CRYPTO_FRAME_BUFFERED_BYTES
          then (XQC_CONN_ERR conn TRA_CRYPTO_BUFFER_EXCEEDED, di, Inl XQC_ELIMIT)
          else (conn,
                di\<lparr>frames_tailq := crypto_scan new (rev (frames_tailq di)) [],
                   buffered_frame_count := buffered_frame_count di + 1,
                   buffered_data_bytes := buffered_data_bytes di + ucast (data_length new)\<rparr>, Inr ()))"

text \<open>
  \<open>process\<close> stands for \<open>xqc_tls_process_crypto_data\<close> of the TLS layer on its state; its second
  result says whether it succeeded.
\<close>

fun crypto_read_loop ::
    "(bytes \<Rightarrow> 't \<Rightarrow> 't \<times> bool) \<Rightarrow> 't \<Rightarrow> xqc_stream_data_in \<Rightarrow> xqc_stream_frame list \<Rightarrow>
     't \<times> xqc_stream_data_in \<times> xqc_stream_frame list \<times> unit res" where
  "crypto_read_loop process tls di [] = (tls, di, [], Inr ())"
| "crypto_read_loop process tls di (f # fs) =
     (if di_next_read_offset di < data_offset f then (tls, di, f # fs, Inr ())
      else if di_next_read_offset di \<ge> sf_end f then crypto_read_loop process tls (di_uncount f di) fs
      else
        let data_len = sf_end f - di_next_read_offset di;
            data_start = drop (unat (di_next_read_offset di - data_offset f)) (sf_data f);
            di = di_uncount f (di\<lparr>di_next_read_offset := di_next_read_offset di + data_len\<rparr>);
            (tls, ok) = process (take (unat data_len) data_start) tls
        in if \<not> ok then (tls, di, fs, Inl XQC_EILLEGAL_FRAME)
           else crypto_read_loop process tls di fs)"

definition xqc_read_crypto_stream ::
    "(bytes \<Rightarrow> 't \<Rightarrow> 't \<times> bool) \<Rightarrow> 't \<Rightarrow> xqc_stream_data_in \<Rightarrow> 't \<times> xqc_stream_data_in \<times> unit res" where
  "xqc_read_crypto_stream process tls di =
     (let (tls, di, fs, ret) = crypto_read_loop process tls di (frames_tailq di)
      in (tls, di\<lparr>frames_tailq := fs\<rparr>, ret))"

section \<open>Header sizes\<close>

text \<open>
  In C the conditional binds weaker than the sum: the condition of
  \<open>xqc_stream_frame_header_size\<close> is \<open>1 + len(stream_id) + offset\<close>.
\<close>

definition xqc_stream_frame_header_size :: "u64 \<Rightarrow> u64 \<Rightarrow> u64 \<Rightarrow> nat" where
  "xqc_stream_frame_header_size stream_id offset len =
     (if 1 + of_nat (xqc_vint_len_by_val stream_id) + offset \<noteq> 0 then xqc_vint_len_by_val offset
      else 0 + xqc_vint_len_by_val len)"

definition xqc_crypto_frame_header_size :: "u64 \<Rightarrow> u64 \<Rightarrow> nat" where
  "xqc_crypto_frame_header_size offset len =
     1 + xqc_vint_len_by_val offset + xqc_vint_len_by_val len"

section \<open>Specification\<close>

text \<open>
  \<open>c\<close> is the contents of the stream as the peer sends it: the byte at each offset. A frame is
  consistent if it carries a piece of it that ends below \<open>2 ^ 62\<close>, which the parser checks.
\<close>

definition sf_lo :: "xqc_stream_frame \<Rightarrow> nat" where
  "sf_lo f = unat (data_offset f)"

definition sf_hi :: "xqc_stream_frame \<Rightarrow> nat" where
  "sf_hi f = unat (data_offset f) + unat (data_length f)"

definition sf_ok :: "(nat \<Rightarrow> u8) \<Rightarrow> xqc_stream_frame \<Rightarrow> bool" where
  "sf_ok c f \<longleftrightarrow> sf_data f = map c [sf_lo f..<sf_hi f] \<and> sf_hi f < 2 ^ 62"

definition sf_range :: "xqc_stream_frame \<Rightarrow> nat set" where
  "sf_range f = {sf_lo f..<sf_hi f}"

definition read_pos :: "xqc_stream_data_in \<Rightarrow> nat" where
  "read_pos di = unat (di_next_read_offset di)"

definition merged_end :: "xqc_stream_data_in \<Rightarrow> nat" where
  "merged_end di = unat (merged_offset_end di)"

definition received :: "xqc_stream_data_in \<Rightarrow> nat set" where
  "received di = {..<read_pos di} \<union> (\<Union>f \<in> set (frames_tailq di). sf_range f)"

text \<open>
  Reading has not skipped a byte of any frame, the frames are ordered, the merged prefix is covered by what is read or
  buffered, and no frame that touches it reaches beyond it.
\<close>

definition frames_ok :: "(nat \<Rightarrow> u8) \<Rightarrow> nat \<Rightarrow> nat \<Rightarrow> xqc_stream_frame list \<Rightarrow> bool" where
  "frames_ok c r m fs \<longleftrightarrow>
     (\<forall>f \<in> set fs. sf_ok c f \<and> sf_lo f + unat (next_read_offset f) \<le> max (sf_lo f) r
        \<and> (sf_lo f \<le> m \<longrightarrow> sf_hi f \<le> m))
     \<and> sorted_wrt (\<lambda>a b. sf_lo a \<le> sf_lo b) fs
     \<and> {r..<m} \<subseteq> (\<Union>f \<in> set fs. sf_range f)"

definition di_inv :: "(nat \<Rightarrow> u8) \<Rightarrow> xqc_stream_data_in \<Rightarrow> bool" where
  "di_inv c di \<longleftrightarrow> read_pos di \<le> merged_end di \<and> merged_end di < 2 ^ 62
     \<and> frames_ok c (read_pos di) (merged_end di) (frames_tailq di)"

lemma unat_sf_end: "sf_hi f < 2 ^ 62 \<Longrightarrow> unat (sf_end f) = sf_hi f"
proof -
  assume h: "sf_hi f < 2 ^ 62"
  have u: "unat (ucast (data_length f) :: u64) = unat (data_length f)" by (rule unat_ucast_up) simp
  show ?thesis using h unfolding sf_end_def sf_hi_def
    by (subst unat_plus_if') (simp add: u)
qed

lemma sf_ok_hi [simp]: "sf_ok c f \<Longrightarrow> unat (sf_end f) = sf_hi f"
  by (simp add: sf_ok_def unat_sf_end)

lemmas di_nat = word_le_nat_alt word_less_nat_alt sf_lo_def [symmetric] merged_end_def [symmetric]
  read_pos_def [symmetric]

section \<open>Inserting\<close>

lemma insert_scan_Some:
  "insert_scan new rb behind = Some (b, a) \<Longrightarrow>
   b @ a = rev rb @ behind \<and> (\<exists>k. a = k @ behind)
   \<and> (\<forall>f \<in> set b. b \<noteq> [] \<longrightarrow> sf_lo (last b) \<le> sf_lo new)
   \<and> (\<forall>k. a = k @ behind \<longrightarrow> (\<forall>f \<in> set k. sf_lo new < sf_lo f))"
proof (induction new rb behind rule: insert_scan.induct)
  case (1 new behind)
  then show ?case by simp
next
  case (2 new f rb behind)
  show ?case
  proof (cases "data_offset new \<ge> data_offset f")
    case True
    with 2(2) show ?thesis by (auto simp: di_nat split: if_splits)
  next
    case False
    with 2 have IH: "b @ a = rev rb @ f # behind \<and> (\<exists>k. a = k @ f # behind)
      \<and> (\<forall>f \<in> set b. b \<noteq> [] \<longrightarrow> sf_lo (last b) \<le> sf_lo new)
      \<and> (\<forall>k. a = k @ f # behind \<longrightarrow> (\<forall>f \<in> set k. sf_lo new < sf_lo f))" by simp
    then obtain k where k: "a = k @ f # behind" by blast
    have "sf_lo new < sf_lo f" using False by (simp add: di_nat)
    with IH k show ?thesis by auto
  qed
qed

lemma sorted_last:
  assumes "sorted_wrt (\<lambda>a b. sf_lo a \<le> sf_lo b) (b @ a)" and "b \<noteq> [] \<Longrightarrow> sf_lo (last b) \<le> sf_lo new" and "f \<in> set b"
  shows "sf_lo f \<le> sf_lo new"
proof -
  from assms(3) obtain x y where b: "b = x @ [y]" by (cases b rule: rev_cases) auto
  have "sf_lo f \<le> sf_lo y" using assms(1,3) unfolding b by (auto simp: sorted_wrt_append)
  with assms(2) b show ?thesis by simp
qed

lemma insert_scan_sorted:
  assumes "insert_scan new (rev fs) [] = Some (b, a)" and "sorted_wrt (\<lambda>x y. sf_lo x \<le> sf_lo y) fs"
  shows "fs = b @ a" and "\<forall>f \<in> set b. sf_lo f \<le> sf_lo new" and "\<forall>f \<in> set a. sf_lo new < sf_lo f"
proof -
  from insert_scan_Some [OF assms(1)] show fs: "fs = b @ a" and "\<forall>f \<in> set a. sf_lo new < sf_lo f" by auto
  have last: "b \<noteq> [] \<Longrightarrow> sf_lo (last b) \<le> sf_lo new"
    using insert_scan_Some [OF assms(1)] by (cases b) auto
  show "\<forall>f \<in> set b. sf_lo f \<le> sf_lo new"
    using sorted_last [OF assms(2) [unfolded fs] last] by blast
qed

lemma insert_scan_None:
  "insert_scan new rb behind = None \<Longrightarrow> \<exists>f \<in> set rb. data_offset f \<le> data_offset new \<and> sf_end new \<le> sf_end f"
  by (induction new rb behind rule: insert_scan.induct) (auto split: if_splits)

lemma merge_right_spec:
  assumes "\<forall>f \<in> set fs. sf_ok c f" and "sorted_wrt (\<lambda>x y. sf_lo x \<le> sf_lo y) fs" and "unat m < 2 ^ 62"
  shows "unat m \<le> unat (merge_right m fs)" and "unat (merge_right m fs) < 2 ^ 62"
    and "{unat m..<unat (merge_right m fs)} \<subseteq> (\<Union>f \<in> set fs. sf_range f)"
    and "\<forall>f \<in> set fs. sf_lo f \<le> unat (merge_right m fs) \<longrightarrow> sf_hi f \<le> unat (merge_right m fs)"
proof -
  have "unat m \<le> unat (merge_right m fs) \<and> unat (merge_right m fs) < 2 ^ 62
    \<and> {unat m..<unat (merge_right m fs)} \<subseteq> (\<Union>f \<in> set fs. sf_range f)
    \<and> (\<forall>f \<in> set fs. sf_lo f \<le> unat (merge_right m fs) \<longrightarrow> sf_hi f \<le> unat (merge_right m fs))"
    using assms
  proof (induction fs arbitrary: m)
    case Nil
    then show ?case by simp
  next
    case (Cons f fs)
    from Cons.prems(1) have f1: "sf_ok c f" by simp
    note f = this sf_ok_hi [OF this]
    from f(1) have f3: "sf_hi f < 2 ^ 62" by (simp add: sf_ok_def)
    show ?case
    proof (cases "data_offset f \<le> m")
      case True
      let ?n = "max (sf_end f) m"
      have n: "unat ?n = max (sf_hi f) (unat m)" using f(2) by (auto simp: max_def word_le_nat_alt)
      then have "unat ?n < 2 ^ 62" using f3 Cons.prems(3) by simp
      with Cons.IH [of ?n] Cons.prems
      have IH: "unat ?n \<le> unat (merge_right ?n fs)" "unat (merge_right ?n fs) < 2 ^ 62"
        "{unat ?n..<unat (merge_right ?n fs)} \<subseteq> (\<Union>f \<in> set fs. sf_range f)"
        "\<forall>f \<in> set fs. sf_lo f \<le> unat (merge_right ?n fs) \<longrightarrow> sf_hi f \<le> unat (merge_right ?n fs)" by auto
      have "x \<in> (\<Union>g \<in> set (f # fs). sf_range g)" if x: "unat m \<le> x" "x < unat (merge_right ?n fs)" for x
      proof (cases "x < sf_hi f")
        case True
        then have "x \<in> sf_range f" using x(1) \<open>data_offset f \<le> m\<close> by (simp add: sf_range_def di_nat)
        then show ?thesis by simp
      next
        case False
        then have "x \<in> {unat ?n..<unat (merge_right ?n fs)}" using x n by simp
        then show ?thesis using IH(3) by auto
      qed
      then have sub: "{unat m..<unat (merge_right ?n fs)} \<subseteq> (\<Union>g \<in> set (f # fs). sf_range g)"
        by (meson atLeastLessThan_iff subsetI)
      have hi: "sf_hi f \<le> unat (merge_right ?n fs)" and m: "unat m \<le> unat (merge_right ?n fs)" using n IH(1) by auto
      have "merge_right m (f # fs) = merge_right ?n fs" using True by simp
      then show ?thesis using m sub IH(2,4) hi by simp
    next
      case False
      then have "unat m < sf_lo f" by (simp add: di_nat)
      then have "\<forall>g \<in> set (f # fs). unat m < sf_lo g" using Cons.prems(2) by fastforce
      then show ?thesis using False Cons.prems(3) by auto
    qed
  qed
  then show "unat m \<le> unat (merge_right m fs)" "unat (merge_right m fs) < 2 ^ 62"
    "{unat m..<unat (merge_right m fs)} \<subseteq> (\<Union>f \<in> set fs. sf_range f)"
    "\<forall>f \<in> set fs. sf_lo f \<le> unat (merge_right m fs) \<longrightarrow> sf_hi f \<le> unat (merge_right m fs)" by auto
qed

lemma merge_covers:
  assumes cov: "{r..<m} \<subseteq> (\<Union>x \<in> set (b @ a). sf_range x)" and ext: "sf_lo new \<le> m"
    and mr: "{sf_hi new..<m'} \<subseteq> (\<Union>x \<in> set a. sf_range x)"
  shows "{r..<m'} \<subseteq> (\<Union>y \<in> set (b @ new # a). sf_range y)"
proof
  fix x assume x: "x \<in> {r..<m'}"
  consider "x < m" | "m \<le> x" "x < sf_hi new" | "sf_hi new \<le> x" by linarith
  then show "x \<in> (\<Union>y \<in> set (b @ new # a). sf_range y)"
  proof cases
    case 1
    with cov x have "x \<in> (\<Union>y \<in> set (b @ a). sf_range y)" by (meson atLeastLessThan_iff subsetD)
    then show ?thesis by auto
  next
    case 2
    with ext have "x \<in> sf_range new" by (simp add: sf_range_def)
    then show ?thesis by simp
  next
    case 3
    with mr x have "x \<in> (\<Union>y \<in> set a. sf_range y)" by (meson atLeastLessThan_iff subsetD)
    then show ?thesis by auto
  qed
qed

lemma insert_stream_ok:
  assumes inv: "di_inv c di" and f: "sf_ok c new" "next_read_offset new = 0"
    and ins: "xqc_insert_stream_frame cfg di new = (di', Inr ())"
  shows "di_inv c di'" and "received di' = received di \<union> sf_range new"
    and "read_pos di' = read_pos di"
proof -
  let ?fs = "frames_tailq di"
  from ins obtain b a where scan: "insert_scan new (rev ?fs) [] = Some (b, a)"
    and di': "frames_tailq di' = b @ new # a" "di_next_read_offset di' = di_next_read_offset di"
    and m': "merged_offset_end di' = (if data_offset new \<le> merged_offset_end di \<and> merged_offset_end di < sf_end new
      then merge_right (sf_end new) a else merged_offset_end di)"
    by (auto simp: xqc_insert_stream_frame_def Let_def split: if_splits option.splits)
  have ok: "frames_ok c (read_pos di) (merged_end di) ?fs" and rm: "read_pos di \<le> merged_end di" "merged_end di < 2 ^ 62"
    using inv by (auto simp: di_inv_def)
  have srt: "sorted_wrt (\<lambda>x y. sf_lo x \<le> sf_lo y) ?fs" using ok by (simp add: frames_ok_def)
  note ba = insert_scan_sorted [OF scan srt]
  have srt': "sorted_wrt (\<lambda>x y. sf_lo x \<le> sf_lo y) (b @ new # a)"
    using srt ba(2,3) unfolding ba(1) by (fastforce simp: sorted_wrt_append)
  show rp: "read_pos di' = read_pos di" using di' by (simp add: read_pos_def)
  show "received di' = received di \<union> sf_range new"
    using rp di' ba(1) by (auto simp: received_def)
  have new_hi: "unat (sf_end new) = sf_hi new" "sf_hi new < 2 ^ 62" using f(1) by (simp_all add: sf_ok_def unat_sf_end)
  have old: "\<forall>x \<in> set (b @ a). sf_ok c x \<and> sf_lo x + unat (next_read_offset x) \<le> max (sf_lo x) (read_pos di)
     \<and> (sf_lo x \<le> merged_end di \<longrightarrow> sf_hi x \<le> merged_end di)"
    using ok ba(1) by (simp add: frames_ok_def)
  have cov: "{read_pos di..<merged_end di} \<subseteq> (\<Union>x \<in> set (b @ a). sf_range x)"
    using ok ba(1) by (simp add: frames_ok_def)
  show "di_inv c di'"
  proof (cases "data_offset new \<le> merged_offset_end di \<and> merged_offset_end di < sf_end new")
    case True
    then have ext: "sf_lo new \<le> merged_end di" "merged_end di < sf_hi new" using new_hi(1) by (auto simp: di_nat)
    have m: "merged_end di' = unat (merge_right (sf_end new) a)" using m' True by (simp add: merged_end_def)
    have "\<forall>x \<in> set a. sf_ok c x" "sorted_wrt (\<lambda>x y. sf_lo x \<le> sf_lo y) a" "unat (sf_end new) < 2 ^ 62"
      using old srt' new_hi by (auto simp: sorted_wrt_append)
    from merge_right_spec [OF this, folded m] new_hi(1)
    have mr: "sf_hi new \<le> merged_end di'" "merged_end di' < 2 ^ 62"
      "{sf_hi new..<merged_end di'} \<subseteq> (\<Union>x \<in> set a. sf_range x)"
      "\<forall>x \<in> set a. sf_lo x \<le> merged_end di' \<longrightarrow> sf_hi x \<le> merged_end di'" by simp_all
    have "{read_pos di..<merged_end di'} \<subseteq> (\<Union>y \<in> set (b @ new # a). sf_range y)"
      by (rule merge_covers [OF cov ext(1) mr(3)])
    moreover have "\<forall>x \<in> set b. sf_hi x \<le> merged_end di'"
    proof
      fix x assume x: "x \<in> set b"
      with ba(2) ext(1) have "sf_lo x \<le> merged_end di" by fastforce
      with old x have "sf_hi x \<le> merged_end di" by simp
      with ext(2) mr(1) show "sf_hi x \<le> merged_end di'" by simp
    qed
    ultimately show ?thesis
      using rm ext mr srt' old f by (auto simp: di_inv_def frames_ok_def rp di' intro: order_trans)
  next
    case False
    then have m: "merged_end di' = merged_end di" using m' by (auto simp: merged_end_def)
    have "sf_lo new \<le> merged_end di \<Longrightarrow> sf_hi new \<le> merged_end di"
      using False new_hi(1) by (auto simp: di_nat not_less)
    with rm old cov srt' f m show ?thesis by (auto simp: di_inv_def frames_ok_def rp di')
  qed
qed

lemma insert_stream_dup:
  assumes "di_inv c di" and "sf_ok c new" and "xqc_insert_stream_frame cfg di new = (di', Inl XQC_EDUP_FRAME)"
  shows "di' = di" and "sf_range new \<subseteq> received di"
proof -
  from assms(3) have n: "insert_scan new (rev (frames_tailq di)) [] = None" and "di' = di"
    by (auto simp: xqc_insert_stream_frame_def Let_def split: if_splits option.splits)
  then show "di' = di" by simp
  from insert_scan_None [OF n] obtain f where f: "f \<in> set (frames_tailq di)" "data_offset f \<le> data_offset new" "sf_end new \<le> sf_end f"
    by auto
  have "sf_ok c f" using assms(1) f(1) by (auto simp: di_inv_def frames_ok_def)
  with f assms(2) have "sf_range new \<subseteq> sf_range f" by (auto simp: sf_range_def di_nat)
  then show "sf_range new \<subseteq> received di" using f(1) by (auto simp: received_def)
qed

text \<open>The merged prefix ends at the first byte that is missing.\<close>

lemma merged_end_least:
  assumes "di_inv c di"
  shows "merged_end di \<notin> received di" and "{..<merged_end di} \<subseteq> received di"
proof -
  have ok: "frames_ok c (read_pos di) (merged_end di) (frames_tailq di)" "read_pos di \<le> merged_end di"
    using assms by (auto simp: di_inv_def)
  then show "merged_end di \<notin> received di"
    by (auto simp: received_def sf_range_def frames_ok_def)
  show "{..<merged_end di} \<subseteq> received di"
  proof
    fix x assume x: "x \<in> {..<merged_end di}"
    show "x \<in> received di"
    proof (cases "x < read_pos di")
      case False
      with x have "x \<in> {read_pos di..<merged_end di}" by simp
      with ok(1) have "x \<in> (\<Union>f \<in> set (frames_tailq di). sf_range f)" unfolding frames_ok_def by blast
      then show ?thesis by (simp add: received_def)
    qed (simp add: received_def)
  qed
qed

section \<open>Reading\<close>

lemma di_uncount_simps [simp]:
  "read_pos (di_uncount f di) = read_pos di" "merged_end (di_uncount f di) = merged_end di"
  "frames_tailq (di_uncount f di) = frames_tailq di"
  by (simp_all add: di_uncount_def read_pos_def merged_end_def)

lemma frames_ok_first:
  assumes "frames_ok c r m (f # fs)" and "sf_lo f \<le> m" and "r \<le> m"
  shows "sf_lo f \<le> r" and "sf_hi f \<le> m" and "sf_ok c f" and "sf_lo f + unat (next_read_offset f) \<le> r"
proof -
  have el: "sf_ok c f" "sf_lo f + unat (next_read_offset f) \<le> max (sf_lo f) r" "sf_lo f \<le> m \<longrightarrow> sf_hi f \<le> m"
    and srt: "\<forall>g \<in> set fs. sf_lo f \<le> sf_lo g" and cov: "{r..<m} \<subseteq> (\<Union>g \<in> set (f # fs). sf_range g)"
    using assms(1) by (simp_all add: frames_ok_def)
  show lo: "sf_lo f \<le> r"
  proof (cases "r < m")
    case True
    then have "r \<in> {r..<m}" by simp
    with cov obtain g where "g \<in> set (f # fs)" "r \<in> sf_range g" by blast
    with srt show ?thesis by (auto simp: sf_range_def)
  qed (use assms in simp)
  show "sf_hi f \<le> m" "sf_ok c f" using el assms(2) by simp_all
  show "sf_lo f + unat (next_read_offset f) \<le> r" using el(2) lo by (simp add: max_absorb2)
qed

lemma frames_ok_tl:
  assumes "frames_ok c r m (f # fs)" and "r \<le> r'" and "sf_hi f \<le> r'"
  shows "frames_ok c r' m fs"
proof -
  have "x \<in> (\<Union>g \<in> set fs. sf_range g)" if "x \<in> {r'..<m}" for x
  proof -
    have "x \<in> {r..<m}" using that assms(2) by simp
    with assms(1) have "x \<in> (\<Union>g \<in> set (f # fs). sf_range g)" unfolding frames_ok_def by blast
    moreover have "x \<notin> sf_range f" using that assms(3) by (simp add: sf_range_def)
    ultimately show ?thesis by auto
  qed
  then have "{r'..<m} \<subseteq> (\<Union>g \<in> set fs. sf_range g)" by blast
  moreover have "sf_lo g + unat (next_read_offset g) \<le> max (sf_lo g) r'" if "g \<in> set fs" for g
  proof -
    have "sf_lo g + unat (next_read_offset g) \<le> max (sf_lo g) r" using assms(1) that by (simp add: frames_ok_def)
    also have "\<dots> \<le> max (sf_lo g) r'" using assms(2) by simp
    finally show ?thesis .
  qed
  ultimately show ?thesis using assms(1) by (simp add: frames_ok_def)
qed

text \<open>The position inside the first frame that the loop computes.\<close>

definition frame_pos :: "xqc_stream_data_in \<Rightarrow> xqc_stream_frame \<Rightarrow> xqc_stream_frame" where
  "frame_pos di f =
     (if data_offset f < di_next_read_offset di
      then f\<lparr>next_read_offset := max (next_read_offset f) (di_next_read_offset di - data_offset f)\<rparr> else f)"

lemma frame_pos_eq:
  assumes "sf_lo f \<le> read_pos di" and "sf_lo f + unat (next_read_offset f) \<le> read_pos di"
  shows "unat (next_read_offset (frame_pos di f)) = read_pos di - sf_lo f"
    and "sf_data (frame_pos di f) = sf_data f" and "data_length (frame_pos di f) = data_length f"
    and "data_offset (frame_pos di f) = data_offset f"
proof -
  have le: "data_offset f \<le> di_next_read_offset di" using assms(1) by (simp add: word_le_nat_alt read_pos_def sf_lo_def)
  then have d: "unat (di_next_read_offset di - data_offset f) = read_pos di - sf_lo f"
    by (simp add: unat_sub read_pos_def sf_lo_def)
  have "next_read_offset f \<le> di_next_read_offset di - data_offset f"
    using assms(2) by (simp add: word_le_nat_alt d)
  then have mx: "max (next_read_offset f) (di_next_read_offset di - data_offset f) = di_next_read_offset di - data_offset f"
    by (rule max_absorb2)
  show "unat (next_read_offset (frame_pos di f)) = read_pos di - sf_lo f"
  proof (cases "data_offset f < di_next_read_offset di")
    case True
    then show ?thesis by (simp add: frame_pos_def mx d)
  next
    case False
    with le have "data_offset f = di_next_read_offset di" by simp
    then have "sf_lo f = read_pos di" by (simp add: sf_lo_def read_pos_def)
    with assms(2) False show ?thesis by (simp add: frame_pos_def)
  qed
  show "sf_data (frame_pos di f) = sf_data f" "data_length (frame_pos di f) = data_length f"
    "data_offset (frame_pos di f) = data_offset f"
    by (simp_all add: frame_pos_def)
qed

lemma frame_left_eq:
  assumes "sf_ok c f" and "sf_lo f \<le> read_pos di" and "sf_lo f + unat (next_read_offset f) \<le> read_pos di"
    and "read_pos di \<le> sf_hi f"
  shows "unat (ucast (data_length f) - next_read_offset (frame_pos di f)) = sf_hi f - read_pos di"
    and "drop (unat (next_read_offset (frame_pos di f))) (sf_data f) = map c [read_pos di..<sf_hi f]"
proof -
  note n = frame_pos_eq(1) [OF assms(2,3)]
  have u: "unat (ucast (data_length f) :: u64) = unat (data_length f)" by (rule unat_ucast_up) simp
  have h: "sf_hi f = sf_lo f + unat (data_length f)" by (simp add: sf_hi_def sf_lo_def)
  then have "next_read_offset (frame_pos di f) \<le> ucast (data_length f)"
    using assms(4) by (simp add: word_le_nat_alt n u)
  then show "unat (ucast (data_length f) - next_read_offset (frame_pos di f)) = sf_hi f - read_pos di"
    using assms(2,4) h by (simp add: unat_sub n u)
  show "drop (unat (next_read_offset (frame_pos di f))) (sf_data f) = map c [read_pos di..<sf_hi f]"
    using assms(1,2) by (simp add: sf_ok_def n drop_map)
qed

text \<open>One turn of the loop on a frame that reaches the read position, in natural numbers.\<close>

lemma recv_loop_step:
  assumes ok: "frames_ok c (read_pos di) (merged_end di) (f # fs)" and rm: "read_pos di \<le> merged_end di" "merged_end di < 2 ^ 62"
    and "sf_lo f \<le> merged_end di" and "length out < sz" and "read_pos di \<le> sf_hi f"
  shows "\<exists>f1. data_offset f1 = data_offset f \<and> data_length f1 = data_length f \<and> sf_data f1 = sf_data f
    \<and> unat (next_read_offset f1) = read_pos di - sf_lo f
    \<and> stream_recv_loop sz out di (f # fs) =
      (if length out + (sf_hi f - read_pos di) \<le> sz
       then stream_recv_loop sz (out @ map c [read_pos di..<sf_hi f])
              (di_uncount f1 (di\<lparr>di_next_read_offset := di_next_read_offset di + of_nat (sf_hi f - read_pos di)\<rparr>)) fs
       else (out @ map c [read_pos di..<read_pos di + (sz - length out)],
             di\<lparr>di_next_read_offset := di_next_read_offset di + of_nat (sz - length out)\<rparr>,
             f1\<lparr>next_read_offset := next_read_offset f1 + of_nat (sz - length out)\<rparr> # fs))"
proof -
  note f = frames_ok_first [OF ok assms(4) rm(1)]
  let ?f = "frame_pos di f"
  note fp = frame_pos_eq [OF f(1,4)] and fl = frame_left_eq [OF f(3,1,4) assms(6)]
  have c: "\<not> data_offset f > merged_offset_end di" "\<not> sz \<le> length out" "\<not> sf_end f < di_next_read_offset di"
    using assms(4-6) f(3) by (simp_all add: di_nat not_less)
  define r k where "r = read_pos di" and "k = sf_hi f - r"
  have left: "ucast (data_length ?f) - next_read_offset ?f = of_nat k"
    by (simp add: fp(3) k_def r_def fl(1) [symmetric])
  have u: "unat (of_nat k :: u64) = k" using fl(1) left fp(3) by (simp add: k_def r_def)
  have d: "drop (unat (next_read_offset ?f)) (sf_data ?f) = map c [r..<r + k]"
    using fl(2) fp(2) assms(6) by (simp add: k_def r_def)
  have all: "take k (map c [r..<r + k]) = map c [r..<r + k]" by simp
  have part: "take n (map c [r..<r + k]) = map c [r..<r + n]" if "n \<le> k" for n
    using that by (simp add: take_map)
  have "stream_recv_loop sz out di (f # fs) =
      (if length out + k \<le> sz
       then stream_recv_loop sz (out @ map c [r..<r + k])
              (di_uncount ?f (di\<lparr>di_next_read_offset := di_next_read_offset di + of_nat k\<rparr>)) fs
       else (out @ take (sz - length out) (map c [r..<r + k]),
             di\<lparr>di_next_read_offset := di_next_read_offset di + of_nat (sz - length out)\<rparr>,
             ?f\<lparr>next_read_offset := next_read_offset ?f + of_nat (sz - length out)\<rparr> # fs))"
    unfolding stream_recv_loop.simps frame_pos_def [symmetric] Let_def left d u all
    by (simp only: c if_False)
  moreover have "r + k = sf_hi f" using assms(6) by (simp add: k_def r_def)
  ultimately have "stream_recv_loop sz out di (f # fs) =
      (if length out + (sf_hi f - read_pos di) \<le> sz
       then stream_recv_loop sz (out @ map c [read_pos di..<sf_hi f])
              (di_uncount ?f (di\<lparr>di_next_read_offset := di_next_read_offset di + of_nat (sf_hi f - read_pos di)\<rparr>)) fs
       else (out @ map c [read_pos di..<read_pos di + (sz - length out)],
             di\<lparr>di_next_read_offset := di_next_read_offset di + of_nat (sz - length out)\<rparr>,
             ?f\<lparr>next_read_offset := next_read_offset ?f + of_nat (sz - length out)\<rparr> # fs))"
    unfolding k_def [symmetric] r_def [symmetric] using part [of "sz - length out"] by (simp only: split: if_split) auto
  with fp show ?thesis by blast
qed

text \<open>What a run of the loop that reads \<open>n\<close> bytes from the position \<open>r\<close> gives.\<close>

definition read_post ::
    "(nat \<Rightarrow> u8) \<Rightarrow> nat \<Rightarrow> nat \<Rightarrow> nat \<Rightarrow> bytes \<Rightarrow> xqc_stream_frame list \<Rightarrow>
     bytes \<times> xqc_stream_data_in \<times> xqc_stream_frame list \<Rightarrow> bool" where
  "read_post c r m n out fs res \<longleftrightarrow> (case res of (out', di', fs') \<Rightarrow>
     out' = out @ map c [r..<r + n] \<and> read_pos di' = r + n \<and> merged_end di' = m
     \<and> frames_ok c (r + n) m fs'
     \<and> {..<r + n} \<union> (\<Union>f \<in> set fs'. sf_range f) = {..<r} \<union> (\<Union>f \<in> set fs. sf_range f))"

lemma read_post_stop:
  assumes "frames_ok c (read_pos di) (merged_end di) fs" and "read_pos di = r" and "merged_end di = m"
  shows "read_post c r m 0 out fs (out, di, fs)"
  using assms by (simp add: read_post_def)

lemma read_post_skip:
  assumes "read_post c r m n out fs res" and "sf_range f \<subseteq> {..<r}"
  shows "read_post c r m n out (f # fs) res"
proof -
  obtain out' di' fs' where res: "res = (out', di', fs')" by (cases res)
  from assms(2) have "{..<r} \<union> (\<Union>g \<in> set (f # fs). sf_range g) = {..<r} \<union> (\<Union>g \<in> set fs. sf_range g)"
    by (simp add: Un_absorb2 sup_assoc [symmetric])
  with assms(1) res show ?thesis unfolding read_post_def by simp
qed

lemma read_post_read:
  assumes "read_post c (sf_hi f) m n (out @ map c [r..<sf_hi f]) fs res" and "sf_lo f \<le> r" and "r \<le> sf_hi f"
  shows "read_post c r m (sf_hi f - r + n) out (f # fs) res"
proof -
  obtain out' di' fs' where res: "res = (out', di', fs')" by (cases res)
  have a: "r + (sf_hi f - r + n) = sf_hi f + n" using assms(3) by simp
  have b: "map c [r..<sf_hi f] @ map c [sf_hi f..<sf_hi f + n] = map c [r..<sf_hi f + n]"
    using assms(3) by (metis map_append upt_add_eq_append le_iff_add add.assoc)
  have "{..<r} \<union> sf_range f = {..<sf_hi f}" using assms(2,3) by (auto simp: sf_range_def)
  then have "{..<r} \<union> (\<Union>g \<in> set (f # fs). sf_range g) = {..<sf_hi f} \<union> (\<Union>g \<in> set fs. sf_range g)"
    by (simp add: sup_assoc [symmetric])
  with assms(1) show ?thesis unfolding read_post_def res a prod.case b [symmetric] by simp
qed

lemma read_pos_add:
  "read_pos di + n < 2 ^ 64 \<Longrightarrow>
   read_pos (di\<lparr>di_next_read_offset := di_next_read_offset di + of_nat n\<rparr>) = read_pos di + n"
  by (simp add: read_pos_def unat_word_ariths unsigned_of_nat take_bit_nat_eq_self)

lemma merged_end_next [simp]: "merged_end (di\<lparr>di_next_read_offset := x\<rparr>) = merged_end di"
  by (simp add: merged_end_def)

lemma read_post_part:
  assumes ok: "frames_ok c (read_pos di) (merged_end di) (f # fs)" and "read_pos di + n \<le> sf_hi f" and "sf_lo f \<le> read_pos di"
    and f1: "data_offset f1 = data_offset f" "data_length f1 = data_length f" "sf_data f1 = sf_data f"
      "unat (next_read_offset f1) = read_pos di - sf_lo f" and "sf_hi f < 2 ^ 62"
  shows "read_post c (read_pos di) (merged_end di) n out (f # fs)
    (out @ map c [read_pos di..<read_pos di + n], di\<lparr>di_next_read_offset := di_next_read_offset di + of_nat n\<rparr>,
     f1\<lparr>next_read_offset := next_read_offset f1 + of_nat n\<rparr> # fs)"
proof -
  let ?f = "f1\<lparr>next_read_offset := next_read_offset f1 + of_nat n\<rparr>" and ?r = "read_pos di"
  have n: "unat (next_read_offset f1 + of_nat n) = ?r - sf_lo f + n"
    using assms(2,3,8) f1(4) by (simp add: unat_word_ariths unsigned_of_nat take_bit_nat_eq_self)
  have same: "sf_lo ?f = sf_lo f" "sf_hi ?f = sf_hi f" "sf_ok c ?f = sf_ok c f" "sf_range ?f = sf_range f"
    using f1 by (simp_all add: sf_lo_def sf_hi_def sf_ok_def sf_range_def)
  have pos: "read_pos (di\<lparr>di_next_read_offset := di_next_read_offset di + of_nat n\<rparr>) = ?r + n"
    using assms(2,8) by (intro read_pos_add) simp
  have mono: "sf_lo g + unat (next_read_offset g) \<le> max (sf_lo g) (?r + n)" if "g \<in> set fs" for g
  proof -
    have "sf_lo g + unat (next_read_offset g) \<le> max (sf_lo g) ?r" using ok that by (simp add: frames_ok_def)
    also have "\<dots> \<le> max (sf_lo g) (?r + n)" by simp
    finally show ?thesis .
  qed
  have "{?r + n..<merged_end di} \<subseteq> {?r..<merged_end di}" by auto
  also have "\<dots> \<subseteq> (\<Union>g \<in> set (?f # fs). sf_range g)" using ok same by (simp add: frames_ok_def)
  finally have "frames_ok c (?r + n) (merged_end di) (?f # fs)"
    using ok mono assms(3) n by (simp add: frames_ok_def same)
  moreover have "{..<?r + n} \<union> sf_range f = {..<?r} \<union> sf_range f" using assms(2,3) by (auto simp: sf_range_def)
  then have "{..<?r + n} \<union> (\<Union>g \<in> set (?f # fs). sf_range g) = {..<?r} \<union> (\<Union>g \<in> set (f # fs). sf_range g)"
    by (simp add: same sup_assoc [symmetric])
  ultimately show ?thesis unfolding read_post_def prod.case using pos by simp
qed

lemma frames_ok_hole:
  assumes "frames_ok c r m (f # fs)" and "m < sf_lo f" and "r \<le> m"
  shows "r = m"
proof (rule ccontr)
  assume "r \<noteq> m"
  with assms(3) have "r \<in> {r..<m}" by simp
  with assms(1) obtain g where "g \<in> set (f # fs)" "r \<in> sf_range g" unfolding frames_ok_def by blast
  moreover have "\<forall>g \<in> set (f # fs). sf_lo f \<le> sf_lo g" using assms(1) by (simp add: frames_ok_def)
  ultimately show False using assms(2,3) by (fastforce simp: sf_range_def)
qed

lemma recv_loop_rd:
  assumes ok: "frames_ok c (read_pos di) (merged_end di) (f # fs)" and rm: "read_pos di \<le> merged_end di" "merged_end di < 2 ^ 62"
    and rd: "sf_lo f \<le> merged_end di" "length out < sz" "read_pos di \<le> sf_hi f"
    and IH: "\<And>out di. frames_ok c (read_pos di) (merged_end di) fs \<Longrightarrow> read_pos di \<le> merged_end di \<Longrightarrow>
      merged_end di < 2 ^ 62 \<Longrightarrow>
      read_post c (read_pos di) (merged_end di) (min (sz - length out) (merged_end di - read_pos di)) out fs
        (stream_recv_loop sz out di fs)"
  shows "read_post c (read_pos di) (merged_end di) (min (sz - length out) (merged_end di - read_pos di)) out (f # fs)
    (stream_recv_loop sz out di (f # fs))"
proof -
  let ?r = "read_pos di" and ?m = "merged_end di"
  note f = frames_ok_first [OF ok rd(1) rm(1)]
  define k where "k = sf_hi f - ?r"
  then have k: "?r + k = sf_hi f" using rd(3) by simp
  from recv_loop_step [OF ok rm rd, folded k_def]
  obtain f1 where f1: "data_offset f1 = data_offset f" "data_length f1 = data_length f" "sf_data f1 = sf_data f"
    "unat (next_read_offset f1) = ?r - sf_lo f" and step: "stream_recv_loop sz out di (f # fs) =
      (if length out + k \<le> sz
       then stream_recv_loop sz (out @ map c [read_pos di..<sf_hi f])
              (di_uncount f1 (di\<lparr>di_next_read_offset := di_next_read_offset di + of_nat k\<rparr>)) fs
       else (out @ map c [read_pos di..<read_pos di + (sz - length out)],
             di\<lparr>di_next_read_offset := di_next_read_offset di + of_nat (sz - length out)\<rparr>,
             f1\<lparr>next_read_offset := next_read_offset f1 + of_nat (sz - length out)\<rparr> # fs))" by blast
  show ?thesis
  proof (cases "length out + k \<le> sz")
    case True
    let ?d = "di_uncount f1 (di\<lparr>di_next_read_offset := di_next_read_offset di + of_nat k\<rparr>)"
    let ?o = "out @ map c [?r..<sf_hi f]"
    have d: "read_pos ?d = sf_hi f" "merged_end ?d = ?m"
      using k f(2) rm(2) by (simp_all add: read_pos_add)
    have o: "length ?o = length out + k" by (simp add: k_def)
    have "frames_ok c (sf_hi f) ?m fs" by (rule frames_ok_tl [OF ok rd(3) order_refl])
    with IH [of ?d ?o] d o f(2) rm(2)
    have "read_post c (sf_hi f) ?m (min (sz - (length out + k)) (?m - sf_hi f)) ?o fs (stream_recv_loop sz ?o ?d fs)"
      by simp
    from read_post_read [OF this f(1) rd(3)]
    have "read_post c ?r ?m (k + min (sz - (length out + k)) (?m - sf_hi f)) out (f # fs) (stream_recv_loop sz ?o ?d fs)"
      by (simp only: k_def)
    moreover have "k + min (sz - (length out + k)) (?m - sf_hi f) = min (sz - length out) (?m - ?r)"
      using True f(2) k by linarith
    ultimately show ?thesis unfolding step using True by simp
  next
    case False
    then have n: "min (sz - length out) (?m - ?r) = sz - length out" and le: "?r + (sz - length out) \<le> sf_hi f"
      using f(2) k rd(2) by linarith+
    have "sf_hi f < 2 ^ 62" using f(2) rm(2) by simp
    from read_post_part [OF ok le f(1) f1 this] show ?thesis unfolding step n using False by simp
  qed
qed

lemma recv_loop_spec:
  assumes "frames_ok c (read_pos di) (merged_end di) fs" and "read_pos di \<le> merged_end di" and "merged_end di < 2 ^ 62"
  shows "read_post c (read_pos di) (merged_end di) (min (sz - length out) (merged_end di - read_pos di)) out fs
    (stream_recv_loop sz out di fs)"
  using assms
proof (induction fs arbitrary: out di)
  case Nil
  then have "read_pos di = merged_end di" by (simp add: frames_ok_def)
  then show ?case using read_post_stop [OF Nil.prems(1) refl refl] by simp
next
  case (Cons f fs)
  let ?r = "read_pos di" and ?m = "merged_end di"
  note stop = read_post_stop [OF Cons.prems(1) refl refl]
  consider (hole) "?m < sf_lo f" | (full) "sf_lo f \<le> ?m" "sz \<le> length out"
    | (old) "sf_lo f \<le> ?m" "length out < sz" "sf_hi f < ?r"
    | (rd) "sf_lo f \<le> ?m" "length out < sz" "?r \<le> sf_hi f" by linarith
  then show ?case
  proof cases
    case hole
    then have "?r = ?m" using Cons.prems frames_ok_hole by blast
    moreover have "data_offset f > merged_offset_end di" using hole by (simp add: di_nat)
    ultimately show ?thesis using stop by simp
  next
    case full
    then have "\<not> data_offset f > merged_offset_end di" by (simp add: di_nat not_less)
    with full show ?thesis using stop by simp
  next
    case old
    have "sf_ok c f" using Cons.prems(1) by (simp add: frames_ok_def)
    with old have "\<not> data_offset f > merged_offset_end di" "sf_end f < di_next_read_offset di" "\<not> sz \<le> length out"
      by (simp_all add: di_nat not_less)
    then have "stream_recv_loop sz out di (f # fs) = stream_recv_loop sz out (di_uncount f di) fs" by simp
    moreover have "frames_ok c ?r ?m fs" using frames_ok_tl [OF Cons.prems(1) order_refl] old by simp
    moreover have "sf_range f \<subseteq> {..<?r}" using old by (auto simp: sf_range_def)
    ultimately show ?thesis using Cons.IH [of "di_uncount f di" out] Cons.prems(2,3) read_post_skip by simp
  next
    case rd
    show ?thesis by (rule recv_loop_rd [OF Cons.prems rd Cons.IH])
  qed
qed

lemma stream_read_ok:
  assumes "di_inv c di" and "stream_read sz di = (out, di')"
  shows "di_inv c di'" and "out = map c [read_pos di..<read_pos di']"
    and "read_pos di' = read_pos di + min sz (merged_end di - read_pos di)"
    and "received di' = received di" and "merged_end di' = merged_end di"
proof -
  obtain d fs where l: "stream_recv_loop sz [] di (frames_tailq di) = (out, d, fs)" and d: "di' = d\<lparr>frames_tailq := fs\<rparr>"
    using assms(2) by (auto simp: stream_read_def split: prod.splits)
  have "read_pos di' = read_pos d" "merged_end di' = merged_end d" "frames_tailq di' = fs"
    using d by (simp_all add: read_pos_def merged_end_def)
  moreover note recv_loop_spec [of c di "frames_tailq di" sz "[]", unfolded l]
  ultimately show "di_inv c di'" "out = map c [read_pos di..<read_pos di']"
    "read_pos di' = read_pos di + min sz (merged_end di - read_pos di)"
    "received di' = received di" "merged_end di' = merged_end di"
    using assms(1) by (auto simp: di_inv_def read_post_def received_def)
qed

section \<open>CRYPTO delivery\<close>

definition crypto_inv :: "(nat \<Rightarrow> u8) \<Rightarrow> xqc_stream_data_in \<Rightarrow> bool" where
  "crypto_inv c di \<longleftrightarrow> read_pos di < 2 ^ 62 \<and> (\<forall>f \<in> set (frames_tailq di). sf_ok c f)
     \<and> sorted_wrt (\<lambda>a b. sf_lo a \<le> sf_lo b) (frames_tailq di)"

lemma crypto_scan_split:
  "\<exists>b a. crypto_scan new rb behind = b @ new # a \<and> b @ a = rev rb @ behind
     \<and> (b \<noteq> [] \<longrightarrow> sf_lo (last b) \<le> sf_lo new) \<and> (\<exists>k. a = k @ behind \<and> (\<forall>f \<in> set k. sf_lo new < sf_lo f))"
proof (induction new rb behind rule: crypto_scan.induct)
  case (1 new behind)
  show ?case by (intro exI [of _ "[]"] exI [of _ behind]) simp
next
  case (2 new f rb behind)
  show ?case
  proof (cases "data_offset new \<ge> data_offset f")
    case True
    then show ?thesis by (intro exI [of _ "rev (f # rb)"] exI [of _ behind]) (simp add: di_nat)
  next
    case False
    with 2 obtain b a k where "crypto_scan new rb (f # behind) = b @ new # a" "b @ a = rev rb @ f # behind"
      "b \<noteq> [] \<longrightarrow> sf_lo (last b) \<le> sf_lo new" "a = k @ f # behind" "\<forall>f \<in> set k. sf_lo new < sf_lo f" by blast
    moreover have "sf_lo new < sf_lo f" using False by (simp add: di_nat)
    ultimately show ?thesis using False
      by (intro exI [of _ b] exI [of _ a] conjI exI [of _ "k @ [f]"]) auto
  qed
qed

lemma crypto_scan_ok:
  assumes "sorted_wrt (\<lambda>a b. sf_lo a \<le> sf_lo b) fs"
  shows "sorted_wrt (\<lambda>a b. sf_lo a \<le> sf_lo b) (crypto_scan new (rev fs) [])"
    and "set (crypto_scan new (rev fs) []) = insert new (set fs)"
proof -
  from crypto_scan_split [of new "rev fs" "[]"]
  obtain b a where s: "crypto_scan new (rev fs) [] = b @ new # a" "b @ a = fs"
    "b \<noteq> [] \<longrightarrow> sf_lo (last b) \<le> sf_lo new" "\<forall>f \<in> set a. sf_lo new < sf_lo f" by auto
  have "\<forall>f \<in> set b. sf_lo f \<le> sf_lo new" using sorted_last [of b a new] assms s(2,3) by blast
  then show "sorted_wrt (\<lambda>a b. sf_lo a \<le> sf_lo b) (crypto_scan new (rev fs) [])"
    using assms s(4) s(2) unfolding s(1) by (fastforce simp: sorted_wrt_append)
  show "set (crypto_scan new (rev fs) []) = insert new (set fs)" unfolding s(1) using s(2) by auto
qed

lemma insert_crypto_ok:
  assumes "crypto_inv c di" and "sf_ok c new"
    and "xqc_insert_crypto_frame conn di new = (conn', di', ret)"
  shows "crypto_inv c di'" and "read_pos di' = read_pos di"
    and "ret = Inr () \<Longrightarrow> conn' = conn \<and> received di' = received di \<union> sf_range new"
    and "ret \<noteq> Inr () \<Longrightarrow> di' = di \<and> ret = Inl XQC_ELIMIT \<and> conn' = XQC_CONN_ERR conn TRA_CRYPTO_BUFFER_EXCEEDED"
proof -
  have srt: "sorted_wrt (\<lambda>a b. sf_lo a \<le> sf_lo b) (frames_tailq di)" using assms(1) by (simp add: crypto_inv_def)
  note scan = crypto_scan_ok [OF srt, of new]
  show "crypto_inv c di'" "read_pos di' = read_pos di"
    "ret = Inr () \<Longrightarrow> conn' = conn \<and> received di' = received di \<union> sf_range new"
    "ret \<noteq> Inr () \<Longrightarrow> di' = di \<and> ret = Inl XQC_ELIMIT \<and> conn' = XQC_CONN_ERR conn TRA_CRYPTO_BUFFER_EXCEEDED"
    using assms scan
    by (auto simp: xqc_insert_crypto_frame_def crypto_inv_def read_pos_def received_def
        xqc_check_crypto_frame_data_buffer_exceed_def split: if_splits)
qed

text \<open>
  The pieces handed to TLS, in the order of the calls: each call continues where the last one
  ended. \<open>crypto_post\<close> says so for a run from \<open>r\<close> on, whether or not a call fails.
\<close>

definition feed :: "(bytes \<Rightarrow> 't \<Rightarrow> 't \<times> bool) \<Rightarrow> bytes list \<Rightarrow> 't \<Rightarrow> 't" where
  "feed process = fold (\<lambda>b t. fst (process b t))"

definition crypto_post ::
    "(nat \<Rightarrow> u8) \<Rightarrow> (bytes \<Rightarrow> 't \<Rightarrow> 't \<times> bool) \<Rightarrow> 't \<Rightarrow> nat \<Rightarrow> xqc_stream_frame list \<Rightarrow>
     't \<times> xqc_stream_data_in \<times> xqc_stream_frame list \<times> unit res \<Rightarrow> bool" where
  "crypto_post c process tls r fs res \<longleftrightarrow> (case res of (tls', di', fs', ret) \<Rightarrow>
     (\<exists>chunks. tls' = feed process chunks tls \<and> concat chunks = map c [r..<read_pos di'] \<and> [] \<notin> set chunks)
     \<and> r \<le> read_pos di' \<and> suffix fs' fs \<and> read_pos di' < 2 ^ 62
     \<and> {..<read_pos di'} \<union> (\<Union>f \<in> set fs'. sf_range f) = {..<r} \<union> (\<Union>f \<in> set fs. sf_range f)
     \<and> (ret = Inr () \<longrightarrow> (\<forall>f \<in> set fs'. read_pos di' < sf_lo f)))"

lemma crypto_post_stop:
  assumes "read_pos di < 2 ^ 62" and "\<And>f. f \<in> set fs \<Longrightarrow> read_pos di < sf_lo f"
  shows "crypto_post c process tls (read_pos di) fs (tls, di, fs, Inr ())"
  unfolding crypto_post_def prod.case using assms by (auto intro!: exI [of _ "[]"] simp: feed_def)

lemma crypto_post_skip:
  assumes "crypto_post c process tls r fs res" and "sf_range f \<subseteq> {..<r}"
  shows "crypto_post c process tls r (f # fs) res"
proof -
  obtain tls' di' fs' ret where res: "res = (tls', di', fs', ret)" by (cases res)
  from assms(2) have "{..<r} \<union> (\<Union>g \<in> set (f # fs). sf_range g) = {..<r} \<union> (\<Union>g \<in> set fs. sf_range g)"
    by (simp add: Un_absorb2 sup_assoc [symmetric])
  with assms(1) show ?thesis unfolding crypto_post_def res prod.case by (simp add: suffix_Cons)
qed

lemma crypto_post_feed:
  assumes "crypto_post c process (fst (process (map c [r..<sf_hi f]) tls)) (sf_hi f) fs res"
    and "sf_lo f \<le> r" and "r < sf_hi f"
  shows "crypto_post c process tls r (f # fs) res"
proof -
  obtain tls' di' fs' ret where res: "res = (tls', di', fs', ret)" by (cases res)
  from assms(1) obtain chunks where ch: "tls' = feed process chunks (fst (process (map c [r..<sf_hi f]) tls))"
    "concat chunks = map c [sf_hi f..<read_pos di']" "[] \<notin> set chunks" and le: "sf_hi f \<le> read_pos di'"
    by (auto simp: crypto_post_def res)
  have cat: "map c [r..<sf_hi f] @ map c [sf_hi f..<read_pos di'] = map c [r..<read_pos di']"
    using assms(3) le by (metis map_append upt_add_eq_append le_iff_add less_imp_le_nat)
  have "\<exists>chunks. tls' = feed process chunks tls \<and> concat chunks = map c [r..<read_pos di'] \<and> [] \<notin> set chunks"
    using ch cat assms(3) by (intro exI [of _ "map c [r..<sf_hi f] # chunks"]) (simp add: feed_def)
  moreover have "{..<r} \<union> sf_range f = {..<sf_hi f}" using assms(2,3) by (auto simp: sf_range_def)
  then have "{..<r} \<union> (\<Union>g \<in> set (f # fs). sf_range g) = {..<sf_hi f} \<union> (\<Union>g \<in> set fs. sf_range g)"
    by (simp add: sup_assoc [symmetric])
  ultimately show ?thesis using assms(1,3) le unfolding crypto_post_def res prod.case
    by (simp add: suffix_Cons)
qed

lemma crypto_loop_step:
  assumes "sf_ok c f" and "sf_lo f \<le> read_pos di" and "read_pos di < sf_hi f"
    and "process (map c [read_pos di..<sf_hi f]) tls = (t, ok)"
  obtains d where "read_pos d = sf_hi f" and "crypto_read_loop process tls di (f # fs) =
      (if \<not> ok then (t, d, fs, Inl XQC_EILLEGAL_FRAME) else crypto_read_loop process t d fs)"
proof -
  define d where "d = di_uncount f (di\<lparr>di_next_read_offset := di_next_read_offset di + (sf_end f - di_next_read_offset di)\<rparr>)"
  have d: "read_pos d = sf_hi f" using assms(1) by (simp add: d_def) (simp add: read_pos_def)
  have len: "unat (sf_end f - di_next_read_offset di) = sf_hi f - read_pos di"
    using assms by (simp add: unat_sub word_le_nat_alt read_pos_def)
  have "take (unat (sf_end f - di_next_read_offset di)) (drop (unat (di_next_read_offset di - data_offset f)) (sf_data f))
    = map c [read_pos di..<sf_hi f]"
    unfolding len using assms by (simp add: unat_sub word_le_nat_alt read_pos_def sf_lo_def sf_ok_def drop_map)
  moreover have "\<not> di_next_read_offset di < data_offset f" "\<not> sf_end f \<le> di_next_read_offset di"
    using assms by (simp_all add: di_nat)
  ultimately have "crypto_read_loop process tls di (f # fs) =
    (if \<not> ok then (t, d, fs, Inl XQC_EILLEGAL_FRAME) else crypto_read_loop process t d fs)"
    using assms(4) by (simp add: d_def Let_def)
  with d that show ?thesis by blast
qed

lemma crypto_loop_spec:
  assumes "\<forall>f \<in> set fs. sf_ok c f" and "sorted_wrt (\<lambda>a b. sf_lo a \<le> sf_lo b) fs" and "read_pos di < 2 ^ 62"
  shows "crypto_post c process tls (read_pos di) fs (crypto_read_loop process tls di fs)"
  using assms
proof (induction fs arbitrary: tls di)
  case Nil
  then show ?case using crypto_post_stop [of di "[]"] by simp
next
  case (Cons f fs)
  let ?r = "read_pos di"
  have f: "sf_ok c f" "sf_hi f < 2 ^ 62" using Cons.prems(1) by (simp_all add: sf_ok_def)
  consider (hole) "?r < sf_lo f" | (old) "sf_lo f \<le> ?r" "sf_hi f \<le> ?r" | (rd) "sf_lo f \<le> ?r" "?r < sf_hi f" by linarith
  then show ?case
  proof cases
    case hole
    then have "crypto_read_loop process tls di (f # fs) = (tls, di, f # fs, Inr ())" by (simp add: di_nat)
    moreover have "\<And>g. g \<in> set (f # fs) \<Longrightarrow> ?r < sf_lo g" using hole Cons.prems(2) by fastforce
    ultimately show ?thesis using crypto_post_stop [OF Cons.prems(3)] by metis
  next
    case old
    then have eq: "crypto_read_loop process tls di (f # fs) = crypto_read_loop process tls (di_uncount f di) fs"
      using f(1) by (simp add: di_nat)
    have "sf_range f \<subseteq> {..<?r}" using old by (auto simp: sf_range_def)
    moreover have "crypto_post c process tls ?r fs (crypto_read_loop process tls (di_uncount f di) fs)"
      using Cons.IH [of "di_uncount f di" tls] Cons.prems by simp
    ultimately show ?thesis unfolding eq by (rule crypto_post_skip [rotated])
  next
    case rd
    obtain t ok where p: "process (map c [?r..<sf_hi f]) tls = (t, ok)" by fastforce
    obtain d where d: "read_pos d = sf_hi f" and step: "crypto_read_loop process tls di (f # fs) =
      (if \<not> ok then (t, d, fs, Inl XQC_EILLEGAL_FRAME) else crypto_read_loop process t d fs)"
      by (rule crypto_loop_step [where process = process, OF f(1) rd p])
    have fail: "crypto_post c process t (sf_hi f) fs (t, d, fs, Inl XQC_EILLEGAL_FRAME)"
      unfolding crypto_post_def prod.case using d f(2) by (auto intro!: exI [of _ "[]"] simp: feed_def)
    have "crypto_post c process t (sf_hi f) fs (crypto_read_loop process tls di (f # fs))"
      unfolding step using fail Cons.IH [of d t] Cons.prems d f(2) by simp
    then show ?thesis by (intro crypto_post_feed) (use p rd in simp_all)
  qed
qed

section \<open>Counters\<close>

text \<open>The two counters say how many frames and how many bytes are buffered.\<close>

definition cnt_ok :: "nat \<Rightarrow> xqc_stream_data_in \<Rightarrow> xqc_stream_frame list \<Rightarrow> bool" where
  "cnt_ok cap di fs \<longleftrightarrow> length fs \<le> cap \<and> unat (buffered_frame_count di) = length fs
     \<and> unat (buffered_data_bytes di) = (\<Sum>f \<leftarrow> fs. unat (data_length f))"

lemma sum_len_bound: "(\<Sum>f \<leftarrow> fs. unat (data_length f)) \<le> length fs * (2 ^ 32 - 1)"
proof (induction fs)
  case (Cons f fs)
  have "unat (data_length f) \<le> 2 ^ 32 - 1" using unsigned_less [of "data_length f", where 'a = nat] by simp
  with Cons show ?case by simp
qed simp

lemma cnt_ok_uncount:
  assumes "cnt_ok cap di (f # fs)" and "data_length f1 = data_length f"
  shows "cnt_ok cap (di_uncount f1 di) fs"
proof -
  have u: "unat (ucast (data_length f) :: u64) = unat (data_length f)" by (rule unat_ucast_up) simp
  have "buffered_data_bytes di \<ge> ucast (data_length f)" "buffered_frame_count di > 0"
    using assms(1) by (simp_all add: cnt_ok_def word_le_nat_alt word_less_nat_alt u)
  moreover from this have "buffered_frame_count di \<ge> 1" by (simp add: word_le_nat_alt word_less_nat_alt Suc_le_eq)
  ultimately show ?thesis using assms
    by (simp add: cnt_ok_def di_uncount_def unat_sub u)
qed

lemma cnt_ok_recv_loop:
  assumes "cnt_ok cap di fs" and "stream_recv_loop sz out di fs = (out', di', fs')"
  shows "cnt_ok cap di' fs'"
  using assms
proof (induction sz out di fs rule: stream_recv_loop.induct)
  case (2 sz out di f fs)
  define f1 where "f1 = frame_pos di f"
  have f1: "data_length f1 = data_length f" by (simp add: f1_def frame_pos_def)
  have c: "cnt_ok cap (di\<lparr>di_next_read_offset := x\<rparr>) (f # fs)" for x using 2(3) by (simp add: cnt_ok_def)
  show ?case
  proof (cases "data_offset f > merged_offset_end di \<or> sz \<le> length out \<or> sf_end f < di_next_read_offset di")
    case True
    then show ?thesis using 2(1,3,4) cnt_ok_uncount [OF 2(3) refl] by (auto split: if_splits)
  next
    case False
    then show ?thesis
      using 2(4) 2(2) [OF _ _ _ f1_def [unfolded frame_pos_def] refl refl, folded frame_pos_def f1_def]
        cnt_ok_uncount [OF c f1] c f1
      by (simp add: Let_def frame_pos_def [symmetric] f1_def [symmetric] cnt_ok_def split: if_splits)
        (auto simp: f1 cnt_ok_def)
  qed
qed simp

lemma cnt_ok_insert:
  assumes "cnt_ok (unat (snd (stream_caps cfg))) di (frames_tailq di)" and "cfg < 2 ^ 31"
  shows "cnt_ok (unat (snd (stream_caps cfg))) (fst (xqc_insert_stream_frame cfg di new))
    (frames_tailq (fst (xqc_insert_stream_frame cfg di new)))"
proof (cases "xqc_insert_stream_frame cfg di new")
  case (Pair di' ret)
  let ?fs = "frames_tailq di" and ?hc = "snd (stream_caps cfg)"
  have hc: "unat ?hc \<le> 2 ^ 31"
    using assms(2) by (simp add: stream_caps_def XQC_MAX_STREAM_FRAME_BUFFERED_COUNT_HARD_def word_less_nat_alt)
  show ?thesis
  proof (cases "ret = Inr ()")
    case False
    then have "di' = di \<or> di' = di\<lparr>cap_reject_logged := True\<rparr>"
      using Pair by (auto simp: xqc_insert_stream_frame_def Let_def split: if_splits option.splits)
    with Pair assms(1) show ?thesis by (auto simp: cnt_ok_def)
  next
    case True
    with Pair obtain b a where scan: "insert_scan new (rev ?fs) [] = Some (b, a)" and nr: "\<not> stream_cap_reject cfg di new"
      and di': "frames_tailq di' = b @ new # a" "buffered_frame_count di' = buffered_frame_count di + 1"
        "buffered_data_bytes di' = buffered_data_bytes di + ucast (data_length new)"
      by (auto simp: xqc_insert_stream_frame_def Let_def split: if_splits option.splits)
    have fs: "?fs = b @ a" using insert_scan_Some [OF scan] by simp
    have "unat (buffered_frame_count di) \<le> 2 ^ 31" using assms(1) hc by (simp add: cnt_ok_def)
    then have suc: "unat (buffered_frame_count di + 1) = unat (buffered_frame_count di) + 1" by (simp add: unat_word_ariths)
    have "buffered_frame_count di < ?hc \<or> buffered_frame_count di + 1 < ?hc"
      using nr by (auto simp: stream_cap_reject_def Let_def case_prod_beta not_le split: if_splits)
    then have len: "length ?fs < unat ?hc"
      using assms(1) suc by (auto simp: cnt_ok_def word_less_nat_alt)
    have "(\<Sum>f \<leftarrow> ?fs. unat (data_length f)) \<le> 2 ^ 31 * (2 ^ 32 - 1)"
      by (rule order_trans [OF sum_len_bound]) (use len hc in simp)
    moreover have "unat (data_length new) < 2 ^ 32" using unsigned_less [of "data_length new", where 'a = nat] by simp
    moreover have "unat (ucast (data_length new) :: u64) = unat (data_length new)" by (rule unat_ucast_up) simp
    ultimately show ?thesis using Pair assms(1) di' len hc unfolding fs
      by (simp add: cnt_ok_def unat_word_ariths)
  qed
qed

section \<open>Sequences of operations\<close>

datatype stream_op = Insert xqc_stream_frame | Read nat

fun run_stream ::
    "(xqc_stream_frame \<Rightarrow> 's \<Rightarrow> 's) \<Rightarrow> (nat \<Rightarrow> 's \<Rightarrow> bytes \<times> 's) \<Rightarrow> stream_op list \<Rightarrow> 's \<Rightarrow> bytes \<times> 's" where
  "run_stream ins rd [] s = ([], s)"
| "run_stream ins rd (Insert f # ops) s = run_stream ins rd ops (ins f s)"
| "run_stream ins rd (Read n # ops) s =
     (let (out, s1) = rd n s; (rest, s2) = run_stream ins rd ops s1 in (out @ rest, s2))"

lemma run_stream_keeps:
  assumes "\<And>f s. I s \<Longrightarrow> I (ins f s)" and "\<And>n s. I s \<Longrightarrow> I (snd (rd n s))" and "I s"
  shows "I (snd (run_stream ins rd ops s))"
  using assms(3)
proof (induction ops arbitrary: s)
  case (Cons p ops)
  then show ?case
    using assms(1) [OF Cons.prems] assms(2) [OF Cons.prems] Cons.IH by (cases p) (auto split: prod.splits, metis snd_conv)
qed simp

text \<open>
  What a reassembly buffer promises: inserting consistent pieces keeps its invariant and moves
  nothing that is already delivered; reading hands out the bytes that follow the position.
\<close>

locale reassembly =
  fixes ins :: "xqc_stream_frame \<Rightarrow> 's \<Rightarrow> 's" and rd :: "nat \<Rightarrow> 's \<Rightarrow> bytes \<times> 's"
    and inv :: "(nat \<Rightarrow> u8) \<Rightarrow> 's \<Rightarrow> bool" and pos :: "'s \<Rightarrow> nat"
  assumes ins_inv: "inv c s \<Longrightarrow> sf_ok c f \<Longrightarrow> next_read_offset f = 0 \<Longrightarrow> inv c (ins f s)"
    and ins_pos: "inv c s \<Longrightarrow> sf_ok c f \<Longrightarrow> next_read_offset f = 0 \<Longrightarrow> pos (ins f s) = pos s"
    and rd_inv: "inv c s \<Longrightarrow> rd n s = (out, s') \<Longrightarrow> inv c s'"
    and rd_out: "inv c s \<Longrightarrow> rd n s = (out, s') \<Longrightarrow> out = map c [pos s..<pos s']"
    and rd_pos: "inv c s \<Longrightarrow> rd n s = (out, s') \<Longrightarrow> pos s \<le> pos s'"
begin

lemma run_delivers:
  assumes "inv c s" and "\<And>f. Insert f \<in> set ops \<Longrightarrow> sf_ok c f \<and> next_read_offset f = 0"
    and "run_stream ins rd ops s = (out, s')"
  shows "inv c s' \<and> out = map c [pos s..<pos s'] \<and> pos s \<le> pos s'"
  using assms
proof (induction ops arbitrary: s out)
  case (Cons p ops)
  show ?case
  proof (cases p)
    case (Insert f)
    with Cons.prems(2) have f: "sf_ok c f" "next_read_offset f = 0" by auto
    have "run_stream ins rd ops (ins f s) = (out, s')" using Cons.prems(3) Insert by simp
    from Cons.IH [OF ins_inv [OF Cons.prems(1) f] _ this] Cons.prems(2) ins_pos [OF Cons.prems(1) f]
    show ?thesis by auto
  next
    case (Read n)
    obtain o1 s1 where r: "rd n s = (o1, s1)" by fastforce
    obtain o2 where o2: "run_stream ins rd ops s1 = (o2, s')" "out = o1 @ o2"
      using Cons.prems(3) r Read by (auto split: prod.splits)
    note IH = Cons.IH [OF rd_inv [OF Cons.prems(1) r] _ o2(1)]
    have IH': "inv c s'" "o2 = map c [pos s1..<pos s']" "pos s1 \<le> pos s'" using IH Cons.prems(2) by auto
    have "[pos s..<pos s'] = [pos s..<pos s1] @ [pos s1..<pos s']"
      using IH'(3) rd_pos [OF Cons.prems(1) r] by (metis le_iff_add upt_add_eq_append)
    with IH' o2(2) rd_out [OF Cons.prems(1) r] rd_pos [OF Cons.prems(1) r] show ?thesis by simp
  qed
qed simp

end

definition stream_ins :: "u64 \<Rightarrow> xqc_stream_frame \<Rightarrow> xqc_stream_data_in \<Rightarrow> xqc_stream_data_in" where
  "stream_ins cfg f di = fst (xqc_insert_stream_frame cfg di f)"

lemma insert_stream_inv:
  assumes "di_inv c di" and "sf_ok c f" and "next_read_offset f = 0"
  shows "di_inv c (stream_ins cfg f di)" and "read_pos (stream_ins cfg f di) = read_pos di"
proof -
  obtain di' ret where r: "xqc_insert_stream_frame cfg di f = (di', ret)" by fastforce
  have "di_inv c di' \<and> read_pos di' = read_pos di"
  proof (cases "ret = Inr ()")
    case True
    with r insert_stream_ok [OF assms] show ?thesis by auto
  next
    case False
    then have "di' = di \<or> di' = di\<lparr>cap_reject_logged := True\<rparr>"
      using r by (auto simp: xqc_insert_stream_frame_def Let_def split: if_splits option.splits)
    with assms(1) show ?thesis by (auto simp: di_inv_def read_pos_def merged_end_def)
  qed
  with r show "di_inv c (stream_ins cfg f di)" "read_pos (stream_ins cfg f di) = read_pos di"
    by (simp_all add: stream_ins_def)
qed

interpretation st: reassembly "stream_ins cfg" stream_read di_inv read_pos
  by unfold_locales (use insert_stream_inv stream_read_ok in auto)

text \<open>A CRYPTO stream, with a TLS layer that accepts everything and collects it.\<close>

definition crypto_ins ::
    "xqc_stream_frame \<Rightarrow> xqc_connection \<times> xqc_stream_data_in \<Rightarrow> xqc_connection \<times> xqc_stream_data_in" where
  "crypto_ins f s = (case s of (conn, di) \<Rightarrow>
     (case xqc_insert_crypto_frame conn di f of (conn', di', ret) \<Rightarrow> (conn', di')))"

definition crypto_rd ::
    "nat \<Rightarrow> xqc_connection \<times> xqc_stream_data_in \<Rightarrow> bytes \<times> xqc_connection \<times> xqc_stream_data_in" where
  "crypto_rd n s = (case s of (conn, di) \<Rightarrow>
     (case xqc_read_crypto_stream (\<lambda>b t. (t @ b, True)) [] di of (out, di', ret) \<Rightarrow> (out, conn, di')))"

lemma feed_collect: "feed (\<lambda>b t. (t @ b, True)) chunks t = t @ concat chunks"
  by (induction chunks arbitrary: t) (simp_all add: feed_def)

lemma read_crypto_ok:
  assumes "crypto_inv c di" and "xqc_read_crypto_stream process tls di = (tls', di', ret)"
  shows "\<exists>chunks. tls' = feed process chunks tls \<and> concat chunks = map c [read_pos di..<read_pos di'] \<and> [] \<notin> set chunks"
    and "read_pos di \<le> read_pos di'" and "crypto_inv c di'" and "received di' = received di"
    and "ret = Inr () \<Longrightarrow> read_pos di' \<notin> received di'"
proof -
  obtain d fs where l: "crypto_read_loop process tls di (frames_tailq di) = (tls', d, fs, ret)"
    and d: "di' = d\<lparr>frames_tailq := fs\<rparr>"
    using assms(2) by (auto simp: xqc_read_crypto_stream_def split: prod.splits)
  have e: "read_pos di' = read_pos d" "frames_tailq di' = fs" using d by (simp_all add: read_pos_def)
  have "crypto_post c process tls (read_pos di) (frames_tailq di) (tls', d, fs, ret)"
    using crypto_loop_spec [of "frames_tailq di" c di process tls, unfolded l] assms(1) by (auto simp: crypto_inv_def)
  note p = this [unfolded crypto_post_def prod.case, folded e(1)]
  from p show "\<exists>chunks. tls' = feed process chunks tls \<and> concat chunks = map c [read_pos di..<read_pos di'] \<and> [] \<notin> set chunks"
    "read_pos di \<le> read_pos di'" by blast+
  from p obtain k where k: "frames_tailq di = k @ fs" by (auto simp: suffix_def)
  show "crypto_inv c di'" using assms(1) p e(2) by (auto simp: crypto_inv_def k sorted_wrt_append)
  show "received di' = received di" using p e(2) by (simp add: received_def)
  show "read_pos di' \<notin> received di'" if "ret = Inr ()"
    using p that e(2) by (fastforce simp: received_def sf_range_def)
qed

interpretation cr: reassembly crypto_ins crypto_rd "\<lambda>c s. crypto_inv c (snd s)" "\<lambda>s. read_pos (snd s)"
proof (unfold_locales, goal_cases)
  case (1 c s f)
  then show ?case using insert_crypto_ok(1) by (auto simp: crypto_ins_def split: prod.splits)
next
  case (2 c s f)
  then show ?case using insert_crypto_ok(2) by (auto simp: crypto_ins_def split: prod.splits)
next
  case (3 c s n out s')
  then show ?case using read_crypto_ok(3) by (auto simp: crypto_rd_def split: prod.splits)
next
  case (4 c s n out s')
  then obtain conn di ret where "s = (conn, di)" "xqc_read_crypto_stream (\<lambda>b t. (t @ b, True)) [] di = (out, snd s', ret)"
    by (auto simp: crypto_rd_def split: prod.splits)
  with read_crypto_ok(1) [of c di "\<lambda>b t. (t @ b, True)" "[]" out] 4(1) show ?case by (auto simp: feed_collect)
next
  case (5 c s n out s')
  then show ?case using read_crypto_ok(2) by (auto simp: crypto_rd_def split: prod.splits)
qed

section \<open>Properties\<close>

text \<open>The state of a new stream, as the allocation clears it.\<close>

definition di_new :: xqc_stream_data_in where
  "di_new = \<lparr>frames_tailq = [], merged_offset_end = 0, di_next_read_offset = 0, stream_length = 0,
     stream_determined = False, buffered_frame_count = 0, buffered_data_bytes = 0, cap_reject_logged = False\<rparr>"

lemma di_new_inv [simp]: "di_inv c di_new" "read_pos di_new = 0" "crypto_inv c di_new"
  "cnt_ok cap di_new (frames_tailq di_new)"
  by (simp_all add: di_new_def di_inv_def read_pos_def merged_end_def frames_ok_def crypto_inv_def cnt_ok_def)

text \<open>C1: Reassembly of a stream. \<open>c\<close> is what the peer sends, byte by byte. Frames that carry pieces of it arrive
  in any order, any number of times and with any overlap, and the application reads in between with buffers of any size.
  What it has read is exactly the first bytes of \<open>c\<close>, in order; \<open>merged_offset_end\<close> is the first byte that
  has not arrived, and a read with a buffer large enough delivers everything in front of it.\<close>

theorem stream_reassembly:
  assumes "\<And>f. Insert f \<in> set ops \<Longrightarrow> sf_ok c f \<and> next_read_offset f = 0"
    and "run_stream (stream_ins cfg) stream_read ops di_new = (out, di)"
  shows "out = map c [0..<read_pos di] \<and> {..<merged_end di} \<subseteq> received di \<and> merged_end di \<notin> received di
    \<and> (\<forall>sz \<ge> merged_end di - read_pos di. fst (stream_read sz di) = map c [read_pos di..<merged_end di])"
proof (intro conjI allI impI)
  from st.run_delivers [OF di_new_inv(1) assms]
  have inv: "di_inv c di" and out: "out = map c [read_pos di_new..<read_pos di]" by simp_all
  show "out = map c [0..<read_pos di]" using out by simp
  show "{..<merged_end di} \<subseteq> received di" "merged_end di \<notin> received di" by (rule merged_end_least [OF inv])+
  fix sz assume sz: "merged_end di - read_pos di \<le> sz"
  obtain o1 d1 where r: "stream_read sz di = (o1, d1)" by fastforce
  note s = stream_read_ok(2,3) [OF inv r]
  have "read_pos di \<le> merged_end di" using inv by (simp add: di_inv_def)
  then show "fst (stream_read sz di) = map c [read_pos di..<merged_end di]" using s sz r by (simp add: min_absorb2)
qed

definition c_example :: "nat \<Rightarrow> u8" where
  "c_example i = 3 * of_nat i"

definition sf_example :: "u64 \<Rightarrow> u32 \<Rightarrow> xqc_stream_frame" where
  "sf_example off len = \<lparr>sf_data = map c_example [unat off..<unat off + unat len], data_length = len,
     data_offset = off, next_read_offset = 0, sf_fin = False\<rparr>"

lemma sf_example_ok:
  "unat off + unat len < 2 ^ 62 \<Longrightarrow> sf_ok c_example (sf_example off len) \<and> next_read_offset (sf_example off len) = 0"
  by (simp add: sf_ok_def sf_example_def sf_lo_def sf_hi_def)

theorem stream_reassembly_witness:
  "fst (run_stream (stream_ins 0) stream_read
     [Insert (sf_example 2 2), Read 9, Insert (sf_example 0 3), Read 1, Insert (sf_example 0 3), Read 9] di_new) = [0, 3, 6, 9]"
proof -
  let ?ops = "[Insert (sf_example 2 2), Read 9, Insert (sf_example 0 3), Read 1, Insert (sf_example 0 3), Read 9]"
  obtain out di where r: "run_stream (stream_ins 0) stream_read ?ops di_new = (out, di)" by fastforce
  have "read_pos (snd (run_stream (stream_ins 0) stream_read ?ops di_new)) = 4" by code_simp
  with r have "read_pos di = 4" by simp
  moreover have "\<And>f. Insert f \<in> set ?ops \<Longrightarrow> sf_ok c_example f \<and> next_read_offset f = 0"
    by (auto simp: sf_example_ok)
  ultimately show ?thesis using stream_reassembly [OF _ r, of c_example] r by (simp add: upt_rec c_example_def)
qed

text \<open>C18: What \<open>xqc_insert_stream_frame\<close> answers. If it takes the frame, exactly its bytes are added to those
  received, and the invariant holds again; if it reports a duplicate, nothing changes and every byte of the frame had
  arrived before; at a limit the frame is dropped and nothing but the flag of the log changes. Nothing read is moved in any case.\<close>

theorem insert_stream_frame_result:
  assumes "di_inv c di" and "sf_ok c new" and "next_read_offset new = 0"
    and "xqc_insert_stream_frame cfg di new = (di', ret)"
  shows "di_inv c di' \<and> read_pos di' = read_pos di
    \<and> (ret = Inr () \<and> received di' = received di \<union> sf_range new
       \<or> ret = Inl XQC_EDUP_FRAME \<and> di' = di \<and> sf_range new \<subseteq> received di
       \<or> ret = Inl XQC_ELIMIT \<and> di' = di\<lparr>cap_reject_logged := True\<rparr>)"
proof -
  have "ret = Inr () \<or> ret = Inl XQC_EDUP_FRAME \<or> ret = Inl XQC_ELIMIT \<and> di' = di\<lparr>cap_reject_logged := True\<rparr>"
    using assms(4) by (auto simp: xqc_insert_stream_frame_def Let_def split: if_splits option.splits)
  moreover have "di_inv c di' \<and> read_pos di' = read_pos di"
    using insert_stream_inv [OF assms(1-3), of cfg] assms(4) by (simp add: stream_ins_def)
  ultimately show ?thesis
    using insert_stream_ok(2) [OF assms(1-3)] insert_stream_dup [OF assms(1,2)] assms(4) by blast
qed

theorem insert_stream_frame_result_witness:
  "\<exists>di'. xqc_insert_stream_frame 0 di_new (sf_example 5 2) = (di', Inr ()) \<and> received di' = received di_new \<union> sf_range (sf_example 5 2)"
proof -
  obtain di' ret where r: "xqc_insert_stream_frame 0 di_new (sf_example 5 2) = (di', ret)" by fastforce
  have "snd (xqc_insert_stream_frame 0 di_new (sf_example 5 2)) = Inr ()" by code_simp
  with r have "ret = Inr ()" by simp
  with r insert_stream_frame_result [OF di_new_inv(1) _ _ r, of c_example] sf_example_ok [of 5 2]
  show ?thesis by auto
qed

text \<open>C17: The reassembly buffer is bounded. Whatever frames arrive, consistent or not, and however the application
  reads, a stream holds at most as many frames as the hard cap (the configured number, or 32768), and the two counters
  the caps are checked against are exactly the number of buffered frames and bytes.\<close>

theorem stream_buffer_bounded:
  assumes "cfg < 2 ^ 31" and "run_stream (stream_ins cfg) stream_read ops di_new = (out, di)"
  shows "length (frames_tailq di) \<le> (if cfg > 0 then unat cfg else 32768)
    \<and> unat (buffered_frame_count di) = length (frames_tailq di)
    \<and> unat (buffered_data_bytes di) = (\<Sum>f \<leftarrow> frames_tailq di. unat (data_length f))"
proof -
  let ?cap = "unat (snd (stream_caps cfg))"
  have "(\<lambda>di. cnt_ok ?cap di (frames_tailq di)) (snd (run_stream (stream_ins cfg) stream_read ops di_new))"
  proof (rule run_stream_keeps)
    show "cnt_ok ?cap (stream_ins cfg f s) (frames_tailq (stream_ins cfg f s))" if "cnt_ok ?cap s (frames_tailq s)" for f s
      using cnt_ok_insert [OF that assms(1)] by (simp add: stream_ins_def)
    show "cnt_ok ?cap (snd (stream_read n s)) (frames_tailq (snd (stream_read n s)))" if "cnt_ok ?cap s (frames_tailq s)" for n s
      using cnt_ok_recv_loop [OF that, of n "[]"] by (auto simp: stream_read_def cnt_ok_def split: prod.splits)
  qed simp
  then show ?thesis using assms(2)
    by (auto simp: cnt_ok_def stream_caps_def XQC_MAX_STREAM_FRAME_BUFFERED_COUNT_HARD_def)
qed

theorem stream_buffer_bounded_witness:
  "length (frames_tailq (snd (run_stream (stream_ins 2) stream_read
     [Insert (sf_example 1 2), Insert (sf_example 5 2), Insert (sf_example 9 2), Insert (sf_example 0 1)] di_new))) \<le> 2"
proof -
  let ?ops = "[Insert (sf_example 1 2), Insert (sf_example 5 2), Insert (sf_example 9 2), Insert (sf_example 0 1)]"
  obtain out di where r: "run_stream (stream_ins 2) stream_read ?ops di_new = (out, di)" by fastforce
  from stream_buffer_bounded [OF _ r] r show ?thesis by simp
qed

text \<open>C16: TLS gets the handshake bytes in order. However the CRYPTO frames are cut, ordered, repeated and overlapped,
  \<open>xqc_read_crypto_stream\<close> hands non-empty pieces to TLS that continue each other from the read position on, without a
  byte lost or repeated, also when TLS fails on the way; after a run without a failure it stops at a byte that has not arrived.\<close>

theorem crypto_stream_in_order:
  assumes "crypto_inv c di" and "xqc_read_crypto_stream process tls di = (tls', di', ret)"
  shows "\<exists>pieces. tls' = feed process pieces tls \<and> [] \<notin> set pieces
      \<and> concat pieces = map c [read_pos di..<read_pos di'] \<and> read_pos di \<le> read_pos di'
      \<and> crypto_inv c di' \<and> received di' = received di \<and> (ret = Inr () \<longrightarrow> read_pos di' \<notin> received di')"
  using read_crypto_ok [OF assms] by blast

theorem crypto_stream_in_order_witness:
  "\<exists>di' pieces. xqc_read_crypto_stream (\<lambda>b t. (t @ b, True)) []
      (snd (crypto_ins (sf_example 1 2) (crypto_ins (sf_example 0 2) (conn_example, di_new)))) = ([0, 3, 6], di', Inr ())
    \<and> concat pieces = ([0, 3, 6] :: bytes)"
proof -
  let ?s1 = "crypto_ins (sf_example 0 2) (conn_example, di_new)"
  let ?di = "snd (crypto_ins (sf_example 1 2) ?s1)" and ?c = c_example
  have i1: "crypto_inv ?c (snd ?s1)" using cr.ins_inv [of ?c "(conn_example, di_new)"] sf_example_ok [of 0 2] by simp
  have inv: "crypto_inv ?c ?di" using cr.ins_inv [OF i1] sf_example_ok [of 1 2] by simp
  obtain t di' ret where r: "xqc_read_crypto_stream (\<lambda>b t. (t @ b, True)) [] ?di = (t, di', ret)" by (metis prod_cases3)
  have e: "fst (xqc_read_crypto_stream (\<lambda>b t. (t @ b, True)) [] ?di) = [0, 3, 6]"
    "snd (snd (xqc_read_crypto_stream (\<lambda>b t. (t @ b, True)) [] ?di)) = Inr ()" by code_simp+
  with r have t: "t = [0, 3, 6]" "ret = Inr ()" by simp_all
  from crypto_stream_in_order [OF inv r] obtain pieces where "t = feed (\<lambda>b t. (t @ b, True)) pieces []" by blast
  then have "concat pieces = [0, 3, 6]" using t by (simp add: feed_collect)
  moreover have "xqc_read_crypto_stream (\<lambda>b t. (t @ b, True)) [] ?di = ([0, 3, 6], di', Inr ())" using r t by simp
  ultimately show ?thesis by blast
qed

text \<open>\<open>xqc_stream_frame_header_size\<close> does not give the size of a STREAM frame header: for every offset that fits a
  variable-length integer it returns the length of the offset alone, because the conditional operator binds weaker than the sum.
  \<open>xqc_crypto_frame_header_size\<close>, without a conditional, adds up its parts.\<close>

lemma stream_header_size_wrong:
  assumes "offset < 2 ^ 62" and "offset \<noteq> 0"
  shows "xqc_stream_frame_header_size sid offset len = xqc_vint_len_by_val offset
    \<and> xqc_stream_frame_header_size sid offset len
        < 1 + xqc_vint_len_by_val sid + xqc_vint_len_by_val offset + xqc_vint_len_by_val len"
proof -
  have "xqc_vint_len_by_val sid \<le> 8" by (simp add: xqc_vint_len_by_val_def xqc_vint_get_2bit_def)
  then have "unat (1 + of_nat (xqc_vint_len_by_val sid) + offset) \<noteq> 0"
    using assms by (simp add: unat_word_ariths unsigned_of_nat word_less_nat_alt take_bit_nat_eq_self)
  then have "1 + of_nat (xqc_vint_len_by_val sid) + offset \<noteq> 0" by (metis unsigned_0)
  then show ?thesis by (simp add: xqc_stream_frame_header_size_def)
qed

end
