(* ===== verification/Stream_Cap.thy ===== *)
theory Stream_Cap
  imports Stream_Recv
begin

text \<open>
  The two limits of \<open>xqc_insert_stream_frame\<close>: what the comment of the function promises about
  the density of the buffer, and a reachable state in which the slot that it reserves for the
  frame that fills the first hole is refused.
\<close>

section \<open>A reachable state\<close>

text \<open>\<open>dense i\<close> is the \<open>i\<close>-th piece of 1024 bytes of the stream; \<open>sparse n j\<close> a single byte beyond
  the first \<open>n\<close> pieces, with a hole in front of it.\<close>

definition piece :: "(nat \<Rightarrow> u8) \<Rightarrow> nat \<Rightarrow> nat \<Rightarrow> xqc_stream_frame" where
  "piece c off len = \<lparr>sf_data = map c [off..<off + len], data_length = of_nat len, data_offset = of_nat off,
     next_read_offset = 0, sf_fin = False\<rparr>"

definition dense :: "(nat \<Rightarrow> u8) \<Rightarrow> nat \<Rightarrow> xqc_stream_frame" where
  "dense c i = piece c (1024 * i) 1024"

definition sparse :: "(nat \<Rightarrow> u8) \<Rightarrow> nat \<Rightarrow> xqc_stream_frame" where
  "sparse c j = piece c (3072001 + 2 * j) 1"

definition filled :: "(nat \<Rightarrow> u8) \<Rightarrow> nat \<Rightarrow> nat \<Rightarrow> nat \<Rightarrow> xqc_stream_data_in" where
  "filled c i n k = \<lparr>frames_tailq = map (dense c) [i..<n] @ map (sparse c) [0..<k],
     merged_offset_end = of_nat (1024 * n), di_next_read_offset = of_nat (1024 * i), stream_length = 0,
     stream_determined = False, buffered_frame_count = of_nat (n - i + k),
     buffered_data_bytes = of_nat (1024 * (n - i) + k), cap_reject_logged = False\<rparr>"

lemmas of_nat_u64 = word_less_nat_alt word_le_nat_alt unsigned_of_nat take_bit_nat_eq_self

lemma insert_at_end:
  assumes "frames_tailq di = [] \<or> data_offset (last (frames_tailq di)) \<le> data_offset new
      \<and> sf_end (last (frames_tailq di)) < sf_end new"
  shows "insert_scan new (rev (frames_tailq di)) [] = Some (frames_tailq di, [])"
proof (cases "frames_tailq di" rule: rev_cases)
  case (snoc fs f)
  with assms show ?thesis by auto
qed simp

lemma piece_ok:
  assumes "off + len < 2 ^ 62" and "len < 2 ^ 32"
  shows "sf_lo (piece c off len) = off" and "sf_hi (piece c off len) = off + len" and "sf_ok c (piece c off len)"
    and "next_read_offset (piece c off len) = 0" and "unat (data_length (piece c off len)) = len"
    and "unat (sf_end (piece c off len)) = off + len"
proof -
  show u: "sf_lo (piece c off len) = off" "sf_hi (piece c off len) = off + len" "unat (data_length (piece c off len)) = len"
    using assms by (simp_all add: sf_lo_def sf_hi_def piece_def of_nat_u64)
  then show ok: "sf_ok c (piece c off len)" using assms(1) by (simp add: sf_ok_def) (simp add: piece_def)
  show "unat (sf_end (piece c off len)) = off + len" using sf_ok_hi [OF ok] u(2) by simp
qed (simp add: piece_def)

lemma merged_filled: "n < 2 ^ 50 \<Longrightarrow> merged_end (filled c i n k) = 1024 * n"
  unfolding merged_end_def filled_def by (simp add: of_nat_u64 del: of_nat_mult)

lemma count_filled:
  "n - i + k < 2 ^ 50 \<Longrightarrow> unat (buffered_frame_count (filled c i n k)) = n - i + k"
  "n - i + k < 2 ^ 50 \<Longrightarrow> unat (buffered_data_bytes (filled c i n k)) = 1024 * (n - i) + k"
  unfolding filled_def by (simp_all add: of_nat_u64 del: of_nat_mult of_nat_add)

text \<open>The caps without a configured value, on numbers.\<close>

lemma cap_reject_nat:
  assumes "unat (buffered_frame_count di) < 2 ^ 40" and "unat (buffered_data_bytes di) < 2 ^ 40"
  shows "stream_cap_reject 0 di f \<longleftrightarrow>
    (let n = unat (buffered_frame_count di)
           + (if data_offset f \<le> merged_offset_end di \<and> sf_end f > merged_offset_end di then 0 else 1)
     in n \<ge> 32768 \<or> n \<ge> 8192 \<and> unat (buffered_data_bytes di) + unat (data_length f) < n * 256)"
proof -
  have u: "unat (ucast (data_length f) :: u64) = unat (data_length f)" by (rule unat_ucast_up) simp
  have l: "unat (data_length f) < 2 ^ 32" using unsigned_less [of "data_length f", where 'a = nat] by simp
  have b: "unat (buffered_data_bytes di + ucast (data_length f)) = unat (buffered_data_bytes di) + unat (data_length f)"
    using assms(2) l by (simp add: unat_word_ariths u)
  have s: "unat (buffered_frame_count di + 1) = unat (buffered_frame_count di) + 1"
    using assms(1) by (simp add: unat_word_ariths)
  have m: "unat (n * 256) = unat n * 256" if "unat n < 2 ^ 41" for n :: u64
    using that by (simp add: unat_word_ariths)
  have m1: "unat (buffered_frame_count di * 256 + 256) = unat (buffered_frame_count di) * 256 + 256"
    using assms(1) by (simp add: unat_word_ariths)
  show ?thesis using assms(1)
    by (simp add: stream_cap_reject_def stream_caps_def Let_def word_le_nat_alt word_less_nat_alt b s m m1
        XQC_MAX_STREAM_FRAME_BUFFERED_COUNT_def XQC_MAX_STREAM_FRAME_BUFFERED_COUNT_HARD_def
        XQC_MIN_STREAM_BUFFERED_BYTES_PER_FRAME_def)
qed

lemma insert_dense:
  assumes "n < 3000"
  shows "xqc_insert_stream_frame 0 (filled c 0 n 0) (dense c n) = (filled c 0 (Suc n) 0, Inr ())"
proof -
  let ?d = "filled c 0 n 0"
  have p: "sf_lo (dense c i) = 1024 * i" "unat (sf_end (dense c i)) = 1024 * i + 1024" if "i \<le> n" for i
    using piece_ok [of "1024 * i" 1024 c] that assms by (simp_all add: dense_def)
  have m: "merged_end ?d = 1024 * n" using assms by (simp add: merged_filled)
  have "insert_scan (dense c n) (rev (frames_tailq ?d)) [] = Some (frames_tailq ?d, [])"
    by (rule insert_at_end, cases n) (simp_all add: filled_def di_nat p)
  moreover have ext: "data_offset (dense c n) \<le> merged_offset_end ?d" "merged_offset_end ?d < sf_end (dense c n)"
    by (simp_all add: di_nat p m)
  moreover have "\<not> stream_cap_reject 0 ?d (dense c n)"
    using assms ext by (simp add: cap_reject_nat count_filled)
  moreover have "sf_end (dense c n) = of_nat (1024 * Suc n)" by (simp add: sf_end_def dense_def piece_def)
  ultimately show ?thesis
    by (simp add: xqc_insert_stream_frame_def) (simp add: filled_def dense_def piece_def)
qed

lemma insert_sparse:
  assumes "k < 9000"
  shows "xqc_insert_stream_frame 0 (filled c 0 3000 k) (sparse c k) = (filled c 0 3000 (Suc k), Inr ())"
proof -
  let ?d = "filled c 0 3000 k"
  have p: "sf_lo (sparse c i) = 3072001 + 2 * i" "unat (sf_end (sparse c i)) = 3072002 + 2 * i"
    "unat (data_length (sparse c i)) = 1" if "i \<le> k" for i
    using piece_ok [of "3072001 + 2 * i" 1 c] that assms by (simp_all add: sparse_def)
  have q: "sf_lo (dense c 2999) = 3070976" "unat (sf_end (dense c 2999)) = 3072000"
    using piece_ok [of 3070976 1024 c] by (simp_all add: dense_def)
  have m: "merged_end ?d = 3072000" by (simp add: merged_filled)
  have d: "map (dense c) [0..<3000] = map (dense c) [0..<2999] @ [dense c 2999]"
    using upt_Suc_append [of 0 2999] by simp
  have "insert_scan (sparse c k) (rev (frames_tailq ?d)) [] = Some (frames_tailq ?d, [])"
    by (rule insert_at_end, cases k) (simp_all add: filled_def di_nat p q d)
  moreover have ext: "\<not> data_offset (sparse c k) \<le> merged_offset_end ?d"
    by (simp add: di_nat p m)
  moreover have "\<not> stream_cap_reject 0 ?d (sparse c k)"
    using assms ext by (simp add: cap_reject_nat count_filled p Let_def)
  moreover have "ucast (data_length (sparse c k)) = (1 :: u64)" by (simp add: sparse_def piece_def)
  ultimately show ?thesis
    by (simp add: xqc_insert_stream_frame_def) (simp add: filled_def)
qed


text \<open>Reading the dense pieces takes them out of the list and leaves the single bytes.\<close>

lemma uncount_dense:
  assumes "i < 3000" and "k < 2 ^ 40"
  shows "di_uncount (dense c i) (filled c i 3000 k\<lparr>frames_tailq := fs, di_next_read_offset := of_nat (1024 * i) + 1024\<rparr>)
    = filled c (Suc i) 3000 k\<lparr>frames_tailq := fs\<rparr>"
proof -
  have n: "3000 - i = Suc (3000 - Suc i)" using assms(1) by simp
  have u: "unat (of_nat (3000 - i + k) :: u64) = 3000 - i + k" "unat (of_nat (1024 * (3000 - i) + k) :: u64) = 1024 * (3000 - i) + k"
    using assms(2) by (simp_all add: of_nat_u64 del: of_nat_mult of_nat_add)
  have pos: "(0 :: u64) < of_nat (3000 - i + k)" unfolding word_less_nat_alt u(1) using assms(1) by simp
  have ge: "(1024 :: u64) \<le> of_nat (1024 * (3000 - i) + k)" unfolding word_le_nat_alt u(2) using assms(1) by simp
  have "of_nat (3000 - i + k) - 1 = (of_nat (3000 - Suc i + k) :: u64)"
    "of_nat (1024 * (3000 - i) + k) - 1024 = (of_nat (1024 * (3000 - Suc i) + k) :: u64)" unfolding n by simp_all
  then show ?thesis using pos ge
    by (simp add: di_uncount_def filled_def dense_def piece_def del: of_nat_add of_nat_mult of_nat_diff) simp
qed

lemma read_dense:
  assumes "i \<le> 3000" and "length out = 1024 * i" and "3072000 \<le> sz" and "k < 2 ^ 40"
  shows "stream_recv_loop sz out (filled c i 3000 k\<lparr>frames_tailq := fs\<rparr>) (map (dense c) [i..<3000] @ map (sparse c) [0..<k]) =
    (out @ map c [1024 * i..<3072000], filled c 3000 3000 k\<lparr>frames_tailq := fs\<rparr>, map (sparse c) [0..<k])"
  using assms
proof (induction "3000 - i" arbitrary: i out)
  case 0
  then have i: "i = 3000" by simp
  let ?d = "filled c 3000 3000 k\<lparr>frames_tailq := fs\<rparr>"
  have "merged_offset_end ?d = 3072000" by (simp add: filled_def)
  moreover have "(3072000 :: u64) < data_offset (sparse c 0)" by (simp add: sparse_def piece_def)
  ultimately show ?case using i by (cases k) (simp_all add: upt_conv_Cons del: upt_Suc)
next
  case (Suc x)
  let ?d = "filled c i 3000 k\<lparr>frames_tailq := fs\<rparr>" and ?f = "dense c i"
  have i: "i < 3000" "[i..<3000] = i # [Suc i..<3000]" using Suc(2) by (simp_all add: upt_conv_Cons)
  have p: "sf_lo ?f = 1024 * i" "unat (sf_end ?f) = 1024 * i + 1024"
    using piece_ok [of "1024 * i" 1024 c] i by (simp_all add: dense_def)
  have r: "read_pos (filled c i 3000 k) = 1024 * i" "merged_end (filled c i 3000 k) = 3072000" using i
    by (simp_all add: read_pos_def merged_end_def filled_def of_nat_u64 del: of_nat_mult)
  have c: "\<not> data_offset ?f > merged_offset_end ?d" "\<not> sf_end ?f < di_next_read_offset ?d"
    "\<not> data_offset ?f < di_next_read_offset ?d" "\<not> sz \<le> length out"
    using p r i Suc.prems by (simp_all add: di_nat)
  have "stream_recv_loop sz out ?d (map (dense c) [i..<3000] @ map (sparse c) [0..<k]) =
    stream_recv_loop sz (out @ map c [1024 * i..<1024 * i + 1024]) (filled c (Suc i) 3000 k\<lparr>frames_tailq := fs\<rparr>)
      (map (dense c) [Suc i..<3000] @ map (sparse c) [0..<k])"
    unfolding i(2) using c uncount_dense [OF i(1), of k c fs] Suc.prems(2-4) i(1)
    by (simp add: Let_def) (simp add: dense_def piece_def filled_def)
  also have "\<dots> = (out @ map c [1024 * i..<1024 * i + 1024] @ map c [1024 * Suc i..<3072000],
     filled c 3000 3000 k\<lparr>frames_tailq := fs\<rparr>, map (sparse c) [0..<k])"
    using Suc.hyps Suc.prems i(1) by (subst Suc.hyps(1)) simp_all
  also have "map c [1024 * i..<1024 * i + 1024] @ map c [1024 * Suc i..<3072000] = map c [1024 * i..<3072000]"
    using i(1) upt_add_eq_append [of "1024 * i" "1024 * Suc i" "3072000 - 1024 * Suc i"] by (simp add: add.commute)
  finally show ?case .
qed

definition fill_ops :: "(nat \<Rightarrow> u8) \<Rightarrow> stream_op list" where
  "fill_ops c = map (\<lambda>i. Insert (dense c i)) [0..<3000] @ map (\<lambda>j. Insert (sparse c j)) [0..<9000] @ [Read 3072000]"

lemma run_stream_append:
  "run_stream ins rd (xs @ ys) s =
     (let (o1, s1) = run_stream ins rd xs s; (o2, s2) = run_stream ins rd ys s1 in (o1 @ o2, s2))"
  by (induction ins rd xs s rule: run_stream.induct) (auto simp: Let_def split: prod.splits)

lemma run_inserts:
  assumes "\<And>i. i < n \<Longrightarrow> ins (f i) (st i) = st (Suc i)"
  shows "run_stream ins rd (map (\<lambda>i. Insert (f i)) [0..<n]) (st 0) = ([], st n)"
  using assms by (induction n) (simp_all add: run_stream_append)

lemma stream_read_filled:
  assumes "k < 2 ^ 40"
  shows "stream_read 3072000 (filled c 0 3000 k) = (map c [0..<3072000], filled c 3000 3000 k)"
proof -
  have fs: "frames_tailq (filled c 0 3000 k) = map (dense c) [0..<3000] @ map (sparse c) [0..<k]"
    "filled c 3000 3000 k\<lparr>frames_tailq := map (sparse c) [0..<k]\<rparr> = filled c 3000 3000 k"
    unfolding filled_def by simp_all
  have "stream_recv_loop 3072000 [] (filled c 0 3000 k\<lparr>frames_tailq := frames_tailq (filled c 0 3000 k)\<rparr>)
      (map (dense c) [0..<3000] @ map (sparse c) [0..<k]) =
    ([] @ map c [1024 * 0..<3072000], filled c 3000 3000 k\<lparr>frames_tailq := frames_tailq (filled c 0 3000 k)\<rparr>, map (sparse c) [0..<k])"
    by (rule read_dense) (use assms in simp_all)
  then show ?thesis unfolding stream_read_def fs(1) by (simp add: fs(2) fs(1) [symmetric])
qed

lemma fill_reaches:
  "run_stream (stream_ins 0) stream_read (fill_ops c) di_new = (map c [0..<3072000], filled c 3000 3000 9000)"
proof -
  have new: "di_new = filled c 0 0 0" by (simp add: di_new_def filled_def)
  have a: "run_stream (stream_ins 0) stream_read (map (\<lambda>i. Insert (dense c i)) [0..<3000]) (filled c 0 0 0) = ([], filled c 0 3000 0)"
    by (rule run_inserts [where st = "\<lambda>n. filled c 0 n 0"]) (simp add: stream_ins_def insert_dense)
  have b: "run_stream (stream_ins 0) stream_read (map (\<lambda>i. Insert (sparse c i)) [0..<9000]) (filled c 0 3000 0) = ([], filled c 0 3000 9000)"
    by (rule run_inserts [where st = "\<lambda>n. filled c 0 3000 n"]) (simp add: stream_ins_def insert_sparse)
  have "stream_read 3072000 (filled c 0 3000 9000) = (map c [0..<3072000], filled c 3000 3000 9000)"
    by (rule stream_read_filled) simp
  with a b show ?thesis by (simp add: fill_ops_def run_stream_append new)
qed

text \<open>In that state every frame of a packet is refused, and a read delivers nothing.\<close>

definition stuck :: "(nat \<Rightarrow> u8) \<Rightarrow> bool \<Rightarrow> xqc_stream_data_in" where
  "stuck c b = filled c 3000 3000 9000\<lparr>cap_reject_logged := b\<rparr>"

lemma stuck_insert:
  assumes "data_length f < 2 ^ 16"
  shows "xqc_insert_stream_frame 0 (stuck c b) f = (stuck c True, Inl XQC_ELIMIT)"
proof -
  have l: "unat (data_length f) < 65536" using assms by (simp add: word_less_nat_alt)
  have "unat (buffered_frame_count (stuck c b)) = 9000" "unat (buffered_data_bytes (stuck c b)) = 9000"
    using count_filled [of 3000 3000 9000 c] by (simp_all add: stuck_def)
  then have "stream_cap_reject 0 (stuck c b) f" using l by (simp add: cap_reject_nat Let_def)
  then show ?thesis by (simp add: xqc_insert_stream_frame_def stuck_def)
qed

lemma read_hole:
  "frames_tailq di = f # fs \<Longrightarrow> merged_offset_end di < data_offset f \<Longrightarrow> stream_read sz di = ([], di)"
  by (simp add: stream_read_def)

lemma stuck_read: "stream_read sz (stuck c b) = ([], stuck c b)"
proof (rule read_hole)
  have "frames_tailq (filled c i i (Suc k)) = sparse c 0 # map (sparse c) [Suc 0..<Suc k]" for i k
    by (simp add: filled_def upt_conv_Cons del: upt_Suc)
  from this [of 3000 8999]
  show "frames_tailq (stuck c b) = sparse c 0 # map (sparse c) [Suc 0..<Suc 8999]" unfolding stuck_def by simp
  show "merged_offset_end (stuck c b) < data_offset (sparse c 0)"
    by (simp add: stuck_def filled_def sparse_def piece_def del: upt_Suc)
qed

lemma stuck_run:
  assumes "\<And>f. Insert f \<in> set ops \<Longrightarrow> data_length f < 2 ^ 16"
  shows "\<exists>b'. run_stream (stream_ins 0) stream_read ops (stuck c b) = ([], stuck c b')"
  using assms
proof (induction ops arbitrary: b)
  case (Cons p ops)
  then show ?case by (cases p) (auto simp: stream_ins_def stuck_insert stuck_read)
qed auto

lemma stuck_start: "stuck c False = filled c 3000 3000 9000"
  unfolding stuck_def filled_def by (simp only: xqc_stream_data_in.update_convs)

text \<open>C32: The slot that \<open>xqc_insert_stream_frame\<close> reserves for the frame that fills the first hole is not always there.
  Its comment says that a frame that extends the contiguous prefix is exempt from both limits, since refusing it for
  ever would livelock the stream. After 3000 dense frames, 9000 single bytes behind a hole and a read of everything in front of the hole
  (all accepted, about 3 MB), no frame of less than 64 KB is ever accepted again, and no read delivers a byte: the density limit is
  applied to the 9000 frames that are left.\<close>

theorem reserved_slot_refused:
  assumes "\<And>f. Insert f \<in> set ops \<Longrightarrow> data_length f < 2 ^ 16"
  shows "fst (run_stream (stream_ins 0) stream_read (fill_ops c @ ops) di_new) = map c [0..<3072000]"
proof -
  obtain b where run: "run_stream (stream_ins 0) stream_read ops (stuck c False) = ([], stuck c b)"
    using stuck_run [OF assms] by blast
  have s: "filled c 3000 3000 9000 = stuck c False" by (rule stuck_start [symmetric])
  show ?thesis unfolding run_stream_append fill_reaches Let_def prod.case s run by (simp only: fst_conv append_Nil2)
qed

theorem reserved_slot_refused_witness:
  "fst (run_stream (stream_ins 0) stream_read (fill_ops c_example @ [Insert (piece c_example 3072000 1), Read 10]) di_new)
    = map c_example [0..<3072000]"
  by (rule reserved_slot_refused) (auto simp: piece_def)

section \<open>Density\<close>

text \<open>What the comment of \<open>xqc_insert_stream_frame\<close> says about the density of the buffer: when a frame has been
  accepted beyond the threshold of 8192 frames, the buffered bytes are at least 256 times the number of frames, the
  one in the reserved slot not counted.\<close>

theorem density_after_insert:
  assumes "unat (buffered_frame_count di) < 2 ^ 40" and "unat (buffered_data_bytes di) < 2 ^ 40"
    and "xqc_insert_stream_frame 0 di f = (di', Inr ())" and "unat (buffered_frame_count di') > 8192"
  shows "256 * (unat (buffered_frame_count di') - 1) \<le> unat (buffered_data_bytes di')
    \<and> unat (buffered_frame_count di') \<le> 32768"
proof -
  from assms(3) have nr: "\<not> stream_cap_reject 0 di f" and d: "buffered_frame_count di' = buffered_frame_count di + 1"
    "buffered_data_bytes di' = buffered_data_bytes di + ucast (data_length f)"
    by (auto simp: xqc_insert_stream_frame_def Let_def split: if_splits option.splits)
  have l: "unat (data_length f) < 2 ^ 32" using unsigned_less [of "data_length f", where 'a = nat] by simp
  have u: "unat (ucast (data_length f) :: u64) = unat (data_length f)" by (rule unat_ucast_up) simp
  have n: "unat (buffered_frame_count di') = unat (buffered_frame_count di) + 1"
    "unat (buffered_data_bytes di') = unat (buffered_data_bytes di) + unat (data_length f)"
    unfolding d using assms(1,2) l by (simp_all add: unat_word_ariths u)
  show ?thesis using nr assms(4) unfolding cap_reject_nat [OF assms(1,2)] n Let_def by (auto split: if_splits)
qed

theorem density_after_insert_witness:
  "\<exists>di'. xqc_insert_stream_frame 0 (di_new\<lparr>buffered_frame_count := 8192, buffered_data_bytes := 2097152\<rparr>) (sf_example 0 3) = (di', Inr ())
    \<and> 256 * (unat (buffered_frame_count di') - 1) \<le> unat (buffered_data_bytes di')"
proof -
  let ?di = "di_new\<lparr>buffered_frame_count := 8192, buffered_data_bytes := 2097152\<rparr>"
  obtain di' ret where r: "xqc_insert_stream_frame 0 ?di (sf_example 0 3) = (di', ret)" by fastforce
  have "snd (xqc_insert_stream_frame 0 ?di (sf_example 0 3)) = Inr ()"
    "unat (buffered_frame_count (fst (xqc_insert_stream_frame 0 ?di (sf_example 0 3)))) = 8193" by code_simp+
  with r have "ret = Inr ()" "unat (buffered_frame_count di') = 8193" by simp_all
  with r density_after_insert [of ?di "sf_example 0 3" di'] show ?thesis by simp
qed

end
