(* ===== verification/Packet_Number.thy ===== *)
theory Packet_Number
  imports Packet_Buf
begin

text \<open>
  Packet numbers on the wire: \<open>xqc_write_packet_number\<close>, \<open>xqc_packet_parse_packet_number\<close> and the
  recovery of the full number from the truncated one, \<open>xqc_packet_decode_packet_number\<close>, of
  transport/xqc_packet_parser.c. The theorem is the contract of RFC 9000, appendix A: a number near the
  expected one survives truncation.
\<close>

section \<open>Operations\<close>

definition xqc_packet_number_bits2len :: "nat \<Rightarrow> nat" where
  "xqc_packet_number_bits2len b = b + 1"

definition xqc_packet_parse_packet_number :: "bytes \<Rightarrow> nat \<Rightarrow> u64" where
  "xqc_packet_parse_packet_number pos packet_number_len = shift_in 0 (take packet_number_len pos)"

definition xqc_packet_decode_packet_number :: "u64 \<Rightarrow> u64 \<Rightarrow> nat \<Rightarrow> u64" where
  "xqc_packet_decode_packet_number largest_pn truncated_pn pn_nbits =
     (let expected_pn = largest_pn + 1;
          pn_win = push_bit pn_nbits 1;
          pn_hwin = drop_bit 1 pn_win;
          pn_mask = pn_win - 1;
          candidate_pn = (expected_pn AND NOT pn_mask) OR truncated_pn
      in if candidate_pn + pn_hwin \<le> expected_pn \<and> candidate_pn < push_bit 62 1 - pn_win
         then candidate_pn + pn_win
         else if candidate_pn > expected_pn + pn_hwin \<and> candidate_pn \<ge> pn_win
         then candidate_pn - pn_win
         else candidate_pn)"

definition xqc_write_packet_number :: "u64 \<Rightarrow> nat \<Rightarrow> bytes" where
  "xqc_write_packet_number packet_number packet_number_bits =
     (let packet_number_len = xqc_packet_number_bits2len packet_number_bits
      in (if packet_number_len = 4 then [ucast (drop_bit 24 packet_number)] else [])
       @ (if packet_number_len \<ge> 3 then [ucast (drop_bit 16 packet_number)] else [])
       @ (if packet_number_len \<ge> 2 then [ucast (drop_bit 8 packet_number)] else [])
       @ [ucast packet_number])"

section \<open>Lemmas\<close>

lemma write_packet_number_be:
  assumes "b \<le> 3"
  shows "xqc_write_packet_number pn b = be_bytes (b + 1) pn"
proof -
  from assms consider "b = 0" | "b = 1" | "b = 2" | "b = 3" by linarith
  then show ?thesis
    by cases (simp_all add: xqc_write_packet_number_def xqc_packet_number_bits2len_def eval_nat_numeral)
qed

lemma length_write_packet_number: "b \<le> 3 \<Longrightarrow> length (xqc_write_packet_number pn b) = b + 1"
  by (simp add: write_packet_number_be)

lemma shift_in_be_val: "shift_in 0 bs = be_val bs"
proof (induction bs rule: rev_induct)
  case Nil
  show ?case by simp
next
  case (snoc x xs)
  have app: "shift_in v (ys @ [x]) = push_bit 8 (shift_in v ys) + ucast x" for v ys
    by (induction ys arbitrary: v) simp_all
  have "push_bit 8 w AND ucast x = 0" for w :: u64
    by (rule bit_eqI) (auto simp: bit_simps dest: bit_imp_le_length)
  then show ?case by (simp add: app snoc disjunctive_add_eq_or)
qed

lemma parse_write_packet_number:
  assumes "b \<le> 3"
  shows "xqc_packet_parse_packet_number (xqc_write_packet_number pn b @ rest) (b + 1) = take_bit (8 * (b + 1)) pn"
  unfolding xqc_packet_parse_packet_number_def write_packet_number_be [OF assms] shift_in_be_val
  by (simp add: be_val_be_bytes del: be_bytes.simps be_val_snoc)

text \<open>The decoder over natural numbers.\<close>

lemma unat_window: "n < 64 \<Longrightarrow> unat (push_bit n 1 :: u64) = 2 ^ n"
  by (simp add: push_bit_eq_mult unat_pow2)

lemma unat_candidate:
  assumes "n < 64" and "unat t < 2 ^ n"
  shows "unat (((e :: u64) AND NOT (push_bit n 1 - 1)) OR t) = unat e div 2 ^ n * 2 ^ n + unat t"
proof -
  have m: "(push_bit n 1 - 1 :: u64) = mask n" by (simp add: mask_eq_exp_minus_1 push_bit_eq_mult)
  have tb: "\<not> bit t k" if "n \<le> k" for k
    using that take_bit_self [OF assms(2)] by (metis bit_take_bit_iff not_less)
  have hi: "e AND NOT (mask n) = push_bit n (drop_bit n e)"
    by (rule bit_eqI) (auto simp: bit_simps)
  have "(e AND NOT (mask n)) AND t = 0"
    by (rule bit_eqI) (auto simp: bit_simps tb not_less dest: tb)
  then have or: "(e AND NOT (mask n)) OR t = push_bit n (drop_bit n e) + t"
    by (simp add: hi disjunctive_add_eq_or)
  have p: "unat (push_bit n (drop_bit n e)) = unat e div 2 ^ n * 2 ^ n"
  proof -
    have "unat e div 2 ^ n * 2 ^ n < 2 ^ 64" using unat_u64_less [of e] div_times_less_eq_dividend le_less_trans by blast
    then show ?thesis
      by (simp only: unsigned_push_bit_eq unsigned_drop_bit_eq) (simp add: push_bit_nat_def drop_bit_nat_def take_bit_nat_eq_self unat_u64_less [simplified])
  qed
  have "unat e div 2 ^ n * 2 ^ n + unat t < 2 ^ 64"
  proof -
    have "unat e div 2 ^ n < 2 ^ (64 - n)"
      using unat_u64_less [of e] assms(1) by (simp add: less_mult_imp_div_less flip: power_add)
    then have "(unat e div 2 ^ n + 1) * 2 ^ n \<le> 2 ^ (64 - n) * 2 ^ n" by (intro mult_right_mono) simp_all
    also have "\<dots> = 2 ^ 64" using assms(1) by (simp flip: power_add)
    finally show ?thesis using assms(2) by simp
  qed
  then show ?thesis unfolding m or by (simp add: unat_word_ariths p)
qed

lemma decode_cases:
  fixes l t :: u64 and n :: nat
  assumes n: "0 < n" "n \<le> 32" and t: "unat t < 2 ^ n" and l: "unat l < 2 ^ 62"
  defines "c \<equiv> (unat l + 1) div 2 ^ n * 2 ^ n + unat t"
  shows "unat (xqc_packet_decode_packet_number l t n) =
    (if c + 2 ^ (n - 1) \<le> unat l + 1 \<and> c < 2 ^ 62 - 2 ^ n then c + 2 ^ n
     else if unat l + 1 + 2 ^ (n - 1) < c \<and> 2 ^ n \<le> c then c - 2 ^ n else c)"
proof -
  have p: "(2::nat) ^ n \<le> 2 ^ 32" using n by (intro power_increasing) simp_all
  have w: "(2::nat) ^ n = 2 * 2 ^ (n - 1)" using n by (cases n) simp_all
  define E W H C M :: u64 where "E = l + 1" and "W = push_bit n 1" and "H = drop_bit 1 W"
    and "C = (E AND NOT (W - 1)) OR t" and "M = push_bit 62 1"
  have e: "unat E = unat l + 1" using l by (simp add: E_def unat_word_ariths)
  have uw: "unat W = 2 ^ n" "unat M = 2 ^ 62" using n by (simp_all only: W_def M_def unat_window)
  have uh: "unat H = 2 ^ (n - 1)"
    by (simp only: H_def unsigned_drop_bit_eq uw) (use p in \<open>simp add: w drop_bit_nat_def take_bit_nat_eq_self\<close>)
  have uc: "unat C = c" using unat_candidate [OF _ t, of E] n by (simp only: C_def W_def e c_def)
  have cb: "c \<le> 2 ^ 62 + 2 ^ 32"
    using l t p div_times_less_eq_dividend [of "unat l + 1" "2 ^ n"] unfolding c_def by linarith
  have s1: "unat (C + H) = c + 2 ^ (n - 1)" "unat (C + W) = c + 2 ^ n" "unat (E + H) = unat l + 1 + 2 ^ (n - 1)"
    using cb p w l by (simp_all add: unat_word_ariths uc uw uh e)
  have s2: "unat (M - W) = 2 ^ 62 - 2 ^ n" using p by (simp add: unat_sub word_le_nat_alt uw)
  have s3: "unat (C - W) = c - 2 ^ n" if "2 ^ n \<le> c" using that by (simp add: unat_sub word_le_nat_alt uc uw)
  have "xqc_packet_decode_packet_number l t n =
    (if C + H \<le> E \<and> C < M - W then C + W else if C > E + H \<and> C \<ge> W then C - W else C)"
    by (simp only: xqc_packet_decode_packet_number_def Let_def E_def W_def H_def C_def M_def)
  then show ?thesis by (simp add: word_le_nat_alt word_less_nat_alt s1 s2 s3 e uc uw)
qed

text \<open>A number in the window is one of the three candidates, and the window decides which.\<close>

lemma window_cases:
  fixes e x h :: nat
  assumes "0 < h" and "e < x + h" and "x \<le> e + h"
  defines "w \<equiv> 2 * h"
  defines "c \<equiv> e div w * w + x mod w"
  obtains "x = c" | "x = c + w" | "c = x + w"
proof -
  define q r where "q = e div w" and "r = x div w"
  have w: "0 < w" using assms(1) by (simp add: w_def)
  have x: "x = r * w + x mod w" "x mod w < w" and e: "e = q * w + e mod w" "e mod w < w"
    using w by (simp_all add: q_def r_def)
  have b: "r * w \<le> x" "x < (r + 1) * w" "q * w \<le> e" "e < (q + 1) * w"
    unfolding distrib_right mult_1 using x e by linarith+
  have "q < r + 2"
  proof (rule ccontr)
    assume "\<not> q < r + 2"
    then have "(r + 2) * w \<le> q * w" by (intro mult_right_mono) simp_all
    with b assms(2) show False by (simp add: algebra_simps w_def)
  qed
  moreover have "r < q + 2"
  proof (rule ccontr)
    assume "\<not> r < q + 2"
    then have "(q + 2) * w \<le> r * w" by (intro mult_right_mono) simp_all
    with b assms(3) show False by (simp add: algebra_simps w_def)
  qed
  ultimately consider "r = q" | "r = q + 1" | "q = r + 1" by linarith
  then show thesis using that x(1) by cases (simp_all add: c_def q_def [symmetric])
qed

lemma decode_take_bit:
  assumes b: "b \<le> 3" and pn: "unat pn < 2 ^ 62" and l: "unat largest < 2 ^ 62"
    and lo: "unat largest + 1 < unat pn + 2 ^ (8 * (b + 1) - 1)"
    and hi: "unat pn \<le> unat largest + 1 + 2 ^ (8 * (b + 1) - 1)"
  shows "xqc_packet_decode_packet_number largest (take_bit (8 * (b + 1)) pn) (8 * (b + 1)) = pn"
proof -
  define n h :: nat where "n = 8 * (b + 1)" and "h = 2 ^ (n - 1)"
  define t where "t = take_bit n pn"
  have n: "0 < n" "n \<le> 32" using b by (simp_all add: n_def)
  have w: "2 ^ n = 2 * h" using n by (cases n) (simp_all add: h_def)
  have ut: "unat t = unat pn mod (2 * h)" by (simp only: t_def unsigned_take_bit_eq take_bit_nat_def w)
  let ?c = "(unat largest + 1) div (2 * h) * (2 * h) + unat pn mod (2 * h)"
  have h: "0 < h" by (simp add: h_def)
  have "unat t < 2 ^ n" using h by (simp add: ut w)
  from decode_cases [OF n this l]
  have d: "unat (xqc_packet_decode_packet_number largest t n) =
    (if ?c + h \<le> unat largest + 1 \<and> ?c < 2 ^ 62 - 2 * h then ?c + 2 * h
     else if unat largest + 1 + h < ?c \<and> 2 * h \<le> ?c then ?c - 2 * h else ?c)"
    by (simp only: w ut h_def [symmetric])
  have win: "unat largest + 1 < unat pn + h" "unat pn \<le> unat largest + 1 + h"
    using lo hi by (simp_all add: n_def h_def)
  have "unat (xqc_packet_decode_packet_number largest t n) = unat pn"
    by (rule window_cases [OF h win]) (use win pn in \<open>auto simp: d\<close>)
  then show ?thesis by (simp only: t_def n_def word_unat_eq_iff)
qed

section \<open>Property\<close>

text \<open>C12: Packet numbers survive truncation (RFC 9000, section 17.1 and appendix A.3). A number that lies in the window of half the
  number space of the encoding around the next expected number is recovered exactly: what \<open>xqc_write_packet_number\<close> writes with
  \<open>b + 1\<close> bytes, whatever follows it, is read by \<open>xqc_packet_parse_packet_number\<close> and completed by
  \<open>xqc_packet_decode_packet_number\<close> to the number that was sent.\<close>

theorem packet_number_roundtrip:
  assumes b: "b \<le> 3" and pn: "unat pn < 2 ^ 62" and l: "unat largest < 2 ^ 62"
    and lo: "unat largest + 1 < unat pn + 2 ^ (8 * (b + 1) - 1)"
    and hi: "unat pn \<le> unat largest + 1 + 2 ^ (8 * (b + 1) - 1)"
  shows "xqc_packet_decode_packet_number largest
      (xqc_packet_parse_packet_number (xqc_write_packet_number pn b @ rest) (b + 1)) (8 * (b + 1)) = pn"
  unfolding parse_write_packet_number [OF b] by (rule decode_take_bit [OF b pn l lo hi])

theorem packet_number_roundtrip_witness:
  "xqc_packet_decode_packet_number 0xa82f30ea
      (xqc_packet_parse_packet_number (xqc_write_packet_number 0xa82f9b32 1 @ [0, 7]) (1 + 1)) (8 * (1 + 1)) = 0xa82f9b32"
  by (rule packet_number_roundtrip) simp_all

end
