(* ===== verification/Cid.thy ===== *)
theory Cid
  imports Packet_Buf "HOL-Library.Multiset"
begin

text \<open>
  Sets of connection identifiers (src/transport/xqc_cid.c, xqc_cid.h), one for the identifiers
  the endpoint has issued (\<open>scid_set\<close>) and one for those of the peer (\<open>dcid_set\<close>), with a list of
  identifiers per path. A pointer to an \<open>xqc_cid_inner_t\<close> is the path of its list
  and its place there.
\<close>

section \<open>State\<close>

datatype xqc_cid_state = XQC_CID_UNUSED | XQC_CID_USED | XQC_CID_RETIRED | XQC_CID_REMOVED

fun cid_state_num :: "xqc_cid_state \<Rightarrow> nat" where
  "cid_state_num XQC_CID_UNUSED = 0"
| "cid_state_num XQC_CID_USED = 1"
| "cid_state_num XQC_CID_RETIRED = 2"
| "cid_state_num XQC_CID_REMOVED = 3"

datatype xqc_cid_set_state = XQC_CID_SET_UNUSED | XQC_CID_SET_USED | XQC_CID_SET_ABANDONED

record xqc_cid_inner =
  ci_cid :: xqc_cid
  ci_state :: xqc_cid_state
  retired_ts :: u64
  acked :: bool
  is_original :: bool

record xqc_cid_set_inner =
  cid_list :: "xqc_cid_inner list"
  unused_cnt :: u64
  used_cnt :: u64
  retired_cnt :: u64
  original_cid_cnt :: u64
  set_path_id :: u64
  largest_scid_seq_num :: u64
  set_state :: xqc_cid_set_state
  acked_unused :: u32

text \<open>\<open>user_scid\<close> shares its place with \<open>current_dcid\<close>; a set uses one of the two.\<close>

record xqc_cid_set =
  cid_set_list :: "xqc_cid_set_inner list"
  abandoned_set_list :: "xqc_cid_set_inner list"
  user_scid :: xqc_cid
  set_cnt :: "xqc_cid_set_state \<Rightarrow> u32"

definition XQC_INITIAL_PATH_ID :: u64 where "XQC_INITIAL_PATH_ID = 0"

definition XQC_MAX_UINT64_VALUE :: u64 where "XQC_MAX_UINT64_VALUE = -1"

section \<open>Identifiers\<close>

definition xqc_cid_is_equal :: "xqc_cid \<Rightarrow> xqc_cid \<Rightarrow> bool" where
  "xqc_cid_is_equal dst src \<longleftrightarrow> cid_len dst = cid_len src
     \<and> take (unat (cid_len dst)) (cid_buf dst) = take (unat (cid_len dst)) (cid_buf src)"

definition xqc_cid_copy :: "xqc_cid \<Rightarrow> xqc_cid \<Rightarrow> xqc_cid" where
  "xqc_cid_copy dst src =
     dst\<lparr>cid_len := cid_len src,
         cid_buf := buf_write (cid_buf dst) 0 (take (unat (cid_len src)) (cid_buf src)),
         cid_seq_num := cid_seq_num src,
         sr_token := buf_write (sr_token dst) 0 (take XQC_STATELESS_RESET_TOKENLEN (sr_token src)),
         cid_path_id := cid_path_id src\<rparr>"

definition xqc_cid_init_zero :: xqc_cid where
  "xqc_cid_init_zero = \<lparr>cid_len = 0, cid_buf = replicate XQC_MAX_CID_LEN 0, cid_seq_num = 0,
     sr_token = replicate XQC_STATELESS_RESET_TOKENLEN 0, cid_path_id = 0\<rparr>"

text \<open>\<open>xqc_cid_set\<close> of the source is also the name of the type.\<close>

definition xqc_cid_set_bytes :: "xqc_cid \<Rightarrow> bytes \<Rightarrow> u8 \<Rightarrow> xqc_cid" where
  "xqc_cid_set_bytes cid data len =
     (let cid = cid\<lparr>cid_len := len\<rparr>
      in if len \<noteq> 0 then cid\<lparr>cid_buf := buf_write (cid_buf cid) 0 (take (unat len) data)\<rparr> else cid)"

section \<open>Sets\<close>

definition xqc_cid_set_inner_init :: xqc_cid_set_inner where
  "xqc_cid_set_inner_init = \<lparr>cid_list = [], unused_cnt = 0, used_cnt = 0, retired_cnt = 0,
     original_cid_cnt = 0, set_path_id = 0, largest_scid_seq_num = 0, set_state = XQC_CID_SET_UNUSED,
     acked_unused = 0\<rparr>"

definition xqc_init_cid_set :: xqc_cid_set where
  "xqc_init_cid_set = \<lparr>cid_set_list = [], abandoned_set_list = [], user_scid = xqc_cid_init_zero,
     set_cnt = (\<lambda>_. 0)\<rparr>"

definition xqc_destroy_cid_set :: "xqc_cid_set \<Rightarrow> xqc_cid_set" where
  "xqc_destroy_cid_set cs = xqc_init_cid_set"

text \<open>The walk of \<open>xqc_cid_set_first\<close> and \<open>xqc_cid_set_next\<close>.\<close>

definition xqc_cid_set_walk :: "xqc_cid_set \<Rightarrow> xqc_cid_set_inner list" where
  "xqc_cid_set_walk cs = cid_set_list cs @ abandoned_set_list cs"

definition xqc_get_path_cid_set :: "xqc_cid_set \<Rightarrow> u64 \<Rightarrow> xqc_cid_set_inner option" where
  "xqc_get_path_cid_set cs pid = find (\<lambda>s. set_path_id s = pid) (xqc_cid_set_walk cs)"

definition xqc_get_next_unused_path_cid_set :: "xqc_cid_set \<Rightarrow> xqc_cid_set_inner option" where
  "xqc_get_next_unused_path_cid_set cs = find (\<lambda>s. set_state s = XQC_CID_SET_UNUSED) (cid_set_list cs)"

text \<open>A write through the pointer that \<open>xqc_get_path_cid_set\<close> returns.\<close>

fun upd_first :: "('a \<Rightarrow> bool) \<Rightarrow> ('a \<Rightarrow> 'a) \<Rightarrow> 'a list \<Rightarrow> 'a list" where
  "upd_first P f [] = []"
| "upd_first P f (x # xs) = (if P x then f x # xs else x # upd_first P f xs)"

definition upd_path :: "u64 \<Rightarrow> (xqc_cid_set_inner \<Rightarrow> xqc_cid_set_inner) \<Rightarrow> xqc_cid_set \<Rightarrow> xqc_cid_set" where
  "upd_path pid f cs =
     (if \<exists>s \<in> set (cid_set_list cs). set_path_id s = pid
      then cs\<lparr>cid_set_list := upd_first (\<lambda>s. set_path_id s = pid) f (cid_set_list cs)\<rparr>
      else cs\<lparr>abandoned_set_list := upd_first (\<lambda>s. set_path_id s = pid) f (abandoned_set_list cs)\<rparr>)"

definition path_get :: "(xqc_cid_set_inner \<Rightarrow> u64) \<Rightarrow> xqc_cid_set \<Rightarrow> u64 \<Rightarrow> u64 res" where
  "path_get field cs pid =
     (case xqc_get_path_cid_set cs pid of None \<Rightarrow> Inl XQC_ERROR | Some s \<Rightarrow> Inr (field s))"

definition xqc_cid_set_get_unused_cnt :: "xqc_cid_set \<Rightarrow> u64 \<Rightarrow> u64 res" where
  "xqc_cid_set_get_unused_cnt = path_get unused_cnt"

definition xqc_cid_set_get_used_cnt :: "xqc_cid_set \<Rightarrow> u64 \<Rightarrow> u64 res" where
  "xqc_cid_set_get_used_cnt = path_get used_cnt"

definition xqc_cid_set_get_retired_cnt :: "xqc_cid_set \<Rightarrow> u64 \<Rightarrow> u64 res" where
  "xqc_cid_set_get_retired_cnt = path_get retired_cnt"

definition xqc_cid_set_get_largest_seq_or_rpt :: "xqc_cid_set \<Rightarrow> u64 \<Rightarrow> u64 res" where
  "xqc_cid_set_get_largest_seq_or_rpt = path_get largest_scid_seq_num"

definition xqc_cid_set_has_unused :: "xqc_cid_set \<Rightarrow> u64 \<Rightarrow> bool" where
  "xqc_cid_set_has_unused cs pid =
     (case xqc_get_path_cid_set cs pid of None \<Rightarrow> False | Some s \<Rightarrow> unused_cnt s > 0)"

definition xqc_cid_set_set_largest_seq_or_rpt :: "xqc_cid_set \<Rightarrow> u64 \<Rightarrow> u64 \<Rightarrow> xqc_cid_set \<times> unit res" where
  "xqc_cid_set_set_largest_seq_or_rpt cs pid val =
     (case xqc_get_path_cid_set cs pid of
        None \<Rightarrow> (cs, Inl XQC_ERROR)
      | Some _ \<Rightarrow> (upd_path pid (\<lambda>s. s\<lparr>largest_scid_seq_num := val\<rparr>) cs, Inr ()))"

definition xqc_cid_set_countable_cnt :: "xqc_cid_set_inner \<Rightarrow> u64" where
  "xqc_cid_set_countable_cnt s =
     (let active = unused_cnt s + used_cnt s
      in if active > original_cid_cnt s then active - original_cid_cnt s else 0)"

text \<open>The counters of a state.\<close>

definition count_in :: "xqc_cid_state \<Rightarrow> xqc_cid_set_inner \<Rightarrow> xqc_cid_set_inner" where
  "count_in st s = (case st of
       XQC_CID_UNUSED \<Rightarrow> s\<lparr>unused_cnt := unused_cnt s + 1\<rparr>
     | XQC_CID_USED \<Rightarrow> s\<lparr>used_cnt := used_cnt s + 1\<rparr>
     | XQC_CID_RETIRED \<Rightarrow> s\<lparr>retired_cnt := retired_cnt s + 1\<rparr>
     | XQC_CID_REMOVED \<Rightarrow> s)"

definition count_out :: "xqc_cid_inner \<Rightarrow> xqc_cid_set_inner \<Rightarrow> xqc_cid_set_inner" where
  "count_out c s = (case ci_state c of
       XQC_CID_UNUSED \<Rightarrow>
         let s = s\<lparr>unused_cnt := unused_cnt s - 1\<rparr>
         in if acked c then s\<lparr>acked_unused := acked_unused s - 1\<rparr> else s
     | XQC_CID_USED \<Rightarrow> s\<lparr>used_cnt := used_cnt s - 1\<rparr>
     | XQC_CID_RETIRED \<Rightarrow> s\<lparr>retired_cnt := retired_cnt s - 1\<rparr>
     | XQC_CID_REMOVED \<Rightarrow> s)"

text \<open>The second result is the caller's identifier, whose path is set.\<close>

definition xqc_cid_set_insert_cid ::
    "bool \<Rightarrow> xqc_cid_set \<Rightarrow> xqc_cid \<Rightarrow> xqc_cid_state \<Rightarrow> u64 \<Rightarrow> u64 \<Rightarrow> xqc_cid_set \<times> xqc_cid \<times> unit res" where
  "xqc_cid_set_insert_cid malloc_ok cs cid st limit pid =
     (case xqc_get_path_cid_set cs pid of
        None \<Rightarrow> (cs, cid, Inl XQC_ECONN_CID_NOT_FOUND)
      | Some s \<Rightarrow>
          if xqc_cid_set_countable_cnt s \<ge> limit then (cs, cid, Inl XQC_EACTIVE_CID_LIMIT)
          else if \<not> malloc_ok then (cs, cid, Inl XQC_EMALLOC)
          else
            let cid = cid\<lparr>cid_path_id := pid\<rparr>;
                c = \<lparr>ci_cid = xqc_cid_copy xqc_cid_init_zero cid, ci_state = st,
                     retired_ts = XQC_MAX_UINT64_VALUE, acked = False, is_original = False\<rparr>
            in (upd_path pid (\<lambda>s. count_in st (s\<lparr>cid_list := cid_list s @ [c]\<rparr>)) cs, cid, Inr ()))"

fun del_cid :: "xqc_cid \<Rightarrow> xqc_cid_inner list \<Rightarrow> (xqc_cid_inner \<times> xqc_cid_inner list) option" where
  "del_cid cid [] = None"
| "del_cid cid (c # cl) =
     (if xqc_cid_is_equal cid (ci_cid c) then Some (c, cl)
      else map_option (\<lambda>(d, cl'). (d, c # cl')) (del_cid cid cl))"

definition uncount_original :: "xqc_cid_set_inner \<Rightarrow> xqc_cid_set_inner" where
  "uncount_original s =
     (if original_cid_cnt s > 0 then s\<lparr>original_cid_cnt := original_cid_cnt s - 1\<rparr> else s)"

definition xqc_cid_set_delete_cid :: "xqc_cid_set \<Rightarrow> xqc_cid \<Rightarrow> u64 \<Rightarrow> xqc_cid_set \<times> unit res" where
  "xqc_cid_set_delete_cid cs cid pid =
     (case xqc_get_path_cid_set cs pid of
        None \<Rightarrow> (cs, Inl XQC_ERROR)
      | Some s \<Rightarrow>
          (case del_cid cid (cid_list s) of
             None \<Rightarrow> (cs, Inl XQC_ERROR)
           | Some (c, cl) \<Rightarrow>
               (upd_path pid (\<lambda>s. (let s = count_out c s;
                                      s = (if is_original c then uncount_original s else s)
                                  in s\<lparr>cid_list := cl\<rparr>)) cs, Inr ())))"

section \<open>Searching\<close>

definition cid_found :: "xqc_cid \<Rightarrow> xqc_cid_inner \<Rightarrow> xqc_cid" where
  "cid_found cid c = cid\<lparr>cid_seq_num := cid_seq_num (ci_cid c), cid_path_id := cid_path_id (ci_cid c)\<rparr>"

fun cid_pos :: "xqc_cid \<Rightarrow> xqc_cid_inner list \<Rightarrow> nat option" where
  "cid_pos cid [] = None"
| "cid_pos cid (c # cl) =
     (if xqc_cid_is_equal cid (ci_cid c) then Some 0 else map_option Suc (cid_pos cid cl))"

text \<open>The place of the identifier, and the argument with its sequence number and path filled in.\<close>

fun search_sets :: "xqc_cid \<Rightarrow> xqc_cid_set_inner list \<Rightarrow> ((u64 \<times> nat) \<times> xqc_cid) option" where
  "search_sets cid [] = None"
| "search_sets cid (s # ss) =
     (case cid_pos cid (cid_list s) of
        Some j \<Rightarrow> Some ((set_path_id s, j), cid_found cid (cid_list s ! j))
      | None \<Rightarrow> search_sets cid ss)"

definition xqc_cid_set_search_cid :: "xqc_cid_set \<Rightarrow> xqc_cid \<Rightarrow> ((u64 \<times> nat) \<times> xqc_cid) option" where
  "xqc_cid_set_search_cid cs cid = search_sets cid (xqc_cid_set_walk cs)"

definition xqc_cid_in_cid_set :: "xqc_cid_set \<Rightarrow> xqc_cid \<Rightarrow> u64 \<Rightarrow> ((u64 \<times> nat) \<times> xqc_cid) option" where
  "xqc_cid_in_cid_set cs cid pid =
     (case xqc_get_path_cid_set cs pid of
        None \<Rightarrow> None
      | Some s \<Rightarrow> search_sets cid [s])"

fun seq_pos :: "u64 \<Rightarrow> xqc_cid_inner list \<Rightarrow> nat option" where
  "seq_pos seq [] = None"
| "seq_pos seq (c # cl) =
     (if cid_seq_num (ci_cid c) = seq then Some 0 else map_option Suc (seq_pos seq cl))"

definition xqc_get_inner_cid_by_seq :: "xqc_cid_set \<Rightarrow> u64 \<Rightarrow> u64 \<Rightarrow> (u64 \<times> nat) option" where
  "xqc_get_inner_cid_by_seq cs seq pid =
     (case xqc_get_path_cid_set cs pid of
        None \<Rightarrow> None
      | Some s \<Rightarrow> map_option (Pair pid) (seq_pos seq (cid_list s)))"

text \<open>Reading and writing through a pointer to an \<open>xqc_cid_inner_t\<close>.\<close>

definition cid_at :: "xqc_cid_set \<Rightarrow> u64 \<times> nat \<Rightarrow> xqc_cid_inner option" where
  "cid_at cs p =
     (case xqc_get_path_cid_set cs (fst p) of
        None \<Rightarrow> None
      | Some s \<Rightarrow> if snd p < length (cid_list s) then Some (cid_list s ! snd p) else None)"

definition cid_put :: "u64 \<times> nat \<Rightarrow> xqc_cid_inner \<Rightarrow> xqc_cid_set \<Rightarrow> xqc_cid_set" where
  "cid_put p c = upd_path (fst p) (\<lambda>s. s\<lparr>cid_list := (cid_list s)[snd p := c]\<rparr>)"

section \<open>State changes\<close>

text \<open>\<open>p\<close> points to \<open>c\<close>. The pointer argument of the source is in the set of \<open>pid\<close> at every call.\<close>

definition xqc_cid_switch_to_next_state ::
    "xqc_cid_set \<Rightarrow> u64 \<times> nat \<Rightarrow> xqc_cid_inner \<Rightarrow> xqc_cid_state \<Rightarrow> u64 \<Rightarrow> xqc_cid_set \<times> unit res" where
  "xqc_cid_switch_to_next_state cs p c next_state pid =
     (case xqc_cid_in_cid_set cs (ci_cid c) pid of
        None \<Rightarrow> (cs, Inl XQC_ECONN_CID_NOT_FOUND)
      | Some (_, cid) \<Rightarrow>
          let c = c\<lparr>ci_cid := cid\<rparr>; cs = cid_put p c cs in
          if ci_state c = next_state then (cs, Inr ())
          else if cid_state_num (ci_state c) > cid_state_num next_state then (cs, Inl XQC_ECID_STATE)
          else
            let leaves = is_original c \<and> ci_state c \<in> {XQC_CID_UNUSED, XQC_CID_USED}
                  \<and> next_state \<notin> {XQC_CID_UNUSED, XQC_CID_USED};
                cs = upd_path pid (\<lambda>s. (let s = count_out c s;
                                           s = (if leaves then uncount_original s else s)
                                       in if next_state \<in> {XQC_CID_USED, XQC_CID_RETIRED}
                                          then count_in next_state s else s)) cs;
                c = (if leaves then c\<lparr>is_original := False\<rparr> else c)
            in (cid_put p (c\<lparr>ci_state := next_state\<rparr>) cs, Inr ()))"

fun unused_pos :: "xqc_cid_inner list \<Rightarrow> nat option" where
  "unused_pos [] = None"
| "unused_pos (c # cl) = (if ci_state c = XQC_CID_UNUSED then Some 0 else map_option Suc (unused_pos cl))"

definition xqc_get_unused_cid :: "xqc_cid_set \<Rightarrow> xqc_cid \<Rightarrow> u64 \<Rightarrow> xqc_cid_set \<times> xqc_cid \<times> unit res" where
  "xqc_get_unused_cid cs cid pid =
     (case xqc_get_path_cid_set cs pid of
        None \<Rightarrow> (cs, cid, Inl XQC_ECONN_NO_AVAIL_CID)
      | Some s \<Rightarrow>
          if unused_cnt s = 0 then (cs, cid, Inl XQC_ECONN_NO_AVAIL_CID)
          else case unused_pos (cid_list s) of
            None \<Rightarrow> (cs, cid, Inl XQC_ECONN_NO_AVAIL_CID)
          | Some j \<Rightarrow>
              let (cs', ret) = xqc_cid_switch_to_next_state cs (pid, j) (cid_list s ! j) XQC_CID_USED pid
              in (cs', xqc_cid_copy cid (ci_cid (cid_list s ! j)), ret))"

definition xqc_cid_set_add_path :: "bool \<Rightarrow> xqc_cid_set \<Rightarrow> u64 \<Rightarrow> xqc_cid_set \<times> unit res" where
  "xqc_cid_set_add_path malloc_ok cs pid =
     (case xqc_get_path_cid_set cs pid of
        Some _ \<Rightarrow> (cs, Inr ())
      | None \<Rightarrow>
          if \<not> malloc_ok then (cs, Inl XQC_EMALLOC)
          else (cs\<lparr>cid_set_list := cid_set_list cs @ [xqc_cid_set_inner_init\<lparr>set_path_id := pid\<rparr>],
                   set_cnt := (set_cnt cs)(XQC_CID_SET_UNUSED := set_cnt cs XQC_CID_SET_UNUSED + 1)\<rparr>, Inr ()))"

text \<open>\<open>xqc_list_del_init\<close> of the set with this path.\<close>

fun del_first :: "('a \<Rightarrow> bool) \<Rightarrow> 'a list \<Rightarrow> 'a list" where
  "del_first P [] = []"
| "del_first P (x # xs) = (if P x then xs else x # del_first P xs)"

definition xqc_cid_set_update_state :: "xqc_cid_set \<Rightarrow> u64 \<Rightarrow> xqc_cid_set_state \<Rightarrow> xqc_cid_set" where
  "xqc_cid_set_update_state cs pid st =
     (case xqc_get_path_cid_set cs pid of
        None \<Rightarrow> cs
      | Some s \<Rightarrow>
          if set_state s = st then cs
          else
            let cnt = (set_cnt cs)(set_state s := set_cnt cs (set_state s) - 1);
                cs = cs\<lparr>set_cnt := cnt(st := cnt st + 1)\<rparr>;
                s' = s\<lparr>set_state := st\<rparr>; P = (\<lambda>s. set_path_id s = pid)
            in if st = XQC_CID_SET_ABANDONED
               then cs\<lparr>cid_set_list := del_first P (cid_set_list cs),
                       abandoned_set_list := abandoned_set_list cs @ [s']\<rparr>
               else if set_state s = XQC_CID_SET_ABANDONED
               then cs\<lparr>abandoned_set_list := del_first P (abandoned_set_list cs),
                       cid_set_list := cid_set_list cs @ [s']\<rparr>
               else upd_path pid (\<lambda>s. s\<lparr>set_state := st\<rparr>) cs)"

fun ack_cids :: "u64 \<Rightarrow> xqc_cid_inner list \<Rightarrow> u32 \<Rightarrow> xqc_cid_inner list \<times> u32" where
  "ack_cids seq [] n = ([], n)"
| "ack_cids seq (c # cl) n =
     (if cid_seq_num (ci_cid c) = seq
      then let n' = (if \<not> acked c \<and> ci_state c = XQC_CID_UNUSED then n + 1 else n);
               (cl', m) = ack_cids seq cl n'
           in (c\<lparr>acked := True\<rparr> # cl', m)
      else let (cl', m) = ack_cids seq cl n in (c # cl', m))"

definition xqc_cid_set_on_cid_acked :: "xqc_cid_set \<Rightarrow> u64 \<Rightarrow> u64 \<Rightarrow> xqc_cid_set" where
  "xqc_cid_set_on_cid_acked cs pid seq =
     (case xqc_get_path_cid_set cs pid of
        None \<Rightarrow> cs
      | Some s \<Rightarrow>
          let (cl, n) = ack_cids seq (cid_list s) (acked_unused s)
          in upd_path pid (\<lambda>s. s\<lparr>cid_list := cl, acked_unused := n\<rparr>) cs)"

definition xqc_cid_set_mark_original :: "xqc_cid_set \<Rightarrow> xqc_cid \<Rightarrow> u64 \<Rightarrow> xqc_cid_set" where
  "xqc_cid_set_mark_original cs cid pid =
     (case xqc_cid_in_cid_set cs cid pid of
        None \<Rightarrow> cs
      | Some (p, _) \<Rightarrow>
          (case cid_at cs p of
             None \<Rightarrow> cs
           | Some c \<Rightarrow>
               if is_original c then cs
               else upd_path pid (\<lambda>s. s\<lparr>original_cid_cnt := original_cid_cnt s + 1\<rparr>)
                      (cid_put p (c\<lparr>is_original := True\<rparr>) cs)))"

text \<open>\<open>xqc_conn_check_dcid\<close> of xqc_conn.c, on the set \<open>conn->scid_set\<close>.\<close>

definition xqc_conn_check_dcid :: "xqc_cid_set \<Rightarrow> xqc_cid \<Rightarrow> xqc_cid_set \<times> xqc_cid \<times> unit res" where
  "xqc_conn_check_dcid cs dcid =
     (case xqc_cid_set_search_cid cs dcid of
        None \<Rightarrow> (cs, dcid, Inl XQC_ECONN_CID_NOT_FOUND)
      | Some (p, dcid) \<Rightarrow>
          (case cid_at cs p of
             None \<Rightarrow> (cs, dcid, Inl XQC_ECONN_CID_NOT_FOUND)
           | Some c \<Rightarrow>
               if ci_state c = XQC_CID_UNUSED
               then let (cs, ret) = xqc_cid_switch_to_next_state cs p c XQC_CID_USED (cid_path_id (ci_cid c))
                    in (cs, dcid, ret)
               else (cs, dcid, Inr ())))"

section \<open>Invariant\<close>

definition active :: "xqc_cid_inner \<Rightarrow> bool" where
  "active c \<longleftrightarrow> ci_state c = XQC_CID_UNUSED \<or> ci_state c = XQC_CID_USED"

definition cid_cnt :: "(xqc_cid_inner \<Rightarrow> bool) \<Rightarrow> xqc_cid_inner list \<Rightarrow> nat" where
  "cid_cnt P cl = length (filter P cl)"

text \<open>The counters of a path say how many identifiers are in which state; there are at most \<open>n\<close> of them.\<close>

definition inner_ok :: "nat \<Rightarrow> xqc_cid_set_inner \<Rightarrow> bool" where
  "inner_ok n s \<longleftrightarrow> length (cid_list s) \<le> n
     \<and> unused_cnt s = of_nat (cid_cnt (\<lambda>c. ci_state c = XQC_CID_UNUSED) (cid_list s))
     \<and> used_cnt s = of_nat (cid_cnt (\<lambda>c. ci_state c = XQC_CID_USED) (cid_list s))
     \<and> retired_cnt s = of_nat (cid_cnt (\<lambda>c. ci_state c = XQC_CID_RETIRED) (cid_list s))
     \<and> original_cid_cnt s = of_nat (cid_cnt is_original (cid_list s))
     \<and> acked_unused s = of_nat (cid_cnt (\<lambda>c. acked c \<and> ci_state c = XQC_CID_UNUSED) (cid_list s))
     \<and> (\<forall>c \<in> set (cid_list s). (is_original c \<longrightarrow> active c) \<and> cid_path_id (ci_cid c) = set_path_id s)"

definition cid_set_ok :: "nat \<Rightarrow> xqc_cid_set \<Rightarrow> bool" where
  "cid_set_ok n cs \<longleftrightarrow> (\<forall>s \<in> set (xqc_cid_set_walk cs). inner_ok n s)
     \<and> distinct (map set_path_id (xqc_cid_set_walk cs))
     \<and> (\<forall>s \<in> set (cid_set_list cs). set_state s \<noteq> XQC_CID_SET_ABANDONED)
     \<and> (\<forall>s \<in> set (abandoned_set_list cs). set_state s = XQC_CID_SET_ABANDONED)
     \<and> (\<forall>st. set_cnt cs st = of_nat (length (filter (\<lambda>s. set_state s = st) (xqc_cid_set_walk cs))))"

subsection \<open>Writing to the set of a path\<close>

lemma upd_first_map:
  assumes "distinct (map g xs)" and "x \<in> set xs" and "g x = k"
  shows "upd_first (\<lambda>y. g y = k) f xs = map (\<lambda>y. if g y = k then f y else y) xs"
  using assms
proof (induction xs)
  case (Cons a xs)
  show ?case
  proof (cases "g a = k")
    case True
    with Cons.prems(1) have "\<forall>y \<in> set xs. g y \<noteq> k" by auto (metis imageI)
    then have "map (\<lambda>y. if g y = k then f y else y) xs = xs" by (simp add: map_idI)
    with True show ?thesis by simp
  next
    case False
    with Cons show ?thesis by auto
  qed
qed simp

lemma upd_first_absent: "\<forall>y \<in> set xs. g y \<noteq> k \<Longrightarrow> map (\<lambda>y. if g y = k then f y else y) xs = xs"
  by (simp add: map_idI)

lemma find_key:
  "distinct (map g xs) \<Longrightarrow> find (\<lambda>y. g y = k) xs = Some x \<longleftrightarrow> x \<in> set xs \<and> g x = k"
  by (induction xs) auto

lemma get_path_iff:
  "cid_set_ok n cs \<Longrightarrow> xqc_get_path_cid_set cs pid = Some s \<longleftrightarrow> s \<in> set (xqc_cid_set_walk cs) \<and> set_path_id s = pid"
  by (simp add: xqc_get_path_cid_set_def cid_set_ok_def find_key)

lemma get_path_ok:
  "cid_set_ok n cs \<Longrightarrow> xqc_get_path_cid_set cs pid = Some s \<Longrightarrow> inner_ok n s \<and> set_path_id s = pid"
  by (auto simp: get_path_iff) (auto simp: cid_set_ok_def)

lemma upd_path_walk:
  assumes "cid_set_ok n cs" and "xqc_get_path_cid_set cs pid = Some s"
  shows "cid_set_list (upd_path pid f cs) = map (\<lambda>s. if set_path_id s = pid then f s else s) (cid_set_list cs)"
    and "abandoned_set_list (upd_path pid f cs) = map (\<lambda>s. if set_path_id s = pid then f s else s) (abandoned_set_list cs)"
    and "set_cnt (upd_path pid f cs) = set_cnt cs"
proof -
  have s: "s \<in> set (cid_set_list cs) \<or> s \<in> set (abandoned_set_list cs)" "set_path_id s = pid"
    using assms by (auto simp: get_path_iff xqc_cid_set_walk_def)
  have d: "distinct (map set_path_id (cid_set_list cs))" "distinct (map set_path_id (abandoned_set_list cs))"
    "set_path_id ` set (cid_set_list cs) \<inter> set_path_id ` set (abandoned_set_list cs) = {}"
    using assms(1) by (auto simp: cid_set_ok_def xqc_cid_set_walk_def)
  show "set_cnt (upd_path pid f cs) = set_cnt cs" by (simp add: upd_path_def)
  show "cid_set_list (upd_path pid f cs) = map (\<lambda>s. if set_path_id s = pid then f s else s) (cid_set_list cs)"
    using upd_first_map [OF d(1), of _ pid f] upd_first_absent [of "cid_set_list cs" set_path_id pid f]
    by (auto simp: upd_path_def)
  show "abandoned_set_list (upd_path pid f cs) = map (\<lambda>s. if set_path_id s = pid then f s else s) (abandoned_set_list cs)"
  proof (cases "\<exists>s \<in> set (cid_set_list cs). set_path_id s = pid")
    case True
    with d(3) have "\<forall>y \<in> set (abandoned_set_list cs). set_path_id y \<noteq> pid" by blast
    with True show ?thesis by (simp add: upd_path_def upd_first_absent)
  next
    case False
    with s have "s \<in> set (abandoned_set_list cs)" by blast
    with upd_first_map [OF d(2) this s(2), of f] False show ?thesis by (simp add: upd_path_def)
  qed
qed

text \<open>Replacing the set of a path by one that is as good keeps the invariant, and changes the set of no other path.\<close>

lemma path_unique:
  "cid_set_ok n cs \<Longrightarrow> xqc_get_path_cid_set cs pid = Some s \<Longrightarrow> x \<in> set (xqc_cid_set_walk cs) \<Longrightarrow> set_path_id x = pid \<Longrightarrow> x = s"
  using get_path_iff by (metis option.inject)

lemma upd_path_facts:
  assumes ok: "cid_set_ok n cs" and s: "xqc_get_path_cid_set cs pid = Some s"
    and f: "set_path_id (f s) = pid" "set_state (f s) = set_state s"
  defines "h \<equiv> \<lambda>s. if set_path_id s = pid then f s else s"
  shows "xqc_cid_set_walk (upd_path pid f cs) = map h (xqc_cid_set_walk cs)"
    and "cid_set_list (upd_path pid f cs) = map h (cid_set_list cs)"
    and "abandoned_set_list (upd_path pid f cs) = map h (abandoned_set_list cs)"
    and "x \<in> set (xqc_cid_set_walk cs) \<Longrightarrow> set_path_id (h x) = set_path_id x \<and> set_state (h x) = set_state x"
    and "filter (\<lambda>x. set_state (h x) = st) (xqc_cid_set_walk cs) = filter (\<lambda>x. set_state x = st) (xqc_cid_set_walk cs)"
proof -
  show w: "cid_set_list (upd_path pid f cs) = map h (cid_set_list cs)"
    "abandoned_set_list (upd_path pid f cs) = map h (abandoned_set_list cs)"
    using upd_path_walk [OF ok s] by (simp_all add: h_def)
  then show "xqc_cid_set_walk (upd_path pid f cs) = map h (xqc_cid_set_walk cs)" by (simp add: xqc_cid_set_walk_def)
  show h: "x \<in> set (xqc_cid_set_walk cs) \<Longrightarrow> set_path_id (h x) = set_path_id x \<and> set_state (h x) = set_state x" for x
    using path_unique [OF ok s, of x] f by (auto simp: h_def)
  show "filter (\<lambda>x. set_state (h x) = st) (xqc_cid_set_walk cs) = filter (\<lambda>x. set_state x = st) (xqc_cid_set_walk cs)"
    using h by (intro filter_cong) simp_all
qed

lemma upd_path_ok:
  assumes ok: "cid_set_ok n cs" and s: "xqc_get_path_cid_set cs pid = Some s" and "n \<le> m"
    and f: "inner_ok m (f s)" "set_path_id (f s) = pid" "set_state (f s) = set_state s"
  shows "cid_set_ok m (upd_path pid f cs)"
  unfolding cid_set_ok_def
proof (intro conjI ballI allI)
  note w = upd_path_facts [where f = f, OF ok s f(2,3)]
  have walk: "x \<in> set (xqc_cid_set_walk cs)" if "x \<in> set (cid_set_list cs) \<or> x \<in> set (abandoned_set_list cs)" for x
    using that by (auto simp: xqc_cid_set_walk_def)
  show "inner_ok m x" if "x \<in> set (xqc_cid_set_walk (upd_path pid f cs))" for x
  proof -
    from that obtain y where y: "y \<in> set (xqc_cid_set_walk cs)" "x = (if set_path_id y = pid then f y else y)"
      unfolding w(1) by auto
    then have "inner_ok m y" using ok assms(3) by (auto simp: cid_set_ok_def inner_ok_def)
    with y path_unique [OF ok s y(1)] f(1) show ?thesis by (cases "set_path_id y = pid") auto
  qed
  have "map set_path_id (xqc_cid_set_walk (upd_path pid f cs)) = map set_path_id (xqc_cid_set_walk cs)"
    unfolding w(1) using w(4) by simp
  then show "distinct (map set_path_id (xqc_cid_set_walk (upd_path pid f cs)))"
    using ok by (simp add: cid_set_ok_def)
  show "set_state x \<noteq> XQC_CID_SET_ABANDONED" if x: "x \<in> set (cid_set_list (upd_path pid f cs))" for x
  proof -
    from x obtain y where "y \<in> set (cid_set_list cs)" "x = (if set_path_id y = pid then f y else y)" unfolding w(2) by auto
    with w(4) [of y] walk [of y] ok show ?thesis by (simp add: cid_set_ok_def)
  qed
  show "set_state x = XQC_CID_SET_ABANDONED" if x: "x \<in> set (abandoned_set_list (upd_path pid f cs))" for x
  proof -
    from x obtain y where "y \<in> set (abandoned_set_list cs)" "x = (if set_path_id y = pid then f y else y)" unfolding w(3) by auto
    with w(4) [of y] walk [of y] ok show ?thesis by (simp add: cid_set_ok_def)
  qed
  show "set_cnt (upd_path pid f cs) st = of_nat (length (filter (\<lambda>s. set_state s = st) (xqc_cid_set_walk (upd_path pid f cs))))" for st
    unfolding upd_path_walk(3) [OF ok s] w(1) filter_map length_map comp_def w(5) using ok by (simp add: cid_set_ok_def)
qed

lemma upd_path_get:
  assumes ok: "cid_set_ok n cs" and s: "xqc_get_path_cid_set cs pid = Some s" and "n \<le> m"
    and f: "inner_ok m (f s)" "set_path_id (f s) = pid" "set_state (f s) = set_state s"
  shows "xqc_get_path_cid_set (upd_path pid f cs) q = (if q = pid then Some (f s) else xqc_get_path_cid_set cs q)"
proof -
  note w = upd_path_facts [where f = f, OF ok s f(2,3)] and new = upd_path_ok [where f = f, OF assms]
  have sin: "s \<in> set (xqc_cid_set_walk cs)" "set_path_id s = pid" using ok s by (auto simp: get_path_iff)
  show ?thesis
  proof (cases "q = pid")
    case True
    have "f s \<in> set (xqc_cid_set_walk (upd_path pid f cs))" unfolding w(1) using sin by (auto intro!: image_eqI [of _ _ s])
    with True f(2) show ?thesis using get_path_iff [OF new, of pid] by simp
  next
    case False
    have "xqc_get_path_cid_set (upd_path pid f cs) q = Some x \<longleftrightarrow> xqc_get_path_cid_set cs q = Some x" for x
      unfolding get_path_iff [OF new] get_path_iff [OF ok] w(1) using False path_unique [OF ok s] f(2) by auto
    with False show ?thesis by (metis not_Some_eq)
  qed
qed

lemma upd_path_twice:
  assumes "\<And>s. set_path_id (g s) = set_path_id s"
  shows "upd_path pid f (upd_path pid g cs) = upd_path pid (\<lambda>s. f (g s)) cs"
proof -
  have "upd_first (\<lambda>s. set_path_id s = pid) f (upd_first (\<lambda>s. set_path_id s = pid) g xs)
      = upd_first (\<lambda>s. set_path_id s = pid) (\<lambda>s. f (g s)) xs" for xs
    by (induction xs) (auto simp: assms)
  moreover have "(\<exists>s \<in> set (upd_first (\<lambda>s. set_path_id s = pid) g xs). set_path_id s = pid) \<longleftrightarrow> (\<exists>s \<in> set xs. set_path_id s = pid)" for xs
    by (induction xs) (auto simp: assms)
  ultimately show ?thesis by (simp add: upd_path_def)
qed

subsection \<open>Counting\<close>

lemma cid_cnt_simps [simp]:
  "cid_cnt P [] = 0" "cid_cnt P (c # cl) = (if P c then 1 else 0) + cid_cnt P cl"
  "cid_cnt P (xs @ ys) = cid_cnt P xs + cid_cnt P ys"
  by (simp_all add: cid_cnt_def)

lemma cid_cnt_update:
  "j < length cl \<Longrightarrow> cid_cnt P (cl[j := c]) + (if P (cl ! j) then 1 else 0) = cid_cnt P cl + (if P c then 1 else 0)"
proof (induction cl arbitrary: j)
  case (Cons a cl)
  then show ?case by (cases j) auto
qed simp

lemma cid_cnt_le: "cid_cnt P cl \<le> length cl"
  by (simp add: cid_cnt_def)

lemma cid_cnt_member: "c \<in> set cl \<Longrightarrow> P c \<Longrightarrow> 0 < cid_cnt P cl"
  by (induction cl) auto

lemma cid_cnt_split: "cid_cnt (\<lambda>c. P c \<or> Q c) cl \<le> cid_cnt P cl + cid_cnt Q cl"
  by (induction cl) auto

text \<open>Exchanging an identifier against another changes a counter by the difference.\<close>

lemma cnt_word_update:
  assumes "j < length cl"
  shows "(of_nat (cid_cnt P (cl[j := c])) :: 'a::len word)
    = of_nat (cid_cnt P cl) - (if P (cl ! j) then 1 else 0) + (if P c then 1 else 0)"
proof -
  have "(of_nat (cid_cnt P (cl[j := c]) + (if P (cl ! j) then 1 else 0)) :: 'a word) = of_nat (cid_cnt P cl + (if P c then 1 else 0))"
    by (simp only: cid_cnt_update [OF assms])
  then show ?thesis by (auto simp: algebra_simps split: if_splits)
qed

lemma cnt_word_delete:
  assumes "del_cid cid cl = Some (c, cl')"
  shows "(of_nat (cid_cnt P cl') :: 'a::len word) = of_nat (cid_cnt P cl) - (if P c then 1 else 0)"
    and "length cl' \<le> length cl" and "set cl' \<subseteq> set cl" and "c \<in> set cl" and "xqc_cid_is_equal cid (ci_cid c)"
proof -
  have "cid_cnt P cl = cid_cnt P cl' + (if P c then 1 else 0) \<and> length cl' \<le> length cl \<and> set cl' \<subseteq> set cl \<and> c \<in> set cl
    \<and> xqc_cid_is_equal cid (ci_cid c)"
    using assms by (induction cl arbitrary: cl') (auto split: if_splits)
  then show "(of_nat (cid_cnt P cl') :: 'a::len word) = of_nat (cid_cnt P cl) - (if P c then 1 else 0)"
    "length cl' \<le> length cl" "set cl' \<subseteq> set cl" "c \<in> set cl" "xqc_cid_is_equal cid (ci_cid c)" by auto
qed

lemma original_pos:
  assumes "inner_ok n s" and "n < 2 ^ 32" and "c \<in> set (cid_list s)" and "is_original c"
  shows "0 < original_cid_cnt s"
proof -
  have "cid_cnt is_original (cid_list s) < 2 ^ 64"
    using cid_cnt_le [of is_original "cid_list s"] assms(1,2) by (simp add: inner_ok_def)
  moreover have "0 < cid_cnt is_original (cid_list s)" using cid_cnt_member assms(3,4) by blast
  ultimately have "(0 :: u64) < of_nat (cid_cnt is_original (cid_list s))"
    by (simp add: word_less_nat_alt unsigned_of_nat take_bit_nat_eq_self)
  with assms(1) show ?thesis by (simp add: inner_ok_def)
qed

subsection \<open>The operations on one path\<close>

lemma inner_insert_ok:
  assumes "inner_ok n s" and "\<not> is_original c" and "\<not> acked c" and "cid_path_id (ci_cid c) = set_path_id s" and "ci_state c = st"
  shows "inner_ok (Suc n) (count_in st (s\<lparr>cid_list := cid_list s @ [c]\<rparr>))"
  using assms by (cases st) (auto simp: inner_ok_def count_in_def)

lemma count_out_simps [simp]:
  "set_path_id (count_out c s) = set_path_id s" "set_state (count_out c s) = set_state s"
  "cid_list (count_out c s) = cid_list s" "original_cid_cnt (count_out c s) = original_cid_cnt s"
  "set_path_id (count_in st s) = set_path_id s" "set_state (count_in st s) = set_state s"
  "cid_list (count_in st s) = cid_list s" "original_cid_cnt (count_in st s) = original_cid_cnt s"
  "set_path_id (uncount_original s) = set_path_id s" "set_state (uncount_original s) = set_state s"
  "cid_list (uncount_original s) = cid_list s"
  by (simp_all add: count_out_def count_in_def uncount_original_def Let_def split: xqc_cid_state.splits)

lemma inner_delete_ok:
  assumes ok: "inner_ok n s" and "n < 2 ^ 32" and d: "del_cid cid (cid_list s) = Some (c, cl)"
  shows "inner_ok n ((let s = count_out c s; s = (if is_original c then uncount_original s else s)
    in s\<lparr>cid_list := cl\<rparr>))"
proof -
  note w = cnt_word_delete [OF d]
  have pos: "is_original c \<Longrightarrow> 0 < original_cid_cnt s" using original_pos [OF ok assms(2) w(4)] .
  have "ci_state c = XQC_CID_UNUSED \<or> ci_state c = XQC_CID_USED \<or> ci_state c = XQC_CID_RETIRED \<or> ci_state c = XQC_CID_REMOVED"
    by (cases "ci_state c") auto
  then show ?thesis using ok pos w(2,3)
    by (auto simp: inner_ok_def count_out_def uncount_original_def Let_def w(1) split: xqc_cid_state.splits)
qed

text \<open>The effect of \<open>xqc_cid_switch_to_next_state\<close> on the set of the path, for the identifier at place \<open>j\<close>.\<close>

definition inner_switch :: "nat \<Rightarrow> xqc_cid_inner \<Rightarrow> xqc_cid_state \<Rightarrow> xqc_cid_set_inner \<Rightarrow> xqc_cid_set_inner" where
  "inner_switch j c st s =
     (let leaves = is_original c \<and> ci_state c \<in> {XQC_CID_UNUSED, XQC_CID_USED} \<and> st \<notin> {XQC_CID_UNUSED, XQC_CID_USED};
          s = count_out c s;
          s = (if leaves then uncount_original s else s);
          s = (if st \<in> {XQC_CID_USED, XQC_CID_RETIRED} then count_in st s else s);
          c = (if leaves then c\<lparr>is_original := False\<rparr> else c)
      in s\<lparr>cid_list := (cid_list s)[j := c\<lparr>ci_state := st\<rparr>]\<rparr>)"

lemma inner_switch_ok:
  assumes ok: "inner_ok n s" and "n < 2 ^ 32" and j: "j < length (cid_list s)" and c: "cid_list s ! j = c"
    and st: "cid_state_num (ci_state c) < cid_state_num st"
  shows "inner_ok n (inner_switch j c st s)"
proof -
  have cin: "c \<in> set (cid_list s)" using j c by (metis nth_mem)
  have pos: "is_original c \<Longrightarrow> 0 < original_cid_cnt s" using original_pos [OF ok assms(2) cin] .
  have act: "is_original c \<Longrightarrow> active c" and pid: "cid_path_id (ci_cid c) = set_path_id s"
    using ok cin by (auto simp: inner_ok_def)
  have sub: "set ((cid_list s)[j := d]) \<subseteq> insert d (set (cid_list s))" for d by (rule set_update_subset_insert)
  show ?thesis
    unfolding inner_ok_def
  proof (intro conjI ballI)
    show "length (cid_list (inner_switch j c st s)) \<le> n" using ok by (simp add: inner_ok_def inner_switch_def Let_def)
  next
    fix d assume "d \<in> set (cid_list (inner_switch j c st s))"
    with sub have "d \<in> set (cid_list s) \<or> d = (if is_original c \<and> ci_state c \<in> {XQC_CID_UNUSED, XQC_CID_USED}
        \<and> st \<notin> {XQC_CID_UNUSED, XQC_CID_USED} then c\<lparr>is_original := False\<rparr> else c)\<lparr>ci_state := st\<rparr>"
      by (auto simp: inner_switch_def Let_def split: if_splits)
    then show "is_original d \<longrightarrow> active d" "cid_path_id (ci_cid d) = set_path_id (inner_switch j c st s)"
      using ok act pid by (auto simp: inner_ok_def inner_switch_def Let_def active_def split: if_splits)
  qed (use ok pos act st c in \<open>cases st; cases "ci_state c";
      auto simp: inner_ok_def inner_switch_def Let_def cnt_word_update [OF j] count_out_def count_in_def uncount_original_def active_def\<close>)+
qed

subsection \<open>The operations on a set\<close>

definition new_inner :: "xqc_cid \<Rightarrow> xqc_cid_state \<Rightarrow> u64 \<Rightarrow> xqc_cid_inner" where
  "new_inner cid st pid = \<lparr>ci_cid = xqc_cid_copy xqc_cid_init_zero (cid\<lparr>cid_path_id := pid\<rparr>), ci_state = st,
     retired_ts = XQC_MAX_UINT64_VALUE, acked = False, is_original = False\<rparr>"

lemma new_inner_simps [simp]:
  "ci_state (new_inner cid st pid) = st" "\<not> is_original (new_inner cid st pid)" "\<not> acked (new_inner cid st pid)"
  "cid_path_id (ci_cid (new_inner cid st pid)) = pid"
  by (simp_all add: new_inner_def xqc_cid_copy_def)

lemma insert_cid_Inr:
  assumes "xqc_cid_set_insert_cid m cs cid st limit pid = (cs', cid', Inr ())"
  obtains s where "xqc_get_path_cid_set cs pid = Some s" and "xqc_cid_set_countable_cnt s < limit"
    and "cs' = upd_path pid (\<lambda>s. count_in st (s\<lparr>cid_list := cid_list s @ [new_inner cid st pid]\<rparr>)) cs"
  using assms by (auto simp: xqc_cid_set_insert_cid_def Let_def new_inner_def not_le split: option.splits if_splits)

lemma insert_cid_Inl:
  "xqc_cid_set_insert_cid m cs cid st limit pid = (cs', cid', Inl e) \<Longrightarrow> cs' = cs"
  by (auto simp: xqc_cid_set_insert_cid_def Let_def split: option.splits if_splits)

lemma insert_cid_ok:
  assumes ok: "cid_set_ok n cs" and ins: "xqc_cid_set_insert_cid m cs cid st limit pid = (cs', cid', Inr ())"
    and s: "xqc_get_path_cid_set cs pid = Some s"
  shows "cid_set_ok (Suc n) cs'"
    and "xqc_get_path_cid_set cs' pid = Some (count_in st (s\<lparr>cid_list := cid_list s @ [new_inner cid st pid]\<rparr>))"
proof -
  let ?f = "\<lambda>s. count_in st (s\<lparr>cid_list := cid_list s @ [new_inner cid st pid]\<rparr>)"
  have cs': "cs' = upd_path pid ?f cs" using insert_cid_Inr [OF ins] by metis
  have s2: "inner_ok n s" "set_path_id s = pid" using get_path_ok [OF ok s] by auto
  have f: "inner_ok (Suc n) (?f s)" using s2 by (intro inner_insert_ok) simp_all
  show "cid_set_ok (Suc n) cs'" unfolding cs'
    by (rule upd_path_ok [where n = n and s = s]) (use ok s f s2 in simp_all)
  show "xqc_get_path_cid_set cs' pid = Some (?f s)"
    unfolding cs' by (subst upd_path_get [where n = n and s = s and m = "Suc n"]) (use ok s f s2 in simp_all)
qed

lemma cid_set_ok_mono: "cid_set_ok n cs \<Longrightarrow> n \<le> m \<Longrightarrow> cid_set_ok m cs"
  unfolding cid_set_ok_def inner_ok_def by (meson order_trans)

lemma insert_cid_keeps:
  "cid_set_ok n cs \<Longrightarrow> cid_set_ok (Suc n) (fst (xqc_cid_set_insert_cid m cs cid st limit pid))"
proof (cases "xqc_cid_set_insert_cid m cs cid st limit pid")
  case (fields cs' cid' ret)
  assume ok: "cid_set_ok n cs"
  show ?thesis
  proof (cases ret)
    case (Inr u)
    with fields have ins: "xqc_cid_set_insert_cid m cs cid st limit pid = (cs', cid', Inr ())" by simp
    with insert_cid_Inr [OF ins] insert_cid_ok(1) [OF ok ins] fields show ?thesis by auto
  next
    case (Inl e)
    with fields insert_cid_Inl have "cs' = cs" by blast
    with fields cid_set_ok_mono [OF ok, of "Suc n"] show ?thesis by simp
  qed
qed

lemma delete_cid_ok:
  assumes ok: "cid_set_ok n cs" and "n < 2 ^ 32" and "xqc_cid_set_delete_cid cs cid pid = (cs', ret)"
  shows "cid_set_ok n cs'"
proof (cases "ret = Inr ()")
  case True
  with assms(3) obtain s c cl where s: "xqc_get_path_cid_set cs pid = Some s" and d: "del_cid cid (cid_list s) = Some (c, cl)"
    and cs': "cs' = upd_path pid (\<lambda>s. (let s = count_out c s; s = (if is_original c then uncount_original s else s)
      in s\<lparr>cid_list := cl\<rparr>)) cs"
    by (auto simp: xqc_cid_set_delete_cid_def split: option.splits)
  have s2: "inner_ok n s" "set_path_id s = pid" using get_path_ok [OF ok s] by auto
  show ?thesis unfolding cs'
    by (rule upd_path_ok [where n = n and s = s])
      (use ok s inner_delete_ok [OF s2(1) assms(2) d] s2 in \<open>simp_all add: Let_def\<close>)
next
  case False
  with assms(3) ok show ?thesis by (auto simp: xqc_cid_set_delete_cid_def split: option.splits)
qed

lemma cid_at_Some:
  "cid_at cs (pid, j) = Some c \<longleftrightarrow> (\<exists>s. xqc_get_path_cid_set cs pid = Some s \<and> j < length (cid_list s) \<and> cid_list s ! j = c)"
  by (auto simp: cid_at_def split: option.splits if_splits)

lemma cid_pos_Some: "cid_pos cid cl = Some j \<Longrightarrow> j < length cl \<and> xqc_cid_is_equal cid (ci_cid (cl ! j))"
  by (induction cl arbitrary: j) (auto split: if_splits)

lemma cid_pos_None: "cid_pos cid cl = None \<longleftrightarrow> (\<forall>c \<in> set cl. \<not> xqc_cid_is_equal cid (ci_cid c))"
  by (induction cl) auto

lemma cid_is_equal_refl [simp]: "xqc_cid_is_equal c c"
  by (simp add: xqc_cid_is_equal_def)

lemma inner_reset_ok:
  assumes ok: "inner_ok n s" and j: "j < length (cid_list s)" and c: "cid_list s ! j = c" and "cid_path_id cid = set_path_id s"
  shows "inner_ok n (s\<lparr>cid_list := (cid_list s)[j := c\<lparr>ci_cid := cid\<rparr>]\<rparr>)"
proof -
  have cin: "c \<in> set (cid_list s)" using j c by (metis nth_mem)
  have "d \<in> set (cid_list s) \<or> d = c\<lparr>ci_cid := cid\<rparr>" if "d \<in> set ((cid_list s)[j := c\<lparr>ci_cid := cid\<rparr>])" for d
    using that set_update_subset_insert [of "cid_list s" j "c\<lparr>ci_cid := cid\<rparr>"] by blast
  with ok cin assms(4) c show ?thesis
    by (fastforce simp: inner_ok_def cnt_word_update [OF j] active_def)
qed

text \<open>\<open>xqc_cid_switch_to_next_state\<close> on an identifier of the path: it first copies sequence number and path from the first identifier
  that is equal, then moves the state forward.\<close>

lemma switch_eq:
  assumes ok: "cid_set_ok n cs" and c: "cid_at cs (pid, j) = Some c"
  obtains s cid where "xqc_get_path_cid_set cs pid = Some s" and "j < length (cid_list s)" and "cid_list s ! j = c"
    and "xqc_cid_is_equal cid (ci_cid c)" and "cid_path_id cid = pid"
    and "xqc_cid_switch_to_next_state cs (pid, j) c st pid =
      (let c' = c\<lparr>ci_cid := cid\<rparr>; put = (\<lambda>s. s\<lparr>cid_list := (cid_list s)[j := c']\<rparr>) in
       if ci_state c = st then (upd_path pid put cs, Inr ())
       else if cid_state_num (ci_state c) > cid_state_num st then (upd_path pid put cs, Inl XQC_ECID_STATE)
       else (upd_path pid (\<lambda>s. inner_switch j c' st (put s)) cs, Inr ()))"
proof -
  from c obtain s where s: "xqc_get_path_cid_set cs pid = Some s" "j < length (cid_list s)" "cid_list s ! j = c"
    by (auto simp: cid_at_Some)
  have s2: "inner_ok n s" "set_path_id s = pid" using get_path_ok [OF ok s(1)] by auto
  have "c \<in> set (cid_list s)" using s(2,3) by (metis nth_mem)
  then have "cid_pos (ci_cid c) (cid_list s) \<noteq> None" using cid_is_equal_refl unfolding cid_pos_None by blast
  then obtain k where k: "cid_pos (ci_cid c) (cid_list s) = Some k" by blast
  let ?cid = "cid_found (ci_cid c) (cid_list s ! k)"
  have in_set: "xqc_cid_in_cid_set cs (ci_cid c) pid = Some ((pid, k), ?cid)"
    using s(1) s2(2) k by (simp add: xqc_cid_in_cid_set_def)
  have "cid_list s ! k \<in> set (cid_list s)" using cid_pos_Some [OF k] by simp
  then have p: "cid_path_id ?cid = pid" using s2 by (auto simp: inner_ok_def cid_found_def)
  have e: "xqc_cid_is_equal ?cid (ci_cid c)" by (simp add: xqc_cid_is_equal_def cid_found_def)
  have "xqc_cid_switch_to_next_state cs (pid, j) c st pid =
      (let c' = c\<lparr>ci_cid := ?cid\<rparr>; put = (\<lambda>s. s\<lparr>cid_list := (cid_list s)[j := c']\<rparr>) in
       if ci_state c = st then (upd_path pid put cs, Inr ())
       else if cid_state_num (ci_state c) > cid_state_num st then (upd_path pid put cs, Inl XQC_ECID_STATE)
       else (upd_path pid (\<lambda>s. inner_switch j c' st (put s)) cs, Inr ()))"
    by (simp add: xqc_cid_switch_to_next_state_def in_set cid_put_def Let_def upd_path_twice inner_switch_def)
  with that s p e show ?thesis by blast
qed

lemma switch_keeps:
  assumes ok: "cid_set_ok n cs" and "n < 2 ^ 32" and c: "cid_at cs (pid, j) = Some c"
  shows "cid_set_ok n (fst (xqc_cid_switch_to_next_state cs (pid, j) c st pid))"
proof -
  obtain s cid where s: "xqc_get_path_cid_set cs pid = Some s" "j < length (cid_list s)" "cid_list s ! j = c"
    and cid: "cid_path_id cid = pid" and sw: "xqc_cid_switch_to_next_state cs (pid, j) c st pid =
      (let c' = c\<lparr>ci_cid := cid\<rparr>; put = (\<lambda>s. s\<lparr>cid_list := (cid_list s)[j := c']\<rparr>) in
       if ci_state c = st then (upd_path pid put cs, Inr ())
       else if cid_state_num (ci_state c) > cid_state_num st then (upd_path pid put cs, Inl XQC_ECID_STATE)
       else (upd_path pid (\<lambda>s. inner_switch j c' st (put s)) cs, Inr ()))"
    by (rule switch_eq [OF ok c])
  let ?c = "c\<lparr>ci_cid := cid\<rparr>" and ?put = "\<lambda>s. s\<lparr>cid_list := (cid_list s)[j := c\<lparr>ci_cid := cid\<rparr>]\<rparr>"
  have s2: "inner_ok n s" "set_path_id s = pid" using get_path_ok [OF ok s(1)] by auto
  have p: "inner_ok n (?put s)" using inner_reset_ok [OF s2(1) s(2,3)] cid s2(2) by simp
  have "cid_set_ok n (upd_path pid ?put cs)" by (rule upd_path_ok [where n = n and s = s]) (use ok s p s2 in simp_all)
  moreover have "cid_set_ok n (upd_path pid (\<lambda>s. inner_switch j ?c st (?put s)) cs)" if "cid_state_num (ci_state c) < cid_state_num st"
  proof (rule upd_path_ok [where n = n and s = s])
    show "inner_ok n (inner_switch j ?c st (?put s))"
      by (rule inner_switch_ok [OF p assms(2)]) (use s that in simp_all)
    show "set_path_id (inner_switch j ?c st (?put s)) = pid" "set_state (inner_switch j ?c st (?put s)) = set_state s"
      using s2 by (simp_all add: inner_switch_def Let_def)
  qed (use ok s in simp_all)
  moreover have "ci_state c = st \<or> cid_state_num (ci_state c) > cid_state_num st \<or> cid_state_num (ci_state c) < cid_state_num st"
    by (cases "ci_state c"; cases st) auto
  ultimately show ?thesis by (auto simp: sw Let_def)
qed

lemma unused_pos_Some: "unused_pos cl = Some j \<Longrightarrow> j < length cl \<and> ci_state (cl ! j) = XQC_CID_UNUSED"
  by (induction cl arbitrary: j) (auto split: if_splits)

lemma unused_pos_None: "unused_pos cl = None \<longleftrightarrow> cid_cnt (\<lambda>c. ci_state c = XQC_CID_UNUSED) cl = 0"
  by (induction cl) auto

lemma get_unused_keeps:
  assumes ok: "cid_set_ok n cs" and "n < 2 ^ 32"
  shows "cid_set_ok n (fst (xqc_get_unused_cid cs cid pid))"
proof (cases "xqc_get_path_cid_set cs pid")
  case None
  with ok show ?thesis by (simp add: xqc_get_unused_cid_def)
next
  case (Some s)
  show ?thesis
  proof (cases "unused_pos (cid_list s)")
    case None
    with Some ok show ?thesis by (simp add: xqc_get_unused_cid_def)
  next
    case (Some j)
    then have "cid_at cs (pid, j) = Some (cid_list s ! j)"
      using \<open>xqc_get_path_cid_set cs pid = Some s\<close> unused_pos_Some by (simp add: cid_at_Some)
    from switch_keeps [where st = XQC_CID_USED, OF ok assms(2) this] ok Some \<open>xqc_get_path_cid_set cs pid = Some s\<close>
    show ?thesis by (auto simp: xqc_get_unused_cid_def split: prod.splits)
  qed
qed

lemma add_path_keeps:
  assumes ok: "cid_set_ok n cs"
  shows "cid_set_ok n (fst (xqc_cid_set_add_path m cs pid))"
proof (cases "xqc_get_path_cid_set cs pid")
  case None
  then have "\<forall>s \<in> set (xqc_cid_set_walk cs). set_path_id s \<noteq> pid"
    by (auto simp: xqc_get_path_cid_set_def find_None_iff)
  with ok None show ?thesis
    by (auto simp: xqc_cid_set_add_path_def cid_set_ok_def xqc_cid_set_walk_def inner_ok_def xqc_cid_set_inner_init_def)
qed (use ok in \<open>simp add: xqc_cid_set_add_path_def\<close>)

lemma del_first_split: "\<forall>y \<in> set xs. \<not> P y \<Longrightarrow> P x \<Longrightarrow> del_first P (xs @ x # ys) = xs @ ys"
  by (induction xs) auto

lemma upd_first_split: "\<forall>y \<in> set xs. \<not> P y \<Longrightarrow> P x \<Longrightarrow> upd_first P f (xs @ x # ys) = xs @ f x # ys"
  by (induction xs) auto

lemma inner_ok_state [simp]: "inner_ok n (s\<lparr>set_state := st\<rparr>) = inner_ok n s"
  by (simp add: inner_ok_def)

lemma split_at_path:
  assumes "s \<in> set ss" and "set_path_id s = pid" and "distinct (map set_path_id ss)"
  obtains xs ys where "ss = xs @ s # ys" and "\<forall>y \<in> set xs. set_path_id y \<noteq> pid"
proof -
  from assms(1) obtain xs ys where "ss = xs @ s # ys" by (meson split_list)
  moreover from this have "\<forall>y \<in> set xs. set_path_id y \<noteq> pid" using assms(2,3) by (auto simp: image_iff)
  ultimately show ?thesis by (rule that)
qed

lemma cid_set_ok_replace:
  assumes ok: "cid_set_ok n cs" and w: "mset (xqc_cid_set_walk cs) = add_mset s X" "mset (xqc_cid_set_walk cs') = add_mset s' X"
    and s': "set_path_id s' = set_path_id s" "inner_ok n s'"
    and cnt: "\<And>st. set_cnt cs' st = set_cnt cs st - (if set_state s = st then 1 else 0) + (if set_state s' = st then 1 else 0)"
    and M: "\<forall>s \<in> set (cid_set_list cs'). set_state s \<noteq> XQC_CID_SET_ABANDONED"
    and A: "\<forall>s \<in> set (abandoned_set_list cs'). set_state s = XQC_CID_SET_ABANDONED"
  shows "cid_set_ok n cs'"
  unfolding cid_set_ok_def
proof (intro conjI ballI allI)
  have sets: "set (xqc_cid_set_walk cs) = insert s (set_mset X)" "set (xqc_cid_set_walk cs') = insert s' (set_mset X)"
    by (metis w(1) set_mset_add_mset_insert set_mset_mset, metis w(2) set_mset_add_mset_insert set_mset_mset)
  then show "inner_ok n x" if "x \<in> set (xqc_cid_set_walk cs')" for x using that ok s'(2) by (auto simp: cid_set_ok_def)
  have "mset (map set_path_id (xqc_cid_set_walk cs')) = mset (map set_path_id (xqc_cid_set_walk cs))"
    using w s'(1) by simp
  then show "distinct (map set_path_id (xqc_cid_set_walk cs'))"
    using ok mset_eq_imp_distinct_iff unfolding cid_set_ok_def by blast
  have len: "length (filter P xs) = size (filter_mset P (mset xs))" for P and xs :: "xqc_cid_set_inner list"
    by (metis mset_filter size_mset)
  show "set_cnt cs' st = of_nat (length (filter (\<lambda>s. set_state s = st) (xqc_cid_set_walk cs')))" for st
  proof -
    have "set_cnt cs st = of_nat (length (filter (\<lambda>s. set_state s = st) (xqc_cid_set_walk cs)))" using ok by (simp add: cid_set_ok_def)
    then show ?thesis using cnt [of st] by (simp add: len w)
  qed
qed (use M A in simp_all)

lemma update_state_abandoned:
  assumes ok: "cid_set_ok n cs" and g: "xqc_get_path_cid_set cs pid = Some s" and diff: "set_state s \<noteq> st"
    and ab: "set_state s = XQC_CID_SET_ABANDONED"
  shows "cid_set_ok n (xqc_cid_set_update_state cs pid st)"
proof -
  have s: "s \<in> set (cid_set_list cs) \<or> s \<in> set (abandoned_set_list cs)" "set_path_id s = pid"
    using get_path_iff [OF ok] g by (auto simp: xqc_cid_set_walk_def)
  have MA: "\<forall>s \<in> set (cid_set_list cs). set_state s \<noteq> XQC_CID_SET_ABANDONED"
    "\<forall>s \<in> set (abandoned_set_list cs). set_state s = XQC_CID_SET_ABANDONED" "distinct (map set_path_id (abandoned_set_list cs))"
    using ok by (simp_all add: cid_set_ok_def xqc_cid_set_walk_def)
  have ns: "inner_ok n (s\<lparr>set_state := st\<rparr>)" using get_path_ok [OF ok g] by simp
  have "s \<in> set (abandoned_set_list cs)" using s ab MA by auto
  from split_at_path [OF this s(2) MA(3)] obtain xs ys
    where l: "abandoned_set_list cs = xs @ s # ys" "\<forall>y \<in> set xs. set_path_id y \<noteq> pid" .
  then have "del_first (\<lambda>s. set_path_id s = pid) (abandoned_set_list cs) = xs @ ys"
    by (simp add: del_first_split s(2))
  with g ab diff have "xqc_cid_set_update_state cs pid st =
    cs\<lparr>set_cnt := ((set_cnt cs)(set_state s := set_cnt cs (set_state s) - 1))(st := set_cnt cs st + 1),
       abandoned_set_list := xs @ ys, cid_set_list := cid_set_list cs @ [s\<lparr>set_state := st\<rparr>]\<rparr>"
    by (auto simp: xqc_cid_set_update_state_def Let_def)
  then show ?thesis
    by (intro cid_set_ok_replace [OF ok, of s "mset (cid_set_list cs @ xs @ ys)" _ "s\<lparr>set_state := st\<rparr>"])
      (use l ns diff ab MA in \<open>auto simp: xqc_cid_set_walk_def\<close>)
qed

lemma update_state_live:
  assumes ok: "cid_set_ok n cs" and g: "xqc_get_path_cid_set cs pid = Some s" and diff: "set_state s \<noteq> st"
    and live: "set_state s \<noteq> XQC_CID_SET_ABANDONED"
  shows "cid_set_ok n (xqc_cid_set_update_state cs pid st)"
proof -
  have s: "s \<in> set (cid_set_list cs) \<or> s \<in> set (abandoned_set_list cs)" "set_path_id s = pid"
    using get_path_iff [OF ok] g by (auto simp: xqc_cid_set_walk_def)
  have MA: "\<forall>s \<in> set (cid_set_list cs). set_state s \<noteq> XQC_CID_SET_ABANDONED"
    "\<forall>s \<in> set (abandoned_set_list cs). set_state s = XQC_CID_SET_ABANDONED" "distinct (map set_path_id (cid_set_list cs))"
    using ok by (simp_all add: cid_set_ok_def xqc_cid_set_walk_def)
  have ns: "inner_ok n (s\<lparr>set_state := st\<rparr>)" using get_path_ok [OF ok g] by simp
  have "s \<in> set (cid_set_list cs)" using s live MA by auto
  from split_at_path [OF this s(2) MA(3)] obtain xs ys
    where l: "cid_set_list cs = xs @ s # ys" "\<forall>y \<in> set xs. set_path_id y \<noteq> pid" .
  then have "del_first (\<lambda>s. set_path_id s = pid) (cid_set_list cs) = xs @ ys"
    "upd_first (\<lambda>s. set_path_id s = pid) (\<lambda>s. s\<lparr>set_state := st\<rparr>) (cid_set_list cs) = xs @ s\<lparr>set_state := st\<rparr> # ys"
    by (simp_all add: del_first_split upd_first_split s(2))
  with g live diff l s(2) have "xqc_cid_set_update_state cs pid st =
    cs\<lparr>set_cnt := ((set_cnt cs)(set_state s := set_cnt cs (set_state s) - 1))(st := set_cnt cs st + 1),
       cid_set_list := (if st = XQC_CID_SET_ABANDONED then xs @ ys else xs @ s\<lparr>set_state := st\<rparr> # ys),
       abandoned_set_list := abandoned_set_list cs @ (if st = XQC_CID_SET_ABANDONED then [s\<lparr>set_state := st\<rparr>] else [])\<rparr>"
    by (auto simp: xqc_cid_set_update_state_def Let_def upd_path_def)
  then show ?thesis
    by (intro cid_set_ok_replace [OF ok, of s "mset (xs @ ys @ abandoned_set_list cs)" _ "s\<lparr>set_state := st\<rparr>"])
      (use l ns diff live MA in \<open>auto simp: xqc_cid_set_walk_def\<close>)
qed

lemma update_state_keeps:
  assumes ok: "cid_set_ok n cs"
  shows "cid_set_ok n (xqc_cid_set_update_state cs pid st)"
proof (cases "xqc_get_path_cid_set cs pid")
  case None
  with ok show ?thesis by (simp add: xqc_cid_set_update_state_def)
next
  case (Some s)
  show ?thesis
  proof (cases "set_state s = st")
    case True
    with ok Some show ?thesis by (simp add: xqc_cid_set_update_state_def)
  next
    case False
    with update_state_abandoned [OF ok Some] update_state_live [OF ok Some] show ?thesis by blast
  qed
qed

lemma ack_cids_spec:
  assumes "ack_cids seq cl n = (cl', m)"
  shows "cl' = map (\<lambda>c. if cid_seq_num (ci_cid c) = seq then c\<lparr>acked := True\<rparr> else c) cl
    \<and> m + of_nat (cid_cnt (\<lambda>c. acked c \<and> ci_state c = XQC_CID_UNUSED) cl)
      = n + of_nat (cid_cnt (\<lambda>c. acked c \<and> ci_state c = XQC_CID_UNUSED) cl')"
  using assms
proof (induction seq cl n arbitrary: cl' m rule: ack_cids.induct)
  case (2 seq c cl n)
  show ?case
  proof (cases "cid_seq_num (ci_cid c) = seq")
    case True
    define n' where "n' = (if \<not> acked c \<and> ci_state c = XQC_CID_UNUSED then n + 1 else n)"
    obtain cl1 m1 where r: "ack_cids seq cl n' = (cl1, m1)" by fastforce
    with 2(3) True have "cl' = c\<lparr>acked := True\<rparr> # cl1" "m = m1" by (auto simp: n'_def)
    with 2(1) [OF True n'_def r] True show ?thesis by (auto simp: n'_def algebra_simps)
  next
    case False
    obtain cl1 m1 where r: "ack_cids seq cl n = (cl1, m1)" by fastforce
    with 2(3) False have "cl' = c # cl1" "m = m1" by auto
    with 2(2) [OF False r] False show ?thesis by (auto simp: algebra_simps)
  qed
qed simp

lemma cid_cnt_map: "(\<And>c. P (f c) = P c) \<Longrightarrow> cid_cnt P (map f cl) = cid_cnt P cl"
  by (induction cl) auto

lemma cid_acked_keeps:
  assumes ok: "cid_set_ok n cs"
  shows "cid_set_ok n (xqc_cid_set_on_cid_acked cs pid seq)"
proof (cases "xqc_get_path_cid_set cs pid")
  case None
  with ok show ?thesis by (simp add: xqc_cid_set_on_cid_acked_def)
next
  case (Some s)
  obtain cl m where a: "ack_cids seq (cid_list s) (acked_unused s) = (cl, m)" by fastforce
  have s2: "inner_ok n s" "set_path_id s = pid" using get_path_ok [OF ok Some] by auto
  from ack_cids_spec [OF a] have cl: "cl = map (\<lambda>c. if cid_seq_num (ci_cid c) = seq then c\<lparr>acked := True\<rparr> else c) (cid_list s)"
    and m: "m = of_nat (cid_cnt (\<lambda>c. acked c \<and> ci_state c = XQC_CID_UNUSED) cl)"
    using s2(1) by (auto simp: inner_ok_def)
  have c: "cid_cnt (\<lambda>c. ci_state c = st) cl = cid_cnt (\<lambda>c. ci_state c = st) (cid_list s)"
    "cid_cnt is_original cl = cid_cnt is_original (cid_list s)" for st
    unfolding cl by (rule cid_cnt_map; simp)+
  have "inner_ok n (s\<lparr>cid_list := cl, acked_unused := m\<rparr>)"
    using s2(1) c m by (auto simp: inner_ok_def cl active_def)
  then have "cid_set_ok n (upd_path pid (\<lambda>s. s\<lparr>cid_list := cl, acked_unused := m\<rparr>) cs)"
    by (intro upd_path_ok [where n = n and s = s]) (use ok Some s2 in simp_all)
  then show ?thesis using a Some by (simp add: xqc_cid_set_on_cid_acked_def)
qed

lemma set_largest_keeps:
  assumes ok: "cid_set_ok n cs"
  shows "cid_set_ok n (fst (xqc_cid_set_set_largest_seq_or_rpt cs pid val))"
proof (cases "xqc_get_path_cid_set cs pid")
  case (Some s)
  have s2: "inner_ok n s" "set_path_id s = pid" using get_path_ok [OF ok Some] by auto
  then have "inner_ok n (s\<lparr>largest_scid_seq_num := val\<rparr>)" by (simp add: inner_ok_def)
  then have "cid_set_ok n (upd_path pid (\<lambda>s. s\<lparr>largest_scid_seq_num := val\<rparr>) cs)"
    by (intro upd_path_ok [where n = n and s = s]) (use ok Some s2 in simp_all)
  then show ?thesis using Some by (simp add: xqc_cid_set_set_largest_seq_or_rpt_def)
qed (use ok in \<open>simp add: xqc_cid_set_set_largest_seq_or_rpt_def\<close>)

lemma in_cid_set_place:
  assumes "cid_set_ok n cs" and "xqc_cid_in_cid_set cs cid pid = Some (p, cid')"
  obtains s j where "p = (pid, j)" and "xqc_get_path_cid_set cs pid = Some s" and "j < length (cid_list s)"
    and "xqc_cid_is_equal cid (ci_cid (cid_list s ! j))"
proof -
  from assms(2) obtain s where s: "xqc_get_path_cid_set cs pid = Some s" "search_sets cid [s] = Some (p, cid')"
    by (auto simp: xqc_cid_in_cid_set_def split: option.splits)
  moreover have "set_path_id s = pid" using get_path_ok [OF assms(1) s(1)] by simp
  ultimately show ?thesis using that cid_pos_Some by (auto split: option.splits)
qed

lemma mark_original_keeps:
  assumes ok: "cid_set_ok n cs"
    and act: "\<And>p c cid'. xqc_cid_in_cid_set cs cid pid = Some (p, cid') \<Longrightarrow> cid_at cs p = Some c \<Longrightarrow> active c"
  shows "cid_set_ok n (xqc_cid_set_mark_original cs cid pid)"
proof (cases "xqc_cid_in_cid_set cs cid pid")
  case None
  with ok show ?thesis by (simp add: xqc_cid_set_mark_original_def)
next
  case (Some r)
  then obtain p cid' where f: "xqc_cid_in_cid_set cs cid pid = Some (p, cid')" by (cases r) auto
  obtain s j where p: "p = (pid, j)" and s: "xqc_get_path_cid_set cs pid = Some s" "j < length (cid_list s)"
    by (rule in_cid_set_place [OF ok f])
  let ?c = "cid_list s ! j"
  let ?f = "\<lambda>s. s\<lparr>cid_list := (cid_list s)[j := ?c\<lparr>is_original := True\<rparr>], original_cid_cnt := original_cid_cnt s + 1\<rparr>"
  have at: "cid_at cs p = Some ?c" using p s by (simp add: cid_at_Some)
  have s2: "inner_ok n s" "set_path_id s = pid" using get_path_ok [OF ok s(1)] by auto
  have sub: "d \<in> set (cid_list s) \<or> d = ?c\<lparr>is_original := True\<rparr>" if "d \<in> set ((cid_list s)[j := ?c\<lparr>is_original := True\<rparr>])" for d
    using that set_update_subset_insert [of "cid_list s" j "?c\<lparr>is_original := True\<rparr>"] by blast
  have "inner_ok n (?f s)" if "\<not> is_original ?c"
    using s2(1) that act [OF f at] sub s(2) nth_mem [OF s(2)]
    by (fastforce simp: inner_ok_def cnt_word_update [OF s(2)] active_def)
  then have "cid_set_ok n (upd_path pid ?f cs)" if "\<not> is_original ?c"
    by (intro upd_path_ok [where n = n and s = s]) (use ok s s2 that in simp_all)
  moreover have "xqc_cid_set_mark_original cs cid pid = (if is_original ?c then cs else upd_path pid ?f cs)"
    using f at p by (simp add: xqc_cid_set_mark_original_def cid_put_def upd_path_twice)
  ultimately show ?thesis using ok by simp
qed

lemma search_sets_place:
  "search_sets cid ss = Some (p, cid') \<Longrightarrow> \<exists>s \<in> set ss. \<exists>j. p = (set_path_id s, j) \<and> cid_pos cid (cid_list s) = Some j
     \<and> cid' = cid_found cid (cid_list s ! j)"
  by (induction ss) (auto split: option.splits)

lemma search_cid_place:
  assumes ok: "cid_set_ok n cs" and "xqc_cid_set_search_cid cs cid = Some (p, cid')"
  obtains s :: xqc_cid_set_inner and j c where "p = (set_path_id s, j)" and "cid_at cs p = Some c" and "xqc_cid_is_equal cid (ci_cid c)"
    and "cid' = cid_found cid c" and "cid_path_id (ci_cid c) = set_path_id s"
proof -
  from search_sets_place [OF assms(2) [unfolded xqc_cid_set_search_cid_def]]
  obtain s j where s: "s \<in> set (xqc_cid_set_walk cs)" "p = (set_path_id s, j)" "cid_pos cid (cid_list s) = Some j"
    "cid' = cid_found cid (cid_list s ! j)" by blast
  have g: "xqc_get_path_cid_set cs (set_path_id s) = Some s" using get_path_iff [OF ok] s(1) by simp
  note j = cid_pos_Some [OF s(3)]
  have "cid_path_id (ci_cid (cid_list s ! j)) = set_path_id s" using get_path_ok [OF ok g] j by (simp add: inner_ok_def)
  moreover have "cid_at cs p = Some (cid_list s ! j)" using g j s(2) by (simp add: cid_at_Some)
  ultimately show ?thesis using that [of s j "cid_list s ! j"] s(2,4) j by blast
qed

lemma check_dcid_keeps:
  assumes ok: "cid_set_ok n cs" and "n < 2 ^ 32"
  shows "cid_set_ok n (fst (xqc_conn_check_dcid cs dcid))"
proof (cases "xqc_cid_set_search_cid cs dcid")
  case (Some r)
  then obtain p cid' where f: "xqc_cid_set_search_cid cs dcid = Some (p, cid')" by (cases r) auto
  obtain s :: xqc_cid_set_inner and j c where p: "p = (set_path_id s, j)" and c: "cid_at cs p = Some c" "cid_path_id (ci_cid c) = set_path_id s"
    by (rule search_cid_place [OF ok f])
  have "cid_set_ok n (fst (xqc_cid_switch_to_next_state cs p c XQC_CID_USED (cid_path_id (ci_cid c))))"
    using switch_keeps [OF ok assms(2), of "set_path_id s" j c] p c by simp
  then show ?thesis using f c ok by (auto simp: xqc_conn_check_dcid_def split: prod.splits)
qed (use ok in \<open>simp add: xqc_conn_check_dcid_def\<close>)

section \<open>Reachable sets\<close>

text \<open>The sets that the operations build from an empty one with at most \<open>n\<close> insertions. Only an identifier in use is marked as
  original: \<open>xqc_conn_create\<close> marks the one it has just inserted.\<close>

inductive cid_reach :: "nat \<Rightarrow> xqc_cid_set \<Rightarrow> bool" where
  reach_init: "cid_reach 0 xqc_init_cid_set"
| reach_insert: "cid_reach n cs \<Longrightarrow> cid_reach (Suc n) (fst (xqc_cid_set_insert_cid m cs cid st limit pid))"
| reach_delete: "cid_reach n cs \<Longrightarrow> cid_reach n (fst (xqc_cid_set_delete_cid cs cid pid))"
| reach_switch: "cid_reach n cs \<Longrightarrow> cid_at cs (pid, j) = Some c \<Longrightarrow>
    cid_reach n (fst (xqc_cid_switch_to_next_state cs (pid, j) c st pid))"
| reach_unused: "cid_reach n cs \<Longrightarrow> cid_reach n (fst (xqc_get_unused_cid cs cid pid))"
| reach_add_path: "cid_reach n cs \<Longrightarrow> cid_reach n (fst (xqc_cid_set_add_path m cs pid))"
| reach_state: "cid_reach n cs \<Longrightarrow> cid_reach n (xqc_cid_set_update_state cs pid sst)"
| reach_acked: "cid_reach n cs \<Longrightarrow> cid_reach n (xqc_cid_set_on_cid_acked cs pid seq)"
| reach_largest: "cid_reach n cs \<Longrightarrow> cid_reach n (fst (xqc_cid_set_set_largest_seq_or_rpt cs pid val))"
| reach_original: "cid_reach n cs \<Longrightarrow>
    (\<And>p c cid'. xqc_cid_in_cid_set cs cid pid = Some (p, cid') \<Longrightarrow> cid_at cs p = Some c \<Longrightarrow> active c) \<Longrightarrow>
    cid_reach n (xqc_cid_set_mark_original cs cid pid)"
| reach_check: "cid_reach n cs \<Longrightarrow> cid_reach n (fst (xqc_conn_check_dcid cs dcid))"

lemma init_cid_set_ok: "cid_set_ok 0 xqc_init_cid_set"
  by (simp add: cid_set_ok_def xqc_init_cid_set_def xqc_cid_set_walk_def)

lemma reach_ok: "cid_reach n cs \<Longrightarrow> n < 2 ^ 32 \<Longrightarrow> cid_set_ok n cs"
proof (induction rule: cid_reach.induct)
  case (reach_delete n cs cid pid)
  then show ?case using delete_cid_ok [of n cs cid pid] by (metis prod.collapse)
qed (simp_all add: init_cid_set_ok insert_cid_keeps switch_keeps get_unused_keeps add_path_keeps update_state_keeps
    cid_acked_keeps set_largest_keeps mark_original_keeps check_dcid_keeps)

section \<open>Properties\<close>

text \<open>C9: The counters of the connection identifier sets. In every set that the operations can build, each path is listed once, on
  the list that its state says, and its counters \<open>unused_cnt\<close>, \<open>used_cnt\<close>, \<open>retired_cnt\<close>, \<open>original_cid_cnt\<close> and
  \<open>acked_unused\<close> are the numbers of identifiers in those states; \<open>set_cnt\<close> counts the paths by state.\<close>

theorem cid_counters_exact:
  assumes "cid_reach n cs" and "n < 2 ^ 32"
  shows "cid_set_ok n cs"
  by (rule reach_ok [OF assms])

theorem cid_counters_exact_witness:
  "cid_set_ok 1 (fst (xqc_get_unused_cid (fst (xqc_cid_set_insert_cid True
     (fst (xqc_cid_set_add_path True xqc_init_cid_set 0)) xqc_cid_init_zero XQC_CID_UNUSED 2 0)) xqc_cid_init_zero 0))"
proof -
  have "cid_reach (Suc 0) (fst (xqc_get_unused_cid (fst (xqc_cid_set_insert_cid True
     (fst (xqc_cid_set_add_path True xqc_init_cid_set 0)) xqc_cid_init_zero XQC_CID_UNUSED 2 0)) xqc_cid_init_zero 0))"
    by (intro cid_reach.intros)
  from cid_counters_exact [OF this] show ?thesis by simp
qed

lemma active_cnt: "cid_cnt active cl = cid_cnt (\<lambda>c. ci_state c = XQC_CID_UNUSED) cl + cid_cnt (\<lambda>c. ci_state c = XQC_CID_USED) cl"
  by (induction cl) (auto simp: active_def)

lemma active_foreign_cnt:
  "(\<forall>c \<in> set cl. is_original c \<longrightarrow> active c) \<Longrightarrow>
   cid_cnt (\<lambda>c. active c \<and> \<not> is_original c) cl + cid_cnt is_original cl = cid_cnt active cl"
  by (induction cl) auto

lemma countable_cnt:
  assumes "inner_ok n s" and "n < 2 ^ 32"
  shows "unat (xqc_cid_set_countable_cnt s) = cid_cnt (\<lambda>c. active c \<and> \<not> is_original c) (cid_list s)"
proof -
  let ?u = "cid_cnt (\<lambda>c. ci_state c = XQC_CID_UNUSED) (cid_list s)" and ?d = "cid_cnt (\<lambda>c. ci_state c = XQC_CID_USED) (cid_list s)"
  let ?o = "cid_cnt is_original (cid_list s)" and ?f = "cid_cnt (\<lambda>c. active c \<and> \<not> is_original c) (cid_list s)"
  have e: "?f + ?o = ?u + ?d" using active_foreign_cnt [of "cid_list s"] active_cnt assms(1) by (simp add: inner_ok_def)
  have le: "?u \<le> n" "?d \<le> n" "?o \<le> n"
    using assms(1) cid_cnt_le by (auto simp: inner_ok_def intro: order_trans)
  have un: "unat (unused_cnt s + used_cnt s) = ?u + ?d" "unat (original_cid_cnt s) = ?o"
    using assms le by (simp_all add: inner_ok_def unat_word_ariths unsigned_of_nat take_bit_nat_eq_self)
  show ?thesis
  proof (cases "original_cid_cnt s < unused_cnt s + used_cnt s")
    case True
    then have "original_cid_cnt s \<le> unused_cnt s + used_cnt s" by simp
    then have "unat (unused_cnt s + used_cnt s - original_cid_cnt s) = ?u + ?d - ?o" by (simp only: unat_sub un)
    with True e show ?thesis by (simp add: xqc_cid_set_countable_cnt_def)
  next
    case False
    then have "?u + ?d \<le> ?o" using un by (simp add: word_less_nat_alt)
    with False e show ?thesis by (simp add: xqc_cid_set_countable_cnt_def)
  qed
qed

text \<open>C33: The limit on active connection identifiers (RFC 9000, sections 5.1.1 and 18.2). When \<open>xqc_cid_set_insert_cid\<close> accepts
  an identifier, it is the last one of its path, and the path has at most \<open>limit\<close> active identifiers that the peer has chosen;
  otherwise nothing changes.\<close>

theorem cid_limit_respected:
  assumes "cid_reach n cs" and "n < 2 ^ 32"
    and ins: "xqc_cid_set_insert_cid m cs cid st limit pid = (cs', cid', ret)"
  shows "case ret of
      Inr _ \<Rightarrow> \<exists>s s'. xqc_get_path_cid_set cs pid = Some s \<and> xqc_get_path_cid_set cs' pid = Some s'
        \<and> cid_list s' = cid_list s @ [new_inner cid st pid]
        \<and> cid_cnt (\<lambda>c. active c \<and> \<not> is_original c) (cid_list s') \<le> unat limit
    | Inl _ \<Rightarrow> cs' = cs"
proof (cases ret)
  case (Inl e)
  with ins insert_cid_Inl show ?thesis by simp
next
  case (Inr u)
  then have r: "ret = Inr ()" by simp
  have ok: "cid_set_ok n cs" by (rule reach_ok [OF assms(1,2)])
  obtain s where s: "xqc_get_path_cid_set cs pid = Some s" "xqc_cid_set_countable_cnt s < limit"
    using insert_cid_Inr [OF ins [unfolded r]] by blast
  note g = insert_cid_ok(2) [OF ok ins [unfolded r] s(1)]
  have "cid_cnt (\<lambda>c. active c \<and> \<not> is_original c) (cid_list s) < unat limit"
    using s(2) countable_cnt [OF conjunct1 [OF get_path_ok [OF ok s(1)]] assms(2)] by (simp add: word_less_nat_alt)
  with s(1) g r show ?thesis by auto
qed

theorem cid_limit_respected_witness:
  "\<exists>(s :: xqc_cid_set_inner) s'. xqc_get_path_cid_set (fst (xqc_cid_set_insert_cid True (fst (xqc_cid_set_add_path True xqc_init_cid_set 0))
        xqc_cid_init_zero XQC_CID_UNUSED 2 0)) 0 = Some s'
      \<and> cid_list s' = cid_list s @ [new_inner xqc_cid_init_zero XQC_CID_UNUSED 0]
      \<and> cid_cnt (\<lambda>c. active c \<and> \<not> is_original c) (cid_list s') \<le> 2"
proof -
  let ?cs = "fst (xqc_cid_set_add_path True xqc_init_cid_set 0)"
  have r: "cid_reach 0 ?cs" by (intro cid_reach.intros)
  obtain cs' cid' ret where i: "xqc_cid_set_insert_cid True ?cs xqc_cid_init_zero XQC_CID_UNUSED 2 0 = (cs', cid', ret)"
    by (metis prod_cases3)
  have "snd (snd (xqc_cid_set_insert_cid True ?cs xqc_cid_init_zero XQC_CID_UNUSED 2 0)) = Inr ()"
    by (simp add: xqc_cid_set_insert_cid_def xqc_cid_set_add_path_def xqc_get_path_cid_set_def xqc_cid_set_walk_def
        xqc_init_cid_set_def xqc_cid_set_inner_init_def xqc_cid_set_countable_cnt_def Let_def)
  with i have "ret = Inr ()" by simp
  with cid_limit_respected [OF r _ i] i show ?thesis by auto
qed

lemma unused_cnt_zero:
  assumes "inner_ok n s" and "n < 2 ^ 32"
  shows "unused_cnt s = 0 \<longleftrightarrow> cid_cnt (\<lambda>c. ci_state c = XQC_CID_UNUSED) (cid_list s) = 0"
proof -
  have "cid_cnt (\<lambda>c. ci_state c = XQC_CID_UNUSED) (cid_list s) < 2 ^ 64"
    using assms cid_cnt_le [of "\<lambda>c. ci_state c = XQC_CID_UNUSED" "cid_list s"] by (simp add: inner_ok_def)
  then have "unat (unused_cnt s) = cid_cnt (\<lambda>c. ci_state c = XQC_CID_UNUSED) (cid_list s)"
    using assms(1) by (simp add: inner_ok_def unsigned_of_nat take_bit_nat_eq_self)
  then show ?thesis by (metis unat_eq_zero)
qed

lemma switch_unused:
  assumes ok: "cid_set_ok n cs" and "n < 2 ^ 32" and c: "cid_at cs (pid, j) = Some c" "ci_state c = XQC_CID_UNUSED"
    and sw: "xqc_cid_switch_to_next_state cs (pid, j) c XQC_CID_USED pid = (cs', ret)"
  shows "ret = Inr () \<and> (\<exists>c'. cid_at cs' (pid, j) = Some c' \<and> ci_state c' = XQC_CID_USED \<and> xqc_cid_is_equal (ci_cid c') (ci_cid c))"
proof -
  obtain s cid where s: "xqc_get_path_cid_set cs pid = Some s" "j < length (cid_list s)" "cid_list s ! j = c"
    and cid: "xqc_cid_is_equal cid (ci_cid c)" "cid_path_id cid = pid"
    and eq: "xqc_cid_switch_to_next_state cs (pid, j) c XQC_CID_USED pid =
      (let c' = c\<lparr>ci_cid := cid\<rparr>; put = (\<lambda>s. s\<lparr>cid_list := (cid_list s)[j := c']\<rparr>) in
       if ci_state c = XQC_CID_USED then (upd_path pid put cs, Inr ())
       else if cid_state_num (ci_state c) > cid_state_num XQC_CID_USED then (upd_path pid put cs, Inl XQC_ECID_STATE)
       else (upd_path pid (\<lambda>s. inner_switch j c' XQC_CID_USED (put s)) cs, Inr ()))"
    by (rule switch_eq [OF ok c(1)])
  let ?c = "c\<lparr>ci_cid := cid\<rparr>"
  let ?f = "\<lambda>s. inner_switch j ?c XQC_CID_USED (s\<lparr>cid_list := (cid_list s)[j := ?c]\<rparr>)"
  have cs': "ret = Inr ()" "cs' = upd_path pid ?f cs" using sw eq c(2) by (auto simp: Let_def)
  have s2: "inner_ok n s" "set_path_id s = pid" using get_path_ok [OF ok s(1)] by auto
  have "inner_ok n (?f s)"
    by (rule inner_switch_ok [OF inner_reset_ok [OF s2(1) s(2,3)] assms(2)]) (use s s2 cid c(2) in simp_all)
  then have "xqc_get_path_cid_set cs' pid = Some (?f s)"
    unfolding cs'(2) by (subst upd_path_get [where n = n and s = s and m = n]) (use ok s s2 in \<open>simp_all add: inner_switch_def Let_def\<close>)
  then have "cid_at cs' (pid, j) = Some (?c\<lparr>ci_state := XQC_CID_USED\<rparr>)"
    using s(2) by (simp add: cid_at_Some inner_switch_def Let_def)
  with cs'(1) cid(1) show ?thesis by simp
qed

text \<open>C34: \<open>xqc_get_unused_cid\<close> hands out an identifier that no one uses yet, and marks it as used in the same step, so that no other call gets
  it: the place it comes from held an unused identifier before and holds a used one with the same bytes afterwards. It fails, and
  changes nothing, exactly when the path has no unused identifier.\<close>

theorem unused_cid_handed_out_once:
  assumes "cid_reach n cs" and "n < 2 ^ 32" and get: "xqc_get_unused_cid cs cid pid = (cs', cid', ret)"
  shows "(ret = Inr () \<and> (\<exists>j c c'. cid_at cs (pid, j) = Some c \<and> ci_state c = XQC_CID_UNUSED
            \<and> cid' = xqc_cid_copy cid (ci_cid c)
            \<and> cid_at cs' (pid, j) = Some c' \<and> ci_state c' = XQC_CID_USED \<and> xqc_cid_is_equal (ci_cid c') (ci_cid c)))
    \<or> (ret = Inl XQC_ECONN_NO_AVAIL_CID \<and> cs' = cs \<and> (\<nexists>j c. cid_at cs (pid, j) = Some c \<and> ci_state c = XQC_CID_UNUSED))"
proof (cases "\<exists>s j. xqc_get_path_cid_set cs pid = Some s \<and> unused_pos (cid_list s) = Some j")
  case True
  then obtain s j where s: "xqc_get_path_cid_set cs pid = Some s" and j: "unused_pos (cid_list s) = Some j" by blast
  let ?c = "cid_list s ! j"
  have ok: "cid_set_ok n cs" by (rule reach_ok [OF assms(1,2)])
  have s2: "inner_ok n s" "set_path_id s = pid" using get_path_ok [OF ok s] by auto
  have c: "cid_at cs (pid, j) = Some ?c" "ci_state ?c = XQC_CID_UNUSED" using unused_pos_Some [OF j] s by (auto simp: cid_at_Some)
  have "unused_cnt s \<noteq> 0" using unused_cnt_zero [OF s2(1) assms(2)] j by (metis option.distinct(1) unused_pos_None)
  with get s j have sw: "xqc_cid_switch_to_next_state cs (pid, j) ?c XQC_CID_USED pid = (cs', ret)" and cid': "cid' = xqc_cid_copy cid (ci_cid ?c)"
    by (auto simp: xqc_get_unused_cid_def split: prod.splits)
  from switch_unused [OF ok assms(2) c sw]
  show ?thesis using c cid' by blast
next
  case False
  have ok: "cid_set_ok n cs" by (rule reach_ok [OF assms(1,2)])
  from False have "xqc_get_path_cid_set cs pid = Some s \<Longrightarrow> \<forall>c \<in> set (cid_list s). ci_state c \<noteq> XQC_CID_UNUSED" for s
    using cid_cnt_member [of _ "cid_list s" "\<lambda>c. ci_state c = XQC_CID_UNUSED"] unused_pos_None [of "cid_list s"] by fastforce
  then have "\<nexists>j c. cid_at cs (pid, j) = Some c \<and> ci_state c = XQC_CID_UNUSED" by (fastforce simp: cid_at_Some)
  moreover have "ret = Inl XQC_ECONN_NO_AVAIL_CID \<and> cs' = cs"
    using get False by (auto simp: xqc_get_unused_cid_def split: option.splits if_splits)
  ultimately show ?thesis by blast
qed

theorem unused_cid_handed_out_once_witness:
  "\<exists>cs' cid'. xqc_get_unused_cid (fst (xqc_cid_set_insert_cid True (fst (xqc_cid_set_add_path True xqc_init_cid_set 0))
      xqc_cid_init_zero XQC_CID_UNUSED 2 0)) xqc_cid_init_zero 0 = (cs', cid', Inr ())"
proof -
  let ?cs = "fst (xqc_cid_set_insert_cid True (fst (xqc_cid_set_add_path True xqc_init_cid_set 0)) xqc_cid_init_zero XQC_CID_UNUSED 2 0)"
  have r: "cid_reach (Suc 0) ?cs" by (intro cid_reach.intros)
  obtain cs' cid' ret where g: "xqc_get_unused_cid ?cs xqc_cid_init_zero 0 = (cs', cid', ret)" by (metis prod_cases3)
  have "map_option ci_state (cid_at ?cs (0, 0)) = Some XQC_CID_UNUSED"
    by (simp add: xqc_cid_set_insert_cid_def xqc_cid_set_add_path_def xqc_get_path_cid_set_def xqc_cid_set_walk_def
        xqc_init_cid_set_def xqc_cid_set_inner_init_def xqc_cid_set_countable_cnt_def Let_def upd_path_def cid_at_def count_in_def)
  with unused_cid_handed_out_once [OF r _ g] g show ?thesis by auto
qed

end
