(* ===== verification/Packet_Header.thy ===== *)
theory Packet_Header
  imports Packet_Number Cid
begin

text \<open>
  QUIC packet headers: transport/xqc_packet_parser.c (header generation and parsing, Retry, version
  negotiation, stateless reset), with the types of xqc_packet.h and xqc_packet_in.h, the connection states
  of xqc_conn.h, and \<open>xqc_conn_version_check\<close> and \<open>xqc_conn_on_recv_retry\<close> of xqc_conn.c.

  A received packet is its buffer with offsets for the pointers \<open>pos\<close> and \<open>last\<close> into it. The records extend the
  views of \<open>xqc_packet_out_t\<close> and \<open>xqc_connection_t\<close> of the theory Packet_Buf with the fields used here. What the
  header code calls in TLS and in the sending side is passed in as a record of functions.
\<close>

section \<open>Data\<close>

datatype xqc_conn_state =
    XQC_CONN_STATE_SERVER_INIT | XQC_CONN_STATE_SERVER_INITIAL_RECVD | XQC_CONN_STATE_SERVER_INITIAL_SENT
  | XQC_CONN_STATE_SERVER_HANDSHAKE_SENT | XQC_CONN_STATE_SERVER_HANDSHAKE_RECVD
  | XQC_CONN_STATE_CLIENT_INIT | XQC_CONN_STATE_CLIENT_INITIAL_SENT | XQC_CONN_STATE_CLIENT_INITIAL_RECVD
  | XQC_CONN_STATE_CLIENT_HANDSHAKE_RECVD | XQC_CONN_STATE_CLIENT_HANDSHAKE_SENT
  | XQC_CONN_STATE_ESTABED | XQC_CONN_STATE_CLOSING | XQC_CONN_STATE_DRAINING | XQC_CONN_STATE_CLOSED
  | XQC_CONN_STATE_N

record xqc_packet =
  pkt_num :: u64
  pkt_pns :: xqc_pkt_num_space
  pkt_type :: xqc_pkt_type
  pkt_dcid :: xqc_cid
  pkt_scid :: xqc_cid
  pkt_length :: u64
  pkt_num_offset :: nat

record xqc_packet_in_hdr =
  pi_pkt :: xqc_packet
  pi_buf :: bytes
  pi_datagram_size :: nat
  pi_pos :: nat
  pi_last :: nat
  pi_path_id :: u64

record xqc_packet_out_hdr = xqc_packet_out +
  po_pkt_type :: xqc_pkt_type
  po_ppktno :: nat
  po_payload :: nat

record xqc_conn_hdr = xqc_connection +
  conn_state :: xqc_conn_state
  conn_version :: nat
  conn_token :: bytes
  conn_token_len :: nat
  conn_scid_set :: xqc_cid_set
  conn_dcid_set :: xqc_cid_set
  original_dcid :: xqc_cid
  initial_scid :: xqc_cid
  retry_scid :: xqc_cid
  path_dcid :: xqc_cid
  support_version_list :: "u32 list"

definition XQC_CONN_FLAG_DCID_OK :: u64 where "XQC_CONN_FLAG_DCID_OK = push_bit 8 1"
definition XQC_CONN_FLAG_INIT_RECVD :: u64 where "XQC_CONN_FLAG_INIT_RECVD = push_bit 14 1"
definition XQC_CONN_FLAG_VERSION_NEGOTIATION :: u64 where "XQC_CONN_FLAG_VERSION_NEGOTIATION = push_bit 21 1"
definition XQC_CONN_FLAG_RETRY_RECVD :: u64 where "XQC_CONN_FLAG_RETRY_RECVD = push_bit 26 1"

definition TRA_PROTOCOL_VIOLATION :: u64 where "TRA_PROTOCOL_VIOLATION = 0xA"
definition TRA_VERSION_NEGOTIATION_ERROR :: u64 where "TRA_VERSION_NEGOTIATION_ERROR = 0x53"

definition XQC_POF_REINJECTED_REPLICA :: u32 where "XQC_POF_REINJECTED_REPLICA = push_bit 10 1"

definition XQC_PACKET_VERSION_LENGTH :: nat where "XQC_PACKET_VERSION_LENGTH = 4"
definition XQC_PACKET_LONG_HEADER_PREFIX_LENGTH :: nat where
  "XQC_PACKET_LONG_HEADER_PREFIX_LENGTH = 1 + XQC_PACKET_VERSION_LENGTH"
definition XQC_PACKET_INITIAL_MIN_LENGTH :: nat where "XQC_PACKET_INITIAL_MIN_LENGTH = XQC_QUIC_MIN_MSS"
definition XQC_LONG_HEADER_LENGTH_BYTE :: nat where "XQC_LONG_HEADER_LENGTH_BYTE = 2"
definition XQC_MAX_TOKEN_LEN :: nat where "XQC_MAX_TOKEN_LEN = 256"
definition XQC_RETRY_INTEGRITY_TAG_LEN :: nat where "XQC_RETRY_INTEGRITY_TAG_LEN = 16"
definition XQC_RESET_TOKEN_LEN :: nat where "XQC_RESET_TOKEN_LEN = 16"
definition XQC_STATELESS_RESET_PKT_MIN_LEN :: nat where "XQC_STATELESS_RESET_PKT_MIN_LEN = 21"

definition XQC_IDRAFT_INIT_VER :: nat where "XQC_IDRAFT_INIT_VER = 0"
definition XQC_VERSION_V1 :: nat where "XQC_VERSION_V1 = 1"
definition XQC_IDRAFT_VER_29 :: nat where "XQC_IDRAFT_VER_29 = 2"
definition XQC_IDRAFT_VER_NEGOTIATION :: nat where "XQC_IDRAFT_VER_NEGOTIATION = 3"
definition XQC_VERSION_MAX :: nat where "XQC_VERSION_MAX = 4"

definition xqc_proto_version_value :: "u32 list" where
  "xqc_proto_version_value = [0xFFFFFFFF, 0x00000001, 0xFF00001D, 0x00000000]"

definition xqc_proto_version_field :: "bytes list" where
  "xqc_proto_version_field =
     [[0xFF, 0xFF, 0xFF, 0xFF], [0x00, 0x00, 0x00, 0x01], [0xFF, 0x00, 0x00, 0x1D], [0x00, 0x00, 0x00, 0x00]]"

definition xqc_check_proto_version_valid :: "nat \<Rightarrow> bool" where
  "xqc_check_proto_version_valid ver \<longleftrightarrow> ver > XQC_IDRAFT_INIT_VER \<and> ver < XQC_IDRAFT_VER_NEGOTIATION"

text \<open>\<open>XQC_BUFF_LEFT_SIZE\<close>, the bytes between two offsets, and the tests on the first byte.\<close>

definition XQC_BUFF_LEFT_SIZE :: "nat \<Rightarrow> nat \<Rightarrow> nat" where
  "XQC_BUFF_LEFT_SIZE pos pend = (if pend > pos then pend - pos else 0)"

definition pi_bytes :: "'b xqc_packet_in_hdr_scheme \<Rightarrow> nat \<Rightarrow> bytes" where
  "pi_bytes pi pos = take (pi_last pi - pos) (drop pos (pi_buf pi))"

definition XQC_PACKET_IS_LONG_HEADER :: "u8 \<Rightarrow> bool" where
  "XQC_PACKET_IS_LONG_HEADER b \<longleftrightarrow> b AND 0x80 = 0x80"

definition XQC_PACKET_IS_SHORT_HEADER :: "u8 \<Rightarrow> bool" where
  "XQC_PACKET_IS_SHORT_HEADER b \<longleftrightarrow> b AND 0xC0 = 0x40"

definition XQC_PACKET_LONG_HEADER_GET_TYPE :: "u8 \<Rightarrow> nat" where
  "XQC_PACKET_LONG_HEADER_GET_TYPE b = unat (drop_bit 4 (b AND 0x30))"

definition XQC_PACKET_SHORT_HEADER_PKTNO_LEN :: "u8 \<Rightarrow> nat" where
  "XQC_PACKET_SHORT_HEADER_PKTNO_LEN b = unat (b AND 0x03) + 1"

definition XQC_PACKET_SHORT_HEADER_KEY_PHASE :: "u8 \<Rightarrow> nat" where
  "XQC_PACKET_SHORT_HEADER_KEY_PHASE b = unat (drop_bit 2 (b AND 0x04))"

fun pkt_type_num :: "xqc_pkt_type \<Rightarrow> nat" where
  "pkt_type_num XQC_PTYPE_INIT = 0"
| "pkt_type_num XQC_PTYPE_0RTT = 1"
| "pkt_type_num XQC_PTYPE_HSK = 2"
| "pkt_type_num XQC_PTYPE_RETRY = 3"
| "pkt_type_num XQC_PTYPE_SHORT_HEADER = 4"
| "pkt_type_num XQC_PTYPE_VERSION_NEGOTIATION = 5"
| "pkt_type_num XQC_PTYPE_NUM = 6"

definition xqc_parse_uint32 :: "bytes \<Rightarrow> u32" where
  "xqc_parse_uint32 p = push_bit 24 (ucast (p ! 0)) OR push_bit 16 (ucast (p ! 1))
     OR push_bit 8 (ucast (p ! 2)) OR ucast (p ! 3)"

definition xqc_uint32_list_find :: "u32 list \<Rightarrow> u32 \<Rightarrow> bool" where
  "xqc_uint32_list_find list target \<longleftrightarrow> target \<in> set list"

section \<open>Writing headers\<close>

definition xqc_short_packet_header_size :: "nat \<Rightarrow> nat \<Rightarrow> nat" where
  "xqc_short_packet_header_size dcid_len pktno_bits = 1 + dcid_len + xqc_packet_number_bits2len pktno_bits"

definition xqc_long_packet_header_size :: "nat \<Rightarrow> nat \<Rightarrow> nat \<Rightarrow> nat \<Rightarrow> xqc_pkt_type \<Rightarrow> nat" where
  "xqc_long_packet_header_size dcid_len scid_len token_len pktno_bits type =
     1 + 4 + 2 + dcid_len + scid_len
     + (if type = XQC_PTYPE_INIT then xqc_vint_len_by_val (of_nat token_len) + token_len else 0)
     + XQC_LONG_HEADER_LENGTH_BYTE + xqc_packet_number_bits2len pktno_bits"

definition xqc_gen_short_packet_header ::
    "'a xqc_packet_out_hdr_scheme \<Rightarrow> bytes \<Rightarrow> nat \<Rightarrow> nat \<Rightarrow> u64 \<Rightarrow> nat \<Rightarrow> 'a xqc_packet_out_hdr_scheme \<times> nat res" where
  "xqc_gen_short_packet_header po dcid dcid_len packet_number_bits packet_number key_phase =
     (let spin_bit = 1;
          reserved_bits = 0;
          key_phase_bit = (if key_phase \<noteq> 0 then 1 else 0);
          packet_number_len = xqc_packet_number_bits2len packet_number_bits;
          need = 1 + dcid_len + packet_number_len;
          dst_buf_size = xqc_get_po_remained_size po;
          po = po\<lparr>po_pkt_type := XQC_PTYPE_SHORT_HEADER\<rparr>
      in if need > dst_buf_size then (po, Inl XQC_ENOBUF)
         else let buf = buf_write (po_buf po) 0 [0x40 OR push_bit 5 spin_bit OR push_bit 3 reserved_bits
                          OR push_bit 2 key_phase_bit OR of_nat packet_number_bits];
                  buf = (if dcid_len \<noteq> 0 then buf_write buf 1 (take dcid_len dcid) else buf);
                  pn = xqc_write_packet_number packet_number packet_number_bits;
                  buf = buf_write buf (1 + dcid_len) pn
              in (po\<lparr>po_buf := buf, po_ppktno := 1 + dcid_len, po_payload := 1 + dcid_len + length pn\<rparr>, Inr need))"

definition xqc_long_packet_update_length :: "'a xqc_packet_out_hdr_scheme \<Rightarrow> 'a xqc_packet_out_hdr_scheme" where
  "xqc_long_packet_update_length po =
     (if po_pkt_type po = XQC_PTYPE_INIT \<or> po_pkt_type po = XQC_PTYPE_HSK \<or> po_pkt_type po = XQC_PTYPE_0RTT
      then let plength = po_ppktno po - XQC_LONG_HEADER_LENGTH_BYTE;
               len = po_used_size po - po_ppktno po
           in po\<lparr>po_buf := buf_write (po_buf po) plength (xqc_vint_write (of_nat len) 1 2)\<rparr>
      else po)"

definition xqc_short_packet_update_key_phase :: "'a xqc_packet_out_hdr_scheme \<Rightarrow> nat \<Rightarrow> 'a xqc_packet_out_hdr_scheme" where
  "xqc_short_packet_update_key_phase po key_phase =
     (if po_pkt_type po = XQC_PTYPE_SHORT_HEADER
      then let key_phase_bit = (if key_phase \<noteq> 0 then 1 else 0);
               b = (po_buf po ! 0) AND NOT (push_bit 2 1);
               b = b OR push_bit 2 key_phase_bit
           in po\<lparr>po_buf := (po_buf po)[0 := b]\<rparr>
      else po)"

definition xqc_short_packet_update_dcid :: "'a xqc_packet_out_hdr_scheme \<Rightarrow> xqc_cid \<Rightarrow> 'a xqc_packet_out_hdr_scheme" where
  "xqc_short_packet_update_dcid po dcid =
     (if po_pkt_type po = XQC_PTYPE_SHORT_HEADER
      then po\<lparr>po_buf := buf_write (po_buf po) 1 (take (unat (cid_len dcid)) (cid_buf dcid))\<rparr>
      else po)"

definition xqc_packet_update_reserved_bits :: "'a xqc_packet_out_hdr_scheme \<Rightarrow> 'a xqc_packet_out_hdr_scheme" where
  "xqc_packet_update_reserved_bits po =
     (let po = (if po_pkt_type po = XQC_PTYPE_SHORT_HEADER \<and> po_flag po AND XQC_POF_REINJECTED_REPLICA \<noteq> 0
                then po\<lparr>po_buf := (po_buf po)[0 := (po_buf po ! 0) OR push_bit 4 1]\<rparr> else po)
      in if po_pkt_type po = XQC_PTYPE_0RTT \<and> po_flag po AND XQC_POF_REINJECTED_REPLICA \<noteq> 0
         then po\<lparr>po_buf := (po_buf po)[0 := (po_buf po ! 0) OR push_bit 3 1]\<rparr> else po)"

text \<open>The bytes of a long header in front of the Length field, and the two bytes left for that field.\<close>

definition long_header_front ::
    "xqc_pkt_type \<Rightarrow> nat \<Rightarrow> nat \<Rightarrow> bytes \<Rightarrow> nat \<Rightarrow> bytes \<Rightarrow> nat \<Rightarrow> bytes \<Rightarrow> nat \<Rightarrow> bytes" where
  "long_header_front type pktno_bits ver dcid dcid_len scid scid_len token token_len =
     [0xC0 OR push_bit 4 (of_nat (pkt_type_num type)) OR of_nat pktno_bits]
     @ xqc_proto_version_field ! ver
     @ [of_nat dcid_len] @ take dcid_len dcid
     @ [of_nat scid_len] @ take scid_len scid
     @ (if type = XQC_PTYPE_INIT
        then xqc_vint_write (of_nat token_len) (xqc_vint_get_2bit (of_nat token_len))
               (xqc_vint_len (xqc_vint_get_2bit (of_nat token_len)))
             @ (if token_len > 0 then take token_len token else [])
        else [])"

definition xqc_gen_long_packet_header ::
    "'a xqc_packet_out_hdr_scheme \<Rightarrow> bytes \<Rightarrow> nat \<Rightarrow> bytes \<Rightarrow> nat \<Rightarrow> bytes \<Rightarrow> nat \<Rightarrow> nat \<Rightarrow> nat \<Rightarrow> 'a xqc_packet_out_hdr_scheme \<times> nat res" where
  "xqc_gen_long_packet_header po dcid dcid_len scid scid_len token token_len ver pktno_bits =
     (let dst_buf_size = xqc_get_po_remained_size po;
          type = po_pkt_type po;
          packet_number = po_pkt_num po;
          need = xqc_long_packet_header_size dcid_len scid_len token_len pktno_bits type
      in if \<not> xqc_check_proto_version_valid ver then (po, Inl XQC_EPROTO)
         else if need > dst_buf_size then (po, Inl XQC_ENOBUF)
         else if scid_len < 3 then (po, Inl XQC_EILLPKT)
         else let front = long_header_front type pktno_bits ver dcid dcid_len scid scid_len token token_len;
                  buf = buf_write (po_buf po) 0 front;
                  ppktno = length front + XQC_LONG_HEADER_LENGTH_BYTE;
                  pn = xqc_write_packet_number packet_number pktno_bits;
                  buf = buf_write buf ppktno pn
              in (po\<lparr>po_buf := buf, po_ppktno := ppktno, po_payload := ppktno + length pn\<rparr>,
                  Inr (ppktno + length pn)))"

section \<open>Reading headers\<close>

definition xqc_packet_parse_cid :: "xqc_cid \<Rightarrow> xqc_cid \<Rightarrow> u8 \<Rightarrow> bytes \<Rightarrow> (xqc_cid \<times> xqc_cid) \<times> unit res" where
  "xqc_packet_parse_cid dcid scid len buf =
     (let size = length buf in
      if size \<le> 0 then ((dcid, scid), Inl XQC_EPARAM)
      else if buf ! 0 AND 0x40 = 0 \<and> buf ! 0 AND 0x80 = 0 then ((dcid, scid), Inl XQC_EILLPKT)
      else if XQC_PACKET_IS_SHORT_HEADER (buf ! 0) then
        (if size < 1 + unat len then ((dcid, scid), Inl XQC_EILLPKT)
         else ((xqc_cid_set_bytes dcid (drop 1 buf) len, scid), Inr ()))
      else if size < XQC_PACKET_LONG_HEADER_PREFIX_LENGTH + 2 then ((dcid, scid), Inl XQC_EILLPKT)
      else
        let pos = 1 + XQC_PACKET_VERSION_LENGTH;
            dcid = dcid\<lparr>cid_len := buf ! pos\<rparr>;
            dl = unat (cid_len dcid)
        in if dl > XQC_MAX_CID_LEN then ((dcid, scid), Inl XQC_EILLPKT)
           else let pos = pos + 1 in
           if XQC_BUFF_LEFT_SIZE pos size < dl + 1 then ((dcid, scid), Inl XQC_EILLPKT)
           else
             let dcid = dcid\<lparr>cid_buf := buf_write (cid_buf dcid) 0 (take dl (drop pos buf))\<rparr>;
                 pos = pos + dl;
                 scid = scid\<lparr>cid_len := buf ! pos\<rparr>;
                 sl = unat (cid_len scid)
             in if sl > XQC_MAX_CID_LEN then ((dcid, scid), Inl XQC_EILLPKT)
                else let pos = pos + 1 in
                if XQC_BUFF_LEFT_SIZE pos size < sl then ((dcid, scid), Inl XQC_EILLPKT)
                else ((dcid, scid\<lparr>cid_buf := buf_write (cid_buf scid) 0 (take sl (drop pos buf))\<rparr>), Inr ()))"

definition pkt_set :: "(xqc_packet \<Rightarrow> xqc_packet) \<Rightarrow> 'b xqc_packet_in_hdr_scheme \<Rightarrow> 'b xqc_packet_in_hdr_scheme" where
  "pkt_set f pi = pi\<lparr>pi_pkt := f (pi_pkt pi)\<rparr>"

type_synonym ('a, 'b) hdr_result = "'a xqc_conn_hdr_scheme \<times> 'b xqc_packet_in_hdr_scheme \<times> unit res"

definition xqc_packet_parse_short_header :: "'a xqc_conn_hdr_scheme \<Rightarrow> 'b xqc_packet_in_hdr_scheme \<Rightarrow> ('a, 'b) hdr_result" where
  "xqc_packet_parse_short_header c pi =
     (let pos = pi_pos pi;
          pend = pi_last pi;
          len = cid_len (user_scid (conn_scid_set c));
          pi = pkt_set (\<lambda>p. p\<lparr>pkt_type := XQC_PTYPE_SHORT_HEADER, pkt_pns := XQC_PNS_APP_DATA\<rparr>) pi
      in if XQC_BUFF_LEFT_SIZE pos (pi_last pi) < 1 + unat len then (c, pi, Inl XQC_EILLPKT)
         else if pi_buf pi ! pos AND 0x40 = 0 then (c, pi, Inl XQC_EILLPKT)
         else
           let pos = pos + 1;
               dcid = xqc_cid_set_bytes (pkt_dcid (pi_pkt pi)) (drop pos (pi_buf pi)) len;
               pos = pos + unat len;
               (cs, dcid, ret) = xqc_conn_check_dcid (conn_scid_set c) dcid;
               c = c\<lparr>conn_scid_set := cs\<rparr>;
               pi = pkt_set (\<lambda>p. p\<lparr>pkt_dcid := dcid\<rparr>) pi
           in case ret of
                Inl _ \<Rightarrow> (c, pi, Inl XQC_EILLPKT)
              | Inr _ \<Rightarrow>
                  (let pi = pi\<lparr>pi_path_id := cid_path_id dcid\<rparr>;
                       pi = pkt_set (\<lambda>p. p\<lparr>pkt_length := of_nat (pi_last pi - pos), pkt_num_offset := pos\<rparr>) pi
                   in if pi_last pi > pend then (c, pi, Inl XQC_EILLPKT) else (c, pi, Inr ())))"

text \<open>The Length field, read in the same way for Initial, 0-RTT and Handshake packets.\<close>

definition parse_length :: "'a xqc_conn_hdr_scheme \<Rightarrow> 'b xqc_packet_in_hdr_scheme \<Rightarrow> nat \<Rightarrow> ('a, 'b) hdr_result" where
  "parse_length c pi pos =
     (let pend = pi_last pi in
      case xqc_vint_read (pi_bytes pi pos) of
        None \<Rightarrow> (c, pi, Inl XQC_EILLPKT)
      | Some (sz, len) \<Rightarrow>
          if XQC_BUFF_LEFT_SIZE pos pend < sz + unat len then (c, pi, Inl XQC_EILLPKT)
          else let pos = pos + sz;
                   pi = pi\<lparr>pi_last := pos + unat len\<rparr>;
                   pi = pkt_set (\<lambda>p. p\<lparr>pkt_length := len, pkt_num_offset := pos\<rparr>) pi
               in if pi_last pi > pend then (c, pi, Inl XQC_EILLPKT) else (c, pi, Inr ()))"

definition xqc_packet_parse_initial :: "'a xqc_conn_hdr_scheme \<Rightarrow> 'b xqc_packet_in_hdr_scheme \<Rightarrow> ('a, 'b) hdr_result" where
  "xqc_packet_parse_initial c pi =
     (let pos = pi_pos pi;
          pend = pi_last pi;
          pi = pkt_set (\<lambda>p. p\<lparr>pkt_type := XQC_PTYPE_INIT, pkt_pns := XQC_PNS_INIT\<rparr>) pi
      in if conn_type c = XQC_CONN_TYPE_SERVER \<and> pi_datagram_size pi < XQC_PACKET_INITIAL_MIN_LENGTH
         then (XQC_CONN_ERR c TRA_PROTOCOL_VIOLATION, pi, Inl XQC_EILLPKT)
         else case xqc_vint_read (pi_bytes pi pos) of
                None \<Rightarrow> (c, pi, Inl XQC_EILLPKT)
              | Some (sz, token_len) \<Rightarrow>
                  if XQC_BUFF_LEFT_SIZE pos pend < sz + unat token_len then (c, pi, Inl XQC_EILLPKT)
                  else
                    let pos = pos + sz in
                    if unat token_len > XQC_MAX_TOKEN_LEN then (c, pi, Inl XQC_EILLPKT)
                    else
                      let c = (if conn_type c = XQC_CONN_TYPE_SERVER
                               then c\<lparr>conn_token := buf_write (conn_token c) 0 (take (unat token_len) (drop pos (pi_buf pi))),
                                      conn_token_len := unat token_len\<rparr>
                               else c)
                      in parse_length c pi (pos + unat token_len))"

definition xqc_packet_parse_zero_rtt :: "'a xqc_conn_hdr_scheme \<Rightarrow> 'b xqc_packet_in_hdr_scheme \<Rightarrow> ('a, 'b) hdr_result" where
  "xqc_packet_parse_zero_rtt c pi =
     (let pi = pkt_set (\<lambda>p. p\<lparr>pkt_type := XQC_PTYPE_0RTT, pkt_pns := XQC_PNS_APP_DATA\<rparr>) pi
      in parse_length c pi (pi_pos pi))"

definition xqc_packet_parse_handshake :: "'a xqc_conn_hdr_scheme \<Rightarrow> 'b xqc_packet_in_hdr_scheme \<Rightarrow> ('a, 'b) hdr_result" where
  "xqc_packet_parse_handshake c pi =
     (let pi = pkt_set (\<lambda>p. p\<lparr>pkt_type := XQC_PTYPE_HSK, pkt_pns := XQC_PNS_HSK\<rparr>) pi
      in parse_length c pi (pi_pos pi))"

section \<open>Retry\<close>

text \<open>
  \<open>xqc_tls_cal_retry_integrity_tag\<close> gives the tag of a pseudo packet in a protocol version, or fails; the other functions
  are the steps of \<open>xqc_conn_on_recv_retry\<close> in TLS and in the sending side.
\<close>

record 'a retry_env =
  cal_retry_integrity_tag :: "bytes \<Rightarrow> nat \<Rightarrow> bytes option"
  datagram_record_mss :: "'a xqc_conn_hdr_scheme \<Rightarrow> 'a xqc_conn_hdr_scheme"
  tls_reset_initial :: "'a xqc_conn_hdr_scheme \<Rightarrow> xqc_cid \<Rightarrow> 'a xqc_conn_hdr_scheme \<times> unit res"
  send_ctl_reset :: "'a xqc_conn_hdr_scheme \<Rightarrow> 'a xqc_conn_hdr_scheme"
  resend_packets :: "'a xqc_conn_hdr_scheme \<Rightarrow> 'a xqc_conn_hdr_scheme \<times> unit res"

definition RETRY_PSEUDO_PACKET_SIZE :: nat where
  "RETRY_PSEUDO_PACKET_SIZE = 3 * (1 + XQC_MAX_CID_LEN) + 1 + 4 + XQC_MAX_TOKEN_LEN"

text \<open>The pseudo packet is built in an array of \<open>RETRY_PSEUDO_PACKET_SIZE\<close> bytes; \<open>XQC_OVERREAD\<close> marks a copy that leaves it.\<close>

definition xqc_conn_gen_retry_integrity_tag :: "'a retry_env \<Rightarrow> nat \<Rightarrow> bytes \<Rightarrow> nat \<Rightarrow> bytes \<Rightarrow> bytes res" where
  "xqc_conn_gen_retry_integrity_tag env ver odcid_buf odcid_len retry =
     (let pseudo = of_nat odcid_len # take odcid_len odcid_buf @ retry in
      if length retry + odcid_len > RETRY_PSEUDO_PACKET_SIZE then Inl XQC_ERROR
      else if length pseudo > RETRY_PSEUDO_PACKET_SIZE then Inl XQC_OVERREAD
      else case cal_retry_integrity_tag env pseudo ver of
             None \<Rightarrow> Inl XQC_ERROR
           | Some tag \<Rightarrow> if length tag \<noteq> XQC_RETRY_INTEGRITY_TAG_LEN then Inl XQC_ERROR else Inr tag)"

text \<open>The bytes of the Retry packet that the server writes.\<close>

definition xqc_gen_retry_packet ::
    "'a retry_env \<Rightarrow> nat \<Rightarrow> bytes \<Rightarrow> nat \<Rightarrow> bytes \<Rightarrow> nat \<Rightarrow> bytes \<Rightarrow> nat \<Rightarrow> bytes \<Rightarrow> nat \<Rightarrow> u32 \<Rightarrow> bytes res" where
  "xqc_gen_retry_packet env conn_ver dcid dcid_len scid scid_len odcid odcid_len token token_len ver =
     (let retry = [0xC0 OR push_bit 4 (of_nat (pkt_type_num XQC_PTYPE_RETRY))]
                  @ be_bytes 4 (ucast ver)
                  @ [of_nat dcid_len] @ take dcid_len dcid
                  @ [of_nat scid_len] @ take scid_len scid
                  @ take token_len token
      in case xqc_conn_gen_retry_integrity_tag env conn_ver odcid odcid_len retry of
           Inl e \<Rightarrow> Inl e
         | Inr tag \<Rightarrow> Inr (retry @ tag))"

definition xqc_conn_cal_retry_integrity_tag :: "'a retry_env \<Rightarrow> 'a xqc_conn_hdr_scheme \<Rightarrow> 'b xqc_packet_in_hdr_scheme \<Rightarrow> bytes res" where
  "xqc_conn_cal_retry_integrity_tag env c pi =
     xqc_conn_gen_retry_integrity_tag env (conn_version c) (cid_buf (original_dcid c)) (unat (cid_len (original_dcid c)))
       (take (length (pi_buf pi) - XQC_RETRY_INTEGRITY_TAG_LEN) (pi_buf pi))"

definition xqc_conn_on_recv_retry :: "'a retry_env \<Rightarrow> 'a xqc_conn_hdr_scheme \<Rightarrow> xqc_cid \<Rightarrow> 'a xqc_conn_hdr_scheme \<times> unit res" where
  "xqc_conn_on_recv_retry env c cid =
     (let c = c\<lparr>conn_flag := conn_flag c OR XQC_CONN_FLAG_RETRY_RECVD,
                retry_scid := xqc_cid_copy (retry_scid c) cid,
                conn_dcid_set := (conn_dcid_set c)\<lparr>user_scid := xqc_cid_copy (user_scid (conn_dcid_set c)) cid\<rparr>,
                path_dcid := xqc_cid_copy (path_dcid c) cid\<rparr>;
          c = datagram_record_mss env c
      in case tls_reset_initial env c cid of
           (c, Inl e) \<Rightarrow> (c, Inl e)
         | (c, Inr _) \<Rightarrow> resend_packets env (send_ctl_reset env c))"

definition xqc_packet_parse_retry :: "'a retry_env \<Rightarrow> 'a xqc_conn_hdr_scheme \<Rightarrow> 'b xqc_packet_in_hdr_scheme \<Rightarrow> ('a, 'b) hdr_result" where
  "xqc_packet_parse_retry env c pi =
     (let pi = pkt_set (\<lambda>p. p\<lparr>pkt_type := XQC_PTYPE_RETRY\<rparr>) pi in
      if conn_type c \<noteq> XQC_CONN_TYPE_CLIENT then (c, pi, Inl XQC_EPROTO)
      else if xqc_cid_is_equal (original_dcid c) (pkt_scid (pi_pkt pi)) then (c, pi, Inl XQC_EILLPKT)
      else if conn_flag c AND XQC_CONN_FLAG_RETRY_RECVD \<noteq> 0 \<or> conn_flag c AND XQC_CONN_FLAG_INIT_RECVD \<noteq> 0
      then (c, pi\<lparr>pi_pos := pi_last pi\<rparr>, Inr ())
      else
        let pos = pi_pos pi;
            pend = pi_last pi
        in if XQC_BUFF_LEFT_SIZE pos pend < XQC_RETRY_INTEGRITY_TAG_LEN + 1 then (c, pi, Inl XQC_EILLPKT)
           else
             let retry_token_len = XQC_BUFF_LEFT_SIZE pos pend - XQC_RETRY_INTEGRITY_TAG_LEN in
             if retry_token_len > XQC_MAX_TOKEN_LEN then (c, pi, Inl XQC_EILLPKT)
             else
               let c = c\<lparr>conn_token := buf_write (conn_token c) 0 (take retry_token_len (drop pos (pi_buf pi))),
                         conn_token_len := retry_token_len\<rparr>;
                   pos = pos + retry_token_len
               in case xqc_conn_cal_retry_integrity_tag env c pi of
                    Inl _ \<Rightarrow> (c, pi, Inl XQC_EILLPKT)
                  | Inr tag \<Rightarrow>
                      if length tag \<noteq> XQC_RETRY_INTEGRITY_TAG_LEN
                         \<or> tag \<noteq> take XQC_RETRY_INTEGRITY_TAG_LEN (drop pos (pi_buf pi))
                      then (c, pi\<lparr>pi_pos := pi_last pi\<rparr>, Inr ())
                      else
                        let pi = pi\<lparr>pi_last := pos + XQC_RETRY_INTEGRITY_TAG_LEN\<rparr> in
                        if pi_last pi > pend then (c, pi, Inl XQC_EILLPKT)
                        else let (c, ret) = xqc_conn_on_recv_retry env c (pkt_scid (pi_pkt pi)) in (c, pi, ret))"

section \<open>Version negotiation\<close>

fun vn_versions :: "u32 list \<Rightarrow> bytes \<Rightarrow> u32 list" where
  "vn_versions vs (b0 # b1 # b2 # b3 # p) =
     (let v = xqc_parse_uint32 [b0, b1, b2, b3]
      in vn_versions (if v \<noteq> 0 \<and> \<not> xqc_uint32_list_find vs v \<and> length vs < 256 then vs @ [v] else vs) p)"
| "vn_versions vs _ = vs"

definition xqc_packet_parse_version_negotiation :: "'a xqc_conn_hdr_scheme \<Rightarrow> 'b xqc_packet_in_hdr_scheme \<Rightarrow> ('a, 'b) hdr_result" where
  "xqc_packet_parse_version_negotiation c pi =
     (if \<not> xqc_cid_is_equal (original_dcid c) (pkt_scid (pi_pkt pi)) then (c, pi, Inl XQC_EILLPKT)
      else if \<not> xqc_cid_is_equal (initial_scid c) (pkt_dcid (pi_pkt pi)) then (c, pi, Inl XQC_EILLPKT)
      else
        let pos = pi_pos pi;
            pend = pi_last pi;
            pi = pkt_set (\<lambda>p. p\<lparr>pkt_type := XQC_PTYPE_VERSION_NEGOTIATION\<rparr>) pi
        in if XQC_BUFF_LEFT_SIZE pos pend < XQC_PACKET_VERSION_LENGTH then (c, pi, Inl XQC_EILLPKT)
           else if conn_state c \<noteq> XQC_CONN_STATE_CLIENT_INITIAL_SENT then (c, pi, Inl XQC_ESTATE)
           else if conn_type c \<noteq> XQC_CONN_TYPE_CLIENT then (c, pi, Inl XQC_EPROTO)
           else
             let supported_version_list = vn_versions [] (pi_bytes pi pos);
                 pi = pi\<lparr>pi_pos := pi_last pi\<rparr>;
                 current_wire_version =
                   (if conn_version c < XQC_VERSION_MAX then xqc_proto_version_value ! conn_version c else 0)
             in if xqc_uint32_list_find supported_version_list current_wire_version then (c, pi, Inr ())
                else ((XQC_CONN_ERR c TRA_VERSION_NEGOTIATION_ERROR)\<lparr>conn_state := XQC_CONN_STATE_CLOSED\<rparr>, pi,
                      Inl XQC_EVERSION_NEGOTIATION))"

definition xqc_conn_version_check :: "'a xqc_conn_hdr_scheme \<Rightarrow> u32 \<Rightarrow> 'a xqc_conn_hdr_scheme \<times> unit res" where
  "xqc_conn_version_check c version =
     (if conn_type c = XQC_CONN_TYPE_SERVER \<and> conn_version c = XQC_IDRAFT_INIT_VER then
        if \<not> xqc_uint32_list_find (support_version_list c) version then (c, Inl XQC_EPROTO)
        else case find (\<lambda>i. xqc_proto_version_value ! i = version) [XQC_IDRAFT_INIT_VER + 1..<XQC_IDRAFT_VER_NEGOTIATION] of
               Some i \<Rightarrow> (c\<lparr>conn_version := i\<rparr>, Inr ())
             | None \<Rightarrow> (c, Inl XQC_EPROTO)
      else (c, Inr ()))"

section \<open>Long headers\<close>

text \<open>The search for a connection identifier fills in its sequence number and its path.\<close>

definition search_pkt_cid :: "xqc_cid_set \<Rightarrow> xqc_cid \<Rightarrow> xqc_cid \<times> bool" where
  "search_pkt_cid cs cid =
     (case xqc_cid_set_search_cid cs cid of None \<Rightarrow> (cid, False) | Some (_, cid) \<Rightarrow> (cid, True))"

definition parse_long_cids :: "'a xqc_conn_hdr_scheme \<Rightarrow> 'b xqc_packet_in_hdr_scheme \<Rightarrow> nat \<Rightarrow> 'b xqc_packet_in_hdr_scheme \<times> nat res" where
  "parse_long_cids c pi pos =
     (let pend = pi_last pi;
          pi = pkt_set (\<lambda>p. p\<lparr>pkt_dcid := (pkt_dcid p)\<lparr>cid_len := pi_buf pi ! pos\<rparr>\<rparr>) pi;
          dl = unat (cid_len (pkt_dcid (pi_pkt pi)));
          pos = pos + 1
      in if XQC_BUFF_LEFT_SIZE pos pend < dl + 1 \<or> dl > XQC_MAX_CID_LEN then (pi, Inl XQC_EILLPKT)
         else
           let pi = pkt_set (\<lambda>p. p\<lparr>pkt_dcid := (pkt_dcid p)\<lparr>cid_path_id := XQC_INITIAL_PATH_ID,
                      cid_buf := buf_write (cid_buf (pkt_dcid p)) 0 (take dl (drop pos (pi_buf pi)))\<rparr>\<rparr>) pi;
               pos = pos + dl;
               pi = pkt_set (\<lambda>p. p\<lparr>pkt_scid := (pkt_scid p)\<lparr>cid_len := pi_buf pi ! pos\<rparr>\<rparr>) pi;
               sl = unat (cid_len (pkt_scid (pi_pkt pi)));
               pos = pos + 1
           in if XQC_BUFF_LEFT_SIZE pos pend < sl \<or> sl > XQC_MAX_CID_LEN then (pi, Inl XQC_EILLPKT)
              else
                let pi = pkt_set (\<lambda>p. p\<lparr>pkt_scid := (pkt_scid p)\<lparr>cid_path_id := XQC_INITIAL_PATH_ID,
                           cid_buf := buf_write (cid_buf (pkt_scid p)) 0 (take sl (drop pos (pi_buf pi)))\<rparr>\<rparr>) pi
                in (pi, Inr (pos + sl)))"

definition check_long_cids :: "'a xqc_conn_hdr_scheme \<Rightarrow> 'b xqc_packet_in_hdr_scheme \<Rightarrow> 'b xqc_packet_in_hdr_scheme \<times> bool" where
  "check_long_cids c pi =
     (let (dcid, found) = search_pkt_cid (conn_scid_set c) (pkt_dcid (pi_pkt pi));
          pi = pkt_set (\<lambda>p. p\<lparr>pkt_dcid := dcid\<rparr>) pi
      in if \<not> found then (pi, False)
         else let (scid, found) = search_pkt_cid (conn_dcid_set c) (pkt_scid (pi_pkt pi))
              in (pkt_set (\<lambda>p. p\<lparr>pkt_scid := scid\<rparr>) pi, found))"

definition long_packet_switch :: "'a retry_env \<Rightarrow> nat \<Rightarrow> 'a xqc_conn_hdr_scheme \<Rightarrow> 'b xqc_packet_in_hdr_scheme \<Rightarrow> ('a, 'b) hdr_result" where
  "long_packet_switch env type c pi =
     (if type = pkt_type_num XQC_PTYPE_INIT then xqc_packet_parse_initial c pi
      else if type = pkt_type_num XQC_PTYPE_0RTT then xqc_packet_parse_zero_rtt c pi
      else if type = pkt_type_num XQC_PTYPE_HSK then xqc_packet_parse_handshake c pi
      else if type = pkt_type_num XQC_PTYPE_RETRY then xqc_packet_parse_retry env c pi
      else if type = pkt_type_num XQC_PTYPE_VERSION_NEGOTIATION then xqc_packet_parse_version_negotiation c pi
      else (c, pi, Inl XQC_EILLPKT))"

definition xqc_packet_parse_long_header :: "'a retry_env \<Rightarrow> 'a xqc_conn_hdr_scheme \<Rightarrow> 'b xqc_packet_in_hdr_scheme \<Rightarrow> ('a, 'b) hdr_result" where
  "xqc_packet_parse_long_header env c pi =
     (let pos = pi_pos pi;
          pend = pi_last pi;
          pi = pi\<lparr>pi_path_id := XQC_INITIAL_PATH_ID\<rparr>
      in if XQC_BUFF_LEFT_SIZE pos pend < XQC_PACKET_LONG_HEADER_PREFIX_LENGTH + 2 then (c, pi, Inl XQC_EILLPKT)
         else
           let fixed_bit = (pi_buf pi ! pos) AND 0x40;
               type = XQC_PACKET_LONG_HEADER_GET_TYPE (pi_buf pi ! pos);
               pos = pos + 1;
               version = xqc_parse_uint32 (drop pos (pi_buf pi))
           in if version = 0 \<and> conn_type c = XQC_CONN_TYPE_SERVER then (c, pi, Inl XQC_EILLPKT)
              else
                let type = (if version = 0 then pkt_type_num XQC_PTYPE_VERSION_NEGOTIATION else type);
                    pos = pos + XQC_PACKET_VERSION_LENGTH
                in if type \<noteq> pkt_type_num XQC_PTYPE_VERSION_NEGOTIATION \<and> fixed_bit = 0 then (c, pi, Inl XQC_EILLPKT)
                   else case parse_long_cids c pi pos of
                     (pi, Inl e) \<Rightarrow> (c, pi, Inl e)
                   | (pi, Inr pos) \<Rightarrow>
                       let pi = pi\<lparr>pi_pos := pos\<rparr>;
                           (pi, cids_ok) =
                             (if type \<noteq> pkt_type_num XQC_PTYPE_INIT \<and> type \<noteq> pkt_type_num XQC_PTYPE_0RTT
                                 \<and> XQC_CONN_FLAG_DCID_OK AND conn_flag c \<noteq> 0
                              then check_long_cids c pi else (pi, True))
                       in if \<not> cids_ok then (c, pi, Inl XQC_EILLPKT)
                          else case xqc_conn_version_check c version of
                            (c, Inl _) \<Rightarrow>
                              (if conn_type c = XQC_CONN_TYPE_SERVER
                               then c\<lparr>conn_flag := conn_flag c OR XQC_CONN_FLAG_VERSION_NEGOTIATION\<rparr> else c,
                               pi, Inl XQC_EVERSION)
                          | (c, Inr _) \<Rightarrow>
                              long_packet_switch env type c pi)"

section \<open>Stateless reset\<close>

text \<open>\<open>hmac key msg\<close> is the digest of the library, or None when it fails; the random bytes are an argument.\<close>

definition xqc_gen_reset_token :: "(bytes \<Rightarrow> bytes \<Rightarrow> bytes option) \<Rightarrow> xqc_cid \<Rightarrow> nat \<Rightarrow> bytes \<Rightarrow> bytes" where
  "xqc_gen_reset_token hmac cid token_len key =
     (let out = (case hmac key (take (unat (cid_len cid)) (cid_buf cid)) of None \<Rightarrow> [] | Some d \<Rightarrow> d);
          n = min (length out) token_len
      in take n out @ replicate (token_len - n) 0)"

definition xqc_gen_reset_packet ::
    "(bytes \<Rightarrow> bytes \<Rightarrow> bytes option) \<Rightarrow> xqc_cid \<Rightarrow> bytes \<Rightarrow> nat \<Rightarrow> (nat \<Rightarrow> bytes) \<Rightarrow> bytes" where
  "xqc_gen_reset_packet hmac cid key max_len rand =
     (let unpredictable_len = max_len - XQC_RESET_TOKEN_LEN;
          buf = rand unpredictable_len;
          buf = buf[0 := (buf ! 0) AND 0x3f OR 0x40]
      in buf @ xqc_gen_reset_token hmac cid XQC_RESET_TOKEN_LEN key)"

definition xqc_packet_parse_stateless_reset :: "bytes \<Rightarrow> bytes res" where
  "xqc_packet_parse_stateless_reset buf =
     (if length buf < XQC_STATELESS_RESET_PKT_MIN_LEN then Inl XQC_EILLPKT
      else Inr (drop (length buf - XQC_STATELESS_RESET_TOKENLEN) buf))"

section \<open>What a successful parse leaves behind\<close>

lemma pkt_set_simps [simp]:
  "pi_pkt (pkt_set f pi) = f (pi_pkt pi)" "pi_buf (pkt_set f pi) = pi_buf pi" "pi_pos (pkt_set f pi) = pi_pos pi"
  "pi_last (pkt_set f pi) = pi_last pi" "pi_datagram_size (pkt_set f pi) = pi_datagram_size pi"
  "pi_path_id (pkt_set f pi) = pi_path_id pi"
  by (simp_all add: pkt_set_def)

lemma pi_bytes_set [simp]: "pi_bytes (pkt_set f pi) pos = pi_bytes pi pos"
  by (simp add: pi_bytes_def)

lemma left_size: "XQC_BUFF_LEFT_SIZE pos pend = pend - pos"
  by (simp add: XQC_BUFF_LEFT_SIZE_def)

text \<open>The numbered part of a packet: packet number and payload lie in the packet, and the packet in the datagram.\<close>

definition numbered_ok :: "'b xqc_packet_in_hdr_scheme \<Rightarrow> 'b xqc_packet_in_hdr_scheme \<Rightarrow> bool" where
  "numbered_ok pi pi' \<longleftrightarrow> pi_buf pi' = pi_buf pi \<and> pi_pos pi < pkt_num_offset (pi_pkt pi')
     \<and> pkt_num_offset (pi_pkt pi') + unat (pkt_length (pi_pkt pi')) = pi_last pi' \<and> pi_last pi' \<le> pi_last pi"

lemma parse_length_ok:
  assumes "parse_length c pi pos = (c', pi', Inr u)"
  shows "c' = c \<and> pi_buf pi' = pi_buf pi \<and> pi_pos pi' = pi_pos pi \<and> pos < pkt_num_offset (pi_pkt pi')
    \<and> pkt_num_offset (pi_pkt pi') + unat (pkt_length (pi_pkt pi')) = pi_last pi' \<and> pi_last pi' \<le> pi_last pi
    \<and> pkt_type (pi_pkt pi') = pkt_type (pi_pkt pi) \<and> pkt_dcid (pi_pkt pi') = pkt_dcid (pi_pkt pi)"
proof -
  obtain sz len where rd: "xqc_vint_read (pi_bytes pi pos) = Some (sz, len)"
    using assms by (auto simp: parse_length_def Let_def split: option.splits)
  with assms have eq: "pi' = pkt_set (\<lambda>p. p\<lparr>pkt_length := len, pkt_num_offset := pos + sz\<rparr>) (pi\<lparr>pi_last := pos + sz + unat len\<rparr>)"
    "c' = c" "\<not> pi_last pi - pos < sz + unat len"
    by (auto simp: parse_length_def Let_def left_size split: if_splits)
  from rd have "0 < sz" using vint_read_length by blast
  with eq show ?thesis by auto
qed

lemma parse_initial_ok:
  assumes "xqc_packet_parse_initial c pi = (c', pi', Inr u)"
  shows "numbered_ok pi pi' \<and> pkt_type (pi_pkt pi') = XQC_PTYPE_INIT \<and> pkt_dcid (pi_pkt pi') = pkt_dcid (pi_pkt pi)"
proof -
  let ?pi = "pkt_set (\<lambda>p. p\<lparr>pkt_type := XQC_PTYPE_INIT, pkt_pns := XQC_PNS_INIT\<rparr>) pi"
  obtain sz tl c1 where rd: "xqc_vint_read (pi_bytes pi (pi_pos pi)) = Some (sz, tl)"
    and p: "parse_length c1 ?pi (pi_pos pi + sz + unat tl) = (c', pi', Inr u)"
    using assms by (auto simp: xqc_packet_parse_initial_def Let_def split: option.splits if_splits)
  from rd have "0 < sz" using vint_read_length by blast
  with parse_length_ok [OF p] show ?thesis by (auto simp: numbered_ok_def)
qed

lemma parse_zero_rtt_ok:
  assumes "xqc_packet_parse_zero_rtt c pi = (c', pi', Inr u)"
  shows "numbered_ok pi pi' \<and> pkt_type (pi_pkt pi') = XQC_PTYPE_0RTT \<and> pkt_dcid (pi_pkt pi') = pkt_dcid (pi_pkt pi)"
  using parse_length_ok [OF assms [unfolded xqc_packet_parse_zero_rtt_def Let_def]] by (auto simp: numbered_ok_def)

lemma parse_handshake_ok:
  assumes "xqc_packet_parse_handshake c pi = (c', pi', Inr u)"
  shows "numbered_ok pi pi' \<and> pkt_type (pi_pkt pi') = XQC_PTYPE_HSK \<and> pkt_dcid (pi_pkt pi') = pkt_dcid (pi_pkt pi)"
  using parse_length_ok [OF assms [unfolded xqc_packet_parse_handshake_def Let_def]] by (auto simp: numbered_ok_def)

lemma parse_short_header_ok:
  assumes "xqc_packet_parse_short_header c pi = (c', pi', Inr u)" and "pi_last pi < 2 ^ 64"
  shows "numbered_ok pi pi' \<and> pkt_type (pi_pkt pi') = XQC_PTYPE_SHORT_HEADER \<and> pi_last pi' = pi_last pi"
  using assms
  by (auto simp: xqc_packet_parse_short_header_def Let_def numbered_ok_def left_size unsigned_of_nat take_bit_nat_eq_self
      simp del: of_nat_diff of_nat_add of_nat_Suc split: if_splits prod.splits sum.splits)

lemma parse_retry_ok:
  assumes "xqc_packet_parse_retry env c pi = (c', pi', Inr u)" and "pi_pos pi \<le> pi_last pi"
  shows "pi_buf pi' = pi_buf pi \<and> pi_last pi' \<le> pi_last pi \<and> pi_pos pi \<le> pi_last pi' \<and> pkt_type (pi_pkt pi') = XQC_PTYPE_RETRY
    \<and> pkt_dcid (pi_pkt pi') = pkt_dcid (pi_pkt pi)"
  using assms
  by (auto simp: xqc_packet_parse_retry_def Let_def left_size XQC_RETRY_INTEGRITY_TAG_LEN_def
      split: if_splits prod.splits sum.splits)

lemma parse_vn_ok:
  assumes "xqc_packet_parse_version_negotiation c pi = (c', pi', Inr u)"
  shows "pi_buf pi' = pi_buf pi \<and> pi_last pi' = pi_last pi \<and> pi_pos pi < pi_last pi' \<and> pkt_type (pi_pkt pi') = XQC_PTYPE_VERSION_NEGOTIATION
    \<and> pkt_dcid (pi_pkt pi') = pkt_dcid (pi_pkt pi)"
  using assms
  by (auto simp: xqc_packet_parse_version_negotiation_def Let_def left_size XQC_PACKET_VERSION_LENGTH_def split: if_splits)

lemma parse_long_cids_ok:
  assumes "parse_long_cids c pi pos = (pi', Inr pos')"
  shows "pi_buf pi' = pi_buf pi \<and> pi_last pi' = pi_last pi \<and> pi_pos pi' = pi_pos pi \<and> pi_datagram_size pi' = pi_datagram_size pi
    \<and> pos + 2 \<le> pos' \<and> pos' \<le> pi_last pi"
  using assms by (auto simp: parse_long_cids_def Let_def left_size split: if_splits)

lemma check_long_cids_frame:
  "check_long_cids c pi = (pi', ok) \<Longrightarrow>
   pi_buf pi' = pi_buf pi \<and> pi_last pi' = pi_last pi \<and> pi_pos pi' = pi_pos pi \<and> pi_datagram_size pi' = pi_datagram_size pi"
  by (auto simp: check_long_cids_def Let_def split: if_splits prod.splits)

text \<open>The header parser in steps: prefix, connection identifiers, version, and the part of the packet type.\<close>

definition long_type :: "'b xqc_packet_in_hdr_scheme \<Rightarrow> nat" where
  "long_type pi = (if xqc_parse_uint32 (drop (pi_pos pi + 1) (pi_buf pi)) = 0 then pkt_type_num XQC_PTYPE_VERSION_NEGOTIATION
     else XQC_PACKET_LONG_HEADER_GET_TYPE (pi_buf pi ! pi_pos pi))"

lemma parse_long_header_steps:
  "xqc_packet_parse_long_header env c pi =
     (let pi0 = pi\<lparr>pi_path_id := XQC_INITIAL_PATH_ID\<rparr>;
          version = xqc_parse_uint32 (drop (pi_pos pi + 1) (pi_buf pi))
      in if pi_last pi - pi_pos pi < 7 then (c, pi0, Inl XQC_EILLPKT)
         else if version = 0 \<and> conn_type c = XQC_CONN_TYPE_SERVER then (c, pi0, Inl XQC_EILLPKT)
         else if long_type pi \<noteq> 5 \<and> (pi_buf pi ! pi_pos pi) AND 0x40 = 0 then (c, pi0, Inl XQC_EILLPKT)
         else case parse_long_cids c pi0 (pi_pos pi + 5) of
            (pi1, Inl e) \<Rightarrow> (c, pi1, Inl e)
          | (pi1, Inr pos) \<Rightarrow>
              (case (if long_type pi \<noteq> 0 \<and> long_type pi \<noteq> 1 \<and> XQC_CONN_FLAG_DCID_OK AND conn_flag c \<noteq> 0
                     then check_long_cids c (pi1\<lparr>pi_pos := pos\<rparr>) else (pi1\<lparr>pi_pos := pos\<rparr>, True)) of
                 (pi2, ok) \<Rightarrow>
                   if \<not> ok then (c, pi2, Inl XQC_EILLPKT)
                   else case xqc_conn_version_check c version of
                      (c, Inl _) \<Rightarrow>
                        (if conn_type c = XQC_CONN_TYPE_SERVER
                         then c\<lparr>conn_flag := conn_flag c OR XQC_CONN_FLAG_VERSION_NEGOTIATION\<rparr> else c, pi2, Inl XQC_EVERSION)
                    | (c, Inr _) \<Rightarrow> long_packet_switch env (long_type pi) c pi2))"
proof -
  have b: "pi_buf (pi\<lparr>pi_path_id := x\<rparr>) = pi_buf pi" "pi_last (pi\<lparr>pi_path_id := x\<rparr>) = pi_last pi" for x by simp_all
  have n: "pi_pos pi + 1 + 4 = pi_pos pi + 5" "1 + 4 + 2 = (7::nat)" by simp_all
  show ?thesis
    unfolding xqc_packet_parse_long_header_def Let_def left_size XQC_PACKET_LONG_HEADER_PREFIX_LENGTH_def
      XQC_PACKET_VERSION_LENGTH_def long_type_def b n pkt_type_num.simps ..
qed

lemma parse_long_headerE:
  assumes "xqc_packet_parse_long_header env c pi = (c', pi', Inr u)"
  obtains pi1 pos pi2 c1 where
    "parse_long_cids c (pi\<lparr>pi_path_id := XQC_INITIAL_PATH_ID\<rparr>) (pi_pos pi + 5) = (pi1, Inr pos)"
    and "pi2 = pi1\<lparr>pi_pos := pos\<rparr> \<or> check_long_cids c (pi1\<lparr>pi_pos := pos\<rparr>) = (pi2, True)"
    and "conn_type c1 = conn_type c"
    and "long_packet_switch env (long_type pi) c1 pi2 = (c', pi', Inr u)"
proof -
  have ver: "xqc_conn_version_check c v = (c1, r) \<Longrightarrow> conn_type c1 = conn_type c" for v c1 r
    by (auto simp: xqc_conn_version_check_def split: if_splits option.splits)
  show thesis
    using assms that unfolding parse_long_header_steps Let_def
    by (auto split: if_splits prod.splits sum.splits dest: ver)
qed

lemma long_packet_switch_ok:
  assumes "long_packet_switch env t c pi = (c', pi', Inr u)" and "pi_pos pi \<le> pi_last pi"
  shows "pi_buf pi' = pi_buf pi \<and> pi_last pi' \<le> pi_last pi \<and> pi_pos pi \<le> pi_last pi'
    \<and> (xqc_has_packet_number (pkt_type (pi_pkt pi')) \<longrightarrow> numbered_ok pi pi')"
proof -
  have n: "numbered_ok pi pi' \<Longrightarrow> ?thesis" by (auto simp: numbered_ok_def)
  from assms(1) consider "xqc_packet_parse_initial c pi = (c', pi', Inr u)" | "xqc_packet_parse_zero_rtt c pi = (c', pi', Inr u)"
    | "xqc_packet_parse_handshake c pi = (c', pi', Inr u)" | "xqc_packet_parse_retry env c pi = (c', pi', Inr u)"
    | "xqc_packet_parse_version_negotiation c pi = (c', pi', Inr u)"
    by (simp add: long_packet_switch_def split: if_splits)
  then show ?thesis
  proof cases
    case 4
    from parse_retry_ok [OF this assms(2)] show ?thesis by (simp add: xqc_has_packet_number_def)
  next
    case 5
    from parse_vn_ok [OF this] show ?thesis by (simp add: xqc_has_packet_number_def)
  next
    case 1
    from parse_initial_ok [OF this] show ?thesis by (intro n) simp
  next
    case 2
    from parse_zero_rtt_ok [OF this] show ?thesis by (intro n) simp
  next
    case 3
    from parse_handshake_ok [OF this] show ?thesis by (intro n) simp
  qed
qed

lemma parse_long_header_ok:
  assumes "xqc_packet_parse_long_header env c pi = (c', pi', Inr u)"
  shows "pi_buf pi' = pi_buf pi \<and> pi_last pi' \<le> pi_last pi \<and> pi_pos pi + 7 \<le> pi_last pi'
    \<and> (xqc_has_packet_number (pkt_type (pi_pkt pi')) \<longrightarrow> numbered_ok pi pi')"
proof -
  obtain pi1 pos pi2 c1 where
    p: "parse_long_cids c (pi\<lparr>pi_path_id := XQC_INITIAL_PATH_ID\<rparr>) (pi_pos pi + 5) = (pi1, Inr pos)"
    and o: "pi2 = pi1\<lparr>pi_pos := pos\<rparr> \<or> check_long_cids c (pi1\<lparr>pi_pos := pos\<rparr>) = (pi2, True)"
    and s: "long_packet_switch env (long_type pi) c1 pi2 = (c', pi', Inr u)"
    using parse_long_headerE [OF assms] by metis
  note pp = parse_long_cids_ok [OF p]
  have pi2: "pi_buf pi2 = pi_buf pi" "pi_last pi2 = pi_last pi" "pi_pos pi2 = pos"
    using o pp by (auto dest: check_long_cids_frame)
  with pp have "pi_pos pi2 \<le> pi_last pi2" by simp
  from long_packet_switch_ok [OF s this] pi2 pp show ?thesis by (auto simp: numbered_ok_def)
qed

lemma be_bytes_4: "be_bytes 4 w = [ucast (drop_bit 24 w), ucast (drop_bit 16 w), ucast (drop_bit 8 w), ucast w]"
proof -
  have "be_bytes (Suc (Suc (Suc (Suc 0)))) w = [ucast (drop_bit 24 w), ucast (drop_bit 16 w), ucast (drop_bit 8 w), ucast w]" by simp
  moreover have "(4::nat) = Suc (Suc (Suc (Suc 0)))" by simp
  ultimately show ?thesis by (simp only:)
qed

lemma parse_uint32_be_bytes: "xqc_parse_uint32 (be_bytes 4 (ucast ver) @ r) = ver"
proof -
  have "push_bit 24 (ucast (ucast (drop_bit 24 (ucast ver :: u64)) :: u8)) OR push_bit 16 (ucast (ucast (drop_bit 16 (ucast ver :: u64)) :: u8))
    OR push_bit 8 (ucast (ucast (drop_bit 8 (ucast ver :: u64)) :: u8)) OR ucast (ucast (ucast ver :: u64) :: u8) = ver"
    by (rule bit_eqI) (auto simp: bit_simps not_less dest: bit_imp_le_length)
  then show ?thesis by (simp only: xqc_parse_uint32_def be_bytes_4) (simp add: numeral_2_eq_2 numeral_3_eq_3)
qed

section \<open>The bytes of a header\<close>

lemma gen_short_bytes:
  assumes wf: "po_wf po" and b: "bits \<le> 3"
    and gen: "xqc_gen_short_packet_header po dcid (length dcid) bits pn kp = (po', Inr n)"
  shows "n = 1 + length dcid + (bits + 1)" and "po_ppktno po' = 1 + length dcid" and "po_payload po' = n"
    and "po_pkt_type po' = XQC_PTYPE_SHORT_HEADER" and "length (po_buf po') = length (po_buf po)" and "n \<le> length (po_buf po)"
    and "take n (po_buf po') = (0x40 OR 0x20 OR push_bit 2 (if kp \<noteq> 0 then 1 else 0) OR of_nat bits) # dcid @ be_bytes (bits + 1) pn"
proof -
  note len = length_write_packet_number [OF b, of pn]
  from gen have fit: "1 + length dcid + (bits + 1) \<le> xqc_get_po_remained_size po"
    by (auto simp: xqc_gen_short_packet_header_def Let_def xqc_packet_number_bits2len_def split: if_splits)
  then have room: "1 + length dcid + (bits + 1) \<le> length (po_buf po)"
    using po_remained_le [OF wf fit] by simp
  let ?h = "0x40 OR push_bit 5 1 OR push_bit 3 0 OR push_bit 2 (if kp \<noteq> 0 then 1 else 0) OR of_nat bits :: u8"
  let ?b1 = "buf_write (po_buf po) 0 [?h]"
  let ?b2 = "if length dcid \<noteq> 0 then buf_write ?b1 1 (take (length dcid) dcid) else ?b1"
  have eq: "po' = po\<lparr>po_pkt_type := XQC_PTYPE_SHORT_HEADER, po_buf := buf_write ?b2 (1 + length dcid) (xqc_write_packet_number pn bits),
      po_ppktno := 1 + length dcid, po_payload := 1 + length dcid + length (xqc_write_packet_number pn bits)\<rparr>"
    and n: "n = 1 + length dcid + (bits + 1)"
    using gen fit by (auto simp: xqc_gen_short_packet_header_def Let_def xqc_packet_number_bits2len_def)
  have b2: "?b2 = buf_write (po_buf po) 0 (?h # dcid)"
  proof (cases dcid)
    case (Cons d ds)
    have "buf_write (buf_write (po_buf po) 0 [?h]) (0 + length [?h]) dcid = buf_write (po_buf po) 0 ([?h] @ dcid)"
      by (rule buf_write_append) (use room in simp)
    with Cons show ?thesis by simp
  qed simp
  have b3: "buf_write ?b2 (1 + length dcid) (xqc_write_packet_number pn bits) = buf_write (po_buf po) 0 ((?h # dcid) @ xqc_write_packet_number pn bits)"
    unfolding b2 using buf_write_append [of 0 "?h # dcid" "po_buf po"] room by simp
  show "n = 1 + length dcid + (bits + 1)" by (rule n)
  show "po_ppktno po' = 1 + length dcid" "po_payload po' = n" "po_pkt_type po' = XQC_PTYPE_SHORT_HEADER"
    using eq n len by simp_all
  show "n \<le> length (po_buf po)" using room n by simp
  show "length (po_buf po') = length (po_buf po)" unfolding eq using room len by (simp add: b3)
  have "take n (buf_write (po_buf po) 0 ((?h # dcid) @ xqc_write_packet_number pn bits)) = (?h # dcid) @ xqc_write_packet_number pn bits"
    using n len by (simp add: buf_write_def)
  then show "take n (po_buf po') = (0x40 OR 0x20 OR push_bit 2 (if kp \<noteq> 0 then 1 else 0) OR of_nat bits) # dcid @ be_bytes (bits + 1) pn"
    unfolding eq write_packet_number_be [OF b, symmetric] by (simp add: b3 [simplified])
qed

lemma gen_long_bytes:
  fixes po :: "'a xqc_packet_out_hdr_scheme"
  assumes wf: "po_wf po" and b: "bits \<le> 3" and tl: "length token < 2 ^ 62"
    and gen: "xqc_gen_long_packet_header po dcid (length dcid) scid (length scid) token (length token) ver bits = (po', Inr n)"
  defines "front \<equiv> long_header_front (po_pkt_type po) bits ver dcid (length dcid) scid (length scid) token (length token)"
  shows "n = length front + 2 + (bits + 1)" and "po_ppktno po' = length front + 2" and "po_payload po' = n"
    and "po_pkt_type po' = po_pkt_type po" and "length (po_buf po') = length (po_buf po)" and "n \<le> length (po_buf po)"
    and "xqc_check_proto_version_valid ver" and "3 \<le> length scid"
    and "take n (po_buf po') = front @ take 2 (drop (length front) (po_buf po)) @ be_bytes (bits + 1) (po_pkt_num po)"
proof -
  note len = length_write_packet_number [OF b, of "po_pkt_num po"]
  let ?need = "xqc_long_packet_header_size (length dcid) (length scid) (length token) bits (po_pkt_type po)"
  from gen have c: "xqc_check_proto_version_valid ver" "?need \<le> xqc_get_po_remained_size po" "3 \<le> length scid"
    by (auto simp: xqc_gen_long_packet_header_def Let_def split: if_splits)
  have "ver < 3" using c(1) by (simp add: xqc_check_proto_version_valid_def XQC_IDRAFT_VER_NEGOTIATION_def)
  then consider "ver = 0" | "ver = 1" | "ver = 2" by linarith
  then have vf: "length (xqc_proto_version_field ! ver) = 4" by cases (simp_all add: xqc_proto_version_field_def)
  have lf: "?need = length front + 2 + (bits + 1)"
    by (simp add: front_def long_header_front_def xqc_long_packet_header_size_def vf XQC_LONG_HEADER_LENGTH_BYTE_def
        xqc_packet_number_bits2len_def xqc_vint_len_by_val_def vint_bytes_def [symmetric] length_vint_bytes)
      (simp add: xqc_vint_len_def)
  have room: "length front + 2 + (bits + 1) \<le> length (po_buf po)"
    using po_remained_le [OF wf c(2)] unfolding lf by simp
  let ?p = "xqc_write_packet_number (po_pkt_num po) bits"
  have eq: "po' = po\<lparr>po_buf := buf_write (buf_write (po_buf po) 0 front) (length front + 2) ?p,
      po_ppktno := length front + 2, po_payload := length front + 2 + length ?p\<rparr>"
    and n: "n = length front + 2 + length ?p"
    using gen c unfolding xqc_gen_long_packet_header_def Let_def front_def XQC_LONG_HEADER_LENGTH_BYTE_def by auto
  show "n = length front + 2 + (bits + 1)" "n \<le> length (po_buf po)" using n len room by simp_all
  show "po_ppktno po' = length front + 2" "po_payload po' = n" "po_pkt_type po' = po_pkt_type po" using eq n by simp_all
  show "length (po_buf po') = length (po_buf po)" using room len by (simp add: eq)
  show "xqc_check_proto_version_valid ver" "3 \<le> length scid" by (rule c)+
  have 1: "take (length front + 2) (buf_write (po_buf po) 0 front) = front @ take 2 (drop (length front) (po_buf po))"
    by (simp add: buf_write_def)
  have "take n (po_buf po') = take (length front + 2) (buf_write (po_buf po) 0 front) @ ?p"
    unfolding eq n using room by (simp add: buf_write_def numeral_2_eq_2)
  then show "take n (po_buf po') = front @ take 2 (drop (length front) (po_buf po)) @ be_bytes (bits + 1) (po_pkt_num po)"
    by (simp only: 1 write_packet_number_be [OF b] append_assoc)
qed

section \<open>Reading what was written\<close>

lemma unat_small: "n < 256 \<Longrightarrow> unat (of_nat n :: u8) = n"
  by (simp add: unsigned_of_nat take_bit_nat_eq_self)

lemma set_bytes_append: "n = length bs \<Longrightarrow> n < 256 \<Longrightarrow> xqc_cid_set_bytes cid (bs @ rest) (of_nat n) = xqc_cid_set_bytes cid bs (of_nat n)"
  by (simp add: xqc_cid_set_bytes_def Let_def unat_small)

lemma parse_short_bytes:
  assumes buf: "pi_buf pi = fb # dcid @ rest" and pos: "pi_pos pi = 0" "pi_last pi = length (pi_buf pi)"
    and fb: "fb AND 0x40 \<noteq> 0" and len: "cid_len (user_scid (conn_scid_set c)) = of_nat (length dcid)" "length dcid < 256"
    and chk: "xqc_conn_check_dcid (conn_scid_set c) (xqc_cid_set_bytes (pkt_dcid (pi_pkt pi)) dcid (of_nat (length dcid))) = (cs, d, Inr ())"
  shows "xqc_packet_parse_short_header c pi =
    (c\<lparr>conn_scid_set := cs\<rparr>,
     pi\<lparr>pi_path_id := cid_path_id d,
        pi_pkt := (pi_pkt pi)\<lparr>pkt_type := XQC_PTYPE_SHORT_HEADER, pkt_pns := XQC_PNS_APP_DATA, pkt_dcid := d,
          pkt_length := of_nat (length rest), pkt_num_offset := 1 + length dcid\<rparr>\<rparr>, Inr ())"
proof -
  have u: "unat (cid_len (user_scid (conn_scid_set c))) = length dcid" using len by (simp add: unat_small)
  have d: "xqc_cid_set_bytes x (drop 1 (pi_buf pi)) (of_nat (length dcid)) = xqc_cid_set_bytes x dcid (of_nat (length dcid))" for x
    using set_bytes_append [OF refl len(2)] by (simp add: buf)
  show ?thesis
    using fb chk unfolding xqc_packet_parse_short_header_def Let_def pos pkt_set_simps left_size len(1) d [unfolded One_nat_def] d
    by (simp add: buf len u unat_small pkt_set_def pos(2) d [unfolded buf, simplified])
qed

lemma parse_long_cids_bytes:
  assumes buf: "pi_buf pi = pre @ of_nat (length dcid) # dcid @ of_nat (length scid) # scid @ rest" and last: "pi_last pi = length (pi_buf pi)"
    and len: "length dcid \<le> XQC_MAX_CID_LEN" "length scid \<le> XQC_MAX_CID_LEN"
  shows "parse_long_cids c pi (length pre) =
    (pkt_set (\<lambda>p. p\<lparr>pkt_dcid := (pkt_dcid p)\<lparr>cid_len := of_nat (length dcid), cid_path_id := XQC_INITIAL_PATH_ID,
                       cid_buf := buf_write (cid_buf (pkt_dcid p)) 0 dcid\<rparr>,
                     pkt_scid := (pkt_scid p)\<lparr>cid_len := of_nat (length scid), cid_path_id := XQC_INITIAL_PATH_ID,
                       cid_buf := buf_write (cid_buf (pkt_scid p)) 0 scid\<rparr>\<rparr>) pi,
     Inr (length pre + 2 + length dcid + length scid))"
proof -
  have u: "unat (of_nat (length dcid) :: u8) = length dcid" "unat (of_nat (length scid) :: u8) = length scid"
    using len by (simp_all add: unat_small XQC_MAX_CID_LEN_def)
  have n: "pi_buf pi ! length pre = of_nat (length dcid)" "drop (length pre + 1) (pi_buf pi) = dcid @ of_nat (length scid) # scid @ rest"
    "pi_buf pi ! (length pre + 1 + length dcid) = of_nat (length scid)"
    "drop (length pre + 1 + length dcid + 1) (pi_buf pi) = scid @ rest"
    by (simp_all add: buf nth_append)
  have l: "\<not> pi_last pi - (length pre + 1) < length dcid + 1" "\<not> pi_last pi - (length pre + 1 + length dcid + 1) < length scid"
    by (simp_all add: last buf)
  show ?thesis
    unfolding parse_long_cids_def Let_def pkt_set_simps left_size n
    using l len by (simp add: u n [simplified] pkt_set_def)
qed

lemma parse_length_bytes:
  assumes buf: "pi_buf pi = pre @ xqc_vint_write (of_nat (length body)) 1 2 @ body @ tail" and last: "pi_last pi = length (pi_buf pi)"
    and len: "length body < 2 ^ 14"
  shows "parse_length c pi (length pre) =
    (c, pi\<lparr>pi_last := length pre + 2 + length body,
           pi_pkt := (pi_pkt pi)\<lparr>pkt_length := of_nat (length body), pkt_num_offset := length pre + 2\<rparr>\<rparr>, Inr ())"
proof -
  let ?l = "of_nat (length body) :: u64"
  have u: "unat ?l = length body" using len by (simp add: unsigned_of_nat take_bit_nat_eq_self)
  then have "take_bit (8 * 2 ^ 1 - 2) ?l = ?l" using len by (intro take_bit_self) simp
  from vint_read_write [OF _ this] have rd: "xqc_vint_read (xqc_vint_write ?l 1 2 @ r) = Some (2, ?l)" for r
    by (simp add: xqc_vint_len_def)
  have "pi_bytes pi (length pre) = xqc_vint_write ?l 1 2 @ body @ tail" by (simp add: pi_bytes_def buf last)
  with rd have r: "xqc_vint_read (pi_bytes pi (length pre)) = Some (2, ?l)" by simp
  have w: "length (xqc_vint_write ?l 1 2) = 2" by (simp add: xqc_vint_write_def Let_def)
  have l: "pi_last pi = length pre + 2 + length body + length tail" unfolding last buf using w by simp
  show ?thesis unfolding parse_length_def Let_def r option.case prod.case left_size pkt_set_simps
    using l by (simp add: u pkt_set_def)
qed

lemma parse_initial_bytes:
  assumes buf: "pi_buf pi = pre @ vint_bytes (of_nat (length token)) @ token @ xqc_vint_write (of_nat (length body)) 1 2 @ body @ tail"
    and pos: "pi_pos pi = length pre" "pi_last pi = length (pi_buf pi)"
    and len: "length body < 2 ^ 14" "length token \<le> XQC_MAX_TOKEN_LEN"
    and size: "conn_type c = XQC_CONN_TYPE_SERVER \<Longrightarrow> XQC_PACKET_INITIAL_MIN_LENGTH \<le> pi_datagram_size pi"
  defines "off \<equiv> length pre + length (vint_bytes (of_nat (length token))) + length token"
  shows "xqc_packet_parse_initial c pi =
    (if conn_type c = XQC_CONN_TYPE_SERVER
     then c\<lparr>conn_token := buf_write (conn_token c) 0 token, conn_token_len := length token\<rparr> else c,
     pi\<lparr>pi_last := off + 2 + length body,
        pi_pkt := (pi_pkt pi)\<lparr>pkt_type := XQC_PTYPE_INIT, pkt_pns := XQC_PNS_INIT,
          pkt_length := of_nat (length body), pkt_num_offset := off + 2\<rparr>\<rparr>, Inr ())"
proof -
  let ?t = "of_nat (length token) :: u64"
  let ?pi = "pkt_set (\<lambda>p. p\<lparr>pkt_type := XQC_PTYPE_INIT, pkt_pns := XQC_PNS_INIT\<rparr>) pi"
  have u: "unat ?t = length token" using len(2) by (simp add: XQC_MAX_TOKEN_LEN_def unsigned_of_nat take_bit_nat_eq_self)
  then have "?t \<le> XQC_VINT_MAX" using len(2) by (simp add: unat_VINT_MAX XQC_MAX_TOKEN_LEN_def)
  then have rd: "xqc_vint_read (vint_bytes ?t @ r) = Some (length (vint_bytes ?t), ?t)" for r
    using vint_read_bytes by (simp add: length_vint_bytes)
  have "pi_bytes pi (pi_pos pi) = vint_bytes ?t @ token @ xqc_vint_write (of_nat (length body)) 1 2 @ body @ tail"
    by (simp add: pi_bytes_def buf pos)
  with rd have r: "xqc_vint_read (pi_bytes pi (pi_pos pi)) = Some (length (vint_bytes ?t), ?t)" by simp
  have tk: "take (length token) (drop (length pre + length (vint_bytes ?t)) (pi_buf pi)) = token" by (simp add: buf)
  have pl: "parse_length d ?pi (length (pre @ vint_bytes ?t @ token)) =
    (d, ?pi\<lparr>pi_last := length (pre @ vint_bytes ?t @ token) + 2 + length body,
        pi_pkt := (pi_pkt ?pi)\<lparr>pkt_length := of_nat (length body), pkt_num_offset := length (pre @ vint_bytes ?t @ token) + 2\<rparr>\<rparr>, Inr ())" for d
    by (rule parse_length_bytes [OF _ _ len(1), where tail = tail]) (simp_all add: buf pos)
  have l: "\<not> pi_last pi - pi_pos pi < length (vint_bytes ?t) + length token" by (simp add: pos buf)
  have off: "length pre + length (vint_bytes ?t) + length token = length (pre @ vint_bytes ?t @ token)" by simp
  show ?thesis
    unfolding xqc_packet_parse_initial_def Let_def pkt_set_simps pi_bytes_set r option.case prod.case left_size u
    using l len(2) size unfolding pos(1) off pl off_def by (auto simp: tk pkt_set_def not_less)
qed

text \<open>The fields of a long header behind its first byte.\<close>

definition long_fields :: "xqc_pkt_type \<Rightarrow> nat \<Rightarrow> bytes \<Rightarrow> bytes \<Rightarrow> bytes \<Rightarrow> bytes" where
  "long_fields t ver dcid scid token = xqc_proto_version_field ! ver @ of_nat (length dcid) # dcid @ of_nat (length scid) # scid
     @ (if t = XQC_PTYPE_INIT then vint_bytes (of_nat (length token)) @ token else [])"

lemma long_header_front_eq:
  "long_header_front t bits ver dcid (length dcid) scid (length scid) token (length token) =
     (0xC0 OR push_bit 4 (of_nat (pkt_type_num t)) OR of_nat bits) # long_fields t ver dcid scid token"
  by (simp add: long_header_front_def long_fields_def vint_bytes_def)

lemma version_valid_cases:
  assumes "xqc_check_proto_version_valid ver"
  obtains "ver = 1" | "ver = 2"
  using assms by (fastforce simp: xqc_check_proto_version_valid_def XQC_IDRAFT_VER_NEGOTIATION_def XQC_IDRAFT_INIT_VER_def)

lemma version_wire:
  assumes "xqc_check_proto_version_valid ver"
  shows "length (xqc_proto_version_field ! ver) = 4"
    and "xqc_parse_uint32 (xqc_proto_version_field ! ver @ rest) = xqc_proto_version_value ! ver"
    and "xqc_proto_version_value ! ver \<noteq> 0"
  using assms
  by (rule version_valid_cases; simp add: xqc_proto_version_field_def xqc_proto_version_value_def xqc_parse_uint32_def)+

definition cid_holds :: "xqc_cid \<Rightarrow> bytes \<Rightarrow> bool" where
  "cid_holds cid bs \<longleftrightarrow> cid_len cid = of_nat (length bs) \<and> take (length bs) (cid_buf cid) = bs"

lemma search_pkt_cid_holds: "cid_holds (fst (search_pkt_cid cs cid)) bs = cid_holds cid bs"
proof -
  have "search_sets cid ss = Some (p, d) \<Longrightarrow> cid_holds d bs = cid_holds cid bs" for ss p d
    by (induction ss) (auto simp: cid_holds_def cid_found_def split: option.splits)
  then show ?thesis by (auto simp: search_pkt_cid_def xqc_cid_set_search_cid_def split: option.splits)
qed

lemma check_long_cids_holds:
  assumes "check_long_cids c pi = (pi', ok)"
  shows "\<exists>d s. pi' = pkt_set (\<lambda>p. p\<lparr>pkt_dcid := d, pkt_scid := s\<rparr>) pi \<and> cid_holds d = cid_holds (pkt_dcid (pi_pkt pi)) \<and> cid_holds s = cid_holds (pkt_scid (pi_pkt pi))"
proof -
  obtain d f where d: "search_pkt_cid (conn_scid_set c) (pkt_dcid (pi_pkt pi)) = (d, f)" by fastforce
  obtain s g where s: "search_pkt_cid (conn_dcid_set c) (pkt_scid (pi_pkt pi)) = (s, g)" by fastforce
  have "cid_holds d = cid_holds (pkt_dcid (pi_pkt pi))" "cid_holds s = cid_holds (pkt_scid (pi_pkt pi))"
    using search_pkt_cid_holds [of "conn_scid_set c" "pkt_dcid (pi_pkt pi)"] search_pkt_cid_holds [of "conn_dcid_set c" "pkt_scid (pi_pkt pi)"] d s
    by (simp_all add: fun_eq_iff)
  moreover have "pi' = pkt_set (\<lambda>p. p\<lparr>pkt_dcid := d, pkt_scid := if f then s else pkt_scid (pi_pkt pi)\<rparr>) pi"
    using assms d s by (auto simp: check_long_cids_def pkt_set_def split: if_splits)
  ultimately show ?thesis by (metis (full_types))
qed


lemma check_cids_step:
  assumes "chk \<Longrightarrow> snd (check_long_cids c pi)" and "cid_holds (pkt_dcid (pi_pkt pi)) dcid" and "cid_holds (pkt_scid (pi_pkt pi)) scid"
  shows "\<exists>d s. (if chk then check_long_cids c pi else (pi, True)) = (pkt_set (\<lambda>p. p\<lparr>pkt_dcid := d, pkt_scid := s\<rparr>) pi, True)
    \<and> cid_holds d dcid \<and> cid_holds s scid"
proof (cases chk)
  case True
  with assms(1) obtain pi2 where ck: "check_long_cids c pi = (pi2, True)" by (cases "check_long_cids c pi") auto
  obtain d s where "pi2 = pkt_set (\<lambda>p. p\<lparr>pkt_dcid := d, pkt_scid := s\<rparr>) pi" "cid_holds d dcid" "cid_holds s scid"
    using check_long_cids_holds [OF ck] assms by auto
  with True ck show ?thesis by auto
next
  case False
  with assms show ?thesis
    by (intro exI [of _ "pkt_dcid (pi_pkt pi)"] exI [of _ "pkt_scid (pi_pkt pi)"]) (simp add: pkt_set_def)
qed

lemma parse_long_bytes:
  fixes pi :: "'b xqc_packet_in_hdr_scheme"
  assumes t: "t = XQC_PTYPE_INIT \<or> t = XQC_PTYPE_0RTT \<or> t = XQC_PTYPE_HSK" and ver: "xqc_check_proto_version_valid ver"
    and buf: "pi_buf pi = fb # long_fields t ver dcid scid token @ xqc_vint_write (of_nat (length body)) 1 2 @ body @ tail"
    and fb: "fb AND 0x40 \<noteq> 0" "XQC_PACKET_LONG_HEADER_GET_TYPE fb = pkt_type_num t"
    and pos: "pi_pos pi = 0" "pi_last pi = length (pi_buf pi)"
    and len: "length dcid \<le> XQC_MAX_CID_LEN" "length scid \<le> XQC_MAX_CID_LEN" "length body < 2 ^ 14" "length token \<le> XQC_MAX_TOKEN_LEN"
    and cids: "length (cid_buf (pkt_dcid (pi_pkt pi))) = XQC_MAX_CID_LEN" "length (cid_buf (pkt_scid (pi_pkt pi))) = XQC_MAX_CID_LEN"
    and size: "t = XQC_PTYPE_INIT \<Longrightarrow> conn_type c = XQC_CONN_TYPE_SERVER \<Longrightarrow> XQC_PACKET_INITIAL_MIN_LENGTH \<le> pi_datagram_size pi"
    and known: "t = XQC_PTYPE_HSK \<Longrightarrow> conn_flag c AND XQC_CONN_FLAG_DCID_OK \<noteq> 0 \<Longrightarrow>
      (\<forall>d s (pi :: 'b xqc_packet_in_hdr_scheme). cid_holds d dcid \<and> cid_holds s scid \<and> pkt_dcid (pi_pkt pi) = d \<and> pkt_scid (pi_pkt pi) = s \<longrightarrow> snd (check_long_cids c pi))"
    and vc: "xqc_conn_version_check c (xqc_proto_version_value ! ver) = (c1, Inr ())"
  defines "off \<equiv> 1 + length (long_fields t ver dcid scid token) + 2"
  shows "\<exists>pi'. xqc_packet_parse_long_header env c pi =
      (if t = XQC_PTYPE_INIT \<and> conn_type c1 = XQC_CONN_TYPE_SERVER
       then c1\<lparr>conn_token := buf_write (conn_token c1) 0 token, conn_token_len := length token\<rparr> else c1, pi', Inr ())
    \<and> pkt_type (pi_pkt pi') = t \<and> pkt_pns (pi_pkt pi') = xqc_packet_type_to_pns t
    \<and> cid_holds (pkt_dcid (pi_pkt pi')) dcid \<and> cid_holds (pkt_scid (pi_pkt pi')) scid
    \<and> pkt_length (pi_pkt pi') = of_nat (length body) \<and> pkt_num_offset (pi_pkt pi') = off
    \<and> pi_last pi' = off + length body \<and> pi_buf pi' = pi_buf pi \<and> pi_path_id pi' = XQC_INITIAL_PATH_ID"
proof -
  let ?vf = "xqc_proto_version_field ! ver" and ?pi0 = "pi\<lparr>pi_path_id := XQC_INITIAL_PATH_ID\<rparr>"
  let ?tok = "if t = XQC_PTYPE_INIT then vint_bytes (of_nat (length token)) @ token else []"
  let ?rest = "?tok @ xqc_vint_write (of_nat (length body)) 1 2 @ body @ tail"
  note vw = version_wire [OF ver]
  have buf': "pi_buf pi = (fb # ?vf) @ of_nat (length dcid) # dcid @ of_nat (length scid) # scid @ ?rest"
    by (simp add: buf long_fields_def)
  have v: "xqc_parse_uint32 (drop (pi_pos pi + 1) (pi_buf pi)) = xqc_proto_version_value ! ver"
    using vw(2) by (simp add: pos buf')
  have fb0: "pi_buf pi ! pi_pos pi = fb" by (simp add: pos buf)
  have ty: "long_type pi = pkt_type_num t" unfolding long_type_def v fb0 using vw(3) fb(2) by simp
  have 7: "\<not> pi_last pi - pi_pos pi < 7" using vw(1) by (simp add: pos buf')
  define pos2 where "pos2 = 7 + length dcid + length scid"
  define pi1 where "pi1 = pkt_set (\<lambda>p. p\<lparr>pkt_dcid := (pkt_dcid p)\<lparr>cid_len := of_nat (length dcid), cid_path_id := XQC_INITIAL_PATH_ID,
                       cid_buf := buf_write (cid_buf (pkt_dcid p)) 0 dcid\<rparr>,
                     pkt_scid := (pkt_scid p)\<lparr>cid_len := of_nat (length scid), cid_path_id := XQC_INITIAL_PATH_ID,
                       cid_buf := buf_write (cid_buf (pkt_scid p)) 0 scid\<rparr>\<rparr>) ?pi0"
  have pc: "parse_long_cids c ?pi0 (pi_pos pi + 5) = (pi1, Inr pos2)"
    using parse_long_cids_bytes [of ?pi0 "fb # ?vf" dcid scid ?rest c] buf' pos len vw(1) by (simp add: pi1_def pos2_def)
  have h1: "cid_holds (pkt_dcid (pi_pkt pi1)) dcid" "cid_holds (pkt_scid (pi_pkt pi1)) scid"
    using cids len by (simp_all add: pi1_def cid_holds_def buf_write_def)
  let ?chk = "long_type pi \<noteq> 0 \<and> long_type pi \<noteq> 1 \<and> XQC_CONN_FLAG_DCID_OK AND conn_flag c \<noteq> 0"
  have sc: "?chk \<Longrightarrow> snd (check_long_cids c (pi1\<lparr>pi_pos := pos2\<rparr>))"
    using known h1 t ty by (auto simp: and.commute)
  have "cid_holds (pkt_dcid (pi_pkt (pi1\<lparr>pi_pos := pos2\<rparr>))) dcid" "cid_holds (pkt_scid (pi_pkt (pi1\<lparr>pi_pos := pos2\<rparr>))) scid" using h1 by simp_all
  from check_cids_step [of ?chk, OF sc this]
obtain d s where ck: "(if ?chk then check_long_cids c (pi1\<lparr>pi_pos := pos2\<rparr>) else (pi1\<lparr>pi_pos := pos2\<rparr>, True))
      = (pkt_set (\<lambda>p. p\<lparr>pkt_dcid := d, pkt_scid := s\<rparr>) (pi1\<lparr>pi_pos := pos2\<rparr>), True)" and hs: "cid_holds d dcid" "cid_holds s scid" by blast
  define pi2 where "pi2 = pkt_set (\<lambda>p. p\<lparr>pkt_dcid := d, pkt_scid := s\<rparr>) (pi1\<lparr>pi_pos := pos2\<rparr>)"
  have parse: "xqc_packet_parse_long_header env c pi = long_packet_switch env (pkt_type_num t) c1 pi2"
    unfolding parse_long_header_steps Let_def pc prod.case sum.case ck v vc fb0 pi2_def using 7 fb(1) vw(3) by (simp add: ty)
  have tn: "pkt_type_num t \<noteq> 5" using t by auto
  define pre where "pre = (fb # ?vf) @ of_nat (length dcid) # dcid @ of_nat (length scid) # scid"
  have pre: "length pre = pos2" "pi_buf pi2 = pre @ ?rest" "pi_pos pi2 = pos2" "pi_last pi2 = length (pi_buf pi2)"
    "pi_datagram_size pi2 = pi_datagram_size pi" "pi_path_id pi2 = XQC_INITIAL_PATH_ID"
    "pkt_dcid (pi_pkt pi2) = d" "pkt_scid (pi_pkt pi2) = s"
    using vw(1) by (simp_all add: pre_def pos2_def pi2_def pi1_def buf' pos)
  have same: "pi_buf pi = pi_buf pi2" by (simp add: pi2_def pi1_def)
  show ?thesis
  proof (cases "t = XQC_PTYPE_INIT")
    case True
    have sw: "long_packet_switch env (pkt_type_num t) c1 pi2 = xqc_packet_parse_initial c1 pi2"
      by (simp add: long_packet_switch_def True)
    have ct: "conn_type c1 = conn_type c" using vc by (auto simp: xqc_conn_version_check_def split: if_splits option.splits)
    have "pi_buf pi2 = pre @ vint_bytes (of_nat (length token)) @ token @ xqc_vint_write (of_nat (length body)) 1 2 @ body @ tail"
      using pre True by simp
    note pi = parse_initial_bytes [OF this _ pre(4) len(3,4), of c1]
    have fl: "length (long_fields t ver dcid scid token) = 6 + length dcid + length scid + length (vint_bytes (of_nat (length token))) + length token"
      using vw(1) True by (simp add: long_fields_def)
    show ?thesis unfolding parse sw using pi pre size True hs ct fl by (simp add: off_def pos2_def same)
  next
    case False
    let ?pn = "\<lambda>p. p\<lparr>pkt_type := t, pkt_pns := xqc_packet_type_to_pns t\<rparr>"
    have sw: "long_packet_switch env (pkt_type_num t) c1 pi2 = parse_length c1 (pkt_set ?pn pi2) pos2"
      using t False pre(3) by (auto simp: long_packet_switch_def xqc_packet_parse_zero_rtt_def xqc_packet_parse_handshake_def Let_def)
    have "pi_buf (pkt_set ?pn pi2) = pre @ xqc_vint_write (of_nat (length body)) 1 2 @ body @ tail" using pre False by simp
    note pl = parse_length_bytes [OF this _ len(3), of c1]
    have fl: "length (long_fields t ver dcid scid token) = 6 + length dcid + length scid"
      using vw(1) False by (simp add: long_fields_def)
    show ?thesis unfolding parse sw using pl pre False hs fl by (simp add: off_def pos2_def same)
  qed
qed

section \<open>Examples\<close>

definition cid_example :: "bytes \<Rightarrow> xqc_cid" where
  "cid_example bs = xqc_cid_set_bytes xqc_cid_init_zero bs (of_nat (length bs))"

definition conn_hdr_example :: xqc_conn_hdr where
  "conn_hdr_example = xqc_connection.extend conn_example
     \<lparr>conn_state = XQC_CONN_STATE_CLIENT_INITIAL_SENT, conn_version = 1, conn_token = replicate 256 0, conn_token_len = 0,
      conn_scid_set = xqc_init_cid_set, conn_dcid_set = xqc_init_cid_set, original_dcid = cid_example [1, 2, 3, 4, 5, 6, 7, 8],
      initial_scid = cid_example [9, 9, 9, 9], retry_scid = xqc_cid_init_zero, path_dcid = xqc_cid_init_zero, support_version_list = [1]\<rparr>"

definition pi_hdr_example :: "bytes \<Rightarrow> xqc_packet_in_hdr" where
  "pi_hdr_example d = \<lparr>pi_pkt = \<lparr>pkt_num = 0, pkt_pns = XQC_PNS_INIT, pkt_type = XQC_PTYPE_INIT, pkt_dcid = xqc_cid_init_zero,
       pkt_scid = xqc_cid_init_zero, pkt_length = 0, pkt_num_offset = 0\<rparr>,
     pi_buf = d, pi_datagram_size = length d, pi_pos = 0, pi_last = length d, pi_path_id = -1\<rparr>"

end
