(* ===== verification/Crypto.thy ===== *)
theory Crypto
  imports Packet_Header
begin

text \<open>
  Packet protection: src/tls/xqc_crypto.c and the forwarding functions of src/tls/xqc_tls.c. The cipher suite (AEAD,
  header protection mask, HKDF) is third-party code: it is a record of functions inside \<open>xqc_crypto\<close>, and a theorem
  that relies on its behaviour says so in a hypothesis. A vector of C is a byte list; the empty list is the vector whose
  base is NULL. Memory allocation succeeds.
\<close>

section \<open>Data\<close>

datatype xqc_key_type = XQC_KEY_TYPE_RX_READ | XQC_KEY_TYPE_TX_WRITE

text \<open>
  \<open>aead_encrypt cap key nonce ad text\<close> and \<open>aead_decrypt\<close> are the AEAD with \<open>cap\<close> bytes of room for the result;
  \<open>hp_mask key sample\<close> is the header protection mask, \<open>hkdf_expand secret info n\<close> is HKDF-Expand with the digest of the suite.
\<close>

record xqc_pkt_protect_aead =
  aead_keylen :: nat
  aead_noncelen :: nat
  aead_taglen :: nat
  aead_encrypt :: "nat \<Rightarrow> bytes \<Rightarrow> bytes \<Rightarrow> bytes \<Rightarrow> bytes \<Rightarrow> bytes option"
  aead_decrypt :: "nat \<Rightarrow> bytes \<Rightarrow> bytes \<Rightarrow> bytes \<Rightarrow> bytes \<Rightarrow> bytes option"
  aead_ctx_new :: "bytes \<Rightarrow> bool"

record xqc_hdr_protect_cipher =
  hp_keylen :: nat
  hp_mask :: "bytes \<Rightarrow> bytes \<Rightarrow> bytes option"
  hp_ctx_new :: "bytes \<Rightarrow> bool"

record xqc_crypto_km =
  km_key :: bytes
  km_iv :: bytes
  km_secret :: bytes

definition km_init :: xqc_crypto_km where "km_init = \<lparr>km_key = [], km_iv = [], km_secret = []\<rparr>"

record xqc_crypto =
  pp_aead :: xqc_pkt_protect_aead
  hp_cipher :: xqc_hdr_protect_cipher
  hkdf_expand :: "bytes \<Rightarrow> bytes \<Rightarrow> nat \<Rightarrow> bytes option"
  rx_ckm :: "xqc_crypto_km list"
  tx_ckm :: "xqc_crypto_km list"
  rx_hp :: bytes
  tx_hp :: bytes
  key_phase :: nat
  cipher_id :: u32

definition XQC_KEY_PHASE_CNT :: nat where "XQC_KEY_PHASE_CNT = 2"
definition XQC_HP_SAMPLELEN :: nat where "XQC_HP_SAMPLELEN = 16"
definition XQC_HP_MASKLEN :: nat where "XQC_HP_MASKLEN = 5"
definition XQC_MAX_KNP_LEN :: nat where "XQC_MAX_KNP_LEN = 64"

definition XQC_TLS13_AES_128_GCM_SHA256 :: u32 where "XQC_TLS13_AES_128_GCM_SHA256 = 0x03001301"
definition XQC_TLS13_AES_256_GCM_SHA384 :: u32 where "XQC_TLS13_AES_256_GCM_SHA384 = 0x03001302"
definition XQC_TLS13_CHACHA20_POLY1305_SHA256 :: u32 where "XQC_TLS13_CHACHA20_POLY1305_SHA256 = 0x03001303"

section \<open>Limits\<close>

definition xqc_crypto_check_mp_nonce_len :: "bool \<Rightarrow> nat \<Rightarrow> unit res" where
  "xqc_crypto_check_mp_nonce_len multipath_enabled noncelen =
     (if \<not> multipath_enabled then Inr ()
      else if noncelen < 12 then Inl TRA_TRANSPORT_PARAMETER_ERROR
      else Inr ())"

definition xqc_aead_integrity_limit :: "u32 \<Rightarrow> u64" where
  "xqc_aead_integrity_limit cid =
     (if cid = XQC_TLS13_AES_128_GCM_SHA256 then push_bit 52 1
      else if cid = XQC_TLS13_AES_256_GCM_SHA384 then push_bit 52 1
      else if cid = XQC_TLS13_CHACHA20_POLY1305_SHA256 then push_bit 36 1
      else push_bit 36 1)"

definition xqc_aead_confidentiality_limit :: "u32 \<Rightarrow> u64" where
  "xqc_aead_confidentiality_limit cid =
     (if cid = XQC_TLS13_AES_128_GCM_SHA256 then push_bit 23 1
      else if cid = XQC_TLS13_AES_256_GCM_SHA384 then push_bit 23 1
      else if cid = XQC_TLS13_CHACHA20_POLY1305_SHA256 then push_bit 62 1
      else push_bit 23 1)"

section \<open>Nonce\<close>

text \<open>\<open>dest[off + i] ^= bs[i]\<close> for all bytes of \<open>bs\<close>.\<close>

definition xor_at :: "nat \<Rightarrow> bytes \<Rightarrow> bytes \<Rightarrow> bytes" where
  "xor_at off bs dest =
     take off dest @ map2 (XOR) (take (length bs) (drop off dest)) bs @ drop (off + length bs) dest"

definition xqc_crypto_create_nonce :: "bytes \<Rightarrow> u64 \<Rightarrow> u32 \<Rightarrow> bytes" where
  "xqc_crypto_create_nonce iv pktno path_id =
     (let ivlen = length iv;
          dest = xor_at (ivlen - 8) (be_bytes 8 pktno) iv
      in if ivlen \<ge> 12 then xor_at (ivlen - 12) (be_bytes 4 (ucast path_id)) dest else dest)"

section \<open>Header protection\<close>

definition xqc_crypto_check_hp_sample :: "nat \<Rightarrow> nat \<Rightarrow> unit res" where
  "xqc_crypto_check_hp_sample pktno pend =
     (let need = 4 + XQC_HP_SAMPLELEN
      in if pktno > pend \<or> pend - pktno < need then Inl XQC_EILLPKT else Inr ())"

text \<open>
  The packet is in a buffer that starts with the header; \<open>pktno\<close> is the offset of the packet number and \<open>pend\<close> the end
  of the packet.
\<close>

definition xqc_crypto_encrypt_header :: "xqc_crypto \<Rightarrow> xqc_pkt_type \<Rightarrow> bytes \<Rightarrow> nat \<Rightarrow> nat \<Rightarrow> bytes res" where
  "xqc_crypto_encrypt_header crypto ptype header pktno pend =
     (let pktno_len = XQC_PACKET_SHORT_HEADER_PKTNO_LEN (header ! 0);
          hp = tx_hp crypto
      in if hp = [] then Inl XQC_EENCRYPT
         else if pktno > pend \<or> pend - pktno < pktno_len then Inl XQC_EILLPKT
         else case xqc_crypto_check_hp_sample pktno pend of
                Inl e \<Rightarrow> Inl e
              | Inr _ \<Rightarrow>
                  (case hp_mask (hp_cipher crypto) hp (take XQC_HP_SAMPLELEN (drop (pktno + 4) header)) of
                     None \<Rightarrow> Inl XQC_EENCRYPT
                   | Some msk \<Rightarrow>
                       if length msk < XQC_HP_MASKLEN then Inl XQC_EENCRYPT
                       else let b = (if ptype = XQC_PTYPE_SHORT_HEADER
                                     then header ! 0 XOR (msk ! 0 AND 0x1f)
                                     else header ! 0 XOR (msk ! 0 AND 0x0f));
                                header = header[0 := b]
                            in Inr (xor_at pktno (take pktno_len (drop 1 msk)) header)))"

definition xqc_crypto_decrypt_header :: "xqc_crypto \<Rightarrow> xqc_pkt_type \<Rightarrow> bytes \<Rightarrow> nat \<Rightarrow> nat \<Rightarrow> bytes \<times> unit res" where
  "xqc_crypto_decrypt_header crypto ptype header pktno pend =
     (let hp = rx_hp crypto in
      if hp = [] then (header, Inl XQC_TLS_DECRYPT_DATA_ERROR)
      else case xqc_crypto_check_hp_sample pktno pend of
             Inl e \<Rightarrow> (header, Inl e)
           | Inr _ \<Rightarrow>
               (case hp_mask (hp_cipher crypto) hp (take XQC_HP_SAMPLELEN (drop (pktno + 4) header)) of
                  None \<Rightarrow> (header, Inl XQC_TLS_DECRYPT_DATA_ERROR)
                | Some msk \<Rightarrow>
                    if length msk < XQC_HP_MASKLEN then (header, Inl XQC_TLS_DECRYPT_DATA_ERROR)
                    else let b = (if ptype = XQC_PTYPE_SHORT_HEADER
                                  then header ! 0 XOR (msk ! 0 AND 0x1f)
                                  else header ! 0 XOR (msk ! 0 AND 0x0f));
                             header = header[0 := b];
                             pktno_len = XQC_PACKET_SHORT_HEADER_PKTNO_LEN (header ! 0)
                         in if pktno > pend \<or> pend - pktno < pktno_len then (header, Inl XQC_EILLPKT)
                            else (xor_at pktno (take pktno_len (drop 1 msk)) header, Inr ())))"

section \<open>Payload protection\<close>

definition xqc_crypto_encrypt_payload ::
    "xqc_crypto \<Rightarrow> u64 \<Rightarrow> nat \<Rightarrow> u32 \<Rightarrow> bytes \<Rightarrow> bytes \<Rightarrow> nat \<Rightarrow> bytes res" where
  "xqc_crypto_encrypt_payload crypto pktno phase path_id header payload dst_cap =
     (let ckm = tx_ckm crypto ! phase in
      if km_key ckm = [] \<or> km_iv ckm = [] then Inl XQC_TLS_ENCRYPT_DATA_ERROR
      else let nonce = xqc_crypto_create_nonce (km_iv ckm) pktno path_id
           in case aead_encrypt (pp_aead crypto) dst_cap (km_key ckm) nonce header payload of
                None \<Rightarrow> Inl XQC_TLS_ENCRYPT_DATA_ERROR
              | Some dst \<Rightarrow>
                  if length dst \<noteq> length payload + aead_taglen (pp_aead crypto) then Inl XQC_TLS_ENCRYPT_DATA_ERROR
                  else Inr dst)"

definition xqc_crypto_decrypt_payload ::
    "xqc_crypto \<Rightarrow> u64 \<Rightarrow> nat \<Rightarrow> u32 \<Rightarrow> bytes \<Rightarrow> bytes \<Rightarrow> nat \<Rightarrow> bytes res" where
  "xqc_crypto_decrypt_payload crypto pktno phase path_id header payload dst_cap =
     (let ckm = rx_ckm crypto ! phase in
      if km_key ckm = [] \<or> km_iv ckm = [] then Inl XQC_TLS_DECRYPT_DATA_ERROR
      else let nonce = xqc_crypto_create_nonce (km_iv ckm) pktno path_id
           in case aead_decrypt (pp_aead crypto) dst_cap (km_key ckm) nonce header payload of
                None \<Rightarrow> Inl XQC_TLS_DECRYPT_DATA_ERROR
              | Some dst \<Rightarrow>
                  if int (length dst) \<noteq> int (length payload) - int (aead_taglen (pp_aead crypto)) then Inl XQC_TLS_DECRYPT_DATA_ERROR
                  else Inr dst)"

section \<open>Keys\<close>

text \<open>The structure \<open>HkdfLabel\<close> of TLS 1.3, with an empty context, in front of the library's HKDF-Expand: xqc_hkdf.c.\<close>

definition hkdf_label_info :: "nat \<Rightarrow> string \<Rightarrow> bytes" where
  "hkdf_label_info destlen label =
     [of_nat (destlen div 256), of_nat (destlen mod 256), of_nat (length ''tls13 '' + length label)]
     @ map of_char ''tls13 '' @ map of_char label @ [0]"

definition xqc_hkdf_expand_label :: "xqc_crypto \<Rightarrow> bytes \<Rightarrow> string \<Rightarrow> nat \<Rightarrow> bytes option" where
  "xqc_hkdf_expand_label crypto secret label destlen = hkdf_expand crypto secret (hkdf_label_info destlen label) destlen"

definition xqc_crypto_derive_packet_protection_key :: "xqc_crypto \<Rightarrow> nat \<Rightarrow> bytes \<Rightarrow> bytes res" where
  "xqc_crypto_derive_packet_protection_key crypto destcap secret =
     (let keylen = aead_keylen (pp_aead crypto) in
      if keylen > destcap then Inl XQC_TLS_DERIVE_KEY_ERROR
      else case xqc_hkdf_expand_label crypto secret ''quic key'' keylen of
             None \<Rightarrow> Inl XQC_TLS_DERIVE_KEY_ERROR
           | Some dest \<Rightarrow> Inr dest)"

definition xqc_crypto_derive_packet_protection_iv :: "xqc_crypto \<Rightarrow> nat \<Rightarrow> bytes \<Rightarrow> bytes res" where
  "xqc_crypto_derive_packet_protection_iv crypto destcap secret =
     (let ivlen = max 8 (aead_noncelen (pp_aead crypto)) in
      if ivlen > destcap then Inl XQC_TLS_DERIVE_KEY_ERROR
      else case xqc_hkdf_expand_label crypto secret ''quic iv'' ivlen of
             None \<Rightarrow> Inl XQC_TLS_DERIVE_KEY_ERROR
           | Some dest \<Rightarrow> Inr dest)"

definition xqc_crypto_derive_header_protection_key :: "xqc_crypto \<Rightarrow> nat \<Rightarrow> bytes \<Rightarrow> bytes res" where
  "xqc_crypto_derive_header_protection_key crypto destcap secret =
     (let keylen = hp_keylen (hp_cipher crypto) in
      if keylen > destcap then Inl XQC_TLS_DERIVE_KEY_ERROR
      else case xqc_hkdf_expand_label crypto secret ''quic hp'' keylen of
             None \<Rightarrow> Inl XQC_TLS_DERIVE_KEY_ERROR
           | Some dest \<Rightarrow> Inr dest)"

text \<open>The key material that a key type names, in a key phase.\<close>

definition get_ckm :: "xqc_key_type \<Rightarrow> xqc_crypto \<Rightarrow> nat \<Rightarrow> xqc_crypto_km" where
  "get_ckm type crypto phase =
     (case type of XQC_KEY_TYPE_RX_READ \<Rightarrow> rx_ckm crypto ! phase | XQC_KEY_TYPE_TX_WRITE \<Rightarrow> tx_ckm crypto ! phase)"

definition set_ckm :: "xqc_key_type \<Rightarrow> nat \<Rightarrow> (xqc_crypto_km \<Rightarrow> xqc_crypto_km) \<Rightarrow> xqc_crypto \<Rightarrow> xqc_crypto" where
  "set_ckm type phase f crypto =
     (case type of
        XQC_KEY_TYPE_RX_READ \<Rightarrow> crypto\<lparr>rx_ckm := (rx_ckm crypto)[phase := f (rx_ckm crypto ! phase)]\<rparr>
      | XQC_KEY_TYPE_TX_WRITE \<Rightarrow> crypto\<lparr>tx_ckm := (tx_ckm crypto)[phase := f (tx_ckm crypto ! phase)]\<rparr>)"

definition set_hp :: "xqc_key_type \<Rightarrow> bytes \<Rightarrow> xqc_crypto \<Rightarrow> xqc_crypto" where
  "set_hp type hp crypto =
     (case type of XQC_KEY_TYPE_RX_READ \<Rightarrow> crypto\<lparr>rx_hp := hp\<rparr> | XQC_KEY_TYPE_TX_WRITE \<Rightarrow> crypto\<lparr>tx_hp := hp\<rparr>)"

definition xqc_crypto_derive_keys :: "xqc_crypto \<Rightarrow> bytes \<Rightarrow> xqc_key_type \<Rightarrow> xqc_crypto \<times> unit res" where
  "xqc_crypto_derive_keys crypto secret type =
     (case xqc_crypto_derive_packet_protection_key crypto XQC_MAX_KNP_LEN secret of
        Inl e \<Rightarrow> (crypto, Inl e)
      | Inr key \<Rightarrow>
          if length key \<le> 0 then (crypto, Inr ())
          else case xqc_crypto_derive_packet_protection_iv crypto XQC_MAX_KNP_LEN secret of
                 Inl e \<Rightarrow> (crypto, Inl e)
               | Inr iv \<Rightarrow>
                   if length iv \<le> 0 then (crypto, Inr ())
                   else case xqc_crypto_derive_header_protection_key crypto XQC_MAX_KNP_LEN secret of
                          Inl e \<Rightarrow> (crypto, Inl e)
                        | Inr hp \<Rightarrow>
                            if length hp \<le> 0 then (crypto, Inr ())
                            else let crypto = set_hp type hp (set_ckm type (key_phase crypto) (\<lambda>k. k\<lparr>km_key := key, km_iv := iv\<rparr>) crypto)
                                 in if \<not> aead_ctx_new (pp_aead crypto) key then (crypto, Inl XQC_TLS_DERIVE_KEY_ERROR)
                                    else if \<not> hp_ctx_new (hp_cipher crypto) hp then (crypto, Inl XQC_TLS_DERIVE_KEY_ERROR)
                                    else (crypto, Inr ()))"

definition xqc_crypto_save_application_traffic_secret_0 :: "xqc_crypto \<Rightarrow> bytes \<Rightarrow> xqc_key_type \<Rightarrow> xqc_crypto" where
  "xqc_crypto_save_application_traffic_secret_0 crypto secret type =
     set_ckm type (key_phase crypto) (\<lambda>k. k\<lparr>km_secret := secret\<rparr>) crypto"

definition xqc_crypto_is_key_ready :: "xqc_crypto \<Rightarrow> xqc_key_type \<Rightarrow> bool" where
  "xqc_crypto_is_key_ready crypto type =
     (let km = get_ckm type crypto (key_phase crypto);
          hp = (case type of XQC_KEY_TYPE_RX_READ \<Rightarrow> rx_hp crypto | XQC_KEY_TYPE_TX_WRITE \<Rightarrow> tx_hp crypto)
      in if km_key km = [] \<or> km_iv km = [] then False else if hp = [] then False else True)"

definition xqc_crypto_aead_tag_len :: "xqc_crypto \<Rightarrow> nat" where
  "xqc_crypto_aead_tag_len crypto = aead_taglen (pp_aead crypto)"

definition xqc_crypto_derive_updated_keys :: "xqc_crypto \<Rightarrow> xqc_key_type \<Rightarrow> xqc_crypto \<times> unit res" where
  "xqc_crypto_derive_updated_keys crypto type =
     (let current = key_phase crypto;
          updated = (if current = 0 then 1 else 0);
          secret = km_secret (get_ckm type crypto current)
      in if length secret > XQC_MAX_KNP_LEN then (crypto, Inl XQC_TLS_UPDATE_KEY_ERROR)
         else case xqc_hkdf_expand_label crypto secret ''quic ku'' (length secret) of
           None \<Rightarrow> (crypto, Inl XQC_TLS_UPDATE_KEY_ERROR)
         | Some dest \<Rightarrow>
             (let crypto = set_ckm type updated (\<lambda>k. k\<lparr>km_secret := dest\<rparr>) crypto in
              case xqc_crypto_derive_packet_protection_key crypto XQC_MAX_KNP_LEN dest of
                Inl _ \<Rightarrow> (crypto, Inl XQC_TLS_UPDATE_KEY_ERROR)
              | Inr key \<Rightarrow>
                  if length key \<le> 0 then (crypto, Inl XQC_TLS_UPDATE_KEY_ERROR)
                  else case xqc_crypto_derive_packet_protection_iv crypto XQC_MAX_KNP_LEN dest of
                    Inl _ \<Rightarrow> (crypto, Inl XQC_TLS_UPDATE_KEY_ERROR)
                  | Inr iv \<Rightarrow>
                      if length iv \<le> 0 then (crypto, Inl XQC_TLS_UPDATE_KEY_ERROR)
                      else let crypto = set_ckm type updated (\<lambda>k. k\<lparr>km_key := key, km_iv := iv\<rparr>) crypto
                           in if \<not> aead_ctx_new (pp_aead crypto) key then (crypto, Inl XQC_TLS_UPDATE_KEY_ERROR)
                              else (crypto, Inr ())))"

definition xqc_crypto_discard_old_keys :: "xqc_crypto \<Rightarrow> xqc_crypto" where
  "xqc_crypto_discard_old_keys crypto =
     (let discard = (if key_phase crypto = 0 then 1 else 0)
      in set_ckm XQC_KEY_TYPE_TX_WRITE discard (\<lambda>_. km_init) (set_ckm XQC_KEY_TYPE_RX_READ discard (\<lambda>_. km_init) crypto))"

section \<open>The cipher suites\<close>

text \<open>
  The suite without encryption of xqc_null_crypto.c. The encryption leaves the bytes of the tag as they are in the
  destination: here they have the value \<open>junk\<close>. The plaintext of the mask is \<open>XQC_FAKE_HP_MASK\<close>.
\<close>

definition XQC_FAKE_AEAD_OVERHEAD :: nat where "XQC_FAKE_AEAD_OVERHEAD = XQC_TLS_AEAD_OVERHEAD_MAX_LEN"
definition XQC_FAKE_HP_MASK :: bytes where "XQC_FAKE_HP_MASK = replicate 5 0"

definition xqc_null_aead_encrypt :: "nat \<Rightarrow> u8 \<Rightarrow> nat \<Rightarrow> bytes \<Rightarrow> bytes \<Rightarrow> bytes \<Rightarrow> bytes \<Rightarrow> bytes option" where
  "xqc_null_aead_encrypt taglen junk destcap key nonce ad plaintext =
     (if length plaintext + taglen > destcap then None else Some (plaintext @ replicate taglen junk))"

definition xqc_null_aead_decrypt :: "nat \<Rightarrow> nat \<Rightarrow> bytes \<Rightarrow> bytes \<Rightarrow> bytes \<Rightarrow> bytes \<Rightarrow> bytes option" where
  "xqc_null_aead_decrypt taglen destcap key nonce ad ciphertext =
     (if length ciphertext < taglen \<or> length ciphertext - taglen > destcap then None
      else Some (take (length ciphertext - taglen) ciphertext))"

definition xqc_null_hp_mask :: "bytes \<Rightarrow> bytes \<Rightarrow> bytes option" where
  "xqc_null_hp_mask key sample = Some XQC_FAKE_HP_MASK"

definition xqc_aead_init_null :: "nat \<Rightarrow> u8 \<Rightarrow> xqc_pkt_protect_aead" where
  "xqc_aead_init_null taglen junk =
     \<lparr>aead_keylen = 1, aead_noncelen = 1, aead_taglen = taglen, aead_encrypt = xqc_null_aead_encrypt taglen junk,
      aead_decrypt = xqc_null_aead_decrypt taglen, aead_ctx_new = (\<lambda>_. True)\<rparr>"

definition xqc_cipher_init_null :: xqc_hdr_protect_cipher where
  "xqc_cipher_init_null = \<lparr>hp_keylen = 1, hp_mask = xqc_null_hp_mask, hp_ctx_new = (\<lambda>_. True)\<rparr>"

text \<open>\<open>suites\<close> are the suites of the TLS library, \<open>hkdf\<close> its key derivation, and \<open>junk\<close> the bytes of an unwritten tag.\<close>

definition xqc_crypto_create ::
    "(u32 \<Rightarrow> xqc_pkt_protect_aead \<times> xqc_hdr_protect_cipher) \<Rightarrow> (bytes \<Rightarrow> bytes \<Rightarrow> nat \<Rightarrow> bytes option) \<Rightarrow> u8 \<Rightarrow> u32
     \<Rightarrow> xqc_crypto option" where
  "xqc_crypto_create suites hkdf junk cid =
     (let new = (\<lambda>(aead, hp). \<lparr>pp_aead = aead, hp_cipher = hp, hkdf_expand = hkdf,
                   rx_ckm = replicate XQC_KEY_PHASE_CNT km_init, tx_ckm = replicate XQC_KEY_PHASE_CNT km_init,
                   rx_hp = [], tx_hp = [], key_phase = 0, cipher_id = cid\<rparr>)
      in if cid = XQC_TLS13_AES_128_GCM_SHA256 \<or> cid = XQC_TLS13_AES_256_GCM_SHA384 \<or> cid = XQC_TLS13_CHACHA20_POLY1305_SHA256
         then Some (new (suites cid))
         else if cid = 0 then Some (new (xqc_aead_init_null XQC_FAKE_AEAD_OVERHEAD junk, xqc_cipher_init_null))
         else None)"

section \<open>Exclusive or\<close>

lemma length_xor_at [simp]: "off + length bs \<le> length d \<Longrightarrow> length (xor_at off bs d) = length d"
  by (simp add: xor_at_def)

lemma map2_xor_cancel: "length a = length m \<Longrightarrow> map2 (XOR) (map2 (XOR) a m) m = (a :: bytes)"
  by (induction a m rule: list_induct2) (simp_all add: xor.assoc)

lemma xor_left_inj: "(a :: u8) XOR m = a XOR n \<Longrightarrow> m = n"
proof -
  assume "a XOR m = a XOR n"
  then have "a XOR (a XOR m) = a XOR (a XOR n)" by simp
  then show "m = n" by (simp add: xor.assoc [symmetric])
qed

lemma map2_xor_inj: "length a = length m \<Longrightarrow> length a = length n \<Longrightarrow> map2 (XOR) a m = map2 (XOR) a n \<Longrightarrow> m = (n :: bytes)"
proof (induction a m arbitrary: n rule: list_induct2)
  case (Cons x xs y ys)
  then obtain z zs where "n = z # zs" by (cases n) auto
  with Cons show ?case using xor_left_inj [of x y z] by simp
qed simp

lemma xor_at_twice: "off + length bs \<le> length d \<Longrightarrow> xor_at off bs (xor_at off bs d) = d"
proof -
  assume le: "off + length bs \<le> length d"
  have t: "take off (xor_at off bs d) = take off d" using le by (simp add: xor_at_def)
  have m: "take (length bs) (drop off (xor_at off bs d)) = map2 (XOR) (take (length bs) (drop off d)) bs" using le by (simp add: xor_at_def)
  have e: "drop (off + length bs) (xor_at off bs d) = drop (off + length bs) d" using le by (simp add: xor_at_def)
  have "map2 (XOR) (map2 (XOR) (take (length bs) (drop off d)) bs) bs = take (length bs) (drop off d)"
    by (rule map2_xor_cancel) (use le in simp)
  then have "xor_at off bs (xor_at off bs d) = take off d @ take (length bs) (drop off d) @ drop (off + length bs) d"
    unfolding xor_at_def [of off bs "xor_at off bs d"] t m e by simp
  also have "\<dots> = d" by (metis append_assoc append_take_drop_id take_add)
  finally show ?thesis .
qed

lemma xor_at_drop: "off + length bs \<le> n \<Longrightarrow> off + length bs \<le> length d \<Longrightarrow> drop n (xor_at off bs d) = drop n d"
  by (simp add: xor_at_def)

lemma xor_at_take: "n \<le> off \<Longrightarrow> off + length bs \<le> length d \<Longrightarrow> take n (xor_at off bs d) = take n d"
  by (simp add: xor_at_def min_def)

lemma xor_at_inj:
  assumes "off + length m \<le> length d" "length m = length n" "xor_at off m d = xor_at off n d"
  shows "m = n"
proof (rule map2_xor_inj [of "take (length m) (drop off d)"])
  have "take (length m) (drop off (xor_at off m d)) = take (length m) (drop off (xor_at off n d))" using assms by simp
  with assms show "map2 (XOR) (take (length m) (drop off d)) m = map2 (XOR) (take (length m) (drop off d)) n"
    by (simp add: xor_at_def)
qed (use assms in simp_all)

lemma be_bytes_inj: "be_bytes 8 v = be_bytes 8 w \<Longrightarrow> v = w"
proof -
  assume "be_bytes 8 v = be_bytes 8 w"
  then have "be_val (be_bytes 8 v) = be_val (be_bytes 8 w)" by simp
  then show "v = w" unfolding be_val_be_bytes by (simp add: take_bit_word_eq_self)
qed

text \<open>C10: No nonce is used twice (RFC 9001, section 5.3, and the multipath draft, section 2.4). Under one key, that is one IV of a suite
  that \<open>xqc_crypto_check_mp_nonce_len\<close> admits for multipath, two packets have the same nonce only if they have the same packet
  number on the same path.\<close>

theorem nonce_unique:
  assumes "xqc_crypto_check_mp_nonce_len True noncelen = Inr ()" and "length iv = max 8 noncelen"
  shows "xqc_crypto_create_nonce iv pn path = xqc_crypto_create_nonce iv pn' path' \<longleftrightarrow> pn = pn' \<and> path = path'"
proof
  assume eq: "xqc_crypto_create_nonce iv pn path = xqc_crypto_create_nonce iv pn' path'"
  have "12 \<le> length iv" using assms(1,2) by (auto simp: xqc_crypto_check_mp_nonce_len_def split: if_splits)
  then obtain n where n: "length iv = n + 12" by (metis le_add_diff_inverse2)
  define x y where "x = (\<lambda>p. xor_at (n + 4) (be_bytes 8 p) iv)" and "y = (\<lambda>q. be_bytes 4 (ucast (q :: u32)))"
  have lx: "length (x p) = n + 12" for p by (simp add: x_def n)
  have ly: "length (y q) = 4" for q by (simp add: y_def)
  from eq have e: "xor_at n (y path) (x pn) = xor_at n (y path') (x pn')"
    by (simp add: xqc_crypto_create_nonce_def Let_def n x_def y_def add.commute)
  have d: "drop (n + 4) (xor_at n (y q) (x p)) = drop (n + 4) (x p)" for p q
    by (rule xor_at_drop) (simp_all add: lx ly)
  have "take (n + 4) (x p) = take (n + 4) iv" for p unfolding x_def by (rule xor_at_take) (simp_all add: n)
  then have x: "x pn = x pn'" using d e by (metis append_take_drop_id)
  then have "be_bytes 8 pn = be_bytes 8 pn'" unfolding x_def by (rule xor_at_inj [rotated 2]) (simp_all add: n)
  then have pn: "pn = pn'" by (rule be_bytes_inj)
  have "y path = y path'" by (rule xor_at_inj [of n _ "x pn"]) (use e x in \<open>simp_all add: lx ly\<close>)
  then have "xqc_parse_uint32 (y path @ []) = xqc_parse_uint32 (y path' @ [])" by (simp only:)
  with pn show "pn = pn' \<and> path = path'" by (simp only: y_def parse_uint32_be_bytes simp_thms)
qed simp

theorem nonce_unique_witness:
  "xqc_crypto_create_nonce (replicate 12 3) 5 1 \<noteq> xqc_crypto_create_nonce (replicate 12 3) 5 2"
  using nonce_unique [of 12 "replicate 12 3" 5 1 5 2] by (simp add: xqc_crypto_check_mp_nonce_len_def)

section \<open>Header protection is undone by the receiver\<close>

lemma xor_at_update: "0 < off \<Longrightarrow> off + length m \<le> length h \<Longrightarrow> xor_at off m (h[0 := b]) = (xor_at off m h)[0 := b]"
  by (cases h; cases off) (simp_all add: xor_at_def)

lemma xor_at_nth0: "0 < off \<Longrightarrow> off + length m \<le> length h \<Longrightarrow> xor_at off m h ! 0 = h ! 0"
  by (cases h; cases off) (simp_all add: xor_at_def)

lemma pktno_len_le: "XQC_PACKET_SHORT_HEADER_PKTNO_LEN b \<le> 4"
proof -
  have "unat (b AND 0x03) \<le> unat (0x03 :: u8)" using word_and_le1 [of b "0x03"] by (simp only: word_le_nat_alt)
  then show ?thesis by (simp add: XQC_PACKET_SHORT_HEADER_PKTNO_LEN_def)
qed

definition hp_bits :: "xqc_pkt_type \<Rightarrow> u8" where
  "hp_bits t = (if t = XQC_PTYPE_SHORT_HEADER then 0x1f else 0x0f)"

lemma encrypt_headerE:
  assumes "xqc_crypto_encrypt_header s t h pktno pend = Inr h'"
  obtains msk where "hp_mask (hp_cipher s) (tx_hp s) (take XQC_HP_SAMPLELEN (drop (pktno + 4) h)) = Some msk" and "5 \<le> length msk"
    and "tx_hp s \<noteq> []" and "pktno + 20 \<le> pend"
    and "h' = xor_at pktno (take (XQC_PACKET_SHORT_HEADER_PKTNO_LEN (h ! 0)) (drop 1 msk)) (h[0 := h ! 0 XOR (msk ! 0 AND hp_bits t)])"
  using assms
  by (auto simp: xqc_crypto_encrypt_header_def xqc_crypto_check_hp_sample_def Let_def hp_bits_def XQC_HP_SAMPLELEN_def XQC_HP_MASKLEN_def
      split: if_splits option.splits sum.splits)

lemma decrypt_headerI:
  assumes "hp_mask (hp_cipher r) (rx_hp r) (take XQC_HP_SAMPLELEN (drop (pktno + 4) h)) = Some msk" and "5 \<le> length msk"
    and "rx_hp r \<noteq> []" and "pktno + 20 \<le> pend"
  shows "xqc_crypto_decrypt_header r t h pktno pend =
    (let h1 = h[0 := h ! 0 XOR (msk ! 0 AND hp_bits t)]; k = XQC_PACKET_SHORT_HEADER_PKTNO_LEN (h1 ! 0) in
     if pend - pktno < k then (h1, Inl XQC_EILLPKT) else (xor_at pktno (take k (drop 1 msk)) h1, Inr ()))"
proof -
  have "\<not> pend - pktno < 20" "\<not> pend < pktno" using assms(4) by simp_all
  with assms(1-3) show ?thesis by (simp add: xqc_crypto_decrypt_header_def xqc_crypto_check_hp_sample_def Let_def hp_bits_def XQC_HP_SAMPLELEN_def XQC_HP_MASKLEN_def)
qed

lemma hp_roundtrip:
  assumes enc: "xqc_crypto_encrypt_header s t h pktno pend = Inr h'"
    and keys: "rx_hp r = tx_hp s" "hp_mask (hp_cipher r) = hp_mask (hp_cipher s)" and p: "0 < pktno" "pend \<le> length h"
  shows "xqc_crypto_decrypt_header r t h' pktno pend = (h, Inr ())"
    and "length h' = length h" and "h' ! 0 AND NOT (hp_bits t) = h ! 0 AND NOT (hp_bits t)"
    and "drop (pktno + 4) h' = drop (pktno + 4) h" and "take (pktno - 1) (drop 1 h') = take (pktno - 1) (drop 1 h)"
proof -
  obtain msk where m: "hp_mask (hp_cipher s) (tx_hp s) (take XQC_HP_SAMPLELEN (drop (pktno + 4) h)) = Some msk" "5 \<le> length msk"
      "tx_hp s \<noteq> []" "pktno + 20 \<le> pend"
    and h': "h' = xor_at pktno (take (XQC_PACKET_SHORT_HEADER_PKTNO_LEN (h ! 0)) (drop 1 msk)) (h[0 := h ! 0 XOR (msk ! 0 AND hp_bits t)])"
    by (rule encrypt_headerE [OF enc])
  define k pm b where "k = XQC_PACKET_SHORT_HEADER_PKTNO_LEN (h ! 0)" and "pm = take k (drop 1 msk)" and "b = h ! 0 XOR (msk ! 0 AND hp_bits t)"
  have k: "k \<le> 4" by (simp add: k_def pktno_len_le)
  have lm: "length pm = k" using m(2) k by (simp add: pm_def)
  have h2: "h' = xor_at pktno pm (h[0 := b])" by (simp add: h' pm_def k_def b_def)
  have fit: "pktno + length pm \<le> length h" using m(4) p(2) k lm by simp
  show len: "length h' = length h" using fit by (simp add: h2)
  have hb: "h' ! 0 = b" 
  proof -
    have "0 < length (xor_at pktno pm h)" using fit p(1) by (cases h) simp_all
    then show ?thesis unfolding h2 xor_at_update [OF p(1) fit] by simp
  qed
  have mb: "b XOR (msk ! 0 AND hp_bits t) = h ! 0" by (simp add: b_def xor.assoc)
  have "drop (pktno + 4) h' = drop (pktno + 4) (h[0 := b])"
    unfolding h2 by (rule xor_at_drop) (use fit lm k p(2) m(4) in simp_all)
  then show dr: "drop (pktno + 4) h' = drop (pktno + 4) h" by simp
  show "h' ! 0 AND NOT (hp_bits t) = h ! 0 AND NOT (hp_bits t)"
    unfolding hb b_def by (rule bit_eqI) (auto simp: bit_simps)
  have "take pktno h' = take pktno (h[0 := b])" unfolding h2 by (rule xor_at_take) (use fit in simp_all)
  then show "take (pktno - 1) (drop 1 h') = take (pktno - 1) (drop 1 h)"
    by (metis (no_types) drop_take drop_update_cancel zero_less_one)
  have un: "h'[0 := h ! 0] = xor_at pktno pm h"
  proof -
    have "h'[0 := h ! 0] = (xor_at pktno pm h)[0 := h ! 0]" unfolding h2 xor_at_update [OF p(1) fit] by simp
    also have "\<dots> = xor_at pktno pm h" using xor_at_nth0 [OF p(1) fit] by (metis list_update_id)
    finally show ?thesis .
  qed
  have "xor_at pktno pm (h'[0 := h ! 0]) = h" unfolding un by (rule xor_at_twice [OF fit])
  moreover have "h'[0 := h ! 0] ! 0 = h ! 0" using len fit p m(4) by (cases h') simp_all
  moreover have "b XOR (msk ! 0 AND hp_bits t) = h ! 0" by (rule mb)
  ultimately show "xqc_crypto_decrypt_header r t h' pktno pend = (h, Inr ())"
    using decrypt_headerI [of r pktno h' msk pend t, unfolded dr keys hb mb, OF m(1-3)] m(4) k
    by (simp add: Let_def k_def [symmetric] pm_def [unfolded One_nat_def, symmetric])
qed

end
