(* ===== verification/Packet_Protect.thy ===== *)
theory Packet_Protect
  imports Crypto Timer Recv_Record Frame_Codec
begin

text \<open>
  Protection of whole packets and key updates: \<open>xqc_packet_encrypt_buf\<close> and \<open>xqc_packet_decrypt\<close> of
  transport/xqc_packet_parser.c, the key update functions of transport/xqc_conn.c, and the forwarding functions of
  tls/xqc_tls.c. The state is the part of the connection that these functions use, with the keys of all levels, the
  key update context, the paths and the key update timer.

  \<open>now\<close> is the monotonic clock, read once per call; \<open>max_pto\<close> stands for \<open>xqc_conn_get_max_pto\<close>.
\<close>

section \<open>Data\<close>

datatype xqc_ku_rx_keys = XQC_KU_RX_KEYS_NONE | XQC_KU_RX_KEYS_OLD | XQC_KU_RX_KEYS_NEXT

record xqc_key_update_ctx =
  cur_out_key_phase :: nat
  next_in_key_phase :: nat
  key_update_cnt :: nat
  other_rx_keys :: xqc_ku_rx_keys
  enc_pkt_cnt :: u64
  aead_confidentiality_limit :: u64
  initiate_time_guard :: u64
  current_keys_acked :: bool
  awaiting_peer_key_update :: bool

record xqc_pn_ctl =
  ctl_packet_number :: "xqc_pkt_num_space \<Rightarrow> u64"
  ctl_recv_record :: "xqc_pkt_num_space \<Rightarrow> xqc_recv_record"
  ctl_skipped_pn_low :: u64
  ctl_skipped_pn_high :: u64
  ctl_next_skip_chance :: u64

record xqc_path_sec =
  sec_path_id :: u64
  sec_path_dcid :: xqc_cid
  path_pn_ctl :: xqc_pn_ctl
  path_ku_first_sent_pktno :: u64
  path_ku_first_recv_pktno :: u64

record xqc_conn_sec = xqc_conn_hdr +
  tls_crypto :: "xqc_encrypt_level \<Rightarrow> xqc_crypto option"
  early_data_accepted :: bool
  key_update_ctx :: xqc_key_update_ctx
  enable_multipath :: bool
  keyupdate_pkt_threshold :: u64
  marking_reinjection :: bool
  disable_pn_skipping :: bool
  eng_client :: bool
  sec_paths :: "xqc_path_sec list"
  conn_timer_manager :: xqc_timer_manager
  max_pto :: u64

record xqc_packet_out_sec = xqc_packet_out_hdr +
  po_path_id :: u64
  po_enc_size :: nat
  po_ack_offset :: nat
  po_sent_time :: u64

record xqc_packet_in_sec = xqc_packet_in_hdr +
  pi_flag :: u32
  decode_payload_size :: nat
  decode_payload :: bytes

definition TRA_INTERNAL_ERROR :: u64 where "TRA_INTERNAL_ERROR = 0x1"
definition TRA_KEY_UPDATE_ERROR :: u64 where "TRA_KEY_UPDATE_ERROR = 0xE"
definition TRA_AEAD_LIMIT_REACHED :: u64 where "TRA_AEAD_LIMIT_REACHED = 0xF"
definition XQC_POF_NO_PATH_PADDING :: u32 where "XQC_POF_NO_PATH_PADDING = push_bit 24 1"
definition XQC_PKTNO_BITS :: nat where "XQC_PKTNO_BITS = 3"
definition XQC_ENOBUF_NUM :: nat where "XQC_ENOBUF_NUM = 600"
definition XQC_PIF_REINJECTED_REPLICA :: u32 where "XQC_PIF_REINJECTED_REPLICA = 1"
definition XQC_PIF_CURRENT_KEY_PHASE :: u32 where "XQC_PIF_CURRENT_KEY_PHASE = 4"

definition ku_set :: "(xqc_key_update_ctx \<Rightarrow> xqc_key_update_ctx) \<Rightarrow> xqc_conn_sec \<Rightarrow> xqc_conn_sec" where
  "ku_set f conn = conn\<lparr>key_update_ctx := f (key_update_ctx conn)\<rparr>"

definition crypto_set :: "xqc_encrypt_level \<Rightarrow> xqc_crypto \<Rightarrow> xqc_conn_sec \<Rightarrow> xqc_conn_sec" where
  "crypto_set level crypto conn = conn\<lparr>tls_crypto := (tls_crypto conn)(level := Some crypto)\<rparr>"

definition xqc_conn_find_path_by_path_id :: "xqc_conn_sec \<Rightarrow> u64 \<Rightarrow> xqc_path_sec option" where
  "xqc_conn_find_path_by_path_id conn path_id = find (\<lambda>p. sec_path_id p = path_id) (sec_paths conn)"

text \<open>A write through the pointer that \<open>xqc_conn_find_path_by_path_id\<close> returns.\<close>

fun path_update :: "u64 \<Rightarrow> (xqc_path_sec \<Rightarrow> xqc_path_sec) \<Rightarrow> xqc_path_sec list \<Rightarrow> xqc_path_sec list" where
  "path_update i f [] = []"
| "path_update i f (p # ps) = (if sec_path_id p = i then f p # ps else p # path_update i f ps)"

section \<open>TLS\<close>

definition xqc_tls_is_key_ready :: "xqc_conn_sec \<Rightarrow> xqc_encrypt_level \<Rightarrow> xqc_key_type \<Rightarrow> bool" where
  "xqc_tls_is_key_ready conn level type =
     (case tls_crypto conn level of None \<Rightarrow> False | Some crypto \<Rightarrow> xqc_crypto_is_key_ready crypto type)"

definition xqc_tls_get_1rtt_cipher_id :: "xqc_conn_sec \<Rightarrow> u32" where
  "xqc_tls_get_1rtt_cipher_id conn = (case tls_crypto conn XQC_ENC_LEV_1RTT of None \<Rightarrow> 0 | Some crypto \<Rightarrow> cipher_id crypto)"

definition xqc_tls_set_1rtt_key_phase :: "xqc_conn_sec \<Rightarrow> nat \<Rightarrow> xqc_conn_sec" where
  "xqc_tls_set_1rtt_key_phase conn phase =
     (case tls_crypto conn XQC_ENC_LEV_1RTT of
        None \<Rightarrow> conn
      | Some crypto \<Rightarrow> crypto_set XQC_ENC_LEV_1RTT (crypto\<lparr>key_phase := phase\<rparr>) conn)"

definition xqc_tls_update_1rtt_keys :: "xqc_conn_sec \<Rightarrow> xqc_key_type \<Rightarrow> xqc_conn_sec \<times> unit res" where
  "xqc_tls_update_1rtt_keys conn type =
     (case tls_crypto conn XQC_ENC_LEV_1RTT of
        None \<Rightarrow> (conn, Inl XQC_TLS_UPDATE_KEY_ERROR)
      | Some crypto \<Rightarrow>
          (case xqc_crypto_derive_updated_keys crypto type of
             (crypto, Inl _) \<Rightarrow> (crypto_set XQC_ENC_LEV_1RTT crypto conn, Inl XQC_TLS_UPDATE_KEY_ERROR)
           | (crypto, Inr _) \<Rightarrow> (crypto_set XQC_ENC_LEV_1RTT crypto conn, Inr ())))"

definition xqc_tls_discard_old_1rtt_keys :: "xqc_conn_sec \<Rightarrow> xqc_conn_sec" where
  "xqc_tls_discard_old_1rtt_keys conn =
     (case tls_crypto conn XQC_ENC_LEV_1RTT of
        None \<Rightarrow> conn
      | Some crypto \<Rightarrow> crypto_set XQC_ENC_LEV_1RTT (xqc_crypto_discard_old_keys crypto) conn)"

definition xqc_tls_encrypt_payload ::
    "xqc_crypto \<Rightarrow> xqc_encrypt_level \<Rightarrow> u64 \<Rightarrow> u32 \<Rightarrow> bytes \<Rightarrow> bytes \<Rightarrow> nat \<Rightarrow> bytes res" where
  "xqc_tls_encrypt_payload crypto level pktno path_id header payload dst_cap =
     (let phase = (if level = XQC_ENC_LEV_1RTT then XQC_PACKET_SHORT_HEADER_KEY_PHASE (header ! 0) else 0)
      in if level = XQC_ENC_LEV_1RTT \<and> phase \<ge> XQC_KEY_PHASE_CNT then Inl XQC_TLS_INVALID_STATE
         else xqc_crypto_encrypt_payload crypto pktno phase path_id header payload dst_cap)"

definition xqc_tls_decrypt_payload ::
    "xqc_crypto option \<Rightarrow> xqc_encrypt_level \<Rightarrow> u64 \<Rightarrow> u32 \<Rightarrow> bytes \<Rightarrow> bytes \<Rightarrow> nat \<Rightarrow> bytes res" where
  "xqc_tls_decrypt_payload c level pktno path_id header payload dst_cap =
     (case c of
        None \<Rightarrow> Inl XQC_TLS_INVALID_STATE
      | Some crypto \<Rightarrow>
          (let phase = (if level = XQC_ENC_LEV_1RTT then XQC_PACKET_SHORT_HEADER_KEY_PHASE (header ! 0) else 0)
           in if level = XQC_ENC_LEV_1RTT \<and> phase \<ge> XQC_KEY_PHASE_CNT then Inl XQC_TLS_INVALID_STATE
              else xqc_crypto_decrypt_payload crypto pktno phase path_id header payload dst_cap))"

definition xqc_tls_decrypt_header ::
    "xqc_crypto option \<Rightarrow> xqc_pkt_type \<Rightarrow> bytes \<Rightarrow> nat \<Rightarrow> nat \<Rightarrow> bytes \<times> unit res" where
  "xqc_tls_decrypt_header c ptype header pktno pend =
     (case c of
        None \<Rightarrow> (header, Inl XQC_TLS_INVALID_STATE)
      | Some crypto \<Rightarrow> xqc_crypto_decrypt_header crypto ptype header pktno pend)"

section \<open>Key update\<close>

definition xqc_conn_init_key_update_ctx :: "xqc_key_update_ctx \<Rightarrow> xqc_key_update_ctx" where
  "xqc_conn_init_key_update_ctx ctx =
     ctx\<lparr>cur_out_key_phase := 0, next_in_key_phase := 0, other_rx_keys := XQC_KU_RX_KEYS_NONE, enc_pkt_cnt := 0,
         aead_confidentiality_limit := 0, initiate_time_guard := 0, awaiting_peer_key_update := False\<rparr>"

definition xqc_conn_set_key_update_timer :: "u64 \<Rightarrow> xqc_conn_sec \<Rightarrow> xqc_conn_sec" where
  "xqc_conn_set_key_update_timer now conn =
     conn\<lparr>conn_timer_manager := xqc_timer_set (conn_timer_manager conn) XQC_TIMER_KEY_UPDATE now (3 * max_pto conn)\<rparr>"

definition xqc_conn_record_key_phase_start :: "xqc_conn_sec \<Rightarrow> xqc_conn_sec" where
  "xqc_conn_record_key_phase_start conn =
     ku_set (\<lambda>ctx. ctx\<lparr>current_keys_acked := False\<rparr>)
       (conn\<lparr>sec_paths := map (\<lambda>p. p\<lparr>path_ku_first_sent_pktno := ctl_packet_number (path_pn_ctl p) XQC_PNS_APP_DATA,
                                    path_ku_first_recv_pktno := XQC_MAX_UINT64_VALUE\<rparr>) (sec_paths conn)\<rparr>)"

definition xqc_conn_on_key_phase_acked :: "xqc_conn_sec \<Rightarrow> xqc_path_sec \<Rightarrow> u64 \<Rightarrow> u64 \<Rightarrow> xqc_conn_sec" where
  "xqc_conn_on_key_phase_acked conn path pn ack_recv_time =
     (let ctx = key_update_ctx conn in
      if key_update_cnt ctx = 0 \<or> current_keys_acked ctx \<or> pn < path_ku_first_sent_pktno path then conn
      else ku_set (\<lambda>ctx. ctx\<lparr>current_keys_acked := True, initiate_time_guard := ack_recv_time + 3 * max_pto conn\<rparr>) conn)"

definition flip_phase :: "nat \<Rightarrow> nat" where
  "flip_phase p = (if p = 0 then 1 else 0)"

definition xqc_conn_confirm_key_update :: "u64 \<Rightarrow> xqc_conn_sec \<Rightarrow> bool \<Rightarrow> xqc_conn_sec \<times> unit res" where
  "xqc_conn_confirm_key_update now conn initiated =
     (let conn = ku_set (\<lambda>ctx. ctx\<lparr>key_update_cnt := key_update_cnt ctx + 1\<rparr>) conn;
          conn = xqc_conn_record_key_phase_start conn;
          conn = ku_set (\<lambda>ctx. ctx\<lparr>other_rx_keys := XQC_KU_RX_KEYS_OLD,
                                   cur_out_key_phase := flip_phase (cur_out_key_phase ctx),
                                   next_in_key_phase := flip_phase (next_in_key_phase ctx),
                                   enc_pkt_cnt := 0,
                                   awaiting_peer_key_update := initiated\<rparr>) conn;
          conn = xqc_tls_set_1rtt_key_phase conn (cur_out_key_phase (key_update_ctx conn))
      in (if initiated
          then conn\<lparr>conn_timer_manager := xqc_timer_unset (conn_timer_manager conn) XQC_TIMER_KEY_UPDATE\<rparr>
          else xqc_conn_set_key_update_timer now conn, Inr ()))"

definition xqc_conn_discard_old_rx_keys :: "xqc_conn_sec \<Rightarrow> xqc_conn_sec" where
  "xqc_conn_discard_old_rx_keys conn =
     (let conn = xqc_tls_discard_old_1rtt_keys conn;
          conn = ku_set (\<lambda>ctx. ctx\<lparr>other_rx_keys := XQC_KU_RX_KEYS_NONE\<rparr>) conn
      in conn\<lparr>conn_timer_manager := xqc_timer_unset (conn_timer_manager conn) XQC_TIMER_KEY_UPDATE\<rparr>)"

definition xqc_timer_key_update_timeout :: "xqc_conn_sec \<Rightarrow> xqc_conn_sec" where
  "xqc_timer_key_update_timeout conn = xqc_conn_discard_old_rx_keys conn"

definition xqc_conn_confirm_peer_key_update :: "u64 \<Rightarrow> xqc_conn_sec \<Rightarrow> xqc_conn_sec" where
  "xqc_conn_confirm_peer_key_update now conn =
     (if awaiting_peer_key_update (key_update_ctx conn)
      then xqc_conn_set_key_update_timer now (ku_set (\<lambda>ctx. ctx\<lparr>awaiting_peer_key_update := False\<rparr>) conn)
      else conn)"

definition xqc_packet_check_aead_confidentiality_limit :: "xqc_conn_sec \<Rightarrow> xqc_conn_sec \<times> unit res" where
  "xqc_packet_check_aead_confidentiality_limit conn =
     (let limit = aead_confidentiality_limit (key_update_ctx conn) in
      if enc_pkt_cnt (key_update_ctx conn) < limit then (conn, Inr ())
      else (XQC_CONN_ERR conn TRA_AEAD_LIMIT_REACHED, Inl XQC_EAEAD_LIMIT))"

definition xqc_packet_can_initiate_key_update :: "u64 \<Rightarrow> xqc_conn_sec \<Rightarrow> bool" where
  "xqc_packet_can_initiate_key_update now conn =
     (if now \<le> initiate_time_guard (key_update_ctx conn) then False
      else key_update_cnt (key_update_ctx conn) = 0 \<or> current_keys_acked (key_update_ctx conn))"

definition xqc_packet_initiate_key_update :: "u64 \<Rightarrow> xqc_conn_sec \<Rightarrow> xqc_conn_sec \<times> unit res" where
  "xqc_packet_initiate_key_update now conn =
     (case xqc_tls_update_1rtt_keys conn XQC_KEY_TYPE_RX_READ of
        (conn, Inl e) \<Rightarrow> (conn, Inl e)
      | (conn, Inr _) \<Rightarrow>
          (case xqc_tls_update_1rtt_keys conn XQC_KEY_TYPE_TX_WRITE of
             (conn, Inl e) \<Rightarrow> (conn, Inl e)
           | (conn, Inr _) \<Rightarrow> xqc_conn_confirm_key_update now conn True))"

section \<open>Encryption\<close>

text \<open>The check of the confidentiality limit before a 1-RTT packet is protected, and whether the packet is counted.\<close>

definition encrypt_limit :: "xqc_conn_sec \<Rightarrow> bool \<Rightarrow> xqc_conn_sec \<times> bool res" where
  "encrypt_limit conn is_1rtt =
     (if \<not> is_1rtt then (conn, Inr False)
      else
        let (conn, is_1rtt) =
              (if aead_confidentiality_limit (key_update_ctx conn) = 0
               then let cid = xqc_tls_get_1rtt_cipher_id conn
                    in if cid = 0 then (conn, False)
                       else (ku_set (\<lambda>ctx. ctx\<lparr>aead_confidentiality_limit := xqc_aead_confidentiality_limit cid\<rparr>) conn, True)
               else (conn, True))
        in if is_1rtt
           then (case xqc_packet_check_aead_confidentiality_limit conn of
                   (conn, Inl e) \<Rightarrow> (conn, Inl e)
                 | (conn, Inr _) \<Rightarrow> (conn, Inr True))
           else (conn, Inr False))"

text \<open>The count of a protected 1-RTT packet, and the key update it may start.\<close>

definition encrypt_count :: "u64 \<Rightarrow> xqc_conn_sec \<Rightarrow> xqc_conn_sec \<times> unit res" where
  "encrypt_count now conn =
     (let conn = ku_set (\<lambda>ctx. ctx\<lparr>enc_pkt_cnt := enc_pkt_cnt ctx + 1\<rparr>) conn;
          ctx = key_update_ctx conn;
          limit = aead_confidentiality_limit ctx;
          confidentiality_trigger = (enc_pkt_cnt ctx \<ge> limit - drop_bit 3 limit);
          configured_trigger = (keyupdate_pkt_threshold conn > 0 \<and> enc_pkt_cnt ctx > keyupdate_pkt_threshold conn)
      in if (confidentiality_trigger \<or> configured_trigger) \<and> xqc_packet_can_initiate_key_update now conn
         then (case xqc_packet_initiate_key_update now conn of
                 (conn, Inl e) \<Rightarrow> (if confidentiality_trigger then XQC_CONN_ERR conn TRA_AEAD_LIMIT_REACHED else conn, Inl e)
               | (conn, Inr _) \<Rightarrow> (conn, Inr ()))
         else (conn, Inr ()))"

definition refresh_length :: "xqc_encrypt_level \<Rightarrow> bytes \<Rightarrow> nat \<Rightarrow> nat \<Rightarrow> nat \<Rightarrow> bytes" where
  "refresh_length level header pktno used_size taglen =
     (if level = XQC_ENC_LEV_INIT \<or> level = XQC_ENC_LEV_0RTT \<or> level = XQC_ENC_LEV_HSK
      then buf_write header (pktno - XQC_LONG_HEADER_LENGTH_BYTE) (xqc_vint_write (of_nat (used_size - pktno + taglen)) 1 2)
      else header)"

definition xqc_packet_encrypt_buf ::
    "u64 \<Rightarrow> xqc_conn_sec \<Rightarrow> xqc_packet_out_sec \<Rightarrow> nat \<Rightarrow> xqc_conn_sec \<times> xqc_packet_out_sec \<times> bytes res" where
  "xqc_packet_encrypt_buf now conn po enc_pkt_cap =
     (let level = xqc_packet_type_to_enc_level (po_pkt_type po);
          is_1rtt = (po_pkt_type po = XQC_PTYPE_SHORT_HEADER \<and> level = XQC_ENC_LEV_1RTT)
      in if \<not> xqc_tls_is_key_ready conn level XQC_KEY_TYPE_TX_WRITE then (conn, po, Inl XQC_TLS_INVALID_STATE)
         else case encrypt_limit conn is_1rtt of
           (conn, Inl e) \<Rightarrow> (conn, po, Inl e)
         | (conn, Inr is_1rtt) \<Rightarrow>
           (case tls_crypto conn level of
              None \<Rightarrow> (conn, po, Inl XQC_TLS_INVALID_STATE)
            | Some crypto \<Rightarrow>
              (let header_len = po_payload po;
                   header = take header_len (po_buf po);
                   payload = take (po_used_size po - header_len) (drop header_len (po_buf po));
                   pktno = po_ppktno po
               in case xqc_conn_find_path_by_path_id conn (po_path_id po) of
                    None \<Rightarrow> (XQC_CONN_ERR conn TRA_INTERNAL_ERROR, po, Inl XQC_EMP_PATH_NOT_FOUND)
                  | Some path \<Rightarrow>
                      let header = refresh_length level header pktno (po_used_size po) (xqc_crypto_aead_tag_len crypto);
                          nonce_path_id = (if enable_multipath conn then ucast (sec_path_id path) else 0)
                      in case xqc_tls_encrypt_payload crypto level (po_pkt_num po) nonce_path_id header payload
                                (enc_pkt_cap - header_len) of
                           Inl e \<Rightarrow> (XQC_CONN_ERR conn TRA_INTERNAL_ERROR, po, Inl e)
                         | Inr enc_payload \<Rightarrow>
                             (let pkt = header @ enc_payload in
                              case xqc_crypto_encrypt_header crypto (po_pkt_type po) pkt pktno (length pkt) of
                                Inl e \<Rightarrow> (conn, po, Inl e)
                              | Inr pkt \<Rightarrow>
                                  (case (if is_1rtt then encrypt_count now conn else (conn, Inr ())) of
                                     (conn, Inl e) \<Rightarrow> (conn, po, Inl e)
                                   | (conn, Inr _) \<Rightarrow> (conn, po\<lparr>po_enc_size := length pkt\<rparr>, Inr pkt))))))"

section \<open>From a packet to its bytes on the wire\<close>

definition xqc_need_padding :: "xqc_conn_sec \<Rightarrow> xqc_packet_out_sec \<Rightarrow> bool" where
  "xqc_need_padding conn po =
     (if po_pkt_pns po = XQC_PNS_INIT then
        (if eng_client conn then True else XQC_IS_ACK_ELICITING (po_frame_types po))
      else if po_frame_types po AND XQC_FRAME_BIT XQC_FRAME_PATH_CHALLENGE \<noteq> 0
           \<or> po_frame_types po AND XQC_FRAME_BIT XQC_FRAME_PATH_RESPONSE \<noteq> 0
           \<or> po_flag po AND XQC_POF_PMTUD_PROBING \<noteq> 0
      then po_flag po AND XQC_POF_NO_PATH_PADDING = 0
      else False)"

definition xqc_send_ctl_set_next_pn_for_packet ::
    "xqc_conn_sec \<Rightarrow> xqc_pn_ctl \<Rightarrow> xqc_packet_out_sec \<Rightarrow> u64 \<Rightarrow> xqc_pn_ctl \<times> xqc_packet_out_sec" where
  "xqc_send_ctl_set_next_pn_for_packet conn pn_ctl po current_time =
     (let pns = po_pkt_pns po;
          po = po\<lparr>po_pkt_num := ctl_packet_number pn_ctl pns\<rparr>;
          (pn_ctl, po) =
            (if \<not> disable_pn_skipping conn \<and> po_pkt_num po > 0 \<and> pns = XQC_PNS_APP_DATA
                \<and> current_time > ctl_next_skip_chance pn_ctl
                \<and> (current_time mod 10 < 2 \<or> po_pkt_num po > ctl_skipped_pn_high pn_ctl + 1024)
             then let low = po_pkt_num po;
                      high = low + current_time mod 7
                  in (pn_ctl\<lparr>ctl_skipped_pn_low := low, ctl_skipped_pn_high := high,
                             ctl_next_skip_chance := current_time + 3 * max_pto conn\<rparr>,
                      po\<lparr>po_pkt_num := high + 1\<rparr>)
             else (pn_ctl, po))
      in (pn_ctl\<lparr>ctl_packet_number := (ctl_packet_number pn_ctl)(pns := po_pkt_num po + 1)\<rparr>, po))"

text \<open>
  \<open>xqc_packet_encrypt_buf\<close> returns \<open>XQC_EMP_PATH_NOT_FOUND\<close> as a positive number, and its callers look for a negative
  one: this error passes as a success, without output.
\<close>

definition ret_negative :: "xqc_err \<Rightarrow> bool" where
  "ret_negative e = (e \<noteq> XQC_EMP_PATH_NOT_FOUND)"

definition number_packet :: "xqc_conn_sec \<Rightarrow> xqc_path_sec \<Rightarrow> xqc_packet_out_sec \<Rightarrow> u64 \<Rightarrow> xqc_conn_sec \<times> xqc_packet_out_sec" where
  "number_packet conn path po current_time =
     (let (pn_ctl, po) = xqc_send_ctl_set_next_pn_for_packet conn (path_pn_ctl path) po current_time;
          conn = conn\<lparr>sec_paths := path_update (sec_path_id path) (\<lambda>p. p\<lparr>path_pn_ctl := pn_ctl\<rparr>) (sec_paths conn)\<rparr>;
          po = po\<lparr>po_buf := buf_write (po_buf po) (po_ppktno po) (xqc_write_packet_number (po_pkt_num po) XQC_PKTNO_BITS)\<rparr>;
          po = xqc_long_packet_update_length po;
          po = xqc_short_packet_update_key_phase po (cur_out_key_phase (key_update_ctx conn));
          po = (if marking_reinjection conn then xqc_packet_update_reserved_bits po else po)
      in (conn, po))"

definition xqc_conn_enc_packet ::
    "u64 \<Rightarrow> xqc_conn_sec \<Rightarrow> xqc_path_sec \<Rightarrow> xqc_packet_out_sec \<Rightarrow> nat \<Rightarrow> u64
     \<Rightarrow> xqc_conn_sec \<times> xqc_packet_out_sec \<times> bytes option res" where
  "xqc_conn_enc_packet now conn path po enc_pkt_cap current_time =
     (let po = xqc_short_packet_update_dcid po (sec_path_dcid path);
          po = (if xqc_need_padding conn po then xqc_gen_padding_frame conn po else po);
          (conn, po) = number_packet conn path po current_time
      in case xqc_packet_encrypt_buf now conn po enc_pkt_cap of
           (conn, po, Inl e) \<Rightarrow>
             if ret_negative e then (conn\<lparr>conn_state := XQC_CONN_STATE_CLOSED\<rparr>, po, Inl XQC_EENCRYPT)
             else (conn, po\<lparr>po_sent_time := current_time\<rparr>, Inr None)
         | (conn, po, Inr pkt) \<Rightarrow> (conn, po\<lparr>po_sent_time := current_time\<rparr>, Inr (Some pkt)))"

text \<open>A 0-RTT packet rewritten in place as a 1-RTT packet. A failing \<open>xqc_gen_short_packet_header\<close> gives a negative length, which the unsigned
  comparison takes for a long header. \<open>current_dcid\<close> shares the storage of \<open>user_scid\<close>.\<close>

definition xqc_convert_pkt_0rtt_2_1rtt :: "xqc_conn_sec \<Rightarrow> xqc_packet_out_sec \<Rightarrow> xqc_conn_sec \<times> xqc_packet_out_sec" where
  "xqc_convert_pkt_0rtt_2_1rtt conn po =
     (let ori_hdr_len = po_payload po;
          ori_payload_len = po_used_size po - ori_hdr_len;
          payload = take ori_payload_len (drop (po_payload po) (po_buf po));
          po = po\<lparr>po_pkt_pns := XQC_PNS_APP_DATA, po_pkt_type := XQC_PTYPE_SHORT_HEADER, po_used_size := 0\<rparr>;
          dcid = user_scid (conn_dcid_set conn)
      in case xqc_gen_short_packet_header po (cid_buf dcid) (unat (cid_len dcid)) XQC_PKTNO_BITS 0
                (cur_out_key_phase (key_update_ctx conn)) of
           (po, Inl _) \<Rightarrow> (XQC_CONN_ERR conn TRA_INTERNAL_ERROR, po\<lparr>po_used_size := 2 ^ 32 - XQC_ENOBUF_NUM\<rparr>)
         | (po, Inr hdr_len) \<Rightarrow>
             let po = po\<lparr>po_used_size := hdr_len\<rparr> in
             if ori_hdr_len < hdr_len then (XQC_CONN_ERR conn TRA_INTERNAL_ERROR, po)
             else let po = po\<lparr>po_buf := buf_write (po_buf po) hdr_len payload, po_payload := hdr_len,
                              po_used_size := hdr_len + ori_payload_len\<rparr>
                  in if po_ack_offset po > 0 then
                       (if po_ack_offset po < ori_hdr_len - hdr_len then (XQC_CONN_ERR conn TRA_INTERNAL_ERROR, po)
                        else (conn, po\<lparr>po_ack_offset := po_ack_offset po - (ori_hdr_len - hdr_len)\<rparr>))
                     else (conn, po))"

definition xqc_enc_packet_with_pn ::
    "u64 \<Rightarrow> xqc_conn_sec \<Rightarrow> xqc_path_sec \<Rightarrow> xqc_packet_out_sec \<Rightarrow> nat \<Rightarrow> xqc_conn_sec \<times> xqc_packet_out_sec \<times> bytes option res" where
  "xqc_enc_packet_with_pn now conn path po enc_pkt_cap =
     (let po = xqc_short_packet_update_dcid po (sec_path_dcid path);
          po = (if xqc_need_padding conn po then xqc_gen_padding_frame conn po else po);
          (conn, po) = (if po_pkt_type po = XQC_PTYPE_0RTT \<and> conn_flag conn AND XQC_CONN_FLAG_CAN_SEND_1RTT \<noteq> 0
                        then xqc_convert_pkt_0rtt_2_1rtt conn po else (conn, po));
          (conn, po) = number_packet conn path po now
      in case xqc_packet_encrypt_buf now conn po enc_pkt_cap of
           (conn, po, Inl e) \<Rightarrow>
             if ret_negative e then (conn\<lparr>conn_state := XQC_CONN_STATE_CLOSED\<rparr>, po, Inl XQC_EENCRYPT) else (conn, po, Inr None)
         | (conn, po, Inr pkt) \<Rightarrow> (conn, po, Inr (Some pkt)))"

section \<open>Decryption\<close>

text \<open>Before the payload is decrypted: the keys of the other key phase are discarded after their deadline, and derived when there are none.\<close>

definition prepare_rx_keys :: "u64 \<Rightarrow> xqc_conn_sec \<Rightarrow> bool \<Rightarrow> xqc_conn_sec \<times> unit res" where
  "prepare_rx_keys now conn other_phase =
     (let conn = (if other_phase \<and> other_rx_keys (key_update_ctx conn) = XQC_KU_RX_KEYS_OLD
                     \<and> xqc_timer_is_set (conn_timer_manager conn) XQC_TIMER_KEY_UPDATE
                     \<and> expire_time (timer (conn_timer_manager conn) XQC_TIMER_KEY_UPDATE) \<le> now
                  then xqc_conn_discard_old_rx_keys conn else conn)
      in if other_phase \<and> other_rx_keys (key_update_ctx conn) = XQC_KU_RX_KEYS_NONE
         then (case xqc_tls_update_1rtt_keys conn XQC_KEY_TYPE_RX_READ of
                 (conn, Inl e) \<Rightarrow> (conn, Inl e)
               | (conn, Inr _) \<Rightarrow> (ku_set (\<lambda>ctx. ctx\<lparr>other_rx_keys := XQC_KU_RX_KEYS_NEXT\<rparr>) conn, Inr ()))
         else (conn, Inr ()))"

text \<open>After a 1-RTT payload has been decrypted.\<close>

definition after_1rtt_decrypt ::
    "u64 \<Rightarrow> xqc_conn_sec \<Rightarrow> xqc_packet_in_sec \<Rightarrow> bool \<Rightarrow> xqc_conn_sec \<times> xqc_packet_in_sec \<times> unit res" where
  "after_1rtt_decrypt now conn pi other_phase =
     (let path = xqc_conn_find_path_by_path_id conn (pi_path_id pi);
          pn = pkt_num (pi_pkt pi)
      in if other_phase \<and> other_rx_keys (key_update_ctx conn) = XQC_KU_RX_KEYS_OLD then
           (case path of
              Some p \<Rightarrow>
                if pn > path_ku_first_recv_pktno p
                then (XQC_CONN_ERR conn TRA_KEY_UPDATE_ERROR, pi, Inl XQC_EPROTO) else (conn, pi, Inr ())
            | None \<Rightarrow> (conn, pi, Inr ()))
         else
           case (if other_phase
                 then (case xqc_tls_update_1rtt_keys conn XQC_KEY_TYPE_TX_WRITE of
                         (conn, Inl e) \<Rightarrow> (conn, Inl e)
                       | (conn, Inr _) \<Rightarrow> xqc_conn_confirm_key_update now conn False)
                 else (xqc_conn_confirm_peer_key_update now conn, Inr ())) of
             (conn, Inl e) \<Rightarrow> (conn, pi, Inl e)
           | (conn, Inr _) \<Rightarrow>
               (let pi = pi\<lparr>pi_flag := pi_flag pi OR XQC_PIF_CURRENT_KEY_PHASE\<rparr>;
                    conn = conn\<lparr>sec_paths := path_update (pi_path_id pi)
                             (\<lambda>p. if pn < path_ku_first_recv_pktno p then p\<lparr>path_ku_first_recv_pktno := pn\<rparr> else p) (sec_paths conn)\<rparr>
                in (conn, pi, Inr ())))"

definition reserved_bits_of :: "xqc_pkt_type \<Rightarrow> u8 \<Rightarrow> u8" where
  "reserved_bits_of t b =
     (if t = XQC_PTYPE_0RTT then drop_bit 2 (b AND 0x0c)
      else if t = XQC_PTYPE_SHORT_HEADER then drop_bit 3 (b AND 0x18) else 0)"

text \<open>The packet number of a packet without header protection, and the mark of a reinjected packet.\<close>

definition decode_number :: "xqc_conn_sec \<Rightarrow> xqc_packet_in_sec \<Rightarrow> xqc_packet_in_sec" where
  "decode_number conn pi =
     (let header = pi_buf pi;
          pktno_len = XQC_PACKET_SHORT_HEADER_PKTNO_LEN (header ! 0);
          pi = (if reserved_bits_of (pkt_type (pi_pkt pi)) (header ! 0) = 2 \<and> marking_reinjection conn
                then pi\<lparr>pi_flag := pi_flag pi OR XQC_PIF_REINJECTED_REPLICA\<rparr> else pi);
          truncated_pn = xqc_packet_parse_packet_number (drop (pkt_num_offset (pi_pkt pi)) header) pktno_len;
          largest_pn = (case xqc_conn_find_path_by_path_id conn (pi_path_id pi) of
                          None \<Rightarrow> 0
                        | Some path \<Rightarrow> xqc_recv_record_largest (ctl_recv_record (path_pn_ctl path) (pkt_pns (pi_pkt pi))))
      in pi\<lparr>pi_pkt := (pi_pkt pi)\<lparr>pkt_num := xqc_packet_decode_packet_number largest_pn truncated_pn (pktno_len * 8)\<rparr>\<rparr>)"

text \<open>The decryption of the payload. Afterwards \<open>packet_in->pos\<close> and \<open>last\<close> are the bounds of \<open>decode_payload\<close>.\<close>

definition open_payload ::
    "u64 \<Rightarrow> xqc_conn_sec \<Rightarrow> xqc_packet_in_sec \<Rightarrow> xqc_conn_sec \<times> xqc_packet_in_sec \<times> unit res" where
  "open_payload now conn pi =
     (let level = xqc_packet_type_to_enc_level (pkt_type (pi_pkt pi));
          pktno_len = XQC_PACKET_SHORT_HEADER_PKTNO_LEN (pi_buf pi ! 0);
          header_len = pkt_num_offset (pi_pkt pi) + pktno_len;
          header = take header_len (pi_buf pi);
          payload = take (unat (pkt_length (pi_pkt pi)) - pktno_len) (drop header_len (pi_buf pi));
          is_1rtt = (pkt_type (pi_pkt pi) = XQC_PTYPE_SHORT_HEADER \<and> level = XQC_ENC_LEV_1RTT);
          phase = XQC_PACKET_SHORT_HEADER_KEY_PHASE (pi_buf pi ! 0);
          other_phase = (is_1rtt \<and> phase \<noteq> next_in_key_phase (key_update_ctx conn))
      in case prepare_rx_keys now conn other_phase of
           (conn, Inl e) \<Rightarrow> (conn, pi, Inl e)
         | (conn, Inr _) \<Rightarrow>
           (case xqc_tls_decrypt_payload (tls_crypto conn level) level (pkt_num (pi_pkt pi))
                   (if enable_multipath conn then ucast (pi_path_id pi) else 0) header payload (decode_payload_size pi) of
              Inl e \<Rightarrow>
                (conn, pi, if other_phase \<and> other_rx_keys (key_update_ctx conn) = XQC_KU_RX_KEYS_NEXT
                           then Inl XQC_TLS_DECRYPT_WHEN_KU_ERROR else Inl e)
            | Inr dst \<Rightarrow>
                (let pi = pi\<lparr>decode_payload := dst\<rparr> in
                 if \<not> is_1rtt then (conn, pi, Inr ()) else after_1rtt_decrypt now conn pi other_phase)))"

definition xqc_packet_decrypt ::
    "u64 \<Rightarrow> xqc_conn_sec \<Rightarrow> xqc_packet_in_sec \<Rightarrow> xqc_conn_sec \<times> xqc_packet_in_sec \<times> unit res" where
  "xqc_packet_decrypt now conn pi =
     (let level = xqc_packet_type_to_enc_level (pkt_type (pi_pkt pi)) in
      if level = XQC_ENC_LEV_0RTT \<and> \<not> early_data_accepted conn then (conn, pi, Inl XQC_TLS_DATA_REJECT)
      else
        let pktno = pkt_num_offset (pi_pkt pi);
            pend = pktno + unat (pkt_length (pi_pkt pi))
        in case xqc_tls_decrypt_header (tls_crypto conn level) (pkt_type (pi_pkt pi)) (pi_buf pi) pktno pend of
             (buf, Inl e) \<Rightarrow> (conn, pi\<lparr>pi_buf := buf\<rparr>, Inl e)
           | (buf, Inr _) \<Rightarrow> open_payload now conn (decode_number conn (pi\<lparr>pi_buf := buf\<rparr>)))"

section \<open>A protected packet is opened by its receiver\<close>

lemma ku_set_simps [simp]:
  "tls_crypto (ku_set f c) = tls_crypto c" "sec_paths (ku_set f c) = sec_paths c" "enable_multipath (ku_set f c) = enable_multipath c"
  "key_update_ctx (ku_set f c) = f (key_update_ctx c)" "conn_timer_manager (ku_set f c) = conn_timer_manager c"
  "max_pto (ku_set f c) = max_pto c" "keyupdate_pkt_threshold (ku_set f c) = keyupdate_pkt_threshold c"
  by (simp_all add: ku_set_def)

lemma conn_err_simps [simp]:
  fixes c :: xqc_conn_sec
  shows "tls_crypto (XQC_CONN_ERR c e) = tls_crypto c" "sec_paths (XQC_CONN_ERR c e) = sec_paths c"
    "key_update_ctx (XQC_CONN_ERR c e) = key_update_ctx c" "conn_timer_manager (XQC_CONN_ERR c e) = conn_timer_manager c"
    "enable_multipath (XQC_CONN_ERR c e) = enable_multipath c"
  by (simp_all add: XQC_CONN_ERR_def xqc_conn_closing_def XQC_CONN_CLOSE_MSG_def Let_def)

lemma encrypt_limit_frame:
  assumes "encrypt_limit s b = (s1, r)"
  shows "tls_crypto s1 = tls_crypto s" "sec_paths s1 = sec_paths s" "enable_multipath s1 = enable_multipath s"
  using assms by (auto simp: encrypt_limit_def Let_def xqc_packet_check_aead_confidentiality_limit_def split: if_splits sum.splits)

lemma encrypt_bufE:
  assumes "xqc_packet_encrypt_buf now s po cap = (s', po', Inr pkt)"
  defines "l \<equiv> xqc_packet_type_to_enc_level (po_pkt_type po)"
  obtains cs path ep where "tls_crypto s l = Some cs"
    and "xqc_conn_find_path_by_path_id s (po_path_id po) = Some path"
    and "xqc_tls_encrypt_payload cs l (po_pkt_num po) (if enable_multipath s then ucast (sec_path_id path) else 0)
           (refresh_length l (take (po_payload po) (po_buf po)) (po_ppktno po) (po_used_size po) (xqc_crypto_aead_tag_len cs))
           (take (po_used_size po - po_payload po) (drop (po_payload po) (po_buf po))) (cap - po_payload po) = Inr ep"
    and "xqc_crypto_encrypt_header cs (po_pkt_type po)
           (refresh_length l (take (po_payload po) (po_buf po)) (po_ppktno po) (po_used_size po) (xqc_crypto_aead_tag_len cs) @ ep)
           (po_ppktno po)
           (length (refresh_length l (take (po_payload po) (po_buf po)) (po_ppktno po) (po_used_size po) (xqc_crypto_aead_tag_len cs) @ ep)) = Inr pkt"
proof -
  let ?b = "po_pkt_type po = XQC_PTYPE_SHORT_HEADER \<and> l = XQC_ENC_LEV_1RTT"
  obtain s1 r where lim: "encrypt_limit s ?b = (s1, r)" by fastforce
  note f = encrypt_limit_frame [OF lim]
  from assms(1) lim obtain b cs where b: "r = Inr b" and cs: "tls_crypto s l = Some cs"
    by (auto simp: xqc_packet_encrypt_buf_def Let_def l_def f split: if_splits sum.splits option.splits)
  from assms(1) lim b cs obtain path where p: "xqc_conn_find_path_by_path_id s1 (po_path_id po) = Some path"
    by (auto simp: xqc_packet_encrypt_buf_def Let_def l_def f split: if_splits option.splits)
  then have p': "xqc_conn_find_path_by_path_id s (po_path_id po) = Some path"
    by (simp add: xqc_conn_find_path_by_path_id_def f)
  let ?h = "refresh_length l (take (po_payload po) (po_buf po)) (po_ppktno po) (po_used_size po) (xqc_crypto_aead_tag_len cs)"
  obtain er where er: "xqc_tls_encrypt_payload cs l (po_pkt_num po) (if enable_multipath s then ucast (sec_path_id path) else 0)
           ?h (take (po_used_size po - po_payload po) (drop (po_payload po) (po_buf po))) (cap - po_payload po) = er" by simp
  show thesis
  proof (cases er)
    case (Inl e)
    with assms(1) lim b cs p er show thesis
      by (auto simp: xqc_packet_encrypt_buf_def Let_def l_def f split: if_splits)
  next
    case (Inr ep)
    obtain hr where hr: "xqc_crypto_encrypt_header cs (po_pkt_type po) (?h @ ep) (po_ppktno po) (length (?h @ ep)) = hr" by simp
    have "hr = Inr pkt"
      using assms(1) lim b cs p er [unfolded Inr] hr
      by (auto simp: xqc_packet_encrypt_buf_def Let_def l_def f split: if_splits sum.splits prod.splits)
    with that cs p' er Inr hr show thesis by simp
  qed
qed

lemma encrypt_header_append:
  assumes "xqc_crypto_encrypt_header s t h pktno (length h) = Inr h'" and "0 < pktno"
  shows "xqc_crypto_encrypt_header s t (h @ rest) pktno (length h) = Inr (h' @ rest)"
proof -
  obtain msk where m: "hp_mask (hp_cipher s) (tx_hp s) (take XQC_HP_SAMPLELEN (drop (pktno + 4) h)) = Some msk" "5 \<le> length msk"
      "tx_hp s \<noteq> []" "pktno + 20 \<le> length h"
    and h': "h' = xor_at pktno (take (XQC_PACKET_SHORT_HEADER_PKTNO_LEN (h ! 0)) (drop 1 msk)) (h[0 := h ! 0 XOR (msk ! 0 AND hp_bits t)])"
    by (rule encrypt_headerE [OF assms(1)])
  have s: "take XQC_HP_SAMPLELEN (drop (pktno + 4) (h @ rest)) = take XQC_HP_SAMPLELEN (drop (pktno + 4) h)"
    using m(4) by (simp add: XQC_HP_SAMPLELEN_def)
  have "h \<noteq> []" using m(4) by auto
  then have n: "(h @ rest) ! 0 = h ! 0" by (simp add: nth_append)
  have "xor_at pktno ms (x @ rest) = xor_at pktno ms x @ rest" if "pktno + length ms \<le> length x" for ms x
    using that by (simp add: xor_at_def)
  moreover have "XQC_PACKET_SHORT_HEADER_PKTNO_LEN (h ! 0) \<le> 4" by (rule pktno_len_le)
  ultimately have x: "xor_at pktno (take (XQC_PACKET_SHORT_HEADER_PKTNO_LEN (h ! 0)) (drop 1 msk)) ((h @ rest)[0 := h ! 0 XOR (msk ! 0 AND hp_bits t)])
      = h' @ rest"
    using m(4) \<open>h \<noteq> []\<close> by (simp add: h' list_update_append)
  have "\<not> length h - pktno < 20" "\<not> length h < pktno" "\<not> length h - pktno < XQC_PACKET_SHORT_HEADER_PKTNO_LEN (h ! 0)"
    using m(4) pktno_len_le [of "h ! 0"] by simp_all
  with m(1-3) x show ?thesis
    unfolding xqc_crypto_encrypt_header_def xqc_crypto_check_hp_sample_def Let_def n s
    by (simp add: hp_bits_def XQC_HP_SAMPLELEN_def XQC_HP_MASKLEN_def split: if_split_asm)
qed

text \<open>The AEAD opens what it sealed, when the output has room for the ciphertext.\<close>

definition aead_correct :: "xqc_pkt_protect_aead \<Rightarrow> xqc_pkt_protect_aead \<Rightarrow> bool" where
  "aead_correct s r \<longleftrightarrow> (\<forall>cap cap' key n ad m c.
     aead_encrypt s cap key n ad m = Some c \<and> length c \<le> cap' \<longrightarrow> aead_decrypt r cap' key n ad c = Some m)"

text \<open>What the sender writes with in a key phase is what the receiver reads with.\<close>

definition keys_match :: "xqc_crypto \<Rightarrow> xqc_crypto \<Rightarrow> nat \<Rightarrow> bool" where
  "keys_match s r phase \<longleftrightarrow> rx_hp r = tx_hp s \<and> hp_mask (hp_cipher r) = hp_mask (hp_cipher s)
     \<and> km_key (rx_ckm r ! phase) = km_key (tx_ckm s ! phase) \<and> km_iv (rx_ckm r ! phase) = km_iv (tx_ckm s ! phase)
     \<and> aead_taglen (pp_aead r) = aead_taglen (pp_aead s) \<and> aead_correct (pp_aead s) (pp_aead r)"

lemma payload_roundtrip:
  assumes "xqc_crypto_encrypt_payload s pn phase pid h m cap = Inr c" and "keys_match s r phase" and "length c \<le> cap'"
  shows "xqc_crypto_decrypt_payload r pn phase pid h c cap' = Inr m" and "length c = length m + aead_taglen (pp_aead s)"
proof -
  from assms(1) have e: "aead_encrypt (pp_aead s) cap (km_key (tx_ckm s ! phase)) (xqc_crypto_create_nonce (km_iv (tx_ckm s ! phase)) pn pid) h m = Some c"
    and l: "length c = length m + aead_taglen (pp_aead s)" and k: "km_key (tx_ckm s ! phase) \<noteq> []" "km_iv (tx_ckm s ! phase) \<noteq> []"
    by (auto simp: xqc_crypto_encrypt_payload_def Let_def split: if_splits option.splits)
  from l show "length c = length m + aead_taglen (pp_aead s)" .
  from assms(2,3) e have "aead_decrypt (pp_aead r) cap' (km_key (tx_ckm s ! phase)) (xqc_crypto_create_nonce (km_iv (tx_ckm s ! phase)) pn pid) h c = Some m"
    unfolding keys_match_def aead_correct_def by blast
  with assms(2) k l show "xqc_crypto_decrypt_payload r pn phase pid h c cap' = Inr m"
    by (simp add: xqc_crypto_decrypt_payload_def keys_match_def Let_def)
qed

definition level_phase :: "xqc_encrypt_level \<Rightarrow> u8 \<Rightarrow> nat" where
  "level_phase l b = (if l = XQC_ENC_LEV_1RTT then XQC_PACKET_SHORT_HEADER_KEY_PHASE b else 0)"

lemma tls_payload_roundtrip:
  assumes "xqc_tls_encrypt_payload s l pn pid h m cap = Inr c" and "keys_match s r (level_phase l (h ! 0))" and "length c \<le> cap'"
  shows "xqc_tls_decrypt_payload (Some r) l pn pid h c cap' = Inr m" and "length c = length m + aead_taglen (pp_aead s)"
  using assms payload_roundtrip [of s pn "level_phase l (h ! 0)" pid h m cap c r cap']
  by (auto simp: xqc_tls_encrypt_payload_def xqc_tls_decrypt_payload_def level_phase_def Let_def split: if_splits)

lemma refresh_length_facts:
  assumes "l \<noteq> XQC_ENC_LEV_1RTT \<Longrightarrow> 3 \<le> p" and "p \<le> length h"
  shows "length (refresh_length l h p u t) = length h" and "refresh_length l h p u t ! 0 = h ! 0"
    and "drop p (refresh_length l h p u t) = drop p h"
proof -
  have "length (refresh_length l h p u t) = length h \<and> refresh_length l h p u t ! 0 = h ! 0
    \<and> drop p (refresh_length l h p u t) = drop p h"
  proof (cases "l = XQC_ENC_LEV_INIT \<or> l = XQC_ENC_LEV_0RTT \<or> l = XQC_ENC_LEV_HSK")
    case True
    define q where "q = p - 3"
    have q: "p = Suc q + 2" using assms(1) True by (auto simp: q_def)
    have w: "refresh_length l h p u t = take (Suc q) h @ xqc_vint_write (of_nat (u - p + t)) 1 2 @ drop p h"
      using True by (simp only: refresh_length_def XQC_LONG_HEADER_LENGTH_BYTE_def buf_write_def vint_write_2 q if_True add_diff_cancel_right')
    show ?thesis unfolding w using assms(2) vint_write_2 by (auto simp: q nth_append)
  qed (simp only: refresh_length_def if_False simp_thms)
  then show "length (refresh_length l h p u t) = length h" "refresh_length l h p u t ! 0 = h ! 0"
    "drop p (refresh_length l h p u t) = drop p h" by blast+
qed

lemma after_1rtt_current:
  "\<exists>r'. after_1rtt_decrypt now r pi False = (r', pi\<lparr>pi_flag := pi_flag pi OR XQC_PIF_CURRENT_KEY_PHASE\<rparr>, Inr ())"
  by (simp add: after_1rtt_decrypt_def Let_def)

lemma prepare_current: "prepare_rx_keys now r False = (r, Inr ())"
  by (simp add: prepare_rx_keys_def)

text \<open>The number and window of a packet number that the receiver completes.\<close>

definition pn_in_window :: "nat \<Rightarrow> u64 \<Rightarrow> u64 \<Rightarrow> bool" where
  "pn_in_window k largest pn \<longleftrightarrow> unat pn < 2 ^ 62 \<and> unat largest < 2 ^ 62
     \<and> unat largest + 1 < unat pn + 2 ^ (8 * k - 1) \<and> unat pn \<le> unat largest + 1 + 2 ^ (8 * k - 1)"

lemma decode_in_window:
  assumes "1 \<le> k" "k \<le> 4" "pn_in_window k largest pn"
  shows "xqc_packet_decode_packet_number largest (xqc_packet_parse_packet_number (be_bytes k pn @ rest) k) (k * 8) = pn"
proof -
  obtain b where b: "k = b + 1" "b \<le> 3" using assms(1,2) by (metis add.commute add_le_cancel_left le_add_diff_inverse numeral_3_eq_3 One_nat_def Suc_eq_plus1 eval_nat_numeral(2) semiring_norm(26,27))
  show ?thesis
    using parse_write_packet_number [OF b(2), of pn rest] decode_take_bit [OF b(2), of pn largest] assms(3)
    by (simp only: write_packet_number_be [OF b(2)] b(1) pn_in_window_def mult.commute simp_thms)
qed

definition largest_recv :: "xqc_conn_sec \<Rightarrow> xqc_packet_in_sec \<Rightarrow> u64" where
  "largest_recv conn pi =
     (case xqc_conn_find_path_by_path_id conn (pi_path_id pi) of
        None \<Rightarrow> 0 | Some path \<Rightarrow> xqc_recv_record_largest (ctl_recv_record (path_pn_ctl path) (pkt_pns (pi_pkt pi))))"

lemma pktno_len_pos: "1 \<le> XQC_PACKET_SHORT_HEADER_PKTNO_LEN b"
  by (simp add: XQC_PACKET_SHORT_HEADER_PKTNO_LEN_def)

lemma decode_number_simps:
  "pi_buf (decode_number r pi) = pi_buf pi" "pi_path_id (decode_number r pi) = pi_path_id pi"
  "decode_payload_size (decode_number r pi) = decode_payload_size pi"
  "pi_pkt (decode_number r pi) = (pi_pkt pi)\<lparr>pkt_num :=
     (let k = XQC_PACKET_SHORT_HEADER_PKTNO_LEN (pi_buf pi ! 0)
      in xqc_packet_decode_packet_number (largest_recv r pi)
           (xqc_packet_parse_packet_number (drop (pkt_num_offset (pi_pkt pi)) (pi_buf pi)) k) (k * 8))\<rparr>"
  unfolding decode_number_def largest_recv_def Let_def by (simp_all cong: option.case_cong)

lemma decrypt_header_step:
  assumes "tls_crypto r (xqc_packet_type_to_enc_level (pkt_type (pi_pkt pi))) = Some cr"
    and "xqc_packet_type_to_enc_level (pkt_type (pi_pkt pi)) = XQC_ENC_LEV_0RTT \<Longrightarrow> early_data_accepted r"
    and "xqc_crypto_decrypt_header cr (pkt_type (pi_pkt pi)) (pi_buf pi) (pkt_num_offset (pi_pkt pi))
           (pkt_num_offset (pi_pkt pi) + unat (pkt_length (pi_pkt pi))) = (buf, Inr ())"
  shows "xqc_packet_decrypt now r pi = open_payload now r (decode_number r (pi\<lparr>pi_buf := buf\<rparr>))"
proof -
  have "\<not> (xqc_packet_type_to_enc_level (pkt_type (pi_pkt pi)) = XQC_ENC_LEV_0RTT \<and> \<not> early_data_accepted r)" using assms(2) by blast
  then show ?thesis
    unfolding xqc_packet_decrypt_def Let_def assms(1) xqc_tls_decrypt_header_def option.case assms(3) by (simp only: if_False prod.case sum.case)
qed

lemma open_payload_current:
  assumes phase: "pkt_type (pi_pkt pi) = XQC_PTYPE_SHORT_HEADER \<Longrightarrow>
      XQC_PACKET_SHORT_HEADER_KEY_PHASE (pi_buf pi ! 0) = next_in_key_phase (key_update_ctx r)"
    and dec: "xqc_tls_decrypt_payload (tls_crypto r (xqc_packet_type_to_enc_level (pkt_type (pi_pkt pi))))
        (xqc_packet_type_to_enc_level (pkt_type (pi_pkt pi))) (pkt_num (pi_pkt pi))
        (if enable_multipath r then ucast (pi_path_id pi) else 0)
        (take (pkt_num_offset (pi_pkt pi) + XQC_PACKET_SHORT_HEADER_PKTNO_LEN (pi_buf pi ! 0)) (pi_buf pi))
        (take (unat (pkt_length (pi_pkt pi)) - XQC_PACKET_SHORT_HEADER_PKTNO_LEN (pi_buf pi ! 0))
          (drop (pkt_num_offset (pi_pkt pi) + XQC_PACKET_SHORT_HEADER_PKTNO_LEN (pi_buf pi ! 0)) (pi_buf pi)))
        (decode_payload_size pi) = Inr m"
  shows "\<exists>r' pi'. open_payload now r pi = (r', pi', Inr ()) \<and> decode_payload pi' = m \<and> pkt_num (pi_pkt pi') = pkt_num (pi_pkt pi)"
proof -
  let ?b = "pkt_type (pi_pkt pi) = XQC_PTYPE_SHORT_HEADER \<and> xqc_packet_type_to_enc_level (pkt_type (pi_pkt pi)) = XQC_ENC_LEV_1RTT"
  have o: "(?b \<and> XQC_PACKET_SHORT_HEADER_KEY_PHASE (pi_buf pi ! 0) \<noteq> next_in_key_phase (key_update_ctx r)) = False"
    using phase by blast
  have "open_payload now r pi = (if \<not> ?b then (r, pi\<lparr>decode_payload := m\<rparr>, Inr ()) else after_1rtt_decrypt now r (pi\<lparr>decode_payload := m\<rparr>) False)"
    unfolding open_payload_def Let_def o prepare_current prod.case sum.case dec ..
  then show ?thesis
    using after_1rtt_current [of now r "pi\<lparr>decode_payload := m\<rparr>"] by auto
qed

text \<open>The steps in front of the payload.\<close>

lemma decrypt_to_open:
  fixes pi :: xqc_packet_in_sec and h :: bytes
  defines "l \<equiv> xqc_packet_type_to_enc_level (pkt_type (pi_pkt pi))"
  defines "k \<equiv> XQC_PACKET_SHORT_HEADER_PKTNO_LEN (h ! 0)"
  assumes cr: "tls_crypto r l = Some cr" and ed: "l = XQC_ENC_LEV_0RTT \<Longrightarrow> early_data_accepted r"
    and len: "unat (pkt_length (pi_pkt pi)) = k + length c" "length h = pkt_num_offset (pi_pkt pi) + k" "0 < pkt_num_offset (pi_pkt pi)"
    and hd: "xqc_crypto_decrypt_header cr (pkt_type (pi_pkt pi)) (pi_buf pi) (pkt_num_offset (pi_pkt pi))
               (pkt_num_offset (pi_pkt pi) + (k + length c)) = (h @ c @ rest, Inr ())"
    and pn: "drop (pkt_num_offset (pi_pkt pi)) h = be_bytes k pn" "pn_in_window k (largest_recv r pi) pn"
  obtains pi0 where "xqc_packet_decrypt now r pi = open_payload now r pi0" and "pi_buf pi0 ! 0 = h ! 0"
    and "pi_pkt pi0 = (pi_pkt pi)\<lparr>pkt_num := pn\<rparr>" and "pi_path_id pi0 = pi_path_id pi" and "decode_payload_size pi0 = decode_payload_size pi"
    and "take (pkt_num_offset (pi_pkt pi) + k) (pi_buf pi0) = h"
    and "take (unat (pkt_length (pi_pkt pi)) - k) (drop (pkt_num_offset (pi_pkt pi) + k) (pi_buf pi0)) = c"
proof -
  let ?off = "pkt_num_offset (pi_pkt pi)"
  obtain buf where buf: "buf = h @ c @ rest" by simp
  have hne: "h \<noteq> []" using len(2,3) by auto
  then have h0: "buf ! 0 = h ! 0" by (simp add: nth_append buf)
  have hdr: "take (?off + k) buf = h" using len(2) by (simp add: buf)
  have pay: "take (unat (pkt_length (pi_pkt pi)) - k) (drop (?off + k) buf) = c" using len(1,2) by (simp add: buf)
  have pnb: "drop ?off buf = be_bytes k pn @ c @ rest" using pn(1) len(2) by (simp add: buf pn(1) [symmetric])
  have lr: "largest_recv r (pi\<lparr>pi_buf := buf\<rparr>) = largest_recv r pi" by (simp add: largest_recv_def cong: option.case_cong)
  have d: "xqc_packet_decode_packet_number (largest_recv r pi) (xqc_packet_parse_packet_number (drop ?off buf) k) (k * 8) = pn"
    unfolding pnb k_def by (rule decode_in_window) (use pn(2) in \<open>simp_all only: pktno_len_le pktno_len_pos k_def\<close>)
  define pi0 where "pi0 = decode_number r (pi\<lparr>pi_buf := buf\<rparr>)"
  have pi0: "pi_buf pi0 = buf" "pi_pkt pi0 = (pi_pkt pi)\<lparr>pkt_num := pn\<rparr>" "pi_path_id pi0 = pi_path_id pi" "decode_payload_size pi0 = decode_payload_size pi"
    unfolding pi0_def by (simp_all add: decode_number_simps lr h0 k_def [symmetric] d)
  have "xqc_packet_decrypt now r pi = open_payload now r pi0"
    unfolding pi0_def by (rule decrypt_header_step) (use cr ed hd in \<open>simp_all only: l_def len(1) buf\<close>)
  then show thesis by (rule that) (simp_all only: pi0 h0 hdr pay)
qed

text \<open>A packet that is ready to be protected: its header ends with the packet number, in the length that its first byte names.\<close>

definition po_ready :: "xqc_packet_out_sec \<Rightarrow> bool" where
  "po_ready po \<longleftrightarrow> (let k = XQC_PACKET_SHORT_HEADER_PKTNO_LEN (po_buf po ! 0) in
     po_pkt_type po \<in> {XQC_PTYPE_INIT, XQC_PTYPE_0RTT, XQC_PTYPE_HSK, XQC_PTYPE_SHORT_HEADER}
     \<and> (if po_pkt_type po = XQC_PTYPE_SHORT_HEADER then 1 else 3) \<le> po_ppktno po
     \<and> po_payload po = po_ppktno po + k \<and> po_payload po \<le> po_used_size po \<and> po_used_size po \<le> length (po_buf po)
     \<and> take k (drop (po_ppktno po) (po_buf po)) = be_bytes k (po_pkt_num po))"

text \<open>The payload of a packet.\<close>

definition po_frames :: "xqc_packet_out_sec \<Rightarrow> bytes" where
  "po_frames po = take (po_used_size po - po_payload po) (drop (po_payload po) (po_buf po))"

text \<open>A received packet whose header has been parsed.\<close>

definition pi_parsed :: "xqc_packet_in_sec \<Rightarrow> xqc_packet_out_sec \<Rightarrow> bytes \<Rightarrow> bool" where
  "pi_parsed pi po pkt \<longleftrightarrow> (\<exists>rest. pi_buf pi = pkt @ rest) \<and> pkt_type (pi_pkt pi) = po_pkt_type po
     \<and> pkt_num_offset (pi_pkt pi) = po_ppktno po \<and> unat (pkt_length (pi_pkt pi)) = length pkt - po_ppktno po
     \<and> length pkt \<le> decode_payload_size pi \<and> pi_path_id pi = po_path_id po"

lemma find_path_id: "xqc_conn_find_path_by_path_id s i = Some p \<Longrightarrow> sec_path_id p = i"
  by (auto simp: xqc_conn_find_path_by_path_id_def find_Some_iff)

lemma level_iff:
  "xqc_packet_type_to_enc_level t = XQC_ENC_LEV_1RTT \<longleftrightarrow> t = XQC_PTYPE_SHORT_HEADER"
  "xqc_packet_type_to_enc_level t = XQC_ENC_LEV_0RTT \<longleftrightarrow> t = XQC_PTYPE_0RTT"
  by (cases t; simp)+

text \<open>The parts of a protected packet, as the receiver gets them.\<close>

lemma protected_parts:
  assumes enc: "xqc_packet_encrypt_buf now s po cap = (s', po', Inr pkt)" and ready: "po_ready po" and pi: "pi_parsed pi po pkt"
    and cs: "tls_crypto s (xqc_packet_type_to_enc_level (po_pkt_type po)) = Some cs"
    and hp: "rx_hp cr = tx_hp cs" "hp_mask (hp_cipher cr) = hp_mask (hp_cipher cs)"
  defines "l \<equiv> xqc_packet_type_to_enc_level (po_pkt_type po)" and "k \<equiv> XQC_PACKET_SHORT_HEADER_PKTNO_LEN (po_buf po ! 0)"
  obtains h ep rest where "h ! 0 = po_buf po ! 0" and "length h = pkt_num_offset (pi_pkt pi) + k" and "0 < pkt_num_offset (pi_pkt pi)"
    and "unat (pkt_length (pi_pkt pi)) = k + length ep"
    and "drop (pkt_num_offset (pi_pkt pi)) h = be_bytes k (po_pkt_num po)" and "length ep \<le> decode_payload_size pi"
    and "xqc_crypto_decrypt_header cr (pkt_type (pi_pkt pi)) (pi_buf pi) (pkt_num_offset (pi_pkt pi))
           (pkt_num_offset (pi_pkt pi) + (k + length ep)) = (h @ ep @ rest, Inr ())"
    and "xqc_tls_encrypt_payload cs l (po_pkt_num po) (if enable_multipath s then ucast (pi_path_id pi) else 0) h
           (po_frames po) (cap - po_payload po) = Inr ep"
proof -
  obtain path ep where path: "xqc_conn_find_path_by_path_id s (po_path_id po) = Some path"
    and pay: "xqc_tls_encrypt_payload cs l (po_pkt_num po) (if enable_multipath s then ucast (sec_path_id path) else 0)
           (refresh_length l (take (po_payload po) (po_buf po)) (po_ppktno po) (po_used_size po) (xqc_crypto_aead_tag_len cs))
           (po_frames po) (cap - po_payload po) = Inr ep"
    and hdr: "xqc_crypto_encrypt_header cs (po_pkt_type po)
           (refresh_length l (take (po_payload po) (po_buf po)) (po_ppktno po) (po_used_size po) (xqc_crypto_aead_tag_len cs) @ ep)
           (po_ppktno po)
           (length (refresh_length l (take (po_payload po) (po_buf po)) (po_ppktno po) (po_used_size po) (xqc_crypto_aead_tag_len cs) @ ep)) = Inr pkt"
    by (rule encrypt_bufE [OF enc]) (simp add: cs l_def po_frames_def)
  let ?h0 = "take (po_payload po) (po_buf po)"
  obtain h where h: "h = refresh_length l ?h0 (po_ppktno po) (po_used_size po) (xqc_crypto_aead_tag_len cs)" by simp
  have rd: "k + po_ppktno po = po_payload po" "po_payload po \<le> length (po_buf po)" "0 < po_ppktno po" "l \<noteq> XQC_ENC_LEV_1RTT \<Longrightarrow> 3 \<le> po_ppktno po"
    "take k (drop (po_ppktno po) (po_buf po)) = be_bytes k (po_pkt_num po)"
    using ready by (auto simp: po_ready_def Let_def k_def l_def level_iff split: if_splits)
  have "po_ppktno po \<le> length ?h0" using rd(1,2) by simp
  note hf = refresh_length_facts [where l = l and u = "po_used_size po" and t = "xqc_crypto_aead_tag_len cs", OF rd(4) this, folded h]
  have "?h0 ! 0 = po_buf po ! 0" using rd(1-3) by (cases "po_buf po"; cases "po_payload po") simp_all
  then have b0: "h ! 0 = po_buf po ! 0" using hf(2) by simp
  have lh: "length h = po_ppktno po + k" using hf(1) rd(1,2) by simp
  have dh: "drop (po_ppktno po) h = be_bytes k (po_pkt_num po)" using hf(3) rd(5) by (simp add: drop_take rd(1) [symmetric])
  obtain rest where rest: "pi_buf pi = pkt @ rest" using pi by (auto simp: pi_parsed_def)
  note hpr = hp_roundtrip [OF encrypt_header_append [OF hdr [folded h] rd(3), of rest], of cr]
  have dec_h: "xqc_crypto_decrypt_header cr (po_pkt_type po) (pkt @ rest) (po_ppktno po) (length (h @ ep)) = ((h @ ep) @ rest, Inr ())"
    by (rule hpr(1)) (use hp rd(3) in simp_all)
  have lp: "length pkt = length h + length ep" using hpr(2) hp rd(3) by simp
  show thesis
    by (rule that [of h ep rest])
      (use pi lp lh dh b0 dec_h rd(3) rest pay [folded h] find_path_id [OF path] in \<open>simp_all add: pi_parsed_def add.assoc split: if_splits\<close>)
qed

text \<open>C3: What one endpoint protects the other opens (RFC 9001, section 5). When \<open>xqc_packet_encrypt_buf\<close> protects a packet of any of the four
  types with a packet number, then \<open>xqc_packet_decrypt\<close> of a receiver with the same keys, in the current key phase, removes the header
  protection, completes the packet number and returns exactly the payload, whatever follows the packet in the datagram. That the AEAD opens what it
  has sealed is the assumption \<open>aead_correct\<close> in \<open>keys_match\<close>.\<close>

theorem protected_packet_roundtrip:
  assumes enc: "xqc_packet_encrypt_buf now s po cap = (s', po', Inr pkt)" and ready: "po_ready po" and pi: "pi_parsed pi po pkt"
    and keys: "tls_crypto s (xqc_packet_type_to_enc_level (po_pkt_type po)) = Some cs"
      "tls_crypto r (xqc_packet_type_to_enc_level (po_pkt_type po)) = Some cr"
      "keys_match cs cr (level_phase (xqc_packet_type_to_enc_level (po_pkt_type po)) (po_buf po ! 0))"
    and early: "po_pkt_type po = XQC_PTYPE_0RTT \<Longrightarrow> early_data_accepted r"
    and phase: "po_pkt_type po = XQC_PTYPE_SHORT_HEADER \<Longrightarrow>
      XQC_PACKET_SHORT_HEADER_KEY_PHASE (po_buf po ! 0) = next_in_key_phase (key_update_ctx r)"
    and mp: "enable_multipath r = enable_multipath s"
    and window: "pn_in_window (XQC_PACKET_SHORT_HEADER_PKTNO_LEN (po_buf po ! 0)) (largest_recv r pi) (po_pkt_num po)"
  shows "\<exists>r' pi'. xqc_packet_decrypt now' r pi = (r', pi', Inr ()) \<and> decode_payload pi' = po_frames po
    \<and> pkt_num (pi_pkt pi') = po_pkt_num po"
proof -
  define l k where "l = xqc_packet_type_to_enc_level (po_pkt_type po)" and "k = XQC_PACKET_SHORT_HEADER_PKTNO_LEN (po_buf po ! 0)"
  have pt: "pkt_type (pi_pkt pi) = po_pkt_type po" using pi by (simp add: pi_parsed_def)
  obtain h ep rest where h: "h ! 0 = po_buf po ! 0" "length h = pkt_num_offset (pi_pkt pi) + k" "0 < pkt_num_offset (pi_pkt pi)"
      "unat (pkt_length (pi_pkt pi)) = k + length ep" "drop (pkt_num_offset (pi_pkt pi)) h = be_bytes k (po_pkt_num po)"
      "length ep \<le> decode_payload_size pi"
    and dh: "xqc_crypto_decrypt_header cr (pkt_type (pi_pkt pi)) (pi_buf pi) (pkt_num_offset (pi_pkt pi))
           (pkt_num_offset (pi_pkt pi) + (k + length ep)) = (h @ ep @ rest, Inr ())"
    and pay: "xqc_tls_encrypt_payload cs l (po_pkt_num po) (if enable_multipath s then ucast (pi_path_id pi) else 0) h
           (po_frames po) (cap - po_payload po) = Inr ep"
    by (rule protected_parts [OF enc ready pi keys(1), of cr]) (use keys(3) in \<open>auto simp: keys_match_def l_def k_def\<close>)
  obtain pi0 where op: "xqc_packet_decrypt now' r pi = open_payload now' r pi0" and p0: "pi_buf pi0 ! 0 = h ! 0"
      "pi_pkt pi0 = (pi_pkt pi)\<lparr>pkt_num := po_pkt_num po\<rparr>" "pi_path_id pi0 = pi_path_id pi" "decode_payload_size pi0 = decode_payload_size pi"
      "take (pkt_num_offset (pi_pkt pi) + k) (pi_buf pi0) = h" "take (unat (pkt_length (pi_pkt pi)) - k) (drop (pkt_num_offset (pi_pkt pi) + k) (pi_buf pi0)) = ep"
    by (rule decrypt_to_open [of r pi cr h ep rest "po_pkt_num po" now'])
      (use keys(2) early window h dh in \<open>simp_all add: pt k_def [symmetric] level_iff\<close>)
  have dec: "xqc_tls_decrypt_payload (Some cr) l (po_pkt_num po) (if enable_multipath r then ucast (pi_path_id pi) else 0) h ep (decode_payload_size pi)
      = Inr (po_frames po)"
    using tls_payload_roundtrip(1) [OF pay _ h(6), of cr] keys(3) by (simp add: h(1) l_def mp)
  have "\<exists>r' pi'. open_payload now' r pi0 = (r', pi', Inr ()) \<and> decode_payload pi' = po_frames po \<and> pkt_num (pi_pkt pi') = pkt_num (pi_pkt pi0)"
    by (rule open_payload_current)
      (use phase dec keys(2) p0(5,6) in \<open>simp_all add: p0(1-4) h(1) pt k_def [symmetric] l_def [symmetric] split: if_splits\<close>)
  then show ?thesis by (simp add: op p0)
qed

lemma null_aead_correct: "aead_correct (xqc_aead_init_null n j) (xqc_aead_init_null n j)"
  by (auto simp: aead_correct_def xqc_aead_init_null_def xqc_null_aead_encrypt_def xqc_null_aead_decrypt_def split: if_splits)

definition km_example :: xqc_crypto_km where
  "km_example = \<lparr>km_key = [1], km_iv = [1, 2, 3, 4, 5, 6, 7, 8], km_secret = [9]\<rparr>"

definition crypto_example :: xqc_crypto where
  "crypto_example = (the (xqc_crypto_create undefined (\<lambda>s l n. if n \<le> 255 * 32 then Some (replicate n 7) else None) 0 0))
     \<lparr>rx_ckm := [km_example, km_init], tx_ckm := [km_example, km_init], rx_hp := [1], tx_hp := [1]\<rparr>"

definition path_sec_example :: xqc_path_sec where
  "path_sec_example = \<lparr>sec_path_id = 0, sec_path_dcid = xqc_cid_init_zero,
     path_pn_ctl = \<lparr>ctl_packet_number = (\<lambda>_. 7), ctl_recv_record = (\<lambda>_. \<lparr>rr_ranges = [], rr_del_from = 0, rr_node_count = 0\<rparr>),
       ctl_skipped_pn_low = 0, ctl_skipped_pn_high = 0, ctl_next_skip_chance = 0\<rparr>,
     path_ku_first_sent_pktno = 0, path_ku_first_recv_pktno = XQC_MAX_UINT64_VALUE\<rparr>"

definition ku_example :: xqc_key_update_ctx where
  "ku_example = \<lparr>cur_out_key_phase = 0, next_in_key_phase = 0, key_update_cnt = 0, other_rx_keys = XQC_KU_RX_KEYS_NONE, enc_pkt_cnt = 0,
     aead_confidentiality_limit = 0, initiate_time_guard = 0, current_keys_acked = False, awaiting_peer_key_update = False\<rparr>"

definition conn_sec_example :: xqc_conn_sec where
  "conn_sec_example = xqc_conn_hdr.extend conn_hdr_example
     \<lparr>tls_crypto = (\<lambda>_. Some crypto_example), early_data_accepted = False, key_update_ctx = ku_example, enable_multipath = False,
      keyupdate_pkt_threshold = 0, marking_reinjection = False, disable_pn_skipping = True, eng_client = True,
      sec_paths = [path_sec_example], conn_timer_manager = xqc_timer_init, max_pto = 100\<rparr>"

definition po_sec_example :: xqc_packet_out_sec where
  "po_sec_example = xqc_packet_out.extend
     (po_example\<lparr>po_buf := [0x43, 0, 0, 0, 7] @ replicate 20 9, po_used_size := 25\<rparr>)
     \<lparr>po_pkt_type = XQC_PTYPE_SHORT_HEADER, po_ppktno = 1, po_payload = 5, po_path_id = 0, po_enc_size = 0, po_ack_offset = 0, po_sent_time = 0\<rparr>"

definition pi_sec_example :: "bytes \<Rightarrow> xqc_packet_in_sec" where
  "pi_sec_example d = xqc_packet_in_hdr.extend
     ((pi_hdr_example d)\<lparr>pi_pkt := (pi_pkt (pi_hdr_example d))\<lparr>pkt_type := XQC_PTYPE_SHORT_HEADER, pkt_pns := XQC_PNS_APP_DATA,
         pkt_length := of_nat (length d - 1), pkt_num_offset := 1\<rparr>, pi_path_id := 0\<rparr>)
     \<lparr>pi_flag = 0, decode_payload_size = 1500, decode_payload = []\<rparr>"

lemmas sec_example_defs = conn_sec_example_def xqc_conn_hdr.defs conn_hdr_example_def xqc_connection.defs conn_example_def
  po_sec_example_def xqc_packet_out.defs po_example_def

lemma sec_example_simps [simp]:
  "tls_crypto conn_sec_example l = Some crypto_example" "key_update_ctx conn_sec_example = ku_example"
  "enable_multipath conn_sec_example = False" "xqc_conn_find_path_by_path_id conn_sec_example 0 = Some path_sec_example"
  "sec_path_id path_sec_example = 0" "po_pkt_type po_sec_example = XQC_PTYPE_SHORT_HEADER" "po_ppktno po_sec_example = 1"
  "po_payload po_sec_example = 5" "po_used_size po_sec_example = 25" "po_buf po_sec_example = [0x43, 0, 0, 0, 7] @ replicate 20 9"
  "po_pkt_num po_sec_example = 7" "po_path_id po_sec_example = 0" "next_in_key_phase ku_example = 0" "aead_confidentiality_limit ku_example = 0"
  by (simp_all add: sec_example_defs xqc_conn_find_path_by_path_id_def path_sec_example_def ku_example_def)

lemma crypto_example_simps [simp]:
  "pp_aead crypto_example = xqc_aead_init_null 16 0" "hp_cipher crypto_example = xqc_cipher_init_null"
  "rx_ckm crypto_example = [km_example, km_init]" "tx_ckm crypto_example = [km_example, km_init]" "rx_hp crypto_example = [1]"
  "tx_hp crypto_example = [1]" "key_phase crypto_example = 0" "cipher_id crypto_example = 0"
  by (simp_all add: crypto_example_def xqc_crypto_create_def XQC_TLS13_AES_128_GCM_SHA256_def XQC_TLS13_AES_256_GCM_SHA384_def
      XQC_TLS13_CHACHA20_POLY1305_SHA256_def XQC_FAKE_AEAD_OVERHEAD_def XQC_TLS_AEAD_OVERHEAD_MAX_LEN_def)

lemma header_example:
  "XQC_PACKET_SHORT_HEADER_PKTNO_LEN 0x43 = 4" "XQC_PACKET_SHORT_HEADER_KEY_PHASE 0x43 = 0" "be_bytes 4 (7 :: u64) = [0, 0, 0, 7]"
  by (simp_all add: XQC_PACKET_SHORT_HEADER_PKTNO_LEN_def XQC_PACKET_SHORT_HEADER_KEY_PHASE_def be_bytes_4)

lemma po_sec_example_ready: "po_ready po_sec_example"
  by (simp add: po_ready_def header_example Let_def)

lemma crypto_example_match: "keys_match crypto_example crypto_example p"
  by (simp add: keys_match_def null_aead_correct)

lemma po_sec_example_encrypt:
  "\<exists>s' po'. xqc_packet_encrypt_buf 0 conn_sec_example po_sec_example 100 =
     (s', po', Inr (([0x43, 0, 0, 0, 7] @ replicate 20 9) @ replicate 16 0))"
proof -
  have ready: "xqc_tls_is_key_ready conn_sec_example XQC_ENC_LEV_1RTT XQC_KEY_TYPE_TX_WRITE"
    by (simp add: xqc_tls_is_key_ready_def xqc_crypto_is_key_ready_def get_ckm_def km_example_def)
  have lim: "encrypt_limit conn_sec_example True = (conn_sec_example, Inr False)"
    by (simp add: encrypt_limit_def xqc_tls_get_1rtt_cipher_id_def)
  have pay: "xqc_tls_encrypt_payload crypto_example XQC_ENC_LEV_1RTT 7 0 [0x43, 0, 0, 0, 7] (replicate 20 9) 95 = Inr (replicate 20 9 @ replicate 16 0)"
    by (simp add: xqc_tls_encrypt_payload_def header_example XQC_KEY_PHASE_CNT_def xqc_crypto_encrypt_payload_def km_example_def
        xqc_aead_init_null_def xqc_null_aead_encrypt_def Let_def)
  have hdr: "xqc_crypto_encrypt_header crypto_example XQC_PTYPE_SHORT_HEADER ([0x43, 0, 0, 0, 7] @ replicate 20 9 @ replicate 16 0) 1
      (length ([0x43, 0, 0, 0, 7] @ replicate 20 9 @ replicate 16 (0 :: u8))) = Inr ([0x43, 0, 0, 0, 7] @ replicate 20 9 @ replicate 16 0)"
    by (simp add: xqc_crypto_encrypt_header_def header_example xqc_crypto_check_hp_sample_def XQC_HP_SAMPLELEN_def
        xqc_cipher_init_null_def xqc_null_hp_mask_def XQC_FAKE_HP_MASK_def XQC_HP_MASKLEN_def xor_at_def Let_def numeral_eq_Suc)
  show ?thesis
    using ready lim pay hdr by (simp add: xqc_packet_encrypt_buf_def Let_def refresh_length_def)
qed

theorem protected_packet_roundtrip_witness:
  "\<exists>s' po' pkt r' pi'. xqc_packet_encrypt_buf 0 conn_sec_example po_sec_example 100 = (s', po', Inr pkt)
     \<and> xqc_packet_decrypt 0 conn_sec_example (pi_sec_example pkt) = (r', pi', Inr ())
     \<and> decode_payload pi' = replicate 20 9 \<and> pkt_num (pi_pkt pi') = 7"
proof -
  let ?pkt = "([0x43, 0, 0, 0, 7] @ replicate 20 9) @ replicate 16 0 :: bytes"
  obtain s' po' where enc: "xqc_packet_encrypt_buf 0 conn_sec_example po_sec_example 100 = (s', po', Inr ?pkt)"
    using po_sec_example_encrypt by blast
  have pi: "pi_parsed (pi_sec_example ?pkt) po_sec_example ?pkt"
    by (simp add: pi_parsed_def pi_sec_example_def xqc_packet_in_hdr.defs pi_hdr_example_def)
  have lr: "largest_recv conn_sec_example (pi_sec_example ?pkt) = 0"
    by (simp add: largest_recv_def pi_sec_example_def xqc_packet_in_hdr.defs path_sec_example_def xqc_recv_record_largest_def)
  have "\<exists>r' pi'. xqc_packet_decrypt 0 conn_sec_example (pi_sec_example ?pkt) = (r', pi', Inr ())
     \<and> decode_payload pi' = po_frames po_sec_example \<and> pkt_num (pi_pkt pi') = po_pkt_num po_sec_example"
    by (rule protected_packet_roundtrip [where cs = crypto_example and cr = crypto_example, OF enc po_sec_example_ready pi])
      (simp_all add: crypto_example_match lr [simplified] pn_in_window_def header_example)
  with enc show ?thesis by (auto simp: po_frames_def)
qed

end
