(* ===== verification/Stream_Flow.thy ===== *)
theory Stream_Flow
  imports Stream_Recv Stream_Frame Frame_Roundtrip Packet_Protect
begin

text \<open>
  Streams and flow control: creation of streams, the handlers of STREAM, RESET\_STREAM, RESET\_STREAM\_AT, MAX\_DATA and the other flow
  control frames in transport/xqc_frame.c, and reading, resetting and the limits of streams in transport/xqc_stream.c.

  The streams of a connection are the list \<open>conn_all_streams\<close>, in which the hash table of the source finds a stream by its
  identifier. An operation on a stream works on a copy of it, which is written back at the end. Control frames are collected in the order in
  which they are queued; \<open>sc_write_ok\<close> says whether packets for them can be allocated. Callbacks of the application, statistics, forward error
  correction and the lists of readable and writable streams are left out; the flags that go with these lists are kept.
\<close>

section \<open>Data\<close>

datatype xqc_send_stream_state =
    XQC_SEND_STREAM_ST_READY | XQC_SEND_STREAM_ST_SEND | XQC_SEND_STREAM_ST_DATA_SENT
  | XQC_SEND_STREAM_ST_DATA_RECVD | XQC_SEND_STREAM_ST_RESET_SENT | XQC_SEND_STREAM_ST_RESET_RECVD

datatype xqc_recv_stream_state =
    XQC_RECV_STREAM_ST_RECV | XQC_RECV_STREAM_ST_SIZE_KNOWN | XQC_RECV_STREAM_ST_DATA_RECVD
  | XQC_RECV_STREAM_ST_DATA_READ | XQC_RECV_STREAM_ST_RESET_RECVD | XQC_RECV_STREAM_ST_RESET_READ

datatype xqc_reset_at_send_state = XQC_RESET_AT_NONE | XQC_RESET_AT_READY | XQC_RESET_AT_SENT
datatype xqc_reset_at_recv_state = XQC_RESET_AT_RECV_NONE | XQC_RESET_AT_RELIABLE | XQC_RESET_AT_ORDINARY

record xqc_stream_flow_ctl =
  fc_max_stream_data_can_send :: u64
  fc_max_stream_data_can_recv :: u64
  fc_stream_recv_window_size :: u64
  fc_stream_last_update :: u64

record xqc_stream_reset_at =
  ra_send_size :: u64
  ra_send_final_size :: u64
  ra_send_error :: u64
  ra_recv_size :: u64
  ra_recv_error :: u64
  ra_send_update_pending :: bool
  ra_send_reset_acked :: bool
  ra_recv_seen :: bool
  ra_send_state :: xqc_reset_at_send_state
  ra_recv_state :: xqc_reset_at_recv_state

record xqc_stream =
  stream_id :: u64
  stream_type :: u64
  stream_flow_ctl :: xqc_stream_flow_ctl
  stream_send_offset :: u64
  reset_at :: xqc_stream_reset_at
  stream_max_recv_offset :: u64
  stream_flag :: u32
  stream_data_in :: xqc_stream_data_in
  stream_state_send :: xqc_send_stream_state
  stream_state_recv :: xqc_recv_stream_state
  stream_close_time :: u64
  stream_err :: u64
  recv_rate_bytes_per_sec :: u64

record xqc_conn_flow_ctl =
  fc_max_data_can_send :: u64
  fc_data_sent :: u64
  fc_max_data_can_recv :: u64
  fc_data_recved :: u64
  fc_data_read :: u64
  fc_max_streams_bidi_can_send :: u64
  fc_max_streams_bidi_can_recv :: u64
  fc_max_streams_uni_can_send :: u64
  fc_max_streams_uni_can_recv :: u64
  fc_recv_windows_size :: u64
  fc_last_window_update_time :: u64

record xqc_trans_settings_fc =
  max_stream_data_bidi_local :: u64
  max_stream_data_bidi_remote :: u64
  max_stream_data_uni :: u64
  max_streams_bidi :: u64
  max_streams_uni :: u64
  reset_stream_at :: bool

record xqc_conn_str =
  sc_conn :: xqc_connection
  sc_state :: xqc_conn_state
  conn_flow_ctl :: xqc_conn_flow_ctl
  conn_all_streams :: "xqc_stream list"
  passive_streams_hash :: "u64 list"
  cur_stream_id_bidi_local :: u64
  cur_stream_id_uni_local :: u64
  max_stream_id_bidi_remote :: int
  max_stream_id_uni_remote :: int
  local_settings :: xqc_trans_settings_fc
  remote_settings :: xqc_trans_settings_fc
  max_stream_frame_buffered_cnt :: u64
  conn_recv_rate_bytes_per_sec :: u64
  enable_stream_rate_limit :: bool
  init_recv_window :: u64
  pkt_out_size :: u64
  sc_min_srtt :: u64
  sc_max_srtt :: u64
  sc_max_pto :: u64
  sc_timers :: xqc_timer_manager
  sc_write_ok :: bool
  ctl_written :: "ctl_frame list"

definition TRA_FLOW_CONTROL_ERROR :: u64 where "TRA_FLOW_CONTROL_ERROR = 0x3"
definition TRA_STREAM_LIMIT_ERROR :: u64 where "TRA_STREAM_LIMIT_ERROR = 0x4"
definition TRA_FINAL_SIZE_ERROR :: u64 where "TRA_FINAL_SIZE_ERROR = 0x6"
definition XQC_CONN_FLAG_DATA_BLOCKED :: u64 where "XQC_CONN_FLAG_DATA_BLOCKED = push_bit 7 1"
definition XQC_CONN_FLAG_TLS_HSK_COMPLETED :: u64 where "XQC_CONN_FLAG_TLS_HSK_COMPLETED = push_bit 28 1"
definition XQC_STREAM_FLAG_READY_TO_WRITE :: u32 where "XQC_STREAM_FLAG_READY_TO_WRITE = push_bit 0 1"
definition XQC_STREAM_FLAG_READY_TO_READ :: u32 where "XQC_STREAM_FLAG_READY_TO_READ = push_bit 1 1"
definition XQC_STREAM_FLAG_DATA_BLOCKED :: u32 where "XQC_STREAM_FLAG_DATA_BLOCKED = push_bit 2 1"
definition XQC_STREAM_FLAG_NEED_CLOSE :: u32 where "XQC_STREAM_FLAG_NEED_CLOSE = push_bit 5 1"
definition XQC_STREAM_FLAG_DISCARDED :: u32 where "XQC_STREAM_FLAG_DISCARDED = push_bit 9 1"
definition XQC_MAX_RECV_WINDOW :: u64 where "XQC_MAX_RECV_WINDOW = 16 * 1024 * 1024"
definition XQC_MIN_RECV_WINDOW :: u64 where "XQC_MIN_RECV_WINDOW = 63000"
definition XQC_MAX_FLOW_CONTROL_WINDOW :: u64 where "XQC_MAX_FLOW_CONTROL_WINDOW = push_bit 62 1 - 1"
definition XQC_MAX_STREAMS :: u64 where "XQC_MAX_STREAMS = push_bit 60 1"
definition XQC_UNDEFINE_STREAM_ID :: u64 where "XQC_UNDEFINE_STREAM_ID = - 1"
definition XQC_CLI_BID :: u64 where "XQC_CLI_BID = 0"
definition XQC_SVR_BID :: u64 where "XQC_SVR_BID = 1"

definition xqc_clamp_to_max_flow_ctl :: "u64 \<Rightarrow> u64" where
  "xqc_clamp_to_max_flow_ctl v = (if v > XQC_MAX_FLOW_CONTROL_WINDOW then XQC_MAX_FLOW_CONTROL_WINDOW else v)"

fun recv_state_num :: "xqc_recv_stream_state \<Rightarrow> nat" where
  "recv_state_num XQC_RECV_STREAM_ST_RECV = 0"
| "recv_state_num XQC_RECV_STREAM_ST_SIZE_KNOWN = 1"
| "recv_state_num XQC_RECV_STREAM_ST_DATA_RECVD = 2"
| "recv_state_num XQC_RECV_STREAM_ST_DATA_READ = 3"
| "recv_state_num XQC_RECV_STREAM_ST_RESET_RECVD = 4"
| "recv_state_num XQC_RECV_STREAM_ST_RESET_READ = 5"

fun send_state_num :: "xqc_send_stream_state \<Rightarrow> nat" where
  "send_state_num XQC_SEND_STREAM_ST_READY = 0"
| "send_state_num XQC_SEND_STREAM_ST_SEND = 1"
| "send_state_num XQC_SEND_STREAM_ST_DATA_SENT = 2"
| "send_state_num XQC_SEND_STREAM_ST_DATA_RECVD = 3"
| "send_state_num XQC_SEND_STREAM_ST_RESET_SENT = 4"
| "send_state_num XQC_SEND_STREAM_ST_RESET_RECVD = 5"

text \<open>Updates of the parts of a connection and of a stream.\<close>

definition sc_err :: "xqc_conn_str \<Rightarrow> u64 \<Rightarrow> xqc_conn_str" where
  "sc_err c e = c\<lparr>sc_conn := XQC_CONN_ERR (sc_conn c) e\<rparr>"

definition fc_upd :: "(xqc_conn_flow_ctl \<Rightarrow> xqc_conn_flow_ctl) \<Rightarrow> xqc_conn_str \<Rightarrow> xqc_conn_str" where
  "fc_upd f c = c\<lparr>conn_flow_ctl := f (conn_flow_ctl c)\<rparr>"

definition sfc_upd :: "(xqc_stream_flow_ctl \<Rightarrow> xqc_stream_flow_ctl) \<Rightarrow> xqc_stream \<Rightarrow> xqc_stream" where
  "sfc_upd f s = s\<lparr>stream_flow_ctl := f (stream_flow_ctl s)\<rparr>"

definition ra_upd :: "(xqc_stream_reset_at \<Rightarrow> xqc_stream_reset_at) \<Rightarrow> xqc_stream \<Rightarrow> xqc_stream" where
  "ra_upd f s = s\<lparr>reset_at := f (reset_at s)\<rparr>"

definition di_upd :: "(xqc_stream_data_in \<Rightarrow> xqc_stream_data_in) \<Rightarrow> xqc_stream \<Rightarrow> xqc_stream" where
  "di_upd f s = s\<lparr>stream_data_in := f (stream_data_in s)\<rparr>"

definition flag_on :: "u32 \<Rightarrow> xqc_stream \<Rightarrow> xqc_stream" where
  "flag_on b s = s\<lparr>stream_flag := stream_flag s OR b\<rparr>"

definition flag_off :: "u32 \<Rightarrow> xqc_stream \<Rightarrow> xqc_stream" where
  "flag_off b s = s\<lparr>stream_flag := stream_flag s AND NOT b\<rparr>"

text \<open>A control frame that is queued: \<open>xqc_write_max_data_to_packet\<close> and its like.\<close>

definition ctl_write :: "ctl_frame \<Rightarrow> xqc_conn_str \<Rightarrow> xqc_conn_str \<times> unit res" where
  "ctl_write f c = (if sc_write_ok c then (c\<lparr>ctl_written := ctl_written c @ [f]\<rparr>, Inr ()) else (c, Inl XQC_EWRITE_PKT))"

definition xqc_write_max_streams_to_packet :: "xqc_conn_str \<Rightarrow> u64 \<Rightarrow> bool \<Rightarrow> xqc_conn_str \<times> unit res" where
  "xqc_write_max_streams_to_packet c max_stream bidi =
     (if max_stream > XQC_MAX_STREAMS then (c, Inl XQC_EPARAM) else ctl_write (MAX_STREAMS max_stream bidi) c)"

section \<open>The table of streams\<close>

definition xqc_find_stream_by_id :: "u64 \<Rightarrow> xqc_conn_str \<Rightarrow> xqc_stream option" where
  "xqc_find_stream_by_id sid c = find (\<lambda>s. stream_id s = sid) (conn_all_streams c)"

definition put_stream :: "xqc_stream \<Rightarrow> xqc_conn_str \<Rightarrow> xqc_conn_str" where
  "put_stream s c = c\<lparr>conn_all_streams := map (\<lambda>t. if stream_id t = stream_id s then s else t) (conn_all_streams c)\<rparr>"

section \<open>Limits\<close>

text \<open>The three limits of a stream: what it can send, what it can receive, and its receive window.\<close>

definition xqc_stream_get_init_max_stream_data :: "xqc_conn_str \<Rightarrow> xqc_stream \<Rightarrow> u64" where
  "xqc_stream_get_init_max_stream_data c s =
     (let ct = conn_type (sc_conn c); l = local_settings c in
      if stream_type s = XQC_SVR_BID
      then (if ct = XQC_CONN_TYPE_SERVER then max_stream_data_bidi_local l else max_stream_data_bidi_remote l)
      else if stream_type s = XQC_CLI_BID
      then (if ct = XQC_CONN_TYPE_SERVER then max_stream_data_bidi_remote l else max_stream_data_bidi_local l)
      else max_stream_data_uni l)"

text \<open>The columns of \<open>xqc_stream_set_flow_ctl\<close>: the limit the peer's settings give, and the limit of our own.\<close>

definition send_limit :: "xqc_conn_type \<Rightarrow> xqc_trans_settings_fc \<Rightarrow> u64 \<Rightarrow> u64" where
  "send_limit ct remote stype =
     (if ct = XQC_CONN_TYPE_CLIENT
      then (if stype = XQC_CLI_BID then max_stream_data_bidi_remote remote
            else if stype = XQC_SVR_BID then max_stream_data_bidi_local remote else max_stream_data_uni remote)
      else (if stype = XQC_CLI_BID then max_stream_data_bidi_local remote
            else if stype = XQC_SVR_BID then max_stream_data_bidi_remote remote else max_stream_data_uni remote))"

definition recv_limit :: "xqc_conn_type \<Rightarrow> xqc_trans_settings_fc \<Rightarrow> u64 \<Rightarrow> u64" where
  "recv_limit ct loc stype =
     (if ct = XQC_CONN_TYPE_CLIENT
      then (if stype = XQC_CLI_BID then max_stream_data_bidi_local loc
            else if stype = XQC_SVR_BID then max_stream_data_bidi_remote loc else max_stream_data_uni loc)
      else (if stype = XQC_CLI_BID then max_stream_data_bidi_remote loc
            else if stype = XQC_SVR_BID then max_stream_data_bidi_local loc else max_stream_data_uni loc))"

definition xqc_stream_set_flow_ctl :: "xqc_conn_str \<Rightarrow> xqc_stream \<Rightarrow> xqc_stream" where
  "xqc_stream_set_flow_ctl c s =
     (let r = remote_settings c;
          r = (if (max_stream_data_bidi_remote r \<noteq> 0 \<and> max_stream_data_bidi_local r \<noteq> 0 \<and> max_stream_data_uni r \<noteq> 0)
                  = False
               then local_settings c else r);
          ct = conn_type (sc_conn c);
          lim = recv_limit ct (local_settings c) (stream_type s)
      in sfc_upd (\<lambda>fc. fc\<lparr>fc_max_stream_data_can_send := send_limit ct r (stream_type s),
                          fc_max_stream_data_can_recv := lim, fc_stream_recv_window_size := lim\<rparr>) s)"

definition xqc_stream_update_flow_ctl :: "xqc_conn_str \<Rightarrow> xqc_stream \<Rightarrow> xqc_stream" where
  "xqc_stream_update_flow_ctl c s =
     sfc_upd (\<lambda>fc. fc\<lparr>fc_max_stream_data_can_send :=
       send_limit (conn_type (sc_conn c)) (remote_settings c) (stream_type s)\<rparr>) s"

section \<open>Readiness and closing\<close>

definition xqc_stream_ready_to_write :: "xqc_stream \<Rightarrow> xqc_stream" where
  "xqc_stream_ready_to_write s = flag_on XQC_STREAM_FLAG_READY_TO_WRITE s"

definition xqc_stream_shutdown_write :: "xqc_stream \<Rightarrow> xqc_stream" where
  "xqc_stream_shutdown_write s = flag_off XQC_STREAM_FLAG_READY_TO_WRITE s"

definition xqc_stream_ready_to_read :: "xqc_stream \<Rightarrow> xqc_stream" where
  "xqc_stream_ready_to_read s = flag_on XQC_STREAM_FLAG_READY_TO_READ s"

definition xqc_stream_shutdown_read :: "xqc_stream \<Rightarrow> xqc_stream" where
  "xqc_stream_shutdown_read s = flag_off XQC_STREAM_FLAG_READY_TO_READ s"

definition xqc_stream_is_terminal_state :: "xqc_conn_type \<Rightarrow> xqc_stream \<Rightarrow> bool" where
  "xqc_stream_is_terminal_state ct s =
     (let bidi = (stream_type s = XQC_CLI_BID \<or> stream_type s = XQC_SVR_BID);
          send_side = (stream_type s = XQC_CLI_UNI \<and> ct = XQC_CONN_TYPE_CLIENT
                       \<or> stream_type s = XQC_SVR_UNI \<and> ct = XQC_CONN_TYPE_SERVER);
          sent = (stream_state_send s = XQC_SEND_STREAM_ST_DATA_RECVD
                  \<or> stream_state_send s = XQC_SEND_STREAM_ST_RESET_RECVD);
          recvd = (stream_state_recv s = XQC_RECV_STREAM_ST_DATA_READ
                   \<or> stream_state_recv s = XQC_RECV_STREAM_ST_RESET_READ)
      in if bidi then sent \<and> recvd else if send_side then sent else recvd)"

text \<open>The stream is closed three probe timeouts from now: the common part of the two functions below.\<close>

definition close_later :: "u64 \<Rightarrow> xqc_conn_str \<Rightarrow> xqc_stream \<Rightarrow> xqc_conn_str \<times> xqc_stream" where
  "close_later now c s =
     (let new_expire = now + 3 * sc_max_pto c;
          t = timer (sc_timers c) XQC_TIMER_STREAM_CLOSE;
          m = (if timer_is_set t \<and> new_expire < expire_time t \<or> \<not> timer_is_set t
               then xqc_timer_set (sc_timers c) XQC_TIMER_STREAM_CLOSE now (3 * sc_max_pto c) else sc_timers c);
          s = (flag_on XQC_STREAM_FLAG_NEED_CLOSE s)\<lparr>stream_close_time := new_expire\<rparr>
      in (c\<lparr>sc_timers := m\<rparr>, xqc_stream_shutdown_write (xqc_stream_shutdown_read s)))"

definition xqc_stream_maybe_need_close :: "u64 \<Rightarrow> xqc_conn_str \<Rightarrow> xqc_stream \<Rightarrow> xqc_conn_str \<times> xqc_stream" where
  "xqc_stream_maybe_need_close now c s =
     (if stream_flag s AND XQC_STREAM_FLAG_NEED_CLOSE \<noteq> 0 then (c, s)
      else if xqc_stream_is_terminal_state (conn_type (sc_conn c)) s then close_later now c s
      else (c, s))"

definition xqc_stream_close_discarded_stream ::
    "u64 \<Rightarrow> xqc_conn_str \<Rightarrow> xqc_stream \<Rightarrow> xqc_conn_str \<times> xqc_stream" where
  "xqc_stream_close_discarded_stream now c s =
     (if stream_flag s AND XQC_STREAM_FLAG_NEED_CLOSE \<noteq> 0 then (c, s) else close_later now c s)"

section \<open>Windows\<close>

definition xqc_stream_do_send_flow_ctl :: "xqc_conn_str \<Rightarrow> xqc_stream \<Rightarrow> xqc_conn_str \<times> xqc_stream \<times> unit res" where
  "xqc_stream_do_send_flow_ctl c s =
     (let fc = conn_flow_ctl c;
          conn_full = fc_data_sent fc + pkt_out_size c > fc_max_data_can_send fc;
          c = (if conn_full
               then fst (ctl_write (DATA_BLOCKED (fc_max_data_can_send fc))
                      (c\<lparr>sc_conn := (sc_conn c)\<lparr>conn_flag := conn_flag (sc_conn c) OR XQC_CONN_FLAG_DATA_BLOCKED\<rparr>\<rparr>))
               else c);
          lim = fc_max_stream_data_can_send (stream_flow_ctl s)
      in if stream_send_offset s + pkt_out_size c > lim
         then (fst (ctl_write (STREAM_DATA_BLOCKED (stream_id s) lim) c), flag_on XQC_STREAM_FLAG_DATA_BLOCKED s,
               Inl XQC_ESTREAM_BLOCKED)
         else (c, s, if conn_full then Inl XQC_ECONN_BLOCKED else Inr ()))"

text \<open>
  \<open>1.5 * w\<close> is computed in double precision by the source; below $2^{53}$ the comparison and the conversion back to an
  integer are exact, and this is how they are read here.
\<close>

definition recv_rate_window :: "u64 \<Rightarrow> u64 \<Rightarrow> u64 \<Rightarrow> u64" where
  "recv_rate_window least rate srtt = min XQC_MAX_RECV_WINDOW (max least (rate * srtt div 1000000))"

definition conn_window :: "u64 \<Rightarrow> xqc_conn_str \<Rightarrow> xqc_stream \<Rightarrow> u64" where
  "conn_window now c s =
     (let fc = conn_flow_ctl c; w = fc_recv_windows_size fc; sw = fc_stream_recv_window_size (stream_flow_ctl s) in
      if conn_recv_rate_bytes_per_sec c = 0
      then (let w = (if fc_last_window_update_time fc \<noteq> 0
                        \<and> now - fc_last_window_update_time fc < 2 * sc_min_srtt c
                     then min (w * 2) XQC_MAX_RECV_WINDOW else w)
            in if 2 * unat w < 3 * unat sw then of_nat (3 * unat sw div 2) else w)
      else recv_rate_window XQC_MIN_RECV_WINDOW (conn_recv_rate_bytes_per_sec c) (sc_max_srtt c))"

definition xqc_stream_do_recv_conn_flow_ctl :: "u64 \<Rightarrow> xqc_conn_str \<Rightarrow> xqc_stream \<Rightarrow> xqc_conn_str" where
  "xqc_stream_do_recv_conn_flow_ctl now c s =
     (let fc = conn_flow_ctl c; avail = fc_max_data_can_recv fc - fc_data_read fc in
      if avail < fc_recv_windows_size fc div 2
      then (let w = conn_window now c s;
                c = fc_upd (\<lambda>fc. fc\<lparr>fc_recv_windows_size := w, fc_last_window_update_time := now\<rparr>) c
            in if w > avail
               then (let lim = xqc_clamp_to_max_flow_ctl (fc_max_data_can_recv fc + (w - avail))
                     in fst (ctl_write (MAX_DATA lim) (fc_upd (\<lambda>fc. fc\<lparr>fc_max_data_can_recv := lim\<rparr>) c)))
               else c)
      else c)"

definition stream_window :: "u64 \<Rightarrow> xqc_conn_str \<Rightarrow> xqc_stream \<Rightarrow> u64" where
  "stream_window now c s =
     (let fc = stream_flow_ctl s; w = fc_stream_recv_window_size fc in
      if recv_rate_bytes_per_sec s = 0
      then (if fc_stream_last_update fc \<noteq> 0 \<and> now - fc_stream_last_update fc < 2 * sc_min_srtt c
            then min (w * 2) XQC_MAX_RECV_WINDOW else w)
      else recv_rate_window (init_recv_window c) (recv_rate_bytes_per_sec s) (sc_max_srtt c))"

text \<open>The part of \<open>xqc_stream_do_recv_flow_ctl\<close> for the stream itself.\<close>

definition recv_stream_flow_ctl :: "u64 \<Rightarrow> xqc_conn_str \<Rightarrow> xqc_stream \<Rightarrow> xqc_conn_str \<times> xqc_stream" where
  "recv_stream_flow_ctl now c s =
     (let fc = stream_flow_ctl s;
          avail = fc_max_stream_data_can_recv fc - di_next_read_offset (stream_data_in s) in
      if avail < fc_stream_recv_window_size fc div 2
      then (let w = stream_window now c s;
                s = sfc_upd (\<lambda>fc. fc\<lparr>fc_stream_recv_window_size := w, fc_stream_last_update := now\<rparr>) s
            in if w > avail
               then (let lim = xqc_clamp_to_max_flow_ctl (fc_max_stream_data_can_recv fc + (w - avail))
                     in (fst (ctl_write (MAX_STREAM_DATA (stream_id s) lim) c),
                         sfc_upd (\<lambda>fc. fc\<lparr>fc_max_stream_data_can_recv := lim\<rparr>) s))
               else (c, s))
      else (c, s))"

definition xqc_stream_do_recv_flow_ctl :: "u64 \<Rightarrow> xqc_conn_str \<Rightarrow> xqc_stream \<Rightarrow> xqc_conn_str \<times> xqc_stream" where
  "xqc_stream_do_recv_flow_ctl now c s =
     (let (c, s) = recv_stream_flow_ctl now c s in (xqc_stream_do_recv_conn_flow_ctl now c s, s))"

section \<open>Creating streams\<close>

definition xqc_stream_do_create_flow_ctl :: "xqc_conn_str \<Rightarrow> u64 \<Rightarrow> u64 \<Rightarrow> xqc_conn_str \<times> unit res" where
  "xqc_stream_do_create_flow_ctl c sid stype =
     (let fc = conn_flow_ctl c in
      if sid = XQC_UNDEFINE_STREAM_ID
      then (if stype = XQC_CLI_BID \<or> stype = XQC_SVR_BID
            then (if cur_stream_id_bidi_local c \<ge> fc_max_streams_bidi_can_send fc
                  then (fst (ctl_write (STREAMS_BLOCKED (fc_max_streams_bidi_can_send fc) True) c), Inl XQC_EPROTO)
                  else (c, Inr ()))
            else (if cur_stream_id_uni_local c \<ge> fc_max_streams_uni_can_send fc
                  then (fst (ctl_write (STREAMS_BLOCKED (fc_max_streams_uni_can_send fc) False) c), Inl XQC_EPROTO)
                  else (c, Inr ())))
      else
        let stype = xqc_get_stream_type sid in
        if stype = XQC_CLI_BID \<or> stype = XQC_SVR_BID
        then (let m = fc_max_streams_bidi_can_recv fc; m' = m + max_streams_bidi (local_settings c) in
              if sid \<ge> 4 * m + stype then (sc_err c TRA_STREAM_LIMIT_ERROR, Inl XQC_EPROTO)
              else if drop_bit 2 sid \<ge> m div 2
              then (fst (xqc_write_max_streams_to_packet
                      (fc_upd (\<lambda>fc. fc\<lparr>fc_max_streams_bidi_can_recv := m'\<rparr>) c) m' True), Inr ())
              else (c, Inr ()))
        else (let m = fc_max_streams_uni_can_recv fc; m' = m + max_streams_uni (local_settings c) in
              if sid \<ge> 4 * m + stype then (sc_err c TRA_STREAM_LIMIT_ERROR, Inl XQC_EPROTO)
              else if drop_bit 2 sid \<ge> m div 2
              then (fst (xqc_write_max_streams_to_packet
                      (fc_upd (\<lambda>fc. fc\<lparr>fc_max_streams_uni_can_recv := m'\<rparr>) c) m' False), Inr ())
              else (c, Inr ())))"

definition xqc_gen_stream_id :: "xqc_conn_str \<Rightarrow> u64 \<Rightarrow> xqc_conn_str \<times> u64" where
  "xqc_gen_stream_id c stype =
     (if stype = XQC_CLI_BID \<or> stype = XQC_SVR_BID
      then (c\<lparr>cur_stream_id_bidi_local := cur_stream_id_bidi_local c + 1\<rparr>,
            push_bit 2 (cur_stream_id_bidi_local c) OR stype)
      else if stype = XQC_CLI_UNI \<or> stype = XQC_SVR_UNI
      then (c\<lparr>cur_stream_id_uni_local := cur_stream_id_uni_local c + 1\<rparr>,
            push_bit 2 (cur_stream_id_uni_local c) OR stype)
      else (c, push_bit 2 0 OR stype))"

text \<open>The zeroed memory of a new stream.\<close>

definition stream_calloc :: xqc_stream where
  "stream_calloc =
     \<lparr>stream_id = 0, stream_type = 0,
      stream_flow_ctl = \<lparr>fc_max_stream_data_can_send = 0, fc_max_stream_data_can_recv = 0,
                         fc_stream_recv_window_size = 0, fc_stream_last_update = 0\<rparr>,
      stream_send_offset = 0,
      reset_at = \<lparr>ra_send_size = 0, ra_send_final_size = 0, ra_send_error = 0, ra_recv_size = 0, ra_recv_error = 0,
                  ra_send_update_pending = False, ra_send_reset_acked = False, ra_recv_seen = False,
                  ra_send_state = XQC_RESET_AT_NONE, ra_recv_state = XQC_RESET_AT_RECV_NONE\<rparr>,
      stream_max_recv_offset = 0, stream_flag = 0, stream_data_in = di_new,
      stream_state_send = XQC_SEND_STREAM_ST_READY, stream_state_recv = XQC_RECV_STREAM_ST_RECV,
      stream_close_time = 0, stream_err = 0, recv_rate_bytes_per_sec = 0\<rparr>"

definition conn_closing :: "xqc_conn_state \<Rightarrow> bool" where
  "conn_closing st \<longleftrightarrow> st = XQC_CONN_STATE_CLOSING \<or> st = XQC_CONN_STATE_DRAINING \<or> st = XQC_CONN_STATE_CLOSED
     \<or> st = XQC_CONN_STATE_N"

text \<open>
  What the outside decides when a stream is created: whether memory is available, the answer of the application's
  \<open>stream_create_notify\<close>, and the receive rate asked for in the stream settings.
\<close>

record create_env =
  alloc_ok :: bool
  notify_ok :: bool
  settings_rate :: "u64 option"

definition xqc_create_stream_with_conn ::
    "create_env \<Rightarrow> xqc_conn_str \<Rightarrow> u64 \<Rightarrow> u64 \<Rightarrow> xqc_conn_str \<times> xqc_stream option" where
  "xqc_create_stream_with_conn env c sid stype =
     (if conn_closing (sc_state c) then (c, None)
      else case xqc_stream_do_create_flow_ctl c sid stype of
        (c, Inl _) \<Rightarrow> (c, None)
      | (c, Inr _) \<Rightarrow>
          if \<not> alloc_ok env then (c, None)
          else
            let s = xqc_stream_set_flow_ctl c stream_calloc;
                (c, s) = (if sid = XQC_UNDEFINE_STREAM_ID
                          then let (c, nid) = xqc_gen_stream_id c stype
                               in (c, xqc_stream_ready_to_write (s\<lparr>stream_type := stype, stream_id := nid\<rparr>))
                          else (c, s\<lparr>stream_id := sid, stream_type := xqc_get_stream_type sid\<rparr>));
                rate = (case settings_rate env of
                          None \<Rightarrow> 0
                        | Some r \<Rightarrow> if enable_stream_rate_limit c \<and> stream_type s = XQC_CLI_BID then r else 0);
                s = s\<lparr>recv_rate_bytes_per_sec := rate\<rparr>;
                s = (if notify_ok env then s else flag_on XQC_STREAM_FLAG_DISCARDED s)
            in (c\<lparr>conn_all_streams := conn_all_streams c @ [s]\<rparr>, Some s))"

definition xqc_stream_create_with_direction ::
    "create_env \<Rightarrow> xqc_conn_str \<Rightarrow> bool \<Rightarrow> xqc_conn_str \<times> xqc_stream option" where
  "xqc_stream_create_with_direction env c bidi =
     xqc_create_stream_with_conn (env\<lparr>settings_rate := None\<rparr>) c XQC_UNDEFINE_STREAM_ID
       (if conn_type (sc_conn c) = XQC_CONN_TYPE_CLIENT
        then (if bidi then XQC_CLI_BID else XQC_CLI_UNI)
        else (if bidi then XQC_SVR_BID else XQC_SVR_UNI))"

definition xqc_insert_passive_stream_hash :: "xqc_conn_str \<Rightarrow> int \<Rightarrow> u64 \<Rightarrow> xqc_conn_str" where
  "xqc_insert_passive_stream_hash c cur_max_sid sid =
     c\<lparr>passive_streams_hash :=
         rev (map (\<lambda>i. push_bit 2 (word_of_int i) OR xqc_get_stream_type sid) [cur_max_sid + 1 .. uint (drop_bit 2 sid)])
         @ passive_streams_hash c\<rparr>"

definition xqc_passive_create_stream ::
    "create_env \<Rightarrow> xqc_conn_str \<Rightarrow> u64 \<Rightarrow> xqc_conn_str \<times> xqc_stream option" where
  "xqc_passive_create_stream env c sid =
     (case xqc_stream_do_create_flow_ctl c sid (xqc_get_stream_type sid) of
        (c, Inl _) \<Rightarrow> (c, None)
      | (c, Inr _) \<Rightarrow>
          let idx = uint (drop_bit 2 sid);
              create = (\<lambda>c. case xqc_create_stream_with_conn (env\<lparr>settings_rate := None\<rparr>) c sid 0 of
                          (c, None) \<Rightarrow> (sc_err c TRA_INTERNAL_ERROR, None)
                        | (c, Some s) \<Rightarrow> (c, Some s))
          in if xqc_stream_is_bidi sid \<and> idx > max_stream_id_bidi_remote c
             then create ((xqc_insert_passive_stream_hash c (max_stream_id_bidi_remote c) sid)\<lparr>max_stream_id_bidi_remote := idx\<rparr>)
             else if \<not> xqc_stream_is_bidi sid \<and> idx > max_stream_id_uni_remote c
             then create ((xqc_insert_passive_stream_hash c (max_stream_id_uni_remote c) sid)\<lparr>max_stream_id_uni_remote := idx\<rparr>)
             else if sid \<notin> set (passive_streams_hash c) then (c, None)
             else create c)"

text \<open>The tables after \<open>xqc_destroy_stream\<close>.\<close>

definition xqc_destroy_stream :: "u64 \<Rightarrow> xqc_conn_str \<Rightarrow> xqc_conn_str" where
  "xqc_destroy_stream sid c =
     c\<lparr>conn_all_streams := filter (\<lambda>s. stream_id s \<noteq> sid) (conn_all_streams c),
       passive_streams_hash := remove1 sid (passive_streams_hash c)\<rparr>"

text \<open>The stream a frame of the peer is for: found, or created when its identifier is one of the peer's.\<close>

definition peer_stream :: "xqc_conn_type \<Rightarrow> u64 \<Rightarrow> bool" where
  "peer_stream ct sid =
     (let t = xqc_get_stream_type sid in
      ct = XQC_CONN_TYPE_SERVER \<and> (t = XQC_CLI_BID \<or> t = XQC_CLI_UNI)
      \<or> ct = XQC_CONN_TYPE_CLIENT \<and> (t = XQC_SVR_BID \<or> t = XQC_SVR_UNI))"

definition get_stream :: "create_env \<Rightarrow> xqc_conn_str \<Rightarrow> u64 \<Rightarrow> xqc_conn_str \<times> xqc_stream option" where
  "get_stream env c sid =
     (case xqc_find_stream_by_id sid c of
        Some s \<Rightarrow> (c, Some s)
      | None \<Rightarrow> if peer_stream (conn_type (sc_conn c)) sid then xqc_passive_create_stream env c sid else (c, None))"

definition xqc_stream_local_bidi_uncreated :: "xqc_conn_str \<Rightarrow> u64 \<Rightarrow> bool" where
  "xqc_stream_local_bidi_uncreated c sid \<longleftrightarrow> drop_bit 2 sid \<ge> cur_stream_id_bidi_local c"

definition xqc_stream_update_settings ::
    "xqc_conn_str \<Rightarrow> xqc_stream \<Rightarrow> u64 \<Rightarrow> xqc_conn_str \<times> xqc_stream \<times> unit res" where
  "xqc_stream_update_settings c s rate =
     (if rate \<noteq> 0 \<and> enable_stream_rate_limit c
      then (let w = recv_rate_window (init_recv_window c) rate (sc_max_srtt c);
                s = sfc_upd (\<lambda>fc. fc\<lparr>fc_stream_recv_window_size := w\<rparr>) (s\<lparr>recv_rate_bytes_per_sec := rate\<rparr>);
                new_offset = xqc_clamp_to_max_flow_ctl (di_next_read_offset (stream_data_in s) + w)
            in if new_offset > fc_max_stream_data_can_recv (stream_flow_ctl s)
               then (fst (ctl_write (MAX_STREAM_DATA (stream_id s) new_offset) c),
                     sfc_upd (\<lambda>fc. fc\<lparr>fc_max_stream_data_can_recv := new_offset\<rparr>) s, Inr ())
               else (c, s, Inr ()))
      else (c, s, Inl XQC_EPARAM))"

section \<open>Resetting the sending part\<close>

definition xqc_write_reset_stream_to_packet ::
    "xqc_conn_str \<Rightarrow> xqc_stream \<Rightarrow> u64 \<Rightarrow> u64 \<Rightarrow> xqc_conn_str \<times> xqc_stream \<times> unit res" where
  "xqc_write_reset_stream_to_packet c s err fsize =
     (if send_state_num (stream_state_send s) \<ge> send_state_num XQC_SEND_STREAM_ST_DATA_RECVD then (c, s, Inr ())
      else case ctl_write (RESET_STREAM (stream_id s) err fsize) c of
        (c, Inl e) \<Rightarrow> (c, s, Inl e)
      | (c, Inr _) \<Rightarrow>
          (c, ra_upd (\<lambda>r. r\<lparr>ra_send_error := err\<rparr>)
                (s\<lparr>stream_err := err, stream_state_send := XQC_SEND_STREAM_ST_RESET_SENT\<rparr>), Inr ()))"

definition xqc_write_reset_stream_at_to_packet ::
    "xqc_conn_str \<Rightarrow> xqc_stream \<Rightarrow> u64 \<Rightarrow> u64 \<Rightarrow> u64 \<Rightarrow> xqc_conn_str \<times> unit res" where
  "xqc_write_reset_stream_at_to_packet c s err fsize rsize = ctl_write (RESET_STREAM_AT (stream_id s) err fsize rsize) c"

definition xqc_stream_set_reliable_size :: "xqc_conn_str \<Rightarrow> xqc_stream \<Rightarrow> u64 \<Rightarrow> xqc_stream \<times> unit res" where
  "xqc_stream_set_reliable_size c s rsize =
     (let ra = reset_at s in
      if rsize > XQC_VINT_MAX \<or> xqc_stream_is_recv_only (conn_type (sc_conn c)) (stream_id s) then (s, Inl XQC_EPARAM)
      else if rsize > 0 \<and> (conn_flag (sc_conn c) AND XQC_CONN_FLAG_TLS_HSK_COMPLETED = 0
                            \<or> \<not> reset_stream_at (remote_settings c)) then (s, Inl XQC_ESTATE)
      else if send_state_num (stream_state_send s) \<ge> send_state_num XQC_SEND_STREAM_ST_RESET_SENT then (s, Inl XQC_ESTATE)
      else if stream_state_send s = XQC_SEND_STREAM_ST_DATA_RECVD
      then (s, if ra_send_state ra = XQC_RESET_AT_SENT \<and> rsize = ra_send_size ra then Inr () else Inl XQC_ESTATE)
      else if ra_send_state ra = XQC_RESET_AT_SENT
      then (if rsize > ra_send_size ra then (s, Inl XQC_ESTATE)
            else if rsize < ra_send_size ra
            then (ra_upd (\<lambda>r. r\<lparr>ra_send_size := rsize, ra_send_update_pending := True, ra_send_reset_acked := False\<rparr>) s,
                  Inr ())
            else (s, Inr ()))
      else (ra_upd (\<lambda>r. r\<lparr>ra_send_size := rsize, ra_send_state := XQC_RESET_AT_READY\<rparr>) s, Inr ()))"

text \<open>
  \<open>xqc_stream_do_reset\<close>. The STREAM frames of the stream that wait in the send queue, which the source drops, are not
  part of the state.
\<close>

definition do_reset_update :: "xqc_conn_str \<Rightarrow> xqc_stream \<Rightarrow> u64 \<Rightarrow> xqc_conn_str \<times> xqc_stream \<times> unit res" where
  "do_reset_update c s err =
     (let ra = reset_at s in
      if ra_send_size ra = 0
      then (case xqc_write_reset_stream_to_packet c s err (ra_send_final_size ra) of
              (c, s, Inl e) \<Rightarrow> (c, s, Inl e)
            | (c, s, Inr _) \<Rightarrow>
                (c, xqc_stream_shutdown_write
                      (ra_upd (\<lambda>r. r\<lparr>ra_send_state := XQC_RESET_AT_NONE, ra_send_update_pending := False\<rparr>) s), Inr ()))
      else (case xqc_write_reset_stream_at_to_packet c s err (ra_send_final_size ra) (ra_send_size ra) of
              (c, Inl e) \<Rightarrow> (c, s, Inl e)
            | (c, Inr _) \<Rightarrow>
                (c, xqc_stream_shutdown_write (ra_upd (\<lambda>r. r\<lparr>ra_send_update_pending := False\<rparr>) s), Inr ())))"

definition do_reset_plain :: "xqc_conn_str \<Rightarrow> xqc_stream \<Rightarrow> u64 \<Rightarrow> xqc_conn_str \<times> xqc_stream \<times> unit res" where
  "do_reset_plain c s err =
     (case xqc_write_reset_stream_to_packet c s err (stream_send_offset s) of
        (c, s, Inl e) \<Rightarrow> (c, s, Inl e)
      | (c, s, Inr _) \<Rightarrow> (c, xqc_stream_shutdown_write s, Inr ()))"

definition do_reset_reliable :: "xqc_conn_str \<Rightarrow> xqc_stream \<Rightarrow> u64 \<Rightarrow> xqc_conn_str \<times> xqc_stream \<times> unit res" where
  "do_reset_reliable c s err =
     (let ra = reset_at s in
      if ra_send_size ra > 0 \<and> \<not> reset_stream_at (remote_settings c) then (c, s, Inl XQC_ESTATE)
      else if stream_send_offset s < ra_send_size ra then (c, s, Inl XQC_EAGAIN)
      else if ra_send_size ra = 0 then do_reset_plain c s err
      else case xqc_write_reset_stream_at_to_packet c s err (stream_send_offset s) (ra_send_size ra) of
             (c, Inl e) \<Rightarrow> (c, s, Inl e)
           | (c, Inr _) \<Rightarrow>
               (c, xqc_stream_shutdown_write
                     (ra_upd (\<lambda>r. r\<lparr>ra_send_state := XQC_RESET_AT_SENT, ra_send_final_size := stream_send_offset s,
                                    ra_send_error := err, ra_send_update_pending := False, ra_send_reset_acked := False\<rparr>)
                       (s\<lparr>stream_err := err, stream_state_send := XQC_SEND_STREAM_ST_DATA_SENT\<rparr>)), Inr ()))"

definition xqc_stream_do_reset :: "xqc_conn_str \<Rightarrow> xqc_stream \<Rightarrow> u64 \<Rightarrow> xqc_conn_str \<times> xqc_stream \<times> unit res" where
  "xqc_stream_do_reset c s err =
     (let ra = reset_at s in
      if ra_send_state ra = XQC_RESET_AT_SENT
      then (if err \<noteq> ra_send_error ra then (c, s, Inl XQC_ESTATE)
            else if \<not> ra_send_update_pending ra then (c, s, Inr ())
            else do_reset_update c s err)
      else if stream_state_send s = XQC_SEND_STREAM_ST_DATA_RECVD then (c, s, Inr ())
      else if send_state_num (stream_state_send s) \<ge> send_state_num XQC_SEND_STREAM_ST_RESET_SENT
      then (c, s, if err = ra_send_error ra then Inr () else Inl XQC_ESTATE)
      else if ra_send_state ra \<noteq> XQC_RESET_AT_NONE then do_reset_reliable c s err
      else do_reset_plain c s err)"

text \<open>A reset that cannot wait for more data, as the handlers of frames ask for it.\<close>

definition do_reset_now :: "xqc_conn_str \<Rightarrow> xqc_stream \<Rightarrow> u64 \<Rightarrow> xqc_conn_str \<times> xqc_stream \<times> unit res" where
  "do_reset_now c s err =
     (case xqc_stream_do_reset c s err of
        (c, s, ret) \<Rightarrow>
          if ret = Inl XQC_EAGAIN then xqc_stream_do_reset c (ra_upd (\<lambda>r. r\<lparr>ra_send_size := 0\<rparr>) s) err
          else (c, s, ret))"

section \<open>Completing a reset, and reading\<close>

definition complete_recv_reset ::
    "u64 \<Rightarrow> xqc_conn_str \<Rightarrow> xqc_stream \<Rightarrow> u64 \<Rightarrow> bool \<Rightarrow> xqc_conn_str \<times> xqc_stream" where
  "complete_recv_reset now c s fsize consume =
     (if recv_state_num (stream_state_recv s) < recv_state_num XQC_RECV_STREAM_ST_RESET_RECVD
      then (let c = fc_upd (\<lambda>fc. fc\<lparr>fc_data_read := fc_data_read fc + (fsize - di_next_read_offset (stream_data_in s))\<rparr>) c;
                s = (di_upd (\<lambda>di. di\<lparr>frames_tailq := [], buffered_frame_count := 0, buffered_data_bytes := 0\<rparr>) s)
                      \<lparr>stream_state_recv := XQC_RECV_STREAM_ST_RESET_RECVD\<rparr>;
                c = xqc_stream_do_recv_conn_flow_ctl now c s
            in (c, if consume then s else xqc_stream_ready_to_read s))
      else (c, s))"

definition xqc_stream_complete_recv_reset ::
    "u64 \<Rightarrow> xqc_conn_str \<Rightarrow> xqc_stream \<Rightarrow> u64 \<Rightarrow> u64 \<Rightarrow> bool \<Rightarrow> xqc_conn_str \<times> xqc_stream" where
  "xqc_stream_complete_recv_reset now c s err fsize consume =
     (if stream_state_recv s = XQC_RECV_STREAM_ST_DATA_READ then (c, s)
      else
        let (c, s) = complete_recv_reset now c (s\<lparr>stream_err := err\<rparr>) fsize consume
        in if consume
           then xqc_stream_maybe_need_close now c
                  (xqc_stream_shutdown_read (s\<lparr>stream_state_recv := XQC_RECV_STREAM_ST_RESET_READ\<rparr>))
           else (c, s))"

text \<open>The bytes read and the flag \<open>fin\<close>, or the error.\<close>

definition recv_fin :: "u64 \<Rightarrow> xqc_conn_str \<Rightarrow> xqc_stream \<Rightarrow> xqc_conn_str \<times> xqc_stream \<times> bool" where
  "recv_fin now c s =
     (let di = stream_data_in s in
      if ra_recv_state (reset_at s) = XQC_RESET_AT_RECV_NONE \<and> stream_determined di
         \<and> di_next_read_offset di = stream_length di
      then (let (c, s) = (if stream_state_recv s = XQC_RECV_STREAM_ST_DATA_RECVD
                          then xqc_stream_maybe_need_close now c (s\<lparr>stream_state_recv := XQC_RECV_STREAM_ST_DATA_READ\<rparr>)
                          else (c, s))
            in (c, s, True))
      else (c, s, False))"

definition recv_data :: "u64 \<Rightarrow> nat \<Rightarrow> xqc_conn_str \<Rightarrow> xqc_stream \<Rightarrow> xqc_conn_str \<times> xqc_stream \<times> (bytes \<times> bool) res" where
  "recv_data now sz c s =
     (let (out, di) = stream_read sz (stream_data_in s);
          (c, s, fin) = recv_fin now c (s\<lparr>stream_data_in := di\<rparr>);
          c = fc_upd (\<lambda>fc. fc\<lparr>fc_data_read := fc_data_read fc + of_nat (length out)\<rparr>) c;
          (c, s) = xqc_stream_do_recv_flow_ctl now c (xqc_stream_shutdown_read s);
          s = (if ra_recv_state (reset_at s) \<noteq> XQC_RESET_AT_RECV_NONE
                  \<and> di_next_read_offset (stream_data_in s) \<ge> ra_recv_size (reset_at s)
               then xqc_stream_ready_to_read s else s)
      in (c, s, if out = [] \<and> \<not> fin then Inl XQC_EAGAIN else Inr (out, fin)))"

definition xqc_stream_recv ::
    "u64 \<Rightarrow> nat \<Rightarrow> xqc_conn_str \<Rightarrow> xqc_stream \<Rightarrow> xqc_conn_str \<times> xqc_stream \<times> (bytes \<times> bool) res" where
  "xqc_stream_recv now sz c s =
     (let ra = reset_at s; di = stream_data_in s in
      if ra_recv_state ra = XQC_RESET_AT_RELIABLE \<and> stream_state_recv s \<noteq> XQC_RECV_STREAM_ST_DATA_READ
         \<and> recv_state_num (stream_state_recv s) < recv_state_num XQC_RECV_STREAM_ST_RESET_RECVD
         \<and> di_next_read_offset di \<ge> ra_recv_size ra
      then (let (c, s) = xqc_stream_complete_recv_reset now c s (ra_recv_error ra) (stream_length di) True
            in (c, s, Inl XQC_ESTREAM_RESET))
      else if recv_state_num (stream_state_recv s) \<ge> recv_state_num XQC_RECV_STREAM_ST_RESET_RECVD
      then (let (c, s) = xqc_stream_maybe_need_close now c
                           (xqc_stream_shutdown_read (s\<lparr>stream_state_recv := XQC_RECV_STREAM_ST_RESET_READ\<rparr>))
            in (c, s, Inl XQC_ESTREAM_RESET))
      else recv_data now
             (if ra_recv_state ra \<noteq> XQC_RESET_AT_RECV_NONE
              then min sz (unat (ra_recv_size ra - di_next_read_offset di)) else sz) c s)"

section \<open>STREAM frames\<close>

text \<open>
  A handler is a sequence of stages on the connection and the stream; a stage that returns from the handler gives the
  value returned, the others give \<open>None\<close>.
\<close>

type_synonym stage = "xqc_conn_str \<times> xqc_stream \<times> unit res option"

definition stage_then :: "stage \<Rightarrow> (xqc_conn_str \<Rightarrow> xqc_stream \<Rightarrow> stage) \<Rightarrow> stage" where
  "stage_then x k = (case x of (c, s, None) \<Rightarrow> k c s | (c, s, Some r) \<Rightarrow> (c, s, Some r))"

definition proto_err :: "u64 \<Rightarrow> xqc_conn_str \<Rightarrow> xqc_stream \<Rightarrow> stage" where
  "proto_err e c s = (sc_err c e, s, Some (Inl XQC_EPROTO))"

definition stream_old :: "xqc_stream_frame \<Rightarrow> xqc_conn_str \<Rightarrow> xqc_stream \<Rightarrow> stage" where
  "stream_old f c s =
     (let ra = reset_at s; di = stream_data_in s in
      if (ra_recv_seen ra \<or> ra_recv_state ra \<noteq> XQC_RESET_AT_RECV_NONE)
         \<and> (sf_end f > stream_max_recv_offset s \<or> sf_fin f \<and> sf_end f \<noteq> stream_max_recv_offset s)
      then proto_err TRA_FINAL_SIZE_ERROR c s
      else if recv_state_num (stream_state_recv s) \<ge> recv_state_num XQC_RECV_STREAM_ST_RESET_RECVD
      then (c, s, Some (Inr ()))
      else if sf_end f \<le> merged_offset_end di \<and> \<not> (sf_fin f \<and> data_length f = 0 \<and> \<not> stream_determined di)
      then (c, if stream_determined di \<and> stream_length di = merged_offset_end di
                  \<and> stream_state_recv s = XQC_RECV_STREAM_ST_SIZE_KNOWN \<and> stream_flag s AND XQC_STREAM_FLAG_DISCARDED = 0
               then xqc_stream_ready_to_read (s\<lparr>stream_state_recv := XQC_RECV_STREAM_ST_DATA_RECVD\<rparr>) else s,
            Some (Inr ()))
      else (c, s, None))"

definition stream_final_size :: "xqc_stream_frame \<Rightarrow> xqc_conn_str \<Rightarrow> xqc_stream \<Rightarrow> stage" where
  "stream_final_size f c s =
     (let di = stream_data_in s in
      if sf_fin f
      then (if stream_determined di \<and> stream_length di \<noteq> sf_end f then proto_err TRA_FINAL_SIZE_ERROR c s
            else (c, (di_upd (\<lambda>di. di\<lparr>stream_length := sf_end f, stream_determined := True\<rparr>) s)
                       \<lparr>stream_state_recv := (if stream_state_recv s = XQC_RECV_STREAM_ST_RECV
                                             then XQC_RECV_STREAM_ST_SIZE_KNOWN else stream_state_recv s)\<rparr>, None))
      else (c, s, None))"

definition stream_checks :: "u64 \<Rightarrow> xqc_stream_frame \<Rightarrow> xqc_conn_str \<Rightarrow> xqc_stream \<Rightarrow> stage" where
  "stream_checks now f c s =
     (let di = stream_data_in s; fc = conn_flow_ctl c in
      if stream_determined di \<and> sf_end f > stream_length di then proto_err TRA_FINAL_SIZE_ERROR c s
      else if stream_flag s AND XQC_STREAM_FLAG_DISCARDED \<noteq> 0
      then (let (c, s) = (if sf_fin f then xqc_stream_close_discarded_stream now c s else (c, s)) in (c, s, Some (Inr ())))
      else if sf_end f > fc_max_stream_data_can_recv (stream_flow_ctl s) then proto_err TRA_FLOW_CONTROL_ERROR c s
      else if sf_end f > stream_max_recv_offset s
              \<and> fc_data_recved fc + (sf_end f - stream_max_recv_offset s) > fc_max_data_can_recv fc
      then proto_err TRA_FLOW_CONTROL_ERROR c s
      else (c, s, None))"

definition stream_insert :: "xqc_pkt_type \<Rightarrow> xqc_stream_frame \<Rightarrow> xqc_conn_str \<Rightarrow> xqc_stream \<Rightarrow> stage" where
  "stream_insert ptype f c s =
     (let (di, ret) = xqc_insert_stream_frame (max_stream_frame_buffered_cnt c) (stream_data_in s) f;
          s = s\<lparr>stream_data_in := di\<rparr>
      in case ret of
           Inr _ \<Rightarrow> (c, s, None)
         | Inl e \<Rightarrow>
             if e = XQC_EDUP_FRAME then (c, s, Some (Inr ()))
             else if e = XQC_ELIMIT \<and> ptype = XQC_PTYPE_SHORT_HEADER then (c, s, Some (Inl XQC_EIGNORE_PKT))
             else (c, s, Some (Inl e)))"

definition stream_account :: "xqc_stream_frame \<Rightarrow> xqc_conn_str \<Rightarrow> xqc_stream \<Rightarrow> stage" where
  "stream_account f c s =
     (let grow = stream_max_recv_offset s < sf_end f;
          c = (if grow then fc_upd (\<lambda>fc. fc\<lparr>fc_data_recved := fc_data_recved fc + (sf_end f - stream_max_recv_offset s)\<rparr>) c
               else c);
          s = (if grow then s\<lparr>stream_max_recv_offset := sf_end f\<rparr> else s)
      in if fc_data_recved (conn_flow_ctl c) > fc_max_data_can_recv (conn_flow_ctl c)
            \<or> stream_max_recv_offset s > fc_max_stream_data_can_recv (stream_flow_ctl s)
         then proto_err TRA_FLOW_CONTROL_ERROR c s
         else (c, s, None))"

definition stream_wake :: "xqc_conn_str \<Rightarrow> xqc_stream \<Rightarrow> stage" where
  "stream_wake c s =
     (let di = stream_data_in s; ra = reset_at s in
      (c, if stream_determined di
             \<and> (if ra_recv_state ra \<noteq> XQC_RESET_AT_RECV_NONE then merged_offset_end di \<ge> ra_recv_size ra
                else stream_length di = merged_offset_end di)
          then xqc_stream_ready_to_read
                 (s\<lparr>stream_state_recv := (if stream_state_recv s = XQC_RECV_STREAM_ST_SIZE_KNOWN
                                         then XQC_RECV_STREAM_ST_DATA_RECVD else stream_state_recv s)\<rparr>)
          else if di_next_read_offset di < merged_offset_end di then xqc_stream_ready_to_read s else s,
       Some (Inr ())))"

definition stream_frame_stages :: "u64 \<Rightarrow> xqc_pkt_type \<Rightarrow> xqc_stream_frame \<Rightarrow> xqc_conn_str \<Rightarrow> xqc_stream \<Rightarrow> stage" where
  "stream_frame_stages now ptype f c s =
     stage_then (stream_old f c s) (\<lambda>c s.
     stage_then (stream_final_size f c s) (\<lambda>c s.
     stage_then (stream_checks now f c s) (\<lambda>c s.
     stage_then (stream_insert ptype f c s) (\<lambda>c s.
     stage_then (stream_account f c s) stream_wake))))"

text \<open>The end of a handler: the stream is written back.\<close>

definition stage_return :: "stage \<Rightarrow> xqc_conn_str \<times> unit res" where
  "stage_return x = (case x of (c, s, r) \<Rightarrow> (put_stream s c, case r of None \<Rightarrow> Inr () | Some r \<Rightarrow> r))"

definition stream_frame_found ::
    "u64 \<Rightarrow> create_env \<Rightarrow> xqc_pkt_type \<Rightarrow> xqc_stream_frame \<Rightarrow> u64 \<Rightarrow> xqc_conn_str \<Rightarrow> xqc_conn_str \<times> unit res" where
  "stream_frame_found now env ptype f sid c =
     (case get_stream env c sid of
        (c, Some s) \<Rightarrow> stage_return (stream_frame_stages now ptype f c s)
      | (c, None) \<Rightarrow>
          if \<not> peer_stream (conn_type (sc_conn c)) sid \<and> xqc_stream_local_bidi_uncreated c sid
          then (sc_err c TRA_STREAM_STATE_ERROR, Inl XQC_EPROTO)
          else (c, Inr ()))"

definition xqc_process_stream_frame ::
    "u64 \<Rightarrow> create_env \<Rightarrow> bool \<Rightarrow> xqc_pkt_type \<Rightarrow> xqc_packet_in \<Rightarrow> xqc_conn_str \<Rightarrow>
     xqc_conn_str \<times> xqc_packet_in \<times> unit res" where
  "xqc_process_stream_frame now env malloc_ok ptype pi c =
     (if ptype = XQC_PTYPE_INIT \<or> ptype = XQC_PTYPE_HSK
      then (sc_err c TRA_PROTOCOL_VIOLATION, pi, Inl XQC_EPROTO)
      else if \<not> malloc_ok then (c, pi, Inl XQC_EMALLOC)
      else case xqc_parse_stream_frame malloc_ok pi (sc_conn c) of
        (conn, Inl e) \<Rightarrow> (c\<lparr>sc_conn := conn\<rparr>, pi, Inl e)
      | (conn, Inr (pi, f, sid)) \<Rightarrow>
          let (c, r) = stream_frame_found now env ptype f sid (c\<lparr>sc_conn := conn\<rparr>) in (c, pi, r))"

section \<open>Resets by the peer\<close>

definition xqc_stream_account_reset_final_size :: "u64 \<Rightarrow> xqc_conn_str \<Rightarrow> xqc_stream \<Rightarrow> stage" where
  "xqc_stream_account_reset_final_size fsize c s =
     (let di = stream_data_in s; fc = conn_flow_ctl c; increase = fsize - stream_max_recv_offset s in
      if fsize < stream_max_recv_offset s \<or> stream_determined di \<and> fsize \<noteq> stream_length di
         \<or> recv_state_num (stream_state_recv s) \<ge> recv_state_num XQC_RECV_STREAM_ST_RESET_RECVD
            \<and> fsize \<noteq> stream_max_recv_offset s
      then proto_err TRA_FINAL_SIZE_ERROR c s
      else if fsize > fc_max_stream_data_can_recv (stream_flow_ctl s) \<or> fc_data_recved fc > fc_max_data_can_recv fc
              \<or> increase > fc_max_data_can_recv fc - fc_data_recved fc
      then proto_err TRA_FLOW_CONTROL_ERROR c s
      else (fc_upd (\<lambda>fc. fc\<lparr>fc_data_recved := fc_data_recved fc + increase\<rparr>) c,
            s\<lparr>stream_max_recv_offset := fsize\<rparr>, None))"

text \<open>The peer's reset resets our sending part as well, unless it is already reset or complete.\<close>

definition reset_other_side :: "u64 \<Rightarrow> u64 \<Rightarrow> xqc_conn_str \<Rightarrow> xqc_stream \<Rightarrow> stage" where
  "reset_other_side sid err c s =
     (if \<not> xqc_stream_is_recv_only (conn_type (sc_conn c)) sid \<and> ra_send_state (reset_at s) \<noteq> XQC_RESET_AT_SENT
         \<and> send_state_num (stream_state_send s) < send_state_num XQC_SEND_STREAM_ST_DATA_RECVD
      then (case do_reset_now c s err of
              (c, s, Inr _) \<Rightarrow> (c, s, None)
            | (c, s, Inl e) \<Rightarrow> (c, s, Some (Inl e)))
      else (c, s, None))"

definition reset_completed :: "u64 \<Rightarrow> u64 \<Rightarrow> u64 \<Rightarrow> xqc_conn_str \<Rightarrow> xqc_stream \<Rightarrow> stage" where
  "reset_completed now err fsize c s =
     (if stream_state_recv s = XQC_RECV_STREAM_ST_DATA_READ then (c, s, Some (Inr ()))
      else
        let s = (if ra_recv_state (reset_at s) \<noteq> XQC_RESET_AT_RECV_NONE
                 then di_upd (\<lambda>di. di\<lparr>stream_length := fsize, stream_determined := True\<rparr>)
                        (ra_upd (\<lambda>r. r\<lparr>ra_recv_size := 0, ra_recv_error := err, ra_recv_state := XQC_RESET_AT_ORDINARY\<rparr>) s)
                 else s);
            s = ra_upd (\<lambda>r. r\<lparr>ra_recv_error := err\<rparr>) s;
            (c, s) = xqc_stream_complete_recv_reset now c s err fsize False
        in (c, s, Some (Inr ())))"

definition xqc_process_reset_stream_fields ::
    "u64 \<Rightarrow> u64 \<Rightarrow> u64 \<Rightarrow> u64 \<Rightarrow> xqc_conn_str \<Rightarrow> xqc_stream \<Rightarrow> stage" where
  "xqc_process_reset_stream_fields now sid err fsize c s =
     (let ra = reset_at s in
      if ra_recv_state ra = XQC_RESET_AT_RECV_NONE
         \<and> recv_state_num (stream_state_recv s) \<ge> recv_state_num XQC_RECV_STREAM_ST_RESET_RECVD
      then (if err \<noteq> ra_recv_error ra then proto_err TRA_STREAM_STATE_ERROR c s
            else if fsize \<noteq> stream_max_recv_offset s then proto_err TRA_FINAL_SIZE_ERROR c s
            else (c, s, Some (Inr ())))
      else if ra_recv_state ra \<noteq> XQC_RESET_AT_RECV_NONE \<and> err \<noteq> ra_recv_error ra
      then proto_err TRA_STREAM_STATE_ERROR c s
      else
        stage_then (xqc_stream_account_reset_final_size fsize c s) (\<lambda>c s.
        stage_then (reset_other_side sid err c s) (reset_completed now err fsize)))"

text \<open>The stream for a reset when RESET\_STREAM\_AT is enabled: only an identifier of the peer creates one.\<close>

definition get_stream_for_reset :: "create_env \<Rightarrow> xqc_conn_str \<Rightarrow> u64 \<Rightarrow> xqc_conn_str \<times> xqc_stream option" where
  "get_stream_for_reset env c sid =
     (case xqc_find_stream_by_id sid c of
        Some s \<Rightarrow> (c, Some s)
      | None \<Rightarrow>
          if (sid AND 1 \<noteq> 0) = (conn_type (sc_conn c) = XQC_CONN_TYPE_SERVER) then (c, None)
          else xqc_passive_create_stream env c sid)"

text \<open>A handler that works on the stream it has found; without one it returns success.\<close>

definition with_stream ::
    "xqc_conn_str \<times> xqc_stream option \<Rightarrow> (xqc_conn_str \<Rightarrow> xqc_stream \<Rightarrow> stage) \<Rightarrow> xqc_conn_str \<times> unit res" where
  "with_stream x k = (case x of (c, None) \<Rightarrow> (c, Inr ()) | (c, Some s) \<Rightarrow> stage_return (k c s))"

definition xqc_process_reset_stream_with_reset_at ::
    "u64 \<Rightarrow> create_env \<Rightarrow> xqc_packet_in \<Rightarrow> xqc_conn_str \<Rightarrow> xqc_conn_str \<times> xqc_packet_in \<times> unit res" where
  "xqc_process_reset_stream_with_reset_at now env pi c =
     (case xqc_parse_reset_stream_frame pi (sc_conn c) of
        (conn, Inl e) \<Rightarrow> (c\<lparr>sc_conn := conn\<rparr>, pi, Inl e)
      | (conn, Inr (pi, sid, err, fsize)) \<Rightarrow>
          let (c, r) = with_stream (get_stream_for_reset env (c\<lparr>sc_conn := conn\<rparr>) sid)
                         (xqc_process_reset_stream_fields now sid err fsize)
          in (c, pi, r))"

text \<open>The stages of \<open>xqc_process_reset_stream_frame\<close>, used when RESET\_STREAM\_AT is not enabled.\<close>

definition plain_reset_check :: "u64 \<Rightarrow> xqc_conn_str \<Rightarrow> xqc_stream \<Rightarrow> stage" where
  "plain_reset_check fsize c s =
     (if recv_state_num (stream_state_recv s) < recv_state_num XQC_RECV_STREAM_ST_RESET_RECVD
         \<and> fsize < stream_max_recv_offset s
      then proto_err TRA_FINAL_SIZE_ERROR c s else (c, s, None))"

definition plain_reset_send :: "u64 \<Rightarrow> u64 \<Rightarrow> xqc_conn_str \<Rightarrow> xqc_stream \<Rightarrow> stage" where
  "plain_reset_send sid err c s =
     (let s = s\<lparr>stream_err := err\<rparr> in
      if \<not> xqc_stream_is_recv_only (conn_type (sc_conn c)) sid \<and> ra_send_state (reset_at s) \<noteq> XQC_RESET_AT_SENT
         \<and> send_state_num (stream_state_send s) < send_state_num XQC_SEND_STREAM_ST_DATA_RECVD
      then (let (c, s, _) = xqc_write_reset_stream_to_packet c s err (stream_send_offset s)
            in (c, if send_state_num (stream_state_send s) \<ge> send_state_num XQC_SEND_STREAM_ST_RESET_SENT
                   then xqc_stream_shutdown_write s else s, None))
      else (c, s, None))"

definition plain_reset_recv :: "u64 \<Rightarrow> xqc_conn_str \<Rightarrow> xqc_stream \<Rightarrow> stage" where
  "plain_reset_recv fsize c s =
     (if stream_state_recv s \<noteq> XQC_RECV_STREAM_ST_DATA_READ
         \<and> recv_state_num (stream_state_recv s) < recv_state_num XQC_RECV_STREAM_ST_RESET_RECVD
      then (fc_upd (\<lambda>fc. fc\<lparr>fc_data_recved := fc_data_recved fc + (fsize - stream_max_recv_offset s),
                             fc_data_read := fc_data_read fc + (fsize - di_next_read_offset (stream_data_in s))\<rparr>) c,
            xqc_stream_ready_to_read
              ((di_upd (\<lambda>di. di\<lparr>frames_tailq := [], buffered_frame_count := 0, buffered_data_bytes := 0\<rparr>) s)
                 \<lparr>stream_state_recv := XQC_RECV_STREAM_ST_RESET_RECVD\<rparr>), Some (Inr ()))
      else (c, s, Some (Inr ())))"

definition plain_reset_stages :: "u64 \<Rightarrow> u64 \<Rightarrow> u64 \<Rightarrow> xqc_conn_str \<Rightarrow> xqc_stream \<Rightarrow> stage" where
  "plain_reset_stages sid err fsize c s =
     stage_then (plain_reset_check fsize c s) (\<lambda>c s.
     stage_then (plain_reset_send sid err c s) (plain_reset_recv fsize))"

definition xqc_process_reset_stream_frame ::
    "create_env \<Rightarrow> xqc_packet_in \<Rightarrow> xqc_conn_str \<Rightarrow> xqc_conn_str \<times> xqc_packet_in \<times> unit res" where
  "xqc_process_reset_stream_frame env pi c =
     (case xqc_parse_reset_stream_frame pi (sc_conn c) of
        (conn, Inl e) \<Rightarrow> (c\<lparr>sc_conn := conn\<rparr>, pi, Inl e)
      | (conn, Inr (pi, sid, err, fsize)) \<Rightarrow>
          let (c, r) = with_stream (get_stream env (c\<lparr>sc_conn := conn\<rparr>) sid) (plain_reset_stages sid err fsize)
          in (c, pi, r))"

text \<open>RESET\_STREAM\_AT.\<close>

definition reset_at_repeated :: "u64 \<Rightarrow> u64 \<Rightarrow> u64 \<Rightarrow> u64 \<Rightarrow> u64 \<Rightarrow> xqc_conn_str \<Rightarrow> xqc_stream \<Rightarrow> stage" where
  "reset_at_repeated now sid err fsize rsize c s =
     (let ra = reset_at s in
      if recv_state_num (stream_state_recv s) \<ge> recv_state_num XQC_RECV_STREAM_ST_RESET_RECVD
         \<and> ra_recv_state ra = XQC_RESET_AT_RECV_NONE
      then (if err \<noteq> ra_recv_error ra then proto_err TRA_STREAM_STATE_ERROR c s
            else if fsize \<noteq> stream_max_recv_offset s then proto_err TRA_FINAL_SIZE_ERROR c s
            else
              let s = ra_upd (\<lambda>r. r\<lparr>ra_recv_seen := True\<rparr>) s
              in if rsize = 0 then xqc_process_reset_stream_fields now sid err fsize c s else (c, s, Some (Inr ())))
      else if ra_recv_state ra \<noteq> XQC_RESET_AT_RECV_NONE \<and> err \<noteq> ra_recv_error ra
      then proto_err TRA_STREAM_STATE_ERROR c s
      else if ra_recv_state ra \<noteq> XQC_RESET_AT_RECV_NONE \<and> rsize \<ge> ra_recv_size ra
      then (if fsize \<noteq> stream_length (stream_data_in s) then proto_err TRA_FINAL_SIZE_ERROR c s else (c, s, Some (Inr ())))
      else (c, s, None))"

definition reset_at_reliable :: "u64 \<Rightarrow> u64 \<Rightarrow> u64 \<Rightarrow> u64 \<Rightarrow> xqc_conn_str \<Rightarrow> xqc_stream \<Rightarrow> stage" where
  "reset_at_reliable now err fsize rsize c s =
     (if stream_state_recv s = XQC_RECV_STREAM_ST_DATA_READ
         \<or> recv_state_num (stream_state_recv s) \<ge> recv_state_num XQC_RECV_STREAM_ST_RESET_RECVD
      then (c, s, Some (Inr ()))
      else
        let s = ra_upd (\<lambda>r. r\<lparr>ra_recv_state := XQC_RESET_AT_RELIABLE, ra_recv_size := rsize, ra_recv_error := err\<rparr>)
                  (di_upd (\<lambda>di. di\<lparr>stream_length := fsize, stream_determined := True\<rparr>) s)
        in if di_next_read_offset (stream_data_in s) \<ge> rsize
           then (let (c, s) = xqc_stream_complete_recv_reset now c s err fsize False in (c, s, Some (Inr ())))
           else (c, xqc_stream_ready_to_read
                      (s\<lparr>stream_state_recv := (if merged_offset_end (stream_data_in s) \<ge> rsize
                                              then XQC_RECV_STREAM_ST_DATA_RECVD else XQC_RECV_STREAM_ST_SIZE_KNOWN)\<rparr>),
                 Some (Inr ())))"

definition reset_at_stages :: "u64 \<Rightarrow> u64 \<Rightarrow> u64 \<Rightarrow> u64 \<Rightarrow> u64 \<Rightarrow> xqc_conn_str \<Rightarrow> xqc_stream \<Rightarrow> stage" where
  "reset_at_stages now sid err fsize rsize c s =
     stage_then (reset_at_repeated now sid err fsize rsize c s) (\<lambda>c s.
     stage_then (xqc_stream_account_reset_final_size fsize c s) (\<lambda>c s.
       if rsize = 0
       then xqc_process_reset_stream_fields now sid err fsize c
              (ra_upd (\<lambda>r. r\<lparr>ra_recv_seen := True, ra_recv_error := err\<rparr>) s)
       else reset_at_reliable now err fsize rsize c s))"

definition xqc_process_reset_stream_at_frame ::
    "u64 \<Rightarrow> create_env \<Rightarrow> xqc_pkt_type \<Rightarrow> xqc_packet_in \<Rightarrow> xqc_conn_str \<Rightarrow>
     xqc_conn_str \<times> xqc_packet_in \<times> unit res" where
  "xqc_process_reset_stream_at_frame now env ptype pi c =
     (if \<not> reset_stream_at (local_settings c) \<or> ptype \<noteq> XQC_PTYPE_SHORT_HEADER \<and> ptype \<noteq> XQC_PTYPE_0RTT
      then (sc_err c TRA_PROTOCOL_VIOLATION, pi, Inl XQC_EPROTO)
      else case xqc_parse_reset_stream_at_frame pi of
        Inl e \<Rightarrow> (sc_err c TRA_FRAME_ENCODING_ERROR, pi, Inl e)
      | Inr (pi, sid, err, fsize, rsize) \<Rightarrow>
          if xqc_stream_is_send_only (conn_type (sc_conn c)) sid
          then (sc_err c TRA_STREAM_STATE_ERROR, pi, Inl XQC_EPROTO)
          else let (c, r) = with_stream (get_stream_for_reset env c sid) (reset_at_stages now sid err fsize rsize)
               in (c, pi, r))"

section \<open>The other flow control frames\<close>

definition stop_sending_stage :: "u64 \<Rightarrow> xqc_conn_str \<Rightarrow> xqc_stream \<Rightarrow> stage" where
  "stop_sending_stage err c s =
     (if ra_send_state (reset_at s) \<noteq> XQC_RESET_AT_SENT
         \<and> send_state_num (stream_state_send s) < send_state_num XQC_SEND_STREAM_ST_RESET_SENT
      then (case do_reset_now c s err of (c, s, r) \<Rightarrow> (c, s, Some r))
      else (c, s, Some (Inr ())))"

definition xqc_process_stop_sending_frame ::
    "create_env \<Rightarrow> xqc_packet_in \<Rightarrow> xqc_conn_str \<Rightarrow> xqc_conn_str \<times> xqc_packet_in \<times> unit res" where
  "xqc_process_stop_sending_frame env pi c =
     (case xqc_parse_stop_sending_frame pi (sc_conn c) of
        (conn, Inl e) \<Rightarrow> (c\<lparr>sc_conn := conn\<rparr>, pi, Inl e)
      | (conn, Inr (pi, sid, err)) \<Rightarrow>
          let (c, r) = with_stream (get_stream env (c\<lparr>sc_conn := conn\<rparr>) sid) (stop_sending_stage err) in (c, pi, r))"

definition data_blocked :: "u64 \<Rightarrow> xqc_conn_str \<Rightarrow> xqc_conn_str \<times> unit res" where
  "data_blocked data_limit c =
     (let fc = conn_flow_ctl c; sum = fc_data_read fc + fc_recv_windows_size fc; lim = xqc_clamp_to_max_flow_ctl sum in
      if sum \<le> data_limit then (c, Inr ())
      else if lim > fc_max_data_can_recv fc
      then ctl_write (MAX_DATA lim) (fc_upd (\<lambda>fc. fc\<lparr>fc_max_data_can_recv := lim\<rparr>) c)
      else (c, Inr ()))"

definition xqc_process_data_blocked_frame ::
    "xqc_packet_in \<Rightarrow> xqc_conn_str \<Rightarrow> xqc_conn_str \<times> xqc_packet_in \<times> unit res" where
  "xqc_process_data_blocked_frame pi c =
     (case xqc_parse_data_blocked_frame pi of
        Inl e \<Rightarrow> (c, pi, Inl e)
      | Inr (pi, l) \<Rightarrow> let (c, r) = data_blocked l c in (c, pi, r))"

definition stream_data_blocked :: "u64 \<Rightarrow> xqc_conn_str \<Rightarrow> xqc_stream \<Rightarrow> stage" where
  "stream_data_blocked data_limit c s =
     (let fc = stream_flow_ctl s; sum = di_next_read_offset (stream_data_in s) + fc_stream_recv_window_size fc;
          lim = xqc_clamp_to_max_flow_ctl sum in
      if sum \<le> data_limit then (c, s, Some (Inr ()))
      else if lim > fc_max_stream_data_can_recv fc
      then (case ctl_write (MAX_STREAM_DATA (stream_id s) lim) c of
              (c, r) \<Rightarrow> (c, sfc_upd (\<lambda>fc. fc\<lparr>fc_max_stream_data_can_recv := lim\<rparr>) s, Some r))
      else (c, s, Some (Inr ())))"

definition xqc_process_stream_data_blocked_frame ::
    "create_env \<Rightarrow> xqc_packet_in \<Rightarrow> xqc_conn_str \<Rightarrow> xqc_conn_str \<times> xqc_packet_in \<times> unit res" where
  "xqc_process_stream_data_blocked_frame env pi c =
     (case xqc_parse_stream_data_blocked_frame pi of
        Inl e \<Rightarrow> (c, pi, Inl e)
      | Inr (pi, sid, l) \<Rightarrow> let (c, r) = with_stream (get_stream env c sid) (stream_data_blocked l) in (c, pi, r))"

definition streams_blocked :: "u64 \<Rightarrow> bool \<Rightarrow> xqc_conn_str \<Rightarrow> xqc_conn_str \<times> unit res" where
  "streams_blocked stream_limit bidi c =
     (let fc = conn_flow_ctl c;
          cur = (if bidi then fc_max_streams_bidi_can_recv fc else fc_max_streams_uni_can_recv fc);
          l = (if bidi then max_streams_bidi (local_settings c) else max_streams_uni (local_settings c));
          new = min (stream_limit + l) (cur + l) in
      if stream_limit < cur then (c, Inr ())
      else xqc_write_max_streams_to_packet
             (fc_upd (if bidi then (\<lambda>fc. fc\<lparr>fc_max_streams_bidi_can_recv := new\<rparr>)
                      else (\<lambda>fc. fc\<lparr>fc_max_streams_uni_can_recv := new\<rparr>)) c)
             (if stream_limit < XQC_MAX_STREAMS \<and> new > XQC_MAX_STREAMS then XQC_MAX_STREAMS else new) bidi)"

definition xqc_process_streams_blocked_frame ::
    "xqc_packet_in \<Rightarrow> xqc_conn_str \<Rightarrow> xqc_conn_str \<times> xqc_packet_in \<times> unit res" where
  "xqc_process_streams_blocked_frame pi c =
     (case xqc_parse_streams_blocked_frame pi of
        Inl e \<Rightarrow> (c, pi, Inl e)
      | Inr (pi, l, bidi) \<Rightarrow> let (c, r) = streams_blocked l bidi c in (c, pi, r))"

definition xqc_process_max_data_frame :: "xqc_packet_in \<Rightarrow> xqc_conn_str \<Rightarrow> xqc_conn_str \<times> xqc_packet_in \<times> unit res" where
  "xqc_process_max_data_frame pi c =
     (case xqc_parse_max_data_frame pi of
        Inl e \<Rightarrow> (c, pi, Inl e)
      | Inr (pi, m) \<Rightarrow>
          (if m > fc_max_data_can_send (conn_flow_ctl c)
           then (fc_upd (\<lambda>fc. fc\<lparr>fc_max_data_can_send := m\<rparr>) c)
                  \<lparr>sc_conn := (sc_conn c)\<lparr>conn_flag := conn_flag (sc_conn c) AND NOT XQC_CONN_FLAG_DATA_BLOCKED\<rparr>\<rparr>
           else c, pi, Inr ()))"

definition max_stream_data_stage :: "u64 \<Rightarrow> xqc_conn_str \<Rightarrow> xqc_stream \<Rightarrow> stage" where
  "max_stream_data_stage m c s =
     (c, if m > fc_max_stream_data_can_send (stream_flow_ctl s)
         then flag_off XQC_STREAM_FLAG_DATA_BLOCKED (sfc_upd (\<lambda>fc. fc\<lparr>fc_max_stream_data_can_send := m\<rparr>) s) else s,
      Some (Inr ()))"

definition xqc_process_max_stream_data_frame ::
    "create_env \<Rightarrow> xqc_packet_in \<Rightarrow> xqc_conn_str \<Rightarrow> xqc_conn_str \<times> xqc_packet_in \<times> unit res" where
  "xqc_process_max_stream_data_frame env pi c =
     (case xqc_parse_max_stream_data_frame pi (sc_conn c) of
        (conn, Inl e) \<Rightarrow> (c\<lparr>sc_conn := conn\<rparr>, pi, Inl e)
      | (conn, Inr (pi, sid, m)) \<Rightarrow>
          let (c, r) = with_stream (get_stream env (c\<lparr>sc_conn := conn\<rparr>) sid) (max_stream_data_stage m) in (c, pi, r))"

definition xqc_process_max_streams_frame ::
    "xqc_packet_in \<Rightarrow> xqc_conn_str \<Rightarrow> xqc_conn_str \<times> xqc_packet_in \<times> unit res" where
  "xqc_process_max_streams_frame pi c =
     (case xqc_parse_max_streams_frame pi of
        Inl e \<Rightarrow> (c, pi, Inl e)
      | Inr (pi, m, bidi) \<Rightarrow>
          if m > XQC_MAX_STREAMS then (c, pi, Inl XQC_EPROTO)
          else (if bidi
                then (if m > fc_max_streams_bidi_can_send (conn_flow_ctl c)
                      then fc_upd (\<lambda>fc. fc\<lparr>fc_max_streams_bidi_can_send := m\<rparr>) c else c)
                else (if m > fc_max_streams_uni_can_send (conn_flow_ctl c)
                      then fc_upd (\<lambda>fc. fc\<lparr>fc_max_streams_uni_can_send := m\<rparr>) c else c), pi, Inr ()))"

end
