(* ===== verification/Flow_Control.thy ===== *)
theory Flow_Control
  imports Stream_Flow
begin

text \<open>
  The receiver's side of flow control: an invariant of the connection and its streams, kept by every handler and every call of
  the application in Stream_Flow, and what follows for whole histories of a connection. Two locales carry the proofs over the stages of a
  handler: \<open>stream_predicate\<close> collects what most of the code does not touch, \<open>stream_invariant\<close> adds the
  laws for the code that moves data and limits. Both are interpreted for the flow control invariant of an open stream and for
  its final size.
\<close>

section \<open>The invariant\<close>

definition stream_ok :: "xqc_stream \<Rightarrow> bool" where
  "stream_ok s \<longleftrightarrow>
     (let fc = stream_flow_ctl s in
      stream_max_recv_offset s \<le> fc_max_stream_data_can_recv fc
      \<and> fc_max_stream_data_can_recv fc \<le> XQC_MAX_FLOW_CONTROL_WINDOW
      \<and> fc_stream_recv_window_size fc \<le> XQC_MAX_FLOW_CONTROL_WINDOW)"

definition recv_sum :: "xqc_stream list \<Rightarrow> nat" where
  "recv_sum ss = sum_list (map (\<lambda>s. unat (stream_max_recv_offset s)) ss)"

definition settings_ok :: "xqc_trans_settings_fc \<Rightarrow> bool" where
  "settings_ok l \<longleftrightarrow>
     max_stream_data_bidi_local l \<le> XQC_MAX_FLOW_CONTROL_WINDOW \<and> max_stream_data_bidi_remote l \<le> XQC_MAX_FLOW_CONTROL_WINDOW
     \<and> max_stream_data_uni l \<le> XQC_MAX_FLOW_CONTROL_WINDOW"

text \<open>
  The part of the invariant on the counters of the connection; \<open>strict\<close> adds that the bytes counted for the streams are within
  the limit, which a RESET\_STREAM frame can break when RESET\_STREAM\_AT is off.
\<close>

definition fc_ok :: "bool \<Rightarrow> nat \<Rightarrow> xqc_conn_flow_ctl \<Rightarrow> bool" where
  "fc_ok strict n fc \<longleftrightarrow>
     (strict \<longrightarrow> n \<le> unat (fc_data_recved fc) \<and> fc_data_recved fc \<le> fc_max_data_can_recv fc)
     \<and> fc_max_data_can_recv fc \<le> XQC_MAX_FLOW_CONTROL_WINDOW
     \<and> fc_recv_windows_size fc \<le> 2 * XQC_MAX_FLOW_CONTROL_WINDOW"

text \<open>The streams we opened have the identifiers handed out so far.\<close>

definition id_ok :: "xqc_conn_str \<Rightarrow> u64 \<Rightarrow> bool" where
  "id_ok c i \<longleftrightarrow> \<not> peer_stream (conn_type (sc_conn c)) i \<longrightarrow>
     drop_bit 2 i < (if xqc_stream_is_bidi i then cur_stream_id_bidi_local c else cur_stream_id_uni_local c)"

definition ids_ok :: "xqc_conn_str \<Rightarrow> bool" where
  "ids_ok c \<longleftrightarrow>
     distinct (map stream_id (conn_all_streams c)) \<and> list_all (id_ok c) (map stream_id (conn_all_streams c))
     \<and> fc_max_streams_bidi_can_send (conn_flow_ctl c) \<le> XQC_MAX_STREAMS
     \<and> fc_max_streams_uni_can_send (conn_flow_ctl c) \<le> XQC_MAX_STREAMS"

definition flow_inv :: "bool \<Rightarrow> xqc_conn_str \<Rightarrow> bool" where
  "flow_inv strict c \<longleftrightarrow>
     settings_ok (local_settings c) \<and> ids_ok c \<and> list_all stream_ok (conn_all_streams c)
     \<and> fc_ok strict (recv_sum (conn_all_streams c)) (conn_flow_ctl c)"

definition others :: "u64 \<Rightarrow> xqc_stream list \<Rightarrow> xqc_stream list" where
  "others i ss = filter (\<lambda>t. stream_id t \<noteq> i) ss"

text \<open>What a handler that works on a stream leaves alone in the connection.\<close>

definition same_frame :: "xqc_conn_str \<Rightarrow> xqc_conn_str \<Rightarrow> bool" where
  "same_frame c0 c \<longleftrightarrow>
     conn_all_streams c = conn_all_streams c0 \<and> local_settings c = local_settings c0
     \<and> conn_type (sc_conn c) = conn_type (sc_conn c0)
     \<and> cur_stream_id_bidi_local c = cur_stream_id_bidi_local c0 \<and> cur_stream_id_uni_local c = cur_stream_id_uni_local c0
     \<and> fc_max_streams_bidi_can_send (conn_flow_ctl c) = fc_max_streams_bidi_can_send (conn_flow_ctl c0)
     \<and> fc_max_streams_uni_can_send (conn_flow_ctl c) = fc_max_streams_uni_can_send (conn_flow_ctl c0)"

text \<open>
  The invariant while a stream is worked on: the handler started with connection \<open>c0\<close> and stream \<open>s0\<close> and has
  come to \<open>c\<close> and \<open>s\<close>. It includes that no limit has been lowered.
\<close>

definition open_inv :: "bool \<Rightarrow> xqc_conn_str \<Rightarrow> xqc_stream \<Rightarrow> xqc_conn_str \<Rightarrow> xqc_stream \<Rightarrow> bool" where
  "open_inv strict c0 s0 c s \<longleftrightarrow>
     same_frame c0 c \<and> stream_id s = stream_id s0 \<and> stream_ok s
     \<and> fc_ok strict (recv_sum (others (stream_id s0) (conn_all_streams c0)) + unat (stream_max_recv_offset s)) (conn_flow_ctl c)
     \<and> fc_max_data_can_recv (conn_flow_ctl c0) \<le> fc_max_data_can_recv (conn_flow_ctl c)
     \<and> fc_max_stream_data_can_recv (stream_flow_ctl s0) \<le> fc_max_stream_data_can_recv (stream_flow_ctl s)"

lemma recv_sum_Nil [simp]: "recv_sum [] = 0"
  and recv_sum_Cons [simp]: "recv_sum (s # ss) = unat (stream_max_recv_offset s) + recv_sum ss"
  and recv_sum_append [simp]: "recv_sum (ss @ ts) = recv_sum ss + recv_sum ts"
  by (simp_all add: recv_sum_def)

lemma others_absent: "i \<notin> stream_id ` set ss \<Longrightarrow> others i ss = ss"
  by (induction ss) (auto simp: others_def)

lemma recv_sum_find:
  "distinct (map stream_id ss) \<Longrightarrow> find (\<lambda>s. stream_id s = i) ss = Some s \<Longrightarrow>
   recv_sum ss = recv_sum (others i ss) + unat (stream_max_recv_offset s) \<and> s \<in> set ss \<and> stream_id s = i"
proof (induction ss)
  case (Cons t ss)
  show ?case
  proof (cases "stream_id t = i")
    case True
    then have "i \<notin> stream_id ` set ss" using Cons.prems(1) by auto
    from others_absent [OF this] True Cons.prems(2) show ?thesis by (simp add: others_def)
  next
    case False
    with Cons show ?thesis by (auto simp: others_def)
  qed
qed simp

lemma recv_sum_put:
  "distinct (map stream_id ss) \<Longrightarrow> stream_id s \<in> stream_id ` set ss \<Longrightarrow>
   recv_sum (map (\<lambda>t. if stream_id t = stream_id s then s else t) ss)
     = recv_sum (others (stream_id s) ss) + unat (stream_max_recv_offset s)"
proof (induction ss)
  case (Cons t ss)
  show ?case
  proof (cases "stream_id t = stream_id s")
    case True
    then have "stream_id s \<notin> stream_id ` set ss" using Cons.prems(1) by auto
    moreover from this have "map (\<lambda>t. if stream_id t = stream_id s then s else t) ss = ss"
      by (intro map_idI) (metis image_eqI)
    ultimately show ?thesis using True others_absent [of "stream_id s" ss] by (simp add: others_def)
  next
    case False
    with Cons show ?thesis by (auto simp: others_def)
  qed
qed simp

lemma open_inv_load:
  assumes "flow_inv strict c" "xqc_find_stream_by_id sid c = Some s"
  shows "open_inv strict c s c s"
  using assms recv_sum_find [of "conn_all_streams c" sid s]
  by (auto simp: flow_inv_def ids_ok_def open_inv_def same_frame_def xqc_find_stream_by_id_def list_all_iff)

lemma put_ids: "map stream_id (map (\<lambda>t. if stream_id t = stream_id s then s else t) ss) = map stream_id ss"
  by (induction ss) auto

lemma id_ok_cong:
  "conn_type (sc_conn c) = conn_type (sc_conn c0) \<Longrightarrow> cur_stream_id_bidi_local c = cur_stream_id_bidi_local c0 \<Longrightarrow>
   cur_stream_id_uni_local c = cur_stream_id_uni_local c0 \<Longrightarrow> id_ok c = id_ok c0"
  by (rule ext) (simp add: id_ok_def)

lemma ids_ok_put:
  assumes "ids_ok c0" "same_frame c0 c"
  shows "ids_ok (put_stream s c)"
proof -
  have ids: "map stream_id (conn_all_streams (put_stream s c)) = map stream_id (conn_all_streams c)"
    using put_ids [of s "conn_all_streams c"] by (simp add: put_stream_def)
  have "id_ok (put_stream s c) = id_ok c0"
    using assms(2) by (intro id_ok_cong) (simp_all add: put_stream_def same_frame_def)
  moreover have "conn_flow_ctl (put_stream s c) = conn_flow_ctl c" by (simp add: put_stream_def)
  ultimately show ?thesis
    unfolding ids_ok_def ids using assms by (simp add: ids_ok_def same_frame_def)
qed

lemma open_inv_store:
  assumes inv: "open_inv strict c0 s0 c s" and c0: "flow_inv strict c0" and mem: "stream_id s0 \<in> stream_id ` set (conn_all_streams c0)"
  shows "flow_inv strict (put_stream s c)"
proof -
  define ts where "ts = map (\<lambda>t. if stream_id t = stream_id s then s else t) (conn_all_streams c)"
  have c: "conn_all_streams c = conn_all_streams c0" "local_settings c = local_settings c0" "stream_id s = stream_id s0" "stream_ok s"
    using inv by (simp_all add: open_inv_def same_frame_def)
  have sum: "recv_sum ts = recv_sum (others (stream_id s0) (conn_all_streams c0)) + unat (stream_max_recv_offset s)"
    using recv_sum_put [of "conn_all_streams c0" s] c0 mem c by (simp add: ts_def flow_inv_def ids_ok_def)
  have "list_all stream_ok ts" using c0 c by (auto simp: list_all_iff ts_def flow_inv_def)
  moreover have "conn_all_streams (put_stream s c) = ts" "local_settings (put_stream s c) = local_settings c0"
    "conn_flow_ctl (put_stream s c) = conn_flow_ctl c"
    using c by (simp_all add: put_stream_def ts_def)
  moreover have "ids_ok (put_stream s c)"
    using c0 inv by (intro ids_ok_put [of c0]) (simp_all add: flow_inv_def open_inv_def)
  ultimately show ?thesis using sum c0 inv by (simp add: flow_inv_def open_inv_def)
qed

lemma open_inv_finish:
  assumes "flow_inv strict c0" "xqc_find_stream_by_id sid c0 = Some s0" "open_inv strict c0 s0 c s"
  shows "flow_inv strict (put_stream s c)"
  using assms recv_sum_find [of "conn_all_streams c0" sid s0]
  by (intro open_inv_store [OF assms(3)]) (auto simp: flow_inv_def ids_ok_def xqc_find_stream_by_id_def)

section \<open>Stages\<close>

definition stage_keeps :: "(xqc_conn_str \<Rightarrow> xqc_stream \<Rightarrow> bool) \<Rightarrow> stage \<Rightarrow> bool" where
  "stage_keeps P x \<longleftrightarrow> (case x of (c, s, r) \<Rightarrow> P c s)"

lemma stage_keeps_simp [simp]: "stage_keeps P (c, s, r) \<longleftrightarrow> P c s"
  by (simp add: stage_keeps_def)

lemma stage_keeps_then:
  "stage_keeps P x \<Longrightarrow> (\<And>c s. P c s \<Longrightarrow> stage_keeps P (k c s)) \<Longrightarrow> stage_keeps P (stage_then x k)"
  by (cases x) (auto simp: stage_then_def split: option.splits)

text \<open>A stage that establishes \<open>Q\<close> for what follows when it does not return.\<close>

lemma stage_keeps_then_post:
  assumes "stage_keeps P x" "\<And>c s. x = (c, s, None) \<Longrightarrow> Q c s" "\<And>c s. P c s \<Longrightarrow> Q c s \<Longrightarrow> stage_keeps P (k c s)"
  shows "stage_keeps P (stage_then x k)"
  using assms by (cases x) (auto simp: stage_then_def split: option.splits)

lemma conn_type_err [simp]: "conn_type (XQC_CONN_ERR conn e) = conn_type conn"
  by (simp add: XQC_CONN_ERR_def XQC_CONN_CLOSE_MSG_def xqc_conn_closing_def Let_def)

section \<open>Predicates on an open stream\<close>

text \<open>
  A predicate on a connection and a stream that does not look at the fields which the bookkeeping of the handlers
  changes: the error and the flags of the connection, its timers and control frames; flags, states and the reset of the
  stream.
\<close>

locale stream_predicate =
  fixes P :: "xqc_conn_str \<Rightarrow> xqc_stream \<Rightarrow> bool"
  assumes P_conn: "conn_type x = conn_type (sc_conn c) \<Longrightarrow> P (c\<lparr>sc_conn := x\<rparr>) s = P c s"
    and P_timers: "P (c\<lparr>sc_timers := m\<rparr>) s = P c s"
    and P_write: "P (c\<lparr>ctl_written := w\<rparr>) s = P c s"
    and P_flag: "P c (s\<lparr>stream_flag := fl\<rparr>) = P c s"
    and P_close_time: "P c (s\<lparr>stream_close_time := t\<rparr>) = P c s"
    and P_err: "P c (s\<lparr>stream_err := e\<rparr>) = P c s"
    and P_send: "P c (s\<lparr>stream_state_send := x1\<rparr>) = P c s"
    and P_recv: "P c (s\<lparr>stream_state_recv := x2\<rparr>) = P c s"
    and P_reset_at: "P c (s\<lparr>reset_at := ra\<rparr>) = P c s"
begin

lemma P_bookkeeping:
  "P (sc_err c e) s = P c s" "P (fst (ctl_write f c)) s = P c s" "P c (ra_upd g s) = P c s"
  "P c (flag_on b s) = P c s" "P c (flag_off b s) = P c s"
  "P c (xqc_stream_ready_to_read s) = P c s" "P c (xqc_stream_shutdown_read s) = P c s"
  "P c (xqc_stream_ready_to_write s) = P c s" "P c (xqc_stream_shutdown_write s) = P c s"
  by (simp_all add: sc_err_def ctl_write_def ra_upd_def flag_on_def flag_off_def xqc_stream_ready_to_read_def
      xqc_stream_shutdown_read_def xqc_stream_ready_to_write_def xqc_stream_shutdown_write_def
      P_conn P_write P_flag P_reset_at)

lemmas P_simps = P_timers P_write P_flag P_close_time P_err P_send P_recv P_reset_at P_bookkeeping

lemma close_later_keeps: "close_later now c s = (c', s') \<Longrightarrow> P c' s' = P c s"
  by (auto simp: close_later_def Let_def P_simps)

lemma need_close_keeps: "xqc_stream_maybe_need_close now c s = (c', s') \<Longrightarrow> P c' s' = P c s"
  by (auto simp: xqc_stream_maybe_need_close_def split: if_splits dest: close_later_keeps)

lemma close_discarded_keeps: "xqc_stream_close_discarded_stream now c s = (c', s') \<Longrightarrow> P c' s' = P c s"
  by (auto simp: xqc_stream_close_discarded_stream_def split: if_splits dest: close_later_keeps)

lemma write_reset_keeps: "xqc_write_reset_stream_to_packet c s err n = (c', s', r) \<Longrightarrow> P c' s' = P c s"
  by (auto simp: xqc_write_reset_stream_to_packet_def ctl_write_def P_simps split: if_splits)

lemma do_reset_plain_keeps: "do_reset_plain c s err = (c', s', r) \<Longrightarrow> P c' s' = P c s"
  by (auto simp: do_reset_plain_def P_simps split: prod.splits sum.splits dest: write_reset_keeps)

lemma do_reset_update_keeps: "do_reset_update c s err = (c', s', r) \<Longrightarrow> P c' s' = P c s"
  by (auto simp: do_reset_update_def Let_def xqc_write_reset_stream_at_to_packet_def ctl_write_def P_simps
      split: if_splits prod.splits sum.splits dest: write_reset_keeps)

lemma do_reset_reliable_keeps: "do_reset_reliable c s err = (c', s', r) \<Longrightarrow> P c' s' = P c s"
  by (auto simp: do_reset_reliable_def Let_def xqc_write_reset_stream_at_to_packet_def ctl_write_def P_simps
      split: if_splits prod.splits sum.splits dest: do_reset_plain_keeps)

lemma do_reset_keeps: "xqc_stream_do_reset c s err = (c', s', r) \<Longrightarrow> P c' s' = P c s"
  by (auto simp: xqc_stream_do_reset_def Let_def split: if_splits
      dest: do_reset_plain_keeps do_reset_update_keeps do_reset_reliable_keeps)

lemma do_reset_now_keeps: "do_reset_now c s err = (c', s', r) \<Longrightarrow> P c' s' = P c s"
  by (auto simp: do_reset_now_def P_simps split: if_splits prod.splits dest!: do_reset_keeps)

lemma proto_err_keeps: "stage_keeps P (proto_err e c s) = P c s"
  by (simp add: proto_err_def P_simps)

lemma reset_other_side_keeps: "P c s \<Longrightarrow> stage_keeps P (reset_other_side sid err c s)"
  by (auto simp: reset_other_side_def split: prod.splits sum.splits dest: do_reset_now_keeps)

lemma stop_sending_keeps: "P c s \<Longrightarrow> stage_keeps P (stop_sending_stage err c s)"
  by (auto simp: stop_sending_stage_def split: prod.splits dest: do_reset_now_keeps)

lemma send_flow_ctl_keeps: "xqc_stream_do_send_flow_ctl c s = (c', s', r) \<Longrightarrow> P c' s' = P c s"
  by (auto simp: xqc_stream_do_send_flow_ctl_def Let_def P_simps P_conn split: if_splits)

lemma set_reliable_size_keeps: "xqc_stream_set_reliable_size c s n = (s', r) \<Longrightarrow> P c s' = P c s"
  by (auto simp: xqc_stream_set_reliable_size_def Let_def P_simps split: if_splits)

lemma stream_old_keeps: "P c s \<Longrightarrow> stage_keeps P (stream_old f c s)"
  by (auto simp: stream_old_def Let_def proto_err_keeps P_simps)

lemma stream_wake_keeps: "P c s \<Longrightarrow> stage_keeps P (stream_wake c s)"
  by (auto simp: stream_wake_def Let_def P_simps)

end

text \<open>The stream has no final size other than \<open>n\<close>.\<close>

definition size_may_be :: "u64 \<Rightarrow> xqc_conn_str \<Rightarrow> xqc_stream \<Rightarrow> bool" where
  "size_may_be n c s \<longleftrightarrow> (stream_determined (stream_data_in s) \<longrightarrow> stream_length (stream_data_in s) = n)"

interpretation sz: stream_predicate "size_may_be n" for n
  by unfold_locales (simp_all add: size_may_be_def)

interpretation oi: stream_predicate "open_inv strict c0 s0" for strict c0 s0
  by unfold_locales (simp_all add: open_inv_def same_frame_def stream_ok_def)

section \<open>What handlers keep\<close>

lemma stage_then_assoc: "stage_then (stage_then x k) h = stage_then x (\<lambda>c s. stage_then (k c s) h)"
  by (cases x) (auto simp: stage_then_def split: option.splits)

lemma stage_then_return: "stage_then (c, s, Some r) k = (c, s, Some r)" "stage_then (c, s, None) k = k c s"
  by (simp_all add: stage_then_def)

lemma stream_recv_loop_size:
  "stream_recv_loop sz out di fs = (out', di', fs') \<Longrightarrow>
   stream_length di' = stream_length di \<and> stream_determined di' = stream_determined di"
  by (induction sz out di fs rule: stream_recv_loop.induct)
     (auto simp: Let_def di_uncount_def split: if_splits)

lemma stream_read_size:
  "stream_read sz di = (out, di') \<Longrightarrow>
   stream_length di' = stream_length di \<and> stream_determined di' = stream_determined di"
  using stream_recv_loop_size by (fastforce simp: stream_read_def split: prod.splits)

lemma insert_size:
  "xqc_insert_stream_frame cfg di f = (di', r) \<Longrightarrow>
   stream_length di' = stream_length di \<and> stream_determined di' = stream_determined di"
  by (auto simp: xqc_insert_stream_frame_def Let_def split: if_splits option.splits)

definition stream_receive :: "u64 \<Rightarrow> xqc_pkt_type \<Rightarrow> xqc_stream_frame \<Rightarrow> xqc_conn_str \<Rightarrow> xqc_stream \<Rightarrow> stage" where
  "stream_receive now ptype f c s =
     stage_then (stream_checks now f c s) (\<lambda>c s. stage_then (stream_insert ptype f c s) (stream_account f))"

locale stream_invariant = stream_predicate +
  assumes P_data_in: "stream_length di = stream_length (stream_data_in s) \<Longrightarrow>
      stream_determined di = stream_determined (stream_data_in s) \<Longrightarrow> P c (s\<lparr>stream_data_in := di\<rparr>) = P c s"
    and P_read: "P (fc_upd (\<lambda>fc. fc\<lparr>fc_data_read := g fc\<rparr>) c) s = P c s"
    and P_conn_window: "P c s \<Longrightarrow> P (xqc_stream_do_recv_conn_flow_ctl now c s) s"
    and P_stream_window: "P c s \<Longrightarrow> recv_stream_flow_ctl now c s = (c', s') \<Longrightarrow> P c' s'"
    and P_known: "P c s \<Longrightarrow> size_may_be n c s \<Longrightarrow>
      P c (di_upd (\<lambda>di. di\<lparr>stream_length := n, stream_determined := True\<rparr>) s)"
    and P_receive: "P c s \<Longrightarrow> stage_keeps P (stream_receive now ptype f c s)"
    and P_account: "P c s \<Longrightarrow> stage_keeps P (xqc_stream_account_reset_final_size n c s)"
    and P_settings: "P c s \<Longrightarrow> xqc_stream_update_settings c s rate = (c', s', r) \<Longrightarrow> P c' s'"
    and P_blocked: "P c s \<Longrightarrow> stage_keeps P (stream_data_blocked n c s)"
    and P_max_data: "P c s \<Longrightarrow> P c (sfc_upd (\<lambda>fc. fc\<lparr>fc_max_stream_data_can_send := n\<rparr>) s)"
begin

lemma stream_final_size_keeps: "P c s \<Longrightarrow> stage_keeps P (stream_final_size f c s)"
  using P_known [of c s "sf_end f"]
  by (auto simp: stream_final_size_def Let_def proto_err_keeps P_recv size_may_be_def)

lemma stream_frame_stages_keeps:
  assumes "P c s"
  shows "stage_keeps P (stream_frame_stages now ptype f c s)"
proof -
  have "stream_frame_stages now ptype f c s =
      stage_then (stream_old f c s) (\<lambda>c s. stage_then (stream_final_size f c s) (\<lambda>c s.
        stage_then (stream_receive now ptype f c s) stream_wake))"
    by (simp add: stream_frame_stages_def stream_receive_def stage_then_assoc)
  with assms show ?thesis
    by (auto intro!: stage_keeps_then stream_old_keeps stream_final_size_keeps P_receive stream_wake_keeps)
qed

lemma P_drop_frames:
  "P c (di_upd (\<lambda>di. di\<lparr>frames_tailq := x, buffered_frame_count := y, buffered_data_bytes := z\<rparr>) s) = P c s"
  unfolding di_upd_def by (rule P_data_in) simp_all

lemma complete_recv_reset_aux_keeps:
  assumes "P c s" "complete_recv_reset now c s n b = (c', s')"
  shows "P c' s'"
proof -
  define c0 where "c0 = fc_upd (\<lambda>fc. fc\<lparr>fc_data_read := fc_data_read fc + (n - di_next_read_offset (stream_data_in s))\<rparr>) c"
  define s0 where "s0 = (di_upd (\<lambda>di. di\<lparr>frames_tailq := [], buffered_frame_count := 0, buffered_data_bytes := 0\<rparr>) s)
    \<lparr>stream_state_recv := XQC_RECV_STREAM_ST_RESET_RECVD\<rparr>"
  have "P c0 s0" using assms(1) by (simp add: c0_def s0_def P_read P_recv P_drop_frames)
  then have "P (xqc_stream_do_recv_conn_flow_ctl now c0 s0) s0" by (rule P_conn_window)
  with assms show ?thesis
    unfolding complete_recv_reset_def Let_def c0_def [symmetric] s0_def [symmetric]
    by (auto simp: P_bookkeeping split: if_splits)
qed

lemma complete_recv_reset_keeps:
  assumes "P c s" "xqc_stream_complete_recv_reset now c s e n b = (c', s')"
  shows "P c' s'"
proof -
  obtain c1 s1 where *: "complete_recv_reset now c (s\<lparr>stream_err := e\<rparr>) n b = (c1, s1)" by (metis surj_pair)
  from complete_recv_reset_aux_keeps [OF _ *] assms(1) have "P c1 s1" by (simp add: P_err)
  with assms * show ?thesis
    by (auto simp: xqc_stream_complete_recv_reset_def P_simps split: if_splits dest: need_close_keeps)
qed

lemma recv_fin_keeps: "P c s \<Longrightarrow> recv_fin now c s = (c', s', b) \<Longrightarrow> P c' s'"
  by (auto simp: recv_fin_def Let_def P_simps split: if_splits prod.splits dest: need_close_keeps)

lemma recv_flow_ctl_keeps: "P c s \<Longrightarrow> xqc_stream_do_recv_flow_ctl now c s = (c', s') \<Longrightarrow> P c' s'"
  by (auto simp: xqc_stream_do_recv_flow_ctl_def split: prod.splits intro: P_conn_window dest: P_stream_window)

lemma recv_data_keeps:
  assumes "P c s" "recv_data now sz c s = (c', s', r)"
  shows "P c' s'"
proof -
  obtain out di where rd: "stream_read sz (stream_data_in s) = (out, di)" by (metis surj_pair)
  obtain c1 s1 b where fi: "recv_fin now c (s\<lparr>stream_data_in := di\<rparr>) = (c1, s1, b)" by (metis surj_pair)
  define c2 where "c2 = fc_upd (\<lambda>fc. fc\<lparr>fc_data_read := fc_data_read fc + of_nat (length out)\<rparr>) c1"
  obtain c3 s3 where fl: "xqc_stream_do_recv_flow_ctl now c2 (xqc_stream_shutdown_read s1) = (c3, s3)" by (metis surj_pair)
  have "P c (s\<lparr>stream_data_in := di\<rparr>)" using assms(1) stream_read_size [OF rd] by (simp add: P_data_in)
  from this fi have "P c1 s1" by (rule recv_fin_keeps)
  then have "P c2 (xqc_stream_shutdown_read s1)" by (simp add: c2_def P_read P_bookkeeping)
  from this fl have "P c3 s3" by (rule recv_flow_ctl_keeps)
  with assms(2) rd fi fl show ?thesis
    by (auto simp: recv_data_def c2_def [symmetric] P_bookkeeping Let_def split: if_splits)
qed

lemma stream_recv_keeps: "P c s \<Longrightarrow> xqc_stream_recv now sz c s = (c', s', r) \<Longrightarrow> P c' s'"
  by (auto simp: xqc_stream_recv_def Let_def P_simps split: if_splits prod.splits
      dest: need_close_keeps complete_recv_reset_keeps recv_data_keeps)

text \<open>Resets by the peer: the size that was checked is the one recorded.\<close>

lemma account_known: "xqc_stream_account_reset_final_size n c s = (c', s', None) \<Longrightarrow> size_may_be n c' s'"
  by (auto simp: xqc_stream_account_reset_final_size_def Let_def proto_err_def size_may_be_def split: if_splits)

lemma reset_completed_keeps:
  assumes "P c s" "size_may_be n c s"
  shows "stage_keeps P (reset_completed now err n c s)"
proof -
  define s1 where "s1 = (if ra_recv_state (reset_at s) \<noteq> XQC_RESET_AT_RECV_NONE
    then di_upd (\<lambda>di. di\<lparr>stream_length := n, stream_determined := True\<rparr>)
      (ra_upd (\<lambda>r. r\<lparr>ra_recv_size := 0, ra_recv_error := err, ra_recv_state := XQC_RESET_AT_ORDINARY\<rparr>) s) else s)"
  have "P c s1" using assms by (auto simp: s1_def P_bookkeeping sz.P_bookkeeping intro!: P_known)
  then have "P c (ra_upd (\<lambda>r. r\<lparr>ra_recv_error := err\<rparr>) s1)" by (simp add: P_bookkeeping)
  from complete_recv_reset_keeps [OF this] assms(1) show ?thesis
    unfolding reset_completed_def Let_def s1_def [symmetric] by (auto split: prod.splits)
qed

lemma reset_rest_keeps:
  assumes "P c s" "size_may_be n c s"
  shows "stage_keeps P (stage_then (reset_other_side sid err c s) (reset_completed now err n))"
proof (rule stage_keeps_then_post)
  show "stage_keeps P (reset_other_side sid err c s)" using assms(1) by (rule reset_other_side_keeps)
  show "size_may_be n c' s'" if "reset_other_side sid err c s = (c', s', None)" for c' s'
    using sz.reset_other_side_keeps [OF assms(2), of sid err] that by simp
qed (rule reset_completed_keeps)

lemma reset_fields_keeps:
  assumes "P c s"
  shows "stage_keeps P (xqc_process_reset_stream_fields now sid err n c s)"
proof -
  have "stage_keeps P (stage_then (xqc_stream_account_reset_final_size n c s) (\<lambda>c s.
      stage_then (reset_other_side sid err c s) (reset_completed now err n)))"
    by (rule stage_keeps_then_post [OF P_account [OF assms], where Q = "size_may_be n"])
       (auto intro: account_known reset_rest_keeps)
  with assms show ?thesis by (auto simp: xqc_process_reset_stream_fields_def Let_def proto_err_keeps)
qed

lemma reset_at_repeated_keeps: "P c s \<Longrightarrow> stage_keeps P (reset_at_repeated now sid err n r c s)"
  by (auto simp: reset_at_repeated_def Let_def proto_err_keeps P_bookkeeping intro!: reset_fields_keeps)

lemma reset_at_reliable_keeps:
  assumes "P c s" "size_may_be n c s"
  shows "stage_keeps P (reset_at_reliable now err n r c s)"
proof -
  define s1 where "s1 = ra_upd (\<lambda>ra. ra\<lparr>ra_recv_state := XQC_RESET_AT_RELIABLE, ra_recv_size := r, ra_recv_error := err\<rparr>)
    (di_upd (\<lambda>di. di\<lparr>stream_length := n, stream_determined := True\<rparr>) s)"
  have "P c s1" using assms by (auto simp: s1_def P_bookkeeping intro!: P_known)
  with assms(1) show ?thesis
    unfolding reset_at_reliable_def Let_def s1_def [symmetric]
    by (auto simp: P_simps split: prod.splits dest: complete_recv_reset_keeps)
qed

lemma reset_at_stages_keeps:
  assumes "P c s"
  shows "stage_keeps P (reset_at_stages now sid err n r c s)"
  unfolding reset_at_stages_def
proof (rule stage_keeps_then)
  show "stage_keeps P (reset_at_repeated now sid err n r c s)" using assms by (rule reset_at_repeated_keeps)
  fix c s assume P: "P c s"
  show "stage_keeps P (stage_then (xqc_stream_account_reset_final_size n c s) (\<lambda>c s.
      if r = 0 then xqc_process_reset_stream_fields now sid err n c
        (ra_upd (\<lambda>r. r\<lparr>ra_recv_seen := True, ra_recv_error := err\<rparr>) s)
      else reset_at_reliable now err n r c s))"
    by (rule stage_keeps_then_post [OF P_account [OF P], where Q = "size_may_be n"])
       (auto intro: account_known reset_at_reliable_keeps reset_fields_keeps simp: P_bookkeeping)
qed

lemma max_stream_data_keeps: "P c s \<Longrightarrow> stage_keeps P (max_stream_data_stage n c s)"
  by (auto simp: max_stream_data_stage_def P_bookkeeping P_max_data)

end

section \<open>The final size\<close>

definition final_is :: "u64 \<Rightarrow> xqc_conn_str \<Rightarrow> xqc_stream \<Rightarrow> bool" where
  "final_is n c s \<longleftrightarrow> stream_determined (stream_data_in s) \<and> stream_length (stream_data_in s) = n"

lemma final_is_receive:
  assumes "final_is n c s"
  shows "stage_keeps (final_is n) (stream_receive now ptype f c s)"
proof -
  have cd: "stream_data_in (snd (xqc_stream_close_discarded_stream now c s)) = stream_data_in s" for c s
    by (simp add: xqc_stream_close_discarded_stream_def close_later_def Let_def flag_on_def flag_off_def
        xqc_stream_shutdown_write_def xqc_stream_shutdown_read_def)
  have 1: "stage_keeps (final_is n) (stream_checks now f c s)" if "final_is n c s" for c s
    using that cd [of c s] by (auto simp: stream_checks_def Let_def proto_err_def final_is_def split: prod.splits)
  have 2: "stage_keeps (final_is n) (stream_insert ptype f c s)" if "final_is n c s" for c s
    using that by (auto simp: stream_insert_def Let_def final_is_def split: prod.splits sum.splits dest: insert_size)
  have 3: "stage_keeps (final_is n) (stream_account f c s)" if "final_is n c s" for c s
    using that by (auto simp: stream_account_def Let_def proto_err_def final_is_def split: if_splits)
  show ?thesis unfolding stream_receive_def using assms by (intro stage_keeps_then 1 2 3)
qed

interpretation fin: stream_invariant "final_is n" for n
proof unfold_locales
  show "stage_keeps (final_is n) (stream_receive now ptype f c s)" if "final_is n c s" for now ptype f c s
    using that by (rule final_is_receive)
  show "stage_keeps (final_is n) (xqc_stream_account_reset_final_size m c s)" if "final_is n c s" for m c s
    using that by (auto simp: xqc_stream_account_reset_final_size_def Let_def proto_err_def final_is_def split: if_splits)
  show "stage_keeps (final_is n) (stream_data_blocked m c s)" if "final_is n c s" for m c s
    using that by (auto simp: stream_data_blocked_def Let_def sfc_upd_def final_is_def split: prod.splits)
qed (auto simp: final_is_def size_may_be_def di_upd_def sfc_upd_def recv_stream_flow_ctl_def
      xqc_stream_update_settings_def Let_def split: if_splits)

section \<open>Arithmetic of limits\<close>

lemma unat_max_window [simp]: "unat XQC_MAX_FLOW_CONTROL_WINDOW = 4611686018427387903"
  by (simp add: XQC_MAX_FLOW_CONTROL_WINDOW_def)

lemma unat_two_max_window [simp]: "unat (2 * XQC_MAX_FLOW_CONTROL_WINDOW) = 9223372036854775806"
  by (simp add: XQC_MAX_FLOW_CONTROL_WINDOW_def)

lemma max_recv_window_le: "min a XQC_MAX_RECV_WINDOW \<le> XQC_MAX_FLOW_CONTROL_WINDOW"
  by (rule order_trans [OF min.cobounded2]) (simp add: XQC_MAX_RECV_WINDOW_def XQC_MAX_FLOW_CONTROL_WINDOW_def)

lemma recv_rate_window_le: "recv_rate_window a r t \<le> XQC_MAX_FLOW_CONTROL_WINDOW"
  unfolding recv_rate_window_def by (subst min.commute) (rule max_recv_window_le)

lemma clamp_le: "xqc_clamp_to_max_flow_ctl v \<le> XQC_MAX_FLOW_CONTROL_WINDOW"
  by (simp add: xqc_clamp_to_max_flow_ctl_def not_less)

lemma clamp_grow:
  assumes "m \<le> XQC_MAX_FLOW_CONTROL_WINDOW" "a < w" "w \<le> 2 * XQC_MAX_FLOW_CONTROL_WINDOW"
  shows "m \<le> xqc_clamp_to_max_flow_ctl (m + (w - a))"
proof -
  have "unat (w - a) \<le> 9223372036854775806"
    using assms(2,3) unat_sub [OF less_imp_le [OF assms(2)]] by (simp add: word_le_nat_alt)
  moreover have "unat m \<le> 4611686018427387903" using assms(1) by (simp add: word_le_nat_alt)
  ultimately have "m \<le> m + (w - a)" by (intro no_plus_overflow_unat_size [THEN iffD2]) (simp add: word_size)
  with assms(1) show ?thesis by (simp add: xqc_clamp_to_max_flow_ctl_def)
qed

lemma two_max_window: "w \<le> XQC_MAX_FLOW_CONTROL_WINDOW \<Longrightarrow> w \<le> 2 * XQC_MAX_FLOW_CONTROL_WINDOW"
  by (simp add: word_le_nat_alt)

lemma stream_window_le:
  "fc_stream_recv_window_size (stream_flow_ctl s) \<le> XQC_MAX_FLOW_CONTROL_WINDOW \<Longrightarrow>
   stream_window now c s \<le> XQC_MAX_FLOW_CONTROL_WINDOW"
  by (auto simp: stream_window_def Let_def max_recv_window_le recv_rate_window_le)

lemma conn_window_le:
  assumes "fc_recv_windows_size (conn_flow_ctl c) \<le> 2 * XQC_MAX_FLOW_CONTROL_WINDOW"
    and "fc_stream_recv_window_size (stream_flow_ctl s) \<le> XQC_MAX_FLOW_CONTROL_WINDOW"
  shows "conn_window now c s \<le> 2 * XQC_MAX_FLOW_CONTROL_WINDOW"
proof -
  let ?sw = "fc_stream_recv_window_size (stream_flow_ctl s)"
  have "unat (of_nat (3 * unat ?sw div 2) :: u64) \<le> 3 * unat ?sw div 2"
    by (simp only: unsigned_of_nat of_nat_id take_bit_nat_less_eq_self)
  moreover have "unat ?sw \<le> 4611686018427387903" using assms(2) by (simp add: word_le_nat_alt)
  ultimately have *: "of_nat (3 * unat ?sw div 2) \<le> 2 * XQC_MAX_FLOW_CONTROL_WINDOW"
    unfolding word_le_nat_alt unat_two_max_window by linarith
  show ?thesis
    using assms(1) * two_max_window [OF recv_rate_window_le] two_max_window [OF max_recv_window_le]
    by (auto simp: conn_window_def Let_def)
qed

section \<open>The laws for flow control\<close>

lemma open_inv_fields:
  "open_inv strict c0 s0 c (s\<lparr>stream_data_in := di\<rparr>) = open_inv strict c0 s0 c s"
  "open_inv strict c0 s0 c (di_upd h s) = open_inv strict c0 s0 c s"
  "open_inv strict c0 s0 (fc_upd (\<lambda>fc. fc\<lparr>fc_data_read := g fc\<rparr>) c) s = open_inv strict c0 s0 c s"
  "open_inv strict c0 s0 c (sfc_upd (\<lambda>fc. fc\<lparr>fc_max_stream_data_can_send := n\<rparr>) s) = open_inv strict c0 s0 c s"
  by (simp_all add: open_inv_def same_frame_def fc_ok_def fc_upd_def sfc_upd_def di_upd_def stream_ok_def Let_def)

lemma open_conn_window:
  assumes "open_inv strict c0 s0 c s"
  shows "open_inv strict c0 s0 (xqc_stream_do_recv_conn_flow_ctl now c s) s"
proof -
  have fc: "fc_max_data_can_recv (conn_flow_ctl c) \<le> XQC_MAX_FLOW_CONTROL_WINDOW"
    "strict \<longrightarrow> fc_data_recved (conn_flow_ctl c) \<le> fc_max_data_can_recv (conn_flow_ctl c)"
    "conn_window now c s \<le> 2 * XQC_MAX_FLOW_CONTROL_WINDOW"
    using assms by (auto simp: open_inv_def fc_ok_def stream_ok_def Let_def intro!: conn_window_le)
  show ?thesis
    using assms fc clamp_grow [OF fc(1) _ fc(3),
        of "fc_max_data_can_recv (conn_flow_ctl c) - fc_data_read (conn_flow_ctl c)"] clamp_le
    by (auto simp: xqc_stream_do_recv_conn_flow_ctl_def Let_def open_inv_def same_frame_def fc_ok_def fc_upd_def ctl_write_def)
qed

lemma open_stream_window:
  assumes "open_inv strict c0 s0 c s" "recv_stream_flow_ctl now c s = (c', s')"
  shows "open_inv strict c0 s0 c' s'"
proof -
  have fc: "fc_max_stream_data_can_recv (stream_flow_ctl s) \<le> XQC_MAX_FLOW_CONTROL_WINDOW"
    "stream_max_recv_offset s \<le> fc_max_stream_data_can_recv (stream_flow_ctl s)"
    "stream_window now c s \<le> XQC_MAX_FLOW_CONTROL_WINDOW"
    using assms by (auto simp: open_inv_def stream_ok_def Let_def intro!: stream_window_le)
  show ?thesis
    using assms fc clamp_grow [OF fc(1) _ two_max_window [OF fc(3)],
        of "fc_max_stream_data_can_recv (stream_flow_ctl s) - di_next_read_offset (stream_data_in s)"] clamp_le
    by (auto simp: recv_stream_flow_ctl_def Let_def open_inv_def same_frame_def stream_ok_def sfc_upd_def ctl_write_def
        split: if_splits)
qed

definition within_limits :: "xqc_stream_frame \<Rightarrow> xqc_conn_str \<Rightarrow> xqc_stream \<Rightarrow> bool" where
  "within_limits f c s \<longleftrightarrow>
     sf_end f \<le> fc_max_stream_data_can_recv (stream_flow_ctl s)
     \<and> (sf_end f > stream_max_recv_offset s \<longrightarrow>
          fc_data_recved (conn_flow_ctl c) + (sf_end f - stream_max_recv_offset s) \<le> fc_max_data_can_recv (conn_flow_ctl c))"

lemma stream_checks_within: "stream_checks now f c s = (c', s', None) \<Longrightarrow> within_limits f c' s'"
  by (auto simp: stream_checks_def Let_def proto_err_def within_limits_def not_less split: if_splits prod.splits)

lemma stream_checks_open: "open_inv strict c0 s0 c s \<Longrightarrow> stage_keeps (open_inv strict c0 s0) (stream_checks now f c s)"
  by (auto simp: stream_checks_def Let_def oi.proto_err_keeps split: prod.splits dest: oi.close_discarded_keeps)

lemma stream_insert_open: "open_inv strict c0 s0 c s \<Longrightarrow> stage_keeps (open_inv strict c0 s0) (stream_insert ptype f c s)"
  by (auto simp: stream_insert_def Let_def open_inv_fields split: prod.splits sum.splits)

lemma stream_insert_within: "within_limits f c s \<Longrightarrow> stream_insert ptype f c s = (c', s', r) \<Longrightarrow> within_limits f c' s'"
  by (auto simp: stream_insert_def Let_def within_limits_def split: prod.splits sum.splits if_splits)

lemma grow_recved:
  assumes "e > m" "m \<le> XQC_MAX_FLOW_CONTROL_WINDOW" "e \<le> XQC_MAX_FLOW_CONTROL_WINDOW" "r \<le> XQC_MAX_FLOW_CONTROL_WINDOW"
  shows "unat (r + (e - m :: u64)) = unat r + unat e - unat m"
proof -
  have *: "unat (e - m) = unat e - unat m" using assms(1) by (simp add: unat_sub)
  moreover have "unat e \<le> 4611686018427387903" "unat r \<le> 4611686018427387903" "unat m < unat e"
    using assms by (simp_all add: word_le_nat_alt word_less_nat_alt)
  ultimately have "unat r + unat (e - m) < 2 ^ 64" by simp
  then show ?thesis using unat_add_lem [THEN iffD1, of r "e - m"] * \<open>unat m < unat e\<close> by simp
qed

lemma stream_account_open:
  assumes inv: "open_inv strict c0 s0 c s" and lim: "within_limits f c s"
  shows "stage_keeps (open_inv strict c0 s0) (stream_account f c s)"
proof (cases "stream_max_recv_offset s < sf_end f")
  case True
  let ?fc = "conn_flow_ctl c"
  have le: "stream_max_recv_offset s \<le> XQC_MAX_FLOW_CONTROL_WINDOW" "sf_end f \<le> XQC_MAX_FLOW_CONTROL_WINDOW"
    "strict \<longrightarrow> fc_data_recved ?fc \<le> XQC_MAX_FLOW_CONTROL_WINDOW"
    using inv lim by (auto simp: open_inv_def stream_ok_def fc_ok_def within_limits_def Let_def)
  have "strict \<longrightarrow> unat (fc_data_recved ?fc + (sf_end f - stream_max_recv_offset s))
      = unat (fc_data_recved ?fc) + unat (sf_end f) - unat (stream_max_recv_offset s)"
    using grow_recved [OF True le(1,2)] le(3) by blast
  then show ?thesis using inv lim True
    by (auto simp: stream_account_def Let_def open_inv_def same_frame_def stream_ok_def fc_ok_def within_limits_def proto_err_def fc_upd_def
        sc_err_def word_less_nat_alt)
next
  case False
  with inv show ?thesis by (auto simp: stream_account_def Let_def oi.proto_err_keeps)
qed

lemma open_receive:
  assumes "open_inv strict c0 s0 c s"
  shows "stage_keeps (open_inv strict c0 s0) (stream_receive now ptype f c s)"
  unfolding stream_receive_def
proof (rule stage_keeps_then_post [OF stream_checks_open [OF assms], where Q = "within_limits f"])
  show "stage_keeps (open_inv strict c0 s0) (stage_then (stream_insert ptype f c s) (stream_account f))"
    if "open_inv strict c0 s0 c s" "within_limits f c s" for c s
    by (rule stage_keeps_then_post [OF stream_insert_open [OF that(1)], where Q = "within_limits f"])
       (auto intro: stream_insert_within [OF that(2)] stream_account_open)
qed (rule stream_checks_within)

lemma fc_upd_id [simp]: "fc_upd (\<lambda>fc. fc) c = c"
  by (simp add: fc_upd_def)

lemma open_account:
  assumes inv: "open_inv strict c0 s0 c s"
  shows "stage_keeps (open_inv strict c0 s0) (xqc_stream_account_reset_final_size n c s)"
proof (cases "stream_max_recv_offset s < n \<and> n \<le> fc_max_stream_data_can_recv (stream_flow_ctl s)")
  case True
  let ?fc = "conn_flow_ctl c"
  have le: "stream_max_recv_offset s \<le> XQC_MAX_FLOW_CONTROL_WINDOW" "n \<le> XQC_MAX_FLOW_CONTROL_WINDOW"
    "strict \<longrightarrow> fc_data_recved ?fc \<le> XQC_MAX_FLOW_CONTROL_WINDOW"
    using inv True by (auto simp: open_inv_def stream_ok_def fc_ok_def Let_def)
  have eq: "strict \<longrightarrow> unat (fc_data_recved ?fc + (n - stream_max_recv_offset s))
      = unat (fc_data_recved ?fc) + unat n - unat (stream_max_recv_offset s)"
    using True grow_recved [OF _ le(1,2)] le(3) by blast
  have room: "strict \<longrightarrow> fc_data_recved ?fc + (n - stream_max_recv_offset s) \<le> fc_max_data_can_recv ?fc"
    if "n - stream_max_recv_offset s \<le> fc_max_data_can_recv ?fc - fc_data_recved ?fc"
    using that inv by (auto simp: open_inv_def fc_ok_def intro: le_plus)
  have "unat (stream_max_recv_offset s) < unat n" using True by (simp add: word_less_nat_alt)
  then show ?thesis using inv True eq room
    by (auto simp: xqc_stream_account_reset_final_size_def Let_def open_inv_def same_frame_def stream_ok_def fc_ok_def proto_err_def fc_upd_def
        sc_err_def not_less)
next
  case False
  with inv show ?thesis
    by (auto simp: xqc_stream_account_reset_final_size_def Let_def oi.proto_err_keeps not_less open_inv_def same_frame_def stream_ok_def)
qed

interpretation oi: stream_invariant "open_inv strict c0 s0" for strict c0 s0
proof unfold_locales
  show "open_inv strict c0 s0 c' s'" if "open_inv strict c0 s0 c s" "xqc_stream_update_settings c s rate = (c', s', r)"
    for c s rate c' s' r
    using that clamp_le recv_rate_window_le
    by (auto simp: xqc_stream_update_settings_def Let_def open_inv_def same_frame_def stream_ok_def sfc_upd_def ctl_write_def
        split: if_splits)
  show "stage_keeps (open_inv strict c0 s0) (stream_data_blocked n c s)" if "open_inv strict c0 s0 c s" for n c s
    using that clamp_le
    by (auto simp: stream_data_blocked_def Let_def open_inv_def same_frame_def stream_ok_def sfc_upd_def ctl_write_def split: if_splits)
qed (auto simp: open_inv_fields intro: open_conn_window open_stream_window open_receive open_account)

section \<open>Identifiers\<close>

lemma stream_type_take_bit: "xqc_get_stream_type sid = take_bit 2 sid"
  by (simp add: xqc_get_stream_type_def take_bit_eq_mask mask_eq_exp_minus_1)

lemma stream_type_cases: "xqc_get_stream_type sid \<in> {0, 1, 2, 3}"
proof -
  have "unat (xqc_get_stream_type sid) \<le> unat (0x03 :: u64)"
    using word_and_le1 [of sid "0x03"] by (simp only: word_le_nat_alt xqc_get_stream_type_def)
  then have "unat (xqc_get_stream_type sid) \<in> {0, 1, 2, 3}" by auto
  then have "of_nat (unat (xqc_get_stream_type sid)) \<in> (of_nat ` {0, 1, 2, 3} :: u64 set)" by blast
  then show ?thesis by simp
qed

lemmas stream_type_defs = XQC_CLI_BID_def XQC_SVR_BID_def XQC_CLI_UNI_def XQC_SVR_UNI_def

lemma initiator_bit: "sid AND 1 = xqc_get_stream_type sid AND 1" for sid :: u64
  by (simp add: xqc_get_stream_type_def and.assoc)

lemma peer_stream_bit:
  assumes "(sid AND 1 \<noteq> 0) \<noteq> (ct = XQC_CONN_TYPE_SERVER)"
  shows "peer_stream ct sid"
  using assms stream_type_cases [of sid]
  by (cases ct) (auto simp: peer_stream_def Let_def initiator_bit [of sid] stream_type_defs)

lemma bidi_type: "xqc_stream_is_bidi sid \<longleftrightarrow> xqc_get_stream_type sid AND 2 = 0"
  by (auto simp: xqc_stream_is_bidi_def xqc_get_stream_type_def and.assoc)

lemma new_id:
  assumes "cur \<le> XQC_MAX_STREAMS" "t \<in> {0, 1, 2, 3 :: u64}"
  shows "xqc_get_stream_type (push_bit 2 cur OR t) = t" "drop_bit 2 (push_bit 2 cur OR t) = cur"
proof -
  have t: "take_bit 2 t = t" "drop_bit 2 t = 0" using assms(2) by auto
  have "take_bit 2 (push_bit 2 cur OR t) = take_bit 2 (push_bit 2 cur) OR take_bit 2 t" by (rule take_bit_or)
  also have "take_bit 2 (push_bit 2 cur) = 0" by (simp add: take_bit_push_bit)
  finally show "xqc_get_stream_type (push_bit 2 cur OR t) = t" using t by (simp add: stream_type_take_bit)
  have "unat cur \<le> 1152921504606846976" using assms(1) by (simp add: word_le_nat_alt XQC_MAX_STREAMS_def)
  then have "unat (push_bit 2 cur) = unat cur * 4"
    using unat_mult_lem [THEN iffD1, of cur 4] by (simp add: push_bit_eq_mult)
  then have "drop_bit 2 (push_bit 2 cur) = cur"
    unfolding word_unat_eq_iff unat_drop_bit_eq by (simp add: drop_bit_eq_div)
  then show "drop_bit 2 (push_bit 2 cur OR t) = cur" using t by (simp add: drop_bit_or)
qed

section \<open>Creating streams\<close>

text \<open>What the invariant looks at in the connection, the streams apart.\<close>

definition same_account :: "xqc_conn_str \<Rightarrow> xqc_conn_str \<Rightarrow> bool" where
  "same_account c0 c \<longleftrightarrow>
     same_frame c0 c \<and> fc_data_recved (conn_flow_ctl c) = fc_data_recved (conn_flow_ctl c0)
     \<and> fc_max_data_can_recv (conn_flow_ctl c) = fc_max_data_can_recv (conn_flow_ctl c0)
     \<and> fc_recv_windows_size (conn_flow_ctl c) = fc_recv_windows_size (conn_flow_ctl c0)"

lemma same_account_refl [simp]: "same_account c c"
  by (simp add: same_account_def same_frame_def)

lemma same_account_trans: "same_account a b \<Longrightarrow> same_account b c \<Longrightarrow> same_account a c"
  by (simp add: same_account_def same_frame_def)

lemma flow_inv_same:
  assumes "same_account c0 c"
  shows "flow_inv strict c = flow_inv strict c0"
proof -
  have "id_ok c = id_ok c0" using assms by (intro id_ok_cong) (simp_all add: same_account_def same_frame_def)
  with assms show ?thesis by (simp add: flow_inv_def ids_ok_def fc_ok_def same_account_def same_frame_def)
qed

lemma same_account_err: "same_account c (sc_err c e)"
  by (simp add: same_account_def same_frame_def sc_err_def)

lemma same_account_write: "ctl_write f c = (c', r) \<Longrightarrow> same_account c c'"
  by (auto simp: ctl_write_def same_account_def same_frame_def split: if_splits)

lemma create_flow_ctl_same: "xqc_stream_do_create_flow_ctl c sid t = (c', r) \<Longrightarrow> same_account c c'"
  by (auto simp: xqc_stream_do_create_flow_ctl_def xqc_write_max_streams_to_packet_def ctl_write_def Let_def same_account_def
      same_frame_def fc_upd_def sc_err_def split: if_splits)

lemma new_stream_ok:
  assumes "settings_ok (local_settings c)"
  shows "stream_ok (xqc_stream_set_flow_ctl c stream_calloc)"
  using assms
  by (auto simp: xqc_stream_set_flow_ctl_def stream_ok_def Let_def sfc_upd_def stream_calloc_def recv_limit_def settings_ok_def)

lemma stream_ok_fields:
  "stream_ok (s\<lparr>stream_id := i\<rparr>) = stream_ok s" "stream_ok (s\<lparr>stream_type := t\<rparr>) = stream_ok s"
  "stream_ok (s\<lparr>stream_flag := f\<rparr>) = stream_ok s" "stream_ok (s\<lparr>recv_rate_bytes_per_sec := r\<rparr>) = stream_ok s"
  by (simp_all add: stream_ok_def)

text \<open>Adding a stream that has received nothing.\<close>

lemma flow_inv_add:
  assumes inv: "flow_inv strict c0" and c: "conn_all_streams c = conn_all_streams c0 @ [s]" "local_settings c = local_settings c0"
      "conn_type (sc_conn c) = conn_type (sc_conn c0)" "conn_flow_ctl c = conn_flow_ctl c0"
      "cur_stream_id_bidi_local c0 \<le> cur_stream_id_bidi_local c" "cur_stream_id_uni_local c0 \<le> cur_stream_id_uni_local c"
    and s: "stream_ok s" "stream_max_recv_offset s = 0" "stream_id s \<notin> stream_id ` set (conn_all_streams c0)"
      "id_ok c (stream_id s)"
  shows "flow_inv strict c"
proof -
  have "id_ok c0 i \<Longrightarrow> id_ok c i" for i
    using c(3,5,6) by (auto simp: id_ok_def split: if_splits)
  with inv c s show ?thesis by (auto simp: flow_inv_def ids_ok_def list_all_iff)
qed

text \<open>The stream \<open>s\<close> of a table has become \<open>s'\<close>: its limit is not lower, and a final size it had is the same.\<close>

definition stream_le :: "xqc_stream \<Rightarrow> xqc_stream \<Rightarrow> bool" where
  "stream_le s s' \<longleftrightarrow>
     fc_max_stream_data_can_recv (stream_flow_ctl s) \<le> fc_max_stream_data_can_recv (stream_flow_ctl s')
     \<and> (stream_determined (stream_data_in s) \<longrightarrow>
          stream_determined (stream_data_in s') \<and> stream_length (stream_data_in s') = stream_length (stream_data_in s))"

definition table_le :: "u64 set \<Rightarrow> xqc_conn_str \<Rightarrow> xqc_conn_str \<Rightarrow> bool" where
  "table_le gone c c' \<longleftrightarrow>
     local_settings c' = local_settings c
     \<and> fc_max_data_can_recv (conn_flow_ctl c) \<le> fc_max_data_can_recv (conn_flow_ctl c')
     \<and> (\<forall>sid s. sid \<notin> gone \<longrightarrow> xqc_find_stream_by_id sid c = Some s \<longrightarrow>
          (\<exists>s'. xqc_find_stream_by_id sid c' = Some s' \<and> stream_le s s'))"

lemma stream_le_refl [simp]: "stream_le s s"
  by (simp add: stream_le_def)

lemma stream_le_trans: "stream_le s t \<Longrightarrow> stream_le t u \<Longrightarrow> stream_le s u"
  by (auto simp: stream_le_def)

lemma table_le_trans:
  assumes "table_le g c1 c2" "table_le h c2 c3"
  shows "table_le (g \<union> h) c1 c3"
  unfolding table_le_def
proof (intro conjI allI impI)
  show "local_settings c3 = local_settings c1" using assms by (simp add: table_le_def)
  show "fc_max_data_can_recv (conn_flow_ctl c1) \<le> fc_max_data_can_recv (conn_flow_ctl c3)"
    using assms by (auto simp: table_le_def)
  fix sid s assume *: "sid \<notin> g \<union> h" "xqc_find_stream_by_id sid c1 = Some s"
  then obtain s2 where "xqc_find_stream_by_id sid c2 = Some s2" "stream_le s s2"
    using assms(1) by (auto simp: table_le_def)
  moreover from this * obtain s3 where "xqc_find_stream_by_id sid c3 = Some s3" "stream_le s2 s3"
    using assms(2) by (auto simp: table_le_def)
  ultimately show "\<exists>s'. xqc_find_stream_by_id sid c3 = Some s' \<and> stream_le s s'"
    by (blast intro: stream_le_trans)
qed

lemma table_le_trans_empty: "table_le {} c1 c2 \<Longrightarrow> table_le {} c2 c3 \<Longrightarrow> table_le {} c1 c3"
  using table_le_trans [of "{}" c1 c2 "{}" c3] by simp

lemma table_le_same: "same_account c c' \<Longrightarrow> table_le {} c c'"
  by (auto simp: table_le_def same_account_def same_frame_def xqc_find_stream_by_id_def)

lemma find_append: "find p (xs @ ys) = (case find p xs of None \<Rightarrow> find p ys | Some x \<Rightarrow> Some x)"
  by (induction xs) auto

lemma table_le_add:
  assumes "conn_all_streams c' = conn_all_streams c @ [s]" "local_settings c' = local_settings c"
    "fc_max_data_can_recv (conn_flow_ctl c') = fc_max_data_can_recv (conn_flow_ctl c)"
  shows "table_le {} c c'"
  using assms by (auto simp: table_le_def xqc_find_stream_by_id_def find_append)

lemma find_stream_id: "find (\<lambda>s. stream_id s = sid) ss = Some s \<Longrightarrow> stream_id s = sid"
  by (auto simp: find_Some_iff)

lemma find_put:
  "find (\<lambda>t. stream_id t = i) (map (\<lambda>t. if stream_id t = stream_id s then s else t) ss) =
     (if i = stream_id s \<and> i \<in> stream_id ` set ss then Some s else find (\<lambda>t. stream_id t = i) ss)"
  by (induction ss) auto

lemma table_le_put:
  assumes "same_frame c0 c" "fc_max_data_can_recv (conn_flow_ctl c0) \<le> fc_max_data_can_recv (conn_flow_ctl c)"
    "xqc_find_stream_by_id sid c0 = Some s0" "stream_id s = sid" "stream_le s0 s"
  shows "table_le {} c0 (put_stream s c)"
  using assms
  by (auto simp: table_le_def xqc_find_stream_by_id_def put_stream_def same_frame_def find_put)

text \<open>A new stream: the invariant, and where it is found.\<close>

definition grown :: "bool \<Rightarrow> xqc_conn_str \<Rightarrow> xqc_conn_str \<times> xqc_stream option \<Rightarrow> bool" where
  "grown strict c x \<longleftrightarrow>
     (case x of (c', r) \<Rightarrow> flow_inv strict c' \<and> table_le {} c c'
        \<and> (case r of None \<Rightarrow> True | Some s \<Rightarrow> xqc_find_stream_by_id (stream_id s) c' = Some s))"

lemma grown_add:
  assumes inv: "flow_inv strict c0" and c: "conn_all_streams c = conn_all_streams c0 @ [s]" "local_settings c = local_settings c0"
      "conn_type (sc_conn c) = conn_type (sc_conn c0)" "conn_flow_ctl c = conn_flow_ctl c0"
      "cur_stream_id_bidi_local c0 \<le> cur_stream_id_bidi_local c" "cur_stream_id_uni_local c0 \<le> cur_stream_id_uni_local c"
    and s: "stream_ok s" "stream_max_recv_offset s = 0" "stream_id s \<notin> stream_id ` set (conn_all_streams c0)"
      "id_ok c (stream_id s)"
  shows "grown strict c0 (c, Some s)"
proof -
  have "find (\<lambda>t. stream_id t = stream_id s) (conn_all_streams c0) = None"
    using s(3) by (simp add: find_None_iff) (metis image_eqI)
  then show ?thesis
    using flow_inv_add [OF assms] table_le_add [OF c(1,2)] c(1,4)
    by (simp add: grown_def xqc_find_stream_by_id_def find_append)
qed

lemma grown_same: "flow_inv strict c \<Longrightarrow> same_account c c' \<Longrightarrow> grown strict c (c', None)"
  by (simp add: grown_def flow_inv_same table_le_same)

lemma grown_before:
  assumes "same_account c c1" "grown strict c1 x"
  shows "grown strict c x"
  using assms table_le_same [OF assms(1)]
  by (auto simp: grown_def split: prod.splits intro: table_le_trans_empty)

lemma grown_err: "grown strict c (c', None) \<Longrightarrow> grown strict c (sc_err c' e, None)"
  using same_account_err [of c' e]
  by (auto simp: grown_def flow_inv_same intro: table_le_trans_empty table_le_same)

lemma new_stream_fields:
  "stream_max_recv_offset (xqc_stream_set_flow_ctl c stream_calloc) = 0"
  by (simp add: xqc_stream_set_flow_ctl_def Let_def sfc_upd_def stream_calloc_def)

lemma create_peer_stream:
  assumes inv: "flow_inv strict c" and sid: "sid \<noteq> XQC_UNDEFINE_STREAM_ID" "peer_stream (conn_type (sc_conn c)) sid"
    "xqc_find_stream_by_id sid c = None"
  shows "grown strict c (xqc_create_stream_with_conn env c sid t)"
proof -
  obtain c1 r1 where cr: "xqc_stream_do_create_flow_ctl c sid t = (c1, r1)" by (metis surj_pair)
  have same: "same_account c c1" using cr by (rule create_flow_ctl_same)
  then have inv1: "flow_inv strict c1" using inv by (simp add: flow_inv_same)
  have new: "sid \<notin> stream_id ` set (conn_all_streams c1)"
    using sid(3) same by (auto simp: xqc_find_stream_by_id_def find_None_iff same_account_def same_frame_def)
  have peer: "peer_stream (conn_type (sc_conn c1)) sid"
    using sid(2) same by (simp add: same_account_def same_frame_def)
  have ok: "stream_ok (xqc_stream_set_flow_ctl c1 stream_calloc)"
    using inv1 by (intro new_stream_ok) (simp add: flow_inv_def)
  have "grown strict c1 (xqc_create_stream_with_conn env c sid t)" if h: "\<not> conn_closing (sc_state c)" "alloc_ok env" "\<not> isl r1"
  proof -
    obtain u where u: "r1 = Inr u" using h(3) by (cases r1) auto
    show ?thesis
      using h(1,2) sid(1) cr inv1 ok new peer
      by (auto simp: xqc_create_stream_with_conn_def Let_def u flag_on_def stream_ok_fields new_stream_fields id_ok_def
          split: option.splits if_splits intro!: grown_add)
  qed
  moreover have "grown strict c (xqc_create_stream_with_conn env c sid t)" if "conn_closing (sc_state c) \<or> \<not> alloc_ok env \<or> isl r1"
    using that cr inv same grown_same [OF inv]
    by (cases r1) (auto simp: xqc_create_stream_with_conn_def)
  ultimately show ?thesis using grown_before [OF same] by blast
qed

text \<open>Our own streams: the identifier is new because the counter was.\<close>

definition own_type :: "xqc_conn_type \<Rightarrow> bool \<Rightarrow> u64" where
  "own_type ct bidi =
     (if ct = XQC_CONN_TYPE_CLIENT then (if bidi then XQC_CLI_BID else XQC_CLI_UNI)
      else (if bidi then XQC_SVR_BID else XQC_SVR_UNI))"

lemma own_type_facts:
  "own_type ct bidi \<in> {0, 1, 2, 3}"
  "xqc_get_stream_type i = own_type ct bidi \<Longrightarrow> \<not> peer_stream ct i"
  "xqc_get_stream_type i = own_type ct bidi \<Longrightarrow> xqc_stream_is_bidi i = bidi"
  by (cases ct; cases bidi; simp add: own_type_def peer_stream_def Let_def stream_type_defs bidi_type)+

lemma own_id_fresh:
  assumes ids: "ids_ok c" and cur: "cur = (if bidi then cur_stream_id_bidi_local c else cur_stream_id_uni_local c)"
    "cur \<le> XQC_MAX_STREAMS"
  shows "push_bit 2 cur OR own_type (conn_type (sc_conn c)) bidi \<notin> stream_id ` set (conn_all_streams c)"
proof
  let ?i = "push_bit 2 cur OR own_type (conn_type (sc_conn c)) bidi"
  assume "?i \<in> stream_id ` set (conn_all_streams c)"
  then have "id_ok c ?i" using ids by (auto simp: ids_ok_def list_all_iff)
  moreover note ty = new_id [OF cur(2) own_type_facts(1) [of "conn_type (sc_conn c)" bidi]]
  ultimately show False
    using own_type_facts(2,3) [OF ty(1)] ty(2) cur(1) by (simp add: id_ok_def)
qed

lemma next_index: "cur < m \<Longrightarrow> m \<le> XQC_MAX_STREAMS \<Longrightarrow> cur < cur + 1 \<and> cur \<le> XQC_MAX_STREAMS"
  by (auto simp: word_less_nat_alt word_le_nat_alt XQC_MAX_STREAMS_def unat_word_ariths)

lemma own_create_ctl:
  assumes "xqc_stream_do_create_flow_ctl c XQC_UNDEFINE_STREAM_ID (own_type ct bidi) = (c1, Inr u)"
  shows "c1 = c \<and> (if bidi then cur_stream_id_bidi_local c < fc_max_streams_bidi_can_send (conn_flow_ctl c)
                   else cur_stream_id_uni_local c < fc_max_streams_uni_can_send (conn_flow_ctl c))"
  using assms
  by (cases ct; cases bidi)
     (auto simp: xqc_stream_do_create_flow_ctl_def own_type_def stream_type_defs Let_def not_le split: if_splits)

lemma own_gen_id:
  "xqc_gen_stream_id c (own_type ct bidi) =
     (if bidi then (c\<lparr>cur_stream_id_bidi_local := cur_stream_id_bidi_local c + 1\<rparr>,
                    push_bit 2 (cur_stream_id_bidi_local c) OR own_type ct True)
      else (c\<lparr>cur_stream_id_uni_local := cur_stream_id_uni_local c + 1\<rparr>,
            push_bit 2 (cur_stream_id_uni_local c) OR own_type ct False))"
  by (cases ct; cases bidi) (simp_all add: xqc_gen_stream_id_def own_type_def stream_type_defs)

lemma own_id_ok:
  assumes "cur \<le> XQC_MAX_STREAMS" "cur < (if bidi then cur_stream_id_bidi_local c else cur_stream_id_uni_local c)"
  shows "id_ok c (push_bit 2 cur OR own_type ct bidi)"
proof -
  note ty = new_id [OF assms(1) own_type_facts(1) [of ct bidi]]
  show ?thesis using own_type_facts(3) [OF ty(1)] ty(2) assms(2) by (simp add: id_ok_def)
qed

lemma create_own_stream:
  assumes inv: "flow_inv strict c"
  shows "grown strict c (xqc_stream_create_with_direction env c bidi)"
proof -
  let ?ct = "conn_type (sc_conn c)"
  let ?e = "env\<lparr>settings_rate := None\<rparr>"
  have eq: "xqc_stream_create_with_direction env c bidi
      = xqc_create_stream_with_conn ?e c XQC_UNDEFINE_STREAM_ID (own_type ?ct bidi)"
    by (simp add: xqc_stream_create_with_direction_def own_type_def)
  obtain c1 r1 where cr: "xqc_stream_do_create_flow_ctl c XQC_UNDEFINE_STREAM_ID (own_type ?ct bidi) = (c1, r1)"
    by (metis surj_pair)
  have same: "same_account c c1" using cr by (rule create_flow_ctl_same)
  have "grown strict c (xqc_create_stream_with_conn ?e c XQC_UNDEFINE_STREAM_ID (own_type ?ct bidi))"
    if h: "\<not> conn_closing (sc_state c)" "alloc_ok env" "\<not> isl r1"
  proof -
    obtain u where u: "r1 = Inr u" using h(3) by (cases r1) auto
    from own_create_ctl [OF cr [unfolded u]] have c1: "c1 = c"
      and lt: "if bidi then cur_stream_id_bidi_local c < fc_max_streams_bidi_can_send (conn_flow_ctl c)
               else cur_stream_id_uni_local c < fc_max_streams_uni_can_send (conn_flow_ctl c)" by simp_all
    have ids: "ids_ok c" and ok: "stream_ok (xqc_stream_set_flow_ctl c stream_calloc)"
      using inv by (auto simp: flow_inv_def intro: new_stream_ok)
    have nx: "(if bidi then cur_stream_id_bidi_local c else cur_stream_id_uni_local c)
        < (if bidi then cur_stream_id_bidi_local c else cur_stream_id_uni_local c) + 1
      \<and> (if bidi then cur_stream_id_bidi_local c else cur_stream_id_uni_local c) \<le> XQC_MAX_STREAMS"
      using lt ids by (auto simp: ids_ok_def dest: next_index split: if_splits)
    show ?thesis
      using h(1,2) cr inv ok nx own_id_fresh [OF ids refl, of bidi] own_gen_id [of c ?ct bidi]
      by (cases bidi)
         (auto simp: xqc_create_stream_with_conn_def Let_def u c1 flag_on_def xqc_stream_ready_to_write_def stream_ok_fields
           new_stream_fields less_imp_le intro!: grown_add own_id_ok)
  qed
  moreover have "grown strict c (xqc_create_stream_with_conn ?e c XQC_UNDEFINE_STREAM_ID (own_type ?ct bidi))"
    if "conn_closing (sc_state c) \<or> \<not> alloc_ok env \<or> isl r1"
    using that cr inv same grown_same [OF inv]
    by (cases r1) (auto simp: xqc_create_stream_with_conn_def)
  ultimately show ?thesis unfolding eq by blast
qed

lemma passive_create_grown:
  assumes inv: "flow_inv strict c" and sid: "sid \<noteq> XQC_UNDEFINE_STREAM_ID" "peer_stream (conn_type (sc_conn c)) sid"
    "xqc_find_stream_by_id sid c = None"
  shows "grown strict c (xqc_passive_create_stream env c sid)"
proof -
  obtain c1 r1 where cr: "xqc_stream_do_create_flow_ctl c sid (xqc_get_stream_type sid) = (c1, r1)" by (metis surj_pair)
  have same: "same_account c c1" using cr by (rule create_flow_ctl_same)
  define create where "create = (\<lambda>c. case xqc_create_stream_with_conn (env\<lparr>settings_rate := None\<rparr>) c sid 0 of
      (c, None) \<Rightarrow> (sc_err c TRA_INTERNAL_ERROR, None) | (c, Some s) \<Rightarrow> (c, Some s))"
  have create: "grown strict c (create c2)" if "same_account c1 c2" for c2
  proof -
    have s2: "same_account c c2" using same that by (rule same_account_trans)
    have "grown strict c2 (xqc_create_stream_with_conn (env\<lparr>settings_rate := None\<rparr>) c2 sid 0)"
      using inv sid s2 flow_inv_same [OF s2]
      by (intro create_peer_stream) (simp_all add: same_account_def same_frame_def xqc_find_stream_by_id_def)
    with s2 have "grown strict c (xqc_create_stream_with_conn (env\<lparr>settings_rate := None\<rparr>) c2 sid 0)" by (rule grown_before)
    then show ?thesis by (auto simp: create_def split: prod.splits option.splits intro: grown_err)
  qed
  have ins: "same_account c1 ((xqc_insert_passive_stream_hash c1 m sid)\<lparr>max_stream_id_bidi_remote := i\<rparr>)"
    "same_account c1 ((xqc_insert_passive_stream_hash c1 m sid)\<lparr>max_stream_id_uni_remote := i\<rparr>)" for m i
    by (simp_all add: same_account_def same_frame_def xqc_insert_passive_stream_hash_def)
  show ?thesis
    unfolding xqc_passive_create_stream_def cr prod.case Let_def create_def [symmetric]
    using create [OF ins(1)] create [OF ins(2)] create [OF same_account_refl] grown_same [OF inv same]
    by (cases r1) simp_all
qed

text \<open>Finding or creating the stream of a frame.\<close>

lemma grown_found: "flow_inv strict c \<Longrightarrow> xqc_find_stream_by_id sid c = Some s \<Longrightarrow> grown strict c (c, Some s)"
  using table_le_same [OF same_account_refl]
  by (auto simp: grown_def xqc_find_stream_by_id_def dest: find_stream_id)

lemma get_stream_grown: "flow_inv strict c \<Longrightarrow> sid \<noteq> XQC_UNDEFINE_STREAM_ID \<Longrightarrow> grown strict c (get_stream env c sid)"
  by (auto simp: get_stream_def grown_found passive_create_grown grown_same split: option.splits)

lemma get_stream_for_reset_grown:
  "flow_inv strict c \<Longrightarrow> sid \<noteq> XQC_UNDEFINE_STREAM_ID \<Longrightarrow> grown strict c (get_stream_for_reset env c sid)"
  using peer_stream_bit [of sid "conn_type (sc_conn c)"]
  by (auto simp: get_stream_for_reset_def grown_found grown_same split: option.splits intro: passive_create_grown)

section \<open>Handlers\<close>

text \<open>A stage that keeps the flow control invariant and the final size.\<close>

definition good_stage :: "bool \<Rightarrow> (xqc_conn_str \<Rightarrow> xqc_stream \<Rightarrow> stage) \<Rightarrow> bool" where
  "good_stage strict k \<longleftrightarrow>
     (\<forall>c0 s0 c s. open_inv strict c0 s0 c s \<longrightarrow> stage_keeps (open_inv strict c0 s0) (k c s))
     \<and> (\<forall>n c s. final_is n c s \<longrightarrow> stage_keeps (final_is n) (k c s))"

lemma good_stages:
  "good_stage strict (stream_frame_stages now ptype f)" "good_stage strict (xqc_process_reset_stream_fields now sid err n)"
  "good_stage strict (reset_at_stages now sid err n r)" "good_stage strict (stop_sending_stage err)" "good_stage strict (stream_data_blocked n)"
  "good_stage strict (max_stream_data_stage n)"
  by (auto simp: good_stage_def intro: oi.stream_frame_stages_keeps fin.stream_frame_stages_keeps
      oi.reset_fields_keeps fin.reset_fields_keeps oi.reset_at_stages_keeps fin.reset_at_stages_keeps
      oi.stop_sending_keeps fin.stop_sending_keeps oi.P_blocked fin.P_blocked oi.max_stream_data_keeps fin.max_stream_data_keeps)

text \<open>A connection and one that comes after it.\<close>

definition step_ok :: "bool \<Rightarrow> xqc_conn_str \<Rightarrow> xqc_conn_str \<Rightarrow> bool" where
  "step_ok strict c c' \<longleftrightarrow> flow_inv strict c' \<and> table_le {} c c'"

lemma stage_return_ok:
  assumes keeps: "open_inv strict c1 s c1 s \<Longrightarrow> stage_keeps (open_inv strict c1 s) (k c1 s)"
      "\<And>n. final_is n c1 s \<Longrightarrow> stage_keeps (final_is n) (k c1 s)"
    and g: "grown strict c (c1, Some s)"
  shows "step_ok strict c (fst (stage_return (k c1 s)))"
proof -
  obtain c2 s2 r where k: "k c1 s = (c2, s2, r)" by (metis surj_pair)
  have c1: "flow_inv strict c1" "table_le {} c c1" "xqc_find_stream_by_id (stream_id s) c1 = Some s"
    using g by (simp_all add: grown_def)
  have "open_inv strict c1 s c1 s" using c1(1,3) by (rule open_inv_load)
  then have inv: "open_inv strict c1 s c2 s2" using keeps(1) k by simp
  have "final_is n c1 s \<Longrightarrow> final_is n c2 s2" for n using keeps(2) [of n] k by simp
  then have "stream_le s s2"
    using inv by (auto simp: stream_le_def open_inv_def final_is_def)
  with inv c1(3) have "table_le {} c1 (put_stream s2 c2)"
    by (intro table_le_put) (auto simp: open_inv_def)
  with c1(2) have "table_le {} c (put_stream s2 c2)" by (rule table_le_trans_empty)
  with open_inv_finish [OF c1(1,3) inv] show ?thesis by (simp add: step_ok_def k stage_return_def)
qed

lemma good_stage_return:
  "good_stage strict k \<Longrightarrow> grown strict c (c1, Some s) \<Longrightarrow> step_ok strict c (fst (stage_return (k c1 s)))"
  by (rule stage_return_ok) (simp_all add: good_stage_def)

lemma with_stream_ok:
  assumes "good_stage strict k" "grown strict c x"
  shows "step_ok strict c (fst (with_stream x k))"
proof (cases x)
  case (Pair c1 r)
  with assms good_stage_return [OF assms(1)] show ?thesis
    by (cases r) (auto simp: with_stream_def step_ok_def grown_def)
qed

lemma step_ok_same: "flow_inv strict c \<Longrightarrow> same_account c c' \<Longrightarrow> step_ok strict c c'"
  by (simp add: step_ok_def flow_inv_same table_le_same)

lemma step_ok_before: "same_account c c1 \<Longrightarrow> step_ok strict c1 c2 \<Longrightarrow> step_ok strict c c2"
  by (auto simp: step_ok_def intro: table_le_trans_empty table_le_same)

lemma same_account_conn: "conn_type conn = conn_type (sc_conn c) \<Longrightarrow> same_account c (c\<lparr>sc_conn := conn\<rparr>)"
  by (simp add: same_account_def same_frame_def)

section \<open>Runs\<close>

text \<open>
  The events of a connection that touch its streams: frames of the peer, calls of the application, and the end of a
  stream. \<open>Recv_reset\<close> chooses the handler as \<open>xqc_process_frames\<close> does.
\<close>

datatype flow_op =
    Recv_stream u64 create_env bool xqc_pkt_type xqc_packet_in
  | Recv_reset u64 create_env xqc_packet_in
  | Recv_reset_at u64 create_env xqc_pkt_type xqc_packet_in
  | Recv_stop_sending create_env xqc_packet_in
  | Recv_data_blocked xqc_packet_in
  | Recv_stream_data_blocked create_env xqc_packet_in
  | Recv_streams_blocked xqc_packet_in
  | Recv_max_data xqc_packet_in
  | Recv_max_stream_data create_env xqc_packet_in
  | Recv_max_streams xqc_packet_in
  | App_create create_env bool
  | App_read u64 nat u64
  | App_settings u64 u64
  | App_reset u64 u64
  | App_reliable u64 u64
  | Send_check u64
  | Destroy u64

definition on_stream :: "u64 \<Rightarrow> (xqc_conn_str \<Rightarrow> xqc_stream \<Rightarrow> xqc_conn_str \<times> xqc_stream) \<Rightarrow> xqc_conn_str \<Rightarrow> xqc_conn_str" where
  "on_stream sid k c =
     (case xqc_find_stream_by_id sid c of None \<Rightarrow> c | Some s \<Rightarrow> (let (c, s) = k c s in put_stream s c))"

fun flow_step :: "flow_op \<Rightarrow> xqc_conn_str \<Rightarrow> xqc_conn_str" where
  "flow_step (Recv_stream now env ok ptype pi) c = fst (xqc_process_stream_frame now env ok ptype pi c)"
| "flow_step (Recv_reset now env pi) c =
     (if reset_stream_at (local_settings c) then fst (xqc_process_reset_stream_with_reset_at now env pi c)
      else fst (xqc_process_reset_stream_frame env pi c))"
| "flow_step (Recv_reset_at now env ptype pi) c = fst (xqc_process_reset_stream_at_frame now env ptype pi c)"
| "flow_step (Recv_stop_sending env pi) c = fst (xqc_process_stop_sending_frame env pi c)"
| "flow_step (Recv_data_blocked pi) c = fst (xqc_process_data_blocked_frame pi c)"
| "flow_step (Recv_stream_data_blocked env pi) c = fst (xqc_process_stream_data_blocked_frame env pi c)"
| "flow_step (Recv_streams_blocked pi) c = fst (xqc_process_streams_blocked_frame pi c)"
| "flow_step (Recv_max_data pi) c = fst (xqc_process_max_data_frame pi c)"
| "flow_step (Recv_max_stream_data env pi) c = fst (xqc_process_max_stream_data_frame env pi c)"
| "flow_step (Recv_max_streams pi) c = fst (xqc_process_max_streams_frame pi c)"
| "flow_step (App_create env bidi) c = fst (xqc_stream_create_with_direction env c bidi)"
| "flow_step (App_read now sz sid) c = on_stream sid (\<lambda>c s. let (c, s, _) = xqc_stream_recv now sz c s in (c, s)) c"
| "flow_step (App_settings sid rate) c =
     on_stream sid (\<lambda>c s. let (c, s, _) = xqc_stream_update_settings c s rate in (c, s)) c"
| "flow_step (App_reset sid err) c = on_stream sid (\<lambda>c s. let (c, s, _) = xqc_stream_do_reset c s err in (c, s)) c"
| "flow_step (App_reliable sid n) c = on_stream sid (\<lambda>c s. (c, fst (xqc_stream_set_reliable_size c s n))) c"
| "flow_step (Send_check sid) c = on_stream sid (\<lambda>c s. let (c, s, _) = xqc_stream_do_send_flow_ctl c s in (c, s)) c"
| "flow_step (Destroy sid) c = xqc_destroy_stream sid c"

definition flow_run :: "flow_op list \<Rightarrow> xqc_conn_str \<Rightarrow> xqc_conn_str" where
  "flow_run ops c = fold flow_step ops c"

section \<open>What the parsers give\<close>

lemma vint_not_undefined: "xqc_vint_read p = Some (n, v) \<Longrightarrow> v \<noteq> XQC_UNDEFINE_STREAM_ID"
  by (auto dest!: vint_read_le_MAX simp: XQC_VINT_MAX_def XQC_UNDEFINE_STREAM_ID_def dest: order.antisym [OF word_n1_ge])

lemmas read_defs = rd_vint_def rd_u8_def

lemma parse_stream_frame_id:
  assumes "xqc_parse_stream_frame ok pi conn = (conn', r)"
  shows "conn_type conn' = conn_type conn \<and> (\<forall>pi' f sid. r = Inr (pi', f, sid) \<longrightarrow> sid \<noteq> XQC_UNDEFINE_STREAM_ID)"
  using assms
  by (auto simp: xqc_parse_stream_frame_def read_defs Let_def split: list.splits option.splits prod.splits if_splits
      dest: vint_not_undefined)

lemma parse_reset_stream_id:
  assumes "xqc_parse_reset_stream_frame pi conn = (conn', r)"
  shows "conn_type conn' = conn_type conn \<and> (\<forall>pi' sid e n. r = Inr (pi', sid, e, n) \<longrightarrow> sid \<noteq> XQC_UNDEFINE_STREAM_ID)"
  using assms
  by (auto simp: xqc_parse_reset_stream_frame_def read_defs split: list.splits option.splits prod.splits if_splits
      dest: vint_not_undefined)

lemma parse_stop_sending_id:
  assumes "xqc_parse_stop_sending_frame pi conn = (conn', r)"
  shows "conn_type conn' = conn_type conn \<and> (\<forall>pi' sid e. r = Inr (pi', sid, e) \<longrightarrow> sid \<noteq> XQC_UNDEFINE_STREAM_ID)"
  using assms
  by (auto simp: xqc_parse_stop_sending_frame_def read_defs split: list.splits option.splits prod.splits if_splits
      dest: vint_not_undefined)

lemma parse_max_stream_data_id:
  assumes "xqc_parse_max_stream_data_frame pi conn = (conn', r)"
  shows "conn_type conn' = conn_type conn \<and> (\<forall>pi' sid e. r = Inr (pi', sid, e) \<longrightarrow> sid \<noteq> XQC_UNDEFINE_STREAM_ID)"
  using assms
  by (auto simp: xqc_parse_max_stream_data_frame_def read_defs split: list.splits option.splits prod.splits if_splits
      dest: vint_not_undefined)

lemma parse_reset_stream_at_id:
  "xqc_parse_reset_stream_at_frame pi = Inr (pi', sid, e, n, m) \<Longrightarrow> sid \<noteq> XQC_UNDEFINE_STREAM_ID"
  by (auto simp: xqc_parse_reset_stream_at_frame_def read_defs split: list.splits option.splits prod.splits if_splits
      dest: vint_not_undefined)

lemma parse_stream_data_blocked_id:
  "xqc_parse_stream_data_blocked_frame pi = Inr (pi', sid, n) \<Longrightarrow> sid \<noteq> XQC_UNDEFINE_STREAM_ID"
  by (auto simp: xqc_parse_stream_data_blocked_frame_def read_defs split: list.splits option.splits prod.splits
      dest: vint_not_undefined)

section \<open>Every step keeps the invariant\<close>

lemma good_stage_pair:
  assumes "\<And>c0 s0 c s c' s'. open_inv strict c0 s0 c s \<Longrightarrow> k c s = (c', s') \<Longrightarrow> open_inv strict c0 s0 c' s'"
    and "\<And>n c s c' s'. final_is n c s \<Longrightarrow> k c s = (c', s') \<Longrightarrow> final_is n c' s'"
  shows "good_stage strict (\<lambda>c s. case k c s of (c', s') \<Rightarrow> (c', s', None))"
  using assms by (auto simp: good_stage_def split: prod.splits)

lemma on_stream_ok:
  assumes "flow_inv strict c"
    and "\<And>c0 s0 c s c' s'. open_inv strict c0 s0 c s \<Longrightarrow> k c s = (c', s') \<Longrightarrow> open_inv strict c0 s0 c' s'"
    and "\<And>n c s c' s'. final_is n c s \<Longrightarrow> k c s = (c', s') \<Longrightarrow> final_is n c' s'"
  shows "step_ok strict c (on_stream sid k c)"
proof (cases "xqc_find_stream_by_id sid c")
  case None
  with assms(1) show ?thesis by (simp add: on_stream_def step_ok_same)
next
  case (Some s)
  have "good_stage strict (\<lambda>c s. case k c s of (c', s') \<Rightarrow> (c', s', None))" by (rule good_stage_pair) (fact assms(2,3))+
  from good_stage_return [OF this grown_found [OF assms(1) Some]] show ?thesis
    by (simp add: on_stream_def Some stage_return_def split: prod.splits)
qed

lemma step_ok_err: "step_ok strict c c' \<Longrightarrow> step_ok strict c (sc_err c' e)"
  using grown_err [of strict c c' e] by (simp add: step_ok_def grown_def)

lemma stream_frame_found_ok:
  assumes "grown strict c (get_stream env c sid)"
  shows "step_ok strict c (fst (stream_frame_found now env ptype f sid c))"
proof (cases "get_stream env c sid")
  case (Pair c1 r)
  show ?thesis
  proof (cases r)
    case None
    with assms Pair have "step_ok strict c c1" by (simp add: grown_def step_ok_def)
    then show ?thesis by (simp add: stream_frame_found_def Pair None step_ok_err)
  next
    case (Some s)
    with assms Pair show ?thesis by (simp add: stream_frame_found_def good_stage_return [OF good_stages(1)])
  qed
qed

lemma stream_frame_step:
  assumes "flow_inv strict c"
  shows "step_ok strict c (fst (xqc_process_stream_frame now env ok ptype pi c))"
proof -
  obtain conn r where p: "xqc_parse_stream_frame ok pi (sc_conn c) = (conn, r)" by (metis surj_pair)
  let ?c = "c\<lparr>sc_conn := conn\<rparr>"
  have same: "same_account c ?c" using parse_stream_frame_id [OF p] by (intro same_account_conn) simp
  have "step_ok strict ?c (fst (stream_frame_found now env ptype f sid ?c))" if "r = Inr (pi', f, sid)" for pi' f sid
  proof -
    have g: "grown strict ?c (get_stream env ?c sid)"
      using parse_stream_frame_id [OF p] that assms flow_inv_same [OF same] by (intro get_stream_grown) auto
    then show ?thesis by (rule stream_frame_found_ok)
  qed
  then show ?thesis
    using p step_ok_before [OF same] step_ok_same [OF assms same] step_ok_same [OF assms same_account_err]
      step_ok_same [OF assms same_account_refl]
    by (auto simp: xqc_process_stream_frame_def split: sum.splits prod.splits)
qed

lemma with_conn_ok:
  assumes inv: "flow_inv strict c" and conn: "conn_type conn = conn_type (sc_conn c)" and k: "good_stage strict k"
    and sid: "sid \<noteq> XQC_UNDEFINE_STREAM_ID"
  shows "step_ok strict c (fst (with_stream (get_stream env (c\<lparr>sc_conn := conn\<rparr>) sid) k))"
    "step_ok strict c (fst (with_stream (get_stream_for_reset env (c\<lparr>sc_conn := conn\<rparr>) sid) k))"
proof -
  have same: "same_account c (c\<lparr>sc_conn := conn\<rparr>)" using conn by (rule same_account_conn)
  have "flow_inv strict (c\<lparr>sc_conn := conn\<rparr>)" using inv flow_inv_same [OF same] by simp
  then show "step_ok strict c (fst (with_stream (get_stream env (c\<lparr>sc_conn := conn\<rparr>) sid) k))"
    "step_ok strict c (fst (with_stream (get_stream_for_reset env (c\<lparr>sc_conn := conn\<rparr>) sid) k))"
    using sid by (auto intro!: with_stream_ok [OF k] grown_before [OF same] get_stream_grown get_stream_for_reset_grown)
qed

lemma with_conn_eq:
  "with_stream (get_stream env (c\<lparr>sc_conn := conn\<rparr>) sid) k = (c', r) \<Longrightarrow> good_stage strict k \<Longrightarrow> flow_inv strict c \<Longrightarrow>
   conn_type conn = conn_type (sc_conn c) \<Longrightarrow> sid \<noteq> XQC_UNDEFINE_STREAM_ID \<Longrightarrow> step_ok strict c c'"
  "with_stream (get_stream_for_reset env (c\<lparr>sc_conn := conn\<rparr>) sid) k = (c', r) \<Longrightarrow> good_stage strict k \<Longrightarrow> flow_inv strict c \<Longrightarrow>
   conn_type conn = conn_type (sc_conn c) \<Longrightarrow> sid \<noteq> XQC_UNDEFINE_STREAM_ID \<Longrightarrow> step_ok strict c c'"
  using with_conn_ok [of strict c conn k sid env] by simp_all

lemma step_ok_conn: "flow_inv strict c \<Longrightarrow> conn_type conn = conn_type (sc_conn c) \<Longrightarrow> step_ok strict c (c\<lparr>sc_conn := conn\<rparr>)"
  by (intro step_ok_same same_account_conn)

lemma reset_with_reset_at_step:
  "flow_inv strict c \<Longrightarrow> step_ok strict c (fst (xqc_process_reset_stream_with_reset_at now env pi c))"
  by (auto simp: xqc_process_reset_stream_with_reset_at_def good_stages step_ok_conn
      split: prod.splits sum.splits dest!: parse_reset_stream_id intro: with_conn_eq)

lemma reset_at_step: "flow_inv strict c \<Longrightarrow> step_ok strict c (fst (xqc_process_reset_stream_at_frame now env ptype pi c))"
  using with_conn_eq(2) [of env "sc_conn c" c, OF _ good_stages(3)]
  by (auto simp: xqc_process_reset_stream_at_frame_def step_ok_same same_account_err
      split: prod.splits sum.splits dest!: parse_reset_stream_at_id)

lemma stop_sending_step: "flow_inv strict c \<Longrightarrow> step_ok strict c (fst (xqc_process_stop_sending_frame env pi c))"
  by (auto simp: xqc_process_stop_sending_frame_def good_stages step_ok_conn
      split: prod.splits sum.splits dest!: parse_stop_sending_id intro: with_conn_eq)

lemma max_stream_data_step: "flow_inv strict c \<Longrightarrow> step_ok strict c (fst (xqc_process_max_stream_data_frame env pi c))"
  by (auto simp: xqc_process_max_stream_data_frame_def good_stages step_ok_conn
      split: prod.splits sum.splits dest!: parse_max_stream_data_id intro: with_conn_eq)

lemma stream_data_blocked_step: "flow_inv strict c \<Longrightarrow> step_ok strict c (fst (xqc_process_stream_data_blocked_frame env pi c))"
  using with_conn_eq(1) [of env "sc_conn c" c, OF _ good_stages(5)]
  by (auto simp: xqc_process_stream_data_blocked_frame_def step_ok_same
      split: prod.splits sum.splits dest!: parse_stream_data_blocked_id)

lemma step_ok_limit:
  assumes inv: "flow_inv strict c" and lim: "fc_max_data_can_recv (conn_flow_ctl c) \<le> lim" "lim \<le> XQC_MAX_FLOW_CONTROL_WINDOW"
  shows "step_ok strict c (fst (ctl_write f (fc_upd (\<lambda>fc. fc\<lparr>fc_max_data_can_recv := lim\<rparr>) c)))"
proof -
  let ?c = "fst (ctl_write f (fc_upd (\<lambda>fc. fc\<lparr>fc_max_data_can_recv := lim\<rparr>) c))"
  have "id_ok ?c = id_ok c" by (rule id_ok_cong) (simp_all add: ctl_write_def fc_upd_def)
  then have "flow_inv strict ?c"
    using assms by (auto simp: flow_inv_def ids_ok_def fc_ok_def ctl_write_def fc_upd_def)
  moreover have "table_le {} c ?c"
    using lim by (auto simp: table_le_def ctl_write_def fc_upd_def xqc_find_stream_by_id_def)
  ultimately show ?thesis by (simp add: step_ok_def)
qed

lemma data_blocked_step: "flow_inv strict c \<Longrightarrow> step_ok strict c (fst (xqc_process_data_blocked_frame pi c))"
  using step_ok_limit [of strict c] clamp_le step_ok_same [OF _ same_account_refl, of strict c]
  by (auto simp: xqc_process_data_blocked_frame_def data_blocked_def Let_def split: prod.splits sum.splits if_splits
      dest!: arg_cong [where f = fst])

lemma streams_blocked_step: "flow_inv strict c \<Longrightarrow> step_ok strict c (fst (xqc_process_streams_blocked_frame pi c))"
  by (rule step_ok_same)
     (auto simp: xqc_process_streams_blocked_frame_def streams_blocked_def xqc_write_max_streams_to_packet_def ctl_write_def
       Let_def same_account_def same_frame_def fc_upd_def split: prod.splits sum.splits if_splits)

lemma max_data_step: "flow_inv strict c \<Longrightarrow> step_ok strict c (fst (xqc_process_max_data_frame pi c))"
  by (rule step_ok_same)
     (auto simp: xqc_process_max_data_frame_def same_account_def same_frame_def fc_upd_def split: prod.splits sum.splits)

lemma max_streams_step:
  assumes inv: "flow_inv strict c"
  shows "step_ok strict c (fst (xqc_process_max_streams_frame pi c))"
proof -
  have "step_ok strict c (fc_upd (\<lambda>fc. fc\<lparr>fc_max_streams_bidi_can_send := m\<rparr>) c)"
    "step_ok strict c (fc_upd (\<lambda>fc. fc\<lparr>fc_max_streams_uni_can_send := m\<rparr>) c)" if "m \<le> XQC_MAX_STREAMS" for m
    using inv that id_ok_cong [of "c\<lparr>conn_flow_ctl := x\<rparr>" c for x]
    by (auto simp: step_ok_def flow_inv_def ids_ok_def fc_ok_def fc_upd_def table_le_def xqc_find_stream_by_id_def)
  with inv show ?thesis
    by (auto simp: xqc_process_max_streams_frame_def not_less step_ok_same split: prod.splits sum.splits)
qed

lemma find_filter_other:
  "i \<noteq> sid \<Longrightarrow>
   find (\<lambda>t. stream_id t = i) (filter (\<lambda>t. stream_id t \<noteq> sid) ss) = find (\<lambda>t. stream_id t = i) ss"
  by (induction ss) auto

lemma destroy_step:
  assumes inv: "flow_inv strict c"
  shows "flow_inv strict (xqc_destroy_stream sid c)" "table_le {sid} c (xqc_destroy_stream sid c)"
proof -
  let ?c = "xqc_destroy_stream sid c"
  have "recv_sum (filter p ss) \<le> recv_sum ss" for p ss by (induction ss) auto
  moreover have "id_ok ?c = id_ok c" by (rule id_ok_cong) (simp_all add: xqc_destroy_stream_def)
  ultimately show "flow_inv strict ?c"
    using inv
    by (auto simp: flow_inv_def ids_ok_def fc_ok_def xqc_destroy_stream_def list_all_iff distinct_map
        intro: le_trans inj_on_subset)
  show "table_le {sid} c ?c"
    by (auto simp: table_le_def xqc_destroy_stream_def xqc_find_stream_by_id_def find_filter_other)
qed

text \<open>The events after which a stream is gone.\<close>

fun gone_by :: "flow_op \<Rightarrow> u64 set" where
  "gone_by (Destroy sid) = {sid}"
| "gone_by _ = {}"

lemma gone_by_iff: "sid \<in> gone_by op \<longleftrightarrow> op = Destroy sid"
  by (cases op) auto

lemma on_stream_steps:
  assumes "flow_inv strict c"
  shows "step_ok strict c (flow_step (App_read now sz sid) c)" "step_ok strict c (flow_step (App_settings sid rate) c)"
    "step_ok strict c (flow_step (App_reset sid err) c)" "step_ok strict c (flow_step (App_reliable sid n) c)"
    "step_ok strict c (flow_step (Send_check sid) c)"
  unfolding flow_step.simps
  by (rule on_stream_ok [OF assms];
      auto simp: oi.set_reliable_size_keeps [OF surjective_pairing] fin.set_reliable_size_keeps [OF surjective_pairing]
        split: prod.splits dest: oi.stream_recv_keeps fin.stream_recv_keeps oi.P_settings fin.P_settings oi.do_reset_keeps
        fin.do_reset_keeps oi.send_flow_ctl_keeps fin.send_flow_ctl_keeps)+

lemma create_step: "flow_inv strict c \<Longrightarrow> step_ok strict c (fst (xqc_stream_create_with_direction env c bidi))"
  using create_own_stream [of strict c env bidi] by (auto simp: step_ok_def grown_def)

section \<open>Resets without a check\<close>

text \<open>
  RESET\_STREAM without RESET\_STREAM\_AT: the handler adds the final size to \<open>fc_data_recved\<close> without a check. The limit of
  the connection is kept when the size the peer announces keeps it.
\<close>

definition received :: "u64 \<Rightarrow> xqc_conn_str \<Rightarrow> u64" where
  "received sid c = (case xqc_find_stream_by_id sid c of None \<Rightarrow> 0 | Some s \<Rightarrow> stream_max_recv_offset s)"

definition size_in_limit :: "u64 \<Rightarrow> u64 \<Rightarrow> xqc_conn_str \<Rightarrow> bool" where
  "size_in_limit n off c \<longleftrightarrow>
     unat (fc_data_recved (conn_flow_ctl c)) + unat n \<le> unat (fc_max_data_can_recv (conn_flow_ctl c)) + unat off"

lemma plain_reset_send_keeps:
  "stage_keeps (open_inv strict c0 s0) (plain_reset_send sid err c s) = open_inv strict c0 s0 c s"
  "final_is n c s \<Longrightarrow> stage_keeps (final_is n) (plain_reset_send sid err c s)"
  by (auto simp: plain_reset_send_def Let_def oi.P_simps fin.P_simps xqc_write_reset_stream_to_packet_def ctl_write_def
      split: prod.splits if_splits)

lemma plain_reset_send_fields:
  "plain_reset_send sid err c s = (c', s', r) \<Longrightarrow>
   r = None \<and> conn_flow_ctl c' = conn_flow_ctl c \<and> stream_state_recv s' = stream_state_recv s
   \<and> stream_max_recv_offset s' = stream_max_recv_offset s"
  by (auto simp: plain_reset_send_def xqc_write_reset_stream_to_packet_def ctl_write_def ra_upd_def Let_def
      xqc_stream_shutdown_write_def flag_off_def split: if_splits)

lemma plain_reset_recv_open:
  assumes inv: "open_inv strict c0 s0 c s" and room: "strict \<longrightarrow> size_in_limit n (stream_max_recv_offset s) c"
    and le: "recv_state_num (stream_state_recv s) < recv_state_num XQC_RECV_STREAM_ST_RESET_RECVD \<longrightarrow> stream_max_recv_offset s \<le> n"
  shows "stage_keeps (open_inv strict c0 s0) (plain_reset_recv n c s)"
proof (cases "recv_state_num (stream_state_recv s) < recv_state_num XQC_RECV_STREAM_ST_RESET_RECVD")
  case True
  let ?fc = "conn_flow_ctl c" and ?off = "stream_max_recv_offset s"
  have d: "unat (n - ?off) = unat n - unat ?off" "unat ?off \<le> unat n"
    using le True by (simp_all add: unat_sub word_le_nat_alt)
  have "strict \<longrightarrow> unat (fc_data_recved ?fc + (n - ?off)) = unat (fc_data_recved ?fc) + unat n - unat ?off"
  proof
    assume strict
    then have "unat (fc_data_recved ?fc) + unat (n - ?off) < 2 ^ 64"
      using room d unat_u64_less [of "fc_max_data_can_recv ?fc"] by (simp add: size_in_limit_def)
    then show "unat (fc_data_recved ?fc + (n - ?off)) = unat (fc_data_recved ?fc) + unat n - unat ?off"
      using unat_add_lem [THEN iffD1, of "fc_data_recved ?fc" "n - ?off"] d by simp
  qed
  then have "open_inv strict c0 s0 (fc_upd (\<lambda>fc. fc\<lparr>fc_data_recved := fc_data_recved fc + (n - ?off),
      fc_data_read := x\<rparr>) c) s" for x
    using inv room d(2)
    by (auto simp: open_inv_def same_frame_def fc_ok_def fc_upd_def size_in_limit_def word_le_nat_alt)
  then show ?thesis using inv by (simp add: plain_reset_recv_def oi.P_simps open_inv_fields fc_upd_def)
next
  case False
  with inv show ?thesis by (simp add: plain_reset_recv_def)
qed

lemma plain_reset_recv_final: "final_is m c s \<Longrightarrow> stage_keeps (final_is m) (plain_reset_recv n c s)"
  by (simp add: plain_reset_recv_def final_is_def fc_upd_def di_upd_def xqc_stream_ready_to_read_def flag_on_def)

lemma plain_reset_stages_open:
  assumes inv: "open_inv strict c0 s0 c s" and room: "strict \<longrightarrow> size_in_limit n (stream_max_recv_offset s) c"
  shows "stage_keeps (open_inv strict c0 s0) (plain_reset_stages sid err n c s)"
proof -
  obtain c1 s1 r1 where s1: "plain_reset_send sid err c s = (c1, s1, r1)" by (metis surj_pair)
  have "open_inv strict c0 s0 c1 s1" using plain_reset_send_keeps(1) [of strict c0 s0 sid err c s] s1 inv by simp
  note recv = plain_reset_recv_open [OF this, of n]
  show ?thesis
  proof (cases "recv_state_num (stream_state_recv s) < recv_state_num XQC_RECV_STREAM_ST_RESET_RECVD \<and> n < stream_max_recv_offset s")
    case True
    with inv show ?thesis by (simp add: plain_reset_stages_def plain_reset_check_def proto_err_def stage_then_return oi.P_simps)
  next
    case False
    then have "plain_reset_stages sid err n c s = plain_reset_recv n c1 s1"
      using s1 plain_reset_send_fields [OF s1] by (auto simp: plain_reset_stages_def plain_reset_check_def stage_then_return)
    with False recv plain_reset_send_fields [OF s1] room show ?thesis by (auto simp: size_in_limit_def not_less)
  qed
qed

lemma plain_reset_stages_final:
  assumes "final_is m c s"
  shows "stage_keeps (final_is m) (plain_reset_stages sid err n c s)"
  unfolding plain_reset_stages_def plain_reset_check_def using assms
  by (auto intro!: stage_keeps_then plain_reset_send_keeps(2) plain_reset_recv_final simp: fin.proto_err_keeps)

lemma create_account:
  assumes "xqc_create_stream_with_conn env c sid t = (c', Some s)" "sid \<noteq> XQC_UNDEFINE_STREAM_ID"
  shows "fc_data_recved (conn_flow_ctl c') = fc_data_recved (conn_flow_ctl c)
    \<and> fc_max_data_can_recv (conn_flow_ctl c') = fc_max_data_can_recv (conn_flow_ctl c) \<and> stream_max_recv_offset s = 0"
proof -
  obtain c1 r1 where cr: "xqc_stream_do_create_flow_ctl c sid t = (c1, r1)" by (metis surj_pair)
  from create_flow_ctl_same [OF cr] assms cr show ?thesis
    by (auto simp: xqc_create_stream_with_conn_def Let_def same_account_def flag_on_def new_stream_fields
        split: if_splits sum.splits prod.splits option.splits)
qed

lemma get_stream_account:
  assumes "get_stream env c sid = (c', Some s)" "sid \<noteq> XQC_UNDEFINE_STREAM_ID"
  shows "fc_data_recved (conn_flow_ctl c') = fc_data_recved (conn_flow_ctl c)
    \<and> fc_max_data_can_recv (conn_flow_ctl c') = fc_max_data_can_recv (conn_flow_ctl c) \<and> stream_max_recv_offset s = received sid c"
proof (cases "xqc_find_stream_by_id sid c")
  case None
  obtain c1 r1 where cr: "xqc_stream_do_create_flow_ctl c sid (xqc_get_stream_type sid) = (c1, r1)" by (metis surj_pair)
  from create_flow_ctl_same [OF cr] assms None cr show ?thesis
    by (auto simp: get_stream_def received_def xqc_passive_create_stream_def Let_def same_account_def xqc_insert_passive_stream_hash_def
        split: if_splits sum.splits prod.splits option.splits dest!: create_account)
next
  case (Some s)
  with assms show ?thesis by (simp add: get_stream_def received_def)
qed

definition reset_in_limit :: "xqc_packet_in \<Rightarrow> xqc_conn_str \<Rightarrow> bool" where
  "reset_in_limit pi c =
     (case xqc_parse_reset_stream_frame pi (sc_conn c) of
        (_, Inl _) \<Rightarrow> True
      | (_, Inr (_, sid, _, n)) \<Rightarrow> size_in_limit n (received sid c) c)"

lemma plain_reset_step:
  assumes inv: "flow_inv strict c" and lim: "strict \<longrightarrow> reset_in_limit pi c"
  shows "step_ok strict c (fst (xqc_process_reset_stream_frame env pi c))"
proof -
  obtain conn r where p: "xqc_parse_reset_stream_frame pi (sc_conn c) = (conn, r)" by (metis surj_pair)
  let ?c = "c\<lparr>sc_conn := conn\<rparr>"
  note id = parse_reset_stream_id [OF p]
  have same: "same_account c ?c" using id by (intro same_account_conn) simp
  have inv': "flow_inv strict ?c" using inv flow_inv_same [OF same] by simp
  have "step_ok strict c (fst (with_stream (get_stream env ?c sid) (plain_reset_stages sid err n)))"
    if r: "r = Inr (pi', sid, err, n)" for pi' sid err n
  proof -
    have sid: "sid \<noteq> XQC_UNDEFINE_STREAM_ID" using id r by simp
    obtain c1 f where g: "get_stream env ?c sid = (c1, f)" by (metis surj_pair)
    have gr: "grown strict c (c1, f)" using get_stream_grown [OF inv' sid, of env] grown_before [OF same] by (simp add: g)
    show ?thesis
    proof (cases f)
      case None
      with gr g show ?thesis by (simp add: with_stream_def grown_def step_ok_def)
    next
      case (Some s)
      have "strict \<longrightarrow> size_in_limit n (stream_max_recv_offset s) c1"
        using lim get_stream_account [of env ?c sid c1 s] g Some sid p r
        by (auto simp: reset_in_limit_def size_in_limit_def received_def xqc_find_stream_by_id_def)
      then show ?thesis
        using gr by (simp add: g Some with_stream_def stage_return_ok plain_reset_stages_open plain_reset_stages_final)
    qed
  qed
  then show ?thesis
    using p step_ok_same [OF inv same] by (auto simp: xqc_process_reset_stream_frame_def split: sum.splits prod.splits)
qed

text \<open>The peer's RESET\_STREAM frames along a history keep the limit of the connection, where nothing else checks them.\<close>

fun op_in_limit :: "flow_op \<Rightarrow> xqc_conn_str \<Rightarrow> bool" where
  "op_in_limit (Recv_reset now env pi) c = (reset_stream_at (local_settings c) \<or> reset_in_limit pi c)"
| "op_in_limit _ c = True"

fun resets_in_limit :: "flow_op list \<Rightarrow> xqc_conn_str \<Rightarrow> bool" where
  "resets_in_limit [] c = True"
| "resets_in_limit (op # ops) c = (op_in_limit op c \<and> resets_in_limit ops (flow_step op c))"

lemma flow_step_ok:
  assumes inv: "flow_inv strict c" and "strict \<longrightarrow> op_in_limit op c"
  shows "flow_inv strict (flow_step op c) \<and> table_le (gone_by op) c (flow_step op c)"
proof (cases "\<exists>sid. op = Destroy sid")
  case True
  with destroy_step [OF inv] show ?thesis by auto
next
  case False
  have "step_ok strict c (flow_step op c)"
    using assms False
    by (cases op)
       (simp_all add: stream_frame_step reset_with_reset_at_step reset_at_step stop_sending_step data_blocked_step
         stream_data_blocked_step streams_blocked_step max_data_step max_stream_data_step max_streams_step
         create_step on_stream_steps [unfolded flow_step.simps Let_def], auto intro!: plain_reset_step)
  with False show ?thesis by (cases op) (auto simp: step_ok_def)
qed

lemma flow_run_ok:
  assumes "flow_inv strict c" "strict \<longrightarrow> resets_in_limit ops c"
  shows "flow_inv strict (flow_run ops c) \<and> table_le (\<Union> (gone_by ` set ops)) c (flow_run ops c)"
  using assms
proof (induction ops arbitrary: c)
  case Nil
  then show ?case using table_le_same [OF same_account_refl] by (simp add: flow_run_def)
next
  case (Cons op ops)
  have 1: "flow_inv strict (flow_step op c) \<and> table_le (gone_by op) c (flow_step op c)"
    using Cons.prems by (intro flow_step_ok) auto
  with Cons have "flow_inv strict (flow_run ops (flow_step op c)) \<and>
      table_le (\<Union> (gone_by ` set ops)) (flow_step op c) (flow_run ops (flow_step op c))" by auto
  with 1 show ?case by (auto simp: flow_run_def intro: table_le_trans)
qed

section \<open>Properties\<close>

text \<open>A connection before its first stream.\<close>

definition flow_start :: "xqc_conn_str \<Rightarrow> bool" where
  "flow_start c \<longleftrightarrow>
     (let fc = conn_flow_ctl c in
      conn_all_streams c = [] \<and> settings_ok (local_settings c) \<and> fc_data_recved fc = 0
      \<and> fc_max_data_can_recv fc \<le> XQC_MAX_FLOW_CONTROL_WINDOW \<and> fc_recv_windows_size fc \<le> XQC_MAX_FLOW_CONTROL_WINDOW
      \<and> fc_max_streams_bidi_can_send fc \<le> XQC_MAX_STREAMS \<and> fc_max_streams_uni_can_send fc \<le> XQC_MAX_STREAMS)"

lemma flow_start_inv: "flow_start c \<Longrightarrow> flow_inv strict c"
  by (auto simp: flow_start_def flow_inv_def ids_ok_def fc_ok_def Let_def two_max_window)


text \<open>C15: Promises made for a stream are kept as long as it exists: from any point of any history to any later one, neither
  the limit of the connection nor the limit of the stream goes down, and once the final size of the stream is recorded it
  stays recorded and the same.
\<close>

theorem stream_promises_kept:
  assumes "flow_start c0" "c = flow_run ops c0" "c' = flow_run ops' c"
    and "xqc_find_stream_by_id sid c = Some s" "Destroy sid \<notin> set ops'"
  shows "fc_max_data_can_recv (conn_flow_ctl c) \<le> fc_max_data_can_recv (conn_flow_ctl c')
    \<and> (\<exists>s'. xqc_find_stream_by_id sid c' = Some s'
         \<and> fc_max_stream_data_can_recv (stream_flow_ctl s) \<le> fc_max_stream_data_can_recv (stream_flow_ctl s')
         \<and> (stream_determined (stream_data_in s) \<longrightarrow>
              stream_determined (stream_data_in s') \<and> stream_length (stream_data_in s') = stream_length (stream_data_in s)))"
proof -
  have "flow_inv False c" using flow_run_ok [OF flow_start_inv [OF assms(1)], of False ops] assms(2) by simp
  from flow_run_ok [OF this, of ops'] have "table_le (\<Union> (gone_by ` set ops')) c c'" by (simp add: assms(3))
  moreover have "sid \<notin> \<Union> (gone_by ` set ops')" using assms(5) by (auto simp: gone_by_iff)
  ultimately show ?thesis using assms(4) by (auto simp: table_le_def stream_le_def)
qed

text \<open>C38: A new stream gets the limits of a stream the client opened for both directions, whatever its type is:
  \<open>xqc_create_stream_with_conn\<close> calls \<open>xqc_stream_set_flow_ctl\<close> before it stores the type in the zeroed
  structure. The limits announced for streams of one direction are not the ones enforced.
\<close>

theorem new_stream_has_cli_bid_limits:
  assumes "xqc_create_stream_with_conn env c sid stype = (c', Some s)"
  shows "fc_max_stream_data_can_recv (stream_flow_ctl s)
      = recv_limit (conn_type (sc_conn c)) (local_settings c) XQC_CLI_BID
    \<and> fc_stream_recv_window_size (stream_flow_ctl s)
      = recv_limit (conn_type (sc_conn c)) (local_settings c) XQC_CLI_BID
    \<and> stream_type s = (if sid = XQC_UNDEFINE_STREAM_ID then stype else xqc_get_stream_type sid)"
proof -
  obtain c1 r1 where cr: "xqc_stream_do_create_flow_ctl c sid stype = (c1, r1)" by (metis surj_pair)
  from create_flow_ctl_same [OF cr] have "conn_type (sc_conn c1) = conn_type (sc_conn c)" "local_settings c1 = local_settings c"
    by (simp_all add: same_account_def same_frame_def)
  with assms cr show ?thesis
    by (auto simp: xqc_create_stream_with_conn_def Let_def xqc_stream_set_flow_ctl_def sfc_upd_def stream_calloc_def
        XQC_CLI_BID_def xqc_stream_ready_to_write_def flag_on_def split: if_splits sum.splits prod.splits option.splits)
qed

text \<open>C39: Without RESET\_STREAM\_AT a RESET\_STREAM frame is accepted with any final size that is not below what was received:
  the size is neither compared with the limits of the stream and the connection nor with a final size the stream already has,
  and \<open>fc_data_recved\<close> moves by the difference.
\<close>

theorem plain_reset_ignores_limits:
  assumes "xqc_parse_reset_stream_frame pi (sc_conn c) = (conn, Inr (pi', sid, err, n))"
    and "xqc_find_stream_by_id sid c = Some s"
    and "stream_state_recv s \<in> {XQC_RECV_STREAM_ST_RECV, XQC_RECV_STREAM_ST_SIZE_KNOWN, XQC_RECV_STREAM_ST_DATA_RECVD}"
    and "stream_max_recv_offset s \<le> n"
  shows "\<exists>c'. xqc_process_reset_stream_frame env pi c = (c', pi', Inr ())
    \<and> fc_data_recved (conn_flow_ctl c') = fc_data_recved (conn_flow_ctl c) + (n - stream_max_recv_offset s)
    \<and> fc_max_data_can_recv (conn_flow_ctl c') = fc_max_data_can_recv (conn_flow_ctl c)"
proof -
  let ?c = "c\<lparr>sc_conn := conn\<rparr>"
  have get: "get_stream env ?c sid = (?c, Some s)"
    using assms(2) by (simp add: get_stream_def xqc_find_stream_by_id_def)
  obtain c2 s2 r where send: "plain_reset_send sid err ?c s = (c2, s2, r)" by (metis surj_pair)
  note c2 = plain_reset_send_fields [OF send]
  show ?thesis
    using assms(1,3,4) get send c2
    by (auto simp: xqc_process_reset_stream_frame_def with_stream_def plain_reset_stages_def plain_reset_check_def stage_then_def
        plain_reset_recv_def stage_return_def put_stream_def fc_upd_def)
qed

text \<open>
  A FIN at an offset below data that was already received is taken as the final size instead of being refused.
\<close>

lemma fin_below_received_accepted:
  assumes fin: "sf_fin f" "data_length f = 0" "data_offset f < merged_offset_end (stream_data_in s)"
    and s: "\<not> stream_determined (stream_data_in s)" "ra_recv_state (reset_at s) = XQC_RESET_AT_RECV_NONE"
      "\<not> ra_recv_seen (reset_at s)" "stream_state_recv s = XQC_RECV_STREAM_ST_RECV"
    and k: "stream_frame_stages now ptype f c s = (c', s', r)"
  shows "stream_determined (stream_data_in s') \<and> stream_length (stream_data_in s') = data_offset f"
proof -
  define s1 where "s1 = (di_upd (\<lambda>di. di\<lparr>stream_length := sf_end f, stream_determined := True\<rparr>) s)
    \<lparr>stream_state_recv := XQC_RECV_STREAM_ST_SIZE_KNOWN\<rparr>"
  have 1: "stream_old f c s = (c, s, None)" "stream_final_size f c s = (c, s1, None)"
    using fin s by (simp_all add: stream_old_def stream_final_size_def Let_def s1_def)
  have "final_is (sf_end f) c s1" by (simp add: final_is_def s1_def di_upd_def)
  then have "stage_keeps (final_is (sf_end f)) (stage_then (stream_receive now ptype f c s1) stream_wake)"
    by (auto intro!: stage_keeps_then final_is_receive fin.stream_wake_keeps)
  moreover have "stream_frame_stages now ptype f c s = stage_then (stream_receive now ptype f c s1) stream_wake"
    by (simp add: stream_frame_stages_def 1 stage_then_return stream_receive_def stage_then_assoc)
  ultimately have "stage_keeps (final_is (sf_end f)) (c', s', r)" using k by simp
  then show ?thesis using fin(2) by (simp add: final_is_def sf_end_def)
qed

section \<open>Examples\<close>

text \<open>A server before its first stream; the three limits of a stream differ.\<close>

definition fc_conn_example :: "bool \<Rightarrow> xqc_conn_str" where
  "fc_conn_example reset_at_on =
     (let settings = \<lparr>max_stream_data_bidi_local = 100, max_stream_data_bidi_remote = 200, max_stream_data_uni = 300,
                      max_streams_bidi = 4, max_streams_uni = 4, reset_stream_at = reset_at_on\<rparr>
      in \<lparr>sc_conn = conn_example\<lparr>conn_type := XQC_CONN_TYPE_SERVER\<rparr>, sc_state = XQC_CONN_STATE_ESTABED,
          conn_flow_ctl =
            \<lparr>fc_max_data_can_send = 1000, fc_data_sent = 0, fc_max_data_can_recv = 1000, fc_data_recved = 0, fc_data_read = 0,
             fc_max_streams_bidi_can_send = 4, fc_max_streams_bidi_can_recv = 4, fc_max_streams_uni_can_send = 4,
             fc_max_streams_uni_can_recv = 4, fc_recv_windows_size = 1000, fc_last_window_update_time = 0\<rparr>,
          conn_all_streams = [], passive_streams_hash = [], cur_stream_id_bidi_local = 0, cur_stream_id_uni_local = 0,
          max_stream_id_bidi_remote = - 1, max_stream_id_uni_remote = - 1, local_settings = settings,
          remote_settings = settings, max_stream_frame_buffered_cnt = 0, conn_recv_rate_bytes_per_sec = 0,
          enable_stream_rate_limit = False, init_recv_window = 0, pkt_out_size = 1200, sc_min_srtt = 10, sc_max_srtt = 20,
          sc_max_pto = 30, sc_timers = xqc_timer_init, sc_write_ok = True, ctl_written = []\<rparr>)"

definition create_env_example :: create_env where
  "create_env_example = \<lparr>alloc_ok = True, notify_ok = True, settings_rate = None\<rparr>"

definition pi_of :: "bytes \<Rightarrow> xqc_packet_in" where
  "pi_of bs = \<lparr>pi_pkt_pns = XQC_PNS_APP_DATA, pi_rest = bs, pi_frame_types = 0\<rparr>"

text \<open>Two bytes and a FIN on stream 0, as the client sends them.\<close>

definition fc_stream_op :: flow_op where
  "fc_stream_op = Recv_stream 1000 create_env_example True XQC_PTYPE_SHORT_HEADER (pi_of [0x0b, 0, 2, 7, 8])"

lemma fc_start_example: "flow_start (fc_conn_example b)"
  by (simp add: flow_start_def fc_conn_example_def settings_ok_def XQC_MAX_FLOW_CONTROL_WINDOW_def XQC_MAX_STREAMS_def Let_def)



theorem stream_promises_kept_witness:
  "\<exists>s s'. xqc_find_stream_by_id 0 (flow_run [fc_stream_op] (fc_conn_example True)) = Some s
     \<and> stream_determined (stream_data_in s) \<and> stream_length (stream_data_in s) = 2
     \<and> xqc_find_stream_by_id 0 (flow_run [App_read 2000 1 0] (flow_run [fc_stream_op] (fc_conn_example True))) = Some s'
     \<and> stream_determined (stream_data_in s') \<and> stream_length (stream_data_in s') = 2"
proof -
  let ?c = "flow_run [fc_stream_op] (fc_conn_example True)"
  have "map_option (\<lambda>s. (stream_determined (stream_data_in s), stream_length (stream_data_in s))) (xqc_find_stream_by_id 0 ?c)
      = Some (True, 2)" by code_simp
  then obtain s where s: "xqc_find_stream_by_id 0 ?c = Some s" "stream_determined (stream_data_in s)"
      "stream_length (stream_data_in s) = 2" by auto
  from stream_promises_kept [OF fc_start_example [of True] refl refl s(1), of "[App_read 2000 1 0]"] s
  show ?thesis by (auto simp: fc_stream_op_def)
qed

theorem new_stream_has_cli_bid_limits_witness:
  "\<exists>c' s. xqc_create_stream_with_conn create_env_example (fc_conn_example True) 2 0 = (c', Some s)
     \<and> stream_type s = XQC_CLI_UNI \<and> max_stream_data_uni (local_settings (fc_conn_example True)) = 300
     \<and> fc_max_stream_data_can_recv (stream_flow_ctl s) = 200"
proof -
  have "snd (xqc_create_stream_with_conn create_env_example (fc_conn_example True) 2 0) \<noteq> None" by code_simp
  then obtain c' s where s: "xqc_create_stream_with_conn create_env_example (fc_conn_example True) 2 0 = (c', Some s)"
    by (metis option.exhaust surjective_pairing)
  from new_stream_has_cli_bid_limits [OF s] s show ?thesis
    by (simp add: fc_conn_example_def recv_limit_def stream_type_defs xqc_get_stream_type_def XQC_UNDEFINE_STREAM_ID_def Let_def)
qed

text \<open>Two bytes on stream 0, then a reset with a final size of 100000 where 1000 were granted.\<close>

theorem plain_reset_ignores_limits_witness:
  "\<exists>c c'. xqc_process_reset_stream_frame create_env_example (pi_of [4, 0, 0, 0x80, 0x01, 0x86, 0xa0]) c
       = (c', (pi_of [])\<lparr>pi_frame_types := XQC_FRAME_BIT XQC_FRAME_RESET_STREAM\<rparr>, Inr ())
     \<and> flow_inv True c \<and> fc_max_data_can_recv (conn_flow_ctl c') = 1000 \<and> fc_data_recved (conn_flow_ctl c') = 100000"
proof -
  let ?c = "flow_run [Recv_stream 1000 create_env_example True XQC_PTYPE_SHORT_HEADER (pi_of [0x0a, 0, 2, 7, 8])] (fc_conn_example False)"
  let ?pi = "pi_of [4, 0, 0, 0x80, 0x01, 0x86, 0xa0]"
  let ?pi' = "(pi_of [])\<lparr>pi_frame_types := XQC_FRAME_BIT XQC_FRAME_RESET_STREAM\<rparr>"
  have parse: "xqc_parse_reset_stream_frame ?pi (sc_conn ?c) = (sc_conn ?c, Inr (?pi', 0, 0, 100000))" by code_simp
  have "map_option (\<lambda>s. (stream_state_recv s, stream_max_recv_offset s)) (xqc_find_stream_by_id 0 ?c)
      = Some (XQC_RECV_STREAM_ST_RECV, 2)" by code_simp
  then obtain s where s: "xqc_find_stream_by_id 0 ?c = Some s" "stream_state_recv s = XQC_RECV_STREAM_ST_RECV"
      "stream_max_recv_offset s = 2" by auto
  have "fc_data_recved (conn_flow_ctl ?c) = 2" "fc_max_data_can_recv (conn_flow_ctl ?c) = 1000" by code_simp+
  moreover have "flow_inv True ?c" using flow_run_ok [OF flow_start_inv [OF fc_start_example [of False]]] by simp
  ultimately show ?thesis
    using plain_reset_ignores_limits [OF parse s(1), of create_env_example] s(2,3) by fastforce
qed

end
