(* ===== verification/Huffman.thy ===== *)
theory Huffman
  imports Huffman_Table
begin

text \<open>
  The Huffman code of QPACK strings, after \<^verbatim>\<open>src/common/utils/huffman/xqc_huffman.c\<close>: the encoder, which keeps the byte it is
  filling and the number of free bits in it, and the decoder, an automaton that reads four bits at a time from the tables of
  \<^verbatim>\<open>xqc_huffman_code.c\<close>. The tree of the code is written out once and the tables are compared with it by evaluation; everything
  else is proved over the tree. The encoder writes the codes of the symbols and pads with ones. The decoder accepts exactly
  what the encoder writes, and decoding in pieces gives the same as decoding at once.
\<close>

section \<open>The encoder\<close>

definition xqc_huffman_enc_len :: "bytes \<Rightarrow> nat" where
  "xqc_huffman_enc_len src = (sum_list (map (\<lambda>b. fst (xqc_huffman_enc_code_table ! unat b)) src) + 7) div 8"

text \<open>
  The buffer is the list of the bytes in front of \<open>dest\<close>, the byte \<open>dest\<close> points to, and the number of its bits that are
  still free. The byte is not set when all of its bits are free; \<open>xqc_huffman_enc\<close> clears it before it is used.
\<close>

type_synonym huff_buf = "bytes \<times> u8 \<times> nat"

definition encode_rest :: "bytes \<Rightarrow> nat \<Rightarrow> u32 \<Rightarrow> huff_buf" where
  "encode_rest out nbits code =
     (let (out, nbits) = (if nbits > 24 then (out @ [ucast (drop_bit 24 code)], nbits - 8) else (out, nbits));
          (out, nbits) = (if nbits > 16 then (out @ [ucast (drop_bit 16 code)], nbits - 8) else (out, nbits));
          (out, nbits) = (if nbits > 8 then (out @ [ucast (drop_bit 8 code)], nbits - 8) else (out, nbits))
      in if nbits = 8 then (out @ [ucast code], 0, 8) else (out, ucast code, 8 - nbits))"

definition xqc_huffman_encode_sym :: "huff_buf \<Rightarrow> nat \<times> u32 \<Rightarrow> huff_buf" where
  "xqc_huffman_encode_sym buf ec =
     (case (buf, ec) of ((out, cur, rembits), (nbits, code)) \<Rightarrow>
        if rembits > nbits then (out, cur OR ucast (push_bit (rembits - nbits) code), rembits - nbits)
        else if rembits = nbits then (out @ [cur OR ucast code], 0, 8)
        else
          let out = out @ [cur OR ucast (drop_bit (nbits - rembits) code)];
              nbits = nbits - rembits;
              code = (if nbits mod 8 \<noteq> 0 then push_bit (8 - nbits mod 8) code else code)
          in if nbits < 8 then (out, ucast code, 8 - nbits) else encode_rest out nbits code)"

definition encode_step :: "u8 \<Rightarrow> huff_buf \<Rightarrow> huff_buf" where
  "encode_step b buf =
     (case buf of (out, cur, rembits) \<Rightarrow>
        xqc_huffman_encode_sym (out, if rembits = 8 then 0 else cur, rembits) (xqc_huffman_enc_code_table ! unat b))"

definition xqc_huffman_enc :: "bytes \<Rightarrow> bytes" where
  "xqc_huffman_enc src =
     (case fold encode_step src ([], 0, 8) of (out, cur, rembits) \<Rightarrow>
        if rembits < 8
        then (let (bits, lsb) = xqc_huffman_enc_code_table ! 256 in out @ [cur OR ucast (drop_bit (bits - rembits) lsb)])
        else out)"

section \<open>The decoder\<close>

record xqc_huffman_dec_ctx =
  hd_state :: int
  hd_end :: bool
  high_bits :: bool
  pre_state :: int
  hd_bit :: nat

definition xqc_huffman_dec_ctx_init :: xqc_huffman_dec_ctx where
  "xqc_huffman_dec_ctx_init = \<lparr>hd_state = 0, hd_end = True, high_bits = True, pre_state = 0, hd_bit = 0\<rparr>"

text \<open>Four bits: the symbols written, at most one.\<close>

definition xqc_huffman_dec_bits ::
    "xqc_huffman_dec_ctx \<Rightarrow> nat \<Rightarrow> xqc_huffman_dec_ctx \<times> bytes res" where
  "xqc_huffman_dec_bits ctx bits =
     (case xqc_huffman_dec_code_table ! nat (hd_state ctx) ! bits of (state, flags, sm) \<Rightarrow>
        if flags AND XQC_HUFFMAN_FAIL \<noteq> 0 then (ctx, Inl XQC_QPACK_HUFFMAN_DEC_ERROR)
        else (ctx\<lparr>hd_bit := bits, pre_state := hd_state ctx, hd_state := state, hd_end := (flags AND XQC_HUFFMAN_END \<noteq> 0)\<rparr>,
              Inr (if flags AND XQC_HUFFMAN_SYM \<noteq> 0 then [word_of_int sm] else [])))"

text \<open>
  The loop over the input, with \<open>dstlen\<close> bytes of room: what was written, the input that is left, and whether the
  destination is full.
\<close>

fun huffman_dec_loop ::
    "nat \<Rightarrow> xqc_huffman_dec_ctx \<Rightarrow> bytes \<Rightarrow> bytes \<Rightarrow> xqc_huffman_dec_ctx \<times> (bytes \<times> bytes \<times> bool) res" where
  "huffman_dec_loop dstlen ctx out [] = (ctx, Inr (out, [], False))"
| "huffman_dec_loop dstlen ctx out (b # bs) =
     (let low = (\<lambda>ctx out.
            case xqc_huffman_dec_bits ctx (unat (b AND 0x0f)) of
              (ctx, Inl e) \<Rightarrow> (ctx, Inl e)
            | (ctx, Inr w) \<Rightarrow>
                if length (out @ w) = dstlen then (ctx\<lparr>high_bits := True\<rparr>, Inr (out @ w, bs, True))
                else huffman_dec_loop dstlen (ctx\<lparr>high_bits := True\<rparr>) (out @ w) bs)
      in if high_bits ctx
         then (case xqc_huffman_dec_bits ctx (unat (drop_bit 4 b)) of
                 (ctx, Inl e) \<Rightarrow> (ctx, Inl e)
               | (ctx, Inr w) \<Rightarrow>
                   if length (out @ w) = dstlen then (ctx\<lparr>high_bits := False\<rparr>, Inr (out @ w, b # bs, True))
                   else low (ctx\<lparr>high_bits := False\<rparr>) (out @ w))
         else low ctx out)"

definition xqc_huffman_dec ::
    "xqc_huffman_dec_ctx \<Rightarrow> nat \<Rightarrow> bytes \<Rightarrow> bool \<Rightarrow> xqc_huffman_dec_ctx \<times> (nat \<times> bytes) res" where
  "xqc_huffman_dec ctx dstlen src fin =
     (case huffman_dec_loop dstlen ctx [] src of
        (ctx, Inl e) \<Rightarrow> (ctx, Inl e)
      | (ctx, Inr (out, rest, full)) \<Rightarrow>
          if \<not> full \<and> fin \<and> \<not> hd_end ctx then (ctx, Inl XQC_QPACK_HUFFMAN_DEC_STATE_ERROR)
          else (ctx, Inr (length src - length rest, out)))"

section \<open>Codes as sequences of bits\<close>

definition code_bits :: "nat \<times> u32 \<Rightarrow> bool list" where
  "code_bits ec = map (bit (snd ec)) (rev [0..<fst ec])"

definition huff_code :: "nat \<Rightarrow> bool list" where
  "huff_code sm = code_bits (xqc_huffman_enc_code_table ! sm)"

text \<open>The tree of the code. An inner node has the number of the state of the decoder that stands for it.\<close>

datatype htrie = Sym int | Nd int htrie htrie

fun walk :: "htrie \<Rightarrow> bool list \<Rightarrow> htrie option" where
  "walk t [] = Some t"
| "walk (Sym a) (b # bs) = None"
| "walk (Nd n l r) (b # bs) = walk (if b then r else l) bs"

definition huff_trie :: htrie where
  "huff_trie =
     Nd 0 (Nd 1 (Nd 2 (Nd 3 (Nd 4 (Sym 48) (Sym 49)) (Nd 5 (Sym 50) (Sym 97)))
        (Nd 6 (Nd 7 (Sym 99) (Sym 101)) (Nd 8 (Sym 105) (Sym 111))))
       (Nd 9 (Nd 10 (Nd 11 (Sym 115) (Sym 116)) (Nd 12 (Nd 13 (Sym 32) (Sym 37)) (Nd 14 (Sym 45) (Sym 46))))
        (Nd 15 (Nd 16 (Nd 17 (Sym 47) (Sym 51)) (Nd 18 (Sym 52) (Sym 53)))
         (Nd 19 (Nd 20 (Sym 54) (Sym 55)) (Nd 21 (Sym 56) (Sym 57))))))
      (Nd 22 (Nd 23 (Nd 24 (Nd 25 (Nd 26 (Sym 61) (Sym 65)) (Nd 27 (Sym 95) (Sym 98)))
         (Nd 28 (Nd 29 (Sym 100) (Sym 102)) (Nd 30 (Sym 103) (Sym 104))))
        (Nd 31 (Nd 32 (Nd 33 (Sym 108) (Sym 109)) (Nd 34 (Sym 110) (Sym 112)))
         (Nd 35 (Nd 36 (Sym 114) (Sym 117)) (Nd 37 (Nd 38 (Sym 58) (Sym 66)) (Nd 39 (Sym 67) (Sym 68))))))
       (Nd 40 (Nd 41 (Nd 42 (Nd 43 (Nd 44 (Sym 69) (Sym 70)) (Nd 45 (Sym 71) (Sym 72)))
          (Nd 46 (Nd 47 (Sym 73) (Sym 74)) (Nd 48 (Sym 75) (Sym 76))))
         (Nd 49 (Nd 50 (Nd 51 (Sym 77) (Sym 78)) (Nd 52 (Sym 79) (Sym 80)))
          (Nd 53 (Nd 54 (Sym 81) (Sym 82)) (Nd 55 (Sym 83) (Sym 84)))))
        (Nd 56 (Nd 57 (Nd 58 (Nd 59 (Sym 85) (Sym 86)) (Nd 60 (Sym 87) (Sym 89)))
          (Nd 61 (Nd 62 (Sym 106) (Sym 107)) (Nd 63 (Sym 113) (Sym 118))))
         (Nd 64 (Nd 65 (Nd 66 (Sym 119) (Sym 120)) (Nd 67 (Sym 121) (Sym 122)))
          (Nd 68 (Nd 69 (Nd 70 (Sym 38) (Sym 42)) (Nd 71 (Sym 44) (Sym 59)))
           (Nd 72 (Nd 73 (Sym 88) (Sym 90))
            (Nd 74 (Nd 75 (Nd 76 (Sym 33) (Sym 34)) (Nd 77 (Sym 40) (Sym 41)))
             (Nd 78 (Nd 79 (Sym 63) (Nd 80 (Sym 39) (Sym 43)))
              (Nd 81 (Nd 82 (Sym 124) (Nd 83 (Sym 35) (Sym 62)))
               (Nd 84 (Nd 85 (Nd 86 (Sym 0) (Sym 36)) (Nd 87 (Sym 64) (Sym 91)))
                (Nd 88 (Nd 89 (Sym 93) (Sym 126))
                 (Nd 90 (Nd 91 (Sym 94) (Sym 125))
                  (Nd 92 (Nd 93 (Sym 60) (Sym 96))
                   (Nd 94 (Sym 123)
                    (Nd 95 (Nd 96 (Nd 97 (Nd 98 (Sym 92) (Sym 195)) (Nd 99 (Sym 208) (Nd 100 (Sym 128) (Sym 130))))
                      (Nd 101 (Nd 102 (Nd 103 (Sym 131) (Sym 162)) (Nd 104 (Sym 184) (Sym 194)))
                       (Nd 105 (Nd 106 (Sym 224) (Sym 226))
                        (Nd 107 (Nd 108 (Sym 153) (Sym 161)) (Nd 109 (Sym 167) (Sym 172))))))
                     (Nd 110 (Nd 111 (Nd 112 (Nd 113 (Nd 114 (Sym 176) (Sym 177)) (Nd 115 (Sym 179) (Sym 209)))
                        (Nd 116 (Nd 117 (Sym 216) (Sym 217)) (Nd 118 (Sym 227) (Sym 229))))
                       (Nd 119 (Nd 120 (Nd 121 (Sym 230) (Nd 122 (Sym 129) (Sym 132)))
                         (Nd 123 (Nd 124 (Sym 133) (Sym 134)) (Nd 125 (Sym 136) (Sym 146))))
                        (Nd 126 (Nd 127 (Nd 128 (Sym 154) (Sym 156)) (Nd 129 (Sym 160) (Sym 163)))
                         (Nd 130 (Nd 131 (Sym 164) (Sym 169)) (Nd 132 (Sym 170) (Sym 173))))))
                      (Nd 133 (Nd 134 (Nd 135 (Nd 136 (Nd 137 (Sym 178) (Sym 181)) (Nd 138 (Sym 185) (Sym 186)))
                         (Nd 139 (Nd 140 (Sym 187) (Sym 189)) (Nd 141 (Sym 190) (Sym 196))))
                        (Nd 142 (Nd 143 (Nd 144 (Sym 198) (Sym 228)) (Nd 145 (Sym 232) (Sym 233)))
                         (Nd 146 (Nd 147 (Nd 148 (Sym 1) (Sym 135)) (Nd 149 (Sym 137) (Sym 138)))
                          (Nd 150 (Nd 151 (Sym 139) (Sym 140)) (Nd 152 (Sym 141) (Sym 143))))))
                       (Nd 153 (Nd 154 (Nd 155 (Nd 156 (Nd 157 (Sym 147) (Sym 149)) (Nd 158 (Sym 150) (Sym 151)))
                          (Nd 159 (Nd 160 (Sym 152) (Sym 155)) (Nd 161 (Sym 157) (Sym 158))))
                         (Nd 162 (Nd 163 (Nd 164 (Sym 165) (Sym 166)) (Nd 165 (Sym 168) (Sym 174)))
                          (Nd 166 (Nd 167 (Sym 175) (Sym 180)) (Nd 168 (Sym 182) (Sym 183)))))
                        (Nd 169 (Nd 170 (Nd 171 (Nd 172 (Sym 188) (Sym 191)) (Nd 173 (Sym 197) (Sym 231)))
                          (Nd 174 (Nd 175 (Sym 239) (Nd 176 (Sym 9) (Sym 142)))
                           (Nd 177 (Nd 178 (Sym 144) (Sym 145)) (Nd 179 (Sym 148) (Sym 159)))))
                         (Nd 180 (Nd 181 (Nd 182 (Nd 183 (Sym 171) (Sym 206)) (Nd 184 (Sym 215) (Sym 225)))
                           (Nd 185 (Nd 186 (Sym 236) (Sym 237))
                            (Nd 187 (Nd 188 (Sym 199) (Sym 207)) (Nd 189 (Sym 234) (Sym 235)))))
                          (Nd 190 (Nd 191 (Nd 192 (Nd 193 (Nd 194 (Sym 192) (Sym 193)) (Nd 195 (Sym 200) (Sym 201)))
                             (Nd 196 (Nd 197 (Sym 202) (Sym 205)) (Nd 198 (Sym 210) (Sym 213))))
                            (Nd 199 (Nd 200 (Nd 201 (Sym 218) (Sym 219)) (Nd 202 (Sym 238) (Sym 240)))
                             (Nd 203 (Nd 204 (Sym 242) (Sym 243))
                              (Nd 205 (Sym 255) (Nd 206 (Sym 203) (Sym 204))))))
                           (Nd 207 (Nd 208 (Nd 209 (Nd 210 (Nd 211 (Sym 211) (Sym 212)) (Nd 212 (Sym 214) (Sym 221)))
                              (Nd 213 (Nd 214 (Sym 222) (Sym 223)) (Nd 215 (Sym 241) (Sym 244))))
                             (Nd 216 (Nd 217 (Nd 218 (Sym 245) (Sym 246)) (Nd 219 (Sym 247) (Sym 248)))
                              (Nd 220 (Nd 221 (Sym 250) (Sym 251)) (Nd 222 (Sym 252) (Sym 253)))))
                            (Nd 223 (Nd 224 (Nd 225 (Nd 226 (Sym 254) (Nd 227 (Sym 2) (Sym 3)))
                               (Nd 228 (Nd 229 (Sym 4) (Sym 5)) (Nd 230 (Sym 6) (Sym 7))))
                              (Nd 231 (Nd 232 (Nd 233 (Sym 8) (Sym 11)) (Nd 234 (Sym 12) (Sym 14)))
                               (Nd 235 (Nd 236 (Sym 15) (Sym 16)) (Nd 237 (Sym 17) (Sym 18)))))
                             (Nd 238 (Nd 239 (Nd 240 (Nd 241 (Sym 19) (Sym 20)) (Nd 242 (Sym 21) (Sym 23)))
                               (Nd 243 (Nd 244 (Sym 24) (Sym 25)) (Nd 245 (Sym 26) (Sym 27))))
                              (Nd 246 (Nd 247 (Nd 248 (Sym 28) (Sym 29)) (Nd 249 (Sym 30) (Sym 31)))
                               (Nd 250 (Nd 251 (Sym 127) (Sym 220))
                                (Nd 252 (Sym 249)
                                 (Nd 253 (Nd 254 (Sym 10) (Sym 13)) (Nd 255 (Sym 22) (Sym 256))))))))))))))))))))))))))))))"

fun leaf_list :: "htrie \<Rightarrow> int list" where
  "leaf_list (Sym a) = [a]"
| "leaf_list (Nd n l r) = leaf_list l @ leaf_list r"

fun inner_nodes :: "htrie \<Rightarrow> htrie list" where
  "inner_nodes (Sym a) = []"
| "inner_nodes (Nd n l r) = Nd n l r # inner_nodes l @ inner_nodes r"

fun node_no :: "htrie \<Rightarrow> int" where
  "node_no (Nd n l r) = n"
| "node_no (Sym a) = - 1"

fun is_inner :: "htrie \<Rightarrow> bool" where
  "is_inner (Nd n l r) = True"
| "is_inner (Sym a) = False"

fun deep :: "nat \<Rightarrow> htrie \<Rightarrow> bool" where
  "deep k (Sym a) = False"
| "deep 0 (Nd n l r) = True"
| "deep (Suc k) (Nd n l r) = (deep k l \<and> deep k r)"

primrec bits_list :: "nat \<Rightarrow> bool list list" where
  "bits_list 0 = [[]]"
| "bits_list (Suc k) = map ((#) False) (bits_list k) @ map ((#) True) (bits_list k)"

fun ones_spine :: "nat \<Rightarrow> htrie \<Rightarrow> int list" where
  "ones_spine (Suc k) (Nd n l r) = n # ones_spine k r"
| "ones_spine k t = []"

text \<open>
  Reading bits at a node of the tree: a leaf gives its symbol and the reading goes on at the root. The leaf of the end-of-string
  symbol is an error.
\<close>

fun trie_run :: "htrie \<Rightarrow> htrie \<Rightarrow> bool list \<Rightarrow> (int list \<times> htrie) option" where
  "trie_run root t [] = Some ([], t)"
| "trie_run root (Sym a) (b # bs) = None"
| "trie_run root (Nd n l r) (b # bs) =
     (case if b then r else l of
        Sym a \<Rightarrow> if a = 256 then None else map_option (apfst ((#) a)) (trie_run root root bs)
      | Nd m l' r' \<Rightarrow> trie_run root (Nd m l' r') bs)"

type_synonym outcome = "(int \<times> int list) option"

definition outcome :: "(int list \<times> htrie) option \<Rightarrow> outcome" where
  "outcome = map_option (\<lambda>(out, t). (node_no t, out))"

primrec fresh_states :: "nat \<Rightarrow> htrie \<Rightarrow> int list" where
  "fresh_states 0 t = [node_no t]"
| "fresh_states (Suc k) t = (case t of Nd n l r \<Rightarrow> fresh_states k l @ fresh_states k r | Sym a \<Rightarrow> [])"

primrec outcomes :: "int list list \<Rightarrow> htrie \<Rightarrow> nat \<Rightarrow> outcome list" where
  "outcomes fr (Sym a) k = map (\<lambda>s. if a = 256 then None else Some (s, [a])) (fr ! k)"
| "outcomes fr (Nd n l r) k =
     (case k of 0 \<Rightarrow> [Some (n, [])] | Suc k \<Rightarrow> outcomes fr l k @ outcomes fr r k)"

definition entry_ok :: "int list \<Rightarrow> outcome \<Rightarrow> xqc_huffman_dec_code \<Rightarrow> bool" where
  "entry_ok spine x e =
     (case e of (state, flags, sm) \<Rightarrow>
        (case x of
           None \<Rightarrow> flags AND XQC_HUFFMAN_FAIL \<noteq> 0
         | Some (n, out) \<Rightarrow>
             flags AND XQC_HUFFMAN_FAIL = 0 \<and> state = n \<and> out = (if flags AND XQC_HUFFMAN_SYM \<noteq> 0 then [sm] else [])
             \<and> (flags AND XQC_HUFFMAN_END \<noteq> 0) = List.member spine n))"

definition row_ok :: "int list \<Rightarrow> int list list \<Rightarrow> htrie \<Rightarrow> xqc_huffman_dec_code list \<Rightarrow> bool" where
  "row_ok spine fr t row = list_all2 (entry_ok spine) (outcomes fr t 4) row"

fun int_bits :: "nat \<Rightarrow> int \<Rightarrow> bool list \<Rightarrow> bool list" where
  "int_bits 0 c acc = acc"
| "int_bits (Suc n) c acc = int_bits n (c div 2) (odd c # acc)"

section \<open>Facts about the tables, by evaluation\<close>

lemma codes_walk:
  "list_all (\<lambda>(i, ec). 5 \<le> fst ec \<and> fst ec \<le> 30 \<and> walk huff_trie (int_bits (fst ec) (uint (snd ec)) []) = Some (Sym i))
     (zip (upto 0 256) xqc_huffman_enc_code_table)"
  by code_simp

lemma codes_small:
  "list_all (\<lambda>ec. uint (snd ec) < 2 ^ fst ec) xqc_huffman_enc_code_table"
  by code_simp

lemma enc_table_length: "length xqc_huffman_enc_code_table = 257"
  by code_simp

lemma eos_entry: "xqc_huffman_enc_code_table ! 256 = (30, 0x3fffffff)"
  by code_simp

lemma leaves_huff: "sort (leaf_list huff_trie) = upto 0 256"
  by code_simp

lemma nodes_huff: "map node_no (inner_nodes huff_trie) = upto 0 255"
  by code_simp

lemma deep_huff: "deep 4 huff_trie"
  by code_simp

lemma spine_length_huff: "length (ones_spine 8 huff_trie) = 8"
  by code_simp

lemma rows_huff:
  "list_all2 (row_ok (ones_spine 8 huff_trie) (map (\<lambda>k. fresh_states k huff_trie) [0, 1, 2, 3]))
     (inner_nodes huff_trie) xqc_huffman_dec_code_table"
  by code_simp

section \<open>Reading the tree\<close>

lemma walk_append: "walk t (p @ q) = Option.bind (walk t p) (\<lambda>u. walk u q)"
  by (induction t p rule: walk.induct) auto

lemma walk_leaf [dest]: "walk t p = Some (Sym a) \<Longrightarrow> a \<in> set (leaf_list t)"
  by (induction t p rule: walk.induct) (auto split: if_splits)

lemma walk_inner: "walk t p = Some u \<Longrightarrow> is_inner u \<Longrightarrow> u \<in> set (inner_nodes t)"
  by (induction t p rule: walk.induct) (auto split: if_splits, (cases u; auto)+)

lemma inner_node_no: "u \<in> set (inner_nodes t) \<Longrightarrow> node_no u \<in> node_no ` set (inner_nodes t)"
  by auto

lemma walk_leaf_unique:
  assumes "distinct (leaf_list t)" "walk t p = Some (Sym a)" "walk t q = Some (Sym a)"
  shows "p = q"
  using assms
proof (induction t arbitrary: p q)
  case (Sym x)
  then show ?case by (cases p; cases q) auto
next
  case (Nd n l r)
  then obtain b p' c q' where pq: "p = b # p'" "q = c # q'" by (cases p; cases q) auto
  have disj: "set (leaf_list l) \<inter> set (leaf_list r) = {}" using Nd.prems(1) by simp
  have "b = c" using Nd.prems(2,3) pq disj by (auto dest!: walk_leaf split: if_splits)
  then show ?case using Nd pq by (cases b) auto
qed

lemma walk_node_unique:
  assumes "distinct (map node_no (inner_nodes t))" "walk t p = Some u" "walk t q = Some v" "is_inner u" "is_inner v"
    "node_no u = node_no v"
  shows "p = q \<and> u = v"
  using assms(1-3)
proof (induction t arbitrary: p q)
  case (Sym x)
  then show ?case using assms(4) by (cases p; cases q) auto
next
  case (Nd n l r)
  have disj: "node_no ` set (inner_nodes l) \<inter> node_no ` set (inner_nodes r) = {}"
    "n \<notin> node_no ` set (inner_nodes l)" "n \<notin> node_no ` set (inner_nodes r)"
    using Nd.prems(1) by auto
  have sub: "walk (if b then r else l) p' = Some w \<Longrightarrow> is_inner w \<Longrightarrow> node_no w \<in> node_no ` set (inner_nodes (if b then r else l))"
    for b p' w by (drule (1) walk_inner) auto
  show ?case
  proof (cases p; cases q)
    fix b p' c q'
    assume pq: "p = b # p'" "q = c # q'"
    have "b = c" using Nd.prems(2,3) pq disj sub [of b p' u] sub [of c q' v] assms(4-6) by (auto split: if_splits)
    then show ?thesis using Nd pq by (cases b) auto
  next
    fix c q' assume "p = []" "q = c # q'"
    then show ?thesis using Nd.prems disj sub [of c q' v] assms(4-6) by (auto split: if_splits)
  next
    fix b p' assume "p = b # p'" "q = []"
    then show ?thesis using Nd.prems disj sub [of b p' u] assms(4-6) by (auto split: if_splits)
  qed (use Nd.prems in auto)
qed

lemma trie_run_append:
  "trie_run root t (p @ q) =
     Option.bind (trie_run root t p) (\<lambda>(out, u). map_option (apfst ((@) out)) (trie_run root u q))"
proof (induction root t p rule: trie_run.induct)
  case (1 root t)
  then show ?case by (cases "trie_run root t q") (auto simp: apfst_def map_prod_def)
next
  case (2 root a b bs)
  then show ?case by simp
next
  case (3 root n l r b bs)
  then show ?case
    by (cases "if b then r else l")
       (auto split: htrie.splits simp: option.map_comp comp_def apfst_def map_prod_def split_beta bind_map_option map_option_bind)
qed

lemma trie_run_inner:
  "trie_run root t bs = Some (out, u) \<Longrightarrow> is_inner root \<Longrightarrow> is_inner t \<Longrightarrow> is_inner u"
  by (induction root t bs arbitrary: out rule: trie_run.induct) (auto split: htrie.splits if_splits)

lemma trie_run_leaf:
  "walk t p = Some (Sym a) \<Longrightarrow> p \<noteq> [] \<Longrightarrow> a \<noteq> 256 \<Longrightarrow> trie_run root t (p @ bs) = map_option (apfst ((#) a)) (trie_run root root bs)"
proof (induction t p rule: walk.induct)
  case (3 n l r b bs')
  then show ?case by (cases "if b then r else l"; cases bs') (auto split: if_splits)
qed auto

lemma trie_run_walk:
  "walk t p = Some u \<Longrightarrow> is_inner u \<Longrightarrow> trie_run root t p = Some ([], u)"
proof (induction t p rule: walk.induct)
  case (3 n l r b bs')
  then show ?case by (cases "if b then r else l"; cases bs') (auto split: if_splits)
qed auto

lemma ones_spine_walk:
  "j < length (ones_spine k t) \<Longrightarrow> \<exists>u. walk t (replicate j True) = Some u \<and> is_inner u \<and> node_no u = ones_spine k t ! j"
proof (induction k t arbitrary: j rule: ones_spine.induct)
  case (1 k n l r)
  then show ?case by (cases j) auto
qed auto

lemma trie_run_sound:
  assumes "walk root p = Some t" "trie_run root t bs = Some (out, u)" "is_inner root"
  shows "\<exists>ps q. list_all2 (\<lambda>a c. a \<noteq> 256 \<and> walk root c = Some (Sym a)) out ps \<and> p @ bs = concat ps @ q \<and> walk root q = Some u"
  using assms
proof (induction root t bs arbitrary: p out rule: trie_run.induct)
  case (1 root t)
  then show ?case by (intro exI [of _ "[]"] exI [of _ p]) auto
next
  case (2 root a b bs)
  then show ?case by simp
next
  case (3 root n l r b bs)
  have w: "walk root (p @ [b]) = Some (if b then r else l)" using 3(3) by (simp add: walk_append)
  show ?case
  proof (cases "if b then r else l")
    case (Sym a)
    then obtain o' where o': "a \<noteq> 256" "trie_run root root bs = Some (o', u)" "out = a # o'"
      using 3(4) by (auto simp: apfst_def map_prod_def split: if_splits)
    obtain ps q where "list_all2 (\<lambda>a c. a \<noteq> 256 \<and> walk root c = Some (Sym a)) o' ps" "bs = concat ps @ q" "walk root q = Some u"
      using 3(1) [OF Sym o'(1), of "[]" o'] o' 3(5) by auto
    then show ?thesis using Sym w o' by (intro exI [of _ "(p @ [b]) # ps"] exI [of _ q]) auto
  next
    case (Nd m l' r')
    then show ?thesis using 3(2) [OF Nd, of "p @ [b]" out] 3(4,5) w by (auto split: if_splits)
  qed
qed

section \<open>The tables and the tree\<close>

lemma int_bits_eq: "int_bits n c acc = map (bit c) (rev [0..<n]) @ acc"
proof (induction n c acc rule: int_bits.induct)
  case (2 n c acc)
  have "rev [0..<Suc n] = map Suc (rev [0..<n]) @ [0]"
    by (simp add: upt_conv_Cons map_Suc_upt flip: rev_map del: upt_Suc)
  then show ?case using 2 by (simp add: bit_0 bit_Suc comp_def del: upt_Suc)
qed simp

lemma code_bits_int: "code_bits ec = int_bits (fst ec) (uint (snd ec)) []"
  by (simp add: code_bits_def int_bits_eq bit_uint_iff fun_eq_iff) (auto dest: bit_imp_le_length)

lemma enc_entry:
  assumes "s \<le> 256"
  shows "5 \<le> fst (xqc_huffman_enc_code_table ! s)" "fst (xqc_huffman_enc_code_table ! s) \<le> 30"
    "walk huff_trie (huff_code s) = Some (Sym (int s))"
proof -
  have len: "length (zip (upto 0 256) xqc_huffman_enc_code_table) = 257"
    by (simp add: enc_table_length)
  have "(\<lambda>(i, ec). 5 \<le> fst ec \<and> fst ec \<le> 30 \<and> walk huff_trie (int_bits (fst ec) (uint (snd ec)) []) = Some (Sym i))
     (zip (upto 0 256) xqc_huffman_enc_code_table ! s)"
    using codes_walk assms len unfolding list_all_length by simp
  then show "5 \<le> fst (xqc_huffman_enc_code_table ! s)" "fst (xqc_huffman_enc_code_table ! s) \<le> 30"
    "walk huff_trie (huff_code s) = Some (Sym (int s))"
    using assms by (simp_all add: enc_table_length huff_code_def code_bits_int)
qed

lemma enc_entry_small: "s \<le> 256 \<Longrightarrow> unat (snd (xqc_huffman_enc_code_table ! s)) < 2 ^ fst (xqc_huffman_enc_code_table ! s)"
proof -
  assume "s \<le> 256"
  then have "uint (snd (xqc_huffman_enc_code_table ! s)) < 2 ^ fst (xqc_huffman_enc_code_table ! s)"
    using codes_small enc_table_length unfolding list_all_length by simp
  then have "int (unat (snd (xqc_huffman_enc_code_table ! s))) < int (2 ^ fst (xqc_huffman_enc_code_table ! s))" by simp
  then show ?thesis by linarith
qed

lemma deep_inner: "deep k t \<Longrightarrow> is_inner t"
  by (cases t) auto

lemma inner_huff [simp]: "is_inner huff_trie"
  by (rule deep_inner [OF deep_huff])

lemma distinct_leaves_huff: "distinct (leaf_list huff_trie)"
  using arg_cong [OF leaves_huff, of distinct] by simp

lemma distinct_nodes_huff: "distinct (map node_no (inner_nodes huff_trie))"
  by (simp add: nodes_huff)

lemma leaf_path:
  assumes "walk huff_trie p = Some (Sym a)"
  shows "0 \<le> a \<and> a \<le> 256 \<and> p = huff_code (nat a)"
proof -
  have "a \<in> set (sort (leaf_list huff_trie))" using assms by auto
  then have a: "0 \<le> a" "a \<le> 256" by (auto simp: leaves_huff simp del: set_sort)
  then have "walk huff_trie (huff_code (nat a)) = Some (Sym a)" using enc_entry(3) [of "nat a"] by simp
  then show ?thesis using a assms walk_leaf_unique [OF distinct_leaves_huff] by blast
qed

lemma huff_code_nonempty: "s \<le> 256 \<Longrightarrow> huff_code s \<noteq> []"
  using enc_entry(1) [of s] by (auto simp: huff_code_def code_bits_def)

lemma row_of_node:
  assumes "t \<in> set (inner_nodes huff_trie)"
  shows "row_ok (ones_spine 8 huff_trie) (map (\<lambda>k. fresh_states k huff_trie) [0, 1, 2, 3]) t
           (xqc_huffman_dec_code_table ! nat (node_no t))"
proof -
  have ln: "length (inner_nodes huff_trie) = 256" using arg_cong [OF nodes_huff, of length] by simp
  obtain i where i: "i < 256" "inner_nodes huff_trie ! i = t" using assms ln by (metis in_set_conv_nth)
  have "node_no t = upto 0 255 ! i" using i ln nodes_huff nth_map [of i "inner_nodes huff_trie" node_no] by simp
  then have "nat (node_no t) = i" using i by simp
  then show ?thesis using list_all2_nthD [OF rows_huff, of i] i ln by simp
qed

section \<open>One step of four bits\<close>

lemma bits_list_length [simp]: "length (bits_list k) = 2 ^ k"
  by (induction k) auto

lemma deep_run:
  "deep k t \<Longrightarrow> length bs \<le> k \<Longrightarrow> \<exists>u. trie_run root t bs = Some ([], u)"
proof (induction k t arbitrary: bs rule: deep.induct)
  case (3 k n l r)
  then show ?case by (cases bs; cases l; cases r) (auto split: htrie.splits)
qed auto

lemma fresh_states_run:
  "deep k t \<Longrightarrow> map (\<lambda>bs. outcome (trie_run root t bs)) (bits_list k) = map (\<lambda>s. Some (s, [])) (fresh_states k t)"
proof (induction k t rule: deep.induct)
  case (3 k n l r)
  then have "is_inner l" "is_inner r" by (auto dest: deep_inner)
  then show ?case using 3 by (cases l; cases r) (auto simp: comp_def)
qed (auto simp: outcome_def)

lemma deep_mono: "deep k t \<Longrightarrow> j \<le> k \<Longrightarrow> deep j t"
proof (induction k t arbitrary: j rule: deep.induct)
  case (3 k n l r)
  then show ?case by (cases j) auto
next
  case (2 n l r)
  then show ?case by simp
qed auto

lemma outcomes_run:
  assumes "deep 3 root" "k \<le> 4"
  shows "is_inner t \<Longrightarrow> outcomes (map (\<lambda>k. fresh_states k root) [0, 1, 2, 3]) t k = map (\<lambda>bs. outcome (trie_run root t bs)) (bits_list k)"
  using assms(2)
proof (induction k arbitrary: t)
  case 0
  then show ?case by (cases t) (auto simp: outcome_def)
next
  case (Suc k)
  let ?fr = "map (\<lambda>k. fresh_states k root) [0, 1, 2, 3]"
  obtain n l r where t: "t = Nd n l r" using Suc.prems by (cases t) auto
  have fr: "?fr ! k = fresh_states k root"
    using Suc.prems(2) by (auto simp: less_Suc_eq_le le_Suc_eq numeral_eq_Suc)
  have child: "outcomes ?fr (if b then r else l) k = map (\<lambda>bs. outcome (trie_run root t (b # bs))) (bits_list k)" for b
  proof (cases "if b then r else l")
    case (Nd m l' r')
    then show ?thesis using Suc.IH [of "Nd m l' r'"] Suc.prems t by simp
  next
    case (Sym a)
    have d: "deep k root" using deep_mono [OF assms(1), of k] Suc.prems by simp
    have cons: "outcome (map_option (apfst ((#) a)) x) = map_option (apsnd ((#) a)) (outcome x)" for x
      by (cases x) (auto simp: outcome_def)
    have fresh: "map (\<lambda>bs. outcome (trie_run root root bs)) (bits_list k) = map (\<lambda>s. Some (s, [])) (fresh_states k root)"
      by (rule fresh_states_run [OF d])
    have "length (fresh_states k root) = length (bits_list k)" using arg_cong [OF fresh, of length] by simp
    moreover have "map (\<lambda>bs. outcome (map_option (apfst ((#) a)) (trie_run root root bs))) (bits_list k)
        = map (\<lambda>s. Some (s, [a])) (fresh_states k root)"
      using arg_cong [OF fresh, of "map (map_option (apsnd ((#) a)))"] by (simp add: cons comp_def)
    ultimately show ?thesis unfolding Sym outcomes.simps fr using Sym t
      by (cases "a = 256") (simp_all add: map_replicate_const outcome_def)
  qed
  from child [of False] child [of True] show ?case using t by (simp add: comp_def)
qed

definition byte_bits :: "u8 \<Rightarrow> bool list" where
  "byte_bits b = map (bit b) (rev [0..<8])"

definition bits_of :: "bytes \<Rightarrow> bool list" where
  "bits_of bs = concat (map byte_bits bs)"

definition at_node :: "xqc_huffman_dec_ctx \<Rightarrow> htrie \<Rightarrow> bool" where
  "at_node ctx t \<longleftrightarrow>
     is_inner t \<and> (\<exists>p. walk huff_trie p = Some t) \<and> hd_state ctx = node_no t
     \<and> hd_end ctx = (node_no t \<in> set (ones_spine 8 huff_trie))"

lemma bits_of_simps [simp]: "bits_of [] = []" "bits_of (b # bs) = byte_bits b @ bits_of bs" "bits_of (as @ bs) = bits_of as @ bits_of bs"
  by (simp_all add: bits_of_def)

lemma length_byte_bits [simp]: "length (byte_bits b) = 8"
  by (simp add: byte_bits_def)

lemma length_bits_of [simp]: "length (bits_of bs) = 8 * length bs"
  by (induction bs) auto

lemma nibble_bits: "n < 16 \<Longrightarrow> bits_list 4 ! n = map (bit n) (rev [0..<4])"
proof -
  have "list_all (\<lambda>n. bits_list 4 ! n = map (bit n) (rev [0..<4])) [0..<16]" by code_simp
  then show "n < 16 \<Longrightarrow> ?thesis" by (simp add: list_all_iff del: upt_Suc)
qed

lemma nibble_less: "unat (drop_bit 4 (b :: u8)) < 16" "unat (b AND 0x0f) < 16"
proof -
  show "unat (drop_bit 4 b) < 16" using unat_u8_less [of b] unfolding unat_drop_bit_eq unfolding drop_bit_eq_div by simp
  have "b AND 0x0f = take_bit 4 b" by (simp add: take_bit_eq_mask mask_numeral)
  then have "unat (b AND 0x0f) < 2 ^ 4" by (simp only: unsigned_take_bit_eq take_bit_nat_less_exp)
  then show "unat (b AND 0x0f) < 16" by simp
qed

lemma byte_bits_nibbles: "byte_bits b = bits_list 4 ! unat (drop_bit 4 b) @ bits_list 4 ! unat (b AND 0x0f)"
proof -
  show ?thesis
    unfolding nibble_bits [OF nibble_less(1)] nibble_bits [OF nibble_less(2)] byte_bits_def
    by (simp add: upt_rec bit_unsigned_iff bit_drop_bit_eq bit_and_iff numeral_eq_Suc)
qed

lemma dec_bits_step:
  assumes "at_node ctx t" "n < 16"
  shows "xqc_huffman_dec_bits ctx n =
     (case trie_run huff_trie t (bits_list 4 ! n) of
        None \<Rightarrow> (ctx, Inl XQC_QPACK_HUFFMAN_DEC_ERROR)
      | Some (out, u) \<Rightarrow>
          (ctx\<lparr>hd_bit := n, pre_state := hd_state ctx, hd_state := node_no u,
               hd_end := (node_no u \<in> set (ones_spine 8 huff_trie))\<rparr>, Inr (map word_of_int out)))"
proof -
  let ?spine = "ones_spine 8 huff_trie"
  have t: "is_inner t" "t \<in> set (inner_nodes huff_trie)" "hd_state ctx = node_no t"
    using assms(1) walk_inner by (auto simp: at_node_def)
  have d: "deep 3 huff_trie" using deep_mono [OF deep_huff, of 3] by simp
  have "list_all2 (entry_ok ?spine) (map (\<lambda>bs. outcome (trie_run huff_trie t bs)) (bits_list 4))
          (xqc_huffman_dec_code_table ! nat (node_no t))"
    using row_of_node [OF t(2)] outcomes_run [OF d _ t(1), of 4] by (simp only: row_ok_def)
  from list_all2_nthD [OF this, of n]
  have "entry_ok ?spine (outcome (trie_run huff_trie t (bits_list 4 ! n))) (xqc_huffman_dec_code_table ! nat (hd_state ctx) ! n)"
    using assms(2) t by simp
  then show ?thesis
    by (auto simp: xqc_huffman_dec_bits_def entry_ok_def outcome_def List.member_iff split: option.splits prod.splits)
qed

lemma at_node_step:
  assumes "at_node ctx t" "trie_run huff_trie t bs = Some (out, u)" "hd_state ctx' = node_no u"
    "hd_end ctx' = (node_no u \<in> set (ones_spine 8 huff_trie))"
  shows "at_node ctx' u"
proof -
  obtain p where "walk huff_trie p = Some t" "is_inner t" using assms(1) by (auto simp: at_node_def)
  then show ?thesis using trie_run_sound [OF _ assms(2), of p] trie_run_inner [OF assms(2)] assms(3,4)
    by (auto simp: at_node_def)
qed

lemma at_node_high [simp]: "at_node (ctx\<lparr>high_bits := h\<rparr>) t = at_node ctx t"
  by (simp add: at_node_def)

lemma at_node_init: "at_node xqc_huffman_dec_ctx_init huff_trie"
proof -
  have "node_no huff_trie = 0" by code_simp
  moreover have "0 \<in> set (ones_spine 8 huff_trie)" by code_simp
  moreover have "walk huff_trie [] = Some huff_trie" by simp
  ultimately show ?thesis unfolding at_node_def xqc_huffman_dec_ctx_init_def by (auto simp del: walk.simps)
qed

text \<open>A nibble, with the state the context is in afterwards.\<close>

lemma dec_bits_cases [consumes 2]:
  assumes "at_node ctx t" "n < 16"
  obtains (error) "trie_run huff_trie t (bits_list 4 ! n) = None" "xqc_huffman_dec_bits ctx n = (ctx, Inl XQC_QPACK_HUFFMAN_DEC_ERROR)"
  | (ok) ctx' w u where "trie_run huff_trie t (bits_list 4 ! n) = Some (w, u)"
      "xqc_huffman_dec_bits ctx n = (ctx', Inr (map word_of_int w))" "at_node ctx' u" "high_bits ctx' = high_bits ctx"
proof (cases "trie_run huff_trie t (bits_list 4 ! n)")
  case None
  then show thesis using dec_bits_step [OF assms] by (intro error) simp_all
next
  case (Some p)
  obtain w u where p: "p = (w, u)" by (cases p)
  let ?ctx = "ctx\<lparr>hd_bit := n, pre_state := hd_state ctx, hd_state := node_no u,
               hd_end := (node_no u \<in> set (ones_spine 8 huff_trie))\<rparr>"
  have run: "trie_run huff_trie t (bits_list 4 ! n) = Some (w, u)" using Some p by simp
  have "xqc_huffman_dec_bits ctx n = (?ctx, Inr (map word_of_int w))" using run dec_bits_step [OF assms] by simp
  moreover have "at_node ?ctx u" by (rule at_node_step [OF assms(1) run]) simp_all
  ultimately show thesis by (rule ok [OF run]) simp
qed

lemma trie_run_byte:
  "trie_run root t (byte_bits b @ bs) =
     Option.bind (trie_run root t (bits_list 4 ! unat (drop_bit 4 b))) (\<lambda>(w, u).
     Option.bind (trie_run root u (bits_list 4 ! unat (b AND 0x0f))) (\<lambda>(w', u').
     map_option (apfst (\<lambda>out. w @ w' @ out)) (trie_run root u' bs)))"
  by (auto simp: byte_bits_nibbles trie_run_append split: Option.bind_splits prod.splits)
     (auto simp: option.map_comp comp_def split_beta intro!: option.map_cong)

lemma dec_loop_sound:
  assumes "huffman_dec_loop d ctx out src = (ctx', Inr (out', rest, full))" "high_bits ctx" "at_node ctx t"
  shows "if full then length out' = d
     else rest = [] \<and> (\<exists>outs u. trie_run huff_trie t (bits_of src) = Some (outs, u) \<and> at_node ctx' u \<and> out' = out @ map word_of_int outs)"
  using assms
proof (induction src arbitrary: ctx out t)
  case Nil
  then show ?case by auto
next
  case (Cons b bs)
  note step = Cons.prems(1) [unfolded huffman_dec_loop.simps Let_def]
  show ?case using Cons.prems(3) nibble_less(1) [of b]
  proof (cases rule: dec_bits_cases)
    case error
    then show ?thesis using step Cons.prems(2) by simp
  next
    case hi: (ok c1 w1 u1)
    have c1: "at_node (c1\<lparr>high_bits := False\<rparr>) u1" using hi by simp
    show ?thesis using c1 nibble_less(2) [of b]
    proof (cases rule: dec_bits_cases)
      case error
      then show ?thesis using step hi Cons.prems(2) by (auto split: if_splits)
    next
      case lo: (ok c2 w2 u2)
      have c2: "at_node (c2\<lparr>high_bits := True\<rparr>) u2" using lo by simp
      show ?thesis using step hi lo Cons.prems(2) Cons.IH [OF _ _ c2, of "out @ map word_of_int (w1 @ w2)"]
        by (auto simp: trie_run_byte split: if_splits)
    qed
  qed
qed

lemma dec_loop_complete:
  assumes "trie_run huff_trie t (bits_of src) = Some (outs, u)" "length out + length outs < d" "high_bits ctx" "at_node ctx t"
  shows "\<exists>ctx'. huffman_dec_loop d ctx out src = (ctx', Inr (out @ map word_of_int outs, [], False)) \<and> at_node ctx' u"
  using assms
proof (induction src arbitrary: ctx out t outs)
  case Nil
  then show ?case by auto
next
  case (Cons b bs)
  note run = Cons.prems(1) [unfolded bits_of_simps trie_run_byte]
  show ?case using Cons.prems(4) nibble_less(1) [of b]
  proof (cases rule: dec_bits_cases)
    case error
    then show ?thesis using run by simp
  next
    case hi: (ok c1 w1 u1)
    have c1: "at_node (c1\<lparr>high_bits := False\<rparr>) u1" using hi by simp
    show ?thesis using c1 nibble_less(2) [of b]
    proof (cases rule: dec_bits_cases)
      case error
      then show ?thesis using run hi by simp
    next
      case lo: (ok c2 w2 u2)
      have c2: "at_node (c2\<lparr>high_bits := True\<rparr>) u2" using lo by simp
      obtain o3 where o3: "trie_run huff_trie u2 (bits_of bs) = Some (o3, u)" "outs = w1 @ w2 @ o3"
        using run hi lo by auto
      show ?thesis using Cons.IH [OF o3(1) _ _ c2, of "out @ map word_of_int (w1 @ w2)"] hi lo o3(2) Cons.prems(2,3) by auto
    qed
  qed
qed

section \<open>What the decoder accepts\<close>

definition sym_bits :: "bytes \<Rightarrow> bool list" where
  "sym_bits src = concat (map (\<lambda>b. huff_code (unat b)) src)"

lemma sym_bits_simps [simp]: "sym_bits [] = []" "sym_bits (b # bs) = huff_code (unat b) @ sym_bits bs"
  "sym_bits (as @ bs) = sym_bits as @ sym_bits bs"
  by (simp_all add: sym_bits_def)

lemma byte_code_walk: "walk huff_trie (huff_code (unat (b :: u8))) = Some (Sym (uint b))" "huff_code (unat b) \<noteq> []" "uint b \<noteq> 256"
proof -
  have b: "unat b \<le> 256" "unat b \<noteq> 256" using unat_u8_less [of b] by simp_all
  have i: "int (unat b) = uint b" by simp
  show "walk huff_trie (huff_code (unat b)) = Some (Sym (uint b))" using enc_entry(3) [OF b(1)] by (simp only: i)
  show "huff_code (unat b) \<noteq> []" by (rule huff_code_nonempty [OF b(1)])
  show "uint b \<noteq> 256" using b(2) unfolding i [symmetric] by linarith
qed

lemma trie_run_syms:
  "trie_run huff_trie huff_trie (sym_bits src @ bs) = map_option (apfst ((@) (map uint src))) (trie_run huff_trie huff_trie bs)"
proof (induction src)
  case Nil
  then show ?case by (cases "trie_run huff_trie huff_trie bs") auto
next
  case (Cons b src)
  then show ?case
    using trie_run_leaf [OF byte_code_walk [of b], of huff_trie "sym_bits src @ bs"]
    by (simp add: option.map_comp comp_def apfst_def map_prod_def split_beta)
qed

lemma accept_complete:
  assumes "j < 8"
  shows "\<exists>u. trie_run huff_trie huff_trie (sym_bits src @ replicate j True) = Some (map uint src, u)
     \<and> node_no u \<in> set (ones_spine 8 huff_trie)"
proof -
  obtain u where "walk huff_trie (replicate j True) = Some u" "is_inner u" "node_no u = ones_spine 8 huff_trie ! j"
    using ones_spine_walk [of j 8 huff_trie] assms spine_length_huff by auto
  then show ?thesis using trie_run_walk [of huff_trie "replicate j True" u huff_trie] assms spine_length_huff
    by (auto simp: trie_run_syms)
qed

lemma leaf_byte:
  assumes "a \<noteq> 256" "walk huff_trie c = Some (Sym a)"
  shows "c = huff_code (unat (word_of_int a :: u8))"
proof -
  have "0 \<le> a" "a < 256" "c = huff_code (nat a)" using leaf_path [OF assms(2)] assms(1) by auto
  then show ?thesis by (simp add: uint_nat [symmetric] unat_eq_nat_uint word_of_int_inverse uint_word_of_int)
qed

lemma leaf_bytes:
  "list_all2 (\<lambda>a c. a \<noteq> 256 \<and> walk huff_trie c = Some (Sym a)) outs ps \<Longrightarrow> concat ps = sym_bits (map word_of_int outs)"
  by (induction outs ps rule: list_all2_induct) (auto dest: leaf_byte)

lemma accept_sound:
  assumes "trie_run huff_trie huff_trie bs = Some (outs, u)" "node_no u \<in> set (ones_spine 8 huff_trie)"
  shows "\<exists>j < 8. bs = sym_bits (map word_of_int outs) @ replicate j True"
proof -
  obtain ps q where pq: "list_all2 (\<lambda>a c. a \<noteq> 256 \<and> walk huff_trie c = Some (Sym a)) outs ps" "bs = concat ps @ q"
      "walk huff_trie q = Some u"
    using trie_run_sound [OF _ assms(1), of "[]"] by auto
  obtain j where j: "j < 8" "node_no u = ones_spine 8 huff_trie ! j"
    using assms(2) spine_length_huff by (metis in_set_conv_nth)
  obtain v where v: "walk huff_trie (replicate j True) = Some v" "is_inner v" "node_no v = node_no u"
    using ones_spine_walk [of j 8 huff_trie] j spine_length_huff by auto
  have "is_inner u" using trie_run_inner [OF assms(1)] by simp
  then have "q = replicate j True" using walk_node_unique [OF distinct_nodes_huff pq(3) v(1)] v by simp
  then show ?thesis using pq leaf_bytes [OF pq(1)] j(1) by auto
qed

lemma dec_accepts:
  assumes "length out < d"
  shows "(\<exists>ctx. xqc_huffman_dec xqc_huffman_dec_ctx_init d src True = (ctx, Inr (length src, out)))
     \<longleftrightarrow> (\<exists>j < 8. bits_of src = sym_bits out @ replicate j True)" (is "?L = ?R")
proof
  assume ?L
  then obtain ctx rest full where loop: "huffman_dec_loop d xqc_huffman_dec_ctx_init [] src = (ctx, Inr (out, rest, full))"
      "full \<or> hd_end ctx"
    by (auto simp: xqc_huffman_dec_def split: prod.splits sum.splits if_splits)
  have "\<not> full" using dec_loop_sound [OF loop(1) _ at_node_init] assms by (auto simp: xqc_huffman_dec_ctx_init_def)
  then obtain outs u where "trie_run huff_trie huff_trie (bits_of src) = Some (outs, u)" "at_node ctx u" "out = map word_of_int outs"
    using dec_loop_sound [OF loop(1) _ at_node_init] by (auto simp: xqc_huffman_dec_ctx_init_def)
  then show ?R using accept_sound [of "bits_of src" outs u] loop(2) \<open>\<not> full\<close> by (auto simp: at_node_def)
next
  assume ?R
  then obtain j u where "trie_run huff_trie huff_trie (bits_of src) = Some (map uint out, u)"
      "node_no u \<in> set (ones_spine 8 huff_trie)" using accept_complete by metis
  moreover from this(1) obtain ctx where "huffman_dec_loop d xqc_huffman_dec_ctx_init [] src = (ctx, Inr (out, [], False))" "at_node ctx u"
    using dec_loop_complete [OF _ _ _ at_node_init, of src "map uint out" u "[]" d] assms
    by (auto simp: xqc_huffman_dec_ctx_init_def comp_def)
  ultimately show ?L by (auto simp: xqc_huffman_dec_def at_node_def)
qed

section \<open>What the encoder writes\<close>

text \<open>The bits \<open>k + n - 1, \<dots>, k\<close> of a word, the most significant first.\<close>

definition seg :: "nat \<Rightarrow> nat \<Rightarrow> 'a::len word \<Rightarrow> bool list" where
  "seg k n w = map (bit w) (rev [k..<k + n])"

lemma seg_0 [simp]: "seg k 0 w = []"
  by (simp add: seg_def)

lemma seg_split: "seg k (n + m) w = seg (k + m) n w @ seg k m w"
proof -
  have "[k..<k + (n + m)] = [k..<k + m] @ [k + m..<k + m + n]"
    using upt_add_eq_append [of k "k + m" n] by (simp add: ac_simps)
  then show ?thesis by (simp add: seg_def)
qed

lemma seg_cong: "(\<And>i. i < n \<Longrightarrow> bit w (k + i) = bit v (l + i)) \<Longrightarrow> seg k n w = seg l n v"
proof (induction n)
  case (Suc n)
  then show ?case by (simp add: seg_def)
qed simp

lemma code_bits_seg: "code_bits (n, code) = seg 0 n code"
  by (simp add: code_bits_def seg_def)

lemma byte_bits_seg: "byte_bits b = seg 0 8 b"
  by (simp add: byte_bits_def seg_def)

lemma bit_ucast8: "bit (ucast (w :: u32) :: u8) i \<longleftrightarrow> i < 8 \<and> bit w i"
  by (auto simp: bit_unsigned_iff)

lemma bit_push32: "bit (push_bit s (w :: u32)) i \<longleftrightarrow> i < 32 \<and> s \<le> i \<and> bit w (i - s)"
  by (auto simp: bit_push_bit_iff)

lemma byte_bits_low: "byte_bits (ucast (code :: u32)) = seg 0 8 code"
  unfolding byte_bits_seg by (rule seg_cong) (simp add: bit_ucast8)

lemma seg_drop: "seg 0 n (drop_bit k code) = seg k n code"
  by (rule seg_cong) (simp add: bit_drop_bit_eq)

fun buf_ok :: "huff_buf \<Rightarrow> bool" where
  "buf_ok (out, cur, rembits) \<longleftrightarrow> 1 \<le> rembits \<and> rembits \<le> 8 \<and> (\<forall>i < rembits. \<not> bit cur i)"

fun buf_bits :: "huff_buf \<Rightarrow> bool list" where
  "buf_bits (out, cur, rembits) = bits_of out @ seg rembits (8 - rembits) cur"

lemma small_bit:
  assumes "unat (code :: u32) < 2 ^ n" "bit code i"
  shows "i < n"
proof -
  have "take_bit n (unat code) = unat code" using assms(1) by (simp add: take_bit_nat_eq_self)
  moreover have "bit (unat code) i" using assms(2) by (simp add: bit_unsigned_iff)
  ultimately show ?thesis by (metis bit_take_bit_iff)
qed

text \<open>The bytes written after the first one hold the \<open>m\<close> bits at the top of the aligned code.\<close>

lemma encode_rest_bits:
  assumes "m = 8 * q + r" "q \<le> 3" "1 \<le> r" "r \<le> 8" "8 \<le> m" "\<And>i. i < 8 - r \<Longrightarrow> \<not> bit code i"
  shows "buf_ok (encode_rest out m code) \<and> buf_bits (encode_rest out m code) = bits_of out @ seg (8 - r) m code"
proof -
  have cur: "buf_bits (out', ucast code :: u8, 8 - r) = bits_of out' @ seg (8 - r) r code" for out'
    using assms(4) by (auto intro!: seg_cong simp: bit_ucast8)
  have low: "buf_ok (out', ucast code :: u8, 8 - r)" if "r < 8" for out' using that assms(3,6) by (auto simp: bit_ucast8)
  consider "q = 3" | "q = 2" | "q = 1" | "q = 0" using assms(2) by linarith
  then show ?thesis
  proof cases
    case 1
    have "seg (8 - r) m code = seg 24 8 code @ seg 16 8 code @ seg 8 8 code @ seg (8 - r) r code"
      using seg_split [of "8 - r" 8 "8 + (8 + r)" code] seg_split [of "8 - r" 8 "8 + r" code] seg_split [of "8 - r" 8 r code]
        assms(1,4) 1 by simp
    then show ?thesis using assms(1,3,4) 1 cur low
      by (cases "r = 8") (simp_all add: encode_rest_def byte_bits_low seg_drop)
  next
    case 2
    have "seg (8 - r) m code = seg 16 8 code @ seg 8 8 code @ seg (8 - r) r code"
      using seg_split [of "8 - r" 8 "8 + r" code] seg_split [of "8 - r" 8 r code] assms(1,4) 2 by simp
    then show ?thesis using assms(1,3,4) 2 cur low
      by (cases "r = 8") (simp_all add: encode_rest_def byte_bits_low seg_drop)
  next
    case 3
    have "seg (8 - r) m code = seg 8 8 code @ seg (8 - r) r code"
      using seg_split [of "8 - r" 8 r code] assms(1,4) 3 by simp
    then show ?thesis using assms(1,3,4) 3 cur low
      by (cases "r = 8") (simp_all add: encode_rest_def byte_bits_low seg_drop)
  next
    case 4
    then show ?thesis using assms(1,4,5) by (simp add: encode_rest_def byte_bits_low)
  qed
qed

lemma seg_or_old:
  "(\<And>i. bit w i \<Longrightarrow> i < rem) \<Longrightarrow> seg rem (8 - rem) (cur OR ucast (w :: u32)) = seg rem (8 - rem) (cur :: u8)"
  by (intro seg_cong) (auto simp: bit_or_iff bit_ucast8)

lemma seg_or_new:
  "buf_ok (out, cur, rem) \<Longrightarrow> k + l \<le> rem \<Longrightarrow> seg k l (cur OR ucast (w :: u32)) = seg k l w"
  by (intro seg_cong) (auto simp: bit_or_iff bit_ucast8)

definition appends :: "huff_buf \<Rightarrow> nat \<times> u32 \<Rightarrow> bool" where
  "appends buf ec \<longleftrightarrow>
     buf_ok (xqc_huffman_encode_sym buf ec) \<and> buf_bits (xqc_huffman_encode_sym buf ec) = buf_bits buf @ code_bits ec"

lemma encode_sym_fits:
  assumes ok: "buf_ok (out, cur, rem)" and n: "n < rem" and code: "unat code < 2 ^ n"
  shows "appends (out, cur, rem) (n, code)"
proof -
  let ?w = "push_bit (rem - n) code"
  have rem: "rem \<le> 8" and zero: "\<And>i. i < rem \<Longrightarrow> \<not> bit cur i" using ok by simp_all
  have w: "\<And>i. bit ?w i \<Longrightarrow> i < rem" using n by (auto simp: bit_push32 dest!: small_bit [OF code])
  have "seg (rem - n) n ?w = seg 0 n code" using rem n by (intro seg_cong) (auto simp: bit_push32)
  then have bits: "seg (rem - n) (8 - rem + n) (cur OR ucast ?w) = seg rem (8 - rem) cur @ seg 0 n code"
    using seg_split [of "rem - n" "8 - rem" n "cur OR ucast ?w"] n seg_or_old [OF w] seg_or_new [OF ok, of "rem - n" n ?w] by simp
  have left: "8 - (rem - n) = 8 - rem + n" using n rem by simp
  have "\<not> bit (cur OR ucast ?w) i" if "i < rem - n" for i
    using that zero [of i] by (auto simp: bit_or_iff bit_ucast8 bit_push32)
  moreover have "1 \<le> rem - n" "rem - n \<le> 8" using n rem by auto
  moreover have "xqc_huffman_encode_sym (out, cur, rem) (n, code) = (out, cur OR ucast ?w, rem - n)"
    using n by (simp add: xqc_huffman_encode_sym_def)
  ultimately show ?thesis unfolding appends_def by (simp only: buf_ok.simps buf_bits.simps code_bits_seg left bits append_assoc) simp
qed

lemma encode_sym_fills:
  assumes ok: "buf_ok (out, cur, rem)" and code: "unat code < 2 ^ rem"
  shows "appends (out, cur, rem) (rem, code)"
proof -
  have "byte_bits (cur OR ucast code) = seg rem (8 - rem) cur @ seg 0 rem code"
    using seg_split [of 0 "8 - rem" rem "cur OR ucast code"] seg_or_old [OF small_bit [OF code]] seg_or_new [OF ok, of 0 rem code] ok
    by (simp add: byte_bits_seg)
  then show ?thesis using ok by (simp add: appends_def xqc_huffman_encode_sym_def code_bits_seg)
qed

lemma encode_sym_spills:
  assumes ok: "buf_ok (out, cur, rem)" and n: "rem < n" "n \<le> 30" and code: "unat code < 2 ^ n"
  shows "appends (out, cur, rem) (n, code)"
proof -
  let ?m = "n - rem"
  let ?w = "drop_bit ?m code"
  let ?out = "out @ [cur OR ucast ?w]"
  let ?code = "if ?m mod 8 \<noteq> 0 then push_bit (8 - ?m mod 8) code else code"
  have rem: "1 \<le> rem" "rem \<le> 8" using ok by auto
  have w: "\<And>i. bit ?w i \<Longrightarrow> i < rem" using n(1) by (auto simp: bit_drop_bit_eq dest!: small_bit [OF code])
  have "byte_bits (cur OR ucast ?w) = seg rem (8 - rem) cur @ seg ?m rem code"
    using seg_split [of 0 "8 - rem" rem "cur OR ucast ?w"] seg_or_old [OF w] seg_or_new [OF ok, of 0 rem ?w] rem
    by (simp add: byte_bits_seg seg_drop)
  moreover have "seg 0 n code = seg ?m rem code @ seg 0 ?m code" using seg_split [of 0 rem ?m code] n by simp
  ultimately have out: "buf_bits (out, cur, rem) @ code_bits (n, code) = bits_of ?out @ seg 0 ?m code" by (simp add: code_bits_seg)
  show ?thesis
  proof (cases "?m < 8")
    case True
    have "seg (8 - ?m) ?m (ucast ?code :: u8) = seg 0 ?m code" using True n by (intro seg_cong) (auto simp: bit_ucast8 bit_push32)
    moreover have "\<not> bit (ucast ?code :: u8) i" if "i < 8 - ?m" for i using that True n by (auto simp: bit_ucast8 bit_push32)
    ultimately show ?thesis unfolding appends_def out using True n rem by (auto simp: xqc_huffman_encode_sym_def Let_def)
  next
    case False
    define q where "q = (?m - 1) div 8"
    define r where "r = ?m - 8 * q"
    have m: "?m = 8 * q + r" "q \<le> 3" "1 \<le> r" "r \<le> 8" "8 \<le> ?m" using False n rem unfolding q_def r_def by linarith+
    have mr: "?m mod 8 = r mod 8" unfolding m(1) by simp
    have low: "\<And>i. i < 8 - r \<Longrightarrow> \<not> bit ?code i" using m(3,4) unfolding mr by (cases "r = 8") (auto simp: bit_push32)
    have "seg (8 - r) ?m ?code = seg 0 ?m code"
      using m(3,4) n rem m(1,2) unfolding mr by (cases "r = 8") (auto intro!: seg_cong simp: bit_push32)
    then show ?thesis unfolding appends_def out
      using encode_rest_bits [OF m low, of ?out] False n by (simp add: xqc_huffman_encode_sym_def Let_def)
  qed
qed

lemma encode_sym_bits:
  assumes "buf_ok buf" "n \<le> 30" "unat code < 2 ^ n"
  shows "appends buf (n, code)"
proof -
  obtain out cur rem where buf: "buf = (out, cur, rem)" by (cases buf)
  consider "n < rem" | "n = rem" | "rem < n" by linarith
  then show ?thesis using assms encode_sym_fits encode_sym_fills encode_sym_spills unfolding buf by cases blast+
qed

lemma encode_step_bits:
  assumes "buf_ok buf"
  shows "buf_ok (encode_step b buf) \<and> buf_bits (encode_step b buf) = buf_bits buf @ huff_code (unat b)"
proof -
  obtain out cur rem where buf: "buf = (out, cur, rem)" by (cases buf)
  obtain n code where ec: "xqc_huffman_enc_code_table ! unat b = (n, code)" by (cases "xqc_huffman_enc_code_table ! unat b")
  have "cur = 0" if "rem = 8" using assms buf that by (auto simp: bit_eq_iff dest!: bit_imp_le_length)
  then have step: "encode_step b buf = xqc_huffman_encode_sym buf (n, code)" by (auto simp: encode_step_def buf ec)
  have "unat b \<le> 256" using unat_u8_less [of b] by simp
  then have "appends buf (n, code)" using enc_entry(2) [of "unat b"] enc_entry_small [of "unat b"] ec
    by (intro encode_sym_bits [OF assms]) auto
  then show ?thesis by (simp add: step appends_def huff_code_def ec)
qed

lemma encode_fold_bits:
  "buf_ok buf \<Longrightarrow> buf_ok (fold encode_step src buf) \<and> buf_bits (fold encode_step src buf) = buf_bits buf @ sym_bits src"
proof (induction src arbitrary: buf)
  case (Cons b src)
  then show ?case using encode_step_bits [of buf b] Cons.IH [of "encode_step b buf"] by simp
qed simp

lemma eos_pad:
  assumes "buf_ok (out, cur, rem)" "rem < 8"
  shows "byte_bits (cur OR ucast (drop_bit (30 - rem) (0x3fffffff :: u32))) = seg rem (8 - rem) cur @ replicate rem True"
proof -
  let ?w = "drop_bit (30 - rem) (0x3fffffff :: u32)"
  have m: "(0x3fffffff :: u32) = mask 30" by (simp add: mask_numeral)
  have w: "bit ?w i \<longleftrightarrow> i < rem" for i using assms(2) unfolding m by (auto simp: bit_drop_bit_eq bit_mask_iff)
  have "seg 0 rem ?w = replicate rem True"
    unfolding seg_def by (intro nth_equalityI) (auto simp: w nth_append rev_nth)
  then show ?thesis
    using seg_split [of 0 "8 - rem" rem "cur OR ucast ?w"] seg_or_old [of ?w rem cur] seg_or_new [OF assms(1), of 0 rem ?w] w assms(2)
    by (simp add: byte_bits_seg)
qed

lemma enc_bits: "\<exists>j < 8. bits_of (xqc_huffman_enc src) = sym_bits src @ replicate j True"
proof -
  obtain out cur rem where f: "fold encode_step src ([], 0, 8) = (out, cur, rem)" by (metis prod.exhaust)
  have b: "buf_ok (out, cur, rem)" "bits_of out @ seg rem (8 - rem) cur = sym_bits src"
    using encode_fold_bits [of "([], 0, 8)" src] f by simp_all
  show ?thesis
  proof (cases "rem < 8")
    case True
    then have "bits_of (xqc_huffman_enc src) = sym_bits src @ replicate rem True"
      using eos_pad [OF b(1) True] b(2) by (simp add: xqc_huffman_enc_def f eos_entry flip: b(2))
    then show ?thesis using True by blast
  next
    case False
    then show ?thesis using b by (intro exI [of _ 0]) (simp add: xqc_huffman_enc_def f)
  qed
qed

lemma byte_bits_inj: "byte_bits a = byte_bits b \<Longrightarrow> a = b"
  by (rule bit_eqI) (auto simp: byte_bits_def)

lemma bits_of_inj: "bits_of as = bits_of bs \<Longrightarrow> as = bs"
proof (induction as arbitrary: bs)
  case Nil
  then show ?case by (cases bs) (auto dest: arg_cong [of _ _ length])
next
  case (Cons a as)
  then show ?case by (cases bs) (auto dest: arg_cong [of _ _ length] byte_bits_inj)
qed

lemma pad_unique:
  assumes "bits_of src = bs @ replicate j True" "j < 8" "bits_of src' = bs @ replicate k True" "k < 8"
  shows "src = src'"
proof -
  have l: "8 * length src = length bs + j" "8 * length src' = length bs + k"
    using arg_cong [OF assms(1), of length] arg_cong [OF assms(3), of length] by simp_all
  have "length src = length src'" using l assms(2,4) by linarith
  then have "j = k" using l by linarith
  then show ?thesis using assms by (intro bits_of_inj) simp
qed

lemma length_sym_bits: "length (sym_bits src) = sum_list (map (\<lambda>b. fst (xqc_huffman_enc_code_table ! unat b)) src)"
  by (induction src) (auto simp: huff_code_def code_bits_def)

text \<open>The length that is computed before a string is encoded is the number of bytes the encoder writes.\<close>

lemma enc_length: "length (xqc_huffman_enc src) = xqc_huffman_enc_len src"
proof -
  obtain j where "j < 8" "bits_of (xqc_huffman_enc src) = sym_bits src @ replicate j True" using enc_bits by blast
  then have "8 * length (xqc_huffman_enc src) = length (sym_bits src) + j" "j < 8" by (auto dest: arg_cong [of _ _ length])
  then show ?thesis unfolding xqc_huffman_enc_len_def length_sym_bits by simp
qed

lemma enc_length_bounds: "5 * length src \<le> 8 * xqc_huffman_enc_len src" "src \<noteq> [] \<Longrightarrow> 0 < xqc_huffman_enc_len src"
proof -
  have "5 \<le> fst (xqc_huffman_enc_code_table ! unat b)" for b :: u8 using enc_entry(1) [of "unat b"] unat_u8_less [of b] by simp
  then have "5 * length src \<le> sum_list (map (\<lambda>b. fst (xqc_huffman_enc_code_table ! unat b)) src)"
    by (induction src) (auto simp: add_le_mono)
  then show le: "5 * length src \<le> 8 * xqc_huffman_enc_len src" unfolding xqc_huffman_enc_len_def by linarith
  show "src \<noteq> [] \<Longrightarrow> 0 < xqc_huffman_enc_len src" using le by (cases "xqc_huffman_enc_len src") auto
qed

lemma dec_iff_enc:
  assumes "length out < dstlen"
  shows "(\<exists>ctx. xqc_huffman_dec xqc_huffman_dec_ctx_init dstlen src True = (ctx, Inr (length src, out)))
     \<longleftrightarrow> src = xqc_huffman_enc out"
proof -
  obtain j where j: "j < 8" "bits_of (xqc_huffman_enc out) = sym_bits out @ replicate j True" using enc_bits by blast
  show ?thesis unfolding dec_accepts [OF assms] using j pad_unique by blast
qed

text \<open>C7: Into a destination with more room than the string needs, the decoder decodes a complete input to \<open>out\<close> exactly if the
  input is the encoding of \<open>out\<close>. So encoding and decoding are inverse to each other, and every other input is rejected: a
  code that is cut off, the code of the end-of-string symbol, padding with a zero or of more than seven bits.\<close>

theorem huffman_dec_iff_enc:
  assumes "length out < dstlen"
  shows "(\<exists>ctx. xqc_huffman_dec xqc_huffman_dec_ctx_init dstlen src True = (ctx, Inr (length src, out)))
     \<longleftrightarrow> src = xqc_huffman_enc out"
  using assms by (rule dec_iff_enc)

theorem huffman_dec_iff_enc_witness:
  "length ([119, 119, 119] :: bytes) < 4 \<and> xqc_huffman_enc [119, 119, 119] = [0xf1, 0xe3, 0xc7] \<and>
   (\<exists>ctx. xqc_huffman_dec xqc_huffman_dec_ctx_init 4 [0xf1, 0xe3, 0xc7] True = (ctx, Inr (3, [119, 119, 119])))"
proof -
  have "xqc_huffman_enc [119, 119, 119] = [0xf1, 0xe3, 0xc7]" by code_simp
  then show ?thesis using huffman_dec_iff_enc [of "[119, 119, 119]" 4 "[0xf1, 0xe3, 0xc7]"] by (simp add: numeral_3_eq_3)
qed

section \<open>Decoding in pieces\<close>

lemma dec_loop_offset:
  "huffman_dec_loop (length out + d) ctx (out @ out') src =
     (case huffman_dec_loop d ctx out' src of
        (ctx, Inl e) \<Rightarrow> (ctx, Inl e)
      | (ctx, Inr (w, rest, full)) \<Rightarrow> (ctx, Inr (out @ w, rest, full)))"
proof (induction src arbitrary: ctx out')
  case (Cons b src)
  have IH: "huffman_dec_loop (length out + d) ctx (out @ (out' @ w)) src =
     (case huffman_dec_loop d ctx (out' @ w) src of
        (ctx, Inl e) \<Rightarrow> (ctx, Inl e)
      | (ctx, Inr (w, rest, full)) \<Rightarrow> (ctx, Inr (out @ w, rest, full)))" for ctx w
    by (rule Cons)
  show ?case
    by (auto simp: IH [unfolded append_assoc] Let_def split: prod.splits sum.splits)
qed simp

lemma dec_loop_grows:
  "huffman_dec_loop d ctx out src = (ctx', Inr (out', rest, full)) \<Longrightarrow> length out \<le> length out'"
proof (induction src arbitrary: ctx out)
  case (Cons b src)
  then show ?case by (fastforce simp: Let_def split: prod.splits sum.splits if_splits)
qed simp

lemma dec_loop_resume:
  "huffman_dec_loop d ctx out src = (ctx', Inr (out', rest, full)) \<Longrightarrow> length out' < d' \<Longrightarrow>
   huffman_dec_loop d' ctx out (src @ more') = huffman_dec_loop d' ctx' out' (rest @ more')"
proof (induction src arbitrary: ctx out)
  case (Cons b src)
  then show ?case
    by (auto simp: Let_def split: prod.splits sum.splits if_splits dest: dec_loop_grows)
qed simp

lemma dec_loop_rest:
  "huffman_dec_loop d ctx out src = (ctx', Inr (out', rest, full)) \<Longrightarrow> \<exists>pre. src = pre @ rest"
proof (induction src arbitrary: ctx out)
  case (Cons b src)
  then show ?case
    by (fastforce simp: Let_def split: prod.splits sum.splits if_splits)
qed simp

text \<open>C20: Decoding can be interrupted anywhere, at the end of the input that has arrived or where the destination is full: going on
  from the context with the bytes that were not consumed gives the same symbols, context and errors as one call with all of the
  input and a destination that is large enough.\<close>

theorem huffman_dec_resume:
  assumes "xqc_huffman_dec ctx d src False = (ctx', Inr (n, out))" "0 < d'"
  shows "xqc_huffman_dec ctx (length out + d') (src @ more') fin =
    (case xqc_huffman_dec ctx' d' (drop n src @ more') fin of
       (ctx'', Inl e) \<Rightarrow> (ctx'', Inl e)
     | (ctx'', Inr (m, out')) \<Rightarrow> (ctx'', Inr (n + m, out @ out')))"
proof -
  obtain rest full where loop: "huffman_dec_loop d ctx [] src = (ctx', Inr (out, rest, full))" and n: "n = length src - length rest"
    using assms(1) by (auto simp: xqc_huffman_dec_def split: prod.splits sum.splits)
  obtain pre where pre: "src = pre @ rest" using dec_loop_rest [OF loop] by blast
  have "huffman_dec_loop (length out + d') ctx [] (src @ more') = huffman_dec_loop (length out + d') ctx' (out @ []) (rest @ more')"
    using dec_loop_resume [OF loop] assms(2) by simp
  then have loop': "huffman_dec_loop (length out + d') ctx [] (src @ more') =
      (case huffman_dec_loop d' ctx' [] (rest @ more') of
        (ctx, Inl e) \<Rightarrow> (ctx, Inl e)
      | (ctx, Inr (w, rest, full)) \<Rightarrow> (ctx, Inr (out @ w, rest, full)))"
    unfolding dec_loop_offset .
  have "length r \<le> length (rest @ more')" if "huffman_dec_loop d' ctx' [] (rest @ more') = (c, Inr (w, r, f))" for c w r f
    using dec_loop_rest [OF that] by (metis length_append le_add2)
  then show ?thesis unfolding xqc_huffman_dec_def loop' using pre n
    by (auto split: prod.splits sum.splits)
qed

theorem huffman_dec_resume_witness:
  "xqc_huffman_dec xqc_huffman_dec_ctx_init 1 [0xf1, 0xe3] False =
     (\<lparr>hd_state = 22, hd_end = True, high_bits = True, pre_state = 64, hd_bit = 1\<rparr>, Inr (1, [119])) \<and> (0::nat) < 3 \<and>
   xqc_huffman_dec xqc_huffman_dec_ctx_init 4 [0xf1, 0xe3, 0xc7] True =
     (\<lparr>hd_state = 56, hd_end = True, high_bits = True, pre_state = 66, hd_bit = 7\<rparr>, Inr (3, [119, 119, 119]))"
proof -
  have first: "xqc_huffman_dec xqc_huffman_dec_ctx_init 1 [0xf1, 0xe3] False =
     (\<lparr>hd_state = 22, hd_end = True, high_bits = True, pre_state = 64, hd_bit = 1\<rparr>, Inr (1, [119]))"
    by code_simp
  have second: "xqc_huffman_dec \<lparr>hd_state = 22, hd_end = True, high_bits = True, pre_state = 64, hd_bit = 1\<rparr> 3 [0xe3, 0xc7] True =
     (\<lparr>hd_state = 56, hd_end = True, high_bits = True, pre_state = 66, hd_bit = 7\<rparr>, Inr (2, [119, 119]))"
    by code_simp
  show ?thesis using huffman_dec_resume [OF first, of 3 "[0xc7]" True] first second by simp
qed

end
