(* ===== verification/Prefixed_Int.thy ===== *)
theory Prefixed_Int
  imports Xqc_Prelude
begin

text \<open>
  The integers of QPACK, after \<^verbatim>\<open>src/http3/qpack/xqc_prefixed_int.c\<close>: the low bits of a byte, and seven bits in each of the
  bytes that follow. The reader keeps a context, so that an integer can be split over several calls. The locale
  \<open>chunked_reader\<close> is the contract of such readers and gives what holds for any number of pieces.
\<close>

section \<open>Integers with a prefix\<close>

record xqc_prefixed_int =
  pi_prefix :: nat
  pi_shift :: nat
  pi_value :: u64

definition XQC_QPACK_INT_MAX :: u64 where
  "XQC_QPACK_INT_MAX = push_bit 62 1 - 1"

definition xqc_prefixed_int_init :: "nat \<Rightarrow> xqc_prefixed_int" where
  "xqc_prefixed_int_init n = \<lparr>pi_prefix = n, pi_shift = 0, pi_value = 0\<rparr>"

text \<open>The loop of the reader: the shift, the value, the number of bytes it took, and whether the last byte was among them.\<close>

fun prefixed_int_loop :: "nat \<Rightarrow> u64 \<Rightarrow> bytes \<Rightarrow> (nat \<times> u64 \<times> nat \<times> bool) res" where
  "prefixed_int_loop shift n [] = Inr (shift, n, 0, False)"
| "prefixed_int_loop shift n (b # bs) =
     (let add = ucast b AND 0x7f in
      if shift > 62 then Inl XQC_QPACK_DECODER_VARINT_ERROR
      else if drop_bit shift XQC_QPACK_INT_MAX < add then Inl XQC_QPACK_DECODER_VARINT_ERROR
      else
        let add = push_bit shift add in
        if XQC_QPACK_INT_MAX - add < n then Inl XQC_QPACK_DECODER_VARINT_ERROR
        else if b AND 0x80 = 0 then Inr (shift, n + add, 1, True)
        else (case prefixed_int_loop (shift + 7) (n + add) bs of
                Inl e \<Rightarrow> Inl e
              | Inr (shift, n, k, fin) \<Rightarrow> Inr (shift, n, Suc k, fin)))"

definition prefixed_int_rest ::
    "xqc_prefixed_int \<Rightarrow> nat \<Rightarrow> u64 \<Rightarrow> nat \<Rightarrow> bytes \<Rightarrow> xqc_prefixed_int \<times> (nat \<times> bool) res" where
  "prefixed_int_rest pint shift n k bs =
     (case prefixed_int_loop shift n bs of
        Inl e \<Rightarrow> (pint, Inl e)
      | Inr (shift, n, j, fin) \<Rightarrow> (pint\<lparr>pi_shift := shift, pi_value := n\<rparr>, Inr (k + j, fin)))"

text \<open>The bytes from \<open>begin\<close> to \<open>end\<close>: the number of bytes taken and \<open>fin\<close>.\<close>

definition xqc_prefixed_int_read :: "xqc_prefixed_int \<Rightarrow> bytes \<Rightarrow> xqc_prefixed_int \<times> (nat \<times> bool) res" where
  "xqc_prefixed_int_read pint buf =
     (let pint = (if pi_prefix pint = 0 then pint\<lparr>pi_prefix := 8\<rparr> else pint);
          k = ucast (ucast (push_bit (pi_prefix pint) 1 - 1 :: u32) :: u8) :: u64;
          n = pi_value pint;
          shift = pi_shift pint;
          pint = pint\<lparr>pi_shift := 0\<rparr>
      in if n = 0 then
           (case buf of
              [] \<Rightarrow> (pint, Inl XQC_OVERREAD)
            | b # bs \<Rightarrow>
                if ucast b AND k \<noteq> k then (pint\<lparr>pi_value := ucast b AND k\<rparr>, Inr (1, True))
                else if bs = [] then (pint\<lparr>pi_value := k\<rparr>, Inr (1, False))
                else prefixed_int_rest pint shift k 1 bs)
         else prefixed_int_rest pint shift n 0 buf)"

function put_len_loop :: "u64 \<Rightarrow> nat \<Rightarrow> nat" where
  "put_len_loop n len = (if n \<ge> 128 then put_len_loop (drop_bit 7 n) (Suc len) else len)"
  by auto

lemma drop7_less: "(n :: u64) \<ge> 128 \<Longrightarrow> unat (drop_bit 7 n) < unat n"
  unfolding unat_drop_bit_eq unfolding drop_bit_eq_div by (simp add: word_le_nat_alt)

termination put_len_loop
  by (relation "measure (\<lambda>(n, len). unat n)") (auto simp: drop7_less)

definition xqc_prefixed_int_put_len :: "u64 \<Rightarrow> nat \<Rightarrow> nat" where
  "xqc_prefixed_int_put_len n prefix =
     (let k = push_bit prefix 1 - 1 in
      if n < k then 1 else put_len_loop (n - k) 1 + 1)"

function put_loop :: "u64 \<Rightarrow> bytes" where
  "put_loop n = (if n \<ge> 128 then ucast (0x80 OR (n AND 0x7f)) # put_loop (drop_bit 7 n) else [ucast n])"
  by auto

termination put_loop
  by (relation "measure unat") (auto simp: drop7_less)

text \<open>The bytes written at \<open>buf\<close>, of which the first one was \<open>b\<close>.\<close>

definition xqc_prefixed_int_put :: "u8 \<Rightarrow> u64 \<Rightarrow> nat \<Rightarrow> bytes" where
  "xqc_prefixed_int_put b n prefix =
     (let k = push_bit prefix 1 - 1 :: u64;
          b = ucast ((ucast b :: u64) AND NOT k) :: u8
      in if n < k then [ucast ((ucast b :: u64) OR n)]
         else ucast ((ucast b :: u64) OR k) # put_loop (n - k))"

declare put_len_loop.simps [simp del] put_loop.simps [simp del]

subsection \<open>The loop in numbers\<close>

lemma unat_int_max: "unat XQC_QPACK_INT_MAX = 2 ^ 62 - 1"
  by (simp add: XQC_QPACK_INT_MAX_def)

lemma unat_low7: "unat (ucast (b :: u8) AND 0x7f :: u64) = unat b mod 128"
proof -
  have "(ucast b AND 0x7f :: u64) = take_bit 7 (ucast b)" by (simp add: take_bit_eq_mask mask_numeral)
  then have "unat (ucast b AND 0x7f :: u64) = take_bit 7 (unat (ucast b :: u64))" by (simp only: unsigned_take_bit_eq)
  also have "unat (ucast b :: u64) = unat b"
    using unat_u8_less [of b] by (simp add: unsigned_ucast_eq take_bit_nat_eq_self)
  finally show ?thesis by (simp add: take_bit_eq_mod)
qed

lemma top_bit_clear: "(b :: u8) AND 0x80 = 0 \<longleftrightarrow> unat b < 128"
proof -
  have "b AND 0x80 = 0 \<longleftrightarrow> \<not> bit b 7"
    using and_exp_eq_0_iff_not_bit [of b 7] by simp
  also have "\<dots> \<longleftrightarrow> \<not> bit (unat b) 7" by (simp add: bit_unsigned_iff)
  also have "\<dots> \<longleftrightarrow> unat b < 128"
  proof -
    have "unat b div 128 = 0 \<or> unat b div 128 = 1" using unat_u8_less [of b] by linarith
    then show ?thesis by (auto simp: bit_iff_odd)
  qed
  finally show ?thesis .
qed

definition int_step :: "nat \<Rightarrow> nat \<Rightarrow> u8 \<Rightarrow> nat" where
  "int_step shift n b = n + (unat b mod 128) * 2 ^ shift"

lemma prefixed_int_loop_Cons:
  "prefixed_int_loop shift n (b # bs) =
     (if shift \<le> 62 \<and> int_step shift (unat n) b < 2 ^ 62 then
        (let n = of_nat (int_step shift (unat n) b) in
         if unat b < 128 then Inr (shift, n, 1, True)
         else (case prefixed_int_loop (shift + 7) n bs of
                Inl e \<Rightarrow> Inl e | Inr (shift, n, k, fin) \<Rightarrow> Inr (shift, n, Suc k, fin)))
      else Inl XQC_QPACK_DECODER_VARINT_ERROR)"
proof (cases "shift \<le> 62")
  case True
  let ?a = "ucast b AND 0x7f :: u64"
  let ?m = "unat b mod 128"
  have a: "unat ?a = ?m" by (rule unat_low7)
  have fit: "drop_bit shift XQC_QPACK_INT_MAX < ?a \<longleftrightarrow> \<not> ?m * 2 ^ shift < 2 ^ 62"
  proof -
    have "drop_bit shift XQC_QPACK_INT_MAX < ?a \<longleftrightarrow> (2 ^ 62 - 1) div 2 ^ shift < ?m"
      unfolding word_less_nat_alt unat_drop_bit_eq a unat_int_max unfolding drop_bit_eq_div ..
    also have "\<dots> \<longleftrightarrow> 2 ^ 62 - 1 < ?m * 2 ^ shift" by (rule div_less_iff_less_mult) simp
    finally show ?thesis by auto
  qed
  have push: "unat (push_bit shift ?a) = ?m * 2 ^ shift" if "?m * 2 ^ shift < 2 ^ 62"
    using that unfolding unsigned_push_bit_eq a by (simp add: push_bit_eq_mult take_bit_nat_eq_self)
  have big: "XQC_QPACK_INT_MAX - push_bit shift ?a < n \<longleftrightarrow> \<not> int_step shift (unat n) b < 2 ^ 62" if "?m * 2 ^ shift < 2 ^ 62"
    using that push [OF that] by (auto simp: word_less_nat_alt unat_sub word_le_nat_alt unat_int_max int_step_def)
  have sum: "n + push_bit shift ?a = of_nat (int_step shift (unat n) b)" if "int_step shift (unat n) b < 2 ^ 62"
  proof -
    have p: "unat (push_bit shift ?a) = ?m * 2 ^ shift" using that by (intro push) (simp add: int_step_def)
    have "of_nat (int_step shift (unat n) b) = n + of_nat (unat (push_bit shift ?a))" unfolding p by (simp add: int_step_def)
    then show ?thesis by (simp only: of_nat_unat unsigned_ucast_eq ucast_id)
  qed
  have small: "?m * 2 ^ shift < 2 ^ 62" if "int_step shift (unat n) b < 2 ^ 62" using that by (simp add: int_step_def)
  show ?thesis using True fit big sum small by (auto simp: Let_def top_bit_clear)
qed simp

lemma or_128: "(128 :: nat) OR x mod 128 = 128 + x mod 128"
proof -
  have "128 OR x mod 128 = set_bit 7 (take_bit 7 x)" by (simp add: set_bit_eq_or take_bit_eq_mod or.commute)
  also have "\<dots> = take_bit 7 x + 2 ^ 7" by (simp only: set_bit_eq bit_take_bit_iff) simp
  finally show ?thesis by (simp add: take_bit_eq_mod)
qed

lemma put_loop_byte: "unat (ucast (0x80 OR (m AND 0x7f) :: u64) :: u8) = 128 + unat m mod 128"
proof -
  have low: "(m AND 0x7f :: u64) = take_bit 7 m" by (simp add: take_bit_eq_mask mask_numeral)
  have "unat (m AND 0x7f) = unat m mod 128" unfolding low unsigned_take_bit_eq by (simp add: take_bit_eq_mod)
  then have "unat (0x80 OR (m AND 0x7f)) = 128 + unat m mod 128" using or_128 [of "unat m"] by (simp only: unsigned_or_eq) simp
  then show ?thesis unfolding unsigned_ucast_eq by (simp add: take_bit_nat_eq_self)
qed

lemma unat_drop7: "unat (drop_bit 7 (m :: u64)) = unat m div 128"
  unfolding unat_drop_bit_eq by (simp add: drop_bit_eq_div)

lemma loop_put:
  "unat n + unat m * 2 ^ shift < 2 ^ 62 \<Longrightarrow> shift \<le> 62 \<Longrightarrow>
   \<exists>s. prefixed_int_loop shift n (put_loop m @ rest) = Inr (s, of_nat (unat n + unat m * 2 ^ shift), length (put_loop m), True)"
proof (induction m arbitrary: n shift rule: put_loop.induct)
  case (1 m)
  show ?case
  proof (cases "128 \<le> m")
    case True
    let ?b = "ucast (0x80 OR (m AND 0x7f)) :: u8"
    have b: "unat ?b = 128 + unat m mod 128" by (rule put_loop_byte)
    have m: "128 \<le> unat m" using True by (simp add: word_le_nat_alt)
    have "(r + 128 * q) * 2 ^ shift = r * 2 ^ shift + q * 2 ^ (shift + 7)" for r q :: nat by (simp add: power_add algebra_simps)
    from this [of "unat m mod 128" "unat m div 128"]
    have sum: "unat n + unat m * 2 ^ shift = int_step shift (unat n) ?b + unat (drop_bit 7 m) * 2 ^ (shift + 7)"
      unfolding int_step_def b unat_drop7 by simp
    have step: "int_step shift (unat n) ?b < 2 ^ 62" using 1(2) sum by linarith
    then have n': "unat (of_nat (int_step shift (unat n) ?b) :: u64) = int_step shift (unat n) ?b"
      by (simp add: unsigned_of_nat take_bit_nat_eq_self)
    have "(2 :: nat) ^ (shift + 7) \<le> unat m * 2 ^ shift" using m by (simp add: power_add)
    then have "(2 :: nat) ^ (shift + 7) < 2 ^ 62" using 1(2) by linarith
    then have "shift + 7 < 62" by (simp only: power_strict_increasing_iff)
    then show ?thesis
      using 1(1) [OF True, of "of_nat (int_step shift (unat n) ?b)" "shift + 7"] 1(2,3) sum step b n' True
      by (auto simp: put_loop.simps [of m] prefixed_int_loop_Cons Let_def simp del: prefixed_int_loop.simps)
  next
    case False
    then have "unat m < 128" by (simp add: word_le_nat_alt)
    then have b: "unat (ucast m :: u8) = unat m" "unat m mod 128 = unat m" "unat m < 128"
      by (simp_all add: unsigned_ucast_eq take_bit_nat_eq_self)
    then show ?thesis using 1(2,3) False
      by (simp add: put_loop.simps [of m] prefixed_int_loop_Cons int_step_def Let_def del: prefixed_int_loop.simps)
  qed
qed

subsection \<open>Reading what was written\<close>

lemma mask_word: "(2 ^ p - 1 :: 'a::len word) = mask p"
  by (simp add: mask_eq_exp_minus_1)

lemma mask_prefix: "p \<le> 8 \<Longrightarrow> (ucast (ucast (mask p :: u32) :: u8) :: u64) = mask p"
  by (rule bit_eqI) (auto simp: bit_unsigned_iff bit_mask_iff)

lemma first_byte_low:
  assumes "p \<le> 8" "take_bit p n = (n :: u64)"
  shows "ucast (ucast ((ucast (ucast ((ucast (b :: u8) :: u64) AND NOT (mask p)) :: u8) :: u64) OR n) :: u8) AND mask p = n"
proof -
  have "i < p \<and> i < 8" if "bit n i" for i using assms that by (metis bit_take_bit_iff less_le_trans)
  then show ?thesis using assms(1)
    by (intro bit_eqI) (auto simp: bit_unsigned_iff bit_mask_iff bit_and_iff bit_or_iff bit_not_iff dest: bit_imp_le_length)
qed

lemma first_byte_high:
  assumes "take_bit p n = (n :: u64)" "p \<le> i" "i < 8"
  shows "bit (ucast ((ucast (ucast ((ucast (b :: u8) :: u64) AND NOT (mask p)) :: u8) :: u64) OR n) :: u8) i = bit b i"
proof -
  have "\<not> bit n i" using assms(1,2) by (metis bit_take_bit_iff not_le)
  then show ?thesis using assms(2,3) by (auto simp: bit_unsigned_iff bit_mask_iff bit_and_iff bit_or_iff bit_not_iff)
qed

lemma unat_mask64: "p \<le> 8 \<Longrightarrow> unat (mask p :: u64) = 2 ^ p - 1"
proof -
  assume "p \<le> 8"
  then have "unat (take_bit p (- 1) :: u64) = mask p"
    unfolding unsigned_take_bit_eq unsigned_minus_1_eq_mask by (simp add: take_bit_of_mask min_def)
  then show ?thesis by (simp add: take_bit_minus_one_eq_mask mask_eq_exp_minus_1)
qed

lemma take_bit_small: "unat (n :: u64) < 2 ^ p \<Longrightarrow> take_bit p n = n"
  by (rule word_unat_eq_iff [THEN iffD2]) (simp add: unsigned_take_bit_eq take_bit_nat_eq_self)

lemma put_nonempty: "xqc_prefixed_int_put b n p \<noteq> []"
  by (simp add: xqc_prefixed_int_put_def Let_def)

lemma put_loop_nonempty [simp]: "put_loop n \<noteq> []"
  by (subst put_loop.simps) simp

text \<open>The bits in front of the prefix stay as they were.\<close>

lemma put_keeps_high_bits:
  assumes "p \<le> i" "i < 8"
  shows "bit (hd (xqc_prefixed_int_put b n p)) i = bit b i"
proof (cases "n < mask p")
  case True
  have "p \<le> 8" using assms by simp
  then have "unat n < 2 ^ p" using True unat_mask64 [of p] by (simp add: word_less_nat_alt)
  then show ?thesis using True first_byte_high [OF take_bit_small, of n p i b] assms
    by (simp add: xqc_prefixed_int_put_def Let_def mask_word)
next
  case False
  have "take_bit p (mask p :: u64) = mask p" by (simp add: take_bit_eq_mask)
  then show ?thesis using False first_byte_high [of p "mask p" i b] assms
    by (simp add: xqc_prefixed_int_put_def Let_def mask_word)
qed

lemma prefixed_int_read_put:
  assumes "1 \<le> p" "p \<le> 8" "unat n < 2 ^ 62"
  shows "\<exists>s. xqc_prefixed_int_read (xqc_prefixed_int_init p) (xqc_prefixed_int_put b n p @ rest) =
    (\<lparr>pi_prefix = p, pi_shift = s, pi_value = n\<rparr>, Inr (length (xqc_prefixed_int_put b n p), True))"
proof (cases "n < mask p")
  case True
  have lt: "unat n < 2 ^ p" using True unat_mask64 [OF assms(2)] by (simp add: word_less_nat_alt)
  note low = first_byte_low [OF assms(2) take_bit_small [OF lt], of b]
  have "n \<noteq> mask p" using True by auto
  then show ?thesis using True assms low
    by (simp add: xqc_prefixed_int_put_def xqc_prefixed_int_read_def xqc_prefixed_int_init_def Let_def mask_word mask_prefix)
next
  case False
  have "take_bit p (mask p :: u64) = mask p" by (simp add: take_bit_eq_mask)
  note low = first_byte_low [OF assms(2) this, of b]
  have le: "mask p \<le> n" using False by simp
  then have sub: "unat (n - mask p) = unat n - unat (mask p :: u64)" by (simp add: unat_sub)
  have sum: "unat (mask p :: u64) + unat (n - mask p) = unat n" unfolding sub using le by (simp add: word_le_nat_alt)
  obtain s where "prefixed_int_loop 0 (mask p) (put_loop (n - mask p) @ rest) = Inr (s, n, length (put_loop (n - mask p)), True)"
    using loop_put [of "mask p" "n - mask p" 0 rest] sum assms(3) by auto
  then show ?thesis using False assms low
    by (simp add: xqc_prefixed_int_put_def xqc_prefixed_int_read_def xqc_prefixed_int_init_def Let_def mask_word mask_prefix prefixed_int_rest_def)
qed

lemma put_len_loop_length: "put_len_loop n l + 1 = l + length (put_loop n)"
proof (induction n l rule: put_len_loop.induct)
  case (1 n len)
  then show ?case by (subst put_len_loop.simps, subst put_loop.simps) auto
qed

lemma put_length: "length (xqc_prefixed_int_put b n p) = xqc_prefixed_int_put_len n p"
  using put_len_loop_length [of "n - (push_bit p 1 - 1)" 1]
  by (simp add: xqc_prefixed_int_put_def xqc_prefixed_int_put_len_def Let_def)

subsection \<open>Reading in pieces\<close>

lemma int_loop_more:
  "prefixed_int_loop shift n a = Inr (s, m, k, False) \<Longrightarrow>
   k = length a \<and> prefixed_int_loop shift n (a @ c) =
     (case prefixed_int_loop s m c of Inl e \<Rightarrow> Inl e | Inr (s, m, j, fin) \<Rightarrow> Inr (s, m, length a + j, fin))"
proof (induction a arbitrary: shift n k)
  case (Cons b a)
  obtain j where j: "prefixed_int_loop (shift + 7) (n + push_bit shift (ucast b AND 0x7f)) a = Inr (s, m, j, False)" "k = Suc j"
    using Cons.prems by (auto simp: Let_def split: if_splits sum.splits)
  show ?case using Cons.IH [OF j(1)] Cons.prems j
    by (auto simp: Let_def split: if_splits sum.splits)
qed (simp split: sum.splits prod.splits)

lemma int_loop_fin:
  "prefixed_int_loop shift n a = Inr (s, m, k, True) \<Longrightarrow> prefixed_int_loop shift n (a @ c) = Inr (s, m, k, True)"
proof (induction a arbitrary: shift n k)
  case (Cons b a)
  then show ?case by (auto simp: Let_def split: if_splits sum.splits)
qed simp

lemma int_loop_error:
  "prefixed_int_loop shift n a = Inl e \<Longrightarrow> prefixed_int_loop shift n (a @ c) = Inl e"
proof (induction a arbitrary: shift n)
  case (Cons b a)
  then show ?case by (auto simp: Let_def split: if_splits sum.splits)
qed simp

lemma int_step_ge: "n \<le> int_step shift n b"
  by (simp add: int_step_def)

lemma unat_small62: "x < 2 ^ 62 \<Longrightarrow> unat (of_nat x :: u64) = x"
  by (simp add: unsigned_of_nat take_bit_nat_eq_self)

lemma int_loop_grows:
  "prefixed_int_loop shift n a = Inr (s, m, k, f) \<Longrightarrow> unat n \<le> unat m \<and> k \<le> length a"
proof (induction a arbitrary: shift n k)
  case (Cons b a)
  show ?case
  proof (cases "unat b < 128")
    case True
    then show ?thesis using Cons.prems int_step_ge [of "unat n" shift b]
      by (auto simp: prefixed_int_loop_Cons Let_def unat_small62 simp del: prefixed_int_loop.simps split: if_splits)
  next
    case False
    then obtain j where "prefixed_int_loop (shift + 7) (of_nat (int_step shift (unat n) b)) a = Inr (s, m, j, f)" "k = Suc j"
        "int_step shift (unat n) b < 2 ^ 62"
      using Cons.prems by (auto simp: prefixed_int_loop_Cons Let_def simp del: prefixed_int_loop.simps split: if_splits sum.splits)
    then show ?thesis using Cons.IH [of "shift + 7" "of_nat (int_step shift (unat n) b)" j] int_step_ge [of "unat n" shift b]
      by (auto simp: unat_small62)
  qed
qed simp

definition good_prefix :: "xqc_prefixed_int \<Rightarrow> bool" where
  "good_prefix pint \<longleftrightarrow> 1 \<le> pi_prefix pint \<and> pi_prefix pint \<le> 8"

lemma read_good_prefix: "good_prefix pint \<Longrightarrow> xqc_prefixed_int_read pint a = (p1, r) \<Longrightarrow> pi_prefix p1 = pi_prefix pint"
  by (auto simp: good_prefix_def xqc_prefixed_int_read_def prefixed_int_rest_def Let_def split: if_splits list.splits sum.splits)

lemma mask_nonzero: "good_prefix pint \<Longrightarrow> (mask (pi_prefix pint) :: u64) \<noteq> 0"
  by (auto simp: good_prefix_def)

lemma read_eq:
  "good_prefix pint \<Longrightarrow> xqc_prefixed_int_read pint buf =
     (let p0 = pint\<lparr>pi_shift := 0\<rparr>; k = mask (pi_prefix pint) in
      if pi_value pint = 0 then
           (case buf of
              [] \<Rightarrow> (p0, Inl XQC_OVERREAD)
            | b # bs \<Rightarrow>
                if ucast b AND k \<noteq> k then (p0\<lparr>pi_value := ucast b AND k\<rparr>, Inr (1, True))
                else if bs = [] then (p0\<lparr>pi_value := k\<rparr>, Inr (1, False))
                else prefixed_int_rest p0 (pi_shift pint) k 1 bs)
         else prefixed_int_rest p0 (pi_shift pint) (pi_value pint) 0 buf)"
proof -
  assume g: "good_prefix pint"
  then have "(ucast (ucast (mask (pi_prefix pint) :: u32) :: u8) :: u64) = mask (pi_prefix pint)"
    by (intro mask_prefix) (simp add: good_prefix_def)
  then show ?thesis using g by (cases buf) (simp_all add: xqc_prefixed_int_read_def good_prefix_def Let_def mask_word)
qed

text \<open>A context is fresh, or at least one byte was read.\<close>

definition int_ctx_ok :: "xqc_prefixed_int \<Rightarrow> bool" where
  "int_ctx_ok pint \<longleftrightarrow> good_prefix pint \<and> (pi_value pint = 0 \<longrightarrow> pi_shift pint = 0)"

lemma int_rest_more:
  assumes "prefixed_int_rest p0 shift n k a = (p1, Inr (j, False))" "n \<noteq> 0"
  shows "j = k + length a \<and> pi_value p1 \<noteq> 0 \<and>
    prefixed_int_rest p0 shift n k (a @ c) =
      (case prefixed_int_rest (p1\<lparr>pi_shift := 0\<rparr>) (pi_shift p1) (pi_value p1) 0 c of
         (p2, Inl e) \<Rightarrow> (p0, Inl e)
       | (p2, Inr (i, fin)) \<Rightarrow> (p2, Inr (j + i, fin)))"
proof -
  obtain s m i where l: "prefixed_int_loop shift n a = Inr (s, m, i, False)" "p1 = p0\<lparr>pi_shift := s, pi_value := m\<rparr>" "j = k + i"
    using assms(1) by (auto simp: prefixed_int_rest_def split: sum.splits prod.splits)
  have "unat n \<noteq> 0" using assms(2) by (simp add: unat_eq_0)
  then have "m \<noteq> 0" using int_loop_grows [OF l(1)] by (metis le_zero_eq unat_0)
  then show ?thesis using int_loop_more [OF l(1), of c] l
    by (auto simp: prefixed_int_rest_def split: sum.splits prod.splits)
qed

lemma int_read_more:
  assumes "xqc_prefixed_int_read pint a = (p1, Inr (k, False))" "int_ctx_ok pint"
  shows "k = length a \<and> int_ctx_ok p1 \<and> pi_value p1 \<noteq> 0 \<and>
    xqc_prefixed_int_read pint (a @ c) =
      (case xqc_prefixed_int_read p1 c of
         (p2, Inl e) \<Rightarrow> (pint\<lparr>pi_shift := 0\<rparr>, Inl e)
       | (p2, Inr (j, fin)) \<Rightarrow> (p2, Inr (length a + j, fin)))"
proof -
  have g: "good_prefix pint" "pi_value pint = 0 \<Longrightarrow> pi_shift pint = 0" using assms(2) by (auto simp: int_ctx_ok_def)
  have g1: "good_prefix p1" using read_good_prefix [OF g(1) assms(1)] g(1) by (simp add: good_prefix_def)
  note k0 = mask_nonzero [OF g(1)]
  show ?thesis
  proof (cases "pi_value pint = 0")
    case False
    then have r: "prefixed_int_rest (pint\<lparr>pi_shift := 0\<rparr>) (pi_shift pint) (pi_value pint) 0 a = (p1, Inr (k, False))"
      using assms(1) by (simp add: read_eq [OF g(1)] Let_def)
    show ?thesis using int_rest_more [OF r False, of c] False g1 by (auto simp: read_eq [OF g(1)] read_eq [OF g1] int_ctx_ok_def Let_def)
  next
    case True
    let ?k = "mask (pi_prefix pint) :: u64"
    obtain b bs where a: "a = b # bs" "ucast b AND ?k = ?k"
      using assms(1) True by (auto simp: read_eq [OF g(1)] Let_def split: list.splits if_splits)
    show ?thesis
    proof (cases "bs = []")
      case T: True
      then have p1: "p1 = pint\<lparr>pi_shift := 0, pi_value := ?k\<rparr>" "k = 1"
        using assms(1) True a by (auto simp: read_eq [OF g(1)] Let_def)
      have "xqc_prefixed_int_read p1 c = prefixed_int_rest (pint\<lparr>pi_value := ?k, pi_shift := 0\<rparr>) 0 ?k 0 c"
        unfolding read_eq [OF g1] using p1 k0 by (simp add: Let_def)
      then show ?thesis using T True a p1 g g1 k0
        by (cases c) (auto simp: read_eq [OF g(1)] int_ctx_ok_def Let_def prefixed_int_rest_def split: sum.splits prod.splits)
    next
      case F: False
      then have r: "prefixed_int_rest (pint\<lparr>pi_shift := 0\<rparr>) (pi_shift pint) ?k 1 bs = (p1, Inr (k, False))"
        using assms(1) True a by (auto simp: read_eq [OF g(1)] Let_def)
      show ?thesis using int_rest_more [OF r k0, of c] True F a g1 by (auto simp: read_eq [OF g(1)] read_eq [OF g1] int_ctx_ok_def Let_def)
    qed
  qed
qed

lemma int_rest_fin:
  assumes "prefixed_int_rest p0 shift n k a = (p1, Inr (j, True))"
  shows "prefixed_int_rest p0 shift n k (a @ c) = (p1, Inr (j, True)) \<and> j \<le> k + length a"
proof -
  obtain s m i where l: "prefixed_int_loop shift n a = Inr (s, m, i, True)" "p1 = p0\<lparr>pi_shift := s, pi_value := m\<rparr>" "j = k + i"
    using assms by (auto simp: prefixed_int_rest_def split: sum.splits prod.splits)
  then show ?thesis using int_loop_fin [OF l(1), of c] int_loop_grows [OF l(1)] by (simp add: prefixed_int_rest_def)
qed

lemma int_rest_error:
  assumes "prefixed_int_rest p0 shift n k a = (p1, Inl e)"
  shows "prefixed_int_rest p0 shift n k (a @ c) = (p1, Inl e)"
proof -
  have l: "prefixed_int_loop shift n a = Inl e" "p1 = p0"
    using assms by (auto simp: prefixed_int_rest_def split: sum.splits prod.splits)
  then show ?thesis using int_loop_error [OF l(1), of c] by (simp add: prefixed_int_rest_def)
qed

lemma int_read_fin:
  assumes "xqc_prefixed_int_read pint a = (p1, Inr (k, True))" "int_ctx_ok pint"
  shows "xqc_prefixed_int_read pint (a @ c) = (p1, Inr (k, True)) \<and> k \<le> length a"
proof -
  have g: "good_prefix pint" using assms(2) by (simp add: int_ctx_ok_def)
  note r = read_eq [OF g, unfolded Let_def]
  show ?thesis
  proof (cases "pi_value pint = 0")
    case True
    then show ?thesis using assms(1) int_rest_fin [of "pint\<lparr>pi_shift := 0\<rparr>" "pi_shift pint" "mask (pi_prefix pint)" 1 "tl a" p1 k c]
      by (cases a) (auto simp: r split: if_splits)
  next
    case False
    then show ?thesis using assms(1) int_rest_fin [of "pint\<lparr>pi_shift := 0\<rparr>" "pi_shift pint" "pi_value pint" 0 a p1 k c]
      by (simp add: r)
  qed
qed

lemma int_read_error:
  assumes "xqc_prefixed_int_read pint a = (p1, Inl e)" "int_ctx_ok pint" "a \<noteq> []"
  shows "xqc_prefixed_int_read pint (a @ c) = (p1, Inl e)"
proof -
  have g: "good_prefix pint" using assms(2) by (simp add: int_ctx_ok_def)
  note r = read_eq [OF g, unfolded Let_def]
  show ?thesis
  proof (cases "pi_value pint = 0")
    case True
    then show ?thesis using assms(1,3) int_rest_error [of "pint\<lparr>pi_shift := 0\<rparr>" "pi_shift pint" "mask (pi_prefix pint)" 1 "tl a" p1 e c]
      by (cases a) (auto simp: r split: if_splits)
  next
    case False
    then show ?thesis using assms(1) int_rest_error [of "pint\<lparr>pi_shift := 0\<rparr>" "pi_shift pint" "pi_value pint" 0 a p1 e c]
      by (simp add: r)
  qed
qed

lemma int_ctx_init: "1 \<le> p \<Longrightarrow> p \<le> 8 \<Longrightarrow> int_ctx_ok (xqc_prefixed_int_init p)"
  by (simp add: int_ctx_ok_def good_prefix_def xqc_prefixed_int_init_def)

section \<open>Readers that take their input in pieces\<close>

text \<open>
  The interface of a reader with a context: a call either reads all of its input and is not done, or is done, or fails; what a call
  does on a longer input is determined by a call on the first part and one on the rest.
\<close>

locale chunked_reader =
  fixes read :: "'s \<Rightarrow> bytes \<Rightarrow> 's \<times> (nat \<times> bool) res"
    and ok :: "'s \<Rightarrow> bool"
  assumes read_more: "read s a = (s1, Inr (k, False)) \<Longrightarrow> ok s \<Longrightarrow> a \<noteq> [] \<Longrightarrow>
      k = length a \<and> ok s1 \<and> (\<forall>j f s2. read s1 c = (s2, Inr (j, f)) \<longrightarrow> read s (a @ c) = (s2, Inr (k + j, f)))
      \<and> (\<forall>e s2. read s1 c = (s2, Inl e) \<longrightarrow> snd (read s (a @ c)) = Inl e)"
    and read_done: "read s a = (s1, Inr (k, True)) \<Longrightarrow> ok s \<Longrightarrow> a \<noteq> [] \<Longrightarrow> read s (a @ c) = (s1, Inr (k, True))"
    and read_fails: "read s a = (s1, Inl e) \<Longrightarrow> ok s \<Longrightarrow> a \<noteq> [] \<Longrightarrow> snd (read s (a @ c)) = Inl e"
begin

text \<open>One call for each piece, until the reader is done or fails.\<close>

fun feed :: "'s \<Rightarrow> bytes list \<Rightarrow> 's \<times> (nat \<times> bool) res" where
  "feed s [] = (s, Inr (0, False))"
| "feed s (c # cs) =
     (case read s c of
        (s1, Inl e) \<Rightarrow> (s1, Inl e)
      | (s1, Inr (k, done)) \<Rightarrow>
          if done \<or> cs = [] then (s1, Inr (k, done))
          else (case feed s1 cs of (s2, Inl e) \<Rightarrow> (s2, Inl e) | (s2, Inr (j, f)) \<Rightarrow> (s2, Inr (k + j, f))))"

lemma feed_read:
  assumes "ok s" "cs \<noteq> []" "\<forall>c \<in> set cs. c \<noteq> []"
  shows "(\<forall>s' r. feed s cs = (s', Inr r) \<longrightarrow> read s (concat cs) = (s', Inr r))
    \<and> (\<forall>s' e. feed s cs = (s', Inl e) \<longrightarrow> snd (read s (concat cs)) = Inl e)"
  using assms
proof (induction cs arbitrary: s)
  case (Cons c cs)
  obtain s1 r where r: "read s c = (s1, r)" by fastforce
  show ?case
  proof (cases r)
    case (Inl e)
    then show ?thesis using r read_fails [of s c s1 e "concat cs"] Cons.prems by simp
  next
    case (Inr kf)
    obtain k f where kf: "kf = (k, f)" by (cases kf)
    show ?thesis
    proof (cases "f \<or> cs = []")
      case True
      then show ?thesis using r Inr kf read_done [of s c s1 k "concat cs"] Cons.prems by (cases f) auto
    next
      case False
      then have m: "k = length c" "ok s1" "\<And>s2 j f. read s1 (concat cs) = (s2, Inr (j, f)) \<Longrightarrow> read s (c @ concat cs) = (s2, Inr (k + j, f))"
          "\<And>s2 e. read s1 (concat cs) = (s2, Inl e) \<Longrightarrow> snd (read s (c @ concat cs)) = Inl e"
        using read_more [of s c s1 k "concat cs"] r Inr kf Cons.prems by auto
      have IH: "\<And>s' r. feed s1 cs = (s', Inr r) \<Longrightarrow> read s1 (concat cs) = (s', Inr r)"
          "\<And>s' e. feed s1 cs = (s', Inl e) \<Longrightarrow> snd (read s1 (concat cs)) = Inl e"
        using Cons.IH [OF m(2)] False Cons.prems by auto
      obtain s2 x where fd: "feed s1 cs = (s2, x)" by fastforce
      show ?thesis
      proof (cases x)
        case (Inl e)
        then obtain s3 where "read s1 (concat cs) = (s3, Inl e)" using IH(2) [of s2 e] fd by (metis prod.collapse)
        then show ?thesis using False r Inr kf fd Inl m(4) by simp
      next
        case x: (Inr jf)
        then show ?thesis using False r Inr kf fd m(3) IH(1) [of s2 jf] by (cases jf) simp
      qed
    qed
  qed
qed simp

text \<open>So a reading that succeeds in one call succeeds in pieces.\<close>

lemma feed_complete:
  assumes "ok s" "cs \<noteq> []" "\<forall>c \<in> set cs. c \<noteq> []" "read s (concat cs) = (s', Inr r)"
  shows "feed s cs = (s', Inr r)"
proof (cases "feed s cs")
  case (Pair s1 x)
  then show ?thesis using feed_read [OF assms(1-3)] assms(4) by (cases x) auto
qed

end

interpretation pint: chunked_reader xqc_prefixed_int_read int_ctx_ok
proof
  fix s a s1 k c
  assume a: "xqc_prefixed_int_read s a = (s1, Inr (k, False))" "int_ctx_ok s" "a \<noteq> []"
  from int_read_more [OF a(1,2), of c]
  show "k = length a \<and> int_ctx_ok s1
      \<and> (\<forall>j f s2. xqc_prefixed_int_read s1 c = (s2, Inr (j, f)) \<longrightarrow> xqc_prefixed_int_read s (a @ c) = (s2, Inr (k + j, f)))
      \<and> (\<forall>e s2. xqc_prefixed_int_read s1 c = (s2, Inl e) \<longrightarrow> snd (xqc_prefixed_int_read s (a @ c)) = Inl e)"
    by auto
qed (use int_read_fin int_read_error in \<open>auto simp: prod_eq_iff\<close>)

text \<open>C23: An integer of up to 62 bits that \<open>xqc_prefixed_int_put\<close> wrote behind any prefix is read back however its bytes are split over calls
  and whatever follows; exactly the bytes of the integer are consumed and their number is the one computed in advance.\<close>

theorem prefixed_int_roundtrip:
  assumes "1 \<le> p" "p \<le> 8" "unat n < 2 ^ 62" "concat cs = xqc_prefixed_int_put b n p @ rest" "\<forall>c \<in> set cs. c \<noteq> []"
  shows "\<exists>s. pint.feed (xqc_prefixed_int_init p) cs =
    (\<lparr>pi_prefix = p, pi_shift = s, pi_value = n\<rparr>, Inr (xqc_prefixed_int_put_len n p, True))"
proof -
  obtain s where s: "xqc_prefixed_int_read (xqc_prefixed_int_init p) (concat cs) =
      (\<lparr>pi_prefix = p, pi_shift = s, pi_value = n\<rparr>, Inr (xqc_prefixed_int_put_len n p, True))"
    using prefixed_int_read_put [OF assms(1-3), of b rest] unfolding assms(4) put_length by blast
  have "cs \<noteq> []" using assms(4) put_nonempty [of b n p] by auto
  then show ?thesis using pint.feed_complete [OF int_ctx_init [OF assms(1,2)] _ assms(5) s] by blast
qed

theorem prefixed_int_roundtrip_witness:
  "\<exists>s. pint.feed (xqc_prefixed_int_init 5) [[0xff], [0x9a], [0x0a, 0x07]] =
     (\<lparr>pi_prefix = 5, pi_shift = s, pi_value = 1337\<rparr>, Inr (xqc_prefixed_int_put_len 1337 5, True))
   \<and> xqc_prefixed_int_put 0xe0 1337 5 = [0xff, 0x9a, 0x0a]"
proof -
  have put: "xqc_prefixed_int_put 0xe0 1337 5 = [0xff, 0x9a, 0x0a]" by code_simp
  have "\<exists>s. pint.feed (xqc_prefixed_int_init 5) [[0xff], [0x9a], [0x0a, 0x07]] =
     (\<lparr>pi_prefix = 5, pi_shift = s, pi_value = 1337\<rparr>, Inr (xqc_prefixed_int_put_len 1337 5, True))"
    by (rule prefixed_int_roundtrip [of 5 1337 _ "0xe0" "[7]"]) (simp_all add: put)
  then show ?thesis using put by simp
qed

end
