(* ===== verification/Var_Buf.thy ===== *)
theory Var_Buf
  imports Ring_Array
begin

text \<open>
  The buffers that grow on demand, after \<^verbatim>\<open>src/common/utils/var_buf/xqc_var_buf.c\<close>. Lengths are natural numbers, since
  they are those of objects in memory; the limit is the \<open>size_t\<close> of the code, where 0 stands for no limit.
\<close>

declare pow2_loop.simps [code]

section \<open>The buffer and its operations\<close>

text \<open>
  \<open>vb_data\<close> is the whole block, so its length is \<open>buf_len\<close>. The allocator is a parameter: it fails, or gives the bytes that
  happen to be in the new block.
\<close>

record xqc_var_buf =
  vb_data :: bytes
  vb_data_len :: nat
  vb_consumed_len :: nat
  vb_fin_flag :: bool
  vb_limit :: u64

type_synonym allocator = "nat \<Rightarrow> (nat \<Rightarrow> u8) option"

definition SIZE_MAX :: u64 where
  "SIZE_MAX = - 1"

definition xqc_var_buf_create :: "allocator \<Rightarrow> nat \<Rightarrow> xqc_var_buf option" where
  "xqc_var_buf_create malloc capacity =
     (let capacity = (if capacity = 0 then 1 else capacity) in
      case malloc capacity of
        None \<Rightarrow> None
      | Some f \<Rightarrow> Some \<lparr>vb_data = map f [0..<capacity], vb_data_len = 0, vb_consumed_len = 0, vb_fin_flag = False,
                        vb_limit = SIZE_MAX\<rparr>)"

definition xqc_var_buf_clear :: "xqc_var_buf \<Rightarrow> xqc_var_buf" where
  "xqc_var_buf_clear buf = buf\<lparr>vb_data_len := 0, vb_consumed_len := 0, vb_fin_flag := False\<rparr>"

definition xqc_var_buf_realloc :: "allocator \<Rightarrow> xqc_var_buf \<Rightarrow> nat \<Rightarrow> xqc_var_buf \<times> unit res" where
  "xqc_var_buf_realloc malloc buf cap =
     (let limit = (if vb_limit buf = 0 then SIZE_MAX else vb_limit buf);
          buf = buf\<lparr>vb_limit := limit\<rparr>
      in if cap > unat limit then (buf, Inl XQC_EMALLOC)
         else
           (case xqc_pow2_upper (of_nat cap) of
              None \<Rightarrow> (buf, Inl XQC_EMALLOC)
            | Some capacity \<Rightarrow>
                if capacity = XQC_POW2_UPPER_ERROR then (buf, Inl XQC_EMALLOC)
                else
                  let capacity = unat (min capacity limit) in
                  (case malloc capacity of
                     None \<Rightarrow> (buf, Inl XQC_EMALLOC)
                   | Some f \<Rightarrow>
                       (buf\<lparr>vb_data := buf_write (map f [0..<capacity]) 0 (take (vb_data_len buf) (vb_data buf))\<rparr>, Inr ()))))"

definition xqc_var_buf_set_limit :: "allocator \<Rightarrow> xqc_var_buf \<Rightarrow> u64 \<Rightarrow> xqc_var_buf \<times> unit res" where
  "xqc_var_buf_set_limit malloc buf limit =
     (if unat limit < vb_data_len buf then (buf, Inl XQC_ERROR)
      else
        let buf = buf\<lparr>vb_limit := limit\<rparr> in
        if unat limit < length (vb_data buf) then xqc_var_buf_realloc malloc buf (unat limit) else (buf, Inr ()))"

definition xqc_var_buf_create_with_limit :: "allocator \<Rightarrow> nat \<Rightarrow> u64 \<Rightarrow> xqc_var_buf option" where
  "xqc_var_buf_create_with_limit malloc capacity limit =
     (case xqc_var_buf_create malloc capacity of
        None \<Rightarrow> None
      | Some p \<Rightarrow> Some (fst (xqc_var_buf_set_limit malloc p limit)))"

text \<open>The search for a power of two always ends, so the case without a result does not arise.\<close>

lemma pow2_upper_ge:
  assumes "xqc_pow2_upper n = Some c" "c \<noteq> XQC_POW2_UPPER_ERROR"
  shows "unat n \<le> unat c"
proof (cases "unat n \<le> 2 ^ 63")
  case True
  then obtain k where k: "k < 64" "xqc_pow2_upper n = Some (2 ^ k)" "unat n \<le> 2 ^ k" by (rule pow2_upper_ok)
  have "unat (2 ^ k :: u64) = 2 ^ k" using k(1) by (simp add: unat_pow2)
  then show ?thesis using assms(1) k by simp
next
  case False
  then show ?thesis using assms pow2_upper_big [of n] by (simp add: XQC_POW2_UPPER_ERROR_def)
qed

lemma realloc_cases:
  assumes "xqc_var_buf_realloc malloc buf cap = (buf', Inr u)"
  obtains c f where "cap \<le> c" "malloc c = Some f" "c \<le> unat (vb_limit buf')"
    "buf' = buf\<lparr>vb_limit := (if vb_limit buf = 0 then SIZE_MAX else vb_limit buf),
                vb_data := buf_write (map f [0..<c]) 0 (take (vb_data_len buf) (vb_data buf))\<rparr>"
proof -
  define lim where "lim = (if vb_limit buf = 0 then SIZE_MAX else vb_limit buf)"
  obtain c f where c: "cap \<le> unat lim" "xqc_pow2_upper (of_nat cap) = Some c" "c \<noteq> XQC_POW2_UPPER_ERROR"
      "malloc (unat (min c lim)) = Some f"
      "buf' = buf\<lparr>vb_limit := lim, vb_data := buf_write (map f [0..<unat (min c lim)]) 0 (take (vb_data_len buf) (vb_data buf))\<rparr>"
    using assms unfolding xqc_var_buf_realloc_def Let_def lim_def [symmetric]
    by (auto split: if_splits option.splits)
  have "unat lim < 2 ^ 64" using unsigned_less [of lim] by simp
  then have "unat (of_nat cap :: u64) = cap" using c(1) by (simp add: unsigned_of_nat take_bit_nat_eq_self)
  then have "cap \<le> unat (min c lim)" using pow2_upper_ge [OF c(2,3)] c(1) by (simp add: min_def)
  moreover have "unat (min c lim) \<le> unat lim" by (simp add: min_def word_le_nat_alt)
  ultimately show thesis using c(4,5) that [of "unat (min c lim)" f] by (auto simp: lim_def)
qed

lemma realloc_ok:
  assumes "xqc_var_buf_realloc malloc buf cap = (buf', Inr u)"
  shows "cap \<le> length (vb_data buf') \<and> vb_data_len buf' = vb_data_len buf"
  using assms by (rule realloc_cases) (auto simp: buf_write_def)

function xqc_var_buf_save_prepare :: "allocator \<Rightarrow> xqc_var_buf \<Rightarrow> nat \<Rightarrow> xqc_var_buf \<times> unit res" where
  "xqc_var_buf_save_prepare malloc buf n =
     (if vb_data_len buf + n > length (vb_data buf) then
        (case xqc_var_buf_realloc malloc buf (vb_data_len buf + n) of
           (buf, Inl e) \<Rightarrow> (buf, Inl e)
         | (buf, Inr _) \<Rightarrow> xqc_var_buf_save_prepare malloc buf n)
      else (buf, Inr ()))"
  by auto

termination xqc_var_buf_save_prepare
  by (relation "measure (\<lambda>(malloc, buf, n). vb_data_len buf + n - length (vb_data buf))") (auto dest!: sym [of "(_, _)"] realloc_ok)

declare xqc_var_buf_save_prepare.simps [simp del]

definition xqc_var_buf_save_data :: "allocator \<Rightarrow> xqc_var_buf \<Rightarrow> bytes \<Rightarrow> xqc_var_buf \<times> unit res" where
  "xqc_var_buf_save_data malloc buf data =
     (if data = [] then (buf, Inr ())
      else
        (case xqc_var_buf_save_prepare malloc buf (length data) of
           (buf, Inl e) \<Rightarrow> (buf, Inl e)
         | (buf, Inr _) \<Rightarrow>
             (buf\<lparr>vb_data := buf_write (vb_data buf) (vb_data_len buf) data, vb_data_len := vb_data_len buf + length data\<rparr>,
              Inr ())))"

section \<open>What the operations keep\<close>

definition vb_ok :: "xqc_var_buf \<Rightarrow> bool" where
  "vb_ok buf \<longleftrightarrow> vb_data_len buf \<le> length (vb_data buf)"

definition written :: "xqc_var_buf \<Rightarrow> bytes" where
  "written buf = take (vb_data_len buf) (vb_data buf)"

definition vb_room :: "xqc_var_buf \<Rightarrow> nat \<Rightarrow> bool" where
  "vb_room buf n \<longleftrightarrow> vb_data_len buf + n \<le> length (vb_data buf)"

lemma prepare_noop: "vb_room buf n \<Longrightarrow> xqc_var_buf_save_prepare malloc buf n = (buf, Inr ())"
  by (subst xqc_var_buf_save_prepare.simps) (simp add: vb_room_def)

lemma realloc_keeps:
  assumes "xqc_var_buf_realloc malloc buf cap = (buf', Inr u)" "vb_ok buf" "vb_data_len buf \<le> cap"
  shows "vb_ok buf' \<and> written buf' = written buf \<and> cap \<le> length (vb_data buf') \<and> vb_data_len buf' = vb_data_len buf"
  using assms(1)
proof (rule realloc_cases)
  fix c f
  assume "cap \<le> c" and b: "buf' = buf\<lparr>vb_limit := (if vb_limit buf = 0 then SIZE_MAX else vb_limit buf),
                vb_data := buf_write (map f [0..<c]) 0 (take (vb_data_len buf) (vb_data buf))\<rparr>"
  then show ?thesis using assms(2,3) unfolding b by (simp add: vb_ok_def written_def buf_write_def)
qed

lemma prepare_ok:
  assumes "xqc_var_buf_save_prepare malloc buf n = (buf', Inr u)" "vb_ok buf"
  shows "vb_ok buf' \<and> written buf' = written buf \<and> vb_data_len buf' = vb_data_len buf \<and> vb_room buf' n"
  using assms
proof (induction malloc buf n rule: xqc_var_buf_save_prepare.induct)
  case (1 malloc buf n)
  show ?case
  proof (cases "length (vb_data buf) < vb_data_len buf + n")
    case True
    obtain b1 r where r: "xqc_var_buf_realloc malloc buf (vb_data_len buf + n) = (b1, r)" by fastforce
    obtain u1 where u: "r = Inr u1" using 1(2) True r by (subst (asm) xqc_var_buf_save_prepare.simps) (auto split: sum.splits)
    have "vb_ok b1 \<and> written b1 = written buf \<and> vb_data_len b1 = vb_data_len buf"
      using realloc_keeps [of malloc buf "vb_data_len buf + n" b1 u1] r u 1(3) by simp
    moreover have "xqc_var_buf_save_prepare malloc b1 n = (buf', Inr u)"
      using 1(2) True r u by (subst (asm) xqc_var_buf_save_prepare.simps) simp
    ultimately show ?thesis using 1(1) [OF True _ _ ] r u by auto
  next
    case False
    then show ?thesis using 1(2,3) by (simp add: prepare_noop vb_room_def)
  qed
qed

lemma prepare_limit:
  assumes "xqc_var_buf_save_prepare malloc buf n = (buf', r)" "vb_limit buf \<noteq> 0"
  shows "vb_limit buf' = vb_limit buf \<and> (length (vb_data buf) \<le> unat (vb_limit buf) \<longrightarrow> vb_ok buf \<longrightarrow>
    length (vb_data buf') \<le> unat (vb_limit buf) \<and> vb_ok buf' \<and> vb_data_len buf' = vb_data_len buf)"
  using assms
proof (induction malloc buf n rule: xqc_var_buf_save_prepare.induct)
  case (1 malloc buf n)
  show ?case
  proof (cases "length (vb_data buf) < vb_data_len buf + n")
    case True
    obtain b1 r1 where r: "xqc_var_buf_realloc malloc buf (vb_data_len buf + n) = (b1, r1)" by fastforce
    show ?thesis
    proof (cases r1)
      case (Inl e)
      then have "b1 = buf" using r 1(3) by (auto simp: xqc_var_buf_realloc_def Let_def split: if_splits option.splits)
      then show ?thesis using 1(2) True r Inl by (subst (asm) xqc_var_buf_save_prepare.simps) auto
    next
      case (Inr u)
      have next1: "xqc_var_buf_save_prepare malloc b1 n = (buf', r)"
        using 1(2) True r Inr by (subst (asm) xqc_var_buf_save_prepare.simps) simp
      obtain c f where c: "vb_data_len buf + n \<le> c" "c \<le> unat (vb_limit b1)"
          "b1 = buf\<lparr>vb_limit := (if vb_limit buf = 0 then SIZE_MAX else vb_limit buf),
                vb_data := buf_write (map f [0..<c]) 0 (take (vb_data_len buf) (vb_data buf))\<rparr>"
        using realloc_cases [OF r [unfolded Inr]] by metis
      then have "vb_limit b1 = vb_limit buf" "vb_ok buf \<longrightarrow> length (vb_data b1) \<le> unat (vb_limit buf) \<and> vb_ok b1 \<and> vb_data_len b1 = vb_data_len buf"
        using 1(3) by (auto simp: buf_write_def vb_ok_def)
      then show ?thesis using 1(1) [OF True _ _ next1] r Inr 1(3) by auto
    qed
  next
    case False
    then show ?thesis using 1(2,3) by (simp add: prepare_noop vb_room_def)
  qed
qed

lemma prepare_succeeds:
  assumes "\<And>k. malloc k \<noteq> None" "vb_data_len buf + n \<le> unat (vb_limit buf)" "vb_data_len buf + n \<le> 2 ^ 63"
  shows "\<exists>buf'. xqc_var_buf_save_prepare malloc buf n = (buf', Inr ())"
proof (cases "vb_room buf n")
  case False
  then have lt: "length (vb_data buf) < vb_data_len buf + n" by (simp add: vb_room_def)
  define cap where "cap = vb_data_len buf + n"
  have z: "vb_limit buf \<noteq> 0" using assms(2) lt by auto
  have c: "unat (of_nat cap :: u64) = cap" using assms(3) by (simp add: cap_def [symmetric] unsigned_of_nat take_bit_nat_eq_self)
  obtain k where k: "k < 64" "xqc_pow2_upper (of_nat cap) = Some (2 ^ k)"
    using pow2_upper_ok [of "of_nat cap"] assms(3) unfolding c cap_def [symmetric] by blast
  have "(2 ^ k :: u64) \<noteq> 0" using unat_pow2 [OF k(1)] by (metis power_not_zero unat_0 zero_neq_numeral)
  moreover obtain f where "malloc (unat (min (2 ^ k) (vb_limit buf))) = Some f" using assms(1) by blast
  ultimately obtain b1 where r: "xqc_var_buf_realloc malloc buf cap = (b1, Inr ())"
    using k z assms(2) by (simp add: cap_def [symmetric] xqc_var_buf_realloc_def Let_def XQC_POW2_UPPER_ERROR_def)
  have "vb_room b1 n" using realloc_ok [OF r] by (simp add: vb_room_def cap_def)
  then show ?thesis using lt r by (subst xqc_var_buf_save_prepare.simps) (simp add: prepare_noop cap_def)
qed (simp add: prepare_noop)

lemma write_at_end:
  assumes "vb_room buf (length bs)" "vb_ok buf"
  shows "written (buf\<lparr>vb_data := buf_write (vb_data buf) (vb_data_len buf) bs, vb_data_len := vb_data_len buf + length bs\<rparr>) = written buf @ bs"
    "length (buf_write (vb_data buf) (vb_data_len buf) bs) = length (vb_data buf)"
  using assms by (simp_all add: written_def vb_room_def vb_ok_def buf_write_def)

lemma save_data_ok:
  assumes "xqc_var_buf_save_data malloc buf data = (buf', Inr u)" "vb_ok buf"
  shows "vb_ok buf' \<and> written buf' = written buf @ data \<and> vb_data_len buf' = vb_data_len buf + length data"
proof (cases "data = []")
  case False
  then obtain b1 where p: "xqc_var_buf_save_prepare malloc buf (length data) = (b1, Inr ())"
      "buf' = b1\<lparr>vb_data := buf_write (vb_data b1) (vb_data_len b1) data, vb_data_len := vb_data_len b1 + length data\<rparr>"
    using assms(1) by (auto simp: xqc_var_buf_save_data_def split: prod.splits sum.splits)
  have b1: "vb_ok b1" "written b1 = written buf" "vb_data_len b1 = vb_data_len buf" "vb_room b1 (length data)"
    using prepare_ok [OF p(1) assms(2)] by auto
  show ?thesis using write_at_end [OF b1(4,1)] b1 unfolding p(2) by (auto simp: vb_ok_def vb_room_def)
qed (use assms in \<open>auto simp: xqc_var_buf_save_data_def\<close>)

definition vb_inv :: "u64 \<Rightarrow> xqc_var_buf \<Rightarrow> bool" where
  "vb_inv limit buf \<longleftrightarrow> limit \<noteq> 0 \<and> vb_limit buf = limit \<and> vb_ok buf \<and> length (vb_data buf) \<le> unat limit"

lemma prepare_inv:
  assumes "xqc_var_buf_save_prepare malloc buf n = (buf', r)" "vb_inv limit buf"
  shows "vb_inv limit buf' \<and> vb_data_len buf' = vb_data_len buf \<and> (r = Inr () \<longrightarrow> vb_room buf' n)"
proof -
  have "vb_room buf' n" if "r = Inr ()" using prepare_ok [of malloc buf n buf' "()"] assms that by (simp add: vb_inv_def)
  then show ?thesis using prepare_limit [OF assms(1)] assms(2) by (simp add: vb_inv_def)
qed

lemma write_inv:
  "vb_inv limit buf \<Longrightarrow> vb_room buf (length bs) \<Longrightarrow>
   vb_inv limit (buf\<lparr>vb_data := buf_write (vb_data buf) (vb_data_len buf) bs, vb_data_len := vb_data_len buf + length bs\<rparr>)"
  by (simp add: vb_inv_def vb_room_def vb_ok_def)

lemma save_data_inv:
  assumes "xqc_var_buf_save_data malloc buf data = (buf', r)" "vb_inv limit buf"
  shows "vb_inv limit buf' \<and> vb_data_len buf' = vb_data_len buf + (if r = Inr () then length data else 0)"
proof (cases "data = []")
  case False
  obtain b1 r1 where p: "xqc_var_buf_save_prepare malloc buf (length data) = (b1, r1)" by fastforce
  then show ?thesis using prepare_inv [OF p assms(2)] assms(1) False write_inv [of limit b1 data]
    by (cases r1) (auto simp: xqc_var_buf_save_data_def)
qed (use assms in \<open>auto simp: xqc_var_buf_save_data_def\<close>)

lemma clear_inv: "vb_inv limit buf \<Longrightarrow> vb_inv limit (xqc_var_buf_clear buf)"
  by (simp add: vb_inv_def xqc_var_buf_clear_def vb_ok_def)

end
