(* ===== verification/Prefixed_Str.thy ===== *)
theory Prefixed_Str
  imports Huffman Prefixed_Int Var_Buf
begin

text \<open>
  The strings of QPACK, after \<^verbatim>\<open>src/http3/qpack/xqc_prefixed_str.c\<close>: a length behind a prefix and the bytes, plain or
  Huffman coded. The writer takes the shorter coding. The parser has a context and takes its input in pieces; the fall-through of
  its \<open>switch\<close> is the call of one stage by the other. The limits on the length of a string are those given when the context is created,
  \<^verbatim>\<open>XQC_H3_MAX_FIELD_SECTION_SIZE\<close> in the code, far below where the arithmetic of the C types would wrap around.
\<close>

section \<open>Strings with a prefixed length\<close>

definition xqc_write_prefixed_str :: "allocator \<Rightarrow> xqc_var_buf \<Rightarrow> bytes \<Rightarrow> nat \<Rightarrow> xqc_var_buf \<times> unit res" where
  "xqc_write_prefixed_str malloc buf str n =
     (let huff_len = xqc_huffman_enc_len str in
      if huff_len < length str then
        (case xqc_var_buf_save_prepare malloc buf (xqc_prefixed_int_put_len (of_nat huff_len) n + huff_len) of
           (buf, Inl e) \<Rightarrow> (buf, Inl e)
         | (buf, Inr _) \<Rightarrow>
             let pos = vb_data_len buf;
                 first = vb_data buf ! pos OR push_bit n 1;
                 ints = xqc_prefixed_int_put first (of_nat huff_len) n;
                 buf = buf\<lparr>vb_data := buf_write (vb_data buf) pos ints, vb_data_len := pos + length ints\<rparr>;
                 enc = xqc_huffman_enc str;
                 buf_len = length (vb_data buf);
                 buf = buf\<lparr>vb_data := buf_write (vb_data buf) (vb_data_len buf) enc, vb_data_len := vb_data_len buf + length enc\<rparr>
             in if vb_data_len buf > buf_len then (buf, Inl XQC_ERROR) else (buf, Inr ()))
      else
        (case xqc_var_buf_save_prepare malloc buf (xqc_prefixed_int_put_len (of_nat (length str)) n + length str) of
           (buf, Inl e) \<Rightarrow> (buf, Inl e)
         | (buf, Inr _) \<Rightarrow>
             let pos = vb_data_len buf;
                 first = vb_data buf ! pos AND NOT (push_bit n 1);
                 ints = xqc_prefixed_int_put first (of_nat (length str)) n;
                 buf = buf\<lparr>vb_data := buf_write (vb_data buf) pos ints, vb_data_len := pos + length ints\<rparr>
             in xqc_var_buf_save_data malloc buf str))"

datatype xqc_prefixed_str_stage = XQC_PS_STAGE_H | XQC_PS_STAGE_LEN | XQC_PS_STAGE_VALUE | XQC_PS_STAGE_FINISH

record xqc_prefixed_str =
  ps_huff_flag :: bool
  ps_len :: xqc_prefixed_int
  ps_used_len :: nat
  ps_value :: xqc_var_buf
  ps_stg :: xqc_prefixed_str_stage
  ps_huff_ctx :: xqc_huffman_dec_ctx
  ps_max_str_len :: nat



definition str_len_value :: "xqc_prefixed_str \<Rightarrow> nat" where
  "str_len_value ps = unat (pi_value (ps_len ps))"

text \<open>
  One pass of the loop over the Huffman coded bytes that have arrived: the number of bytes read. \<open>str_huff_read\<close> makes room and
  decodes; \<open>str_huff_step\<close> computes how many bytes are given to the decoder and how much room there has to be.
\<close>

definition str_huff_read :: "allocator \<Rightarrow> xqc_prefixed_str \<Rightarrow> bytes \<Rightarrow> nat \<Rightarrow> xqc_prefixed_str \<times> nat res" where
  "str_huff_read malloc ps src need =
     (case xqc_var_buf_save_prepare malloc (ps_value ps) need of
        (value, Inl e) \<Rightarrow> (ps\<lparr>ps_value := value\<rparr>, Inl QPACK_DECOMPRESSION_FAILED)
      | (value, Inr _) \<Rightarrow>
          (case xqc_huffman_dec (ps_huff_ctx ps) (length (vb_data value) - vb_data_len value) src
                  (ps_used_len ps + length src = str_len_value ps) of
             (ctx, Inl e) \<Rightarrow> (ps\<lparr>ps_value := value, ps_huff_ctx := ctx\<rparr>, Inl e)
           | (ctx, Inr (read, out)) \<Rightarrow>
               let ps = ps\<lparr>ps_value := value\<lparr>vb_data := buf_write (vb_data value) (vb_data_len value) out,
                                            vb_data_len := vb_data_len value + length out\<rparr>,
                           ps_huff_ctx := ctx, ps_used_len := ps_used_len ps + read\<rparr>
               in if vb_data_len (ps_value ps) > ps_max_str_len ps then (ps, Inl QPACK_DECOMPRESSION_FAILED)
                  else (ps, Inr read)))"

definition str_huff_step :: "allocator \<Rightarrow> xqc_prefixed_str \<Rightarrow> bytes \<Rightarrow> xqc_prefixed_str \<times> nat res" where
  "str_huff_step malloc ps bs =
     (let l = min (length bs) (str_len_value ps - ps_used_len ps) in
      if vb_data_len (ps_value ps) \<ge> ps_max_str_len ps + 1 then (ps, Inl QPACK_DECOMPRESSION_FAILED)
      else
        let remain_out = ps_max_str_len ps + 1 - vb_data_len (ps_value ps);
            need = (if 2 * l > remain_out then remain_out else 2 * l)
        in if need = 0 then (ps, Inl QPACK_DECOMPRESSION_FAILED) else str_huff_read malloc ps (take l bs) need)"

lemma dec_loop_progress:
  "huffman_dec_loop d ctx out src = (ctx', Inr (out', rest, full)) \<Longrightarrow> src \<noteq> [] \<Longrightarrow>
   length rest < length src \<or> rest = src \<and> high_bits ctx \<and> \<not> high_bits ctx'"
proof (cases src)
  case (Cons b bs)
  assume "huffman_dec_loop d ctx out src = (ctx', Inr (out', rest, full))"
  then show ?thesis using Cons
    by (auto simp: Let_def split: prod.splits sum.splits if_splits dest!: dec_loop_rest)
qed simp

lemma huff_step_progress:
  assumes "str_huff_step malloc ps bs = (ps', Inr read)"
  shows "0 < read \<and> bs \<noteq> [] \<or> high_bits (ps_huff_ctx ps) \<and> \<not> high_bits (ps_huff_ctx ps')"
proof -
  let ?src = "take (min (length bs) (str_len_value ps - ps_used_len ps)) bs"
  have ne: "?src \<noteq> []" using assms by (auto simp: str_huff_step_def Let_def split: if_splits)
  obtain need where n: "str_huff_read malloc ps ?src need = (ps', Inr read)"
    using assms by (auto simp: str_huff_step_def Let_def split: if_splits)
  obtain d fin ctx out where d: "xqc_huffman_dec (ps_huff_ctx ps) d ?src fin = (ctx, Inr (read, out))" "ps_huff_ctx ps' = ctx"
    using n by (auto simp: str_huff_read_def Let_def split: if_splits prod.splits sum.splits)
  then obtain rest full where "huffman_dec_loop d (ps_huff_ctx ps) [] ?src = (ctx, Inr (out, rest, full))" "read = length ?src - length rest"
    by (auto simp: xqc_huffman_dec_def split: if_splits prod.splits sum.splits)
  then show ?thesis using dec_loop_progress [of d "ps_huff_ctx ps" "[]" ?src ctx out rest full] d ne by auto
qed

lemma rest_shorter: "0 < n \<Longrightarrow> bs \<noteq> [] \<Longrightarrow> Suc (2 * (length bs - n)) < 2 * length bs"
  by (cases bs) auto

function str_huff_loop :: "allocator \<Rightarrow> xqc_prefixed_str \<Rightarrow> nat \<Rightarrow> bytes \<Rightarrow> xqc_prefixed_str \<times> nat res" where
  "str_huff_loop malloc ps k bs =
     (if bs = [] then (ps, Inr k)
      else
        (case str_huff_step malloc ps bs of
           (ps, Inl e) \<Rightarrow> (ps, Inl e)
         | (ps, Inr read) \<Rightarrow>
             if ps_used_len ps = str_len_value ps then (ps\<lparr>ps_stg := XQC_PS_STAGE_FINISH\<rparr>, Inr (k + read))
             else str_huff_loop malloc ps (k + read) (drop read bs)))"
  by auto

termination str_huff_loop
  by (relation "measure (\<lambda>(malloc, ps, k, bs). 2 * length bs + of_bool (high_bits (ps_huff_ctx ps)))")
     (auto dest!: sym [of "(_, _)"] huff_step_progress simp: rest_shorter)

declare str_huff_loop.simps [simp del]

definition str_value_stage ::
    "allocator \<Rightarrow> xqc_prefixed_str \<Rightarrow> nat \<Rightarrow> bytes \<Rightarrow> xqc_prefixed_str \<times> nat res" where
  "str_value_stage malloc ps k bs =
     (if \<not> ps_huff_flag ps then
        let l = min (length bs) (str_len_value ps - vb_data_len (ps_value ps)) in
        (case xqc_var_buf_save_data malloc (ps_value ps) (take l bs) of
           (value, Inl e) \<Rightarrow> (ps\<lparr>ps_value := value\<rparr>, Inl QPACK_DECOMPRESSION_FAILED)
         | (value, Inr _) \<Rightarrow>
             let ps = ps\<lparr>ps_value := value\<rparr> in
             (if vb_data_len value = str_len_value ps then ps\<lparr>ps_stg := XQC_PS_STAGE_FINISH\<rparr> else ps, Inr (k + l)))
      else str_huff_loop malloc ps k bs)"

definition str_len_stage :: "allocator \<Rightarrow> xqc_prefixed_str \<Rightarrow> bytes \<Rightarrow> xqc_prefixed_str \<times> nat res" where
  "str_len_stage malloc ps bs =
     (case xqc_prefixed_int_read (ps_len ps) bs of
        (pint, Inl e) \<Rightarrow> (ps\<lparr>ps_len := pint\<rparr>, Inl e)
      | (pint, Inr (read, fin)) \<Rightarrow>
          let ps = ps\<lparr>ps_len := pint\<rparr> in
          if fin then
            if str_len_value ps = 0 then (ps\<lparr>ps_stg := XQC_PS_STAGE_FINISH\<rparr>, Inr read)
            else if ps_huff_flag ps \<and> str_len_value ps > ps_max_str_len ps * 2 then (ps, Inl QPACK_DECOMPRESSION_FAILED)
            else if \<not> ps_huff_flag ps \<and> str_len_value ps > ps_max_str_len ps then (ps, Inl QPACK_DECOMPRESSION_FAILED)
            else
              let ps = ps\<lparr>ps_stg := XQC_PS_STAGE_VALUE\<rparr>;
                  ps = (if ps_huff_flag ps
                        then ps\<lparr>ps_huff_ctx := xqc_huffman_dec_ctx_init, ps_used_len := 0,
                                ps_value := xqc_var_buf_clear (ps_value ps)\<rparr>
                        else ps)
              in if drop read bs = [] then (ps, Inr read) else str_value_stage malloc ps read (drop read bs)
          else (ps, Inr read))"

definition str_finish :: "allocator \<Rightarrow> xqc_prefixed_str \<times> nat res \<Rightarrow> xqc_prefixed_str \<times> (nat \<times> bool) res" where
  "str_finish malloc r =
     (case r of
        (ps, Inl e) \<Rightarrow> (ps, Inl e)
      | (ps, Inr k) \<Rightarrow>
          if ps_stg ps = XQC_PS_STAGE_FINISH then
            (case xqc_var_buf_save_prepare malloc (ps_value ps) 1 of
               (value, Inl e) \<Rightarrow> (ps\<lparr>ps_value := value\<rparr>, Inl e)
             | (value, Inr _) \<Rightarrow>
                 (ps\<lparr>ps_value := value\<lparr>vb_data := buf_write (vb_data value) (vb_data_len value) [0]\<rparr>\<rparr>, Inr (k, True)))
          else (ps, Inr (k, False)))"

text \<open>The number of bytes consumed, and \<open>fin_flag\<close>.\<close>

definition xqc_parse_prefixed_str ::
    "allocator \<Rightarrow> xqc_prefixed_str \<Rightarrow> bytes \<Rightarrow> xqc_prefixed_str \<times> (nat \<times> bool) res" where
  "xqc_parse_prefixed_str malloc ps buf =
     str_finish malloc
       (case ps_stg ps of
          XQC_PS_STAGE_H \<Rightarrow>
            (case buf of
               [] \<Rightarrow> (ps, Inl XQC_OVERREAD)
             | b # _ \<Rightarrow>
                 str_len_stage malloc
                   (ps\<lparr>ps_huff_flag := b AND push_bit (pi_prefix (ps_len ps)) 1 \<noteq> 0, ps_stg := XQC_PS_STAGE_LEN\<rparr>) buf)
        | XQC_PS_STAGE_LEN \<Rightarrow> str_len_stage malloc ps buf
        | XQC_PS_STAGE_VALUE \<Rightarrow> str_value_stage malloc ps 0 buf
        | XQC_PS_STAGE_FINISH \<Rightarrow> (ps, Inl XQC_QPACK_STATE_ERROR))"

section \<open>Writing strings\<close>

definition pstr_bytes :: "u8 \<Rightarrow> bytes \<Rightarrow> nat \<Rightarrow> bytes" where
  "pstr_bytes b str n =
     (if xqc_huffman_enc_len str < length str
      then xqc_prefixed_int_put (b OR push_bit n 1) (of_nat (xqc_huffman_enc_len str)) n @ xqc_huffman_enc str
      else xqc_prefixed_int_put (b AND NOT (push_bit n 1)) (of_nat (length str)) n @ str)"

definition pstr_space :: "bytes \<Rightarrow> nat \<Rightarrow> nat" where
  "pstr_space str n = (let l = min (length str) (xqc_huffman_enc_len str) in xqc_prefixed_int_put_len (of_nat l) n + l)"

lemma length_pstr_bytes: "length (pstr_bytes b str n) = pstr_space str n"
  by (simp add: pstr_bytes_def pstr_space_def put_length enc_length Let_def min_def)

lemma write_prefixed_str_eq:
  assumes "vb_ok buf"
  shows "xqc_write_prefixed_str malloc buf str n =
     (case xqc_var_buf_save_prepare malloc buf (pstr_space str n) of
        (buf, Inl e) \<Rightarrow> (buf, Inl e)
      | (buf', Inr _) \<Rightarrow>
          let bs = pstr_bytes (vb_data buf' ! vb_data_len buf') str n in
          (buf'\<lparr>vb_data := buf_write (vb_data buf') (vb_data_len buf') bs, vb_data_len := vb_data_len buf' + length bs\<rparr>, Inr ()))"
proof -
  let ?n = "pstr_space str n"
  obtain b1 r where p: "xqc_var_buf_save_prepare malloc buf ?n = (b1, r)" by fastforce
  show ?thesis
  proof (cases r)
    case (Inl e)
    then show ?thesis using p by (simp add: xqc_write_prefixed_str_def pstr_space_def Let_def min_def split: if_splits)
  next
    case (Inr u)
    have b1: "vb_ok b1" "vb_room b1 ?n" using prepare_ok [of malloc buf ?n b1 u] p Inr assms by auto
    let ?b = "vb_data b1 ! vb_data_len b1"
    show ?thesis
    proof (cases "xqc_huffman_enc_len str < length str")
      case True
      let ?i = "xqc_prefixed_int_put (?b OR push_bit n 1) (of_nat (xqc_huffman_enc_len str)) n"
      have "buf_write (buf_write (vb_data b1) (vb_data_len b1) ?i) (vb_data_len b1 + length ?i) (xqc_huffman_enc str)
          = buf_write (vb_data b1) (vb_data_len b1) (?i @ xqc_huffman_enc str)"
        using b1 True by (intro buf_write_append) (simp add: vb_room_def pstr_space_def put_length min_def Let_def)
      then show ?thesis using p Inr True b1
        by (simp add: xqc_write_prefixed_str_def pstr_bytes_def pstr_space_def Let_def min_def vb_room_def put_length enc_length)
    next
      case False
      let ?i = "xqc_prefixed_int_put (?b AND NOT (push_bit n 1)) (of_nat (length str)) n"
      let ?b2 = "b1\<lparr>vb_data := buf_write (vb_data b1) (vb_data_len b1) ?i, vb_data_len := vb_data_len b1 + length ?i\<rparr>"
      have w: "buf_write (buf_write (vb_data b1) (vb_data_len b1) ?i) (vb_data_len b1 + length ?i) str
          = buf_write (vb_data b1) (vb_data_len b1) (?i @ str)"
        using b1 False by (intro buf_write_append) (simp add: vb_room_def pstr_space_def put_length min_def Let_def)
      have room: "vb_room ?b2 (length str)"
        using b1 False by (simp add: vb_room_def pstr_space_def put_length min_def Let_def length_buf_write)
      show ?thesis using p Inr False w prepare_noop [OF room, of malloc]
        by (simp add: xqc_write_prefixed_str_def xqc_var_buf_save_data_def pstr_bytes_def pstr_space_def Let_def min_def add.assoc)
    qed
  qed
qed

section \<open>Parsing what was written\<close>

text \<open>A context in front of a string, with room for strings of the permitted length.\<close>

definition str_fresh :: "nat \<Rightarrow> xqc_prefixed_str \<Rightarrow> bool" where
  "str_fresh n ps \<longleftrightarrow>
     ps_stg ps = XQC_PS_STAGE_H \<and> ps_len ps = xqc_prefixed_int_init n \<and> vb_data_len (ps_value ps) = 0
     \<and> ps_max_str_len ps < unat (vb_limit (ps_value ps)) \<and> ps_max_str_len ps < 2 ^ 60"

lemma bit_test: "(b :: u8) AND push_bit n 1 \<noteq> 0 \<longleftrightarrow> bit b n"
  by (simp add: push_bit_eq_mult and_exp_eq_0_iff_not_bit)

lemma huff_step_complete:
  assumes "\<And>k. malloc k \<noteq> None" "str \<noteq> []" "length str \<le> ps_max_str_len ps"
    "ps_max_str_len ps < unat (vb_limit (ps_value ps))" "ps_max_str_len ps < 2 ^ 60"
    "vb_data_len (ps_value ps) = 0" "ps_used_len ps = 0" "ps_huff_ctx ps = xqc_huffman_dec_ctx_init"
    "str_len_value ps = xqc_huffman_enc_len str"
  shows "\<exists>ctx value. str_huff_step malloc ps (xqc_huffman_enc str @ rest) =
      (ps\<lparr>ps_value := value, ps_huff_ctx := ctx, ps_used_len := xqc_huffman_enc_len str\<rparr>, Inr (xqc_huffman_enc_len str))
    \<and> vb_ok value \<and> written value = str \<and> vb_limit value = vb_limit (ps_value ps)"
proof -
  let ?l = "xqc_huffman_enc_len str"
  define need where "need = (if 2 * ?l > ps_max_str_len ps + 1 then ps_max_str_len ps + 1 else 2 * ?l)"
  have need: "length str < need" "need \<le> ps_max_str_len ps + 1"
    using enc_length_bounds [of str] assms(2,3) by (auto simp: need_def)
  obtain v where v: "xqc_var_buf_save_prepare malloc (ps_value ps) need = (v, Inr ())"
    using prepare_succeeds [of malloc "ps_value ps" need] assms need by auto
  have v': "vb_ok v" "vb_data_len v = 0" "need \<le> length (vb_data v)"
    using prepare_ok [OF v] assms(6) by (auto simp: vb_ok_def vb_room_def)
  obtain ctx where d: "xqc_huffman_dec xqc_huffman_dec_ctx_init (length (vb_data v)) (xqc_huffman_enc str) True = (ctx, Inr (?l, str))"
    using dec_iff_enc [of str "length (vb_data v)" "xqc_huffman_enc str"] need v' by (auto simp: enc_length)
  have "vb_limit (ps_value ps) \<noteq> 0" using assms(4) by (cases "vb_limit (ps_value ps) = 0") simp_all
  then have lim: "vb_limit v = vb_limit (ps_value ps)" using prepare_limit [OF v] by blast
  have l: "min (length (xqc_huffman_enc str @ rest)) (str_len_value ps - ps_used_len ps) = ?l" using assms by (simp add: enc_length)
  have t: "take ?l (xqc_huffman_enc str @ rest) = xqc_huffman_enc str" by (simp add: enc_length)
  have n: "(if 2 * ?l > ps_max_str_len ps + 1 - vb_data_len (ps_value ps) then ps_max_str_len ps + 1 - vb_data_len (ps_value ps)
      else 2 * ?l) = need" using assms(6) by (simp add: need_def)
  have "need \<noteq> 0" using need by simp
  then have "str_huff_step malloc ps (xqc_huffman_enc str @ rest) =
      (ps\<lparr>ps_value := v\<lparr>vb_data := buf_write (vb_data v) 0 str, vb_data_len := length str\<rparr>, ps_huff_ctx := ctx, ps_used_len := ?l\<rparr>, Inr ?l)"
    unfolding str_huff_step_def str_huff_read_def Let_def l n t using assms v v' d by (simp add: enc_length)
  moreover have "vb_ok (v\<lparr>vb_data := buf_write (vb_data v) 0 str, vb_data_len := length str\<rparr>)"
      "written (v\<lparr>vb_data := buf_write (vb_data v) 0 str, vb_data_len := length str\<rparr>) = str"
    using v' need by (auto simp: vb_ok_def written_def buf_write_def)
  ultimately show ?thesis using lim by fastforce
qed

definition str_done :: "bytes \<Rightarrow> xqc_prefixed_str \<Rightarrow> xqc_prefixed_str \<Rightarrow> bool" where
  "str_done str ps ps' \<longleftrightarrow>
     ps_stg ps' = XQC_PS_STAGE_FINISH \<and> vb_ok (ps_value ps') \<and> written (ps_value ps') = str
     \<and> vb_limit (ps_value ps') = vb_limit (ps_value ps) \<and> ps_max_str_len ps' = ps_max_str_len ps"

lemma finish_done:
  assumes "\<And>k. malloc k \<noteq> None" "str_done str ps ps1" "length str \<le> ps_max_str_len ps"
    "ps_max_str_len ps < unat (vb_limit (ps_value ps))" "ps_max_str_len ps < 2 ^ 60"
  shows "\<exists>ps'. str_finish malloc (ps1, Inr k) = (ps', Inr (k, True)) \<and> str_done str ps ps'"
proof -
  have v: "vb_ok (ps_value ps1)" "written (ps_value ps1) = str" "vb_data_len (ps_value ps1) = length str"
      "vb_limit (ps_value ps1) = vb_limit (ps_value ps)"
    using assms(2) by (auto simp: str_done_def written_def vb_ok_def)
  obtain v' where v': "xqc_var_buf_save_prepare malloc (ps_value ps1) 1 = (v', Inr ())"
    using prepare_succeeds [of malloc "ps_value ps1" 1] assms v by auto
  have "vb_limit (ps_value ps1) \<noteq> 0" using assms(4) v(4) by (cases "vb_limit (ps_value ps1) = 0") simp_all
  then have lim: "vb_limit v' = vb_limit (ps_value ps1)" using prepare_limit [OF v'] by blast
  have "vb_ok v'" "written v' = str" "vb_data_len v' = length str" "vb_room v' 1" using prepare_ok [OF v' v(1)] v by auto
  then show ?thesis using assms(2) v' lim v
    by (auto simp: str_finish_def str_done_def written_def vb_ok_def vb_room_def)
qed

lemma of_nat_len: "k < 2 ^ 60 \<Longrightarrow> unat (of_nat k :: u64) = k"
  by (simp add: unsigned_of_nat take_bit_nat_eq_self)

lemma parse_length:
  assumes "ps_stg ps = XQC_PS_STAGE_H" "ps_len ps = xqc_prefixed_int_init n" "i \<noteq> []"
    "xqc_prefixed_int_read (xqc_prefixed_int_init n) (i @ tail) = (pint, Inr (length i, True))"
    "0 < unat (pi_value pint)" "unat (pi_value pint) \<le> (if bit (hd i) n then 2 * ps_max_str_len ps else ps_max_str_len ps)" "tail \<noteq> []"
  shows "xqc_parse_prefixed_str malloc ps (i @ tail) = str_finish malloc
     (if bit (hd i) n
      then str_huff_loop malloc
            (ps\<lparr>ps_huff_flag := True, ps_len := pint, ps_stg := XQC_PS_STAGE_VALUE, ps_huff_ctx := xqc_huffman_dec_ctx_init,
                ps_used_len := 0, ps_value := xqc_var_buf_clear (ps_value ps)\<rparr>) (length i) tail
      else str_value_stage malloc (ps\<lparr>ps_huff_flag := False, ps_len := pint, ps_stg := XQC_PS_STAGE_VALUE\<rparr>) (length i) tail)"
proof -
  obtain h t where i: "i = h # t" using assms(3) by (cases i) auto
  have p: "pi_prefix (xqc_prefixed_int_init n) = n" by (simp add: xqc_prefixed_int_init_def)
  show ?thesis
  proof (cases "bit h n")
    case True
    then show ?thesis using assms unfolding i
      by (simp add: xqc_parse_prefixed_str_def str_len_stage_def str_value_stage_def str_len_value_def Let_def p bit_test [simplified])
  next
    case False
    then show ?thesis using assms unfolding i
      by (simp add: xqc_parse_prefixed_str_def str_len_stage_def str_len_value_def Let_def p bit_test [simplified])
  qed
qed

lemma parse_huff:
  assumes "\<And>k. malloc k \<noteq> None" "str_fresh n ps" "1 \<le> n" "n \<le> 7" "length str \<le> ps_max_str_len ps"
    "xqc_huffman_enc_len str < length str"
  shows "\<exists>ps'. xqc_parse_prefixed_str malloc ps (pstr_bytes b str n @ rest) = (ps', Inr (pstr_space str n, True)) \<and> str_done str ps ps'"
proof -
  let ?l = "xqc_huffman_enc_len str"
  let ?i = "xqc_prefixed_int_put (b OR push_bit n 1) (of_nat ?l) n"
  have fresh: "ps_stg ps = XQC_PS_STAGE_H" "ps_len ps = xqc_prefixed_int_init n" "vb_data_len (ps_value ps) = 0"
      "ps_max_str_len ps < unat (vb_limit (ps_value ps))" "ps_max_str_len ps < 2 ^ 60"
    using assms(2) by (auto simp: str_fresh_def)
  have l60: "?l < 2 ^ 60" "?l \<le> ps_max_str_len ps * 2" using assms(5,6) fresh(5) by auto
  have str: "str \<noteq> []" using assms(6) by auto
  have enc: "xqc_huffman_enc str \<noteq> []" using enc_length_bounds(2) [OF str] enc_length [of str] by auto
  have flag: "bit (hd ?i) n"
    using put_keeps_high_bits [of n n "b OR push_bit n 1" "of_nat ?l"] assms(4) by (simp add: bit_or_iff bit_exp_iff)
  obtain s where rd: "xqc_prefixed_int_read (xqc_prefixed_int_init n) (?i @ xqc_huffman_enc str @ rest) =
      (\<lparr>pi_prefix = n, pi_shift = s, pi_value = of_nat ?l\<rparr>, Inr (length ?i, True))"
    using prefixed_int_read_put [of n "of_nat ?l" "b OR push_bit n 1" "xqc_huffman_enc str @ rest"] assms(3,4) l60 of_nat_len [OF l60(1)] by auto
  define ps1 where "ps1 = ps\<lparr>ps_huff_flag := True, ps_len := \<lparr>pi_prefix = n, pi_shift = s, pi_value = of_nat ?l\<rparr>, ps_stg := XQC_PS_STAGE_VALUE,
     ps_huff_ctx := xqc_huffman_dec_ctx_init, ps_used_len := 0, ps_value := xqc_var_buf_clear (ps_value ps)\<rparr>"
  have p1: "ps_max_str_len ps1 = ps_max_str_len ps" "vb_limit (ps_value ps1) = vb_limit (ps_value ps)" "vb_data_len (ps_value ps1) = 0"
      "ps_used_len ps1 = 0" "ps_huff_ctx ps1 = xqc_huffman_dec_ctx_init"
    by (simp_all add: ps1_def xqc_var_buf_clear_def)
  have v1: "str_len_value ps1 = ?l" using of_nat_len [OF l60(1)] by (simp add: ps1_def str_len_value_def)
  obtain ctx v2 where step: "str_huff_step malloc ps1 (xqc_huffman_enc str @ rest) =
      (ps1\<lparr>ps_value := v2, ps_huff_ctx := ctx, ps_used_len := ?l\<rparr>, Inr ?l)"
      "vb_ok v2" "written v2 = str" "vb_limit v2 = vb_limit (ps_value ps1)"
    using huff_step_complete [where malloc = malloc and ps = ps1 and rest = rest, OF assms(1) str] p1 assms(5) fresh v1 by auto
  let ?ps2 = "ps1\<lparr>ps_value := v2, ps_huff_ctx := ctx, ps_used_len := ?l, ps_stg := XQC_PS_STAGE_FINISH\<rparr>"
  have "str_huff_loop malloc ps1 (length ?i) (xqc_huffman_enc str @ rest) = (?ps2, Inr (length ?i + ?l))"
    using enc step(1) v1 by (subst str_huff_loop.simps) (simp add: str_len_value_def)
  then have "xqc_parse_prefixed_str malloc ps (pstr_bytes b str n @ rest) = str_finish malloc (?ps2, Inr (length ?i + ?l))"
    using parse_length [OF fresh(1,2) put_nonempty rd, of malloc] flag l60 of_nat_len [OF l60(1)] enc assms(6) enc_length_bounds(2) [OF str]
    by (simp add: pstr_bytes_def ps1_def)
  moreover have "str_done str ps ?ps2" using step by (simp add: str_done_def ps1_def xqc_var_buf_clear_def)
  ultimately show ?thesis using finish_done [where malloc = malloc, OF assms(1) _ assms(5) fresh(4,5)] assms(6)
    by (simp add: pstr_space_def put_length min_def Let_def)
qed

lemma parse_plain:
  assumes "\<And>k. malloc k \<noteq> None" "str_fresh n ps" "1 \<le> n" "n \<le> 7" "length str \<le> ps_max_str_len ps"
    "\<not> xqc_huffman_enc_len str < length str" "str \<noteq> []"
  shows "\<exists>ps'. xqc_parse_prefixed_str malloc ps (pstr_bytes b str n @ rest) = (ps', Inr (pstr_space str n, True)) \<and> str_done str ps ps'"
proof -
  let ?l = "length str"
  let ?i = "xqc_prefixed_int_put (b AND NOT (push_bit n 1)) (of_nat ?l) n"
  have fresh: "ps_stg ps = XQC_PS_STAGE_H" "ps_len ps = xqc_prefixed_int_init n" "vb_data_len (ps_value ps) = 0"
      "ps_max_str_len ps < unat (vb_limit (ps_value ps))" "ps_max_str_len ps < 2 ^ 60"
    using assms(2) by (auto simp: str_fresh_def)
  have l60: "?l < 2 ^ 60" using assms(5) fresh(5) by auto
  have flag: "\<not> bit (hd ?i) n"
    using put_keeps_high_bits [of n n "b AND NOT (push_bit n 1)" "of_nat ?l"] assms(4)
    by (simp add: bit_and_iff bit_not_iff bit_exp_iff)
  obtain s where rd: "xqc_prefixed_int_read (xqc_prefixed_int_init n) (?i @ str @ rest) =
      (\<lparr>pi_prefix = n, pi_shift = s, pi_value = of_nat ?l\<rparr>, Inr (length ?i, True))"
    using prefixed_int_read_put [of n "of_nat ?l" "b AND NOT (push_bit n 1)" "str @ rest"] assms(3,4) l60 of_nat_len [OF l60] by auto
  define ps1 where "ps1 = ps\<lparr>ps_huff_flag := False, ps_len := \<lparr>pi_prefix = n, pi_shift = s, pi_value = of_nat ?l\<rparr>, ps_stg := XQC_PS_STAGE_VALUE\<rparr>"
  have p1: "\<not> ps_huff_flag ps1" "ps_value ps1 = ps_value ps" "str_len_value ps1 = ?l" "ps_max_str_len ps1 = ps_max_str_len ps"
    using of_nat_len [OF l60] by (simp_all add: ps1_def str_len_value_def)
  obtain v0 where v0: "xqc_var_buf_save_prepare malloc (ps_value ps) ?l = (v0, Inr ())"
    using prepare_succeeds [of malloc "ps_value ps" ?l] assms fresh l60 by auto
  then obtain v where v: "xqc_var_buf_save_data malloc (ps_value ps) str = (v, Inr ())"
    using assms(7) by (simp add: xqc_var_buf_save_data_def)
  have ok: "vb_ok (ps_value ps)" "written (ps_value ps) = []" using fresh(3) by (simp_all add: vb_ok_def written_def)
  have "vb_limit (ps_value ps) \<noteq> 0" using fresh(4) by (cases "vb_limit (ps_value ps) = 0") simp_all
  then have lim: "vb_limit v = vb_limit (ps_value ps)"
    using prepare_limit [OF v0] v v0 assms(7) by (auto simp: xqc_var_buf_save_data_def)
  have v': "vb_ok v" "written v = str" "vb_data_len v = ?l" using save_data_ok [OF v ok(1)] ok fresh(3) by simp_all
  let ?ps2 = "ps1\<lparr>ps_value := v, ps_stg := XQC_PS_STAGE_FINISH\<rparr>"
  have "str_value_stage malloc ps1 (length ?i) (str @ rest) = (?ps2, Inr (length ?i + ?l))"
    using p1 fresh(3) v v' by (simp add: str_value_stage_def Let_def str_len_value_def)
  then have "xqc_parse_prefixed_str malloc ps (pstr_bytes b str n @ rest) = str_finish malloc (?ps2, Inr (length ?i + ?l))"
    using parse_length [OF fresh(1,2) put_nonempty rd, of malloc] flag of_nat_len [OF l60] assms(5-7)
    by (simp add: pstr_bytes_def ps1_def)
  moreover have "str_done str ps ?ps2" using v' lim by (simp add: str_done_def ps1_def)
  ultimately show ?thesis using finish_done [where malloc = malloc, OF assms(1) _ assms(5) fresh(4,5)] assms(6)
    by (simp add: pstr_space_def put_length min_def Let_def)
qed

lemma parse_empty:
  assumes "\<And>k. malloc k \<noteq> None" "str_fresh n ps" "1 \<le> n" "n \<le> 7"
  shows "\<exists>ps'. xqc_parse_prefixed_str malloc ps (pstr_bytes b [] n @ rest) = (ps', Inr (pstr_space [] n, True)) \<and> str_done [] ps ps'"
proof -
  let ?i = "xqc_prefixed_int_put (b AND NOT (push_bit n 1)) 0 n"
  have fresh: "ps_stg ps = XQC_PS_STAGE_H" "ps_len ps = xqc_prefixed_int_init n" "vb_data_len (ps_value ps) = 0"
      "ps_max_str_len ps < unat (vb_limit (ps_value ps))" "ps_max_str_len ps < 2 ^ 60"
    using assms(2) by (auto simp: str_fresh_def)
  obtain s where rd: "xqc_prefixed_int_read (xqc_prefixed_int_init n) (?i @ rest) =
      (\<lparr>pi_prefix = n, pi_shift = s, pi_value = 0\<rparr>, Inr (length ?i, True))"
    using prefixed_int_read_put [of n 0 "b AND NOT (push_bit n 1)" rest] assms(3,4) by auto
  obtain h t where i: "?i = h # t" using put_nonempty by (meson neq_Nil_conv)
  define ps1 where "ps1 = ps\<lparr>ps_huff_flag := h AND push_bit n 1 \<noteq> 0, ps_len := \<lparr>pi_prefix = n, pi_shift = s, pi_value = 0\<rparr>, ps_stg := XQC_PS_STAGE_FINISH\<rparr>"
  have p: "pi_prefix (xqc_prefixed_int_init n) = n" by (simp add: xqc_prefixed_int_init_def)
  have "xqc_parse_prefixed_str malloc ps (?i @ rest) = str_finish malloc (ps1, Inr (length ?i))"
    using fresh rd unfolding i by (simp add: xqc_parse_prefixed_str_def str_len_stage_def str_len_value_def ps1_def p Let_def)
  moreover have "str_done [] ps ps1" using fresh by (simp add: str_done_def ps1_def vb_ok_def written_def)
  ultimately show ?thesis using finish_done [where malloc = malloc and str = "[]", OF assms(1) _ _ fresh(4,5)]
    by (simp add: pstr_bytes_def pstr_space_def put_length Let_def)
qed

lemma parse_pstr:
  assumes "\<And>k. malloc k \<noteq> None" "str_fresh n ps" "1 \<le> n" "n \<le> 7" "length str \<le> ps_max_str_len ps"
  shows "\<exists>ps'. xqc_parse_prefixed_str malloc ps (pstr_bytes b str n @ rest) = (ps', Inr (pstr_space str n, True)) \<and> str_done str ps ps'"
proof (cases "str = []")
  case True
  then show ?thesis using parse_empty [where malloc = malloc, OF assms(1-4)] by simp
next
  case False
  then show ?thesis using parse_plain [where malloc = malloc, OF assms] parse_huff [where malloc = malloc, OF assms] by blast
qed

lemma write_prefixed_str_ok:
  assumes "xqc_write_prefixed_str malloc buf str n = (buf', Inr u)" "vb_ok buf"
  shows "\<exists>b. written buf' = written buf @ pstr_bytes b str n \<and> vb_ok buf' \<and> (vb_room buf (pstr_space str n) \<longrightarrow> b = vb_data buf ! vb_data_len buf)"
proof -
  obtain b1 u where p: "xqc_var_buf_save_prepare malloc buf (pstr_space str n) = (b1, Inr u)"
    using assms by (auto simp: write_prefixed_str_eq split: prod.splits sum.splits)
  let ?b = "vb_data b1 ! vb_data_len b1"
  have b1: "vb_ok b1" "written b1 = written buf" "vb_room b1 (length (pstr_bytes ?b str n))"
    using prepare_ok [OF p assms(2)] by (auto simp: length_pstr_bytes)
  have buf': "buf' = b1\<lparr>vb_data := buf_write (vb_data b1) (vb_data_len b1) (pstr_bytes ?b str n),
      vb_data_len := vb_data_len b1 + length (pstr_bytes ?b str n)\<rparr>"
    using assms p by (simp add: write_prefixed_str_eq Let_def)
  have "vb_ok buf'" using write_at_end(2) [OF b1(3,1)] b1(3) unfolding buf' by (simp add: vb_ok_def vb_room_def)
  moreover have "vb_room buf (pstr_space str n) \<Longrightarrow> b1 = buf" using p prepare_noop [of buf "pstr_space str n" malloc] by simp
  ultimately show ?thesis using write_at_end(1) [OF b1(3,1)] b1(2) unfolding buf' by auto
qed

text \<open>C21: What \<open>xqc_write_prefixed_str\<close> appends to a buffer is parsed back to the string, whichever of the two codings the writer chose,
  whatever bits stood in front of the prefix and whatever follows in the input; exactly the bytes that were written are consumed.\<close>

theorem prefixed_str_roundtrip:
  assumes "xqc_write_prefixed_str malloc buf str n = (buf', Inr u)" "vb_ok buf" "1 \<le> n" "n \<le> 7"
    "\<And>k. malloc' k \<noteq> None" "str_fresh n ps" "length str \<le> ps_max_str_len ps"
  shows "\<exists>bs ps'. written buf' = written buf @ bs
    \<and> xqc_parse_prefixed_str malloc' ps (bs @ rest) = (ps', Inr (length bs, True)) \<and> written (ps_value ps') = str"
proof -
  obtain b where "written buf' = written buf @ pstr_bytes b str n" using write_prefixed_str_ok [OF assms(1,2)] by blast
  moreover obtain ps' where "xqc_parse_prefixed_str malloc' ps (pstr_bytes b str n @ rest) = (ps', Inr (pstr_space str n, True))"
      "str_done str ps ps'"
    using parse_pstr [where malloc = malloc', OF assms(5,6,3,4,7)] by blast
  ultimately show ?thesis by (auto simp: length_pstr_bytes str_done_def)
qed

section \<open>Bounds\<close>



















theorem prefixed_str_roundtrip_witness:
  "\<exists>bs ps'. xqc_write_prefixed_str (\<lambda>k. None) \<lparr>vb_data = replicate 4 0, vb_data_len = 1, vb_consumed_len = 0, vb_fin_flag = False, vb_limit = 0\<rparr> [48, 49, 50] 7 =
     (\<lparr>vb_data = [0] @ bs, vb_data_len = 4, vb_consumed_len = 0, vb_fin_flag = False, vb_limit = 0\<rparr>, Inr ()) \<and>
     xqc_parse_prefixed_str (\<lambda>k. Some (\<lambda>i. 0xaa))
       \<lparr>ps_huff_flag = False, ps_len = xqc_prefixed_int_init 7, ps_used_len = 0,
        ps_value = \<lparr>vb_data = [0], vb_data_len = 0, vb_consumed_len = 0, vb_fin_flag = False, vb_limit = 17\<rparr>,
        ps_stg = XQC_PS_STAGE_H, ps_huff_ctx = xqc_huffman_dec_ctx_init, ps_max_str_len = 16\<rparr> (bs @ [7]) = (ps', Inr (length bs, True)) \<and>
     written (ps_value ps') = [48, 49, 50]"
proof -
  have w: "xqc_write_prefixed_str (\<lambda>k. None) \<lparr>vb_data = replicate 4 0, vb_data_len = 1, vb_consumed_len = 0, vb_fin_flag = False, vb_limit = 0\<rparr> [48, 49, 50] 7 =
     (\<lparr>vb_data = [0, 0x82, 0x00, 0x45], vb_data_len = 4, vb_consumed_len = 0, vb_fin_flag = False, vb_limit = 0\<rparr>, Inr ())"
    by code_simp
  have "\<exists>bs ps'. written \<lparr>vb_data = [0, 0x82, 0x00, 0x45], vb_data_len = 4, vb_consumed_len = 0, vb_fin_flag = False, vb_limit = 0\<rparr> =
      written \<lparr>vb_data = replicate 4 0, vb_data_len = 1, vb_consumed_len = 0, vb_fin_flag = False, vb_limit = 0\<rparr> @ bs \<and>
      xqc_parse_prefixed_str (\<lambda>k. Some (\<lambda>i. 0xaa))
       \<lparr>ps_huff_flag = False, ps_len = xqc_prefixed_int_init 7, ps_used_len = 0,
        ps_value = \<lparr>vb_data = [0], vb_data_len = 0, vb_consumed_len = 0, vb_fin_flag = False, vb_limit = 17\<rparr>,
        ps_stg = XQC_PS_STAGE_H, ps_huff_ctx = xqc_huffman_dec_ctx_init, ps_max_str_len = 16\<rparr> (bs @ [7]) = (ps', Inr (length bs, True)) \<and>
      written (ps_value ps') = [48, 49, 50]"
    by (rule prefixed_str_roundtrip [OF w]) (simp_all add: vb_ok_def str_fresh_def)
  then show ?thesis unfolding w by (simp add: written_def)
qed



end
