(* ===== verification/Retry.thy ===== *)
theory Retry
  imports Packet_Header
begin

text \<open>
  Address validation with Retry packets: what the server writes with \<open>xqc_gen_retry_packet\<close>, the client accepts in
  \<open>xqc_packet_parse_retry\<close> (transport/xqc_packet_parser.c); and what the client does with a Retry packet that it
  must discard.
\<close>

section \<open>Retry packets\<close>

lemma retry_tag_length:
  "xqc_conn_gen_retry_integrity_tag env v od n r = Inr tag \<Longrightarrow> length tag = XQC_RETRY_INTEGRITY_TAG_LEN"
  by (auto simp: xqc_conn_gen_retry_integrity_tag_def Let_def split: if_splits option.splits)

lemma gen_retry_tag_cong:
  "take n od = take n od' \<Longrightarrow>
   xqc_conn_gen_retry_integrity_tag env v od n r = xqc_conn_gen_retry_integrity_tag env v od' n r"
  by (simp add: xqc_conn_gen_retry_integrity_tag_def)

definition retry_fields :: "bytes \<Rightarrow> bytes \<Rightarrow> u32 \<Rightarrow> bytes" where
  "retry_fields dcid scid ver =
     [0xF0] @ be_bytes 4 (ucast ver) @ of_nat (length dcid) # dcid @ of_nat (length scid) # scid"


text \<open>The part of \<open>xqc_packet_parse_retry\<close> behind its checks.\<close>

lemma parse_retry_bytes:
  assumes buf: "pi_buf pi = pre @ token @ tag" and pos: "pi_pos pi = length pre" "pi_last pi = length (pi_buf pi)"
    and len: "0 < length token" "length token \<le> XQC_MAX_TOKEN_LEN" "length tag = XQC_RETRY_INTEGRITY_TAG_LEN"
    and cl: "conn_type c = XQC_CONN_TYPE_CLIENT" and ne: "\<not> xqc_cid_is_equal (original_dcid c) (pkt_scid (pi_pkt pi))"
    and fl: "conn_flag c AND XQC_CONN_FLAG_RETRY_RECVD = 0" "conn_flag c AND XQC_CONN_FLAG_INIT_RECVD = 0"
    and tag': "xqc_conn_gen_retry_integrity_tag env (conn_version c) (cid_buf (original_dcid c)) (unat (cid_len (original_dcid c))) (pre @ token) = Inr tag'"
  defines "c1 \<equiv> c\<lparr>conn_token := buf_write (conn_token c) 0 token, conn_token_len := length token\<rparr>"
    and "pi1 \<equiv> pkt_set (\<lambda>p. p\<lparr>pkt_type := XQC_PTYPE_RETRY\<rparr>) pi"
  shows "xqc_packet_parse_retry env c pi =
    (if tag' = tag then (case xqc_conn_on_recv_retry env c1 (pkt_scid (pi_pkt pi)) of (c', r) \<Rightarrow> (c', pi1\<lparr>pi_last := pi_last pi\<rparr>, r))
     else (c1, pi1\<lparr>pi_pos := pi_last pi\<rparr>, Inr ()))"
proof -
  have l: "pi_last pi - pi_pos pi = length token + 16" "length (pi_buf pi) = length pre + length token + 16"
    using len(3) by (simp_all add: pos buf XQC_RETRY_INTEGRITY_TAG_LEN_def)
  have cal: "xqc_conn_cal_retry_integrity_tag env d pi1 = Inr tag'"
    if "conn_version d = conn_version c" "original_dcid d = original_dcid c" for d
    using tag' l that by (simp add: xqc_conn_cal_retry_integrity_tag_def pi1_def XQC_RETRY_INTEGRITY_TAG_LEN_def buf)
  have tk: "take (length token) (drop (pi_pos pi) (pi_buf pi)) = token"
    "take XQC_RETRY_INTEGRITY_TAG_LEN (drop (pi_pos pi + length token) (pi_buf pi)) = tag"
    using len(3) by (simp_all add: pos buf)
  have fin: "pi_pos pi + length token + 16 = pi_last pi" using l pos by simp
  have p1: "pi_pos pi1 = pi_pos pi" "pi_last pi1 = pi_last pi" "pi_buf pi1 = pi_buf pi" "pkt_scid (pi_pkt pi1) = pkt_scid (pi_pkt pi)"
    by (simp_all add: pi1_def)
  have t16: "length tag' = 16" using retry_tag_length [OF tag'] by (simp add: XQC_RETRY_INTEGRITY_TAG_LEN_def)
  have c1: "conn_version c1 = conn_version c" "original_dcid c1 = original_dcid c" by (simp_all add: c1_def)
  have n: "XQC_RETRY_INTEGRITY_TAG_LEN = 16" by (rule XQC_RETRY_INTEGRITY_TAG_LEN_def)
  have "\<not> pi_last pi - pi_pos pi < 16 + 1" "pi_last pi - pi_pos pi - 16 = length token" using l len by simp_all
  then show ?thesis
    unfolding xqc_packet_parse_retry_def Let_def left_size pi1_def [symmetric] p1 n
    using cl ne fl len(2) t16 tk(2) by (simp add: tk(1) c1_def [symmetric] cal [OF c1] n fin p1 split: prod.splits)
qed

lemma retry_header_steps:
  assumes buf: "pi_buf pi = retry_fields dcid scid ver @ rest" and pos: "pi_pos pi = 0" "pi_last pi = length (pi_buf pi)"
    and len: "length dcid \<le> XQC_MAX_CID_LEN" "length scid \<le> XQC_MAX_CID_LEN" and ver: "ver \<noteq> 0"
    and cl: "conn_type c = XQC_CONN_TYPE_CLIENT" and fl: "conn_flag c AND XQC_CONN_FLAG_DCID_OK = 0"
    and cids: "length (cid_buf (pkt_scid (pi_pkt pi))) = XQC_MAX_CID_LEN"
  obtains pi2 where "xqc_packet_parse_long_header env c pi = xqc_packet_parse_retry env c pi2"
    and "pi_buf pi2 = pi_buf pi" and "pi_last pi2 = pi_last pi" and "pi_pos pi2 = length (retry_fields dcid scid ver)"
    and "cid_holds (pkt_scid (pi_pkt pi2)) scid"
proof -
  let ?pi0 = "pi\<lparr>pi_path_id := XQC_INITIAL_PATH_ID\<rparr>" and ?vf = "be_bytes 4 (ucast ver)"
  have buf': "pi_buf pi = (0xF0 # ?vf) @ of_nat (length dcid) # dcid @ of_nat (length scid) # scid @ rest"
    by (simp add: buf retry_fields_def)
  have v: "xqc_parse_uint32 (drop (pi_pos pi + 1) (pi_buf pi)) = ver"
    by (simp add: pos buf' parse_uint32_be_bytes)
  have fb0: "pi_buf pi ! pi_pos pi = 0xF0" by (simp add: pos buf')
  have ty: "long_type pi = 3" unfolding long_type_def v fb0 using ver by (simp add: XQC_PACKET_LONG_HEADER_GET_TYPE_def)
  have 7: "\<not> pi_last pi - pi_pos pi < 7" by (simp add: pos buf')
  define pi1 where "pi1 = pkt_set (\<lambda>p. p\<lparr>pkt_dcid := (pkt_dcid p)\<lparr>cid_len := of_nat (length dcid), cid_path_id := XQC_INITIAL_PATH_ID,
                       cid_buf := buf_write (cid_buf (pkt_dcid p)) 0 dcid\<rparr>,
                     pkt_scid := (pkt_scid p)\<lparr>cid_len := of_nat (length scid), cid_path_id := XQC_INITIAL_PATH_ID,
                       cid_buf := buf_write (cid_buf (pkt_scid p)) 0 scid\<rparr>\<rparr>) ?pi0"
  let ?p2 = "7 + length dcid + length scid"
  have pc: "parse_long_cids c ?pi0 (pi_pos pi + 5) = (pi1, Inr ?p2)"
    using parse_long_cids_bytes [of ?pi0 "0xF0 # ?vf" dcid scid rest c] buf' pos len by (simp add: pi1_def)
  have vc: "xqc_conn_version_check c ver = (c, Inr ())" using cl by (simp add: xqc_conn_version_check_def)
  have "xqc_packet_parse_long_header env c pi = xqc_packet_parse_retry env c (pi1\<lparr>pi_pos := ?p2\<rparr>)"
    unfolding parse_long_header_steps Let_def pc prod.case sum.case v fb0 ty
    using 7 ver fl vc by (simp add: and.commute [of "conn_flag c"] long_packet_switch_def)
  moreover have "cid_holds (pkt_scid (pi_pkt pi1)) scid"
    using cids len by (simp add: pi1_def cid_holds_def buf_write_def)
  ultimately show thesis using that [of "pi1\<lparr>pi_pos := ?p2\<rparr>"] by (simp add: pi1_def retry_fields_def)
qed

lemma cid_holds_equal:
  assumes "cid_holds a as" "cid_holds b bs" "length as < 256" "length bs < 256"
  shows "xqc_cid_is_equal a b \<longleftrightarrow> as = bs"
proof -
  have "unat (of_nat (length as) :: u8) = length as" "unat (of_nat (length bs) :: u8) = length bs" using assms by (simp_all add: unat_small)
  then have "(of_nat (length as) :: u8) = of_nat (length bs) \<longleftrightarrow> length as = length bs" by metis
  with assms show ?thesis by (auto simp: xqc_cid_is_equal_def cid_holds_def unat_small)
qed

text \<open>A client that waits for the answer to its first Initial packet, and a packet just received.\<close>

definition awaits_retry :: "'a xqc_conn_hdr_scheme \<Rightarrow> bytes \<Rightarrow> bool" where
  "awaits_retry c odcid \<longleftrightarrow> conn_type c = XQC_CONN_TYPE_CLIENT \<and> cid_holds (original_dcid c) odcid
     \<and> length odcid \<le> XQC_MAX_CID_LEN \<and> conn_flag c AND XQC_CONN_FLAG_RETRY_RECVD = 0
     \<and> conn_flag c AND XQC_CONN_FLAG_INIT_RECVD = 0 \<and> conn_flag c AND XQC_CONN_FLAG_DCID_OK = 0"

definition pi_fresh :: "'b xqc_packet_in_hdr_scheme \<Rightarrow> bytes \<Rightarrow> bool" where
  "pi_fresh pi d \<longleftrightarrow> pi_buf pi = d \<and> pi_pos pi = 0 \<and> pi_last pi = length d
     \<and> length (cid_buf (pkt_dcid (pi_pkt pi))) = XQC_MAX_CID_LEN \<and> length (cid_buf (pkt_scid (pi_pkt pi))) = XQC_MAX_CID_LEN"

lemma parse_retry_packet:
  assumes c: "awaits_retry c odcid" and pi: "pi_fresh pi (retry_fields dcid scid ver @ token @ tag)"
    and len: "length dcid \<le> XQC_MAX_CID_LEN" "length scid \<le> XQC_MAX_CID_LEN" "0 < length token" "length token \<le> XQC_MAX_TOKEN_LEN"
      "length tag = XQC_RETRY_INTEGRITY_TAG_LEN"
    and ne: "scid \<noteq> odcid" "ver \<noteq> 0"
    and tag': "xqc_conn_gen_retry_integrity_tag env (conn_version c) odcid (length odcid) (retry_fields dcid scid ver @ token) = Inr tag'"
  defines "c1 \<equiv> c\<lparr>conn_token := buf_write (conn_token c) 0 token, conn_token_len := length token\<rparr>"
  shows "\<exists>pi' cid. cid_holds cid scid \<and> pi_last pi' = pi_last pi \<and> xqc_packet_parse_long_header env c pi =
    (if tag' = tag then (case xqc_conn_on_recv_retry env c1 cid of (c', r) \<Rightarrow> (c', pi', r)) else (c1, pi', Inr ()))"
proof -
  have m: "XQC_MAX_CID_LEN < 256" by (simp add: XQC_MAX_CID_LEN_def)
  obtain pi2 where st: "xqc_packet_parse_long_header env c pi = xqc_packet_parse_retry env c pi2"
    and p2: "pi_buf pi2 = pi_buf pi" "pi_last pi2 = pi_last pi" "pi_pos pi2 = length (retry_fields dcid scid ver)"
      "cid_holds (pkt_scid (pi_pkt pi2)) scid"
    by (rule retry_header_steps [of pi dcid scid ver "token @ tag" c env])
      (use c pi len ne in \<open>simp_all add: awaits_retry_def pi_fresh_def\<close>)
  have ne': "\<not> xqc_cid_is_equal (original_dcid c) (pkt_scid (pi_pkt pi2))"
    using cid_holds_equal [of "original_dcid c" odcid, OF _ p2(4)] c ne(1) len(2) m by (auto simp: awaits_retry_def)
  have ol: "unat (cid_len (original_dcid c)) = length odcid" "take (length odcid) (cid_buf (original_dcid c)) = odcid"
    using c m by (simp_all add: awaits_retry_def cid_holds_def unat_small)
  have "xqc_conn_gen_retry_integrity_tag env (conn_version c) (cid_buf (original_dcid c)) (unat (cid_len (original_dcid c)))
      (retry_fields dcid scid ver @ token) = Inr tag'"
    unfolding ol(1) using gen_retry_tag_cong [of "length odcid" "cid_buf (original_dcid c)" odcid env] ol tag' by simp
  note pr = parse_retry_bytes [OF _ p2(3) _ len(3-5) _ ne' _ _ this]
  show ?thesis
    by (rule exI [of _ "if tag' = tag then (pkt_set (\<lambda>p. p\<lparr>pkt_type := XQC_PTYPE_RETRY\<rparr>) pi2)\<lparr>pi_last := pi_last pi2\<rparr>
          else (pkt_set (\<lambda>p. p\<lparr>pkt_type := XQC_PTYPE_RETRY\<rparr>) pi2)\<lparr>pi_pos := pi_last pi2\<rparr>"], rule exI [of _ "pkt_scid (pi_pkt pi2)"])
      (use pr p2 c pi in \<open>auto simp: st awaits_retry_def pi_fresh_def c1_def\<close>)
qed

text \<open>Sample states: a client that has sent its first Initial packet to the identifier \<open>[1..8]\<close>, and a received packet.\<close>

definition retry_env_example :: "unit retry_env" where
  "retry_env_example = \<lparr>cal_retry_integrity_tag = (\<lambda>p v. Some (replicate 16 (of_nat (length p)))), datagram_record_mss = id,
     tls_reset_initial = (\<lambda>c cid. (c, Inr ())), send_ctl_reset = id, resend_packets = (\<lambda>c. (c, Inr ()))\<rparr>"

lemma pi_hdr_example_fresh: "pi_fresh (pi_hdr_example d) d"
  by (simp add: pi_fresh_def pi_hdr_example_def xqc_cid_init_zero_def)

lemma cid_example_holds: "length bs \<le> XQC_MAX_CID_LEN \<Longrightarrow> cid_holds (cid_example bs) bs"
proof -
  assume l: "length bs \<le> XQC_MAX_CID_LEN"
  then have u: "unat (of_nat (length bs) :: u8) = length bs" by (simp add: unat_small XQC_MAX_CID_LEN_def)
  then have "of_nat (length bs) = (0 :: u8) \<Longrightarrow> bs = []" by (metis length_0_conv unsigned_0)
  with l u show ?thesis
    by (auto simp: cid_holds_def cid_example_def xqc_cid_set_bytes_def Let_def xqc_cid_init_zero_def buf_write_def)
qed

lemma conn_hdr_example_awaits: "awaits_retry conn_hdr_example [1, 2, 3, 4, 5, 6, 7, 8]"
  using cid_example_holds [of "[1, 2, 3, 4, 5, 6, 7, 8]"]
  by (simp add: awaits_retry_def conn_hdr_example_def conn_example_def xqc_connection.defs XQC_MAX_CID_LEN_def)



text \<open>C36: A Retry packet with a wrong integrity tag is discarded, but not without effect: the client keeps the token of the forged packet
  as the token of the connection, which it writes into its following Initial packets.\<close>

theorem forged_retry_leaves_token:
  assumes c: "awaits_retry c odcid" and pi: "pi_fresh pi (retry_fields dcid scid ver @ token @ tag)"
    and len: "length dcid \<le> XQC_MAX_CID_LEN" "length scid \<le> XQC_MAX_CID_LEN" "0 < length token" "length token \<le> XQC_MAX_TOKEN_LEN"
      "length tag = XQC_RETRY_INTEGRITY_TAG_LEN"
    and ne: "scid \<noteq> odcid" "ver \<noteq> 0"
    and tag': "xqc_conn_gen_retry_integrity_tag env (conn_version c) odcid (length odcid) (retry_fields dcid scid ver @ token) = Inr tag'"
    and forged: "tag' \<noteq> tag"
  shows "\<exists>pi'. xqc_packet_parse_long_header env c pi =
    (c\<lparr>conn_token := buf_write (conn_token c) 0 token, conn_token_len := length token\<rparr>, pi', Inr ())"
  using parse_retry_packet [OF c pi len ne tag'] forged by auto

theorem forged_retry_leaves_token_witness:
  "\<exists>c' pi'. xqc_packet_parse_long_header retry_env_example conn_hdr_example
       (pi_hdr_example (retry_fields [9, 9, 9, 9] [7, 7, 7, 7] 1 @ [6, 6, 6] @ replicate 16 0)) = (c', pi', Inr ())
     \<and> take 3 (conn_token c') = [6, 6, 6] \<and> conn_token_len c' = 3 \<and> conn_token_len conn_hdr_example = 0"
proof -
  let ?od = "[1, 2, 3, 4, 5, 6, 7, 8] :: bytes"
  have v: "conn_version conn_hdr_example = 1" "conn_token conn_hdr_example = replicate 256 0" "conn_token_len conn_hdr_example = 0"
    by (simp_all add: conn_hdr_example_def xqc_connection.defs)
  have t: "xqc_conn_gen_retry_integrity_tag retry_env_example (conn_version conn_hdr_example) ?od (length ?od)
      (retry_fields [9, 9, 9, 9] [7, 7, 7, 7] 1 @ [6, 6, 6]) = Inr (replicate 16 27)"
    by (simp add: xqc_conn_gen_retry_integrity_tag_def retry_env_example_def retry_fields_def RETRY_PSEUDO_PACKET_SIZE_def
        XQC_MAX_CID_LEN_def XQC_MAX_TOKEN_LEN_def XQC_RETRY_INTEGRITY_TAG_LEN_def v)
  have "\<exists>pi'. xqc_packet_parse_long_header retry_env_example conn_hdr_example
       (pi_hdr_example (retry_fields [9, 9, 9, 9] [7, 7, 7, 7] 1 @ [6, 6, 6] @ replicate 16 0)) =
    (conn_hdr_example\<lparr>conn_token := buf_write (conn_token conn_hdr_example) 0 [6, 6, 6], conn_token_len := length [6, 6, 6 :: u8]\<rparr>, pi', Inr ())"
    by (rule forged_retry_leaves_token [OF conn_hdr_example_awaits pi_hdr_example_fresh _ _ _ _ _ _ _ t])
      (simp_all add: XQC_MAX_CID_LEN_def XQC_MAX_TOKEN_LEN_def XQC_RETRY_INTEGRITY_TAG_LEN_def)
  then obtain pi' where "xqc_packet_parse_long_header retry_env_example conn_hdr_example
       (pi_hdr_example (retry_fields [9, 9, 9, 9] [7, 7, 7, 7] 1 @ [6, 6, 6] @ replicate 16 0)) =
    (conn_hdr_example\<lparr>conn_token := buf_write (conn_token conn_hdr_example) 0 [6, 6, 6], conn_token_len := length [6, 6, 6 :: u8]\<rparr>, pi', Inr ())" ..
  then show ?thesis
    by (intro exI) (auto simp: v buf_write_def)
qed

end
