(* ===== verification/Key_Update.thy ===== *)
theory Key_Update
  imports Packet_Protect
begin

text \<open>
  Key updates over whole runs of a connection (RFC 9001, section 6). The operations are those of the theory \<open>Packet_Protect\<close>; this
  theory holds the invariant of the key slots, the count of packets under one key, and the update started by the peer.
\<close>

section \<open>Generations of keys\<close>

text \<open>
  The secret of generation \<open>n\<close> comes from the secret of the handshake by \<open>n\<close> steps of the key derivation, and the key
  and IV come from the secret (RFC 9001, section 6.1). The suite \<open>k\<close> holds the AEAD and the derivation.
\<close>

definition next_secret :: "xqc_crypto \<Rightarrow> bytes \<Rightarrow> bytes" where
  "next_secret k s = the (xqc_hkdf_expand_label k s ''quic ku'' (length s))"

fun gen_secret :: "xqc_crypto \<Rightarrow> bytes \<Rightarrow> nat \<Rightarrow> bytes" where
  "gen_secret k s 0 = s"
| "gen_secret k s (Suc n) = next_secret k (gen_secret k s n)"

definition secret_km :: "xqc_crypto \<Rightarrow> bytes \<Rightarrow> xqc_crypto_km" where
  "secret_km k s =
     \<lparr>km_key = the (xqc_hkdf_expand_label k s ''quic key'' (aead_keylen (pp_aead k))),
      km_iv = the (xqc_hkdf_expand_label k s ''quic iv'' (max 8 (aead_noncelen (pp_aead k)))), km_secret = s\<rparr>"

abbreviation gen_km :: "xqc_crypto \<Rightarrow> bytes \<Rightarrow> nat \<Rightarrow> xqc_crypto_km" where
  "gen_km k s n \<equiv> secret_km k (gen_secret k s n)"

text \<open>
  What the TLS library documents: HKDF-Expand gives as many bytes as it is asked for up to 255 times the length of the digest, which is at
  least 32 for the suites of TLS 1.3, and a context for the AEAD can be made from a key of the length of the suite. The lengths of key and
  nonce fit the buffers of xqc_crypto.c.
\<close>

definition kdf_works :: "xqc_crypto \<Rightarrow> bool" where
  "kdf_works k \<longleftrightarrow>
     (\<forall>secret info n. n \<le> 255 * 32 \<longrightarrow> (\<exists>d. hkdf_expand k secret info n = Some d \<and> length d = n))
     \<and> (\<forall>key. length key = aead_keylen (pp_aead k) \<longrightarrow> aead_ctx_new (pp_aead k) key)
     \<and> 0 < aead_keylen (pp_aead k) \<and> aead_keylen (pp_aead k) \<le> XQC_MAX_KNP_LEN \<and> aead_noncelen (pp_aead k) \<le> XQC_MAX_KNP_LEN"

lemma kdf_worksE:
  assumes "kdf_works k" "n \<le> XQC_MAX_KNP_LEN"
  obtains d where "xqc_hkdf_expand_label k s l n = Some d" "length d = n"
proof -
  have "n \<le> 255 * 32" using assms(2) by (simp add: XQC_MAX_KNP_LEN_def)
  with assms(1) that show ?thesis unfolding kdf_works_def xqc_hkdf_expand_label_def by blast
qed

lemma length_gen_secret [simp]: "kdf_works k \<Longrightarrow> length s \<le> XQC_MAX_KNP_LEN \<Longrightarrow> length (gen_secret k s n) = length s"
proof (induction n)
  case (Suc n)
  then have l: "length (gen_secret k s n) = length s" by simp
  obtain d where "xqc_hkdf_expand_label k (gen_secret k s n) ''quic ku'' (length s) = Some d" "length d = length s"
    using kdf_worksE [OF Suc.prems] .
  then show ?case by (simp add: next_secret_def l)
qed simp

text \<open>A crypto of the suite \<open>k\<close> in a key phase with the given keys.\<close>

definition with_keys :: "xqc_crypto \<Rightarrow> nat \<Rightarrow> xqc_crypto_km list \<Rightarrow> xqc_crypto_km list \<Rightarrow> xqc_crypto" where
  "with_keys k p rx tx = k\<lparr>key_phase := p, rx_ckm := rx, tx_ckm := tx\<rparr>"

lemma with_keys_simps [simp]:
  "pp_aead (with_keys k p rx tx) = pp_aead k" "hp_cipher (with_keys k p rx tx) = hp_cipher k"
  "hkdf_expand (with_keys k p rx tx) = hkdf_expand k" "xqc_hkdf_expand_label (with_keys k p rx tx) = xqc_hkdf_expand_label k" "key_phase (with_keys k p rx tx) = p"
  "rx_ckm (with_keys k p rx tx) = rx" "tx_ckm (with_keys k p rx tx) = tx" "rx_hp (with_keys k p rx tx) = rx_hp k"
  "tx_hp (with_keys k p rx tx) = tx_hp k" "cipher_id (with_keys k p rx tx) = cipher_id k"
  "(with_keys k p rx tx)\<lparr>key_phase := q\<rparr> = with_keys k q rx tx"
  "(with_keys k p rx tx)\<lparr>rx_ckm := r\<rparr> = with_keys k p r tx" "(with_keys k p rx tx)\<lparr>tx_ckm := t\<rparr> = with_keys k p rx t"
  by (simp_all add: with_keys_def xqc_hkdf_expand_label_def fun_eq_iff)

lemma with_keys_inject [simp]: "with_keys k p rx tx = with_keys k p rx' tx' \<longleftrightarrow> rx = rx' \<and> tx = tx'"
  by (metis with_keys_simps(6,7))

lemma derive_updated:
  assumes k: "kdf_works k" and s: "length s \<le> XQC_MAX_KNP_LEN" and l: "length rx = 2" "length tx = 2"
    and cur: "km_secret (get_ckm type (with_keys k p rx tx) p) = s"
  shows "xqc_crypto_derive_updated_keys (with_keys k p rx tx) type =
    (case type of
       XQC_KEY_TYPE_RX_READ \<Rightarrow> with_keys k p (rx[flip_phase p := secret_km k (next_secret k s)]) tx
     | XQC_KEY_TYPE_TX_WRITE \<Rightarrow> with_keys k p rx (tx[flip_phase p := secret_km k (next_secret k s)]), Inr ())"
proof -
  define ns where "ns = next_secret k s"
  obtain d where d: "xqc_hkdf_expand_label k s ''quic ku'' (length s) = Some d" using kdf_worksE [OF k s] .
  then have d': "xqc_hkdf_expand_label k s ''quic ku'' (length s) = Some ns" by (simp add: ns_def next_secret_def)
  obtain key where key: "xqc_hkdf_expand_label k ns ''quic key'' (aead_keylen (pp_aead k)) = Some key" "length key = aead_keylen (pp_aead k)"
    using kdf_worksE [OF k, of "aead_keylen (pp_aead k)"] k unfolding kdf_works_def by blast
  obtain iv where iv: "xqc_hkdf_expand_label k ns ''quic iv'' (max 8 (aead_noncelen (pp_aead k))) = Some iv"
      "length iv = max 8 (aead_noncelen (pp_aead k))"
    using kdf_worksE [OF k, of "max 8 (aead_noncelen (pp_aead k))"] k by (auto simp: kdf_works_def XQC_MAX_KNP_LEN_def)
  have b: "\<not> XQC_MAX_KNP_LEN < aead_keylen (pp_aead k)" "0 < aead_keylen (pp_aead k)" "\<not> XQC_MAX_KNP_LEN < max 8 (aead_noncelen (pp_aead k))"
    "aead_ctx_new (pp_aead k) key"
    using k key(2) by (auto simp: kdf_works_def XQC_MAX_KNP_LEN_def)
  have km: "secret_km k ns = \<lparr>km_key = key, km_iv = iv, km_secret = ns\<rparr>" by (simp add: secret_km_def key iv)
  have upd: "x\<lparr>km_secret := a, km_key := b, km_iv := c\<rparr> = \<lparr>km_key = b, km_iv = c, km_secret = a\<rparr>" for x :: xqc_crypto_km and a b c
    by (cases x) simp
  have fl: "flip_phase p < 2" by (simp add: flip_phase_def)
  have ne: "key \<noteq> []" "iv \<noteq> []" using key(2) iv(2) b(2) by auto
  have pr: "xqc_crypto_derive_packet_protection_key (with_keys k q r t) XQC_MAX_KNP_LEN ns = Inr key"
    "xqc_crypto_derive_packet_protection_iv (with_keys k q r t) XQC_MAX_KNP_LEN ns = Inr iv" for q r t
    using key(1) iv(1) b by (simp_all add: xqc_crypto_derive_packet_protection_key_def xqc_crypto_derive_packet_protection_iv_def Let_def)
  show ?thesis
    using cur d' s b ne pr fl l
    by (cases type)
      (simp_all add: xqc_crypto_derive_updated_keys_def Let_def get_ckm_def set_ckm_def km upd ns_def [symmetric] flip_phase_def [symmetric] not_less)
qed

text \<open>The fields of the context that count.\<close>

abbreviation ku_n :: "xqc_conn_sec \<Rightarrow> nat" where "ku_n c \<equiv> key_update_cnt (key_update_ctx c)"
abbreviation ku_cnt :: "xqc_conn_sec \<Rightarrow> u64" where "ku_cnt c \<equiv> enc_pkt_cnt (key_update_ctx c)"
abbreviation ku_lim :: "xqc_conn_sec \<Rightarrow> u64" where "ku_lim c \<equiv> aead_confidentiality_limit (key_update_ctx c)"

section \<open>The keys of a connection\<close>

text \<open>
  \<open>ku_keys k rs ts c\<close>: after \<open>n\<close> key updates of a connection whose first secrets are \<open>rs\<close> for reading and \<open>ts\<close> for writing, it
  reads and writes with the keys of generation \<open>n\<close> in the key phase \<open>n mod 2\<close>, and the other slot for reading is what
  \<open>other_rx_keys\<close> says: the keys of generation \<open>n - 1\<close>, of generation \<open>n + 1\<close>, or none. The deadline for the old keys runs only while
  there are old keys, and not before the peer has answered an update of this endpoint.
\<close>

definition ku_keys :: "xqc_crypto \<Rightarrow> bytes \<Rightarrow> bytes \<Rightarrow> xqc_conn_sec \<Rightarrow> bool" where
  "ku_keys k rs ts c \<longleftrightarrow> (let ctx = key_update_ctx c; n = key_update_cnt ctx; p = n mod 2 in
     \<exists>rx tx. tls_crypto c XQC_ENC_LEV_1RTT = Some (with_keys k p rx tx) \<and> length rx = 2 \<and> length tx = 2
       \<and> cur_out_key_phase ctx = p \<and> next_in_key_phase ctx = p
       \<and> rx ! p = gen_km k rs n \<and> tx ! p = gen_km k ts n
       \<and> (case other_rx_keys ctx of
            XQC_KU_RX_KEYS_NONE \<Rightarrow> True
          | XQC_KU_RX_KEYS_OLD \<Rightarrow> 0 < n \<and> rx ! flip_phase p = gen_km k rs (n - 1)
          | XQC_KU_RX_KEYS_NEXT \<Rightarrow> rx ! flip_phase p = gen_km k rs (n + 1))
       \<and> (awaiting_peer_key_update ctx \<longrightarrow> other_rx_keys ctx = XQC_KU_RX_KEYS_OLD
            \<and> \<not> xqc_timer_is_set (conn_timer_manager c) XQC_TIMER_KEY_UPDATE)
       \<and> (xqc_timer_is_set (conn_timer_manager c) XQC_TIMER_KEY_UPDATE \<longrightarrow> other_rx_keys ctx = XQC_KU_RX_KEYS_OLD))"

text \<open>What the invariant looks at.\<close>

lemma ku_keys_cong:
  assumes "tls_crypto c' XQC_ENC_LEV_1RTT = tls_crypto c XQC_ENC_LEV_1RTT" and "conn_timer_manager c' = conn_timer_manager c"
    and "key_update_cnt (key_update_ctx c') = key_update_cnt (key_update_ctx c)"
    and "cur_out_key_phase (key_update_ctx c') = cur_out_key_phase (key_update_ctx c)"
    and "next_in_key_phase (key_update_ctx c') = next_in_key_phase (key_update_ctx c)"
    and "other_rx_keys (key_update_ctx c') = other_rx_keys (key_update_ctx c)"
    and "awaiting_peer_key_update (key_update_ctx c') = awaiting_peer_key_update (key_update_ctx c)"
  shows "ku_keys k rs ts c' = ku_keys k rs ts c"
  unfolding ku_keys_def Let_def assms ..

lemma flip_mod [simp]: "flip_phase (n mod 2) = Suc n mod 2" "flip_phase (Suc n mod 2) = n mod 2"
  by (simp_all add: flip_phase_def mod_2_eq_odd)

lemma mod_neq: "n mod 2 \<noteq> Suc n mod 2"
  by (simp add: mod_2_eq_odd)

lemma crypto_set_simps [simp]:
  "tls_crypto (crypto_set l cr c) = (tls_crypto c)(l := Some cr)" "key_update_ctx (crypto_set l cr c) = key_update_ctx c"
  "conn_timer_manager (crypto_set l cr c) = conn_timer_manager c" "sec_paths (crypto_set l cr c) = sec_paths c"
  "max_pto (crypto_set l cr c) = max_pto c" "enable_multipath (crypto_set l cr c) = enable_multipath c"
  by (simp_all add: crypto_set_def)

lemma timer_simps [simp]:
  "xqc_timer_is_set (xqc_timer_set m t now i) t" "\<not> xqc_timer_is_set (xqc_timer_unset m t) t"
  by (simp_all add: xqc_timer_is_set_def xqc_timer_set_def xqc_timer_unset_def)

text \<open>The next keys for one direction.\<close>

lemma update_keys:
  assumes k: "kdf_works k" and l: "length rx = 2" "length tx = 2"
    and c: "tls_crypto c XQC_ENC_LEV_1RTT = Some (with_keys k (n mod 2) rx tx)"
  shows "length rs \<le> XQC_MAX_KNP_LEN \<Longrightarrow> rx ! (n mod 2) = gen_km k rs n \<Longrightarrow> xqc_tls_update_1rtt_keys c XQC_KEY_TYPE_RX_READ =
      (crypto_set XQC_ENC_LEV_1RTT (with_keys k (n mod 2) (rx[Suc n mod 2 := gen_km k rs (n + 1)]) tx) c, Inr ())"
    and "length ts \<le> XQC_MAX_KNP_LEN \<Longrightarrow> tx ! (n mod 2) = gen_km k ts n \<Longrightarrow> xqc_tls_update_1rtt_keys c XQC_KEY_TYPE_TX_WRITE =
      (crypto_set XQC_ENC_LEV_1RTT (with_keys k (n mod 2) rx (tx[Suc n mod 2 := gen_km k ts (n + 1)])) c, Inr ())"
proof -
  assume "length rs \<le> XQC_MAX_KNP_LEN" and r: "rx ! (n mod 2) = gen_km k rs n"
  then have "xqc_crypto_derive_updated_keys (with_keys k (n mod 2) rx tx) XQC_KEY_TYPE_RX_READ =
      (with_keys k (n mod 2) (rx[Suc n mod 2 := gen_km k rs (n + 1)]) tx, Inr ())"
    using derive_updated [OF k _ l, of "gen_secret k rs n" XQC_KEY_TYPE_RX_READ "n mod 2"] k
    by (simp add: get_ckm_def secret_km_def [of k "gen_secret k rs n"])
  with c show "xqc_tls_update_1rtt_keys c XQC_KEY_TYPE_RX_READ =
      (crypto_set XQC_ENC_LEV_1RTT (with_keys k (n mod 2) (rx[Suc n mod 2 := gen_km k rs (n + 1)]) tx) c, Inr ())"
    by (simp add: xqc_tls_update_1rtt_keys_def)
next
  assume "length ts \<le> XQC_MAX_KNP_LEN" and t: "tx ! (n mod 2) = gen_km k ts n"
  then have "xqc_crypto_derive_updated_keys (with_keys k (n mod 2) rx tx) XQC_KEY_TYPE_TX_WRITE =
      (with_keys k (n mod 2) rx (tx[Suc n mod 2 := gen_km k ts (n + 1)]), Inr ())"
    using derive_updated [OF k _ l, of "gen_secret k ts n" XQC_KEY_TYPE_TX_WRITE "n mod 2"] k
    by (simp add: get_ckm_def secret_km_def [of k "gen_secret k ts n"])
  with c show "xqc_tls_update_1rtt_keys c XQC_KEY_TYPE_TX_WRITE =
      (crypto_set XQC_ENC_LEV_1RTT (with_keys k (n mod 2) rx (tx[Suc n mod 2 := gen_km k ts (n + 1)])) c, Inr ())"
    by (simp add: xqc_tls_update_1rtt_keys_def)
qed

text \<open>A confirmed key update moves to the next generation.\<close>

lemma confirm_keys:
  assumes c: "tls_crypto c XQC_ENC_LEV_1RTT = Some (with_keys k (n mod 2) rx tx)" and l: "length rx = 2" "length tx = 2"
    and n: "key_update_cnt (key_update_ctx c) = n" "cur_out_key_phase (key_update_ctx c) = n mod 2" "next_in_key_phase (key_update_ctx c) = n mod 2"
    and cur: "rx ! (n mod 2) = gen_km k rs n" and new: "rx ! (Suc n mod 2) = gen_km k rs (n + 1)" "tx ! (Suc n mod 2) = gen_km k ts (n + 1)"
  shows "\<exists>c'. xqc_conn_confirm_key_update now c initiated = (c', Inr ()) \<and> ku_keys k rs ts c'
    \<and> key_update_cnt (key_update_ctx c') = n + 1 \<and> enc_pkt_cnt (key_update_ctx c') = 0
    \<and> aead_confidentiality_limit (key_update_ctx c') = aead_confidentiality_limit (key_update_ctx c)"
proof -
  define c1 where "c1 = fst (xqc_conn_confirm_key_update now c initiated)"
  have f: "tls_crypto c1 XQC_ENC_LEV_1RTT = Some (with_keys k (Suc n mod 2) rx tx)"
    "key_update_ctx c1 = (key_update_ctx c)\<lparr>key_update_cnt := n + 1, current_keys_acked := False, other_rx_keys := XQC_KU_RX_KEYS_OLD,
       cur_out_key_phase := Suc n mod 2, next_in_key_phase := Suc n mod 2, enc_pkt_cnt := 0, awaiting_peer_key_update := initiated\<rparr>"
    "initiated \<Longrightarrow> \<not> xqc_timer_is_set (conn_timer_manager c1) XQC_TIMER_KEY_UPDATE"
    using c n by (simp_all add: c1_def xqc_conn_confirm_key_update_def Let_def xqc_conn_record_key_phase_start_def xqc_tls_set_1rtt_key_phase_def
        xqc_conn_set_key_update_timer_def)
  have "xqc_conn_confirm_key_update now c initiated = (c1, Inr ())"
    by (simp add: c1_def xqc_conn_confirm_key_update_def Let_def)
  moreover have "ku_keys k rs ts c1"
    unfolding ku_keys_def Let_def using f l cur new by (auto simp: )
  ultimately show ?thesis using f(2) by simp
qed

section \<open>How the operations change the keys\<close>

lemma encrypt_buf_cases:
  assumes "xqc_packet_encrypt_buf now c po cap = (c', po', r)"
  defines "b \<equiv> po_pkt_type po = XQC_PTYPE_SHORT_HEADER \<and> xqc_packet_type_to_enc_level (po_pkt_type po) = XQC_ENC_LEV_1RTT"
  obtains (unready) "c' = c" "isl r"
    | (limit) e where "encrypt_limit c b = (c', Inl e)" "isl r"
    | (failed) c1 v where "encrypt_limit c b = (c1, Inr v)" "c' = c1 \<or> c' = XQC_CONN_ERR c1 TRA_INTERNAL_ERROR" "isl r"
    | (uncounted) "encrypt_limit c b = (c', Inr False)"
    | (counted) c1 v where "encrypt_limit c b = (c1, Inr True)" "encrypt_count now c1 = (c', v)"
proof -
  obtain c1 v where lim: "encrypt_limit c b = (c1, v)" by fastforce
  have "(c' = c \<and> isl r) \<or> (\<exists>e. v = Inl e \<and> c' = c1 \<and> isl r) \<or> (\<exists>w. v = Inr w \<and> (c' = c1 \<or> c' = XQC_CONN_ERR c1 TRA_INTERNAL_ERROR) \<and> isl r)
      \<or> (v = Inr False \<and> c' = c1) \<or> (v = Inr True \<and> (\<exists>v. encrypt_count now c1 = (c', v)))"
    using assms(1) unfolding xqc_packet_encrypt_buf_def Let_def b_def [symmetric] lim
    by (auto simp: isl_def split: if_splits sum.splits option.splits prod.splits dest: sym [of "Inl _"])
  with lim show thesis by (auto intro: unready limit failed uncounted counted)
qed

lemma ku_keysE:
  assumes "ku_keys k rs ts c"
  obtains n rx tx where "key_update_cnt (key_update_ctx c) = n" and "tls_crypto c XQC_ENC_LEV_1RTT = Some (with_keys k (n mod 2) rx tx)"
    and "length rx = 2" and "length tx = 2" and "cur_out_key_phase (key_update_ctx c) = n mod 2" and "next_in_key_phase (key_update_ctx c) = n mod 2"
    and "rx ! (n mod 2) = gen_km k rs n" and "tx ! (n mod 2) = gen_km k ts n"
    and "other_rx_keys (key_update_ctx c) = XQC_KU_RX_KEYS_OLD \<Longrightarrow> 0 < n \<and> rx ! (Suc n mod 2) = gen_km k rs (n - 1)"
    and "other_rx_keys (key_update_ctx c) = XQC_KU_RX_KEYS_NEXT \<Longrightarrow> rx ! (Suc n mod 2) = gen_km k rs (n + 1)"
    and "awaiting_peer_key_update (key_update_ctx c) \<Longrightarrow> other_rx_keys (key_update_ctx c) = XQC_KU_RX_KEYS_OLD"
    and "xqc_timer_is_set (conn_timer_manager c) XQC_TIMER_KEY_UPDATE \<Longrightarrow>
      other_rx_keys (key_update_ctx c) = XQC_KU_RX_KEYS_OLD \<and> \<not> awaiting_peer_key_update (key_update_ctx c)"
proof -
  let ?ctx = "key_update_ctx c"
  let ?n = "key_update_cnt ?ctx"
  from assms obtain rx tx where f: "tls_crypto c XQC_ENC_LEV_1RTT = Some (with_keys k (?n mod 2) rx tx)" "length rx = 2" "length tx = 2"
      "cur_out_key_phase ?ctx = ?n mod 2" "next_in_key_phase ?ctx = ?n mod 2" "rx ! (?n mod 2) = gen_km k rs ?n" "tx ! (?n mod 2) = gen_km k ts ?n"
    and o: "case other_rx_keys ?ctx of
            XQC_KU_RX_KEYS_NONE \<Rightarrow> True
          | XQC_KU_RX_KEYS_OLD \<Rightarrow> 0 < ?n \<and> rx ! flip_phase (?n mod 2) = gen_km k rs (?n - 1)
          | XQC_KU_RX_KEYS_NEXT \<Rightarrow> rx ! flip_phase (?n mod 2) = gen_km k rs (?n + 1)"
    and a: "awaiting_peer_key_update ?ctx \<longrightarrow> other_rx_keys ?ctx = XQC_KU_RX_KEYS_OLD
            \<and> \<not> xqc_timer_is_set (conn_timer_manager c) XQC_TIMER_KEY_UPDATE"
      "xqc_timer_is_set (conn_timer_manager c) XQC_TIMER_KEY_UPDATE \<longrightarrow> other_rx_keys ?ctx = XQC_KU_RX_KEYS_OLD"
    unfolding ku_keys_def Let_def by blast
  show thesis by (rule that [OF refl f]) (use o a in simp_all)
qed

lemma encrypt_limit_ctx:
  assumes "encrypt_limit c b = (c1, r)"
  shows "conn_timer_manager c1 = conn_timer_manager c" and "keyupdate_pkt_threshold c1 = keyupdate_pkt_threshold c"
    and "key_update_ctx c1 = key_update_ctx c \<or> aead_confidentiality_limit (key_update_ctx c) = 0
      \<and> key_update_ctx c1 = (key_update_ctx c)\<lparr>aead_confidentiality_limit := xqc_aead_confidentiality_limit (xqc_tls_get_1rtt_cipher_id c)\<rparr>"
    and "r = Inr True \<Longrightarrow> enc_pkt_cnt (key_update_ctx c1) < aead_confidentiality_limit (key_update_ctx c1)"
    and "r = Inr False \<Longrightarrow> b \<Longrightarrow> aead_confidentiality_limit (key_update_ctx c) = 0 \<and> xqc_tls_get_1rtt_cipher_id c = 0"
  using assms by (auto simp: encrypt_limit_def Let_def xqc_packet_check_aead_confidentiality_limit_def XQC_CONN_ERR_def xqc_conn_closing_def
      XQC_CONN_CLOSE_MSG_def split: if_splits sum.splits)

lemma encrypt_limit_keys: "encrypt_limit c b = (c1, r) \<Longrightarrow> ku_keys k rs ts c1 = ku_keys k rs ts c"
  using encrypt_limit_ctx [of c b c1 r] encrypt_limit_frame [of c b c1 r] by (intro ku_keys_cong) auto

lemma conn_err_keys: "ku_keys k rs ts (XQC_CONN_ERR c e) = ku_keys k rs ts c"
  by (rule ku_keys_cong) simp_all

lemma initiate_keys:
  assumes k: "kdf_works k" "length rs \<le> XQC_MAX_KNP_LEN" "length ts \<le> XQC_MAX_KNP_LEN" and c: "ku_keys k rs ts c"
  shows "\<exists>c'. xqc_packet_initiate_key_update now c = (c', Inr ()) \<and> ku_keys k rs ts c'"
proof -
  obtain n rx tx where n: "key_update_cnt (key_update_ctx c) = n" and cr: "tls_crypto c XQC_ENC_LEV_1RTT = Some (with_keys k (n mod 2) rx tx)"
    and l: "length rx = 2" "length tx = 2" and ph: "cur_out_key_phase (key_update_ctx c) = n mod 2" "next_in_key_phase (key_update_ctx c) = n mod 2"
    and cur: "rx ! (n mod 2) = gen_km k rs n" "tx ! (n mod 2) = gen_km k ts n"
    by (rule ku_keysE [OF c])
  let ?rx = "rx[Suc n mod 2 := gen_km k rs (n + 1)]" and ?tx = "tx[Suc n mod 2 := gen_km k ts (n + 1)]"
  define c1 where "c1 = crypto_set XQC_ENC_LEV_1RTT (with_keys k (n mod 2) ?rx tx) c"
  have u1: "xqc_tls_update_1rtt_keys c XQC_KEY_TYPE_RX_READ = (c1, Inr ())"
    unfolding c1_def by (rule update_keys(1) [OF k(1) l cr k(2) cur(1)])
  define c2 where "c2 = crypto_set XQC_ENC_LEV_1RTT (with_keys k (n mod 2) ?rx ?tx) c1"
  have u2: "xqc_tls_update_1rtt_keys c1 XQC_KEY_TYPE_TX_WRITE = (c2, Inr ())"
    unfolding c2_def by (rule update_keys(2) [OF k(1) _ l(2) _ k(3) cur(2)]) (simp_all add: l c1_def)
  have "\<exists>c'. xqc_conn_confirm_key_update now c2 True = (c', Inr ()) \<and> ku_keys k rs ts c'
    \<and> key_update_cnt (key_update_ctx c') = n + 1 \<and> enc_pkt_cnt (key_update_ctx c') = 0
    \<and> aead_confidentiality_limit (key_update_ctx c') = aead_confidentiality_limit (key_update_ctx c2)"
    by (rule confirm_keys [of c2 k n ?rx ?tx]) (use l n ph cur mod_neq [of n] in \<open>simp_all add: c2_def c1_def\<close>)
  then show ?thesis by (auto simp: xqc_packet_initiate_key_update_def u1 u2)
qed

lemma encrypt_count_keys:
  assumes k: "kdf_works k" "length rs \<le> XQC_MAX_KNP_LEN" "length ts \<le> XQC_MAX_KNP_LEN" and c: "ku_keys k rs ts c"
    and e: "encrypt_count now c = (c', r)"
  shows "ku_keys k rs ts c'"
proof -
  let ?c = "ku_set (\<lambda>ctx. ctx\<lparr>enc_pkt_cnt := enc_pkt_cnt ctx + 1\<rparr>) c"
  have i: "ku_keys k rs ts ?c" using c by (subst ku_keys_cong [of _ c]) simp_all
  with e initiate_keys [OF k i, of now] show ?thesis
    by (auto simp: encrypt_count_def Let_def split: if_splits sum.splits prod.splits)
qed

lemma encrypt_buf_keys:
  assumes k: "kdf_works k" "length rs \<le> XQC_MAX_KNP_LEN" "length ts \<le> XQC_MAX_KNP_LEN" and c: "ku_keys k rs ts c"
    and e: "xqc_packet_encrypt_buf now c po cap = (c', po', r)"
  shows "ku_keys k rs ts c'"
  using e
proof (cases rule: encrypt_buf_cases)
  case (counted c1 v)
  with c show ?thesis using encrypt_count_keys [OF k, of c1] encrypt_limit_keys by blast
qed (use c encrypt_limit_keys conn_err_keys in \<open>auto\<close>)

lemma update_header_type [simp]:
  "po_pkt_type (xqc_long_packet_update_length po) = po_pkt_type po"
  "po_pkt_type (xqc_short_packet_update_key_phase po kp) = po_pkt_type po"
  "po_pkt_type (xqc_packet_update_reserved_bits po) = po_pkt_type po"
  "po_pkt_type (xqc_short_packet_update_dcid po d) = po_pkt_type po"
  by (simp_all add: xqc_long_packet_update_length_def xqc_short_packet_update_key_phase_def xqc_packet_update_reserved_bits_def
      xqc_short_packet_update_dcid_def Let_def)

lemma next_pn_type: "po_pkt_type (snd (xqc_send_ctl_set_next_pn_for_packet c p po t)) = po_pkt_type po"
  by (simp add: xqc_send_ctl_set_next_pn_for_packet_def Let_def)

lemma number_packet_frame:
  assumes "number_packet c path po t = (c', po')"
  shows "tls_crypto c' = tls_crypto c" "key_update_ctx c' = key_update_ctx c" "conn_timer_manager c' = conn_timer_manager c"
    "po_pkt_type po' = po_pkt_type po"
proof -
  obtain pc po1 where n: "xqc_send_ctl_set_next_pn_for_packet c (path_pn_ctl path) po t = (pc, po1)" by fastforce
  then have "po_pkt_type po1 = po_pkt_type po" using next_pn_type [of c "path_pn_ctl path" po t] by simp
  with assms n show "tls_crypto c' = tls_crypto c" "key_update_ctx c' = key_update_ctx c" "conn_timer_manager c' = conn_timer_manager c"
    "po_pkt_type po' = po_pkt_type po"
    by (auto simp: number_packet_def Let_def split: if_splits)
qed

lemma enc_packet_keys:
  assumes k: "kdf_works k" "length rs \<le> XQC_MAX_KNP_LEN" "length ts \<le> XQC_MAX_KNP_LEN" and c: "ku_keys k rs ts c"
    and e: "xqc_conn_enc_packet now c path po cap t = (c', po', r)"
  shows "ku_keys k rs ts c'"
proof -
  define po1 where "po1 = (let po = xqc_short_packet_update_dcid po (sec_path_dcid path)
    in if xqc_need_padding c po then xqc_gen_padding_frame c po else po)"
  obtain c1 po2 where np: "number_packet c path po1 t = (c1, po2)" by fastforce
  obtain c2 po3 v where eb: "xqc_packet_encrypt_buf now c1 po2 cap = (c2, po3, v)" by (metis prod_cases3)
  have "ku_keys k rs ts c1" using c number_packet_frame [OF np] by (subst ku_keys_cong [of _ c]) simp_all
  from encrypt_buf_keys [OF k this eb] have i: "ku_keys k rs ts c2" .
  then have "ku_keys k rs ts (c2\<lparr>conn_state := s\<rparr>)" for s by (subst ku_keys_cong [of _ c2]) simp_all
  with i e np eb show ?thesis
    by (auto simp: xqc_conn_enc_packet_def po1_def [unfolded Let_def, symmetric] Let_def split: sum.splits if_splits)
qed

lemma convert_frame:
  assumes "xqc_convert_pkt_0rtt_2_1rtt c po = (c', po')"
  shows "c' = c \<or> c' = XQC_CONN_ERR c TRA_INTERNAL_ERROR"
  using assms by (auto simp: xqc_convert_pkt_0rtt_2_1rtt_def Let_def split: prod.splits sum.splits if_splits)

lemma enc_packet_pn_keys:
  assumes k: "kdf_works k" "length rs \<le> XQC_MAX_KNP_LEN" "length ts \<le> XQC_MAX_KNP_LEN" and c: "ku_keys k rs ts c"
    and e: "xqc_enc_packet_with_pn now c path po cap = (c', po', r)"
  shows "ku_keys k rs ts c'"
proof -
  define po1 where "po1 = (let po = xqc_short_packet_update_dcid po (sec_path_dcid path)
    in if xqc_need_padding c po then xqc_gen_padding_frame c po else po)"
  obtain c0 po0 where cv: "(if po_pkt_type po1 = XQC_PTYPE_0RTT \<and> conn_flag c AND XQC_CONN_FLAG_CAN_SEND_1RTT \<noteq> 0
      then xqc_convert_pkt_0rtt_2_1rtt c po1 else (c, po1)) = (c0, po0)" by fastforce
  obtain c1 po2 where np: "number_packet c0 path po0 now = (c1, po2)" by fastforce
  obtain c2 po3 v where eb: "xqc_packet_encrypt_buf now c1 po2 cap = (c2, po3, v)" by (metis prod_cases3)
  have "ku_keys k rs ts c0" using c cv conn_err_keys by (auto split: if_splits dest!: convert_frame)
  then have "ku_keys k rs ts c1" using number_packet_frame [OF np] by (subst ku_keys_cong [of _ c0]) simp_all
  from encrypt_buf_keys [OF k this eb] have i: "ku_keys k rs ts c2" .
  then have "ku_keys k rs ts (c2\<lparr>conn_state := s\<rparr>)" for s by (subst ku_keys_cong [of _ c2]) simp_all
  with i e cv np eb show ?thesis
    unfolding xqc_enc_packet_with_pn_def po1_def [unfolded Let_def, symmetric] Let_def by (auto split: sum.splits if_splits)
qed

lemma discard_keys:
  assumes c: "ku_keys k rs ts c" and a: "\<not> awaiting_peer_key_update (key_update_ctx c)"
  shows "ku_keys k rs ts (xqc_conn_discard_old_rx_keys c)"
proof -
  obtain n rx tx where f: "key_update_cnt (key_update_ctx c) = n" "tls_crypto c XQC_ENC_LEV_1RTT = Some (with_keys k (n mod 2) rx tx)"
      "length rx = 2" "length tx = 2" "cur_out_key_phase (key_update_ctx c) = n mod 2" "next_in_key_phase (key_update_ctx c) = n mod 2"
      "rx ! (n mod 2) = gen_km k rs n" "tx ! (n mod 2) = gen_km k ts n"
    by (rule ku_keysE [OF c])
  have "xqc_crypto_discard_old_keys (with_keys k (n mod 2) rx tx) = with_keys k (n mod 2) (rx[Suc n mod 2 := km_init]) (tx[Suc n mod 2 := km_init])"
    using flip_mod(1) [of n, unfolded flip_phase_def] by (simp add: xqc_crypto_discard_old_keys_def Let_def set_ckm_def)
  with f a mod_neq [of n] show ?thesis
    unfolding ku_keys_def Let_def by (simp add: xqc_conn_discard_old_rx_keys_def xqc_tls_discard_old_1rtt_keys_def Let_def)
qed

lemma timeout_keys:
  assumes c: "ku_keys k rs ts c" and t: "xqc_timer_is_set (conn_timer_manager c) XQC_TIMER_KEY_UPDATE"
  shows "ku_keys k rs ts (xqc_conn_discard_old_rx_keys c)"
proof (rule discard_keys [OF c])
  show "\<not> awaiting_peer_key_update (key_update_ctx c)" by (rule ku_keysE [OF c]) (use t in blast)
qed

text \<open>Keys for the other key phase are there before a packet of that phase is opened.\<close>

lemma prepare_keys:
  assumes k: "kdf_works k" "length rs \<le> XQC_MAX_KNP_LEN" and c: "ku_keys k rs ts c"
  shows "\<exists>c'. prepare_rx_keys now c other = (c', Inr ()) \<and> ku_keys k rs ts c'
    \<and> (other \<longrightarrow> other_rx_keys (key_update_ctx c') \<noteq> XQC_KU_RX_KEYS_NONE)"
proof -
  define c1 where "c1 = (if other \<and> other_rx_keys (key_update_ctx c) = XQC_KU_RX_KEYS_OLD
                     \<and> xqc_timer_is_set (conn_timer_manager c) XQC_TIMER_KEY_UPDATE
                     \<and> expire_time (timer (conn_timer_manager c) XQC_TIMER_KEY_UPDATE) \<le> now
                  then xqc_conn_discard_old_rx_keys c else c)"
  have c1: "ku_keys k rs ts c1" using c timeout_keys [OF c] by (auto simp: c1_def)
  show ?thesis
  proof (cases "other \<and> other_rx_keys (key_update_ctx c1) = XQC_KU_RX_KEYS_NONE")
    case True
    obtain n rx tx where f: "key_update_cnt (key_update_ctx c1) = n" "tls_crypto c1 XQC_ENC_LEV_1RTT = Some (with_keys k (n mod 2) rx tx)"
        "length rx = 2" "length tx = 2" "cur_out_key_phase (key_update_ctx c1) = n mod 2" "next_in_key_phase (key_update_ctx c1) = n mod 2"
        "rx ! (n mod 2) = gen_km k rs n" "tx ! (n mod 2) = gen_km k ts n"
      and a: "\<not> awaiting_peer_key_update (key_update_ctx c1)" "\<not> xqc_timer_is_set (conn_timer_manager c1) XQC_TIMER_KEY_UPDATE"
      by (rule ku_keysE [OF c1]) (use True in auto)
    let ?c2 = "ku_set (\<lambda>ctx. ctx\<lparr>other_rx_keys := XQC_KU_RX_KEYS_NEXT\<rparr>)
      (crypto_set XQC_ENC_LEV_1RTT (with_keys k (n mod 2) (rx[Suc n mod 2 := gen_km k rs (n + 1)]) tx) c1)"
    have "prepare_rx_keys now c other = (?c2, Inr ())"
      unfolding prepare_rx_keys_def c1_def [symmetric] Let_def
      using True update_keys(1) [OF k(1) f(3,4,2) k(2) f(7)] by simp
    moreover have "ku_keys k rs ts ?c2" unfolding ku_keys_def Let_def using f a mod_neq [of n] by simp
    ultimately show ?thesis by simp
  next
    case False
    then have "prepare_rx_keys now c other = (c1, Inr ())" unfolding prepare_rx_keys_def c1_def [symmetric] Let_def by (simp only: if_False)
    with False c1 show ?thesis by auto
  qed
qed

lemma confirm_peer_keys:
  assumes c: "ku_keys k rs ts c"
  shows "ku_keys k rs ts (xqc_conn_confirm_peer_key_update now c)"
proof (cases "awaiting_peer_key_update (key_update_ctx c)")
  case True
  obtain n rx tx where f: "key_update_cnt (key_update_ctx c) = n" "tls_crypto c XQC_ENC_LEV_1RTT = Some (with_keys k (n mod 2) rx tx)"
      "length rx = 2" "length tx = 2" "cur_out_key_phase (key_update_ctx c) = n mod 2" "next_in_key_phase (key_update_ctx c) = n mod 2"
      "rx ! (n mod 2) = gen_km k rs n" "tx ! (n mod 2) = gen_km k ts n"
    and o: "other_rx_keys (key_update_ctx c) = XQC_KU_RX_KEYS_OLD" "0 < n" "rx ! (Suc n mod 2) = gen_km k rs (n - 1)"
    by (rule ku_keysE [OF c]) (use True in auto)
  then show ?thesis
    unfolding ku_keys_def Let_def by (simp add: xqc_conn_confirm_peer_key_update_def True xqc_conn_set_key_update_timer_def)
qed (use c in \<open>simp add: xqc_conn_confirm_peer_key_update_def\<close>)

lemma after_1rtt_next:
  assumes k: "kdf_works k" "length ts \<le> XQC_MAX_KNP_LEN" and c: "ku_keys k rs ts c"
    and nx: "other_rx_keys (key_update_ctx c) = XQC_KU_RX_KEYS_NEXT"
  shows "\<exists>c'. after_1rtt_decrypt now c pi True = (c', pi\<lparr>pi_flag := pi_flag pi OR XQC_PIF_CURRENT_KEY_PHASE\<rparr>, Inr ())
    \<and> ku_keys k rs ts c' \<and> ku_n c' = ku_n c + 1"
proof -
  obtain n rx tx where f: "ku_n c = n" "tls_crypto c XQC_ENC_LEV_1RTT = Some (with_keys k (n mod 2) rx tx)"
      "length rx = 2" "length tx = 2" "cur_out_key_phase (key_update_ctx c) = n mod 2" "next_in_key_phase (key_update_ctx c) = n mod 2"
      "rx ! (n mod 2) = gen_km k rs n" "tx ! (n mod 2) = gen_km k ts n" "rx ! (Suc n mod 2) = gen_km k rs (n + 1)"
    by (rule ku_keysE [OF c]) (use nx in auto)
  let ?tx = "tx[Suc n mod 2 := gen_km k ts (n + 1)]"
  define c2 where "c2 = crypto_set XQC_ENC_LEV_1RTT (with_keys k (n mod 2) rx ?tx) c"
  have u: "xqc_tls_update_1rtt_keys c XQC_KEY_TYPE_TX_WRITE = (c2, Inr ())"
    unfolding c2_def by (rule update_keys(2) [OF k(1) f(3,4,2) k(2) f(8)])
  have "\<exists>c'. xqc_conn_confirm_key_update now c2 False = (c', Inr ()) \<and> ku_keys k rs ts c'
    \<and> ku_n c' = n + 1 \<and> ku_cnt c' = 0 \<and> ku_lim c' = ku_lim c2"
    by (rule confirm_keys [of c2 k n rx ?tx]) (use f mod_neq [of n] in \<open>simp_all add: c2_def\<close>)
  then obtain c3 where c3: "xqc_conn_confirm_key_update now c2 False = (c3, Inr ())" "ku_keys k rs ts c3" "ku_n c3 = n + 1" by blast
  have "ku_keys k rs ts (d\<lparr>sec_paths := ps\<rparr>) = ku_keys k rs ts d" for d ps by (rule ku_keys_cong) simp_all
  with nx u c3 f(1) show ?thesis by (simp add: after_1rtt_decrypt_def Let_def)
qed

lemma after_1rtt_keys:
  assumes k: "kdf_works k" "length ts \<le> XQC_MAX_KNP_LEN" and c: "ku_keys k rs ts c"
    and o: "other \<Longrightarrow> other_rx_keys (key_update_ctx c) \<noteq> XQC_KU_RX_KEYS_NONE"
    and a: "after_1rtt_decrypt now c pi other = (c', pi', r)"
  shows "ku_keys k rs ts c'"
proof (cases "other \<and> other_rx_keys (key_update_ctx c) = XQC_KU_RX_KEYS_OLD")
  case True
  with a c show ?thesis by (auto simp: after_1rtt_decrypt_def Let_def conn_err_keys split: option.splits if_splits)
next
  case False
  have paths: "ku_keys k rs ts (d\<lparr>sec_paths := ps\<rparr>) = ku_keys k rs ts d" for d ps by (rule ku_keys_cong) simp_all
  show ?thesis
  proof (cases other)
    case True
    with False o have next': "other_rx_keys (key_update_ctx c) = XQC_KU_RX_KEYS_NEXT" by (cases "other_rx_keys (key_update_ctx c)") auto
    from after_1rtt_next [OF k c this, of now pi] a True show ?thesis by auto
  next
    case f: False
    with a have "\<exists>ps. c' = (xqc_conn_confirm_peer_key_update now c)\<lparr>sec_paths := ps\<rparr>" by (auto simp: after_1rtt_decrypt_def Let_def)
    with confirm_peer_keys [OF c, of now] show ?thesis by (auto simp: paths)
  qed
qed

lemma decrypt_keys:
  assumes k: "kdf_works k" "length rs \<le> XQC_MAX_KNP_LEN" "length ts \<le> XQC_MAX_KNP_LEN" and c: "ku_keys k rs ts c"
    and d: "xqc_packet_decrypt now c pi = (c', pi', r)"
  shows "ku_keys k rs ts c'"
proof -
  have op: "ku_keys k rs ts d" if "open_payload now c p = (d, p', v)" for p d p' v
  proof -
    let ?is = "pkt_type (pi_pkt p) = XQC_PTYPE_SHORT_HEADER \<and> xqc_packet_type_to_enc_level (pkt_type (pi_pkt p)) = XQC_ENC_LEV_1RTT"
    let ?o = "?is \<and> XQC_PACKET_SHORT_HEADER_KEY_PHASE (pi_buf p ! 0) \<noteq> next_in_key_phase (key_update_ctx c)"
    obtain c1 where c1: "prepare_rx_keys now c ?o = (c1, Inr ())" "ku_keys k rs ts c1"
        "?o \<longrightarrow> other_rx_keys (key_update_ctx c1) \<noteq> XQC_KU_RX_KEYS_NONE"
      using prepare_keys [OF k(1,2) c, of now ?o] by blast
    have "d = c1 \<or> (\<exists>m. after_1rtt_decrypt now c1 (p\<lparr>decode_payload := m\<rparr>) ?o = (d, p', v))"
      using that unfolding open_payload_def Let_def c1(1) prod.case sum.case by (auto split: sum.splits if_splits)
    then show ?thesis
    proof
      assume "\<exists>m. after_1rtt_decrypt now c1 (p\<lparr>decode_payload := m\<rparr>) ?o = (d, p', v)"
      then obtain m where m: "after_1rtt_decrypt now c1 (p\<lparr>decode_payload := m\<rparr>) ?o = (d, p', v)" ..
      show ?thesis by (rule after_1rtt_keys [OF k(1,3) c1(2) _ m]) (use c1(3) in blast)
    qed (use c1 in simp)
  qed
  obtain buf v where h: "xqc_tls_decrypt_header (tls_crypto c (xqc_packet_type_to_enc_level (pkt_type (pi_pkt pi)))) (pkt_type (pi_pkt pi)) (pi_buf pi)
      (pkt_num_offset (pi_pkt pi)) (pkt_num_offset (pi_pkt pi) + unat (pkt_length (pi_pkt pi))) = (buf, v)" by fastforce
  have "c' = c \<or> open_payload now c (decode_number c (pi\<lparr>pi_buf := buf\<rparr>)) = (c', pi', r)"
    using d unfolding xqc_packet_decrypt_def Let_def h prod.case by (auto split: if_splits sum.splits)
  with c op show ?thesis by auto
qed

section \<open>Runs of a connection\<close>

text \<open>
  The calls that touch the keys: a packet is sent by either of the two send paths, a packet is received, an acknowledgment arrives, and
  the key update timer runs. \<open>ku_exec\<close> also gives the generation of keys under which a 1-RTT packet went to the wire.
\<close>

datatype ku_op =
    Ku_Send u64 u64 xqc_packet_out_sec nat u64
  | Ku_Send_Pn u64 u64 xqc_packet_out_sec nat
  | Ku_Recv u64 xqc_packet_in_sec
  | Ku_Acked u64 u64 u64
  | Ku_Timer u64

definition sent_generation :: "xqc_conn_sec \<Rightarrow> xqc_packet_out_sec \<Rightarrow> bytes option res \<Rightarrow> nat option" where
  "sent_generation c po r =
     (case r of
        Inr (Some _) \<Rightarrow> if po_pkt_type po = XQC_PTYPE_SHORT_HEADER then Some (key_update_cnt (key_update_ctx c)) else None
      | _ \<Rightarrow> None)"

fun ku_exec :: "xqc_conn_sec \<Rightarrow> ku_op \<Rightarrow> xqc_conn_sec \<times> nat option" where
  "ku_exec c (Ku_Send now i po cap t) =
     (case xqc_conn_find_path_by_path_id c i of
        None \<Rightarrow> (c, None)
      | Some path \<Rightarrow> (case xqc_conn_enc_packet now c path po cap t of (c', po', r) \<Rightarrow> (c', sent_generation c po' r)))"
| "ku_exec c (Ku_Send_Pn now i po cap) =
     (case xqc_conn_find_path_by_path_id c i of
        None \<Rightarrow> (c, None)
      | Some path \<Rightarrow> (case xqc_enc_packet_with_pn now c path po cap of (c', po', r) \<Rightarrow> (c', sent_generation c po' r)))"
| "ku_exec c (Ku_Recv now pi) = (fst (xqc_packet_decrypt now c pi), None)"
| "ku_exec c (Ku_Acked i pn t) =
     (case xqc_conn_find_path_by_path_id c i of None \<Rightarrow> (c, None) | Some path \<Rightarrow> (xqc_conn_on_key_phase_acked c path pn t, None))"
| "ku_exec c (Ku_Timer now) =
     (if xqc_timer_is_set (conn_timer_manager c) XQC_TIMER_KEY_UPDATE
         \<and> expire_time (timer (conn_timer_manager c) XQC_TIMER_KEY_UPDATE) \<le> now
      then xqc_timer_key_update_timeout c else c, None)"

fun ku_run :: "xqc_conn_sec \<Rightarrow> ku_op list \<Rightarrow> xqc_conn_sec \<times> nat list" where
  "ku_run c [] = (c, [])"
| "ku_run c (x # xs) = (case ku_exec c x of (c', e) \<Rightarrow> case ku_run c' xs of (c'', es) \<Rightarrow> (c'', (case e of None \<Rightarrow> es | Some g \<Rightarrow> g # es)))"

lemma ku_exec_keys:
  assumes k: "kdf_works k" "length rs \<le> XQC_MAX_KNP_LEN" "length ts \<le> XQC_MAX_KNP_LEN" and c: "ku_keys k rs ts c"
  shows "ku_keys k rs ts (fst (ku_exec c x))"
proof (cases x)
  case (Ku_Send now i po cap t)
  with c show ?thesis by (auto split: option.splits prod.splits dest: enc_packet_keys [OF k c])
next
  case (Ku_Send_Pn now i po cap)
  with c show ?thesis by (auto split: option.splits prod.splits dest: enc_packet_pn_keys [OF k c])
next
  case (Ku_Recv now pi)
  obtain c' pi' r where "xqc_packet_decrypt now c pi = (c', pi', r)" by (metis prod_cases3)
  with Ku_Recv decrypt_keys [OF k c] show ?thesis by simp
next
  case (Ku_Acked i pn t)
  have "ku_keys k rs ts (xqc_conn_on_key_phase_acked c path pn t) = ku_keys k rs ts c" for path
    by (rule ku_keys_cong) (simp_all add: xqc_conn_on_key_phase_acked_def Let_def)
  with c Ku_Acked show ?thesis by (simp split: option.splits)
next
  case (Ku_Timer now)
  with c timeout_keys [OF c] show ?thesis by (simp add: xqc_timer_key_update_timeout_def)
qed

lemma ku_run_keys:
  assumes k: "kdf_works k" "length rs \<le> XQC_MAX_KNP_LEN" "length ts \<le> XQC_MAX_KNP_LEN" and c: "ku_keys k rs ts c"
  shows "ku_keys k rs ts (fst (ku_run c xs))"
  using c
proof (induction xs arbitrary: c)
  case (Cons x xs)
  then show ?case using ku_exec_keys [OF k Cons.prems, of x] Cons.IH [of "fst (ku_exec c x)"] by (simp add: case_prod_beta)
qed simp

text \<open>A connection whose handshake has installed the first 1-RTT keys.\<close>

definition ku_start :: "xqc_crypto \<Rightarrow> bytes \<Rightarrow> bytes \<Rightarrow> xqc_conn_sec \<Rightarrow> bool" where
  "ku_start k rs ts c \<longleftrightarrow> (\<exists>ctx. key_update_ctx c = xqc_conn_init_key_update_ctx ctx \<and> key_update_cnt ctx = 0)
     \<and> tls_crypto c XQC_ENC_LEV_1RTT = Some (with_keys k 0 [secret_km k rs, km_init] [secret_km k ts, km_init])
     \<and> \<not> xqc_timer_is_set (conn_timer_manager c) XQC_TIMER_KEY_UPDATE"

lemma ku_start_keys: "ku_start k rs ts c \<Longrightarrow> ku_keys k rs ts c"
  unfolding ku_start_def ku_keys_def Let_def by (auto simp: xqc_conn_init_key_update_ctx_def)

section \<open>The number of packets under one key\<close>

definition ku_same :: "xqc_conn_sec \<Rightarrow> xqc_conn_sec \<Rightarrow> bool" where
  "ku_same c c' \<longleftrightarrow> ku_n c' = ku_n c \<and> ku_cnt c' = ku_cnt c \<and> ku_lim c' = ku_lim c
     \<and> xqc_tls_get_1rtt_cipher_id c' = xqc_tls_get_1rtt_cipher_id c"

definition ku_next :: "xqc_conn_sec \<Rightarrow> xqc_conn_sec \<Rightarrow> bool" where
  "ku_next c c' \<longleftrightarrow> ku_n c' = ku_n c + 1 \<and> ku_cnt c' = 0 \<and> ku_lim c' = ku_lim c
     \<and> xqc_tls_get_1rtt_cipher_id c' = xqc_tls_get_1rtt_cipher_id c"

lemma ku_same_refl [simp]: "ku_same c c"
  by (simp add: ku_same_def)

lemma ku_same_trans: "ku_same a b \<Longrightarrow> ku_same b c \<Longrightarrow> ku_same a c"
  and ku_same_next: "ku_same a b \<Longrightarrow> ku_next b c \<Longrightarrow> ku_next a c"
  and ku_next_same: "ku_next a b \<Longrightarrow> ku_same b c \<Longrightarrow> ku_next a c"
  by (simp_all add: ku_same_def ku_next_def)

lemma ku_sameI: "key_update_ctx c' = key_update_ctx c \<Longrightarrow> tls_crypto c' = tls_crypto c \<Longrightarrow> ku_same c c'"
  by (simp add: ku_same_def xqc_tls_get_1rtt_cipher_id_def)

lemma conn_err_same: "ku_same c (XQC_CONN_ERR c e)"
  by (rule ku_sameI) simp_all

lemma set_ckm_cipher [simp]: "cipher_id (set_ckm t p f k) = cipher_id k"
  by (cases t) (simp_all add: set_ckm_def)

lemma derive_updated_cipher: "cipher_id (fst (xqc_crypto_derive_updated_keys k t)) = cipher_id k"
  by (simp add: xqc_crypto_derive_updated_keys_def Let_def split: option.splits sum.splits)

lemma update_same: "xqc_tls_update_1rtt_keys c t = (c', r) \<Longrightarrow> ku_same c c'"
proof -
  assume u: "xqc_tls_update_1rtt_keys c t = (c', r)"
  show ?thesis
  proof (cases "tls_crypto c XQC_ENC_LEV_1RTT")
    case (Some k)
    obtain k' v where "xqc_crypto_derive_updated_keys k t = (k', v)" by fastforce
    with Some u derive_updated_cipher [of k t] show ?thesis
      by (auto simp: ku_same_def xqc_tls_update_1rtt_keys_def xqc_tls_get_1rtt_cipher_id_def split: sum.splits)
  qed (use u in \<open>simp add: xqc_tls_update_1rtt_keys_def\<close>)
qed

lemma confirm_next: "xqc_conn_confirm_key_update now c i = (c', r) \<Longrightarrow> ku_next c c'"
  by (cases "tls_crypto c XQC_ENC_LEV_1RTT"; cases i)
    (auto simp: ku_next_def xqc_conn_confirm_key_update_def Let_def xqc_conn_record_key_phase_start_def xqc_tls_set_1rtt_key_phase_def
      xqc_conn_set_key_update_timer_def xqc_tls_get_1rtt_cipher_id_def)

lemma discard_same: "ku_same c (xqc_conn_discard_old_rx_keys c)"
  by (auto simp: ku_same_def xqc_conn_discard_old_rx_keys_def xqc_tls_discard_old_1rtt_keys_def xqc_tls_get_1rtt_cipher_id_def
      xqc_crypto_discard_old_keys_def Let_def split: option.splits)

lemma initiate_cases: "xqc_packet_initiate_key_update now c = (c', r) \<Longrightarrow> ku_same c c' \<or> ku_next c c'"
  by (auto simp: xqc_packet_initiate_key_update_def split: prod.splits sum.splits
      dest!: update_same confirm_next intro: ku_same_trans ku_same_next)

lemma encrypt_count_cases:
  assumes "encrypt_count now c = (c', r)"
  shows "ku_same (ku_set (\<lambda>ctx. ctx\<lparr>enc_pkt_cnt := enc_pkt_cnt ctx + 1\<rparr>) c) c' \<or> ku_next c c'"
proof -
  let ?c = "ku_set (\<lambda>ctx. ctx\<lparr>enc_pkt_cnt := enc_pkt_cnt ctx + 1\<rparr>) c"
  have n: "ku_next ?c d \<Longrightarrow> ku_next c d" for d by (simp add: ku_next_def xqc_tls_get_1rtt_cipher_id_def)
  from assms have "c' = ?c \<or> (\<exists>d v. xqc_packet_initiate_key_update now ?c = (d, v) \<and> (c' = d \<or> c' = XQC_CONN_ERR d TRA_AEAD_LIMIT_REACHED))"
    by (auto simp: encrypt_count_def Let_def split: if_splits sum.splits prod.splits)
  then consider "c' = ?c" | d v where "xqc_packet_initiate_key_update now ?c = (d, v)" "ku_same d c'" using conn_err_same by fastforce
  then show ?thesis
  proof cases
    case (2 d v)
    from initiate_cases [OF 2(1)] show ?thesis using n ku_same_trans [OF _ 2(2)] ku_next_same [OF _ 2(2)] by blast
  qed simp
qed

lemma prepare_same: "prepare_rx_keys now c other = (c', r) \<Longrightarrow> ku_same c c'"
proof -
  have s: "ku_same d (ku_set (\<lambda>ctx. ctx\<lparr>other_rx_keys := x\<rparr>) d)" for d x by (simp add: ku_same_def xqc_tls_get_1rtt_cipher_id_def)
  assume p: "prepare_rx_keys now c other = (c', r)"
  define c1 where "c1 = (if other \<and> other_rx_keys (key_update_ctx c) = XQC_KU_RX_KEYS_OLD
                     \<and> xqc_timer_is_set (conn_timer_manager c) XQC_TIMER_KEY_UPDATE
                     \<and> expire_time (timer (conn_timer_manager c) XQC_TIMER_KEY_UPDATE) \<le> now
                  then xqc_conn_discard_old_rx_keys c else c)"
  have c1: "ku_same c c1" by (simp add: c1_def discard_same)
  have "ku_same c1 c'" using p unfolding prepare_rx_keys_def c1_def [symmetric] Let_def
    by (auto split: if_splits prod.splits sum.splits dest!: update_same intro: ku_same_trans s)
  with c1 show ?thesis by (rule ku_same_trans)
qed

lemma confirm_peer_same: "ku_same c (xqc_conn_confirm_peer_key_update now c)"
  by (simp add: ku_same_def xqc_conn_confirm_peer_key_update_def xqc_conn_set_key_update_timer_def xqc_tls_get_1rtt_cipher_id_def)

lemma after_1rtt_cases:
  assumes "after_1rtt_decrypt now c pi other = (c', pi', r)"
  shows "ku_same c c' \<or> ku_next c c'"
proof -
  have p: "ku_same d (d\<lparr>sec_paths := ps\<rparr>)" for d ps by (rule ku_sameI) simp_all
  show ?thesis
  proof (cases "other \<and> other_rx_keys (key_update_ctx c) = XQC_KU_RX_KEYS_OLD")
    case True
    with assms show ?thesis by (auto simp: after_1rtt_decrypt_def Let_def conn_err_same split: option.splits if_splits)
  next
    case False
    have "\<exists>d ps. (c' = d \<or> c' = d\<lparr>sec_paths := ps\<rparr>) \<and> (ku_same c d \<or> ku_next c d)"
      using assms False confirm_peer_same [of c now]
      by (auto simp: after_1rtt_decrypt_def Let_def split: if_splits prod.splits sum.splits dest!: update_same confirm_next intro: ku_same_next)
    with p show ?thesis using ku_next_same ku_same_trans by blast
  qed
qed

lemma decrypt_cases:
  assumes "xqc_packet_decrypt now c pi = (c', pi', r)"
  shows "ku_same c c' \<or> ku_next c c'"
proof -
  have op: "ku_same c d \<or> ku_next c d" if "open_payload now c p = (d, p', v)" for p d p' v
  proof -
    let ?is = "pkt_type (pi_pkt p) = XQC_PTYPE_SHORT_HEADER \<and> xqc_packet_type_to_enc_level (pkt_type (pi_pkt p)) = XQC_ENC_LEV_1RTT"
    let ?o = "?is \<and> XQC_PACKET_SHORT_HEADER_KEY_PHASE (pi_buf p ! 0) \<noteq> next_in_key_phase (key_update_ctx c)"
    obtain c1 w where c1: "prepare_rx_keys now c ?o = (c1, w)" by fastforce
    have "d = c1 \<or> (\<exists>m. after_1rtt_decrypt now c1 (p\<lparr>decode_payload := m\<rparr>) ?o = (d, p', v))"
      using that unfolding open_payload_def Let_def c1 prod.case by (auto split: sum.splits if_splits)
    then show ?thesis
    proof
      assume "\<exists>m. after_1rtt_decrypt now c1 (p\<lparr>decode_payload := m\<rparr>) ?o = (d, p', v)"
      then obtain m where m: "after_1rtt_decrypt now c1 (p\<lparr>decode_payload := m\<rparr>) ?o = (d, p', v)" ..
      show ?thesis using after_1rtt_cases [OF m] ku_same_trans [OF prepare_same [OF c1]] ku_same_next [OF prepare_same [OF c1]] by blast
    qed (use prepare_same [OF c1] in simp)
  qed
  obtain buf v where h: "xqc_tls_decrypt_header (tls_crypto c (xqc_packet_type_to_enc_level (pkt_type (pi_pkt pi)))) (pkt_type (pi_pkt pi)) (pi_buf pi)
      (pkt_num_offset (pi_pkt pi)) (pkt_num_offset (pi_pkt pi) + unat (pkt_length (pi_pkt pi))) = (buf, v)" by fastforce
  have "c' = c \<or> open_payload now c (decode_number c (pi\<lparr>pi_buf := buf\<rparr>)) = (c', pi', r)"
    using assms unfolding xqc_packet_decrypt_def Let_def h prod.case by (auto split: if_splits sum.splits)
  with op show ?thesis by auto
qed

text \<open>\<open>f g\<close> packets have been sent under the keys of generation \<open>g\<close>; \<open>l\<close> is the limit of the suite.\<close>

definition sent_ok :: "u64 \<Rightarrow> (nat \<Rightarrow> nat) \<Rightarrow> xqc_conn_sec \<Rightarrow> bool" where
  "sent_ok l f c \<longleftrightarrow> xqc_tls_get_1rtt_cipher_id c \<noteq> 0 \<and> xqc_aead_confidentiality_limit (xqc_tls_get_1rtt_cipher_id c) = l
     \<and> (ku_lim c = 0 \<or> ku_lim c = l) \<and> (\<forall>g > ku_n c. f g = 0) \<and> (\<forall>g. f g \<le> unat l)
     \<and> f (ku_n c) \<le> unat (ku_cnt c) \<and> unat (ku_cnt c) \<le> unat l"

lemma sent_ok_same: "sent_ok l f c \<Longrightarrow> ku_same c c' \<Longrightarrow> sent_ok l f c'"
  by (simp add: sent_ok_def ku_same_def)

lemma sent_ok_next: "sent_ok l f c \<Longrightarrow> ku_next c c' \<Longrightarrow> sent_ok l f c'"
  by (auto simp: sent_ok_def ku_next_def)

lemma sent_ok_limit: "sent_ok l f c \<Longrightarrow> encrypt_limit c b = (c', r) \<Longrightarrow> sent_ok l f c'"
  using encrypt_limit_ctx(3) [of c b c' r] encrypt_limit_frame(1) [of c b c' r]
  by (auto simp: sent_ok_def xqc_tls_get_1rtt_cipher_id_def)

lemma unat_plus_one: "a < (b :: u64) \<Longrightarrow> unat (a + 1) = unat a + 1"
proof -
  assume "a < b"
  then have "unat a + 1 < 2 ^ 64" using unat_u64_less [of b] by (simp add: word_less_nat_alt)
  then show ?thesis by (simp add: unat_word_ariths)
qed

lemma sent_ok_count:
  assumes "sent_ok l f c" and "ku_cnt c < ku_lim c" and "encrypt_count now c = (c', r)"
  shows "sent_ok l (f(ku_n c := f (ku_n c) + 1)) c'" and "sent_ok l f c'"
proof -
  let ?c = "ku_set (\<lambda>ctx. ctx\<lparr>enc_pkt_cnt := enc_pkt_cnt ctx + 1\<rparr>) c" and ?f = "f(ku_n c := f (ku_n c) + 1)"
  have l: "ku_lim c = l" using assms(1,2) by (auto simp: sent_ok_def)
  then have u: "unat (ku_cnt c + 1) = unat (ku_cnt c) + 1" "unat (ku_cnt c) < unat l"
    using assms(2) unat_plus_one by (auto simp: word_less_nat_alt)
  have 1: "sent_ok l ?f ?c" and 2: "sent_ok l f ?c"
    using assms(1) u by (auto simp: sent_ok_def xqc_tls_get_1rtt_cipher_id_def)
  have n: "ku_next ?c c'" if "ku_next c c'" using that by (simp add: ku_next_def xqc_tls_get_1rtt_cipher_id_def)
  show "sent_ok l ?f c'" "sent_ok l f c'"
    using encrypt_count_cases [OF assms(3)] 1 2 n sent_ok_same sent_ok_next by blast+
qed

lemma encrypt_buf_type: "xqc_packet_encrypt_buf now c po cap = (c', po', r) \<Longrightarrow> po_pkt_type po' = po_pkt_type po"
  by (auto simp: xqc_packet_encrypt_buf_def Let_def split: if_splits sum.splits option.splits prod.splits)

lemma encrypt_buf_sent:
  assumes "sent_ok l f c" and e: "xqc_packet_encrypt_buf now c po cap = (c', po', r)"
  shows "sent_ok l f c'" and "r = Inr pkt \<Longrightarrow> po_pkt_type po = XQC_PTYPE_SHORT_HEADER \<Longrightarrow> sent_ok l (f(ku_n c := f (ku_n c) + 1)) c'"
proof -
  let ?b = "po_pkt_type po = XQC_PTYPE_SHORT_HEADER \<and> xqc_packet_type_to_enc_level (po_pkt_type po) = XQC_ENC_LEV_1RTT"
  have cnt: "sent_ok l (f(ku_n c := f (ku_n c) + 1)) c'" "sent_ok l f c'"
    if "encrypt_limit c ?b = (c1, Inr True)" "encrypt_count now c1 = (c', v)" for c1 v
  proof -
    note lim = encrypt_limit_ctx(3,4) [OF that(1)]
    have "ku_n c1 = ku_n c" using lim(1) by auto
    with sent_ok_count [OF sent_ok_limit [OF assms(1) that(1)] lim(2) [OF refl] that(2)]
    show "sent_ok l (f(ku_n c := f (ku_n c) + 1)) c'" "sent_ok l f c'" by simp_all
  qed
  show "sent_ok l f c'"
    using e
  proof (cases rule: encrypt_buf_cases)
    case (failed c1 v)
    from failed(2) have "ku_same c1 c'" by (auto intro: conn_err_same)
    then show ?thesis by (rule sent_ok_same [OF sent_ok_limit [OF assms(1) failed(1)]])
  qed (use assms(1) sent_ok_limit cnt in \<open>auto\<close>)
  assume r: "r = Inr pkt" and t: "po_pkt_type po = XQC_PTYPE_SHORT_HEADER"
  then have b: "?b" by simp
  from e show "sent_ok l (f(ku_n c := f (ku_n c) + 1)) c'"
  proof (cases rule: encrypt_buf_cases)
    case uncounted
    with encrypt_limit_ctx(5) [OF uncounted] b assms(1) show ?thesis by (auto simp: sent_ok_def)
  qed (use r cnt in auto)
qed

definition count_sent :: "(nat \<Rightarrow> nat) \<Rightarrow> nat option \<Rightarrow> nat \<Rightarrow> nat" where
  "count_sent f e = (case e of None \<Rightarrow> f | Some g \<Rightarrow> f(g := f g + 1))"

lemma enc_packet_sent:
  assumes s: "sent_ok l f c" and e: "xqc_conn_enc_packet now c path po cap t = (c', po', r)"
  shows "sent_ok l (count_sent f (sent_generation c po' r)) c'"
proof -
  define po1 where "po1 = (let po = xqc_short_packet_update_dcid po (sec_path_dcid path)
    in if xqc_need_padding c po then xqc_gen_padding_frame c po else po)"
  obtain c1 po2 where np: "number_packet c path po1 t = (c1, po2)" by fastforce
  obtain c2 po3 v where eb: "xqc_packet_encrypt_buf now c1 po2 cap = (c2, po3, v)" by (metis prod_cases3)
  have c1: "ku_same c c1" by (rule ku_sameI) (use number_packet_frame [OF np] in simp_all)
  note es = encrypt_buf_sent [OF sent_ok_same [OF s c1] eb]
  have n: "ku_n c1 = ku_n c" using c1 by (simp add: ku_same_def)
  have st: "sent_ok l f (c2\<lparr>conn_state := x\<rparr>) = sent_ok l f c2" for x by (simp add: sent_ok_def xqc_tls_get_1rtt_cipher_id_def)
  show ?thesis
    using e np eb es n encrypt_buf_type [OF eb] st
    by (auto simp: xqc_conn_enc_packet_def po1_def [unfolded Let_def, symmetric] Let_def count_sent_def sent_generation_def
        split: sum.splits if_splits)
qed

lemma enc_packet_pn_sent:
  assumes s: "sent_ok l f c" and e: "xqc_enc_packet_with_pn now c path po cap = (c', po', r)"
  shows "sent_ok l (count_sent f (sent_generation c po' r)) c'"
proof -
  define po1 where "po1 = (let po = xqc_short_packet_update_dcid po (sec_path_dcid path)
    in if xqc_need_padding c po then xqc_gen_padding_frame c po else po)"
  obtain c0 po0 where cv: "(if po_pkt_type po1 = XQC_PTYPE_0RTT \<and> conn_flag c AND XQC_CONN_FLAG_CAN_SEND_1RTT \<noteq> 0
      then xqc_convert_pkt_0rtt_2_1rtt c po1 else (c, po1)) = (c0, po0)" by fastforce
  obtain c1 po2 where np: "number_packet c0 path po0 now = (c1, po2)" by fastforce
  obtain c2 po3 v where eb: "xqc_packet_encrypt_buf now c1 po2 cap = (c2, po3, v)" by (metis prod_cases3)
  have "ku_same c c0" using cv conn_err_same by (auto split: if_splits dest!: convert_frame)
  moreover have "ku_same c0 c1" by (rule ku_sameI) (use number_packet_frame [OF np] in simp_all)
  ultimately have c1: "ku_same c c1" by (rule ku_same_trans)
  note es = encrypt_buf_sent [OF sent_ok_same [OF s c1] eb]
  have n: "ku_n c1 = ku_n c" using c1 by (simp add: ku_same_def)
  have st: "sent_ok l f (c2\<lparr>conn_state := x\<rparr>) = sent_ok l f c2" for x by (simp add: sent_ok_def xqc_tls_get_1rtt_cipher_id_def)
  show ?thesis
    using e cv np eb es n encrypt_buf_type [OF eb] st
    unfolding xqc_enc_packet_with_pn_def po1_def [unfolded Let_def, symmetric] Let_def
    by (auto simp: count_sent_def sent_generation_def split: sum.splits if_splits)
qed

lemma ku_exec_sent: "sent_ok l f c \<Longrightarrow> ku_exec c x = (c', e) \<Longrightarrow> sent_ok l (count_sent f e) c'"
proof -
  assume s: "sent_ok l f c" and x: "ku_exec c x = (c', e)"
  have n: "count_sent f None = f" by (simp add: count_sent_def)
  show ?thesis
  proof (cases x)
    case (Ku_Send now i po cap t)
    with s x n enc_packet_sent [OF s] show ?thesis by (auto split: option.splits prod.splits)
  next
    case (Ku_Send_Pn now i po cap)
    with s x n enc_packet_pn_sent [OF s] show ?thesis by (auto split: option.splits prod.splits)
  next
    case (Ku_Recv now pi)
    with x obtain pi' r where "xqc_packet_decrypt now c pi = (c', pi', r)" "e = None" by (metis ku_exec.simps(3) old.prod.inject prod.collapse)
    with s n decrypt_cases sent_ok_same sent_ok_next show ?thesis by metis
  next
    case (Ku_Acked i pn t)
    have "ku_same c (xqc_conn_on_key_phase_acked c path pn t)" for path
      by (simp add: ku_same_def xqc_conn_on_key_phase_acked_def Let_def xqc_tls_get_1rtt_cipher_id_def)
    with s x Ku_Acked n sent_ok_same show ?thesis by (auto split: option.splits)
  next
    case (Ku_Timer now)
    with s x n sent_ok_same [OF s discard_same] show ?thesis by (auto simp: xqc_timer_key_update_timeout_def split: if_splits)
  qed
qed

lemma ku_run_sent:
  "sent_ok l f c \<Longrightarrow> ku_run c xs = (c', es) \<Longrightarrow> sent_ok l (\<lambda>g. f g + count_list es g) c'"
proof (induction xs arbitrary: f c es)
  case (Cons x xs)
  obtain c1 e where x: "ku_exec c x = (c1, e)" by fastforce
  obtain es1 where xs: "ku_run c1 xs = (c', es1)" "es = (case e of None \<Rightarrow> es1 | Some g \<Rightarrow> g # es1)"
    using Cons.prems(2) x by (auto split: prod.splits)
  have "sent_ok l (\<lambda>g. count_sent f e g + count_list es1 g) c'" by (rule Cons.IH [OF ku_exec_sent [OF Cons.prems(1) x] xs(1)])
  moreover have "(\<lambda>g. count_sent f e g + count_list es1 g) = (\<lambda>g. f g + count_list es g)"
    unfolding xs(2) by (auto simp: count_sent_def fun_eq_iff split: option.splits)
  ultimately show ?case by simp
qed simp

section \<open>A key update of the peer\<close>

text \<open>The keys for the next phase, before a packet of that phase is opened.\<close>

lemma prepare_next:
  assumes k: "kdf_works k" "length rs \<le> XQC_MAX_KNP_LEN" and c: "ku_keys k rs ts c"
    and o: "other_rx_keys (key_update_ctx c) \<noteq> XQC_KU_RX_KEYS_OLD"
  obtains c' rx tx where "prepare_rx_keys now c True = (c', Inr ())" and "ku_keys k rs ts c'"
    and "other_rx_keys (key_update_ctx c') = XQC_KU_RX_KEYS_NEXT" and "ku_n c' = ku_n c" and "enable_multipath c' = enable_multipath c"
    and "tls_crypto c' XQC_ENC_LEV_1RTT = Some (with_keys k (ku_n c mod 2) rx tx)" and "rx ! (Suc (ku_n c) mod 2) = gen_km k rs (ku_n c + 1)"
proof -
  obtain n rx tx where f: "ku_n c = n" "tls_crypto c XQC_ENC_LEV_1RTT = Some (with_keys k (n mod 2) rx tx)"
      "length rx = 2" "length tx = 2" "cur_out_key_phase (key_update_ctx c) = n mod 2" "next_in_key_phase (key_update_ctx c) = n mod 2"
      "rx ! (n mod 2) = gen_km k rs n" "tx ! (n mod 2) = gen_km k ts n"
    and nx: "other_rx_keys (key_update_ctx c) = XQC_KU_RX_KEYS_NEXT \<Longrightarrow> rx ! (Suc n mod 2) = gen_km k rs (n + 1)"
    by (rule ku_keysE [OF c]) (use o in auto)
  show thesis
  proof (cases "other_rx_keys (key_update_ctx c) = XQC_KU_RX_KEYS_NONE")
    case True
    let ?rx = "rx[Suc n mod 2 := gen_km k rs (n + 1)]"
    let ?c = "ku_set (\<lambda>ctx. ctx\<lparr>other_rx_keys := XQC_KU_RX_KEYS_NEXT\<rparr>) (crypto_set XQC_ENC_LEV_1RTT (with_keys k (n mod 2) ?rx tx) c)"
    have p: "prepare_rx_keys now c True = (?c, Inr ())"
      unfolding prepare_rx_keys_def Let_def using True update_keys(1) [OF k(1) f(3,4,2) k(2) f(7)] by simp
    moreover have "ku_keys k rs ts ?c" using prepare_keys [OF k c, of now True] p by simp
    ultimately show thesis by (rule that [of _ ?rx tx]) (use f in simp_all)
  next
    case False
    with o have "other_rx_keys (key_update_ctx c) = XQC_KU_RX_KEYS_NEXT" by (cases "other_rx_keys (key_update_ctx c)") simp_all
    moreover from this have "prepare_rx_keys now c True = (c, Inr ())" by (simp add: prepare_rx_keys_def)
    ultimately show thesis using that [of c rx tx] c f nx by simp
  qed
qed

lemma open_payload_next:
  assumes t: "pkt_type (pi_pkt pi) = XQC_PTYPE_SHORT_HEADER"
    and phase: "XQC_PACKET_SHORT_HEADER_KEY_PHASE (pi_buf pi ! 0) \<noteq> next_in_key_phase (key_update_ctx r)"
    and p: "prepare_rx_keys now r True = (r1, Inr ())"
    and dec: "xqc_tls_decrypt_payload (tls_crypto r1 XQC_ENC_LEV_1RTT) XQC_ENC_LEV_1RTT (pkt_num (pi_pkt pi))
        (if enable_multipath r1 then ucast (pi_path_id pi) else 0)
        (take (pkt_num_offset (pi_pkt pi) + XQC_PACKET_SHORT_HEADER_PKTNO_LEN (pi_buf pi ! 0)) (pi_buf pi))
        (take (unat (pkt_length (pi_pkt pi)) - XQC_PACKET_SHORT_HEADER_PKTNO_LEN (pi_buf pi ! 0))
          (drop (pkt_num_offset (pi_pkt pi) + XQC_PACKET_SHORT_HEADER_PKTNO_LEN (pi_buf pi ! 0)) (pi_buf pi)))
        (decode_payload_size pi) = Inr m"
  shows "open_payload now r pi = after_1rtt_decrypt now r1 (pi\<lparr>decode_payload := m\<rparr>) True"
proof -
  have o: "((pkt_type (pi_pkt pi) = XQC_PTYPE_SHORT_HEADER \<and> XQC_ENC_LEV_1RTT = XQC_ENC_LEV_1RTT)
      \<and> XQC_PACKET_SHORT_HEADER_KEY_PHASE (pi_buf pi ! 0) \<noteq> next_in_key_phase (key_update_ctx r)) = True" using t phase by blast
  have l: "xqc_packet_type_to_enc_level (pkt_type (pi_pkt pi)) = XQC_ENC_LEV_1RTT" by (simp add: t)
  show ?thesis unfolding open_payload_def Let_def l o p prod.case sum.case dec by (simp add: t)
qed

text \<open>Suites of two endpoints, the first one writing and the second one reading.\<close>

definition suites_match :: "xqc_crypto \<Rightarrow> xqc_crypto \<Rightarrow> bool" where
  "suites_match s r \<longleftrightarrow> rx_hp r = tx_hp s \<and> hp_mask (hp_cipher r) = hp_mask (hp_cipher s) \<and> hkdf_expand r = hkdf_expand s
     \<and> aead_keylen (pp_aead r) = aead_keylen (pp_aead s) \<and> aead_noncelen (pp_aead r) = aead_noncelen (pp_aead s)
     \<and> aead_taglen (pp_aead r) = aead_taglen (pp_aead s) \<and> aead_correct (pp_aead s) (pp_aead r)"

lemma suites_gen:
  assumes "suites_match s r"
  shows "gen_km r w n = gen_km s w n"
proof -
  have "gen_secret r w n = gen_secret s w n" using assms by (induction n) (simp_all add: next_secret_def suites_match_def xqc_hkdf_expand_label_def)
  with assms show ?thesis by (simp add: secret_km_def suites_match_def xqc_hkdf_expand_label_def)
qed

lemma phase_less: "XQC_PACKET_SHORT_HEADER_KEY_PHASE b < 2"
proof -
  have "drop_bit 2 (b AND 0x04) = drop_bit 2 b AND 1" by simp
  then have "unat (drop_bit 2 (b AND 0x04)) \<le> unat (1 :: u8)" using word_and_le1 [of "drop_bit 2 b" 1] by (simp only: word_le_nat_alt)
  then show ?thesis by (simp add: XQC_PACKET_SHORT_HEADER_KEY_PHASE_def)
qed

section \<open>Properties\<close>

text \<open>C4: Key updates never confuse the keys (RFC 9001, section 6), as long as the TLS library derives keys as documented (\<open>kdf_works\<close>) and the
  secrets of the handshake fit the buffers. Whatever packets a connection sends and receives, in whatever order with
  acknowledgments and the key update timer, after \<open>n\<close> key updates it writes and reads with the keys of generation \<open>n\<close> under the key phase
  bit \<open>n mod 2\<close>; the second slot for reading holds exactly the generation that \<open>other_rx_keys\<close> says, and the keys of generation
  \<open>n - 1\<close> are kept, without a running deadline, until the peer has answered an update that this endpoint has started.\<close>

theorem key_generations:
  assumes "kdf_works k" and "length rs \<le> XQC_MAX_KNP_LEN" and "length ts \<le> XQC_MAX_KNP_LEN" and "ku_start k rs ts c"
  shows "ku_keys k rs ts (fst (ku_run c xs))"
  by (rule ku_run_keys [OF assms(1-3) ku_start_keys [OF assms(4)]])

text \<open>C5: The confidentiality limit of the AEAD holds (RFC 9001, section 6.6). In every run of a connection, at most as many 1-RTT packets go
  to the wire under the keys of one generation as \<open>xqc_aead_confidentiality_limit\<close> allows for the cipher suite. No assumption on the key
  derivation is needed: when an update fails the packets are refused instead.\<close>

theorem aead_limit_respected:
  assumes "ku_start k rs ts c" and "cipher_id k \<noteq> 0"
  shows "count_list (snd (ku_run c xs)) g \<le> unat (xqc_aead_confidentiality_limit (cipher_id k))"
proof -
  have "sent_ok (xqc_aead_confidentiality_limit (cipher_id k)) (\<lambda>_. 0) c"
    using assms by (auto simp: sent_ok_def ku_start_def xqc_tls_get_1rtt_cipher_id_def xqc_conn_init_key_update_ctx_def)
  from ku_run_sent [OF this, of xs "fst (ku_run c xs)" "snd (ku_run c xs)"] show ?thesis by (simp add: sent_ok_def)
qed

text \<open>C13: A key update of the peer is followed (RFC 9001, section 6.2). A receiver of generation \<open>n\<close> that has no old keys left opens the
  packet that a sender of generation \<open>n + 1\<close> has protected: it gets the payload and the packet number, and it is itself in generation
  \<open>n + 1\<close> afterwards, for both directions. The TLS library derives keys as documented (\<open>kdf_works\<close>).\<close>

theorem key_update_followed:
  assumes enc: "xqc_packet_encrypt_buf now s po cap = (s', po', Inr pkt)" and ready: "po_ready po" and pi: "pi_parsed pi po pkt"
    and t: "po_pkt_type po = XQC_PTYPE_SHORT_HEADER" "XQC_PACKET_SHORT_HEADER_KEY_PHASE (po_buf po ! 0) = cur_out_key_phase (key_update_ctx s)"
    and s: "ku_keys ks v w s" and r: "ku_keys kr w u r" and m: "suites_match ks kr" and gen: "ku_n s = ku_n r + 1"
    and o: "other_rx_keys (key_update_ctx r) \<noteq> XQC_KU_RX_KEYS_OLD"
    and k: "kdf_works kr" "length w \<le> XQC_MAX_KNP_LEN" "length u \<le> XQC_MAX_KNP_LEN"
    and mp: "enable_multipath r = enable_multipath s"
    and window: "pn_in_window (XQC_PACKET_SHORT_HEADER_PKTNO_LEN (po_buf po ! 0)) (largest_recv r pi) (po_pkt_num po)"
  shows "\<exists>r' pi'. xqc_packet_decrypt now' r pi = (r', pi', Inr ()) \<and> decode_payload pi' = po_frames po
    \<and> pkt_num (pi_pkt pi') = po_pkt_num po \<and> ku_keys kr w u r' \<and> ku_n r' = ku_n s"
proof -
  let ?k = "XQC_PACKET_SHORT_HEADER_PKTNO_LEN (po_buf po ! 0)" and ?n = "ku_n r"
  have pt: "pkt_type (pi_pkt pi) = XQC_PTYPE_SHORT_HEADER" using pi t by (simp add: pi_parsed_def)
  obtain srx stx where cs: "tls_crypto s XQC_ENC_LEV_1RTT = Some (with_keys ks (Suc ?n mod 2) srx stx)"
    and ph: "cur_out_key_phase (key_update_ctx s) = Suc ?n mod 2" and stx: "stx ! (Suc ?n mod 2) = gen_km ks w (?n + 1)"
    by (rule ku_keysE [OF s]) (use gen in auto)
  obtain rrx rtx where cr: "tls_crypto r XQC_ENC_LEV_1RTT = Some (with_keys kr (?n mod 2) rrx rtx)"
    and rph: "next_in_key_phase (key_update_ctx r) = ?n mod 2"
    by (rule ku_keysE [OF r]) auto
  obtain r1 rx1 tx1 where p: "prepare_rx_keys now' r True = (r1, Inr ())" and r1: "ku_keys kr w u r1"
      "other_rx_keys (key_update_ctx r1) = XQC_KU_RX_KEYS_NEXT" "ku_n r1 = ?n" "enable_multipath r1 = enable_multipath r"
      "tls_crypto r1 XQC_ENC_LEV_1RTT = Some (with_keys kr (?n mod 2) rx1 tx1)" "rx1 ! (Suc ?n mod 2) = gen_km kr w (?n + 1)"
    by (rule prepare_next [OF k(1,2) r o])
  obtain h ep rest where h: "h ! 0 = po_buf po ! 0" "length h = pkt_num_offset (pi_pkt pi) + ?k" "0 < pkt_num_offset (pi_pkt pi)"
      "unat (pkt_length (pi_pkt pi)) = ?k + length ep" "drop (pkt_num_offset (pi_pkt pi)) h = be_bytes ?k (po_pkt_num po)"
      "length ep \<le> decode_payload_size pi"
    and dh: "xqc_crypto_decrypt_header (with_keys kr (?n mod 2) rrx rtx) (pkt_type (pi_pkt pi)) (pi_buf pi) (pkt_num_offset (pi_pkt pi))
           (pkt_num_offset (pi_pkt pi) + (?k + length ep)) = (h @ ep @ rest, Inr ())"
    and pay: "xqc_tls_encrypt_payload (with_keys ks (Suc ?n mod 2) srx stx) XQC_ENC_LEV_1RTT (po_pkt_num po)
           (if enable_multipath s then ucast (pi_path_id pi) else 0) h (po_frames po) (cap - po_payload po) = Inr ep"
    by (rule protected_parts [OF enc ready pi, of "with_keys ks (Suc ?n mod 2) srx stx" "with_keys kr (?n mod 2) rrx rtx"])
      (use cs t m in \<open>simp_all add: suites_match_def\<close>)
  obtain pi0 where op: "xqc_packet_decrypt now' r pi = open_payload now' r pi0" and p0: "pi_buf pi0 ! 0 = h ! 0"
      "pi_pkt pi0 = (pi_pkt pi)\<lparr>pkt_num := po_pkt_num po\<rparr>" "pi_path_id pi0 = pi_path_id pi" "decode_payload_size pi0 = decode_payload_size pi"
      "take (pkt_num_offset (pi_pkt pi) + ?k) (pi_buf pi0) = h" "take (unat (pkt_length (pi_pkt pi)) - ?k) (drop (pkt_num_offset (pi_pkt pi) + ?k) (pi_buf pi0)) = ep"
    by (rule decrypt_to_open [of r pi "with_keys kr (?n mod 2) rrx rtx" h ep rest "po_pkt_num po" now'])
      (use cr window h dh in \<open>simp_all add: pt\<close>)
  have lp: "level_phase XQC_ENC_LEV_1RTT (h ! 0) = Suc ?n mod 2" using t(2) ph by (simp add: level_phase_def h(1))
  have "keys_match (with_keys ks (Suc ?n mod 2) srx stx) (with_keys kr (?n mod 2) rx1 tx1) (Suc ?n mod 2)"
    using m stx r1(6) suites_gen [OF m, of w "?n + 1"] by (simp add: keys_match_def suites_match_def)
  then have dec: "xqc_tls_decrypt_payload (tls_crypto r1 XQC_ENC_LEV_1RTT) XQC_ENC_LEV_1RTT (po_pkt_num po)
      (if enable_multipath r1 then ucast (pi_path_id pi) else 0) h ep (decode_payload_size pi) = Inr (po_frames po)"
    using tls_payload_roundtrip(1) [OF pay _ h(6)] lp by (simp add: r1 mp)
  have "open_payload now' r pi0 = after_1rtt_decrypt now' r1 (pi0\<lparr>decode_payload := po_frames po\<rparr>) True"
    by (rule open_payload_next [OF _ _ p])
      (use dec p0(5,6) t(2) ph rph mod_neq [of ?n] in \<open>simp_all add: pt p0(1-4) h(1) split: if_splits\<close>)
  with after_1rtt_next [OF k(1,3) r1(1,2), of now' "pi0\<lparr>decode_payload := po_frames po\<rparr>"] show ?thesis
    by (auto simp: op p0 r1 gen)
qed

definition suite_example :: xqc_crypto where
  "suite_example = crypto_example\<lparr>cipher_id := XQC_TLS13_AES_128_GCM_SHA256\<rparr>"

definition conn_ku_example :: xqc_conn_sec where
  "conn_ku_example = conn_sec_example
     \<lparr>tls_crypto := (\<lambda>_. Some (with_keys suite_example 0 [secret_km suite_example [9], km_init] [secret_km suite_example [9], km_init]))\<rparr>"

definition conn_ku_next_example :: xqc_conn_sec where
  "conn_ku_next_example = conn_sec_example
     \<lparr>tls_crypto := (\<lambda>_. Some (with_keys suite_example 1 [gen_km suite_example [9] 0, gen_km suite_example [9] 1]
                                [gen_km suite_example [9] 0, gen_km suite_example [9] 1])),
      key_update_ctx := ku_example\<lparr>cur_out_key_phase := 1, next_in_key_phase := 1, key_update_cnt := 1, other_rx_keys := XQC_KU_RX_KEYS_OLD\<rparr>\<rparr>"

definition po_ku_example :: xqc_packet_out_sec where
  "po_ku_example = po_sec_example\<lparr>po_buf := [0x47, 0, 0, 0, 7] @ replicate 20 9\<rparr>"

lemma suite_example_simps [simp]:
  "pp_aead suite_example = xqc_aead_init_null 16 0" "hp_cipher suite_example = xqc_cipher_init_null"
  "rx_hp suite_example = [1]" "tx_hp suite_example = [1]" "cipher_id suite_example = XQC_TLS13_AES_128_GCM_SHA256"
  "hkdf_expand suite_example s l n = (if n \<le> 8160 then Some (replicate n 7) else None)"
  "xqc_hkdf_expand_label suite_example s l' n = (if n \<le> 8160 then Some (replicate n 7) else None)"
  by (simp_all add: suite_example_def crypto_example_def xqc_crypto_create_def xqc_hkdf_expand_label_def XQC_TLS13_AES_128_GCM_SHA256_def XQC_TLS13_AES_256_GCM_SHA384_def
      XQC_TLS13_CHACHA20_POLY1305_SHA256_def XQC_FAKE_AEAD_OVERHEAD_def XQC_TLS_AEAD_OVERHEAD_MAX_LEN_def)

lemma suite_example_ok: "kdf_works suite_example" "suites_match suite_example suite_example"
  by (simp add: kdf_works_def xqc_aead_init_null_def XQC_MAX_KNP_LEN_def) (simp add: suites_match_def null_aead_correct)

lemma conn_ku_example_start: "ku_start suite_example [9] [9] conn_ku_example"
proof -
  have "ku_example = xqc_conn_init_key_update_ctx ku_example" "key_update_cnt ku_example = 0"
    by (simp_all add: xqc_conn_init_key_update_ctx_def ku_example_def)
  then have "\<exists>ctx. ku_example = xqc_conn_init_key_update_ctx ctx \<and> key_update_cnt ctx = 0" by blast
  then show ?thesis
    by (simp add: ku_start_def conn_ku_example_def) (simp add: sec_example_defs xqc_timer_init_def xqc_timer_is_set_def)
qed

theorem key_generations_witness:
  "ku_keys suite_example [9] [9] (fst (ku_run conn_ku_example [Ku_Send 5 0 po_sec_example 100 1, Ku_Recv 6 (pi_sec_example (replicate 41 3)), Ku_Timer 9]))"
  by (rule key_generations) (simp_all add: suite_example_ok conn_ku_example_start XQC_MAX_KNP_LEN_def)

theorem aead_limit_respected_witness:
  "count_list (snd (ku_run conn_ku_example (replicate 3 (Ku_Send 5 0 po_sec_example 100 1)))) 0 \<le> 2 ^ 23"
  using aead_limit_respected [OF conn_ku_example_start, of "replicate 3 (Ku_Send 5 0 po_sec_example 100 1)" 0]
  by (simp add: xqc_aead_confidentiality_limit_def XQC_TLS13_AES_128_GCM_SHA256_def XQC_TLS13_AES_256_GCM_SHA384_def)

lemma conn_ku_examples:
  "ku_keys suite_example [9] [9] conn_ku_example" "ku_keys suite_example [9] [9] conn_ku_next_example"
  using ku_start_keys [OF conn_ku_example_start] 
  by (simp_all add: ku_keys_def Let_def conn_ku_next_example_def ku_example_def flip_phase_def)

lemma header_ku_example:
  "XQC_PACKET_SHORT_HEADER_PKTNO_LEN 0x47 = 4" "XQC_PACKET_SHORT_HEADER_KEY_PHASE 0x47 = 1"
  by (simp_all add: XQC_PACKET_SHORT_HEADER_PKTNO_LEN_def XQC_PACKET_SHORT_HEADER_KEY_PHASE_def)

lemma po_ku_example_simps [simp]:
  "po_pkt_type po_ku_example = XQC_PTYPE_SHORT_HEADER" "po_ppktno po_ku_example = 1" "po_payload po_ku_example = 5"
  "po_used_size po_ku_example = 25" "po_buf po_ku_example = [0x47, 0, 0, 0, 7] @ replicate 20 9" "po_pkt_num po_ku_example = 7" "po_path_id po_ku_example = 0"
  by (simp_all add: po_ku_example_def)

lemma po_ku_example_ready: "po_ready po_ku_example"
  by (simp add: po_ready_def header_ku_example header_example Let_def)

lemma po_ku_example_encrypt:
  "\<exists>s' po'. xqc_packet_encrypt_buf 0 conn_ku_next_example po_ku_example 100 =
     (s', po', Inr (([0x47, 0, 0, 0, 7] @ replicate 20 9) @ replicate 16 0))"
proof -
  let ?c = "conn_ku_next_example" and ?cr = "with_keys suite_example 1 [gen_km suite_example [9] 0, gen_km suite_example [9] 1]
                                [gen_km suite_example [9] 0, gen_km suite_example [9] 1]"
  let ?c1 = "ku_set (\<lambda>ctx. ctx\<lparr>aead_confidentiality_limit := 8388608\<rparr>) ?c"
  have cr: "tls_crypto ?c XQC_ENC_LEV_1RTT = Some ?cr" by (simp add: conn_ku_next_example_def)
  have km: "gen_km suite_example [9] 1 = \<lparr>km_key = [7], km_iv = replicate 8 7, km_secret = [7]\<rparr>"
    by (simp add: secret_km_def next_secret_def xqc_aead_init_null_def max_def)
  have ready: "xqc_tls_is_key_ready ?c XQC_ENC_LEV_1RTT XQC_KEY_TYPE_TX_WRITE"
    using km by (simp add: xqc_tls_is_key_ready_def xqc_crypto_is_key_ready_def get_ckm_def cr)
  have lim: "encrypt_limit ?c True = (?c1, Inr True)"
    by (simp add: encrypt_limit_def xqc_tls_get_1rtt_cipher_id_def cr xqc_aead_confidentiality_limit_def XQC_TLS13_AES_128_GCM_SHA256_def
        XQC_TLS13_AES_256_GCM_SHA384_def xqc_packet_check_aead_confidentiality_limit_def)
      (simp add: conn_ku_next_example_def ku_example_def)
  have pay: "xqc_tls_encrypt_payload ?cr XQC_ENC_LEV_1RTT 7 0 [0x47, 0, 0, 0, 7] (replicate 20 9) 95 = Inr (replicate 20 9 @ replicate 16 0)"
    using km by (simp add: xqc_tls_encrypt_payload_def header_ku_example XQC_KEY_PHASE_CNT_def xqc_crypto_encrypt_payload_def
        xqc_aead_init_null_def xqc_null_aead_encrypt_def Let_def)
  have hdr: "xqc_crypto_encrypt_header ?cr XQC_PTYPE_SHORT_HEADER ([0x47, 0, 0, 0, 7] @ replicate 20 9 @ replicate 16 0) 1
      (length ([0x47, 0, 0, 0, 7] @ replicate 20 9 @ replicate 16 (0 :: u8))) = Inr ([0x47, 0, 0, 0, 7] @ replicate 20 9 @ replicate 16 0)"
    by (simp add: xqc_crypto_encrypt_header_def header_ku_example xqc_crypto_check_hp_sample_def XQC_HP_SAMPLELEN_def
        xqc_cipher_init_null_def xqc_null_hp_mask_def XQC_FAKE_HP_MASK_def XQC_HP_MASKLEN_def xor_at_def Let_def numeral_eq_Suc)
  have cnt: "encrypt_count 0 ?c1 = (ku_set (\<lambda>ctx. ctx\<lparr>enc_pkt_cnt := enc_pkt_cnt ctx + 1\<rparr>) ?c1, Inr ())"
    by (simp add: encrypt_count_def Let_def xqc_packet_can_initiate_key_update_def)
  have c1: "tls_crypto ?c1 XQC_ENC_LEV_1RTT = Some ?cr" "xqc_conn_find_path_by_path_id ?c1 0 = Some path_sec_example" "\<not> enable_multipath ?c1"
    using cr sec_example_simps(4) by (simp_all add: xqc_conn_find_path_by_path_id_def) (simp_all add: conn_ku_next_example_def)
  show ?thesis
    using ready lim pay hdr cnt c1 by (simp add: xqc_packet_encrypt_buf_def Let_def refresh_length_def)
qed

theorem key_update_followed_witness:
  "\<exists>s' po' pkt r' pi'. xqc_packet_encrypt_buf 0 conn_ku_next_example po_ku_example 100 = (s', po', Inr pkt)
     \<and> xqc_packet_decrypt 0 conn_ku_example (pi_sec_example pkt) = (r', pi', Inr ())
     \<and> decode_payload pi' = replicate 20 9 \<and> pkt_num (pi_pkt pi') = 7 \<and> key_update_cnt (key_update_ctx r') = 1"
proof -
  let ?pkt = "([0x47, 0, 0, 0, 7] @ replicate 20 9) @ replicate 16 0 :: bytes"
  obtain s' po' where enc: "xqc_packet_encrypt_buf 0 conn_ku_next_example po_ku_example 100 = (s', po', Inr ?pkt)"
    using po_ku_example_encrypt by blast
  have pi: "pi_parsed (pi_sec_example ?pkt) po_ku_example ?pkt"
    by (simp add: pi_parsed_def pi_sec_example_def xqc_packet_in_hdr.defs pi_hdr_example_def)
  have f: "xqc_conn_find_path_by_path_id conn_ku_example 0 = Some path_sec_example"
    using sec_example_simps(4) by (simp add: xqc_conn_find_path_by_path_id_def conn_ku_example_def)
  have lr: "largest_recv conn_ku_example (pi_sec_example ?pkt) = 0"
    by (simp add: largest_recv_def pi_sec_example_def xqc_packet_in_hdr.defs f) (simp add: path_sec_example_def xqc_recv_record_largest_def)
  have ku_fields: "key_update_ctx conn_ku_example = ku_example" "cur_out_key_phase (key_update_ctx conn_ku_next_example) = 1"
    "ku_n conn_ku_next_example = 1" "ku_n conn_ku_example = 0" "other_rx_keys ku_example = XQC_KU_RX_KEYS_NONE" "key_update_cnt ku_example = 0"
    "enable_multipath conn_ku_example = enable_multipath conn_ku_next_example"
    by (simp_all add: conn_ku_example_def conn_ku_next_example_def ku_example_def)
  have "\<exists>r' pi'. xqc_packet_decrypt 0 conn_ku_example (pi_sec_example ?pkt) = (r', pi', Inr ()) \<and> decode_payload pi' = po_frames po_ku_example
    \<and> pkt_num (pi_pkt pi') = po_pkt_num po_ku_example \<and> ku_keys suite_example [9] [9] r' \<and> ku_n r' = ku_n conn_ku_next_example"
    by (rule key_update_followed [OF enc po_ku_example_ready pi _ _ conn_ku_examples(2) conn_ku_examples(1) suite_example_ok(2)])
      (simp_all add: suite_example_ok(1) lr [simplified] pn_in_window_def header_ku_example XQC_MAX_KNP_LEN_def ku_fields)
  with enc show ?thesis by (auto simp: po_frames_def conn_ku_next_example_def)
qed

end
