(* ===== verification/Packet_Process.thy ===== *)
theory Packet_Process
  imports Packet_Protect Ack_Frame
begin

text \<open>
  The way of a UDP datagram through the connection: \<open>xqc_conn_process_packet\<close> and the packets kept until their keys are
  ready in transport/xqc_conn.c, the functions of transport/xqc_packet.c for one packet, and the loop of
  \<open>xqc_process_frames\<close> with its dispatch tables in transport/xqc_frame.c.

  The handlers of the frames, the acceptance of a connection by a server and the bookkeeping after a packet are functions
  of the record \<open>rx_env\<close>. A loop is a partial function: its value is \<open>None\<close> when it does not end. The model is the
  default build, without forward error correction and without the protection against PING floods.
\<close>

section \<open>Data\<close>

text \<open>
  A packet with the view that the frame parsers have of it: the bytes between \<open>pos\<close> and \<open>last\<close> once they are pointers into the
  decrypted payload, and the frames seen so far.
\<close>

record xqc_packet_in_rx =
  rx_pi :: xqc_packet_in_sec
  rx_frames :: xqc_packet_in
  pkt_recv_time :: u64

record xqc_rcv_pkt_stats =
  st_pkt_types :: "xqc_pkt_type list"
  st_pkt_frames :: "u64 list"
  st_pkt_size :: "u32 list"
  st_pkt_udp_size :: "u32 list"
  st_pkt_err :: "unit res list"
  st_pkt_timestamp :: "u64 list"
  st_pkt_pn :: "u64 list"
  st_curr_index :: nat
  conn_rcvd_pkts :: u32
  conn_authenticated_pkts :: u32

record xqc_conn_rx =
  rx_sec :: xqc_conn_sec
  local_reset_stream_at :: bool
  conn_create_time :: u64
  packet_dropped_count :: u64
  undecrypt_packet_in :: "xqc_encrypt_level \<Rightarrow> xqc_packet_in_rx list"
  undecrypt_count :: "xqc_encrypt_level \<Rightarrow> u32"
  rcv_pkt_stats :: xqc_rcv_pkt_stats
  ctl_dgram_recv_count :: "u64 \<Rightarrow> u32"
  ctl_reinj_dgram_recv_count :: "u64 \<Rightarrow> u32"

datatype xqc_frame_handler =
    Process_padding | Process_ping | Process_ack | Process_reset_stream | Process_reset_stream_with_reset_at
  | Process_reset_stream_at | Process_stop_sending | Process_crypto | Process_new_token | Process_stream
  | Process_max_data | Process_max_stream_data | Process_max_streams | Process_data_blocked
  | Process_stream_data_blocked | Process_streams_blocked | Process_new_conn_id | Process_retire_conn_id
  | Process_path_challenge | Process_path_response | Process_conn_close | Process_handshake_done | Process_datagram
  | Process_ack_ext | Process_ack_mp | Process_path_ack_ecn | Process_path_abandon | Process_path_status
  | Process_mp_new_conn_id | Process_mp_retire_conn_id | Process_max_path_id | Process_paths_blocked
  | Process_path_cids_blocked | Parse_path_status

text \<open>What the modelled code calls in other parts of the connection.\<close>

record rx_env =
  env_retry :: "unit xqc_conn_sec_ext retry_env"
  env_handler :: "xqc_frame_handler \<Rightarrow> xqc_conn_rx \<Rightarrow> xqc_packet_in_rx \<Rightarrow> xqc_conn_rx \<times> xqc_packet_in_rx \<times> unit res"
  env_immediate_close :: "xqc_conn_rx \<Rightarrow> xqc_conn_rx"
  env_server_accept :: "xqc_conn_rx \<Rightarrow> xqc_packet_in_rx \<Rightarrow> xqc_conn_rx \<times> unit res"
  env_on_pkt_processed :: "xqc_conn_rx \<Rightarrow> xqc_packet_in_rx \<Rightarrow> u64 \<Rightarrow> xqc_conn_rx \<times> unit res"
  env_malloc_ok :: bool

type_synonym rx_result = "xqc_conn_rx \<times> xqc_packet_in_rx \<times> unit res"

definition XQC_CONN_FLAG_HANDSHAKE_COMPLETED :: u64 where "XQC_CONN_FLAG_HANDSHAKE_COMPLETED = push_bit 1 1"
definition XQC_CONN_FLAG_HAS_0RTT :: u64 where "XQC_CONN_FLAG_HAS_0RTT = push_bit 10 1"
definition XQC_CONN_FLAG_SERVER_ACCEPT :: u64 where "XQC_CONN_FLAG_SERVER_ACCEPT = push_bit 41 1"

definition XQC_UNDECRYPT_0RTT_MAX_BEFORE_INIT :: u32 where "XQC_UNDECRYPT_0RTT_MAX_BEFORE_INIT = 10"
definition XQC_UNDECRYPT_PACKET_MAX :: u32 where "XQC_UNDECRYPT_PACKET_MAX = 100"
definition XQC_MAX_PACKET_IN_LEN :: nat where "XQC_MAX_PACKET_IN_LEN = 1500"
definition XQC_UNKNOWN_PATH_ID :: u64 where "XQC_UNKNOWN_PATH_ID = - 1"

abbreviation rx_conn_err :: "xqc_conn_rx \<Rightarrow> u64 \<Rightarrow> xqc_conn_rx" where
  "rx_conn_err c e \<equiv> c\<lparr>rx_sec := XQC_CONN_ERR (rx_sec c) e\<rparr>"

definition rx_set_rest :: "bytes \<Rightarrow> xqc_packet_in_rx \<Rightarrow> xqc_packet_in_rx" where
  "rx_set_rest p pi = pi\<lparr>rx_frames := (rx_frames pi)\<lparr>pi_rest := p\<rparr>\<rparr>"

section \<open>Frames\<close>

definition XQC_TRANS_FRAME_TYPE_MP_ACK1 :: u64 where "XQC_TRANS_FRAME_TYPE_MP_ACK1 = 0x15228c01"
definition XQC_TRANS_FRAME_TYPE_PATH_ACK_ECN :: u64 where "XQC_TRANS_FRAME_TYPE_PATH_ACK_ECN = 0x3f"
definition XQC_TRANS_FRAME_TYPE_MP_ABANDON :: u64 where "XQC_TRANS_FRAME_TYPE_MP_ABANDON = 0x15228c05"
definition XQC_TRANS_FRAME_TYPE_MP_STANDBY :: u64 where "XQC_TRANS_FRAME_TYPE_MP_STANDBY = 0x15228c07"
definition XQC_TRANS_FRAME_TYPE_MP_AVAILABLE :: u64 where "XQC_TRANS_FRAME_TYPE_MP_AVAILABLE = 0x15228c08"
definition XQC_TRANS_FRAME_TYPE_MP_NEW_CONN_ID :: u64 where "XQC_TRANS_FRAME_TYPE_MP_NEW_CONN_ID = 0x15228c09"
definition XQC_TRANS_FRAME_TYPE_MP_RETIRE_CONN_ID :: u64 where "XQC_TRANS_FRAME_TYPE_MP_RETIRE_CONN_ID = 0x15228c0a"
definition XQC_TRANS_FRAME_TYPE_MAX_PATH_ID :: u64 where "XQC_TRANS_FRAME_TYPE_MAX_PATH_ID = 0x15228c0c"
definition XQC_TRANS_FRAME_TYPE_MP_FROZEN :: u64 where "XQC_TRANS_FRAME_TYPE_MP_FROZEN = 0x15228cff"
definition XQC_TRANS_FRAME_TYPE_PATH_ABANDON_V21 :: u64 where "XQC_TRANS_FRAME_TYPE_PATH_ABANDON_V21 = 0x3e75"
definition XQC_TRANS_FRAME_TYPE_PATH_STATUS_BACKUP :: u64 where "XQC_TRANS_FRAME_TYPE_PATH_STATUS_BACKUP = 0x3e76"
definition XQC_TRANS_FRAME_TYPE_PATH_STATUS_AVAILABLE_V21 :: u64 where
  "XQC_TRANS_FRAME_TYPE_PATH_STATUS_AVAILABLE_V21 = 0x3e77"
definition XQC_TRANS_FRAME_TYPE_PATH_NEW_CONNECTION_ID_V21 :: u64 where
  "XQC_TRANS_FRAME_TYPE_PATH_NEW_CONNECTION_ID_V21 = 0x3e78"
definition XQC_TRANS_FRAME_TYPE_PATH_RETIRE_CONNECTION_ID_V21 :: u64 where
  "XQC_TRANS_FRAME_TYPE_PATH_RETIRE_CONNECTION_ID_V21 = 0x3e79"
definition XQC_TRANS_FRAME_TYPE_MAX_PATH_ID_V21 :: u64 where "XQC_TRANS_FRAME_TYPE_MAX_PATH_ID_V21 = 0x3e7a"
definition XQC_TRANS_FRAME_TYPE_PATHS_BLOCKED :: u64 where "XQC_TRANS_FRAME_TYPE_PATHS_BLOCKED = 0x3e7b"
definition XQC_TRANS_FRAME_TYPE_PATH_CIDS_BLOCKED :: u64 where "XQC_TRANS_FRAME_TYPE_PATH_CIDS_BLOCKED = 0x3e7c"
definition XQC_TRANS_FRAME_TYPE_ACK_EXT :: u64 where "XQC_TRANS_FRAME_TYPE_ACK_EXT = 0xB1"

definition xqc_frame_is_mp :: "u64 \<Rightarrow> bool" where
  "xqc_frame_is_mp frame_type \<longleftrightarrow> frame_type \<in> set
     [XQC_TRANS_FRAME_TYPE_MP_ACK0, XQC_TRANS_FRAME_TYPE_MP_ACK1, XQC_TRANS_FRAME_TYPE_MP_ABANDON,
      XQC_TRANS_FRAME_TYPE_MP_STANDBY, XQC_TRANS_FRAME_TYPE_MP_AVAILABLE, XQC_TRANS_FRAME_TYPE_MP_FROZEN,
      XQC_TRANS_FRAME_TYPE_MP_NEW_CONN_ID, XQC_TRANS_FRAME_TYPE_MP_RETIRE_CONN_ID, XQC_TRANS_FRAME_TYPE_MAX_PATH_ID,
      XQC_TRANS_FRAME_TYPE_PATH_ACK, XQC_TRANS_FRAME_TYPE_PATH_ACK_ECN, XQC_TRANS_FRAME_TYPE_PATH_ABANDON_V21,
      XQC_TRANS_FRAME_TYPE_PATH_STATUS_BACKUP, XQC_TRANS_FRAME_TYPE_PATH_STATUS_AVAILABLE_V21,
      XQC_TRANS_FRAME_TYPE_PATH_NEW_CONNECTION_ID_V21, XQC_TRANS_FRAME_TYPE_PATH_RETIRE_CONNECTION_ID_V21,
      XQC_TRANS_FRAME_TYPE_MAX_PATH_ID_V21, XQC_TRANS_FRAME_TYPE_PATHS_BLOCKED, XQC_TRANS_FRAME_TYPE_PATH_CIDS_BLOCKED]"

definition xqc_mp_frame_dispatch_table :: "(u64 \<times> u8 \<times> xqc_frame_handler) list" where
  "xqc_mp_frame_dispatch_table =
     [(XQC_TRANS_FRAME_TYPE_MP_ACK0, XQC_MULTIPATH_10, Process_ack_mp),
      (XQC_TRANS_FRAME_TYPE_MP_ACK1, XQC_MULTIPATH_10, Process_ack_mp),
      (XQC_TRANS_FRAME_TYPE_MP_ABANDON, XQC_MULTIPATH_10, Process_path_abandon),
      (XQC_TRANS_FRAME_TYPE_MP_STANDBY, XQC_MULTIPATH_10, Process_path_status),
      (XQC_TRANS_FRAME_TYPE_MP_AVAILABLE, XQC_MULTIPATH_10, Process_path_status),
      (XQC_TRANS_FRAME_TYPE_MP_NEW_CONN_ID, XQC_MULTIPATH_10, Process_mp_new_conn_id),
      (XQC_TRANS_FRAME_TYPE_MP_RETIRE_CONN_ID, XQC_MULTIPATH_10, Process_mp_retire_conn_id),
      (XQC_TRANS_FRAME_TYPE_MAX_PATH_ID, XQC_MULTIPATH_10, Process_max_path_id),
      (XQC_TRANS_FRAME_TYPE_PATH_ACK, XQC_MULTIPATH_3E, Process_ack_mp),
      (XQC_TRANS_FRAME_TYPE_PATH_ACK_ECN, XQC_MULTIPATH_3E, Process_path_ack_ecn),
      (XQC_TRANS_FRAME_TYPE_PATH_ABANDON_V21, XQC_MULTIPATH_3E, Process_path_abandon),
      (XQC_TRANS_FRAME_TYPE_PATH_STATUS_BACKUP, XQC_MULTIPATH_3E, Process_path_status),
      (XQC_TRANS_FRAME_TYPE_PATH_STATUS_AVAILABLE_V21, XQC_MULTIPATH_3E, Process_path_status),
      (XQC_TRANS_FRAME_TYPE_PATH_NEW_CONNECTION_ID_V21, XQC_MULTIPATH_3E, Process_mp_new_conn_id),
      (XQC_TRANS_FRAME_TYPE_PATH_RETIRE_CONNECTION_ID_V21, XQC_MULTIPATH_3E, Process_mp_retire_conn_id),
      (XQC_TRANS_FRAME_TYPE_MAX_PATH_ID_V21, XQC_MULTIPATH_3E, Process_max_path_id),
      (XQC_TRANS_FRAME_TYPE_PATHS_BLOCKED, XQC_MULTIPATH_3E, Process_paths_blocked),
      (XQC_TRANS_FRAME_TYPE_PATH_CIDS_BLOCKED, XQC_MULTIPATH_3E, Process_path_cids_blocked)]"

text \<open>The handler of a frame type, or the error that the dispatch returns.\<close>

definition xqc_dispatch_mp_frame :: "xqc_conn_rx \<Rightarrow> u64 \<Rightarrow> xqc_frame_handler res" where
  "xqc_dispatch_mp_frame c frame_type =
     (if \<not> enable_multipath (rx_sec c) then Inl XQC_EMP_INVALID_MP_VERTION
      else case find (\<lambda>(t, v, h). t = frame_type \<and> v = multipath_version (rx_sec c)) xqc_mp_frame_dispatch_table of
             Some (t, v, h) \<Rightarrow> Inr h
           | None \<Rightarrow> Inl XQC_EMP_INVALID_MP_VERTION)"

definition mp_frozen :: "xqc_conn_rx \<Rightarrow> xqc_frame_handler res" where
  "mp_frozen c =
     (if \<not> enable_multipath (rx_sec c) then Inl XQC_EMP_INVALID_MP_VERTION
      else if multipath_version (rx_sec c) = XQC_MULTIPATH_10 then Inr Process_path_status
      else Inr Parse_path_status)"

definition frame_switch :: "xqc_conn_rx \<Rightarrow> u64 \<Rightarrow> xqc_frame_handler res" where
  "frame_switch c t =
     (if t = 0x00 then Inr Process_padding
      else if t = 0x01 then Inr Process_ping
      else if t = 0x02 \<or> t = 0x03 then Inr Process_ack
      else if t = 0x04 then Inr (if local_reset_stream_at c then Process_reset_stream_with_reset_at else Process_reset_stream)
      else if t = 0x24 then Inr Process_reset_stream_at
      else if t = 0x05 then Inr Process_stop_sending
      else if t = 0x06 then Inr Process_crypto
      else if t = 0x07 then Inr Process_new_token
      else if 0x08 \<le> t \<and> t \<le> 0x0f then Inr Process_stream
      else if t = 0x10 then Inr Process_max_data
      else if t = 0x11 then Inr Process_max_stream_data
      else if t = 0x12 \<or> t = 0x13 then Inr Process_max_streams
      else if t = 0x14 then Inr Process_data_blocked
      else if t = 0x15 then Inr Process_stream_data_blocked
      else if t = 0x16 \<or> t = 0x17 then Inr Process_streams_blocked
      else if t = 0x18 then Inr Process_new_conn_id
      else if t = 0x19 then Inr Process_retire_conn_id
      else if t = 0x1a then Inr Process_path_challenge
      else if t = 0x1b then Inr Process_path_response
      else if t = 0x1c \<or> t = 0x1d then Inr Process_conn_close
      else if t = 0x1e then Inr Process_handshake_done
      else if t = 0x30 \<or> t = 0x31 then Inr Process_datagram
      else if t = XQC_TRANS_FRAME_TYPE_ACK_EXT then Inr Process_ack_ext
      else if t = XQC_TRANS_FRAME_TYPE_MP_FROZEN then mp_frozen c
      else if xqc_frame_is_mp t then xqc_dispatch_mp_frame c t
      else Inl XQC_EIGNORE_PKT)"




text \<open>One round of the loop of \<open>xqc_process_frames\<close>; \<open>None\<close> when the loop goes on.\<close>

definition frame_step :: "rx_env \<Rightarrow> xqc_conn_rx \<Rightarrow> xqc_packet_in_rx \<Rightarrow> xqc_conn_rx \<times> xqc_packet_in_rx \<times> unit res option" where
  "frame_step env c pi =
     (let rest = pi_rest (rx_frames pi) in
      case xqc_vint_read rest of
        None \<Rightarrow> (c, pi, Some (Inl XQC_EVINTREAD))
      | Some (_, frame_type) \<Rightarrow>
          if conn_state (rx_sec c) = XQC_CONN_STATE_CLOSING \<and> frame_type \<noteq> 0x1c \<and> frame_type \<noteq> 0x1d
             \<and> frame_type \<noteq> XQC_TRANS_FRAME_TYPE_MP_ACK0 \<and> frame_type \<noteq> XQC_TRANS_FRAME_TYPE_MP_ACK1
          then (env_immediate_close env c, rx_set_rest [] pi, Some (Inr ()))
          else if conn_state (rx_sec c) \<in> {XQC_CONN_STATE_DRAINING, XQC_CONN_STATE_CLOSED, XQC_CONN_STATE_N}
          then (c, rx_set_rest [] pi, Some (Inr ()))
          else if xqc_frame_is_mp frame_type \<and> pkt_type (pi_pkt (rx_pi pi)) \<noteq> XQC_PTYPE_SHORT_HEADER
          then (rx_conn_err c TRA_PROTOCOL_VIOLATION, pi, Some (Inl XQC_EILLEGAL_FRAME))
          else case frame_switch c frame_type of
                 Inl e \<Rightarrow> (c, pi, Some (Inl e))
               | Inr h \<Rightarrow>
                   (case env_handler env h c pi of
                      (c, pi, Inl e) \<Rightarrow> (c, pi, Some (Inl e))
                    | (c, pi, Inr _) \<Rightarrow>
                        if pi_rest (rx_frames pi) = rest then (c, pi, Some (Inl XQC_ESYS)) else (c, pi, None)))"

partial_function (option) frames_loop ::
    "rx_env \<Rightarrow> xqc_conn_rx \<Rightarrow> xqc_packet_in_rx \<Rightarrow> (xqc_conn_rx \<times> xqc_packet_in_rx \<times> unit res option) option" where
  "frames_loop env c pi =
     (if pi_rest (rx_frames pi) = [] then Some (c, pi, None)
      else case frame_step env c pi of
             (c, pi, Some r) \<Rightarrow> Some (c, pi, Some r)
           | (c, pi, None) \<Rightarrow> frames_loop env c pi)"

text \<open>After the last frame: a packet without frames is an error, and packets with DATAGRAM frames are counted.\<close>

definition frames_done :: "xqc_conn_rx \<Rightarrow> xqc_packet_in_rx \<Rightarrow> rx_result" where
  "frames_done c pi =
     (let types = pi_frame_types (rx_frames pi);
          c = (if types = 0 then rx_conn_err c TRA_PROTOCOL_VIOLATION else c);
          p = pi_path_id (rx_pi pi);
          c = (if xqc_conn_find_path_by_path_id (rx_sec c) p \<noteq> None \<and> types AND XQC_FRAME_BIT XQC_FRAME_DATAGRAM \<noteq> 0
               then let c = c\<lparr>ctl_dgram_recv_count := (ctl_dgram_recv_count c)(p := ctl_dgram_recv_count c p + 1)\<rparr>
                    in if pi_flag (rx_pi pi) AND XQC_PIF_REINJECTED_REPLICA \<noteq> 0
                       then c\<lparr>ctl_reinj_dgram_recv_count :=
                                (ctl_reinj_dgram_recv_count c)(p := ctl_reinj_dgram_recv_count c p + 1)\<rparr>
                       else c
               else c)
      in (c, pi, Inr ()))"

definition xqc_process_frames :: "rx_env \<Rightarrow> xqc_conn_rx \<Rightarrow> xqc_packet_in_rx \<Rightarrow> rx_result option" where
  "xqc_process_frames env c pi =
     (case frames_loop env c pi of
        None \<Rightarrow> None
      | Some (c, pi, Some r) \<Rightarrow> Some (c, pi, r)
      | Some (c, pi, None) \<Rightarrow> Some (frames_done c pi))"

section \<open>One packet\<close>

definition xqc_state_to_pkt_type :: "xqc_conn_state \<Rightarrow> xqc_pkt_type" where
  "xqc_state_to_pkt_type st =
     (if st \<in> {XQC_CONN_STATE_CLIENT_INIT, XQC_CONN_STATE_CLIENT_INITIAL_SENT, XQC_CONN_STATE_CLIENT_INITIAL_RECVD,
               XQC_CONN_STATE_SERVER_INIT, XQC_CONN_STATE_SERVER_INITIAL_RECVD, XQC_CONN_STATE_SERVER_INITIAL_SENT}
      then XQC_PTYPE_INIT
      else if st \<in> {XQC_CONN_STATE_CLIENT_HANDSHAKE_RECVD, XQC_CONN_STATE_CLIENT_HANDSHAKE_SENT,
                    XQC_CONN_STATE_SERVER_HANDSHAKE_SENT, XQC_CONN_STATE_SERVER_HANDSHAKE_RECVD}
      then XQC_PTYPE_HSK
      else XQC_PTYPE_SHORT_HEADER)"

definition xqc_packet_need_decrypt :: "xqc_packet \<Rightarrow> bool" where
  "xqc_packet_need_decrypt pkt = xqc_has_packet_number (pkt_type pkt)"

definition xqc_conn_check_initial_packet_from_cur_state :: "xqc_conn_state \<Rightarrow> bool" where
  "xqc_conn_check_initial_packet_from_cur_state cur_state \<longleftrightarrow>
     cur_state \<in> {XQC_CONN_STATE_CLIENT_INIT, XQC_CONN_STATE_CLIENT_INITIAL_SENT, XQC_CONN_STATE_CLIENT_INITIAL_RECVD,
                  XQC_CONN_STATE_SERVER_INIT, XQC_CONN_STATE_SERVER_INITIAL_RECVD, XQC_CONN_STATE_SERVER_INITIAL_SENT,
                  XQC_CONN_STATE_SERVER_HANDSHAKE_SENT, XQC_CONN_STATE_SERVER_HANDSHAKE_RECVD}"

definition xqc_conn_check_handshake_completed :: "xqc_conn_rx \<Rightarrow> bool" where
  "xqc_conn_check_handshake_completed c \<longleftrightarrow> conn_flag (rx_sec c) AND XQC_CONN_FLAG_HANDSHAKE_COMPLETED \<noteq> 0"

text \<open>The copy of a packet that is kept: the fields that \<open>xqc_conn_buff_undecrypt_packet_in\<close> does not set are zero.\<close>

definition undecrypt_copy :: "xqc_packet_in_rx \<Rightarrow> xqc_packet_in_rx" where
  "undecrypt_copy pi =
     pi\<lparr>rx_pi := (rx_pi pi)\<lparr>pi_datagram_size := 0, pi_path_id := 0, pi_flag := 0, decode_payload_size := 0, decode_payload := []\<rparr>,
        rx_frames := \<lparr>pi_pkt_pns = pkt_pns (pi_pkt (rx_pi pi)), pi_rest = [], pi_frame_types = 0\<rparr>\<rparr>"

definition xqc_conn_buff_undecrypt_packet_in ::
    "bool \<Rightarrow> xqc_packet_in_rx \<Rightarrow> xqc_conn_rx \<Rightarrow> xqc_encrypt_level \<Rightarrow> xqc_conn_rx \<times> unit res" where
  "xqc_conn_buff_undecrypt_packet_in malloc_ok pi c level =
     (if undecrypt_count c level \<ge> XQC_UNDECRYPT_PACKET_MAX \<or> length (pi_buf (rx_pi pi)) > XQC_MAX_PACKET_IN_LEN
      then (c, Inl XQC_ELIMIT)
      else if conn_type (rx_sec c) = XQC_CONN_TYPE_SERVER \<and> conn_flag (rx_sec c) AND XQC_CONN_FLAG_DCID_OK = 0
              \<and> level = XQC_ENC_LEV_0RTT \<and> undecrypt_count c level > XQC_UNDECRYPT_0RTT_MAX_BEFORE_INIT
      then (c, Inl XQC_ELIMIT)
      else if \<not> malloc_ok then (c, Inl XQC_EMALLOC)
      else (c\<lparr>undecrypt_packet_in := (undecrypt_packet_in c)(level := undecrypt_packet_in c level @ [undecrypt_copy pi]),
              undecrypt_count := (undecrypt_count c)(level := undecrypt_count c level + 1)\<rparr>, Inr ()))"

definition parse_short :: "rx_env \<Rightarrow> xqc_conn_rx \<Rightarrow> xqc_packet_in_rx \<Rightarrow> rx_result" where
  "parse_short env c pi =
     (case xqc_packet_parse_short_header (rx_sec c) (rx_pi pi) of
        (s, p, Inl e) \<Rightarrow> (c\<lparr>rx_sec := s\<rparr>, pi\<lparr>rx_pi := p\<rparr>, Inl e)
      | (s, p, Inr _) \<Rightarrow>
          (let c = c\<lparr>rx_sec := s\<rparr>; pi = pi\<lparr>rx_pi := p\<rparr>
           in if \<not> xqc_conn_check_handshake_completed c
              then (fst (xqc_conn_buff_undecrypt_packet_in (env_malloc_ok env) pi c XQC_ENC_LEV_1RTT), pi, Inl XQC_EWAITING)
              else (c, pi, Inr ())))"

text \<open>The tests in front of the header of a long packet: \<open>None\<close> when the packet is to be parsed.\<close>

definition long_not_ready :: "rx_env \<Rightarrow> xqc_conn_rx \<Rightarrow> xqc_packet_in_rx \<Rightarrow> nat \<Rightarrow> xqc_conn_rx \<times> unit res option" where
  "long_not_ready env c pi type =
     (if type = pkt_type_num XQC_PTYPE_0RTT then
        (if conn_type (rx_sec c) = XQC_CONN_TYPE_CLIENT then (c, Some (Inl XQC_EIGNORE_PKT))
         else let c = c\<lparr>rx_sec := (rx_sec c)\<lparr>conn_flag := conn_flag (rx_sec c) OR XQC_CONN_FLAG_HAS_0RTT\<rparr>\<rparr>
              in if \<not> xqc_tls_is_key_ready (rx_sec c) XQC_ENC_LEV_0RTT XQC_KEY_TYPE_RX_READ
                 then (fst (xqc_conn_buff_undecrypt_packet_in (env_malloc_ok env) pi c XQC_ENC_LEV_0RTT), Some (Inl XQC_EWAITING))
                 else (c, None))
      else if type = pkt_type_num XQC_PTYPE_HSK \<and> \<not> xqc_tls_is_key_ready (rx_sec c) XQC_ENC_LEV_HSK XQC_KEY_TYPE_RX_READ
      then (fst (xqc_conn_buff_undecrypt_packet_in (env_malloc_ok env) pi c XQC_ENC_LEV_HSK), Some (Inl XQC_EWAITING))
      else if type = pkt_type_num XQC_PTYPE_INIT \<and> \<not> xqc_conn_check_initial_packet_from_cur_state (conn_state (rx_sec c))
      then (c, Some (Inl XQC_EIGNORE_PKT))
      else (c, None))"

definition parse_long :: "rx_env \<Rightarrow> xqc_conn_rx \<Rightarrow> xqc_packet_in_rx \<Rightarrow> nat \<Rightarrow> rx_result" where
  "parse_long env c pi type =
     (case xqc_packet_parse_long_header (env_retry env) (rx_sec c) (rx_pi pi) of
        (s, p, Inl e) \<Rightarrow> (c\<lparr>rx_sec := s\<rparr>, pi\<lparr>rx_pi := p\<rparr>, Inl e)
      | (s, p, Inr _) \<Rightarrow>
          (let c = c\<lparr>rx_sec := s\<rparr>; pi = pi\<lparr>rx_pi := p\<rparr>
           in if type = pkt_type_num XQC_PTYPE_INIT \<and> conn_type (rx_sec c) = XQC_CONN_TYPE_SERVER
                 \<and> conn_flag (rx_sec c) AND XQC_CONN_FLAG_SERVER_ACCEPT = 0
              then (case env_server_accept env c pi of (c, r) \<Rightarrow> (c, pi, r))
              else (c, pi, Inr ())))"

definition xqc_packet_parse_single :: "rx_env \<Rightarrow> xqc_conn_rx \<Rightarrow> xqc_packet_in_rx \<Rightarrow> rx_result" where
  "xqc_packet_parse_single env c pi =
     (let pos = pi_pos (rx_pi pi);
          b = pi_buf (rx_pi pi) ! pos
      in if XQC_BUFF_LEFT_SIZE pos (pi_last (rx_pi pi)) = 0 then (c, pi, Inl XQC_EILLPKT)
         else if XQC_PACKET_IS_SHORT_HEADER b then parse_short env c pi
         else if XQC_PACKET_IS_LONG_HEADER b then
           (case long_not_ready env c pi (XQC_PACKET_LONG_HEADER_GET_TYPE b) of
              (c, Some r) \<Rightarrow> (c, pi, r)
            | (c, None) \<Rightarrow> parse_long env c pi (XQC_PACKET_LONG_HEADER_GET_TYPE b))
         else (c, pi, Inl XQC_EIGNORE_PKT))"

text \<open>A packet that cannot be decrypted is dropped and counted, and closes the connection beyond the integrity limit.\<close>

definition drop_undecryptable :: "xqc_conn_rx \<Rightarrow> xqc_conn_rx \<times> unit res" where
  "drop_undecryptable c =
     (let c = c\<lparr>packet_dropped_count := packet_dropped_count c + 1\<rparr>;
          cid = xqc_tls_get_1rtt_cipher_id (rx_sec c)
      in if cid \<noteq> 0 \<and> packet_dropped_count c > xqc_aead_integrity_limit cid
         then (rx_conn_err c TRA_AEAD_LIMIT_REACHED, Inl XQC_EAEAD_LIMIT)
         else (c, Inl XQC_EDECRYPT))"

text \<open>While the frames are processed, \<open>pos\<close> and \<open>last\<close> of the packet point into the decrypted payload.\<close>

definition xqc_packet_decrypt_single :: "rx_env \<Rightarrow> u64 \<Rightarrow> xqc_conn_rx \<Rightarrow> xqc_packet_in_rx \<Rightarrow> rx_result option" where
  "xqc_packet_decrypt_single env now c pi =
     (let tail = pi_last (rx_pi pi) in
      case xqc_packet_decrypt now (rx_sec c) (rx_pi pi) of
        (s, p, Inr _) \<Rightarrow>
          (let c = c\<lparr>rx_sec := s\<rparr>;
               pi = pi\<lparr>rx_pi := p, rx_frames := (rx_frames pi)\<lparr>pi_pkt_pns := pkt_pns (pi_pkt p), pi_rest := decode_payload p\<rparr>\<rparr>
           in case xqc_process_frames env c pi of
                None \<Rightarrow> None
              | Some (c, pi, Inl e) \<Rightarrow> Some (c, pi, Inl e)
              | Some (c, pi, Inr _) \<Rightarrow> Some (c, pi\<lparr>rx_pi := (rx_pi pi)\<lparr>pi_last := tail\<rparr>\<rparr>, Inr ()))
      | (s, p, Inl e) \<Rightarrow>
          (let c = c\<lparr>rx_sec := s\<rparr>; pi = pi\<lparr>rx_pi := p\<rparr>
           in if e = XQC_TLS_DATA_REJECT then Some (c, pi, Inl XQC_EIGNORE_PKT)
              else case drop_undecryptable c of (c, r) \<Rightarrow> Some (c, pi, r)))"

definition xqc_packet_check_coalesced_dcid :: "xqc_packet_in_rx \<Rightarrow> xqc_cid \<Rightarrow> xqc_packet_in_rx \<times> unit res" where
  "xqc_packet_check_coalesced_dcid pi first_dcid =
     (if xqc_cid_is_equal first_dcid (pkt_dcid (pi_pkt (rx_pi pi))) then (pi, Inr ())
      else (pi\<lparr>rx_pi := (rx_pi pi)\<lparr>pi_pos := pi_last (rx_pi pi)\<rparr>\<rparr>, Inl XQC_EIGNORE_PKT))"

text \<open>The third result is \<open>dcid_mismatch\<close>. A \<open>first_dcid\<close> of \<open>None\<close> is the null pointer.\<close>

definition xqc_packet_process_single ::
    "rx_env \<Rightarrow> u64 \<Rightarrow> xqc_conn_rx \<Rightarrow> xqc_packet_in_rx \<Rightarrow> xqc_cid option
     \<Rightarrow> (xqc_conn_rx \<times> xqc_packet_in_rx \<times> bool \<times> unit res) option" where
  "xqc_packet_process_single env now c pi first_dcid =
     (case xqc_packet_parse_single env c pi of
        (c, pi, Inl e) \<Rightarrow> Some (c, pi, False, Inl e)
      | (c, pi, Inr _) \<Rightarrow>
          (case (case first_dcid of None \<Rightarrow> (pi, Inr ()) | Some cid \<Rightarrow> xqc_packet_check_coalesced_dcid pi cid) of
             (pi, Inl e) \<Rightarrow> Some (c, pi, True, Inl e)
           | (pi, Inr _) \<Rightarrow>
               if \<not> xqc_packet_need_decrypt (pi_pkt (rx_pi pi)) then Some (c, pi, False, Inr ())
               else map_option (\<lambda>(c, pi, r). (c, pi, False, r)) (xqc_packet_decrypt_single env now c pi)))"

section \<open>A datagram\<close>

definition xqc_conn_tolerant_error :: "xqc_err \<Rightarrow> bool" where
  "xqc_conn_tolerant_error e \<longleftrightarrow> e \<in> {XQC_EVERSION, XQC_EILLPKT, XQC_EWAITING, XQC_EIGNORE_PKT, XQC_EDECRYPT}"

definition xqc_calc_delay :: "u64 \<Rightarrow> u64 \<Rightarrow> u64" where
  "xqc_calc_delay a b = (if a \<noteq> 0 then a - b else 0)"

definition xqc_conn_log_recvd_packet :: "xqc_conn_rx \<Rightarrow> xqc_packet_in_rx \<Rightarrow> nat \<Rightarrow> unit res \<Rightarrow> u64 \<Rightarrow> xqc_conn_rx" where
  "xqc_conn_log_recvd_packet c pi udp_size err timestamp =
     (let st = rcv_pkt_stats c;
          i = st_curr_index st;
          pkt = pi_pkt (rx_pi pi)
      in c\<lparr>rcv_pkt_stats := st\<lparr>st_pkt_frames := (st_pkt_frames st)[i := pi_frame_types (rx_frames pi)],
              st_pkt_err := (st_pkt_err st)[i := err],
              st_pkt_size := (st_pkt_size st)[i := ucast (pkt_length pkt)],
              st_pkt_timestamp := (st_pkt_timestamp st)[i := xqc_calc_delay timestamp (conn_create_time c) div 1000],
              st_pkt_udp_size := (st_pkt_udp_size st)[i := of_nat udp_size],
              st_pkt_types := (st_pkt_types st)[i := pkt_type pkt],
              st_pkt_pn := (st_pkt_pn st)[i := pkt_num pkt],
              conn_rcvd_pkts := conn_rcvd_pkts st + 1,
              st_curr_index := (i + 1) mod 3\<rparr>\<rparr>)"

text \<open>The packet that \<open>memset\<close> and \<open>xqc_packet_in_init\<close> prepare for the bytes from \<open>off\<close> on.\<close>

definition xqc_packet_in_init :: "bytes \<Rightarrow> nat \<Rightarrow> u64 \<Rightarrow> xqc_packet_in_rx" where
  "xqc_packet_in_init datagram off recv_time =
     \<lparr>rx_pi = \<lparr>pi_pkt = \<lparr>pkt_num = 0, pkt_pns = XQC_PNS_INIT, pkt_type = XQC_PTYPE_INIT, pkt_dcid = xqc_cid_init_zero,
                        pkt_scid = xqc_cid_init_zero, pkt_length = 0, pkt_num_offset = 0\<rparr>,
               pi_buf = drop off datagram, pi_datagram_size = length datagram, pi_pos = 0,
               pi_last = length datagram - off, pi_path_id = XQC_UNKNOWN_PATH_ID,
               pi_flag = 0, decode_payload_size = XQC_MAX_PACKET_IN_LEN, decode_payload = []\<rparr>,
      rx_frames = \<lparr>pi_pkt_pns = XQC_PNS_INIT, pi_rest = [], pi_frame_types = 0\<rparr>,
      pkt_recv_time = recv_time\<rparr>"

text \<open>
  One round of the loop of \<open>xqc_conn_process_packet\<close>. The result is the connection with either the return value or the
  offset of the next packet and \<open>first_dcid\<close>. After a decryption \<open>pos\<close> points into the payload, so only a packet
  without number can be found not to have moved it.
\<close>

definition packet_round ::
    "rx_env \<Rightarrow> u64 \<Rightarrow> xqc_conn_rx \<Rightarrow> bytes \<Rightarrow> u64 \<Rightarrow> nat \<Rightarrow> xqc_cid option
     \<Rightarrow> (xqc_conn_rx \<times> (unit res + nat \<times> xqc_cid option)) option" where
  "packet_round env now c datagram recv_time off first_dcid =
     (case xqc_packet_process_single env now c (xqc_packet_in_init datagram off recv_time) (if off = 0 then None else first_dcid) of
        None \<Rightarrow> None
      | Some (c, pi, dcid_mismatch, ret) \<Rightarrow>
          (let p = rx_pi pi;
               first_dcid = (if isl ret \<or> off \<noteq> 0 then first_dcid
                             else Some (xqc_cid_copy xqc_cid_init_zero (pkt_dcid (pi_pkt p))));
               c = xqc_conn_log_recvd_packet c pi (length datagram) ret recv_time
           in case ret of
                Inl e \<Rightarrow>
                  Some (if dcid_mismatch then (c, Inr (off + pi_last p, first_dcid))
                        else if xqc_conn_tolerant_error e then (c, Inl (Inr ()))
                        else (c, Inl (Inl e)))
              | Inr _ \<Rightarrow>
                  Some (case env_on_pkt_processed env c pi recv_time of
                     (c, Inl e) \<Rightarrow> (c, Inl (Inl e))
                   | (c, Inr _) \<Rightarrow>
                       (let numbered = xqc_has_packet_number (pkt_type (pi_pkt p));
                            c = (if numbered
                                 then c\<lparr>rcv_pkt_stats := (rcv_pkt_stats c)\<lparr>conn_authenticated_pkts :=
                                          conn_authenticated_pkts (rcv_pkt_stats c) + 1\<rparr>\<rparr>
                                 else c)
                        in if \<not> numbered \<and> pi_pos p = 0 then (c, Inl (Inl XQC_ESYS))
                           else (c, Inr (off + pi_last p, first_dcid))))))"

partial_function (option) packets_loop ::
    "rx_env \<Rightarrow> u64 \<Rightarrow> xqc_conn_rx \<Rightarrow> bytes \<Rightarrow> u64 \<Rightarrow> nat \<Rightarrow> xqc_cid option \<Rightarrow> (xqc_conn_rx \<times> unit res) option" where
  "packets_loop env now c datagram recv_time off first_dcid =
     (if off \<ge> length datagram then Some (c, Inr ())
      else case packet_round env now c datagram recv_time off first_dcid of
             None \<Rightarrow> None
           | Some (c, Inl r) \<Rightarrow> Some (c, r)
           | Some (c, Inr (off, first_dcid)) \<Rightarrow> packets_loop env now c datagram recv_time off first_dcid)"


section \<open>Packets kept for later keys\<close>



text \<open>When the packets that were kept at a level can be processed.\<close>

definition level_ready :: "xqc_encrypt_level \<Rightarrow> xqc_conn_sec \<Rightarrow> bool" where
  "level_ready level s =
     (if level = XQC_ENC_LEV_1RTT then conn_flag s AND XQC_CONN_FLAG_HANDSHAKE_COMPLETED \<noteq> 0
      else xqc_tls_is_key_ready s level XQC_KEY_TYPE_RX_READ)"



definition xqc_conn_has_undecrypt_packets :: "xqc_conn_rx \<Rightarrow> bool" where
  "xqc_conn_has_undecrypt_packets c \<longleftrightarrow>
     undecrypt_count c XQC_ENC_LEV_1RTT \<noteq> 0 \<or> undecrypt_count c XQC_ENC_LEV_0RTT \<noteq> 0 \<or> undecrypt_count c XQC_ENC_LEV_HSK \<noteq> 0"

section \<open>Every datagram is processed in finitely many steps\<close>
















section \<open>What processing keeps\<close>

text \<open>
  Keys and the end of the handshake do not go away: \<open>s'\<close> has the keys and flags that make the kept packets of a level ready whenever \<open>s\<close>
  has them.
\<close>

definition ready_le :: "xqc_conn_sec \<Rightarrow> xqc_conn_sec \<Rightarrow> bool" where
  "ready_le s s' \<longleftrightarrow> (\<forall>level. level_ready level s \<longrightarrow> level_ready level s')"

lemma ready_le_refl [simp]: "ready_le s s"
  by (simp add: ready_le_def)


text \<open>A handler or callback that leaves the list of a level alone once the level is ready.\<close>

definition keeps :: "xqc_conn_rx \<Rightarrow> xqc_conn_rx \<Rightarrow> bool" where
  "keeps c c' \<longleftrightarrow>
     (\<forall>level. level_ready level (rx_sec c) \<longrightarrow>
        level_ready level (rx_sec c') \<and> undecrypt_packet_in c' level = undecrypt_packet_in c level)"

lemma keeps_refl [simp]: "keeps c c"
  by (simp add: keeps_def)



lemma keeps_fields [simp]:
  "keeps c (c'\<lparr>packet_dropped_count := n\<rparr>) = keeps c c'" "keeps c (c'\<lparr>rcv_pkt_stats := st\<rparr>) = keeps c c'"
  "keeps c (c'\<lparr>ctl_dgram_recv_count := f\<rparr>) = keeps c c'" "keeps c (c'\<lparr>ctl_reinj_dgram_recv_count := f\<rparr>) = keeps c c'"
  by (simp_all add: keeps_def)





subsection \<open>Headers\<close>











subsection \<open>Decryption\<close>

text \<open>\<open>s'\<close> differs from \<open>s\<close> at most in the 1-RTT keys, in what the second slot for reading holds, and in the timers.\<close>

definition only_1rtt_keys :: "xqc_conn_sec \<Rightarrow> xqc_conn_sec \<Rightarrow> bool" where
  "only_1rtt_keys s s' \<longleftrightarrow>
     (\<exists>k x m. s' = s\<lparr>tls_crypto := (tls_crypto s)(XQC_ENC_LEV_1RTT := k),
                    key_update_ctx := (key_update_ctx s)\<lparr>other_rx_keys := x\<rparr>, conn_timer_manager := m\<rparr>)"

lemma only_1rttI: "s' = s\<lparr>tls_crypto := (tls_crypto s)(XQC_ENC_LEV_1RTT := k), key_update_ctx := (key_update_ctx s)\<lparr>other_rx_keys := x\<rparr>,
    conn_timer_manager := m\<rparr> \<Longrightarrow> only_1rtt_keys s s'"
  by (auto simp: only_1rtt_keys_def)

lemma only_1rtt_refl [simp]: "only_1rtt_keys s s"
  by (rule only_1rttI [where k = "tls_crypto s XQC_ENC_LEV_1RTT" and x = "other_rx_keys (key_update_ctx s)" and m = "conn_timer_manager s"]) simp


lemma crypto_set_1rtt [simp]: "only_1rtt_keys s (crypto_set XQC_ENC_LEV_1RTT k s)"
  by (rule only_1rttI [where k = "Some k" and x = "other_rx_keys (key_update_ctx s)" and m = "conn_timer_manager s"]) (simp add: crypto_set_def)














subsection \<open>Packets and datagrams\<close>


















section \<open>Termination\<close>









declare frames_loop.simps [code] packets_loop.simps [code]

section \<open>Packets that cannot be decrypted\<close>



lemma decode_number_type [simp]: "pkt_type (pi_pkt (decode_number s p)) = pkt_type (pi_pkt p)"
  by (simp add: decode_number_def Let_def)




section \<open>A closing connection\<close>

text \<open>
  The comment in \<open>xqc_process_frames\<close> exempts acknowledgments from the answer of a closing connection. The code does so
  only for those of draft 10 of multipath: an ACK frame of RFC 9000 is answered like any other frame.
\<close>

lemma closing_answers_ack:
  assumes "conn_state (rx_sec c) = XQC_CONN_STATE_CLOSING" and "pi_rest (rx_frames pi) = 0x02 # rest"
  shows "frame_step env c pi = (env_immediate_close env c, rx_set_rest [] pi, Some (Inr ()))"
proof -
  have "xqc_vint_read (0x02 # rest) = Some (1, 2)" by (simp add: xqc_vint_read_eq be_val_Cons)
  then show ?thesis using assms
    by (simp add: frame_step_def XQC_TRANS_FRAME_TYPE_MP_ACK0_def XQC_TRANS_FRAME_TYPE_MP_ACK1_def)
qed

end
