(* ===== verification/Spec2Isabelle.thy ===== *)
theory Spec2Isabelle
  imports Ack_Frame Stream_Frame Stream_Recv Stream_Cap Flow_Control Prefixed_Str Retry Key_Update Packet_Process
begin

text \<open>Root theory of the development.\<close>

end
